(* ===== verification/Prelude.thy ===== *)
theory Prelude
  imports Complex_Main "HOL-Library.Word"
begin

text \<open>
  Shared vocabulary of the development.  Go values are rendered as follows:
  a \<^verbatim>\<open>string\<close> is a HOL \<open>string\<close> (a list of bytes), an \<^verbatim>\<open>int\<close> or \<^verbatim>\<open>int64\<close> is an
  \<open>int\<close> with the wrap-around of 64-bit arithmetic written out by \<open>wrap64\<close> where
  it can happen, a \<^verbatim>\<open>map[K]V\<close> is a HOL map, a \<^verbatim>\<open>*timestamppb.Timestamp\<close> is an
  \<open>int option\<close> counting nanoseconds, and a call returning \<^verbatim>\<open>(T, error)\<close> has type
  \<open>'e + 'a\<close> with \<open>Inl\<close> the error.  Iteration over a Go map visits its keys in an
  unspecified order; such loops take the visiting order as an argument.
\<close>

named_theorems queue_simps "equations of the bounded queue"
named_theorems lane_simps "equations of the scheduler's lanes"
named_theorems record_simps "accessors over deployment and instance records"
named_theorems store_simps "equations of the state store"

type_synonym gostring = string
type_synonym timestamp = int
type_synonym duration = int

abbreviation millisecond :: duration where "millisecond \<equiv> 1000000"
abbreviation second :: duration where "second \<equiv> 1000000000"
abbreviation minute :: duration where "minute \<equiv> 60000000000"

subsection \<open>64-bit integers\<close>

text \<open>Two's complement wrap-around of Go's 64-bit signed integers.\<close>

definition wrap64 :: "int \<Rightarrow> int" where
  "wrap64 x = (x + 2 ^ 63) mod 2 ^ 64 - 2 ^ 63"

definition max_int64 :: int where "max_int64 = 2 ^ 63 - 1"
definition min_int64 :: int where "min_int64 = - (2 ^ 63)"

lemma wrap64_id [simp]: "min_int64 \<le> x \<Longrightarrow> x \<le> max_int64 \<Longrightarrow> wrap64 x = x"
  by (simp add: wrap64_def min_int64_def max_int64_def)

lemma wrap64_nonneg: "0 \<le> x \<Longrightarrow> x \<le> max_int64 \<Longrightarrow> wrap64 x = x"
  by (simp add: wrap64_def max_int64_def)

lemma wrap64_range: "min_int64 \<le> wrap64 x" "wrap64 x \<le> max_int64"
proof -
  have "0 \<le> (x + 2 ^ 63) mod (2 ^ 64 :: int)" and "(x + 2 ^ 63) mod (2 ^ 64 :: int) < 2 ^ 64"
    by simp_all
  then show "min_int64 \<le> wrap64 x" and "wrap64 x \<le> max_int64"
    by (simp_all add: wrap64_def min_int64_def max_int64_def)
qed

text \<open>The same for 32 bits.\<close>

definition wrap32 :: "int \<Rightarrow> int" where
  "wrap32 x = (x + 2 ^ 31) mod 2 ^ 32 - 2 ^ 31"

lemma wrap32_id [simp]: "- (2 ^ 31) \<le> x \<Longrightarrow> x < 2 ^ 31 \<Longrightarrow> wrap32 x = x"
  by (simp add: wrap32_def)

lemma wrap32_nonneg: "0 \<le> x \<Longrightarrow> x < 2 ^ 31 \<Longrightarrow> wrap32 x = x"
  by (simp add: wrap32_def)

text \<open>Go's integer division truncates towards zero.\<close>

definition go_quot :: "int \<Rightarrow> int \<Rightarrow> int" where
  "go_quot a b = (if a < 0 then - ((- a) div b) else a div b)"

text \<open>\<^verbatim>\<open>time.Time.Sub\<close> saturates at the range of \<^verbatim>\<open>time.Duration\<close> (an int64).\<close>

definition time_sub :: "timestamp \<Rightarrow> timestamp \<Rightarrow> duration" where
  "time_sub a b = max min_int64 (min max_int64 (a - b))"

lemma time_sub_exact:
  "min_int64 \<le> a - b \<Longrightarrow> a - b \<le> max_int64 \<Longrightarrow> time_sub a b = a - b"
  by (simp add: time_sub_def)

lemma time_sub_mono: "a \<le> a' \<Longrightarrow> time_sub a b \<le> time_sub a' b"
  by (auto simp: time_sub_def)

lemma time_sub_less_iff:
  "d < max_int64 \<Longrightarrow> min_int64 \<le> d \<Longrightarrow> d < time_sub a b \<longleftrightarrow> d < a - b"
  by (auto simp: time_sub_def)

subsection \<open>Results\<close>

fun bindE :: "'e + 'a \<Rightarrow> ('a \<Rightarrow> 'e + 'b) \<Rightarrow> 'e + 'b" where
  "bindE (Inl e) f = Inl e"
| "bindE (Inr x) f = f x"

lemma bindE_Inr_iff: "bindE m f = Inr y \<longleftrightarrow> (\<exists>x. m = Inr x \<and> f x = Inr y)"
  by (cases m) auto

lemma bindE_Inl_iff:
  "bindE m f = Inl e \<longleftrightarrow> m = Inl e \<or> (\<exists>x. m = Inr x \<and> f x = Inl e)"
  by (cases m) auto

subsection \<open>Strings\<close>

text \<open>\<^verbatim>\<open>strings.HasPrefix\<close> and \<^verbatim>\<open>strings.CutPrefix\<close>.\<close>

definition has_prefix :: "gostring \<Rightarrow> gostring \<Rightarrow> bool" where
  "has_prefix s p \<longleftrightarrow> take (length p) s = p"

definition cut_prefix :: "gostring \<Rightarrow> gostring \<Rightarrow> gostring option" where
  "cut_prefix s p = (if has_prefix s p then Some (drop (length p) s) else None)"

lemma has_prefix_iff: "has_prefix s p \<longleftrightarrow> (\<exists>t. s = p @ t)"
proof
  assume "has_prefix s p"
  then have "s = p @ drop (length p) s"
    unfolding has_prefix_def by (metis append_take_drop_id)
  then show "\<exists>t. s = p @ t" ..
qed (auto simp: has_prefix_def)

lemma cut_prefix_Some: "cut_prefix s p = Some t \<longleftrightarrow> s = p @ t"
  by (auto simp: cut_prefix_def has_prefix_iff)

lemma cut_prefix_shorter: "cut_prefix s p = Some t \<Longrightarrow> p \<noteq> [] \<Longrightarrow> length t < length s"
  by (auto simp: cut_prefix_Some)

lemma cut_prefix_append [simp]: "cut_prefix (p @ t) p = Some t"
  by (simp add: cut_prefix_Some)

text \<open>
  \<^verbatim>\<open>strings.TrimSpace\<close>: the UTF-8 encodings of the runes \<^verbatim>\<open>unicode.IsSpace\<close> accepts are
  removed from both ends.
\<close>

definition space_seqs :: "gostring list" where
  "space_seqs =
     map (map char_of)
       ([[9], [10], [11], [12], [13], [32], [194, 133], [194, 160], [225, 154, 128],
         [226, 128, 128], [226, 128, 129], [226, 128, 130], [226, 128, 131], [226, 128, 132],
         [226, 128, 133], [226, 128, 134], [226, 128, 135], [226, 128, 136], [226, 128, 137],
         [226, 128, 138], [226, 128, 168], [226, 128, 169], [226, 128, 175], [226, 129, 159],
         [227, 128, 128]] :: nat list list)"

fun strip_one :: "gostring list \<Rightarrow> gostring \<Rightarrow> gostring option" where
  "strip_one [] s = None"
| "strip_one (p # ps) s = (case cut_prefix s p of Some t \<Rightarrow> Some t | None \<Rightarrow> strip_one ps s)"

lemma strip_one_shorter:
  "strip_one ps s = Some t \<Longrightarrow> [] \<notin> set ps \<Longrightarrow> length t < length s"
  by (induction ps s rule: strip_one.induct)
     (auto simp: cut_prefix_Some split: option.splits)

lemma space_seqs_nonempty: "[] \<notin> set space_seqs" "[] \<notin> set (map rev space_seqs)"
  by (simp_all add: space_seqs_def)

function trim_left_space :: "gostring \<Rightarrow> gostring" where
  "trim_left_space s = (case strip_one space_seqs s of None \<Rightarrow> s | Some t \<Rightarrow> trim_left_space t)"
  by pat_completeness auto
termination
  by (relation "measure length") (auto dest: strip_one_shorter simp: space_seqs_nonempty)

function trim_right_rev :: "gostring \<Rightarrow> gostring" where
  "trim_right_rev s =
     (case strip_one (map rev space_seqs) s of None \<Rightarrow> s | Some t \<Rightarrow> trim_right_rev t)"
  by pat_completeness auto
termination
  by (relation "measure length") (auto dest!: strip_one_shorter simp: space_seqs_nonempty(2) simp del: set_map)

declare trim_left_space.simps [simp del] trim_right_rev.simps [simp del]

definition trim_space :: "gostring \<Rightarrow> gostring" where
  "trim_space s = rev (trim_right_rev (rev (trim_left_space s)))"

text \<open>
  \<^verbatim>\<open>strings.ToLower\<close>, as far as a comparison with an ASCII literal can tell: ASCII upper-case
  letters are lowered, and so are U+0130 and U+212A, the two runes outside ASCII whose lower
  case is an ASCII letter.
\<close>

definition lower_char :: "char \<Rightarrow> char" where
  "lower_char c = (if (65 :: nat) \<le> of_char c \<and> (of_char c :: nat) \<le> 90 then char_of (of_char c + 32 :: nat) else c)"

function to_lower :: "gostring \<Rightarrow> gostring" where
  "to_lower [] = []"
| "to_lower (c # cs) =
     (case cut_prefix (c # cs) [char_of (196 :: nat), char_of (176 :: nat)] of
        Some t \<Rightarrow> CHR ''i'' # to_lower t
      | None \<Rightarrow>
          (case cut_prefix (c # cs) [char_of (226 :: nat), char_of (132 :: nat), char_of (170 :: nat)] of
             Some t \<Rightarrow> CHR ''k'' # to_lower t
           | None \<Rightarrow> lower_char c # to_lower cs))"
  by pat_completeness auto
termination
  by (relation "measure length") (auto dest!: cut_prefix_shorter)

text \<open>Text without blanks at its ends, and text without upper-case letters, is left alone.\<close>

definition plain :: "char \<Rightarrow> bool" where
  "plain c \<longleftrightarrow> 33 \<le> (of_char c :: nat) \<and> of_char c < (128 :: nat)"

lemma strip_one_None: "(\<And>p. p \<in> set ps \<Longrightarrow> \<exists>q qs. p = q # qs \<and> q \<noteq> c) \<Longrightarrow> strip_one ps (c # s) = None"
  by (induction ps) (force simp: cut_prefix_def has_prefix_def)+

lemma space_bytes:
  "p \<in> set space_seqs \<Longrightarrow> \<exists>q qs. p = q # qs \<and> \<not> plain q"
  "p \<in> set (map rev space_seqs) \<Longrightarrow> \<exists>q qs. p = q # qs \<and> \<not> plain q"
  by (auto simp: space_seqs_def plain_def)

lemma strip_plain:
  assumes "plain c"
  shows "strip_one space_seqs (c # s) = None" "strip_one (map rev space_seqs) (c # s) = None"
  using space_bytes assms by (metis strip_one_None)+

lemma trim_stop:
  "strip_one space_seqs s = None \<Longrightarrow> trim_left_space s = s"
  "strip_one (map rev space_seqs) s = None \<Longrightarrow> trim_right_rev s = s"
  by (subst trim_left_space.simps, simp) (subst trim_right_rev.simps, simp)

lemma trim_newline: "trim_right_rev (char_of (10 :: nat) # s) = trim_right_rev s"
proof -
  have "strip_one (map rev space_seqs) (char_of (10 :: nat) # s) = Some s"
    by (simp add: space_seqs_def cut_prefix_def has_prefix_def)
  then show ?thesis by (subst trim_right_rev.simps) simp
qed

lemma trim_space_plain:
  assumes "plain (hd s)" "plain (last s)" "s \<noteq> []"
  shows "trim_space s = s"
proof -
  have "trim_left_space s = s" using assms by (cases s) (simp_all add: trim_stop(1) strip_plain(1))
  moreover have "trim_right_rev (rev s) = rev s"
    using assms by (cases s rule: rev_cases) (simp_all add: trim_stop(2) strip_plain(2))
  ultimately show ?thesis by (simp add: trim_space_def)
qed

lemma to_lower_plain:
  "list_all (\<lambda>c. of_char c < (128 :: nat) \<and> \<not> (65 \<le> (of_char c :: nat) \<and> of_char c \<le> (90 :: nat))) s \<Longrightarrow>
     to_lower s = s"
proof (induction s)
  case (Cons c s)
  have "cut_prefix (c # s) (x # xs) = None" if "128 \<le> (of_char x :: nat)" for x xs
    using that Cons.prems by (auto simp: cut_prefix_def has_prefix_def)
  then show ?case using Cons by (auto simp: lower_char_def)
qed simp

end
