(* ===== verification/Bounded_Queue.thy ===== *)
theory Bounded_Queue
  imports Prelude
begin

text \<open>
  The bounded FIFO of \<^verbatim>\<open>internal/stores/queue\<close>, its in-memory implementation
  \<^verbatim>\<open>internal/stores/queue/inmem\<close> and the servicer pool \<^verbatim>\<open>pool.go\<close> that drains it.  Every
  operation of the in-memory queue runs under the queue's mutex, so each is one atomic
  function on the record; a \<^verbatim>\<open>Pop\<close> that has to park on the condition variable is the
  outcome \<open>PopWait\<close>.  The interface \<^verbatim>\<open>BoundedQueue\<close> is the locale \<open>bounded_fifo\<close>: what the
  pool and the lanes rely on, proved of the in-memory queue by interpretation.
\<close>

subsection \<open>The in-memory queue\<close>

datatype qerr = ErrQueueFull | ErrClosed | ErrCanceled

record 'a bqueue =
  q_capacity :: int
  q_items :: "'a list"
  q_closed :: bool

datatype 'a pop_outcome = Popped 'a | PopError qerr | PopWait

definition queue_New :: "int \<Rightarrow> 'a bqueue option" where
  "queue_New capacity =
     (if capacity \<le> 0 then None
      else Some \<lparr>q_capacity = capacity, q_items = [], q_closed = False\<rparr>)"

definition queue_Push :: "'a \<Rightarrow> 'a bqueue \<Rightarrow> (qerr + unit) \<times> 'a bqueue" where
  "queue_Push item q =
     (if q_closed q then (Inl ErrClosed, q)
      else if int (length (q_items q)) \<ge> q_capacity q then (Inl ErrQueueFull, q)
      else (Inr (), q\<lparr>q_items := q_items q @ [item]\<rparr>))"

text \<open>One pass of the loop of \<^verbatim>\<open>Pop\<close>; the first argument is \<^verbatim>\<open>ctx.Err() != nil\<close>.\<close>

definition queue_Pop :: "bool \<Rightarrow> 'a bqueue \<Rightarrow> 'a pop_outcome \<times> 'a bqueue" where
  "queue_Pop ctx_done q =
     (case q_items q of
        item # rest \<Rightarrow> (Popped item, q\<lparr>q_items := rest\<rparr>)
      | [] \<Rightarrow>
          if q_closed q then (PopError ErrClosed, q)
          else if ctx_done then (PopError ErrCanceled, q)
          else (PopWait, q))"

definition queue_Len :: "'a bqueue \<Rightarrow> nat" where
  "queue_Len q = length (q_items q)"

definition queue_Cap :: "'a bqueue \<Rightarrow> int" where
  "queue_Cap q = q_capacity q"

definition queue_Close :: "'a bqueue \<Rightarrow> 'a bqueue" where
  "queue_Close q = (if q_closed q then q else q\<lparr>q_closed := True\<rparr>)"

definition queue_invar :: "'a bqueue \<Rightarrow> bool" where
  "queue_invar q \<longleftrightarrow> 0 < q_capacity q \<and> int (length (q_items q)) \<le> q_capacity q"

lemmas queue_defs = queue_New_def queue_Push_def queue_Pop_def queue_Len_def queue_Cap_def
  queue_Close_def queue_invar_def

lemma queue_Close_items [queue_simps, simp]:
  "q_items (queue_Close q) = q_items q"
  "q_closed (queue_Close q)"
  "q_capacity (queue_Close q) = q_capacity q"
  by (simp_all add: queue_Close_def)

lemma queue_New_Some [queue_simps, simp]:
  "queue_New c = Some q \<longleftrightarrow> 0 < c \<and> q = \<lparr>q_capacity = c, q_items = [], q_closed = False\<rparr>"
  by (auto simp: queue_New_def)

lemma queue_Push_cases:
  obtains (closed) "q_closed q" "queue_Push x q = (Inl ErrClosed, q)"
    | (full) "\<not> q_closed q" "int (length (q_items q)) \<ge> q_capacity q"
        "queue_Push x q = (Inl ErrQueueFull, q)"
    | (ok) "\<not> q_closed q" "int (length (q_items q)) < q_capacity q"
        "queue_Push x q = (Inr (), q\<lparr>q_items := q_items q @ [x]\<rparr>)"
  by (auto simp: queue_Push_def split: if_splits) fastforce

lemma queue_Push_Inr [queue_simps]:
  "queue_Push x q = (Inr u, q') \<longleftrightarrow>
     \<not> q_closed q \<and> int (length (q_items q)) < q_capacity q \<and> q' = q\<lparr>q_items := q_items q @ [x]\<rparr>"
  by (auto simp: queue_Push_def)

lemma queue_Push_Inl [queue_simps]:
  "queue_Push x q = (Inl e, q') \<longleftrightarrow>
     q' = q \<and> (q_closed q \<and> e = ErrClosed
       \<or> \<not> q_closed q \<and> int (length (q_items q)) \<ge> q_capacity q \<and> e = ErrQueueFull)"
  by (auto simp: queue_Push_def)

lemma queue_Pop_Popped [queue_simps]:
  "queue_Pop d q = (Popped x, q') \<longleftrightarrow>
     q_items q \<noteq> [] \<and> x = hd (q_items q) \<and> q' = q\<lparr>q_items := tl (q_items q)\<rparr>"
  by (auto simp: queue_Pop_def split: list.splits)

subsection \<open>The interface of a bounded FIFO\<close>

locale bounded_fifo =
  fixes push :: "'a \<Rightarrow> 'q \<Rightarrow> (qerr + unit) \<times> 'q"
    and pop :: "bool \<Rightarrow> 'q \<Rightarrow> 'a pop_outcome \<times> 'q"
    and close :: "'q \<Rightarrow> 'q"
    and len :: "'q \<Rightarrow> nat"
    and room :: "'q \<Rightarrow> nat"
    and contents :: "'q \<Rightarrow> 'a list"
    and is_closed :: "'q \<Rightarrow> bool"
    and invar :: "'q \<Rightarrow> bool"
  assumes push_closed: "invar q \<Longrightarrow> is_closed q \<Longrightarrow> push x q = (Inl ErrClosed, q)"
    and push_full: "invar q \<Longrightarrow> \<not> is_closed q \<Longrightarrow> room q = 0 \<Longrightarrow> push x q = (Inl ErrQueueFull, q)"
    and push_ok: "invar q \<Longrightarrow> \<not> is_closed q \<Longrightarrow> 0 < room q \<Longrightarrow>
      \<exists>q'. push x q = (Inr (), q') \<and> contents q' = contents q @ [x] \<and> room q' = room q - 1
        \<and> \<not> is_closed q' \<and> invar q'"
    and pop_item: "invar q \<Longrightarrow> contents q = x # xs \<Longrightarrow>
      \<exists>q'. pop d q = (Popped x, q') \<and> contents q' = xs \<and> room q' = Suc (room q)
        \<and> is_closed q' = is_closed q \<and> invar q'"
    and pop_empty: "invar q \<Longrightarrow> contents q = [] \<Longrightarrow>
      pop d q = (if is_closed q then PopError ErrClosed
                 else if d then PopError ErrCanceled else PopWait, q)"
    and len_contents: "invar q \<Longrightarrow> len q = length (contents q)"
    and close_contents: "invar q \<Longrightarrow> contents (close q) = contents q"
    and close_closed: "invar q \<Longrightarrow> is_closed (close q)"
    and close_invar: "invar q \<Longrightarrow> invar (close q)"

text \<open>
  \<^verbatim>\<open>servicerLoop\<close> is written against the interface, so it takes \<^verbatim>\<open>Pop\<close> as an argument.
  The result is the list of items handed to the handler, the queue left behind and why the
  loop stopped: an error from \<^verbatim>\<open>Pop\<close> (the goroutine exits) or a parked \<^verbatim>\<open>Pop\<close>.
\<close>

datatype loop_exit = LoopError qerr | LoopBlocked

fun servicerLoop ::
  "(bool \<Rightarrow> 'q \<Rightarrow> 'a pop_outcome \<times> 'q) \<Rightarrow> bool \<Rightarrow> nat \<Rightarrow> 'q \<Rightarrow> ('a list \<times> 'q \<times> loop_exit) option" where
  "servicerLoop pop ctx_done 0 q = None"
| "servicerLoop pop ctx_done (Suc fuel) q =
     (case pop ctx_done q of
        (PopError e, q') \<Rightarrow> Some ([], q', LoopError e)
      | (PopWait, q') \<Rightarrow> Some ([], q', LoopBlocked)
      | (Popped item, q') \<Rightarrow>
          map_option (\<lambda>(handled, q'', ex). (item # handled, q'', ex))
            (servicerLoop pop ctx_done fuel q'))"

context bounded_fifo
begin

lemma servicerLoop_drains:
  assumes "invar q" and "length (contents q) < fuel"
  shows "\<exists>q'. servicerLoop pop d fuel q =
      Some (contents q, q',
        if is_closed q then LoopError ErrClosed
        else if d then LoopError ErrCanceled else LoopBlocked)
    \<and> contents q' = [] \<and> is_closed q' = is_closed q \<and> invar q'"
  using assms
proof (induction fuel arbitrary: q)
  case 0
  then show ?case by simp
next
  case (Suc fuel)
  show ?case
  proof (cases "contents q")
    case Nil
    with Suc.prems show ?thesis by (simp add: pop_empty)
  next
    case (Cons x xs)
    from pop_item [OF Suc.prems(1) Cons, of d] obtain q'
      where q': "pop d q = (Popped x, q')" "contents q' = xs" "is_closed q' = is_closed q" "invar q'"
      by blast
    with Suc.prems(2) Cons have "length (contents q') < fuel" by simp
    with Suc.IH [OF q'(4)] q' Cons show ?thesis by auto
  qed
qed

lemma push_never_exceeds:
  assumes "invar q"
  shows "length (contents (snd (push x q))) + room (snd (push x q)) = length (contents q) + room q"
proof (cases "is_closed q \<or> room q = 0")
  case True
  with assms show ?thesis by (metis push_closed push_full snd_conv)
next
  case False
  with push_ok [OF assms, of x] show ?thesis by force
qed

lemma close_idem_push: "invar q \<Longrightarrow> push x (close q) = (Inl ErrClosed, close q)"
  by (simp add: push_closed close_closed close_invar)

end

definition queue_room :: "'a bqueue \<Rightarrow> nat" where
  "queue_room q = nat (q_capacity q - int (length (q_items q)))"

interpretation inmem: bounded_fifo queue_Push queue_Pop queue_Close queue_Len queue_room
  q_items q_closed queue_invar
  by unfold_locales
    (auto simp: queue_defs queue_room_def nat_diff_distrib split: list.splits)

subsection \<open>The servicer pool\<close>

record 'a pool =
  p_queue :: "'a bqueue"
  p_servicers :: int
  p_started :: bool
  p_cancelled :: bool

definition pool_NewPool :: "'a bqueue \<Rightarrow> int \<Rightarrow> 'a pool option" where
  "pool_NewPool q servicers =
     (if servicers \<le> 0 then None
      else Some \<lparr>p_queue = q, p_servicers = servicers, p_started = False, p_cancelled = False\<rparr>)"

text \<open>\<open>None\<close> is the panic of a second \<^verbatim>\<open>Start\<close>.\<close>

definition pool_Start :: "'a pool \<Rightarrow> 'a pool option" where
  "pool_Start p = (if p_started p then None else Some (p\<lparr>p_started := True\<rparr>))"

definition pool_Submit :: "'a \<Rightarrow> 'a pool \<Rightarrow> (qerr + unit) \<times> 'a pool" where
  "pool_Submit item p =
     (case queue_Push item (p_queue p) of (r, q) \<Rightarrow> (r, p\<lparr>p_queue := q\<rparr>))"

definition pool_Len :: "'a pool \<Rightarrow> nat" where
  "pool_Len p = queue_Len (p_queue p)"

text \<open>
  \<^verbatim>\<open>Stop\<close> closes the queue, cancels the root context and waits until every servicer has
  left its loop.  The servicers' pops are serialised by the queue's mutex; the list in the
  result is the sequence of items they hand to the handler between the call and its return.
\<close>

definition pool_Stop :: "nat \<Rightarrow> 'a pool \<Rightarrow> ('a list \<times> 'a pool) option" where
  "pool_Stop fuel p =
     (if \<not> p_started p then Some ([], p)
      else
        (case servicerLoop queue_Pop True fuel (queue_Close (p_queue p)) of
           None \<Rightarrow> None
         | Some (handled, q, _) \<Rightarrow> Some (handled, p\<lparr>p_queue := q, p_cancelled := True\<rparr>)))"

subsection \<open>Sequences of operations\<close>

text \<open>
  Any serialisation of the calls of any number of goroutines: the accepted items and the
  delivered items are collected in the order of the calls.
\<close>

datatype 'a qop = OpPush 'a | OpPop bool | OpClose

fun queue_run :: "'a qop list \<Rightarrow> 'a bqueue \<Rightarrow> 'a list \<times> 'a list \<times> 'a bqueue" where
  "queue_run [] q = ([], [], q)"
| "queue_run (OpPush x # ops) q =
     (case queue_Push x q of
        (r, q1) \<Rightarrow> (case queue_run ops q1 of
           (acc, del, q') \<Rightarrow> ((if r = Inr () then x # acc else acc), del, q')))"
| "queue_run (OpPop d # ops) q =
     (case queue_Pop d q of
        (r, q1) \<Rightarrow> (case queue_run ops q1 of
           (acc, del, q') \<Rightarrow> (acc, (case r of Popped x \<Rightarrow> x # del | _ \<Rightarrow> del), q')))"
| "queue_run (OpClose # ops) q = queue_run ops (queue_Close q)"

lemma queue_invar_Push: "queue_invar q \<Longrightarrow> queue_invar (snd (queue_Push x q))"
  by (cases rule: queue_Push_cases [of q x]) (auto simp: queue_invar_def)

lemma queue_invar_Pop: "queue_invar q \<Longrightarrow> queue_invar (snd (queue_Pop d q))"
  by (auto simp: queue_invar_def queue_Pop_def split: list.splits)

lemma queue_invar_Close: "queue_invar q \<Longrightarrow> queue_invar (queue_Close q)"
  by (rule inmem.close_invar)

lemma queue_invar_New: "queue_New c = Some q \<Longrightarrow> queue_invar q"
  by (auto simp: queue_invar_def)

lemma queue_Pop_capacity [simp]: "q_capacity (snd (queue_Pop d q)) = q_capacity q"
  by (auto simp: queue_Pop_def split: list.splits)

lemma queue_Push_capacity [simp]: "q_capacity (snd (queue_Push x q)) = q_capacity q"
  by (simp add: queue_Push_def)

lemma queue_run_fifo_aux:
  "queue_run ops q = (acc, del, q') \<Longrightarrow> queue_invar q \<Longrightarrow>
     q_items q @ acc = del @ q_items q' \<and> queue_invar q' \<and> q_capacity q' = q_capacity q"
proof (induction ops q arbitrary: acc del q' rule: queue_run.induct)
  case (2 x ops q)
  obtain r q1 where p: "queue_Push x q = (r, q1)" by fastforce
  obtain acc1 del1 where r: "queue_run ops q1 = (acc1, del1, q')"
    using 2(2) p by (auto split: prod.splits)
  have "queue_invar q1" using 2(3) p queue_invar_Push [of q x] by simp
  with 2(1) p r have "q_items q1 @ acc1 = del1 @ q_items q'" "queue_invar q'"
    "q_capacity q' = q_capacity q1" by auto
  with 2(2) p r show ?case
    by (cases rule: queue_Push_cases [of q x]) (auto split: if_splits)
next
  case (3 d ops q)
  obtain r q1 where p: "queue_Pop d q = (r, q1)" by fastforce
  obtain acc1 del1 where r: "queue_run ops q1 = (acc1, del1, q')"
    using 3(2) p by (auto split: prod.splits)
  have "queue_invar q1" using 3(3) p queue_invar_Pop [of q d] by simp
  with 3(1) p r have "q_items q1 @ acc1 = del1 @ q_items q'" "queue_invar q'"
    "q_capacity q' = q_capacity q1" by auto
  with 3(2) p r show ?case
    by (auto simp: queue_Pop_def split: list.splits if_splits)
next
  case (4 ops q)
  from 4(1) [of acc del q'] 4(2) queue_invar_Close [OF 4(3)] show ?case by simp
qed simp

text \<open>
  The queue is a FIFO within its capacity.  For every sequence of pushes, pops and closes
  from a freshly constructed queue, the items delivered by \<^verbatim>\<open>Pop\<close> followed by the items still
  queued are exactly the accepted items, in the order they were accepted, and the queue never
  holds more than its capacity.
\<close>

theorem queue_fifo:
  assumes "queue_New capacity = Some q" and "queue_run ops q = (accepted, delivered, q')"
  shows "accepted = delivered @ q_items q' \<and> int (queue_Len q') \<le> capacity"
proof -
  from queue_run_fifo_aux [OF assms(2) queue_invar_New [OF assms(1)]] assms(1)
  show ?thesis by (auto simp: queue_invar_def queue_Len_def)
qed

theorem queue_fifo_witness:
  "queue_run [OpPush 1, OpPush 2, OpPush 3, OpPop True, OpPush 4, OpClose, OpPush 5, OpPop False]
     \<lparr>q_capacity = 2, q_items = [], q_closed = False\<rparr>
   = ([1, 2, 4 :: nat], [1, 2], \<lparr>q_capacity = 2, q_items = [4], q_closed = True\<rparr>)
   \<and> [1, 2, 4 :: nat] = [1, 2] @ [4] \<and> int 1 \<le> 2"
proof -
  let ?q = "\<lparr>q_capacity = 2, q_items = [], q_closed = False\<rparr> :: nat bqueue"
  let ?ops = "[OpPush 1, OpPush 2, OpPush 3, OpPop True, OpPush 4, OpClose, OpPush 5, OpPop False]"
  have run: "queue_run ?ops ?q
      = ([1, 2, 4], [1, 2], \<lparr>q_capacity = 2, q_items = [4], q_closed = True\<rparr>)"
    by (simp add: queue_Push_def queue_Pop_def queue_Close_def)
  have new: "queue_New 2 = Some ?q" by simp
  from queue_fifo [OF new run] run show ?thesis by (simp add: queue_Len_def)
qed

text \<open>
  Stopping a started pool drains it.  Everything that was queued when \<^verbatim>\<open>Stop\<close> closed the
  queue is handed to the handler, in queue order, before \<^verbatim>\<open>Stop\<close> returns, although the root
  context is already cancelled; afterwards the pool is empty and every \<^verbatim>\<open>Submit\<close> fails with
  \<^verbatim>\<open>ErrClosed\<close>.
\<close>

theorem pool_Stop_drains:
  assumes "p_started p" and "queue_invar (p_queue p)" and "pool_Len p < fuel"
  shows "\<exists>p'. pool_Stop fuel p = Some (q_items (p_queue p), p') \<and> pool_Len p' = 0
           \<and> (\<forall>x. pool_Submit x p' = (Inl ErrClosed, p'))"
proof -
  let ?q = "queue_Close (p_queue p)"
  have inv: "queue_invar ?q" using assms(2) by (rule queue_invar_Close)
  have "length (q_items ?q) < fuel" using assms(3) by (simp add: pool_Len_def queue_Len_def)
  from inmem.servicerLoop_drains [OF inv this, of True] obtain q'
    where q': "servicerLoop queue_Pop True fuel ?q = Some (q_items (p_queue p), q', LoopError ErrClosed)"
      "q_items q' = []" "q_closed q'" "queue_invar q'"
    by auto
  then have "pool_Stop fuel p =
      Some (q_items (p_queue p), p\<lparr>p_queue := q', p_cancelled := True\<rparr>)"
    using assms(1) by (simp add: pool_Stop_def)
  then show ?thesis
    using q' by (auto simp: pool_Len_def queue_Len_def pool_Submit_def queue_Push_def)
qed

theorem pool_Stop_drains_witness:
  "\<exists>p'. pool_Stop 3 \<lparr>p_queue = \<lparr>q_capacity = 5, q_items = [''a'', ''b''], q_closed = False\<rparr>,
          p_servicers = 2, p_started = True, p_cancelled = False\<rparr> = Some ([''a'', ''b''], p')
     \<and> pool_Len p' = 0"
  using pool_Stop_drains [of "\<lparr>p_queue = \<lparr>q_capacity = 5, q_items = [''a'', ''b''], q_closed = False\<rparr>,
          p_servicers = 2, p_started = True, p_cancelled = False\<rparr>" 3]
  by (auto simp: queue_invar_def pool_Len_def queue_Len_def)

end
