(* ===== verification/Queue_Wakeup.thy ===== *)
theory Queue_Wakeup
  imports Bounded_Queue
begin

text \<open>
  The condition variable of the in-memory queue: which goroutines inside \<^verbatim>\<open>Pop\<close> are parked
  on \<^verbatim>\<open>notEmpty\<close>, who wakes them, and that nobody stays parked while it could proceed.
  Every rule is one critical section of \<^verbatim>\<open>inmem.go\<close>; goroutines are numbered by their call
  of \<^verbatim>\<open>Pop\<close>.
\<close>

record 'a qsys =
  qs_queue :: "'a bqueue"
  qs_waiting :: "nat set"
  qs_running :: "nat set"
  qs_cancelled :: "nat set"
  qs_watchers :: "nat set"

text \<open>\<^verbatim>\<open>Broadcast\<close> moves every parked goroutine back to its loop.\<close>

definition qs_broadcast :: "'a qsys \<Rightarrow> 'a qsys" where
  "qs_broadcast s = s\<lparr>qs_running := qs_running s \<union> qs_waiting s, qs_waiting := {}\<rparr>"

definition qs_init :: "int \<Rightarrow> 'a qsys" where
  "qs_init capacity =
     \<lparr>qs_queue = \<lparr>q_capacity = capacity, q_items = [], q_closed = False\<rparr>,
      qs_waiting = {}, qs_running = {}, qs_cancelled = {}, qs_watchers = {}\<rparr>"

inductive qs_step :: "'a qsys \<Rightarrow> 'a qsys \<Rightarrow> bool" where
  pop_enter:
    "t \<notin> qs_waiting s \<union> qs_running s \<union> qs_watchers s \<Longrightarrow>
     qs_step s (s\<lparr>qs_running := insert t (qs_running s), qs_watchers := insert t (qs_watchers s)\<rparr>)"
| pop_return:
    "t \<in> qs_running s \<Longrightarrow> queue_Pop (t \<in> qs_cancelled s) (qs_queue s) = (r, q') \<Longrightarrow> r \<noteq> PopWait \<Longrightarrow>
     qs_step s (s\<lparr>qs_queue := q', qs_running := qs_running s - {t}\<rparr>)"
| pop_park:
    "t \<in> qs_running s \<Longrightarrow> queue_Pop (t \<in> qs_cancelled s) (qs_queue s) = (PopWait, q') \<Longrightarrow>
     qs_step s (s\<lparr>qs_queue := q', qs_running := qs_running s - {t},
                  qs_waiting := insert t (qs_waiting s)\<rparr>)"
| push_signal:
    "queue_Push x (qs_queue s) = (Inr (), q') \<Longrightarrow> t \<in> qs_waiting s \<Longrightarrow>
     qs_step s (s\<lparr>qs_queue := q', qs_waiting := qs_waiting s - {t},
                  qs_running := insert t (qs_running s)\<rparr>)"
| push_quiet:
    "queue_Push x (qs_queue s) = (Inr (), q') \<Longrightarrow> qs_waiting s = {} \<Longrightarrow>
     qs_step s (s\<lparr>qs_queue := q'\<rparr>)"
| push_reject:
    "queue_Push x (qs_queue s) = (Inl e, q') \<Longrightarrow> qs_step s (s\<lparr>qs_queue := q'\<rparr>)"
| close_first:
    "\<not> q_closed (qs_queue s) \<Longrightarrow>
     qs_step s (qs_broadcast (s\<lparr>qs_queue := queue_Close (qs_queue s)\<rparr>))"
| close_again:
    "q_closed (qs_queue s) \<Longrightarrow> qs_step s (s\<lparr>qs_queue := queue_Close (qs_queue s)\<rparr>)"
| ctx_cancel:
    "qs_step s (s\<lparr>qs_cancelled := insert t (qs_cancelled s)\<rparr>)"
| watcher_fire:
    "t \<in> qs_watchers s \<Longrightarrow> t \<in> qs_cancelled s \<Longrightarrow>
     qs_step s (qs_broadcast (s\<lparr>qs_watchers := qs_watchers s - {t}\<rparr>))"
| watcher_done:
    "t \<in> qs_watchers s \<Longrightarrow> t \<notin> qs_running s \<union> qs_waiting s \<Longrightarrow>
     qs_step s (s\<lparr>qs_watchers := qs_watchers s - {t}\<rparr>)"

inductive qs_reach :: "int \<Rightarrow> 'a qsys \<Rightarrow> bool" for capacity where
  reach_init: "qs_reach capacity (qs_init capacity)"
| reach_step: "qs_reach capacity s \<Longrightarrow> qs_step s s' \<Longrightarrow> qs_reach capacity s'"

definition qs_invar :: "'a qsys \<Rightarrow> bool" where
  "qs_invar s \<longleftrightarrow>
     finite (qs_running s) \<and> finite (qs_waiting s) \<and> qs_running s \<inter> qs_waiting s = {}
     \<and> (qs_waiting s \<noteq> {} \<longrightarrow> length (q_items (qs_queue s)) \<le> card (qs_running s))
     \<and> (q_closed (qs_queue s) \<longrightarrow> qs_waiting s = {})
     \<and> (\<forall>t \<in> qs_running s \<union> qs_waiting s. t \<in> qs_watchers s \<or> t \<in> qs_cancelled s)
     \<and> (\<forall>t \<in> qs_waiting s \<inter> qs_cancelled s. t \<in> qs_watchers s)"

lemma qs_invar_init: "qs_invar (qs_init c)"
  by (simp add: qs_invar_def qs_init_def)

lemma qs_invar_broadcast:
  assumes "finite (qs_running s)" "finite (qs_waiting s)"
    and "\<forall>t \<in> qs_running s \<union> qs_waiting s. t \<in> qs_watchers s \<or> t \<in> qs_cancelled s"
  shows "qs_invar (qs_broadcast s)"
  using assms by (simp add: qs_invar_def qs_broadcast_def)

lemma qs_invar_pop_return:
  assumes "qs_invar s" "t \<in> qs_running s" "queue_Pop d (qs_queue s) = (r, q')" "r \<noteq> PopWait"
  shows "qs_invar (s\<lparr>qs_queue := q', qs_running := qs_running s - {t}\<rparr>)"
proof (cases "q_items (qs_queue s)")
  case Nil
  with assms(3,4) have "q' = qs_queue s" by (auto simp: queue_Pop_def split: if_splits)
  with assms(1,2) Nil show ?thesis by (auto simp: qs_invar_def)
next
  case (Cons x xs)
  with assms(3) have "q' = (qs_queue s)\<lparr>q_items := xs\<rparr>" by (simp add: queue_Pop_def)
  with assms(1,2) Cons show ?thesis by (auto simp: qs_invar_def card_Diff_singleton)
qed

lemma qs_invar_push_signal:
  assumes "qs_invar s" "queue_Push x (qs_queue s) = (Inr (), q')" "t \<in> qs_waiting s"
  shows "qs_invar (s\<lparr>qs_queue := q', qs_waiting := qs_waiting s - {t},
                     qs_running := insert t (qs_running s)\<rparr>)"
proof -
  have "t \<notin> qs_running s" using assms(1,3) by (auto simp: qs_invar_def)
  with assms show ?thesis by (auto simp: qs_invar_def queue_Push_Inr)
qed

lemma qs_step_invar: "qs_step s s' \<Longrightarrow> qs_invar s \<Longrightarrow> qs_invar s'"
proof (induction rule: qs_step.induct)
  case (pop_enter t s)
  then show ?case by (auto simp: qs_invar_def)
next
  case (pop_return t s r q')
  then show ?case by (blast intro: qs_invar_pop_return)
next
  case (pop_park t s q')
  then have "q' = qs_queue s" "q_items (qs_queue s) = []" "\<not> q_closed (qs_queue s)" "t \<notin> qs_cancelled s"
    by (auto simp: queue_Pop_def split: list.splits if_splits)
  with pop_park show ?case by (auto simp: qs_invar_def)
next
  case (push_signal x s q' t)
  then show ?case by (blast intro: qs_invar_push_signal)
next
  case (push_quiet x s q')
  then show ?case by (auto simp: qs_invar_def)
next
  case (push_reject x s e q')
  then show ?case by (simp add: qs_invar_def queue_Push_Inl)
next
  case (close_first s)
  then show ?case by (intro qs_invar_broadcast) (auto simp: qs_invar_def)
next
  case (close_again s)
  then show ?case by (simp add: qs_invar_def)
next
  case (ctx_cancel s t)
  then show ?case by (auto simp: qs_invar_def)
next
  case (watcher_fire t s)
  then show ?case by (intro qs_invar_broadcast) (auto simp: qs_invar_def)
next
  case (watcher_done t s)
  then show ?case by (auto simp: qs_invar_def)
qed

lemma qs_reach_invar: "qs_reach c s \<Longrightarrow> qs_invar s"
  by (induction rule: qs_reach.induct) (auto intro: qs_invar_init qs_step_invar)

text \<open>
  A state is quiescent when no goroutine inside \<^verbatim>\<open>Pop\<close> is about to run its loop and no
  watcher of a done context still has to broadcast: the queue makes no move by itself.
\<close>

definition qs_quiescent :: "'a qsys \<Rightarrow> bool" where
  "qs_quiescent s \<longleftrightarrow> qs_running s = {} \<and> qs_watchers s \<inter> qs_cancelled s = {}"

text \<open>
  C3: no wake-up is lost.  In every quiescent state reachable by any interleaving of pushes,
  pops, closes and context cancellations, a \<^verbatim>\<open>Pop\<close> that is still parked has nothing to do:
  the queue is empty and open, and its own context is not done.
\<close>

theorem no_lost_wakeup:
  assumes "qs_reach capacity s" and "qs_quiescent s" and "t \<in> qs_waiting s"
  shows "q_items (qs_queue s) = [] \<and> \<not> q_closed (qs_queue s) \<and> t \<notin> qs_cancelled s"
  using qs_reach_invar [OF assms(1)] assms(2,3)
  by (auto simp: qs_invar_def qs_quiescent_def)

theorem no_lost_wakeup_witness:
  "q_items (qs_queue ((qs_init 4 :: nat qsys)\<lparr>qs_waiting := {7}, qs_watchers := {7}\<rparr>)) = []"
proof -
  let ?s0 = "qs_init 4 :: nat qsys"
  let ?s1 = "?s0\<lparr>qs_running := insert 7 (qs_running ?s0), qs_watchers := insert 7 (qs_watchers ?s0)\<rparr>"
  let ?s2 = "?s1\<lparr>qs_queue := qs_queue ?s1, qs_running := qs_running ?s1 - {7},
                 qs_waiting := insert 7 (qs_waiting ?s1)\<rparr>"
  have "qs_step ?s0 ?s1" by (rule qs_step.pop_enter) (simp add: qs_init_def)
  moreover have "qs_step ?s1 ?s2"
    by (rule qs_step.pop_park) (simp_all add: qs_init_def queue_Pop_def)
  ultimately have "qs_reach 4 ?s2" by (blast intro: qs_reach.intros)
  moreover have "?s2 = ?s0\<lparr>qs_waiting := {7}, qs_watchers := {7}\<rparr>" by (simp add: qs_init_def)
  ultimately have "qs_reach 4 (?s0\<lparr>qs_waiting := {7}, qs_watchers := {7}\<rparr>)" by simp
  from no_lost_wakeup [OF this, of 7] show ?thesis by (simp add: qs_quiescent_def qs_init_def)
qed

end
