(* ===== verification/Records.thy ===== *)
theory Records
  imports Prelude
begin

text \<open>
  The records of the control plane: the messages of \<^verbatim>\<open>protos/provisioner/v1/types.proto\<close> that
  the code keeps in its state file, and the accessors of \<^verbatim>\<open>internal/provisioners/effective.go\<close> and
  \<^verbatim>\<open>record.go\<close>.  A repeated message is a list, an optional message or a nil timestamp is an
  \<open>option\<close>, an enum is a datatype with the enum's values.
\<close>

subsection \<open>Enumerations\<close>

datatype deployment_state =
    DUnspecified | DPending | DStarting | DConfiguring | DRunning | DDegraded | DTerminating
  | DTerminated | DFailed

datatype instance_state =
    IUnspecified | IPending | IActive | ITerminating | ITerminated | IFailed

datatype priority = PUnspecified | PInteractive | PBatch

datatype fabric_scope = ScopeUnspecified | ScopeNone | ScopeIntraNode | ScopeInterNode

datatype reclaim_policy = ReclaimUnspecified | ReclaimNever | ReclaimPreferred

subsection \<open>Messages\<close>

record requirements =
  rq_min_vram_gb :: int
  rq_min_disk_gb :: int
  rq_min_ram_gb :: int
  rq_gpu_count :: int
  rq_class :: gostring
  rq_sku :: gostring
  rq_fabric_scope :: fabric_scope
  rq_min_fabric_gbps :: int
  rq_reclaim_policy :: reclaim_policy
  rq_architecture :: gostring

record replica_spec =
  rs_provider :: gostring
  rs_region :: gostring
  rs_requirements :: "requirements option"
  rs_replicas :: int
  rs_engine_endpoint :: gostring
  rs_nodes :: int

record backing =
  rb_instance_ids :: "gostring list"
  rb_endpoint :: gostring

record upstream_auth =
  ua_header :: gostring
  ua_value_env :: gostring
  ua_value_prefix :: gostring

record parallelism =
  pl_tensor :: int
  pl_pipeline :: int
  pl_expert :: int

record volume_mount =
  vm_volume_id :: gostring
  vm_host_path :: gostring
  vm_mount_path :: gostring
  vm_provider :: gostring

record deployment =
  dep_id :: gostring
  dep_instance_id :: gostring
  dep_image :: gostring
  dep_model :: gostring
  dep_engine_args :: "gostring list"
  dep_env :: "gostring \<rightharpoonup> gostring"
  dep_engine_port :: int
  dep_state :: deployment_state
  dep_failure_reason :: gostring
  dep_current_phase :: gostring
  dep_progress_message :: gostring
  dep_created_at :: "timestamp option"
  dep_started_at :: "timestamp option"
  dep_ready_at :: "timestamp option"
  dep_terminated_at :: "timestamp option"
  dep_container_id :: gostring
  dep_engine_endpoint :: gostring
  dep_debug_shell :: bool
  dep_idle_ttl_seconds :: int
  dep_last_activity_at :: "timestamp option"
  dep_no_idle_destroy :: bool
  dep_replicas :: "backing list"
  dep_unhealthy :: "gostring list"
  dep_upstream_auth :: "upstream_auth option"
  dep_parallelism :: "parallelism option"
  dep_replica_specs :: "replica_spec option list"
  dep_mounts :: "volume_mount list"
  dep_engine_entrypoint :: "gostring list"

text \<open>The zero message.\<close>

definition zero_deployment :: deployment where
  "zero_deployment =
     \<lparr>dep_id = [], dep_instance_id = [], dep_image = [], dep_model = [], dep_engine_args = [],
      dep_env = Map.empty, dep_engine_port = 0, dep_state = DUnspecified, dep_failure_reason = [],
      dep_current_phase = [], dep_progress_message = [], dep_created_at = None,
      dep_started_at = None, dep_ready_at = None, dep_terminated_at = None, dep_container_id = [],
      dep_engine_endpoint = [], dep_debug_shell = False, dep_idle_ttl_seconds = 0,
      dep_last_activity_at = None, dep_no_idle_destroy = False, dep_replicas = [],
      dep_unhealthy = [], dep_upstream_auth = None, dep_parallelism = None, dep_replica_specs = [],
      dep_mounts = [], dep_engine_entrypoint = []\<rparr>"

subsection \<open>Accessors\<close>

definition EffectiveInstanceIDs :: "deployment \<Rightarrow> gostring list" where
  "EffectiveInstanceIDs dep =
     (let out = concat (map rb_instance_ids (dep_replicas dep))
      in if dep_replicas dep \<noteq> [] \<and> out \<noteq> [] then out
         else if dep_instance_id dep \<noteq> [] then [dep_instance_id dep] else [])"

definition EffectiveEndpoints :: "deployment \<Rightarrow> gostring list" where
  "EffectiveEndpoints dep =
     (if dep_replicas dep \<noteq> [] then map rb_endpoint (dep_replicas dep)
      else if dep_engine_endpoint dep \<noteq> [] then [dep_engine_endpoint dep] else [])"

definition EffectiveMemberInstanceIDs :: "deployment \<Rightarrow> gostring list" where
  "EffectiveMemberInstanceIDs dep =
     (if dep_replicas dep \<noteq> []
      then map (\<lambda>r. case rb_instance_ids r of [] \<Rightarrow> [] | i # _ \<Rightarrow> i) (dep_replicas dep)
      else if dep_instance_id dep \<noteq> [] then [dep_instance_id dep] else [])"

fun member_of_loop :: "int \<Rightarrow> backing list \<Rightarrow> gostring \<Rightarrow> int" where
  "member_of_loop i [] instanceID = -1"
| "member_of_loop i (r # rs) instanceID =
     (if instanceID \<in> set (rb_instance_ids r) then i else member_of_loop (i + 1) rs instanceID)"

definition MemberOf :: "deployment \<Rightarrow> gostring \<Rightarrow> int" where
  "MemberOf dep instanceID = member_of_loop 0 (dep_replicas dep) instanceID"

text \<open>\<^verbatim>\<open>newDeploymentRecord\<close>: the request, less every field the control plane writes at run time.\<close>

definition newDeploymentRecord :: "deployment \<Rightarrow> timestamp \<Rightarrow> deployment" where
  "newDeploymentRecord req now =
     req\<lparr>dep_state := DPending, dep_created_at := Some now, dep_started_at := None,
         dep_ready_at := None, dep_terminated_at := None, dep_last_activity_at := None,
         dep_current_phase := [], dep_progress_message := [], dep_failure_reason := [],
         dep_container_id := [], dep_engine_endpoint := [], dep_replicas := [],
         dep_unhealthy := [], dep_replica_specs := []\<rparr>"

lemma effective_endpoints_length [record_simps]:
  "dep_replicas dep \<noteq> [] \<Longrightarrow> length (EffectiveEndpoints dep) = length (dep_replicas dep)"
  "dep_replicas dep \<noteq> [] \<Longrightarrow> length (EffectiveMemberInstanceIDs dep) = length (dep_replicas dep)"
  by (simp_all add: EffectiveEndpoints_def EffectiveMemberInstanceIDs_def)

lemma member_of_loop_range:
  "member_of_loop i rs x = -1 \<or> i \<le> member_of_loop i rs x \<and> member_of_loop i rs x < i + int (length rs)"
  by (induction i rs x rule: member_of_loop.induct) auto

lemma member_of_loop_nth:
  "0 \<le> i \<Longrightarrow> member_of_loop i rs x \<noteq> -1 \<Longrightarrow>
     x \<in> set (rb_instance_ids (rs ! nat (member_of_loop i rs x - i)))"
proof (induction i rs x rule: member_of_loop.induct)
  case (2 i r rs x)
  show ?case
  proof (cases "x \<in> set (rb_instance_ids r)")
    case False
    with 2 have m: "member_of_loop (i + 1) rs x \<noteq> -1" by simp
    then have "i + 1 \<le> member_of_loop (i + 1) rs x" using member_of_loop_range [of "i + 1" rs x] by simp
    then have "nat (member_of_loop (i + 1) rs x - i) = Suc (nat (member_of_loop (i + 1) rs x - (i + 1)))"
      by simp
    with 2 False m show ?thesis by simp
  qed simp
qed simp

lemma newDeploymentRecord_state [simp]:
  "dep_state (newDeploymentRecord r now) = DPending" "dep_id (newDeploymentRecord r now) = dep_id r"
  "dep_replicas (newDeploymentRecord r now) = []"
  by (simp_all add: newDeploymentRecord_def)

end
