(* ===== verification/Policy.thy ===== *)
theory Policy
  imports Prelude
begin

text \<open>
  The routing policies of \<^verbatim>\<open>internal/router/policy\<close>: \<^verbatim>\<open>RoundRobin\<close> (\<^verbatim>\<open>policy.go\<close>) with its
  64-bit counter per deployment, and \<^verbatim>\<open>PrefixAffinity\<close> (\<^verbatim>\<open>affinity.go\<close>) with its pin map.  The
  interface \<^verbatim>\<open>Policy\<close> is the locale \<open>routing_policy\<close>, interpreted for both.  The counter is an
  unsigned 64-bit word that the code converts to a signed \<^verbatim>\<open>int\<close>, so the contract carries the
  number of further picks for which the index stays in range.
\<close>

subsection \<open>Replicas and the interface\<close>

record replica =
  r_instance :: gostring
  r_endpoint :: gostring

text \<open>\<^verbatim>\<open>Stats\<close>: the in-flight count of a replica of a deployment; \<open>None\<close> is a nil interface.\<close>

type_synonym stats = "(gostring \<Rightarrow> gostring \<Rightarrow> int) option"

text \<open>\<open>NoReplica\<close> is \<^verbatim>\<open>ok = false\<close>, \<open>PickPanic\<close> an index out of range.\<close>

datatype pick = Picked replica | NoReplica | PickPanic

record pick_request =
  pr_session :: gostring
  pr_deploy :: gostring
  pr_replicas :: "replica list"
  pr_stats :: stats

fun policy_run :: "(pick_request \<Rightarrow> 'p \<Rightarrow> pick \<times> 'p) \<Rightarrow> pick_request list \<Rightarrow> 'p \<Rightarrow> pick list \<times> 'p" where
  "policy_run pick [] p = ([], p)"
| "policy_run pick (rq # rqs) p =
     (case pick rq p of (r, p1) \<Rightarrow> (case policy_run pick rqs p1 of (rs, p2) \<Rightarrow> (r # rs, p2)))"

definition pick_sound :: "pick_request \<Rightarrow> pick \<Rightarrow> bool" where
  "pick_sound rq r \<longleftrightarrow>
     (if pr_replicas rq = [] then r = NoReplica else \<exists>x\<in>set (pr_replicas rq). r = Picked x)"

locale routing_policy =
  fixes pick :: "pick_request \<Rightarrow> 'p \<Rightarrow> pick \<times> 'p"
    and headroom :: "nat \<Rightarrow> 'p \<Rightarrow> bool"
  assumes pick_ok: "headroom (Suc k) p \<Longrightarrow> pick_sound rq (fst (pick rq p))"
    and pick_headroom: "headroom (Suc k) p \<Longrightarrow> headroom k (snd (pick rq p))"
begin

lemma run_sound:
  "headroom (length rqs) p \<Longrightarrow> list_all2 pick_sound rqs (fst (policy_run pick rqs p))"
proof (induction rqs arbitrary: p)
  case (Cons rq rqs)
  from Cons.prems have h: "headroom (Suc (length rqs)) p" by simp
  from pick_ok [OF h, of rq] Cons.IH [OF pick_headroom [OF h, of rq]] show ?case
    by (auto split: prod.splits)
qed simp

end

subsection \<open>Round robin\<close>

type_synonym rr = "gostring \<rightharpoonup> 64 word"

definition NewRoundRobin :: rr where "NewRoundRobin = Map.empty"

text \<open>Go's \<^verbatim>\<open>%\<close>: the remainder has the sign of the dividend.\<close>

definition go_rem :: "int \<Rightarrow> int \<Rightarrow> int" where
  "go_rem a b = (if a < 0 then - ((- a) mod b) else a mod b)"

definition rr_counter :: "rr \<Rightarrow> gostring \<Rightarrow> 64 word" where
  "rr_counter rr d = (case rr d of None \<Rightarrow> 0 | Some c \<Rightarrow> c)"

definition rr_Pick :: "gostring \<Rightarrow> replica list \<Rightarrow> rr \<Rightarrow> pick \<times> rr" where
  "rr_Pick deployID replicas rr =
     (let n = length replicas
      in if n = 0 then (NoReplica, rr)
         else
           (let counter = rr_counter rr deployID + 1;
                idx = go_rem (sint (counter - 1)) (int n);
                rr' = rr(deployID \<mapsto> counter)
            in if idx < 0 then (PickPanic, rr') else (Picked (replicas ! nat idx), rr')))"

definition rr_pick :: "pick_request \<Rightarrow> rr \<Rightarrow> pick \<times> rr" where
  "rr_pick rq rr = rr_Pick (pr_deploy rq) (pr_replicas rq) rr"

definition rr_headroom :: "nat \<Rightarrow> rr \<Rightarrow> bool" where
  "rr_headroom k rr \<longleftrightarrow> (\<forall>d. unat (rr_counter rr d) + k \<le> 2 ^ 63)"

lemma sint_small_word: assumes "unat (c :: 64 word) < 2 ^ 63" shows "sint c = int (unat c)"
proof -
  have "int (unat c) < int (2 ^ 63)" using assms by (simp only: of_nat_less_iff)
  then have "uint c < 2 ^ 63" by simp
  moreover have "- (2 ^ 63) \<le> uint c" by (rule order_trans [of _ 0]) simp_all
  ultimately have "signed_take_bit 63 (uint c) = uint c" by (intro signed_take_bit_int_eq_self)
  then show ?thesis by (simp add: sint_uint)
qed

lemma unat_suc_word: assumes "unat (c :: 64 word) < 2 ^ 63" shows "unat (c + 1) = Suc (unat c)"
proof -
  have "unat c + unat (1 :: 64 word) < 2 ^ LENGTH(64)" using assms by simp
  then have "unat (c + 1) = unat c + unat (1 :: 64 word)" by (simp only: unat_add_lem)
  then show ?thesis by simp
qed

lemma rr_Pick_step:
  assumes "unat (rr_counter rr d) < 2 ^ 63" "rs \<noteq> []"
  shows "rr_Pick d rs rr =
    (Picked (rs ! (unat (rr_counter rr d) mod length rs)), rr(d \<mapsto> rr_counter rr d + 1))"
proof -
  let ?c = "rr_counter rr d"
  have "go_rem (sint ?c) (int (length rs)) = int (unat ?c mod length rs)"
    using sint_small_word [OF assms(1)] by (simp add: go_rem_def zmod_int)
  then show ?thesis using assms(2) by (simp add: rr_Pick_def Let_def)
qed

lemma rr_counter_upd [simp]: "rr_counter (rr(d \<mapsto> c)) d' = (if d' = d then c else rr_counter rr d')"
  by (simp add: rr_counter_def)

lemma rr_headroomD: "rr_headroom k rr \<Longrightarrow> unat (rr_counter rr d) + k \<le> 2 ^ 63"
  by (simp add: rr_headroom_def)

lemma rr_headroomI: "(\<And>d. unat (rr_counter rr d) + k \<le> 2 ^ 63) \<Longrightarrow> rr_headroom k rr"
  by (simp add: rr_headroom_def)

lemma rr_headroom_less: "rr_headroom (Suc k) rr \<Longrightarrow> rr_headroom k rr"
  using rr_headroomD [of "Suc k" rr] by (intro rr_headroomI) (simp add: Suc_leD)

lemma rr_headroom_lt: "rr_headroom (Suc k) rr \<Longrightarrow> unat (rr_counter rr d) < 2 ^ 63"
  by (drule rr_headroomD [of _ _ d]) linarith

lemma rr_headroom_Pick:
  assumes "rr_headroom (Suc k) rr"
  shows "rr_headroom k (snd (rr_Pick d rs rr))"
proof (cases "rs = []")
  case True
  then show ?thesis using rr_headroom_less [OF assms] by (simp add: rr_Pick_def)
next
  case False
  note lt = rr_headroom_lt [OF assms, of d]
  show ?thesis unfolding rr_Pick_step [OF lt False] snd_conv
  proof (rule rr_headroomI)
    fix d'
    show "unat (rr_counter (rr(d \<mapsto> rr_counter rr d + 1)) d') + k \<le> 2 ^ 63"
    proof (cases "d' = d")
      case True
      then show ?thesis using rr_headroomD [OF assms, of d] unat_suc_word [OF lt] by simp
    next
      case False
      then show ?thesis using rr_headroomD [OF rr_headroom_less [OF assms], of d'] by simp
    qed
  qed
qed

lemma rr_pick_sound:
  assumes "rr_headroom (Suc k) rr"
  shows "pick_sound rq (fst (rr_pick rq rr))"
proof (cases "pr_replicas rq = []")
  case False
  then show ?thesis
    by (simp add: pick_sound_def rr_pick_def rr_Pick_step [OF rr_headroom_lt [OF assms] False])
qed (simp add: pick_sound_def rr_pick_def rr_Pick_def)

lemma rr_pick_headroom: "rr_headroom (Suc k) rr \<Longrightarrow> rr_headroom k (snd (rr_pick rq rr))"
  unfolding rr_pick_def by (rule rr_headroom_Pick)

interpretation round_robin: routing_policy rr_pick rr_headroom
  by unfold_locales (rule rr_pick_sound rr_pick_headroom, assumption)+

subsection \<open>Prefix affinity\<close>

record affinity =
  pa_fallback :: rr
  pa_threshold :: int
  pa_pins :: "gostring \<rightharpoonup> replica"

definition NewPrefixAffinity :: "int \<Rightarrow> affinity" where
  "NewPrefixAffinity overloadThreshold =
     \<lparr>pa_fallback = NewRoundRobin, pa_threshold = overloadThreshold, pa_pins = Map.empty\<rparr>"

fun matchReplica :: "replica \<Rightarrow> replica list \<Rightarrow> replica option" where
  "matchReplica pinned [] = None"
| "matchReplica pinned (r # rs) =
     (if r_instance pinned \<noteq> [] then
        (if r_instance r = r_instance pinned then Some r else matchReplica pinned rs)
      else if r_endpoint r = r_endpoint pinned then Some r
      else matchReplica pinned rs)"

fun least_loop :: "(replica \<Rightarrow> int) \<Rightarrow> replica \<Rightarrow> int \<Rightarrow> replica list \<Rightarrow> replica" where
  "least_loop f best bestN [] = best"
| "least_loop f best bestN (r # rs) =
     (if f r < bestN then least_loop f r (f r) rs else least_loop f best bestN rs)"

definition leastInFlight :: "gostring \<Rightarrow> replica list \<Rightarrow> (gostring \<Rightarrow> gostring \<Rightarrow> int) \<Rightarrow> replica" where
  "leastInFlight deployID replicas stats =
     least_loop (\<lambda>r. stats deployID (r_instance r)) (hd replicas)
       (stats deployID (r_instance (hd replicas))) (tl replicas)"

definition pin_key :: "gostring \<Rightarrow> gostring \<Rightarrow> gostring" where
  "pin_key deployID session = deployID @ [char_of (0 :: nat)] @ session"

definition pa_overloaded :: "affinity \<Rightarrow> gostring \<Rightarrow> stats \<Rightarrow> replica \<Rightarrow> bool" where
  "pa_overloaded p d stats live \<longleftrightarrow>
     pa_threshold p > 0 \<and>
     (case stats of None \<Rightarrow> False | Some st \<Rightarrow> st d (r_instance live) \<ge> pa_threshold p)"

definition pa_fallback_pick :: "pick_request \<Rightarrow> affinity \<Rightarrow> pick \<times> affinity" where
  "pa_fallback_pick rq p =
     (case rr_pick rq (pa_fallback p) of (r, rr') \<Rightarrow> (r, p\<lparr>pa_fallback := rr'\<rparr>))"

definition pa_place :: "pick_request \<Rightarrow> affinity \<Rightarrow> pick \<times> affinity" where
  "pa_place rq p =
     (case pa_fallback_pick rq p of
        (Picked selected, p') \<Rightarrow>
          (Picked selected,
           p'\<lparr>pa_pins := (pa_pins p')(pin_key (pr_deploy rq) (pr_session rq) \<mapsto> selected)\<rparr>)
      | other \<Rightarrow> other)"

definition pa_Pick :: "pick_request \<Rightarrow> affinity \<Rightarrow> pick \<times> affinity" where
  "pa_Pick rq p =
     (if pr_replicas rq = [] then (NoReplica, p)
      else if pr_session rq = [] then pa_fallback_pick rq p
      else
        (case pa_pins p (pin_key (pr_deploy rq) (pr_session rq)) of
           Some pinned \<Rightarrow>
             (case matchReplica pinned (pr_replicas rq) of
                Some live \<Rightarrow>
                  (if pa_overloaded p (pr_deploy rq) (pr_stats rq) live
                   then (Picked (leastInFlight (pr_deploy rq) (pr_replicas rq) (the (pr_stats rq))), p)
                   else (Picked live, p))
              | None \<Rightarrow> pa_place rq p)
         | None \<Rightarrow> pa_place rq p))"

definition pa_headroom :: "nat \<Rightarrow> affinity \<Rightarrow> bool" where
  "pa_headroom k p \<longleftrightarrow> rr_headroom k (pa_fallback p)"

lemma matchReplica_mem: "matchReplica x rs = Some r \<Longrightarrow> r \<in> set rs"
  by (induction x rs rule: matchReplica.induct) (auto split: if_splits)

lemma least_loop_spec:
  "bestN = f best \<Longrightarrow> least_loop f best bestN rs \<in> insert best (set rs)
     \<and> (\<forall>r\<in>insert best (set rs). f (least_loop f best bestN rs) \<le> f r)"
  by (induction f best bestN rs rule: least_loop.induct) fastforce+

lemma leastInFlight_spec:
  assumes "rs \<noteq> []"
  shows "leastInFlight d rs st \<in> set rs"
    "\<forall>r\<in>set rs. st d (r_instance (leastInFlight d rs st)) \<le> st d (r_instance r)"
  using least_loop_spec [of _ "\<lambda>r. st d (r_instance r)" "hd rs" "tl rs"] assms
  by (cases rs; simp add: leastInFlight_def)+

lemma pa_fallback_sound:
  assumes "pa_headroom (Suc k) p"
  shows "pick_sound rq (fst (pa_fallback_pick rq p))" "pa_headroom k (snd (pa_fallback_pick rq p))"
  using assms round_robin.pick_ok [of k "pa_fallback p" rq]
    round_robin.pick_headroom [of k "pa_fallback p" rq]
  by (simp_all add: pa_fallback_pick_def pa_headroom_def case_prod_unfold)

lemma pa_place_sound:
  assumes "pa_headroom (Suc k) p"
  shows "pick_sound rq (fst (pa_place rq p))" "pa_headroom k (snd (pa_place rq p))"
  using pa_fallback_sound [OF assms, of rq]
  by (auto simp: pa_place_def pa_headroom_def split: prod.splits pick.splits)

lemma pa_Pick_sound:
  assumes "pa_headroom (Suc k) p"
  shows "pick_sound rq (fst (pa_Pick rq p))" "pa_headroom k (snd (pa_Pick rq p))"
proof -
  have less: "pa_headroom k p" using assms by (simp add: pa_headroom_def rr_headroom_less)
  show "pick_sound rq (fst (pa_Pick rq p))" "pa_headroom k (snd (pa_Pick rq p))"
    using pa_fallback_sound [OF assms, of rq] pa_place_sound [OF assms, of rq] less
      leastInFlight_spec(1) [of "pr_replicas rq"]
    by (auto simp: pa_Pick_def pick_sound_def split: option.split dest: matchReplica_mem)
qed

interpretation prefix_affinity: routing_policy pa_Pick pa_headroom
  by unfold_locales (auto intro: pa_Pick_sound)

subsection \<open>Properties of the policies\<close>

fun rr_picks :: "nat \<Rightarrow> gostring \<Rightarrow> replica list \<Rightarrow> rr \<Rightarrow> pick list \<times> rr" where
  "rr_picks 0 d rs rr = ([], rr)"
| "rr_picks (Suc k) d rs rr =
     (case rr_Pick d rs rr of (r, rr1) \<Rightarrow> (case rr_picks k d rs rr1 of (xs, rr2) \<Rightarrow> (r # xs, rr2)))"

lemma rr_picks_indices:
  assumes "rs \<noteq> []" "unat (rr_counter rr d) + k \<le> 2 ^ 63"
  shows "fst (rr_picks k d rs rr) =
    map (\<lambda>i. Picked (rs ! ((unat (rr_counter rr d) + i) mod length rs))) [0..<k]"
  using assms(2)
proof (induction k arbitrary: rr)
  case (Suc k)
  let ?c = "unat (rr_counter rr d)"
  let ?rr = "rr(d \<mapsto> rr_counter rr d + 1)"
  from Suc.prems have lt: "?c < 2 ^ 63" by linarith
  have up: "unat (rr_counter ?rr d) = Suc ?c" using unat_suc_word [OF lt] by simp
  then have "unat (rr_counter ?rr d) + k \<le> 2 ^ 63" using Suc.prems by linarith
  from Suc.IH [OF this]
  have "fst (rr_picks k d rs ?rr) = map (\<lambda>i. Picked (rs ! ((?c + Suc i) mod length rs))) [0..<k]"
    by (simp only: up add_Suc add_Suc_right)
  moreover have "[0..<Suc k] = 0 # map Suc [0..<k]" by (simp add: map_Suc_upt upt_conv_Cons)
  ultimately show ?case
    by (simp add: rr_Pick_step [OF lt assms(1)] case_prod_unfold comp_def del: upt_Suc)
qed simp

text \<open>
  Round robin is fair.  Over any \<^verbatim>\<open>len(replicas)\<close> consecutive picks of a deployment whose
  eligible set does not change, the policy returns every replica exactly once, in slice order
  starting where the counter stands (the picks are a rotation of the slice).
\<close>

theorem rr_cycle:
  assumes "rs \<noteq> []" "unat (rr_counter rr d) + length rs \<le> 2 ^ 63"
  shows "fst (rr_picks (length rs) d rs rr)
    = map Picked (rotate (unat (rr_counter rr d) mod length rs) rs)"
proof (rule nth_equalityI)
  show "length (fst (rr_picks (length rs) d rs rr))
      = length (map Picked (rotate (unat (rr_counter rr d) mod length rs) rs))"
    by (simp add: rr_picks_indices [OF assms])
next
  fix i assume "i < length (fst (rr_picks (length rs) d rs rr))"
  then have "i < length rs" by (simp add: rr_picks_indices [OF assms])
  then show "fst (rr_picks (length rs) d rs rr) ! i
      = map Picked (rotate (unat (rr_counter rr d) mod length rs) rs) ! i"
    by (simp add: rr_picks_indices [OF assms] nth_rotate mod_add_left_eq)
qed

theorem rr_cycle_witness:
  "fst (rr_picks (Suc (Suc 0)) ''d''
      [\<lparr>r_instance = ''d-r0'', r_endpoint = ''u0''\<rparr>, \<lparr>r_instance = ''d-r1'', r_endpoint = ''u1''\<rparr>] [''d'' \<mapsto> 7])
   = [Picked \<lparr>r_instance = ''d-r1'', r_endpoint = ''u1''\<rparr>, Picked \<lparr>r_instance = ''d-r0'', r_endpoint = ''u0''\<rparr>]"
proof -
  let ?rs = "[\<lparr>r_instance = ''d-r0'', r_endpoint = ''u0''\<rparr>, \<lparr>r_instance = ''d-r1'', r_endpoint = ''u1''\<rparr>]"
  have c: "unat (rr_counter [''d'' \<mapsto> 7] ''d'') = 7" by (simp add: rr_counter_def)
  have m: "7 mod length ?rs = Suc 0" by (simp flip: numeral_2_eq_2)
  have "fst (rr_picks (length ?rs) ''d'' ?rs [''d'' \<mapsto> 7]) = map Picked (rotate (Suc 0) ?rs)"
    unfolding m [symmetric] c [symmetric] by (rule rr_cycle) (simp_all add: c)
  then show ?thesis by simp
qed

text \<open>
  A policy only ever selects an eligible replica.  For any sequence of requests within
  the counter's range, \<^verbatim>\<open>RoundRobin\<close> and \<^verbatim>\<open>PrefixAffinity\<close> answer each request with a member of
  that request's own eligible set, or \<^verbatim>\<open>ok = false\<close> exactly when that set is empty; no request
  panics.
\<close>

theorem policies_pick_eligible:
  assumes "rr_headroom (length rqs) rr" "pa_headroom (length rqs) p"
  shows "list_all2 pick_sound rqs (fst (policy_run rr_pick rqs rr))
    \<and> list_all2 pick_sound rqs (fst (policy_run pa_Pick rqs p))"
  using round_robin.run_sound [OF assms(1)] prefix_affinity.run_sound [OF assms(2)] by blast

definition sample_request :: "gostring \<Rightarrow> pick_request" where
  "sample_request sess =
     \<lparr>pr_session = sess, pr_deploy = ''d'',
      pr_replicas = [\<lparr>r_instance = ''d-r0'', r_endpoint = ''u0''\<rparr>, \<lparr>r_instance = ''d-r1'', r_endpoint = ''u1''\<rparr>],
      pr_stats = None\<rparr>"

lemma new_headroom: "k \<le> 2 ^ 63 \<Longrightarrow> rr_headroom k NewRoundRobin" "k \<le> 2 ^ 63 \<Longrightarrow> pa_headroom k (NewPrefixAffinity t)"
  by (simp_all add: pa_headroom_def NewPrefixAffinity_def rr_headroom_def rr_counter_def NewRoundRobin_def)

theorem policies_pick_eligible_witness:
  "list_all2 pick_sound [sample_request ''s'', sample_request []]
     (fst (policy_run pa_Pick [sample_request ''s'', sample_request []] (NewPrefixAffinity 2)))"
  using policies_pick_eligible [of "[sample_request ''s'', sample_request []]" NewRoundRobin
      "NewPrefixAffinity 2"]
  by (simp add: new_headroom)

text \<open>
  The counter's sign bit ends round robin.  Once a deployment has been picked \<open>2 ^ 63\<close>
  times the conversion of the counter to \<^verbatim>\<open>int\<close> is negative, Go's remainder is negative too,
  and the next pick among three replicas indexes the slice out of range.
\<close>

theorem rr_overflow_panics:
  "rr_counter rr d = 2 ^ 63 \<Longrightarrow> length rs = 3 \<Longrightarrow> fst (rr_Pick d rs rr) = PickPanic"
  by (simp add: rr_Pick_def go_rem_def Let_def)

theorem rr_overflow_panics_witness:
  "fst (rr_Pick ''d'' (replicate 3 \<lparr>r_instance = ''i'', r_endpoint = ''u''\<rparr>) [''d'' \<mapsto> 2 ^ 63]) = PickPanic"
  by (rule rr_overflow_panics) (simp_all add: rr_counter_def)

lemma matchReplica_instance:
  "r_instance pinned \<noteq> [] \<Longrightarrow> matchReplica pinned rs = Some r \<Longrightarrow> r_instance r = r_instance pinned"
  by (induction pinned rs rule: matchReplica.induct) (auto split: if_splits)

lemma matchReplica_found:
  "r_instance pinned \<noteq> [] \<Longrightarrow> r_instance pinned \<in> r_instance ` set rs \<Longrightarrow>
     \<exists>r. matchReplica pinned rs = Some r"
  by (induction pinned rs rule: matchReplica.induct) auto

lemma pin_key_inj:
  assumes "char_of (0 :: nat) \<notin> set d" "char_of (0 :: nat) \<notin> set d'" "pin_key d s = pin_key d' s'"
  shows "d = d' \<and> s = s'"
proof -
  have "takeWhile (\<lambda>c. c \<noteq> char_of (0 :: nat)) (pin_key e t) = e" if "char_of (0 :: nat) \<notin> set e" for e t
    unfolding pin_key_def using that by (subst takeWhile_append2) auto
  then have "d = d'" using assms by metis
  then show ?thesis using assms(3) by (simp add: pin_key_def)
qed

lemma pa_Pick_other_pins:
  assumes "char_of (0 :: nat) \<notin> set d" "char_of (0 :: nat) \<notin> set (pr_deploy rq)"
    and "(pr_deploy rq, pr_session rq) \<noteq> (d, s)"
  shows "pa_pins (snd (pa_Pick rq p)) (pin_key d s) = pa_pins p (pin_key d s)"
proof -
  have "pin_key (pr_deploy rq) (pr_session rq) \<noteq> pin_key d s"
    using pin_key_inj assms by blast
  then show ?thesis
    by (auto simp: pa_Pick_def pa_place_def pa_fallback_pick_def
        split: option.split prod.split pick.split)
qed

lemma pa_Pick_threshold [simp]: "pa_threshold (snd (pa_Pick rq p)) = pa_threshold p"
  by (auto simp: pa_Pick_def pa_place_def pa_fallback_pick_def
      split: option.split prod.split pick.split)

lemma pa_Pick_own_pin:
  assumes "pa_pins p (pin_key (pr_deploy rq) (pr_session rq)) = Some x" "r_instance x \<noteq> []"
    "r_instance x \<in> r_instance ` set (pr_replicas rq)"
  shows "pa_pins (snd (pa_Pick rq p)) = pa_pins p"
  using matchReplica_found [OF assms(2,3)] assms(1)
  by (auto simp: pa_Pick_def pa_fallback_pick_def split: prod.split)

lemma pa_run_pin:
  assumes "char_of (0 :: nat) \<notin> set d" "r_instance x \<noteq> []"
    and "\<forall>rq\<in>set rqs. char_of (0 :: nat) \<notin> set (pr_deploy rq)
       \<and> ((pr_deploy rq, pr_session rq) = (d, s) \<longrightarrow> r_instance x \<in> r_instance ` set (pr_replicas rq))"
    and "pa_pins p (pin_key d s) = Some x"
  shows "pa_pins (snd (policy_run pa_Pick rqs p)) (pin_key d s) = Some x"
  using assms(3,4)
proof (induction rqs arbitrary: p)
  case (Cons rq rqs)
  have "pa_pins (snd (pa_Pick rq p)) (pin_key d s) = Some x"
  proof (cases "(pr_deploy rq, pr_session rq) = (d, s)")
    case True
    then have "r_instance x \<in> r_instance ` set (pr_replicas rq)" using Cons.prems(1) by simp
    then show ?thesis using pa_Pick_own_pin [of p rq x] True assms(2) Cons.prems(2) by auto
  next
    case False
    then show ?thesis using pa_Pick_other_pins [of d rq s p] assms(1) Cons.prems by auto
  qed
  with Cons show ?case by (simp add: case_prod_unfold)
qed simp

text \<open>
  Sessions stick.  Once a session is pinned to a replica with an instance id, then after
  any sequence of requests of any sessions and deployments during which that instance stayed
  eligible for the session, the next request of the session for which the instance is eligible
  and below the overload threshold is routed to that instance.
\<close>

theorem pa_sticky:
  assumes "char_of (0 :: nat) \<notin> set (pr_deploy rq)" "pr_session rq \<noteq> []"
    and "pa_pins p (pin_key (pr_deploy rq) (pr_session rq)) = Some x" "r_instance x \<noteq> []"
    and "\<forall>rq'\<in>set rqs. char_of (0 :: nat) \<notin> set (pr_deploy rq')
       \<and> ((pr_deploy rq', pr_session rq') = (pr_deploy rq, pr_session rq)
           \<longrightarrow> r_instance x \<in> r_instance ` set (pr_replicas rq'))"
    and "r_instance x \<in> r_instance ` set (pr_replicas rq)"
    and "\<forall>r. \<not> pa_overloaded (snd (policy_run pa_Pick rqs p)) (pr_deploy rq) (pr_stats rq) r"
  shows "\<exists>r. fst (pa_Pick rq (snd (policy_run pa_Pick rqs p))) = Picked r \<and> r_instance r = r_instance x"
proof -
  let ?p = "snd (policy_run pa_Pick rqs p)"
  have pin: "pa_pins ?p (pin_key (pr_deploy rq) (pr_session rq)) = Some x"
    by (rule pa_run_pin [OF assms(1,4,5,3)])
  obtain r where r: "matchReplica x (pr_replicas rq) = Some r"
    using matchReplica_found [OF assms(4,6)] by blast
  have "pr_replicas rq \<noteq> []" using assms(6) by auto
  with pin r matchReplica_instance [OF assms(4) r] assms(2,7) show ?thesis by (simp add: pa_Pick_def)
qed

definition pinned_policy :: affinity where
  "pinned_policy =
     \<lparr>pa_fallback = NewRoundRobin, pa_threshold = 2,
      pa_pins = [pin_key ''d'' ''s'' \<mapsto> \<lparr>r_instance = ''d-r1'', r_endpoint = ''u1''\<rparr>]\<rparr>"

theorem pa_sticky_witness:
  "\<exists>r. fst (pa_Pick (sample_request ''s'') (snd (policy_run pa_Pick [sample_request ''x''] pinned_policy)))
     = Picked r \<and> r_instance r = ''d-r1''"
  using pa_sticky [of "sample_request ''s''" pinned_policy "\<lparr>r_instance = ''d-r1'', r_endpoint = ''u1''\<rparr>"
      "[sample_request ''x'']"]
  by (simp add: pinned_policy_def sample_request_def pa_overloaded_def char_of_def)

text \<open>
  An overloaded pin spills, and only for the turn.  When the pinned replica is at or above
  the threshold the request goes to an eligible replica with the least in-flight count, and
  the policy's state (pins and counters) does not change.
\<close>

theorem pa_spill:
  assumes "pr_session rq \<noteq> []" "pa_pins p (pin_key (pr_deploy rq) (pr_session rq)) = Some x"
    and "matchReplica x (pr_replicas rq) = Some live" "pr_stats rq = Some st"
    and "0 < pa_threshold p" "pa_threshold p \<le> st (pr_deploy rq) (r_instance live)"
  shows "\<exists>r\<in>set (pr_replicas rq). pa_Pick rq p = (Picked r, p)
    \<and> (\<forall>r'\<in>set (pr_replicas rq). st (pr_deploy rq) (r_instance r) \<le> st (pr_deploy rq) (r_instance r'))"
proof -
  have ne: "pr_replicas rq \<noteq> []" using assms(3) by auto
  have "pa_Pick rq p = (Picked (leastInFlight (pr_deploy rq) (pr_replicas rq) st), p)"
    using assms ne by (simp add: pa_Pick_def pa_overloaded_def)
  with leastInFlight_spec [OF ne, where d = "pr_deploy rq" and st = st] show ?thesis by blast
qed

theorem pa_spill_witness:
  "\<exists>r\<in>set (pr_replicas (sample_request ''s'')).
     pa_Pick ((sample_request ''s'')\<lparr>pr_stats := Some (\<lambda>d i. if i = ''d-r1'' then 5 else 0)\<rparr>) pinned_policy
       = (Picked r, pinned_policy)"
  using pa_spill [where rq = "(sample_request ''s'')\<lparr>pr_stats := Some (\<lambda>d i. if i = ''d-r1'' then 5 else 0)\<rparr>"
      and p = pinned_policy and x = "\<lparr>r_instance = ''d-r1'', r_endpoint = ''u1''\<rparr>"
      and live = "\<lparr>r_instance = ''d-r1'', r_endpoint = ''u1''\<rparr>"
      and st = "\<lambda>d i. if i = ''d-r1'' then 5 else 0"]
  by (auto simp: pinned_policy_def sample_request_def)

end
