(* ===== verification/Router_Select.thy ===== *)
theory Router_Select
  imports Records Policy "HOL-Library.Product_Lexorder"
begin

text \<open>
  How the router decides where a request goes: the eligible replicas of a deployment
  (\<^verbatim>\<open>replicas.go\<close>), the deployment that serves a model (\<^verbatim>\<open>flat.go\<close>), the priority, tenant and
  session of a request (\<^verbatim>\<open>priority.go\<close>, \<^verbatim>\<open>tenant.go\<close>, \<^verbatim>\<open>session.go\<close>), the context-length
  bucket of a response (\<^verbatim>\<open>contextbucket.go\<close>) and the per-replica counters (\<^verbatim>\<open>inflight.go\<close>,
  \<^verbatim>\<open>activity.go\<close>, \<^verbatim>\<open>affinity.go\<close>).  SHA-256 and JSON decoding are arguments.
\<close>

subsection \<open>Eligible replicas\<close>

definition effectiveEndpoints :: "deployment \<Rightarrow> gostring list" where
  "effectiveEndpoints dep =
     (if dep_replicas dep \<noteq> [] then map rb_endpoint (dep_replicas dep)
      else if dep_engine_endpoint dep \<noteq> [] then [dep_engine_endpoint dep] else [])"

definition memberInstanceIDs :: "deployment \<Rightarrow> gostring list list" where
  "memberInstanceIDs dep =
     (if dep_replicas dep \<noteq> [] then map rb_instance_ids (dep_replicas dep)
      else if dep_instance_id dep \<noteq> [] then [[dep_instance_id dep]] else [])"

definition quarantinedSet :: "deployment \<Rightarrow> gostring set" where
  "quarantinedSet dep = set (filter (\<lambda>i. i \<noteq> []) (dep_unhealthy dep))"

definition anyQuarantined :: "gostring set \<Rightarrow> gostring list \<Rightarrow> bool" where
  "anyQuarantined quarantined nodes = list_ex (\<lambda>i. i \<noteq> [] \<and> i \<in> quarantined) nodes"

definition hasStampedEndpoint :: "deployment \<Rightarrow> bool" where
  "hasStampedEndpoint dep \<longleftrightarrow>
     dep_engine_endpoint dep \<noteq> [] \<or> list_ex (\<lambda>r. rb_endpoint r \<noteq> []) (dep_replicas dep)"

fun eligible_loop :: "gostring set \<Rightarrow> gostring list list \<Rightarrow> gostring list \<Rightarrow> replica list" where
  "eligible_loop quarantined members [] = []"
| "eligible_loop quarantined members (ep # eps) =
     (let nodes = (case members of [] \<Rightarrow> [] | m # _ \<Rightarrow> m);
          rest = eligible_loop quarantined (tl members) eps;
          instanceID = (case nodes of [] \<Rightarrow> [] | n # _ \<Rightarrow> n)
      in if ep = [] then rest
         else if anyQuarantined quarantined nodes then rest
         else \<lparr>r_instance = instanceID, r_endpoint = ep\<rparr> # rest)"

definition eligibleReplicas :: "deployment \<Rightarrow> replica list" where
  "eligibleReplicas dep =
     eligible_loop (quarantinedSet dep) (memberInstanceIDs dep) (effectiveEndpoints dep)"

text \<open>
  \<^verbatim>\<open>pickReplica\<close> over any policy: the policy's \<^verbatim>\<open>Pick\<close> is an argument, its state is threaded.
\<close>

datatype replica_choice = ChoseReplica gostring gostring | ChoseNone | ChosePanic

definition pickReplica ::
  "(pick_request \<Rightarrow> 'p \<Rightarrow> pick \<times> 'p) \<Rightarrow> gostring \<Rightarrow> stats \<Rightarrow> deployment \<Rightarrow> 'p \<Rightarrow> replica_choice \<times> 'p" where
  "pickReplica pick session stats dep p =
     (let replicas = eligibleReplicas dep
      in if replicas = [] then (ChoseNone, p)
         else
           (case pick \<lparr>pr_session = session, pr_deploy = dep_id dep, pr_replicas = replicas,
                       pr_stats = stats\<rparr> p of
              (Picked r, p') \<Rightarrow> (ChoseReplica (r_instance r) (r_endpoint r), p')
            | (NoReplica, p') \<Rightarrow> (ChoseNone, p')
            | (PickPanic, p') \<Rightarrow> (ChosePanic, p')))"

subsection \<open>Priority, tenant, session\<close>

text \<open>Headers are keyed by their lower-cased name; an absent header reads as the empty string.\<close>

type_synonym headers = "gostring \<rightharpoonup> gostring"

definition header_get :: "headers \<Rightarrow> gostring \<Rightarrow> gostring" where
  "header_get h k = (case h (map lower_char k) of Some v \<Rightarrow> v | None \<Rightarrow> [])"

definition PriorityHeader :: gostring where "PriorityHeader = ''X-IPlane-Priority''"
definition TenantHeader :: gostring where "TenantHeader = ''X-IPlane-Tenant''"
definition SessionHeader :: gostring where "SessionHeader = ''X-IPlane-Session''"
definition DefaultTenantID :: gostring where "DefaultTenantID = ''default''"

definition priorityFromHeader :: "headers \<Rightarrow> priority" where
  "priorityFromHeader h =
     (let v = to_lower (trim_space (header_get h PriorityHeader))
      in if v = ''interactive'' then PInteractive
         else if v = ''batch'' then PBatch else PUnspecified)"

text \<open>The value the middleware left on the context, \<open>None\<close> when there is none.\<close>

definition effectivePriority :: "priority option \<Rightarrow> priority" where
  "effectivePriority ctx =
     (case ctx of Some p \<Rightarrow> if p \<noteq> PUnspecified then p else PInteractive | None \<Rightarrow> PInteractive)"

definition effectivePriorityFromCtx :: "priority option \<Rightarrow> priority" where
  "effectivePriorityFromCtx ctx =
     (case ctx of Some p \<Rightarrow> if p \<noteq> PUnspecified then p else PInteractive | None \<Rightarrow> PInteractive)"

definition priorityLabel :: "priority \<Rightarrow> gostring" where
  "priorityLabel p =
     (case p of PInteractive \<Rightarrow> ''interactive'' | PBatch \<Rightarrow> ''batch'' | PUnspecified \<Rightarrow> ''unspecified'')"

definition extractTenant :: "headers \<Rightarrow> gostring" where
  "extractTenant h =
     (let t = trim_space (header_get h TenantHeader) in if t = [] then DefaultTenantID else t)"

definition tenantFromContext :: "gostring option \<Rightarrow> gostring" where
  "tenantFromContext ctx =
     (case ctx of Some v \<Rightarrow> if v \<noteq> [] then v else DefaultTenantID | None \<Rightarrow> DefaultTenantID)"

definition sessionFromHeader :: "headers \<Rightarrow> gostring" where
  "sessionFromHeader h = trim_space (header_get h SessionHeader)"

definition sessionKey :: "headers \<Rightarrow> gostring \<Rightarrow> gostring" where
  "sessionKey h derived = (let s = sessionFromHeader h in if s \<noteq> [] then s else derived)"

text \<open>A message of the body; \<open>fm_content\<close> is \<open>None\<close> when the field is absent.\<close>

record flat_message =
  fm_role :: gostring
  fm_content :: "gostring option"

fun session_scan ::
  "flat_message list \<Rightarrow> gostring option \<Rightarrow> gostring option \<times> gostring option" where
  "session_scan [] system = (system, None)"
| "session_scan (m # ms) system =
     (if fm_role m = ''system'' then
        session_scan ms (case system of None \<Rightarrow> fm_content m | Some s \<Rightarrow> Some s)
      else if fm_role m = ''user'' then
        (case fm_content m of Some c \<Rightarrow> (system, Some c) | None \<Rightarrow> session_scan ms system)
      else session_scan ms system)"

definition hex_digit :: "nat \<Rightarrow> char" where
  "hex_digit n = (if n < 10 then char_of (48 + n) else char_of (87 + n))"

definition hex_encode :: "gostring \<Rightarrow> gostring" where
  "hex_encode bs =
     concat (map (\<lambda>c. let n = of_char c :: nat in [hex_digit (n div 16), hex_digit (n mod 16)]) bs)"

definition deriveSessionKey :: "(gostring \<Rightarrow> gostring) \<Rightarrow> flat_message list \<Rightarrow> gostring" where
  "deriveSessionKey sha256 messages =
     (case session_scan messages None of
        (_, None) \<Rightarrow> []
      | (system, Some firstUser) \<Rightarrow>
          ''d-'' @ hex_encode (take 8 (sha256
            ((case system of None \<Rightarrow> [] | Some s \<Rightarrow> s) @ [char_of (0 :: nat)] @ firstUser))))"

subsection \<open>Context buckets\<close>

definition contextBuckets :: "(int \<times> gostring) list" where
  "contextBuckets =
     [(512, ''512''), (2048, ''2k''), (8192, ''8k''), (32768, ''32k''), (131072, ''128k''),
      (524288, ''512k'')]"

fun bucket_loop :: "(int \<times> gostring) list \<Rightarrow> int \<Rightarrow> gostring" where
  "bucket_loop [] n = ''1M+''"
| "bucket_loop ((m, l) # bs) n = (if n \<le> m then l else bucket_loop bs n)"

definition contextBucket :: "int \<Rightarrow> gostring" where
  "contextBucket promptTokens =
     (if promptTokens \<le> 0 then ''unknown'' else bucket_loop contextBuckets promptTokens)"

subsection \<open>The deployment that serves a model\<close>

definition as_time :: "timestamp option \<Rightarrow> int" where
  "as_time t = (case t of Some v \<Rightarrow> v | None \<Rightarrow> 0)"

text \<open>
  The comparison of \<^verbatim>\<open>sort.SliceStable\<close> is a lexicographic order on this key; a stable sort is
  determined by its key.
\<close>

definition match_key :: "deployment \<Rightarrow> nat \<times> int" where
  "match_key d = ((if dep_state d = DRunning then 0 else 1), - as_time (dep_created_at d))"

datatype model_lookup = ModelNotFound | ModelServedBy deployment

definition pickDeploymentForModel :: "deployment list \<Rightarrow> gostring \<Rightarrow> model_lookup" where
  "pickDeploymentForModel deployments model =
     (let matches = filter (\<lambda>d. dep_model d = model) deployments
      in if matches = [] then ModelNotFound else ModelServedBy (hd (sort_key match_key matches)))"

subsection \<open>Per-replica counters\<close>

definition replica_key :: "gostring \<Rightarrow> gostring \<Rightarrow> gostring" where
  "replica_key deployID replicaID = deployID @ ''/'' @ replicaID"

definition router_InFlight :: "(gostring \<rightharpoonup> int) \<Rightarrow> gostring \<Rightarrow> gostring \<Rightarrow> int" where
  "router_InFlight m deployID replicaID =
     (case m (replica_key deployID replicaID) of Some n \<Rightarrow> n | None \<Rightarrow> 0)"

text \<open>\<^verbatim>\<open>trackInFlight\<close> and the function it returns, which runs when the request is done.\<close>

definition trackInFlight :: "gostring \<Rightarrow> gostring \<Rightarrow> (gostring \<rightharpoonup> int) \<Rightarrow> (gostring \<rightharpoonup> int)" where
  "trackInFlight deployID replicaID m =
     m(replica_key deployID replicaID \<mapsto> wrap64 (router_InFlight m deployID replicaID + 1))"

definition untrackInFlight ::
  "timestamp \<Rightarrow> gostring \<Rightarrow> gostring \<Rightarrow> (gostring \<rightharpoonup> int) \<times> (gostring \<rightharpoonup> timestamp)
   \<Rightarrow> (gostring \<rightharpoonup> int) \<times> (gostring \<rightharpoonup> timestamp)" where
  "untrackInFlight now deployID replicaID mc =
     (case mc of (m, c) \<Rightarrow>
        (m(replica_key deployID replicaID \<mapsto> wrap64 (router_InFlight m deployID replicaID - 1)),
         c(replica_key deployID replicaID \<mapsto> now)))"

definition SinceLastCompletion ::
  "(gostring \<rightharpoonup> timestamp) \<Rightarrow> gostring \<Rightarrow> gostring \<Rightarrow> timestamp \<Rightarrow> duration option" where
  "SinceLastCompletion c deployID replicaID now =
     map_option (time_sub now) (c (replica_key deployID replicaID))"

datatype affinity_outcome = AffinityHit | AffinityMiss

definition recordAffinity ::
  "gostring \<Rightarrow> gostring \<Rightarrow> gostring \<Rightarrow> (gostring \<rightharpoonup> gostring) \<Rightarrow> affinity_outcome \<times> (gostring \<rightharpoonup> gostring)" where
  "recordAffinity deployID session replicaID m =
     ((if m (pin_key deployID session) = Some replicaID then AffinityHit else AffinityMiss),
      m(pin_key deployID session \<mapsto> replicaID))"

subsection \<open>Lemmas on selection\<close>

definition nodes_at :: "gostring list list \<Rightarrow> nat \<Rightarrow> gostring list" where
  "nodes_at ms i = (if i < length ms then ms ! i else [])"

definition first_node :: "gostring list \<Rightarrow> gostring" where
  "first_node ns = (case ns of [] \<Rightarrow> [] | n # _ \<Rightarrow> n)"

lemma nodes_at_Cons: "nodes_at ms 0 = (case ms of [] \<Rightarrow> [] | m # _ \<Rightarrow> m)"
    "nodes_at ms (Suc i) = nodes_at (tl ms) i"
  by (auto simp: nodes_at_def nth_tl split: list.split)

lemma eligible_loop_filter:
  "eligible_loop Q ms eps =
     map (\<lambda>i. \<lparr>r_instance = first_node (nodes_at ms i), r_endpoint = eps ! i\<rparr>)
       (filter (\<lambda>i. eps ! i \<noteq> [] \<and> \<not> anyQuarantined Q (nodes_at ms i)) [0..<length eps])"
proof (induction Q ms eps rule: eligible_loop.induct)
  case (2 Q ms ep eps)
  have "[0..<length (ep # eps)] = 0 # map Suc [0..<length eps]"
    by (simp add: map_Suc_upt upt_conv_Cons del: upt_Suc)
  then show ?case using 2
    by (simp add: Let_def filter_map comp_def nodes_at_Cons first_node_def del: upt_Suc
        cong: list.case_cong)
qed simp

lemma router_effective [simp]: "effectiveEndpoints dep = EffectiveEndpoints dep"
  by (simp add: effectiveEndpoints_def EffectiveEndpoints_def)

lemma anyQuarantined_iff:
  "anyQuarantined (quarantinedSet dep) nodes \<longleftrightarrow> (\<exists>i\<in>set nodes. i \<noteq> [] \<and> i \<in> set (dep_unhealthy dep))"
  by (auto simp: anyQuarantined_def quarantinedSet_def list_ex_iff)

lemma eligible_member:
  "r \<in> set (eligibleReplicas dep) \<longleftrightarrow>
     (\<exists>i < length (EffectiveEndpoints dep). EffectiveEndpoints dep ! i \<noteq> []
        \<and> \<not> anyQuarantined (quarantinedSet dep) (nodes_at (memberInstanceIDs dep) i)
        \<and> r = \<lparr>r_instance = first_node (nodes_at (memberInstanceIDs dep) i),
               r_endpoint = EffectiveEndpoints dep ! i\<rparr>)"
  unfolding eligibleReplicas_def eligible_loop_filter by auto

text \<open>What \<open>pickReplica\<close> promises over any policy that meets the contract.\<close>

definition choice_sound :: "deployment \<Rightarrow> replica_choice \<Rightarrow> bool" where
  "choice_sound dep c \<longleftrightarrow>
     (case c of
        ChoseReplica i ep \<Rightarrow> \<lparr>r_instance = i, r_endpoint = ep\<rparr> \<in> set (eligibleReplicas dep)
      | ChoseNone \<Rightarrow> eligibleReplicas dep = []
      | ChosePanic \<Rightarrow> False)"

context routing_policy
begin

lemma pickReplica_sound:
  assumes "headroom (Suc k) p"
  shows "choice_sound dep (fst (pickReplica pick session stats dep p))"
proof (cases "eligibleReplicas dep = []")
  case False
  let ?rq = "\<lparr>pr_session = session, pr_deploy = dep_id dep, pr_replicas = eligibleReplicas dep,
     pr_stats = stats\<rparr>"
  obtain r p' where rp: "pick ?rq p = (r, p')" by fastforce
  from pick_ok [OF assms, of ?rq] rp False obtain x where "x \<in> set (eligibleReplicas dep)" "r = Picked x"
    by (auto simp: pick_sound_def)
  with rp False show ?thesis by (cases x) (simp add: pickReplica_def choice_sound_def Let_def)
qed (simp add: pickReplica_def choice_sound_def)

lemma pickReplica_headroom:
  assumes "headroom (Suc k) p" "headroom k p"
  shows "headroom k (snd (pickReplica pick session stats dep p))"
  using pick_headroom [OF assms(1)] assms(2)
  by (auto simp: pickReplica_def Let_def case_prod_unfold split: pick.split)

end

lemma sort_key_hd_least:
  "xs \<noteq> [] \<Longrightarrow> hd (sort_key f xs) \<in> set xs \<and> (\<forall>y\<in>set xs. f (hd (sort_key f xs)) \<le> f y)"
proof -
  assume "xs \<noteq> []"
  then obtain z zs where z: "sort_key f xs = z # zs"
    by (metis length_greater_0_conv length_sort list.exhaust)
  have "sorted (map f (z # zs))" "set (z # zs) = set xs"
    using sorted_sort_key [of f xs] set_sort [of f xs] z by simp_all
  then show ?thesis using z by force
qed

subsection \<open>Properties of the selection\<close>

text \<open>
  The eligible set is exactly the serviceable members.  A replica is offered to the policy
  if and only if some member of the deployment has a stamped endpoint and none of the machines
  of that member is in \<^verbatim>\<open>unhealthy_instance_ids\<close>; it carries that endpoint and the member's first
  machine.  In particular one quarantined node takes a whole multi-node member out.
\<close>

theorem eligible_exact:
  "r \<in> set (eligibleReplicas dep) \<longleftrightarrow>
     (\<exists>i < length (EffectiveEndpoints dep). EffectiveEndpoints dep ! i \<noteq> []
        \<and> set (nodes_at (memberInstanceIDs dep) i) \<inter> set (dep_unhealthy dep) \<subseteq> {[]}
        \<and> r = \<lparr>r_instance = first_node (nodes_at (memberInstanceIDs dep) i),
               r_endpoint = EffectiveEndpoints dep ! i\<rparr>)"
  unfolding eligible_member anyQuarantined_iff by blast

text \<open>
  A request is never sent to a quarantined or unstamped replica, under either policy.
  While the round-robin counters are in range, the replica \<^verbatim>\<open>pickReplica\<close> chooses is one of the
  deployment's eligible replicas, and it reports no replica only when there is none.
\<close>

theorem pickReplica_eligible:
  assumes "rr_headroom (Suc 0) rr" "pa_headroom (Suc 0) pa"
  shows "choice_sound dep (fst (pickReplica rr_pick session stats dep rr))
    \<and> choice_sound dep (fst (pickReplica pa_Pick session stats dep pa))"
  using round_robin.pickReplica_sound [OF assms(1)] prefix_affinity.pickReplica_sound [OF assms(2)]
  by blast

definition sample_deployment :: deployment where
  "sample_deployment =
     zero_deployment\<lparr>dep_id := ''d'', dep_state := DRunning, dep_model := ''m'',
       dep_replicas := [\<lparr>rb_instance_ids = [''d-r0''], rb_endpoint = ''u0''\<rparr>,
                        \<lparr>rb_instance_ids = [''d-r1''], rb_endpoint = ''u1''\<rparr>],
       dep_unhealthy := [''d-r0'']\<rparr>"

lemma sample_eligible: "eligibleReplicas sample_deployment = [\<lparr>r_instance = ''d-r1'', r_endpoint = ''u1''\<rparr>]"
  by (simp add: eligibleReplicas_def sample_deployment_def memberInstanceIDs_def EffectiveEndpoints_def
      quarantinedSet_def anyQuarantined_def Let_def)

theorem pickReplica_eligible_witness:
  "choice_sound sample_deployment (fst (pickReplica pa_Pick ''s'' None sample_deployment (NewPrefixAffinity 0)))"
  using pickReplica_eligible [of NewRoundRobin "NewPrefixAffinity 0" sample_deployment "''s''" None]
  by (simp add: new_headroom)

text \<open>
  The flat URL prefers the newest RUNNING deployment.  The lookup fails exactly when no
  deployment serves the model; otherwise the chosen deployment serves the model, it is RUNNING
  if any deployment of the model is, and no other candidate of the same standing was created
  later.
\<close>

theorem pickDeploymentForModel_policy:
  "case pickDeploymentForModel ds m of
     ModelNotFound \<Rightarrow> m \<notin> dep_model ` set ds
   | ModelServedBy d \<Rightarrow> d \<in> set ds \<and> dep_model d = m
       \<and> (\<forall>e\<in>set ds. dep_model e = m \<longrightarrow>
            (dep_state e = DRunning \<longrightarrow> dep_state d = DRunning)
          \<and> ((dep_state e = DRunning) = (dep_state d = DRunning) \<longrightarrow>
               as_time (dep_created_at e) \<le> as_time (dep_created_at d)))"
proof (cases "filter (\<lambda>d. dep_model d = m) ds = []")
  case True
  then show ?thesis by (auto simp: pickDeploymentForModel_def filter_empty_conv)
next
  case False
  let ?ms = "filter (\<lambda>d. dep_model d = m) ds"
  have "hd (sort_key match_key ?ms) \<in> set ?ms"
    "\<forall>e\<in>set ?ms. match_key (hd (sort_key match_key ?ms)) \<le> match_key e"
    using sort_key_hd_least [OF False, of match_key] by auto
  moreover have "pickDeploymentForModel ds m = ModelServedBy (hd (sort_key match_key ?ms))"
    using False by (auto simp: pickDeploymentForModel_def Let_def)
  ultimately show ?thesis by (force simp: match_key_def less_eq_prod_def split: if_splits)
qed

theorem pickDeploymentForModel_policy_witness:
  "pickDeploymentForModel [sample_deployment\<lparr>dep_created_at := Some 1\<rparr>, sample_deployment\<lparr>dep_created_at := Some 2\<rparr>,
      sample_deployment\<lparr>dep_created_at := Some 3, dep_state := DFailed\<rparr>] ''m''
   = ModelServedBy (sample_deployment\<lparr>dep_created_at := Some 2\<rparr>)
   \<and> as_time (Some 1) \<le> as_time (Some 2)"
proof -
  let ?ds = "[sample_deployment\<lparr>dep_created_at := Some 1\<rparr>, sample_deployment\<lparr>dep_created_at := Some 2\<rparr>,
      sample_deployment\<lparr>dep_created_at := Some 3, dep_state := DFailed\<rparr>]"
  have "pickDeploymentForModel ?ds ''m'' = ModelServedBy (sample_deployment\<lparr>dep_created_at := Some 2\<rparr>)"
    by (simp add: pickDeploymentForModel_def sample_deployment_def match_key_def as_time_def
        less_eq_prod_def zero_deployment_def)
  with pickDeploymentForModel_policy [where ds = ?ds and m = "''m''"] show ?thesis
    by (simp add: sample_deployment_def)
qed

end
