(* ===== verification/Lane.thy ===== *)
theory Lane
  imports Bounded_Queue "HOL-Library.List_Lexorder" "HOL-Library.Char_ord"
begin

text \<open>
  One priority lane of the scheduler: \<^verbatim>\<open>weights.go\<close> and \<^verbatim>\<open>lane.go\<close> of
  \<^verbatim>\<open>internal/scheduler\<close>.  A lane holds one bounded queue per tenant and serves them by a
  weighted lottery.  The number drawn by \<^verbatim>\<open>math/rand/v2\<close> is an argument of the model.
\<close>

subsection \<open>Entries and weights\<close>

text \<open>
  What the scheduler reads of an entry.  \<open>e_tenant\<close> is \<open>None\<close> when the entry does not implement
  \<^verbatim>\<open>TenantIdentifier\<close>, \<open>e_stamper\<close> says whether it implements \<^verbatim>\<open>EnqueueTimestamper\<close>, and
  \<open>e_enqueued\<close> is \<open>None\<close> for the zero time.
\<close>

record entry =
  e_request :: nat
  e_deployment :: gostring
  e_priority :: gostring
  e_tenant :: "gostring option"
  e_stamper :: bool
  e_enqueued :: "timestamp option"

type_synonym weights = "gostring \<rightharpoonup> int"

definition DefaultTenantWeight :: int where "DefaultTenantWeight = 1"

definition WeightFor :: "weights \<Rightarrow> gostring \<Rightarrow> int" where
  "WeightFor w tenantID =
     (case w tenantID of
        Some v \<Rightarrow> if v > 0 then v else DefaultTenantWeight
      | None \<Rightarrow> DefaultTenantWeight)"

lemma WeightFor_pos [simp]: "0 < WeightFor w t"
  by (simp add: WeightFor_def DefaultTenantWeight_def split: option.split)

subsection \<open>The lane\<close>

record lane =
  ln_name :: gostring
  ln_weights :: weights
  ln_cap :: int
  ln_queues :: "gostring \<rightharpoonup> entry bqueue"
  ln_tenants :: "gostring list"
  ln_closed :: bool

definition newLaneState :: "gostring \<Rightarrow> weights \<Rightarrow> int \<Rightarrow> lane" where
  "newLaneState name weights perTenantCap =
     \<lparr>ln_name = name, ln_weights = weights, ln_cap = perTenantCap, ln_queues = Map.empty,
      ln_tenants = [], ln_closed = False\<rparr>"

text \<open>
  \<^verbatim>\<open>push\<close> in its two atomic parts: under the lane's mutex it reads the closed flag and finds or creates
  the tenant's queue (\<open>lane_admit\<close>); after releasing the mutex it pushes on that queue, which may have been
  closed, filled or emptied in between (\<open>lane_offer\<close>, \<open>None\<close> without a queue, which is never removed).
  \<open>lane_push\<close> is the call that is not interrupted.  \<open>None\<close> of \<open>lane_locate\<close> is the panic of
  \<^verbatim>\<open>inmem.New\<close> on a capacity that is not positive.
\<close>

definition lane_locate :: "gostring \<Rightarrow> lane \<Rightarrow> (entry bqueue \<times> lane) option" where
  "lane_locate tenantID ls =
     (case ln_queues ls tenantID of
        Some q \<Rightarrow> Some (q, ls)
      | None \<Rightarrow>
          (case queue_New (ln_cap ls) of
             None \<Rightarrow> None
           | Some q \<Rightarrow>
               Some (q, ls\<lparr>ln_queues := (ln_queues ls)(tenantID \<mapsto> q),
                           ln_tenants := sort (ln_tenants ls @ [tenantID])\<rparr>)))"

definition lane_admit :: "gostring \<Rightarrow> lane \<Rightarrow> ((qerr + unit) \<times> lane) option" where
  "lane_admit tenantID ls =
     (if ln_closed ls then Some (Inl ErrClosed, ls)
      else map_option (\<lambda>(q, ls'). (Inr (), ls')) (lane_locate tenantID ls))"

definition lane_offer :: "gostring \<Rightarrow> entry \<Rightarrow> lane \<Rightarrow> ((qerr + unit) \<times> lane) option" where
  "lane_offer tenantID e ls =
     (case ln_queues ls tenantID of
        None \<Rightarrow> None
      | Some q \<Rightarrow>
          (case queue_Push e q of
             (r, q') \<Rightarrow> Some (r, ls\<lparr>ln_queues := (ln_queues ls)(tenantID \<mapsto> q')\<rparr>)))"

definition lane_push :: "gostring \<Rightarrow> entry \<Rightarrow> lane \<Rightarrow> ((qerr + unit) \<times> lane) option" where
  "lane_push tenantID e ls =
     (case lane_admit tenantID ls of
        None \<Rightarrow> None
      | Some (Inl err, ls') \<Rightarrow> Some (Inl err, ls')
      | Some (Inr _, ls') \<Rightarrow> lane_offer tenantID e ls')"

text \<open>The tenants with queued work, in tenant order, with their weights.\<close>

definition lane_candidates :: "lane \<Rightarrow> (gostring \<times> int) list" where
  "lane_candidates ls =
     map (\<lambda>t. (t, WeightFor (ln_weights ls) t))
       (filter (\<lambda>t. case ln_queues ls t of None \<Rightarrow> False | Some q \<Rightarrow> queue_Len q \<noteq> 0) (ln_tenants ls))"

fun total_weight :: "int \<Rightarrow> (gostring \<times> int) list \<Rightarrow> int" where
  "total_weight acc [] = acc"
| "total_weight acc ((t, w) # cs) = total_weight (wrap64 (acc + w)) cs"

fun lottery :: "(gostring \<times> int) list \<Rightarrow> int \<Rightarrow> int \<Rightarrow> gostring option" where
  "lottery [] cumulative r = None"
| "lottery ((t, w) # cs) cumulative r =
     (let cumulative' = wrap64 (cumulative + w)
      in if r < cumulative' then Some t else lottery cs cumulative' r)"

datatype lane_choice = ChooseTenant gostring | ChooseErr qerr | ChoosePanic

text \<open>
  The part of \<^verbatim>\<open>tryPop\<close> before the pop.  \<^verbatim>\<open>IntN\<close> panics on an argument that is not positive,
  and a draw that selects nobody leaves a nil queue behind, whose \<^verbatim>\<open>Pop\<close> panics.
\<close>

definition lane_choose :: "lane \<Rightarrow> int \<Rightarrow> lane_choice" where
  "lane_choose ls r =
     (let cs = lane_candidates ls
      in if cs = [] then (if ln_closed ls then ChooseErr ErrClosed else ChooseErr ErrCanceled)
         else if total_weight 0 cs \<le> 0 then ChoosePanic
         else (case lottery cs 0 r of None \<Rightarrow> ChoosePanic | Some t \<Rightarrow> ChooseTenant t))"

datatype try_pop = TPEntry entry | TPErr qerr | TPPanic

text \<open>The non-blocking pop: the context handed to \<^verbatim>\<open>Pop\<close> is already cancelled.\<close>

definition lane_pop_chosen :: "gostring \<Rightarrow> lane \<Rightarrow> try_pop \<times> lane" where
  "lane_pop_chosen t ls =
     (case ln_queues ls t of
        None \<Rightarrow> (TPPanic, ls)
      | Some q \<Rightarrow>
          (case queue_Pop True q of
             (Popped e, q') \<Rightarrow> (TPEntry e, ls\<lparr>ln_queues := (ln_queues ls)(t \<mapsto> q')\<rparr>)
           | (PopError er, q') \<Rightarrow> (TPErr er, ls\<lparr>ln_queues := (ln_queues ls)(t \<mapsto> q')\<rparr>)
           | (PopWait, q') \<Rightarrow> (TPErr ErrCanceled, ls)))"

definition lane_tryPop :: "int \<Rightarrow> lane \<Rightarrow> try_pop \<times> lane" where
  "lane_tryPop r ls =
     (case lane_choose ls r of
        ChooseErr e \<Rightarrow> (TPErr e, ls)
      | ChoosePanic \<Rightarrow> (TPPanic, ls)
      | ChooseTenant t \<Rightarrow> lane_pop_chosen t ls)"

definition lane_lenForTenant :: "lane \<Rightarrow> gostring \<Rightarrow> nat" where
  "lane_lenForTenant ls tenantID =
     (case ln_queues ls tenantID of Some q \<Rightarrow> queue_Len q | None \<Rightarrow> 0)"

text \<open>The keys of \<open>ln_queues\<close> are the elements of \<open>ln_tenants\<close> (see \<open>lane_invar\<close>).\<close>

definition lane_totalLen :: "lane \<Rightarrow> nat" where
  "lane_totalLen ls = sum_list (map (lane_lenForTenant ls) (ln_tenants ls))"

definition lane_snapshotTenants :: "lane \<Rightarrow> gostring list" where
  "lane_snapshotTenants ls = ln_tenants ls"

text \<open>
  \<^verbatim>\<open>close\<close> in its atomic parts: the flag is set under the mutex, then every queue there was is closed, one
  after the other.  \<open>lane_close\<close> is the call that is not interrupted.
\<close>

definition lane_mark_closed :: "lane \<Rightarrow> lane" where
  "lane_mark_closed ls = ls\<lparr>ln_closed := True\<rparr>"

definition lane_close_queue :: "gostring \<Rightarrow> lane \<Rightarrow> lane" where
  "lane_close_queue t ls = ls\<lparr>ln_queues := (ln_queues ls)(t := map_option queue_Close (ln_queues ls t))\<rparr>"

definition lane_close :: "lane \<Rightarrow> lane" where
  "lane_close ls =
     (if ln_closed ls then ls
      else fold lane_close_queue (ln_tenants ls) (lane_mark_closed ls))"

definition lane_invar :: "lane \<Rightarrow> bool" where
  "lane_invar ls \<longleftrightarrow>
     0 < ln_cap ls \<and> distinct (ln_tenants ls) \<and> sorted (ln_tenants ls)
     \<and> set (ln_tenants ls) = dom (ln_queues ls)
     \<and> (\<forall>t q. ln_queues ls t = Some q \<longrightarrow>
          queue_invar q \<and> q_capacity q = ln_cap ls \<and> (q_closed q \<longrightarrow> ln_closed ls))"

definition tenant_items :: "lane \<Rightarrow> gostring \<Rightarrow> entry list" where
  "tenant_items ls t = (case ln_queues ls t of None \<Rightarrow> [] | Some q \<Rightarrow> q_items q)"


subsection \<open>The lottery\<close>

abbreviation weight_sum :: "(gostring \<times> int) list \<Rightarrow> int" where
  "weight_sum cs \<equiv> sum_list (map snd cs)"

lemma weight_sum_nonneg: "\<forall>c\<in>set cs. 0 < snd c \<Longrightarrow> 0 \<le> weight_sum cs"
  by (induction cs) auto

lemma wrap64_add_nonneg:
  "0 \<le> a \<Longrightarrow> 0 \<le> b \<Longrightarrow> a + b \<le> max_int64 \<Longrightarrow> wrap64 (a + b) = a + b"
  by (simp add: min_int64_def)

lemma total_weight_sum:
  "\<forall>c\<in>set cs. 0 < snd c \<Longrightarrow> 0 \<le> acc \<Longrightarrow> acc + weight_sum cs \<le> max_int64 \<Longrightarrow>
     total_weight acc cs = acc + weight_sum cs"
proof (induction acc cs rule: total_weight.induct)
  case (2 acc t w cs)
  then have "0 \<le> weight_sum cs" "0 < w" by (auto intro: weight_sum_nonneg)
  with 2 have "wrap64 (acc + w) = acc + w" by (intro wrap64_add_nonneg) auto
  with 2 \<open>0 < w\<close> show ?case by auto
qed simp

lemma lottery_in: "lottery cs c r = Some t \<Longrightarrow> t \<in> fst ` set cs"
  by (induction cs c r rule: lottery.induct) (auto simp: Let_def split: if_splits)

lemma lottery_total:
  "\<forall>c\<in>set cs. 0 < snd c \<Longrightarrow> 0 \<le> c \<Longrightarrow> c + weight_sum cs \<le> max_int64 \<Longrightarrow>
     r < c + weight_sum cs \<Longrightarrow> cs \<noteq> [] \<Longrightarrow> \<exists>t. lottery cs c r = Some t"
proof (induction cs c r rule: lottery.induct)
  case (2 t w cs c r)
  then have "0 \<le> weight_sum cs" "0 < w" by (auto intro: weight_sum_nonneg)
  with 2 have w: "wrap64 (c + w) = c + w" by (intro wrap64_add_nonneg) auto
  show ?case
  proof (cases "r < c + w")
    case False
    with 2(5) have "cs \<noteq> []" by auto
    with 2 w False \<open>0 < w\<close> show ?thesis by (auto simp: Let_def)
  qed (simp add: w)
qed simp

lemma card_split_interval:
  fixes a b c :: int
  assumes "a \<le> b" "b \<le> c"
  shows "card {r \<in> {a..<c}. P r} = card {r \<in> {a..<b}. P r} + card {r \<in> {b..<c}. P r}"
proof -
  have "{r \<in> {a..<c}. P r} = {r \<in> {a..<b}. P r} \<union> {r \<in> {b..<c}. P r}" using assms by auto
  moreover have "{r \<in> {a..<b}. P r} \<inter> {r \<in> {b..<c}. P r} = {}" by auto
  moreover have "finite {r \<in> {a..<b}. P r}" "finite {r \<in> {b..<c}. P r}"
    by (rule finite_subset [of _ "{a..<c}"], use assms in auto)+
  ultimately show ?thesis by (metis card_Un_disjoint)
qed

lemma card_const_interval:
  "card {r \<in> {a..<b :: int}. P} = (if P then nat (b - a) else 0)"
  by (cases P) (simp_all flip: atLeastLessThan_iff)

lemma lottery_proportional:
  assumes "\<forall>c\<in>set cs. 0 < snd c" "distinct (map fst cs)" "0 \<le> c"
    and "c + weight_sum cs \<le> max_int64" "(t, w) \<in> set cs"
  shows "int (card {r \<in> {c..<c + weight_sum cs}. lottery cs c r = Some t}) = w"
  using assms
proof (induction cs arbitrary: c)
  case (Cons p cs)
  obtain t0 w0 where p: "p = (t0, w0)" by fastforce
  let ?S = "weight_sum cs"
  have pos: "0 \<le> ?S" "0 < w0" using Cons.prems p by (auto intro: weight_sum_nonneg)
  with Cons.prems p have wr: "wrap64 (c + w0) = c + w0" by (intro wrap64_add_nonneg) auto
  have eq1: "{r \<in> {c..<c + w0}. lottery (p # cs) c r = Some t} = {r \<in> {c..<c + w0}. t0 = t}"
    using wr p by (auto simp: Let_def)
  have eq2: "{r \<in> {c + w0..<c + w0 + ?S}. lottery (p # cs) c r = Some t}
      = {r \<in> {c + w0..<c + w0 + ?S}. lottery cs (c + w0) r = Some t}"
    using wr p by (auto simp: Let_def)
  have split: "card {r \<in> {c..<c + weight_sum (p # cs)}. lottery (p # cs) c r = Some t}
      = (if t0 = t then nat w0 else 0)
        + card {r \<in> {c + w0..<c + w0 + ?S}. lottery cs (c + w0) r = Some t}"
    using card_split_interval [of c "c + w0" "c + w0 + ?S" "\<lambda>r. lottery (p # cs) c r = Some t"] pos p
    unfolding eq1 eq2 card_const_interval by (simp add: add.assoc)
  show ?case
  proof (cases "t0 = t")
    case True
    with Cons.prems(2) p have "t \<notin> fst ` set cs" by simp
    then have "{r \<in> {c + w0..<c + w0 + ?S}. lottery cs (c + w0) r = Some t} = {}"
      using lottery_in by blast
    then have "card {r \<in> {c + w0..<c + w0 + ?S}. lottery cs (c + w0) r = Some t} = 0"
      by (metis card.empty)
    moreover have "w = w0" using Cons.prems(2,5) p True by (auto simp: rev_image_eqI)
    ultimately show ?thesis using split True pos by simp
  next
    case False
    then have "(t, w) \<in> set cs" using Cons.prems(5) p by auto
    with Cons.IH [of "c + w0"] Cons.prems p pos False split show ?thesis
      by (simp add: add.assoc)
  qed
qed simp

subsection \<open>The lane invariant\<close>

lemma lane_invar_new: "0 < cap \<Longrightarrow> lane_invar (newLaneState n w cap)"
  by (simp add: lane_invar_def newLaneState_def)

lemma lane_invar_queue:
  "lane_invar ls \<Longrightarrow> ln_queues ls t = Some q \<Longrightarrow>
     queue_invar q \<and> q_capacity q = ln_cap ls \<and> (q_closed q \<longrightarrow> ln_closed ls)"
  by (auto simp: lane_invar_def)

lemma lane_invar_upd:
  assumes "lane_invar ls" "t \<in> dom (ln_queues ls)" "queue_invar q"
    "q_capacity q = ln_cap ls" "q_closed q \<Longrightarrow> ln_closed ls"
  shows "lane_invar (ls\<lparr>ln_queues := (ln_queues ls)(t \<mapsto> q)\<rparr>)"
  using assms by (auto simp: lane_invar_def insert_absorb)

lemma lane_locate_invar:
  assumes "lane_invar ls" "\<not> ln_closed ls" "lane_locate t ls = Some (q, ls')"
  shows "lane_invar ls'" "ln_queues ls' t = Some q" "ln_closed ls' = ln_closed ls"
    "ln_cap ls' = ln_cap ls" "q_items q = tenant_items ls t"
    "tenant_items ls' = tenant_items ls" "queue_invar q" "q_capacity q = ln_cap ls" "\<not> q_closed q"
  using assms
  using queue_invar_New [of "ln_cap ls" "\<lparr>q_capacity = ln_cap ls, q_items = [], q_closed = False\<rparr>"]
  by (auto simp: lane_locate_def lane_invar_def tenant_items_def fun_eq_iff
      split: option.splits if_splits)

lemma lane_locate_total: "lane_invar ls \<Longrightarrow> \<exists>q ls'. lane_locate t ls = Some (q, ls')"
  by (auto simp: lane_locate_def lane_invar_def queue_New_def split: option.split)

lemma tenant_items_upd [lane_simps, simp]:
  "tenant_items (ls\<lparr>ln_queues := (ln_queues ls)(t \<mapsto> q)\<rparr>) = (tenant_items ls)(t := q_items q)"
  by (auto simp: tenant_items_def fun_eq_iff)

text \<open>The answer of \<^verbatim>\<open>push\<close> in terms of the tenant's own backlog.\<close>

definition push_answer :: "lane \<Rightarrow> gostring \<Rightarrow> qerr + unit" where
  "push_answer ls t =
     (if ln_closed ls then Inl ErrClosed
      else if int (length (tenant_items ls t)) \<ge> ln_cap ls then Inl ErrQueueFull
      else Inr ())"

lemma lane_admit_spec:
  assumes "lane_invar ls"
  shows "\<exists>ls'. lane_admit t ls = Some (if ln_closed ls then Inl ErrClosed else Inr (), ls')
    \<and> lane_invar ls' \<and> ln_closed ls' = ln_closed ls \<and> ln_cap ls' = ln_cap ls
    \<and> tenant_items ls' = tenant_items ls \<and> (\<not> ln_closed ls \<longrightarrow> t \<in> dom (ln_queues ls'))"
proof (cases "ln_closed ls")
  case False
  obtain q ls1 where loc: "lane_locate t ls = Some (q, ls1)"
    using lane_locate_total [OF assms] by blast
  with lane_locate_invar [OF assms False loc] show ?thesis using False by (auto simp: lane_admit_def)
qed (use assms in \<open>simp add: lane_admit_def\<close>)

text \<open>The answer of a push on a queue, in terms of the queue's flag and backlog.\<close>

lemma lane_offer_spec:
  assumes "lane_invar ls" "ln_queues ls t = Some q"
  shows "\<exists>ls'. lane_offer t e ls = Some (if q_closed q then Inl ErrClosed
        else if int (length (tenant_items ls t)) \<ge> ln_cap ls then Inl ErrQueueFull else Inr (), ls')
    \<and> lane_invar ls' \<and> ln_closed ls' = ln_closed ls \<and> ln_cap ls' = ln_cap ls
    \<and> tenant_items ls' =
        (if \<not> q_closed q \<and> int (length (tenant_items ls t)) < ln_cap ls
         then (tenant_items ls)(t := tenant_items ls t @ [e]) else tenant_items ls)"
proof -
  obtain r q' where p: "queue_Push e q = (r, q')" by fastforce
  have q: "queue_invar q" "q_capacity q = ln_cap ls" "q_closed q \<longrightarrow> ln_closed ls" "tenant_items ls t = q_items q"
    using lane_invar_queue [OF assms] assms(2) by (simp_all add: tenant_items_def)
  have r: "r = (if q_closed q then Inl ErrClosed
        else if int (length (tenant_items ls t)) \<ge> ln_cap ls then Inl ErrQueueFull else Inr ())"
    using p q by (cases rule: queue_Push_cases [of q e]) auto
  have q': "queue_invar q'" "q_capacity q' = ln_cap ls" "q_closed q' = q_closed q"
    "q_items q' = (if \<not> q_closed q \<and> int (length (tenant_items ls t)) < ln_cap ls then q_items q @ [e] else q_items q)"
    using p q queue_invar_Push [of q e] queue_Push_capacity [of e q]
    by (cases rule: queue_Push_cases [of q e]; auto)+
  have "lane_invar (ls\<lparr>ln_queues := (ln_queues ls)(t \<mapsto> q')\<rparr>)"
    using assms q' q(3) by (intro lane_invar_upd) auto
  then show ?thesis using assms(2) p r q' q(4) by (auto simp: lane_offer_def fun_eq_iff)
qed

lemma lane_push_spec:
  assumes "lane_invar ls"
  shows "\<exists>ls'. lane_push t e ls = Some (push_answer ls t, ls') \<and> lane_invar ls'
    \<and> ln_closed ls' = ln_closed ls \<and> ln_cap ls' = ln_cap ls
    \<and> tenant_items ls' =
        (if push_answer ls t = Inr () then (tenant_items ls)(t := tenant_items ls t @ [e])
         else tenant_items ls)"
proof -
  obtain ls1 where a: "lane_admit t ls = Some (if ln_closed ls then Inl ErrClosed else Inr (), ls1)" "lane_invar ls1"
    "ln_closed ls1 = ln_closed ls" "ln_cap ls1 = ln_cap ls" "tenant_items ls1 = tenant_items ls"
    "\<not> ln_closed ls \<Longrightarrow> t \<in> dom (ln_queues ls1)"
    using lane_admit_spec [OF assms, of t] by blast
  show ?thesis
  proof (cases "ln_closed ls")
    case True
    then show ?thesis using a by (simp add: lane_push_def push_answer_def)
  next
    case False
    then obtain q where q: "ln_queues ls1 t = Some q" using a(6) by blast
    then have "\<not> q_closed q" using lane_invar_queue [OF a(2) q] a(3) False by simp
    then show ?thesis
      using lane_offer_spec [OF a(2) q, of e] a False by (auto simp: lane_push_def push_answer_def)
  qed
qed

lemma lane_mark_closed_spec [simp]:
  "lane_invar ls \<Longrightarrow> lane_invar (lane_mark_closed ls)" "tenant_items (lane_mark_closed ls) = tenant_items ls"
  "ln_closed (lane_mark_closed ls)" "ln_queues (lane_mark_closed ls) = ln_queues ls"
  by (auto simp: lane_invar_def lane_mark_closed_def tenant_items_def fun_eq_iff)

lemma lane_close_queue_spec [simp]:
  "lane_invar ls \<Longrightarrow> ln_closed ls \<Longrightarrow> lane_invar (lane_close_queue t ls)"
  "tenant_items (lane_close_queue t ls) = tenant_items ls" "ln_closed (lane_close_queue t ls) = ln_closed ls"
  by (auto simp: lane_invar_def lane_close_queue_def queue_invar_Close tenant_items_def fun_eq_iff
      split: option.split if_splits)

lemma close_queues:
  "lane_invar ls \<Longrightarrow> ln_closed ls \<Longrightarrow> lane_invar (fold lane_close_queue ts ls)"
  "tenant_items (fold lane_close_queue ts ls) = tenant_items ls" "ln_closed (fold lane_close_queue ts ls) = ln_closed ls"
  by (induction ts arbitrary: ls) simp_all

lemma close_queues_at:
  "ln_queues (fold lane_close_queue ts ls) t = (if t \<in> set ts then map_option queue_Close (ln_queues ls t) else ln_queues ls t)"
proof (induction ts arbitrary: ls)
  case (Cons u ts)
  have "queue_Close (queue_Close q) = queue_Close q" for q :: "entry bqueue" by (simp add: queue_Close_def)
  then have "map_option queue_Close (map_option queue_Close o') = map_option queue_Close o'" for o' :: "entry bqueue option"
    by (cases o') simp_all
  then show ?case using Cons.IH [of "lane_close_queue u ls"] by (auto simp: lane_close_queue_def)
qed simp

text \<open>Once a close has run to its end, every queue is closed.\<close>

lemma lane_close_shuts:
  "lane_invar ls \<Longrightarrow> \<not> ln_closed ls \<Longrightarrow> ln_queues (lane_close ls) t = Some q \<Longrightarrow> q_closed q"
proof -
  assume inv: "lane_invar ls" and op: "\<not> ln_closed ls" and q: "ln_queues (lane_close ls) t = Some q"
  then have "t \<in> set (ln_tenants ls)"
    by (auto simp: lane_close_def close_queues_at lane_invar_def split: if_splits)
  then obtain q0 where "q = queue_Close q0" using q op by (auto simp: lane_close_def close_queues_at)
  then show "q_closed q" by (simp add: queue_Close_def)
qed

lemma lane_invar_close: "lane_invar ls \<Longrightarrow> lane_invar (lane_close ls)"
  by (simp add: lane_close_def close_queues)

lemma tenant_items_close [simp]: "tenant_items (lane_close ls) = tenant_items ls"
  by (simp add: lane_close_def close_queues)

lemma lane_close_closed [simp]: "ln_closed (lane_close ls)"
  by (simp add: lane_close_def close_queues)

subsection \<open>What \<^verbatim>\<open>tryPop\<close> serves\<close>

definition backlogged :: "lane \<Rightarrow> gostring set" where
  "backlogged ls = {t. tenant_items ls t \<noteq> []}"

lemma candidates_fst: "lane_invar ls \<Longrightarrow> fst ` set (lane_candidates ls) = backlogged ls"
  by (force simp: lane_candidates_def backlogged_def tenant_items_def lane_invar_def
      queue_Len_def image_iff split: option.splits)

lemma candidates_weight:
  "lane_invar ls \<Longrightarrow> t \<in> backlogged ls \<Longrightarrow> (t, WeightFor (ln_weights ls) t) \<in> set (lane_candidates ls)"
  using candidates_fst [of ls] by (force simp: lane_candidates_def)

lemma candidates_pos: "\<forall>c\<in>set (lane_candidates ls). 0 < snd c"
  by (auto simp: lane_candidates_def)

lemma candidates_distinct: "lane_invar ls \<Longrightarrow> distinct (map fst (lane_candidates ls))"
  by (simp add: lane_candidates_def lane_invar_def comp_def)

lemma candidates_Nil: "lane_invar ls \<Longrightarrow> lane_candidates ls = [] \<longleftrightarrow> backlogged ls = {}"
  using candidates_fst [of ls] by (metis image_is_empty set_empty)

definition lane_weight :: "lane \<Rightarrow> int" where
  "lane_weight ls = (\<Sum>t\<in>backlogged ls. WeightFor (ln_weights ls) t)"

lemma candidates_sum: "lane_invar ls \<Longrightarrow> weight_sum (lane_candidates ls) = lane_weight ls"
proof -
  assume inv: "lane_invar ls"
  let ?ts = "map fst (lane_candidates ls)"
  have "map snd (lane_candidates ls) = map (WeightFor (ln_weights ls)) ?ts"
    by (simp add: lane_candidates_def comp_def)
  then have "weight_sum (lane_candidates ls) = (\<Sum>t\<in>set ?ts. WeightFor (ln_weights ls) t)"
    using candidates_distinct [OF inv] by (metis sum_list_distinct_conv_sum_set)
  then show ?thesis using candidates_fst [OF inv] by (simp add: lane_weight_def)
qed

lemma lane_choose_spec:
  assumes "lane_invar ls" "backlogged ls \<noteq> {}" "lane_weight ls \<le> max_int64" "r < lane_weight ls"
  shows "\<exists>t\<in>backlogged ls. lottery (lane_candidates ls) 0 r = Some t
    \<and> lane_choose ls r = ChooseTenant t"
proof -
  let ?cs = "lane_candidates ls"
  have ne: "?cs \<noteq> []" using assms candidates_Nil by blast
  have sum: "weight_sum ?cs = lane_weight ls" by (rule candidates_sum [OF assms(1)])
  have tot: "total_weight 0 ?cs = lane_weight ls"
    using total_weight_sum [OF candidates_pos, of 0 ls] assms(3) sum by simp
  obtain t where t: "lottery ?cs 0 r = Some t"
    using lottery_total [OF candidates_pos, of 0 ls r] assms ne sum by auto
  have "0 < lane_weight ls"
    using ne sum candidates_pos [of ls] by (cases ?cs) (use weight_sum_nonneg in force)+
  moreover have "t \<in> backlogged ls" using lottery_in [OF t] candidates_fst [OF assms(1)] by simp
  ultimately show ?thesis using t ne tot by (auto simp: lane_choose_def Let_def)
qed

lemma lane_pop_chosen_spec:
  assumes "lane_invar ls" "tenant_items ls t = e # rest"
  shows "\<exists>ls'. lane_pop_chosen t ls = (TPEntry e, ls') \<and> lane_invar ls'
    \<and> tenant_items ls' = (tenant_items ls)(t := rest) \<and> ln_closed ls' = ln_closed ls
    \<and> ln_cap ls' = ln_cap ls"
proof -
  obtain q where q: "ln_queues ls t = Some q" "q_items q = e # rest"
    using assms(2) by (auto simp: tenant_items_def split: option.splits)
  then have p: "queue_Pop True q = (Popped e, q\<lparr>q_items := rest\<rparr>)" by (simp add: queue_Pop_def)
  have "lane_invar (ls\<lparr>ln_queues := (ln_queues ls)(t \<mapsto> q\<lparr>q_items := rest\<rparr>)\<rparr>)"
    using lane_invar_queue [OF assms(1) q(1)] q
    by (intro lane_invar_upd [OF assms(1)]) (auto simp: queue_invar_def)
  with q p show ?thesis by (simp add: lane_pop_chosen_def)
qed

lemma lane_tryPop_empty:
  "lane_invar ls \<Longrightarrow> backlogged ls = {} \<Longrightarrow>
     lane_tryPop r ls = (TPErr (if ln_closed ls then ErrClosed else ErrCanceled), ls)"
  by (simp add: lane_tryPop_def lane_choose_def candidates_Nil)

lemma lane_tryPop_some:
  assumes "lane_invar ls" "backlogged ls \<noteq> {}" "lane_weight ls \<le> max_int64" "r < lane_weight ls"
  shows "\<exists>t e rest ls'. tenant_items ls t = e # rest \<and> lane_tryPop r ls = (TPEntry e, ls')
    \<and> tenant_items ls' = (tenant_items ls)(t := rest) \<and> lane_invar ls'
    \<and> ln_closed ls' = ln_closed ls \<and> ln_cap ls' = ln_cap ls"
proof -
  from lane_choose_spec [OF assms] obtain t
    where t: "t \<in> backlogged ls" "lane_choose ls r = ChooseTenant t" by blast
  then obtain e rest where it: "tenant_items ls t = e # rest"
    by (cases "tenant_items ls t") (auto simp: backlogged_def)
  from lane_pop_chosen_spec [OF assms(1) it] t it show ?thesis
    by (fastforce simp: lane_tryPop_def)
qed

subsection \<open>Properties of a lane\<close>

text \<open>A lane with two backlogged tenants of weights 3 and 1, for the witnesses.\<close>

definition sample_entry :: "nat \<Rightarrow> gostring \<Rightarrow> entry" where
  "sample_entry n t =
     \<lparr>e_request = n, e_deployment = ''d'', e_priority = ''interactive'', e_tenant = Some t,
      e_stamper = True, e_enqueued = None\<rparr>"

definition sample_lane :: lane where
  "sample_lane =
     \<lparr>ln_name = ''interactive'', ln_weights = [''a'' \<mapsto> 3], ln_cap = 2,
      ln_queues =
        [''a'' \<mapsto> \<lparr>q_capacity = 2, q_items = [sample_entry 1 ''a''], q_closed = False\<rparr>,
         ''b'' \<mapsto> \<lparr>q_capacity = 2, q_items = [sample_entry 2 ''b''], q_closed = False\<rparr>],
      ln_tenants = [''a'', ''b''], ln_closed = False\<rparr>"

lemma sample_lane_facts:
  "lane_invar sample_lane" "backlogged sample_lane = {''a'', ''b''}" "lane_weight sample_lane = 4"
proof -
  show "lane_invar sample_lane"
    by (auto simp: lane_invar_def sample_lane_def queue_invar_def
        less_char_def less_eq_char_def split: if_splits)
  show bl: "backlogged sample_lane = {''a'', ''b''}"
    by (auto simp: backlogged_def tenant_items_def sample_lane_def split: if_splits)
  show "lane_weight sample_lane = 4"
    unfolding lane_weight_def bl by (simp add: sample_lane_def WeightFor_def DefaultTenantWeight_def)
qed

text \<open>
  A tenant's backlog is its own.  A push is answered from the lane's closed flag and the
  pushing tenant's queue alone: \<^verbatim>\<open>ErrClosed\<close> on a closed lane, \<^verbatim>\<open>ErrQueueFull\<close> when that
  tenant already holds the per-tenant capacity, and otherwise the entry joins the end of that
  tenant's queue.  No other tenant's queue changes, and \<^verbatim>\<open>push\<close> never panics on a lane that
  satisfies the invariant, which it keeps.
\<close>

theorem lane_push_isolated:
  assumes "lane_invar ls"
  shows "\<exists>ls'. lane_push t e ls = Some (push_answer ls t, ls') \<and> lane_invar ls'
    \<and> (\<forall>t'. tenant_items ls' t' =
          (if t' = t \<and> push_answer ls t = Inr () then tenant_items ls t @ [e]
           else tenant_items ls t'))"
  using lane_push_spec [OF assms, of t e] by auto

theorem lane_push_isolated_witness:
  "\<exists>ls'. lane_push ''a'' (sample_entry 1 ''a'') (newLaneState ''interactive'' Map.empty 1) = Some (Inr (), ls')
     \<and> lane_invar ls' \<and> tenant_items ls' ''a'' = [sample_entry 1 ''a'']
     \<and> tenant_items ls' ''b'' = []"
proof -
  let ?ls = "newLaneState ''interactive'' Map.empty 1"
  have "lane_invar ?ls" by (simp add: lane_invar_new)
  from lane_push_isolated [OF this, of "''a''" "sample_entry 1 ''a''"] show ?thesis
    by (auto simp: push_answer_def newLaneState_def tenant_items_def)
qed

text \<open>
  \<^verbatim>\<open>tryPop\<close> never loses an entry and never panics.  On a lane with no queued entry it
  reports \<^verbatim>\<open>ErrClosed\<close> or \<^verbatim>\<open>ErrCanceled\<close> and changes nothing; otherwise, for every draw below
  the total weight (which fits an \<^verbatim>\<open>int\<close>), it returns the oldest entry of one backlogged
  tenant and removes exactly that entry, also after the lane has been closed.
\<close>

theorem lane_tryPop_serves:
  assumes "lane_invar ls" "lane_weight ls \<le> max_int64" "r < lane_weight ls \<or> backlogged ls = {}"
  shows "if backlogged ls = {}
    then lane_tryPop r ls = (TPErr (if ln_closed ls then ErrClosed else ErrCanceled), ls)
    else \<exists>t e rest ls'. tenant_items ls t = e # rest \<and> lane_tryPop r ls = (TPEntry e, ls')
      \<and> tenant_items ls' = (tenant_items ls)(t := rest) \<and> lane_invar ls'"
  using lane_tryPop_empty [OF assms(1)] lane_tryPop_some [OF assms(1)] assms(2,3) by fastforce

theorem lane_tryPop_serves_witness:
  "\<exists>t e rest ls'. tenant_items sample_lane t = e # rest \<and> lane_tryPop 3 sample_lane = (TPEntry e, ls')
     \<and> tenant_items ls' = (tenant_items sample_lane)(t := rest) \<and> lane_invar ls'"
  using lane_tryPop_serves [of sample_lane 3] by (simp add: sample_lane_facts max_int64_def)

text \<open>
  C7: the lottery gives each tenant its weight.  Among the equally likely draws
  \<^verbatim>\<open>0 .. totalWeight-1\<close>, the number that select a backlogged tenant is exactly that tenant's
  configured weight, so its share of the lane is its weight over the sum of the weights of the
  backlogged tenants.
\<close>

theorem lane_weighted_share:
  assumes "lane_invar ls" "lane_weight ls \<le> max_int64" "t \<in> backlogged ls"
  shows "int (card {r \<in> {0..<lane_weight ls}. lane_choose ls r = ChooseTenant t})
    = WeightFor (ln_weights ls) t"
proof -
  have "{r \<in> {0..<lane_weight ls}. lane_choose ls r = ChooseTenant t}
      = {r \<in> {0..<lane_weight ls}. lottery (lane_candidates ls) 0 r = Some t}"
    using lane_choose_spec [OF assms(1) _ assms(2)] assms(3) by fastforce
  with lottery_proportional [OF candidates_pos candidates_distinct [OF assms(1)], of 0]
    candidates_weight [OF assms(1,3)] assms(2) candidates_sum [OF assms(1)]
  show ?thesis by simp
qed

theorem lane_weighted_share_witness:
  "int (card {r \<in> {0..<4}. lane_choose sample_lane r = ChooseTenant ''a''}) = 3"
  using lane_weighted_share [of sample_lane "''a''"] sample_lane_facts
  by (simp add: max_int64_def sample_lane_def WeightFor_def)

end
