(* ===== verification/Scheduler.thy ===== *)
theory Scheduler
  imports Lane "HOL-Library.Multiset"
begin

text \<open>
  The \<^verbatim>\<open>InteractiveFirst\<close> scheduler of \<^verbatim>\<open>internal/scheduler/interactive_first.go\<close>.  The worker
  goroutines are a list of program counters; one call of \<open>worker_step\<close> is one atomic action of
  one worker (a lane lottery, the pop of the chosen queue, the wait on the in-flight semaphore,
  the return of the handler, the idle timer, the observation of a cancelled context), so the
  step relation \<open>sched_step\<close> has every interleaving of the workers with \<^verbatim>\<open>Submit\<close> and \<^verbatim>\<open>Stop\<close>.
  The lottery and the pop are separate steps, as the lane's mutex is released between them; so are the
  search for a tenant's queue and the push on it, and the closed flag of a lane and the closing of its queues.
\<close>

subsection \<open>State\<close>

definition LaneInteractive :: gostring where "LaneInteractive = ''interactive''"
definition LaneBatch :: gostring where "LaneBatch = ''batch''"

definition idleStartBackoff :: duration where "idleStartBackoff = millisecond"
definition idleMaxBackoff :: duration where "idleMaxBackoff = 10 * millisecond"

datatype wphase =
    WTop
  | WTryI
  | WPopI gostring
  | WTryB
  | WPopB gostring
  | WIdle
  | WAcquire gostring entry
  | WRun gostring entry bool
  | WExit
  | WPanic

record worker =
  w_phase :: wphase
  w_iopen :: bool
  w_bopen :: bool
  w_backoff :: duration

text \<open>
  \<open>s_sems\<close> gives the number of slots in use of every semaphore created so far;
  \<open>s_cancelled\<close> is \<^verbatim>\<open>rootCtx.Err() != nil\<close>.
\<close>

record sched =
  s_workers :: int
  s_inFlightCap :: int
  s_interactive :: lane
  s_batch :: lane
  s_started :: bool
  s_cancelled :: bool
  s_sems :: "gostring \<rightharpoonup> nat"
  s_pool :: "worker list"

datatype observation =
    OnPush gostring gostring nat
  | OnPop gostring gostring gostring nat duration

record config =
  cfg_handler_nil :: bool
  cfg_workers :: int
  cfg_interactive_capacity :: int
  cfg_batch_capacity :: int
  cfg_in_flight_cap :: int
  cfg_weights :: "weights option"

subsection \<open>Construction and submission\<close>

text \<open>\<open>None\<close> is a panic.\<close>

definition NewInteractiveFirst :: "config \<Rightarrow> sched option" where
  "NewInteractiveFirst cfg =
     (if cfg_handler_nil cfg then None
      else if cfg_workers cfg \<le> 0 then None
      else if cfg_interactive_capacity cfg \<le> 0 then None
      else if cfg_batch_capacity cfg \<le> 0 then None
      else if cfg_in_flight_cap cfg < 0 then None
      else
        (let weights = (case cfg_weights cfg of None \<Rightarrow> Map.empty | Some w \<Rightarrow> w)
         in Some \<lparr>s_workers = cfg_workers cfg, s_inFlightCap = cfg_in_flight_cap cfg,
                  s_interactive = newLaneState LaneInteractive weights (cfg_interactive_capacity cfg),
                  s_batch = newLaneState LaneBatch weights (cfg_batch_capacity cfg),
                  s_started = False, s_cancelled = False, s_sems = Map.empty, s_pool = []\<rparr>))"

definition tenantFromEntry :: "entry \<Rightarrow> gostring" where
  "tenantFromEntry e =
     (case e_tenant e of Some v \<Rightarrow> if v \<noteq> [] then v else ''default'' | None \<Rightarrow> ''default'')"

definition laneFor :: "gostring \<Rightarrow> sched \<Rightarrow> lane" where
  "laneFor p s = (if p = LaneBatch then s_batch s else s_interactive s)"

definition setLane :: "gostring \<Rightarrow> lane \<Rightarrow> sched \<Rightarrow> sched" where
  "setLane p ls s = (if p = LaneBatch then s\<lparr>s_batch := ls\<rparr> else s\<lparr>s_interactive := ls\<rparr>)"

definition StampEnqueued :: "timestamp \<Rightarrow> entry \<Rightarrow> entry" where
  "StampEnqueued now e = (if e_stamper e then e\<lparr>e_enqueued := Some now\<rparr> else e)"

definition sched_Submit ::
  "timestamp \<Rightarrow> entry \<Rightarrow> sched \<Rightarrow> ((qerr + unit) \<times> observation list \<times> sched) option" where
  "sched_Submit now e s =
     (let tenantID = tenantFromEntry e;
          ls = laneFor (e_priority e) s
      in case lane_push tenantID (StampEnqueued now e) ls of
           None \<Rightarrow> None
         | Some (Inl er, ls') \<Rightarrow> Some (Inl er, [], setLane (e_priority e) ls' s)
         | Some (Inr _, ls') \<Rightarrow>
             Some (Inr (), [OnPush (ln_name ls') tenantID (lane_lenForTenant ls' tenantID)],
                   setLane (e_priority e) ls' s))"

definition new_worker :: worker where
  "new_worker = \<lparr>w_phase = WTop, w_iopen = True, w_bopen = True, w_backoff = idleStartBackoff\<rparr>"

text \<open>The first argument says that the parent context is already cancelled.\<close>

definition sched_Start :: "bool \<Rightarrow> sched \<Rightarrow> sched option" where
  "sched_Start parent_done s =
     (if s_started s then None
      else Some (s\<lparr>s_started := True, s_cancelled := parent_done,
                   s_pool := replicate (nat (s_workers s)) new_worker\<rparr>))"

subsection \<open>The worker loop\<close>

datatype wevent = EvStep | EvDraw int | EvTimer | EvCtxDone | EvAcquire | EvFinish

text \<open>\<^verbatim>\<open>semaphoreFor\<close> creates the channel on first use.\<close>

definition semaphoreFor :: "gostring \<Rightarrow> sched \<Rightarrow> sched" where
  "semaphoreFor deployID s =
     (case s_sems s deployID of
        Some _ \<Rightarrow> s
      | None \<Rightarrow> s\<lparr>s_sems := (s_sems s)(deployID \<mapsto> 0)\<rparr>)"

text \<open>The start of \<^verbatim>\<open>dispatch\<close>, up to the wait on the semaphore.\<close>

definition dispatch_begin ::
  "timestamp \<Rightarrow> gostring \<Rightarrow> entry \<Rightarrow> sched \<Rightarrow> worker \<Rightarrow> sched \<times> worker \<times> observation list" where
  "dispatch_begin now lname e s w =
     (let tenantID = tenantFromEntry e;
          waitDur = (if e_stamper e
                     then (case e_enqueued e of Some ts \<Rightarrow> time_sub now ts | None \<Rightarrow> 0) else 0);
          depth = lane_lenForTenant (laneFor lname s) tenantID;
          obs = [OnPop lname tenantID (e_deployment e) depth waitDur];
          w' = w\<lparr>w_backoff := idleStartBackoff\<rparr>
      in if s_inFlightCap s > 0
         then (semaphoreFor (e_deployment e) s, w'\<lparr>w_phase := WAcquire lname e\<rparr>, obs)
         else (s, w'\<lparr>w_phase := WRun lname e False\<rparr>, obs))"

definition idle_phase :: "worker \<Rightarrow> wphase" where
  "idle_phase w = (if \<not> w_iopen w \<and> \<not> w_bopen w then WExit else WIdle)"

definition after_interactive :: "worker \<Rightarrow> worker" where
  "after_interactive w = w\<lparr>w_phase := (if w_bopen w then WTryB else idle_phase w)\<rparr>"

definition interactive_error :: "qerr \<Rightarrow> worker \<Rightarrow> worker" where
  "interactive_error er w =
     after_interactive (if er = ErrClosed then w\<lparr>w_iopen := False\<rparr> else w)"

definition batch_error :: "qerr \<Rightarrow> worker \<Rightarrow> worker" where
  "batch_error er w =
     (let w' = (if er = ErrClosed then w\<lparr>w_bopen := False\<rparr> else w)
      in w'\<lparr>w_phase := idle_phase w'\<rparr>)"

text \<open>A draw is possible when \<^verbatim>\<open>IntN\<close> can return it (or is not called).\<close>

definition draw_ok :: "lane \<Rightarrow> int \<Rightarrow> bool" where
  "draw_ok ls r \<longleftrightarrow>
     (let n = total_weight 0 (lane_candidates ls) in n \<le> 0 \<or> 0 \<le> r \<and> r < n)"

definition worker_step ::
  "timestamp \<Rightarrow> wevent \<Rightarrow> sched \<Rightarrow> worker \<Rightarrow> (sched \<times> worker \<times> observation list) option" where
  "worker_step now ev s w =
     (case (w_phase w, ev) of
        (WTop, EvStep) \<Rightarrow>
          Some (s, w\<lparr>w_phase :=
            (if \<not> (w_iopen w \<or> w_bopen w) \<or> s_cancelled s then WExit
             else if w_iopen w then WTryI else WTryB)\<rparr>, [])
      | (WTryI, EvDraw r) \<Rightarrow>
          if draw_ok (s_interactive s) r then
            (case lane_choose (s_interactive s) r of
               ChooseTenant t \<Rightarrow> Some (s, w\<lparr>w_phase := WPopI t\<rparr>, [])
             | ChooseErr er \<Rightarrow> Some (s, interactive_error er w, [])
             | ChoosePanic \<Rightarrow> Some (s, w\<lparr>w_phase := WPanic\<rparr>, []))
          else None
      | (WPopI t, EvStep) \<Rightarrow>
          (case lane_pop_chosen t (s_interactive s) of
             (TPEntry e, ls') \<Rightarrow> Some (dispatch_begin now LaneInteractive e (s\<lparr>s_interactive := ls'\<rparr>) w)
           | (TPErr er, ls') \<Rightarrow> Some (s\<lparr>s_interactive := ls'\<rparr>, interactive_error er w, [])
           | (TPPanic, ls') \<Rightarrow> Some (s, w\<lparr>w_phase := WPanic\<rparr>, []))
      | (WTryB, EvDraw r) \<Rightarrow>
          if draw_ok (s_batch s) r then
            (case lane_choose (s_batch s) r of
               ChooseTenant t \<Rightarrow> Some (s, w\<lparr>w_phase := WPopB t\<rparr>, [])
             | ChooseErr er \<Rightarrow> Some (s, batch_error er w, [])
             | ChoosePanic \<Rightarrow> Some (s, w\<lparr>w_phase := WPanic\<rparr>, []))
          else None
      | (WPopB t, EvStep) \<Rightarrow>
          (case lane_pop_chosen t (s_batch s) of
             (TPEntry e, ls') \<Rightarrow> Some (dispatch_begin now LaneBatch e (s\<lparr>s_batch := ls'\<rparr>) w)
           | (TPErr er, ls') \<Rightarrow> Some (s\<lparr>s_batch := ls'\<rparr>, batch_error er w, [])
           | (TPPanic, ls') \<Rightarrow> Some (s, w\<lparr>w_phase := WPanic\<rparr>, []))
      | (WIdle, EvTimer) \<Rightarrow>
          Some (s, w\<lparr>w_phase := WTop, w_backoff := min idleMaxBackoff (w_backoff w * 2)\<rparr>, [])
      | (WIdle, EvCtxDone) \<Rightarrow>
          if s_cancelled s then Some (s, w\<lparr>w_phase := WExit\<rparr>, []) else None
      | (WAcquire lname e, EvAcquire) \<Rightarrow>
          (case s_sems s (e_deployment e) of
             None \<Rightarrow> None
           | Some n \<Rightarrow>
               if int n < s_inFlightCap s
               then Some (s\<lparr>s_sems := (s_sems s)(e_deployment e \<mapsto> Suc n)\<rparr>,
                          w\<lparr>w_phase := WRun lname e True\<rparr>, [])
               else None)
      | (WAcquire lname e, EvCtxDone) \<Rightarrow>
          if s_cancelled s then Some (s, w\<lparr>w_phase := WTop\<rparr>, []) else None
      | (WRun lname e held, EvFinish) \<Rightarrow>
          Some ((if held
                 then s\<lparr>s_sems := (s_sems s)(e_deployment e \<mapsto> the (s_sems s (e_deployment e)) - 1)\<rparr>
                 else s), w\<lparr>w_phase := WTop\<rparr>, [])
      | _ \<Rightarrow> None)"

text \<open>
  \<^verbatim>\<open>Stop\<close> up to the wait for the workers: nothing before \<^verbatim>\<open>Start\<close>, otherwise both lanes are
  closed and the root context is cancelled.  \<^verbatim>\<open>wg.Wait\<close> returns when \<open>all_exited\<close> holds.
\<close>

definition sched_Stop :: "sched \<Rightarrow> sched" where
  "sched_Stop s =
     (if \<not> s_started s then s
      else s\<lparr>s_interactive := lane_close (s_interactive s), s_batch := lane_close (s_batch s),
             s_cancelled := True\<rparr>)"

definition all_exited :: "sched \<Rightarrow> bool" where
  "all_exited s \<longleftrightarrow> (\<forall>w\<in>set (s_pool s). w_phase w = WExit)"

subsection \<open>Queries\<close>

definition sched_Len :: "gostring \<Rightarrow> sched \<Rightarrow> int" where
  "sched_Len lname s =
     (if lname = LaneInteractive then int (lane_totalLen (s_interactive s))
      else if lname = LaneBatch then int (lane_totalLen (s_batch s)) else -1)"

definition sched_LenForTenant :: "gostring \<Rightarrow> gostring \<Rightarrow> sched \<Rightarrow> int" where
  "sched_LenForTenant lname t s =
     (if lname = LaneInteractive then int (lane_lenForTenant (s_interactive s) t)
      else if lname = LaneBatch then int (lane_lenForTenant (s_batch s) t) else -1)"

definition sched_Tenants :: "gostring \<Rightarrow> sched \<Rightarrow> gostring list" where
  "sched_Tenants lname s =
     (if lname = LaneInteractive then lane_snapshotTenants (s_interactive s)
      else if lname = LaneBatch then lane_snapshotTenants (s_batch s) else [])"

subsection \<open>The running system\<close>

text \<open>
  The scheduler with the entries that a \<^verbatim>\<open>Submit\<close> under way has not yet pushed (between the lane's mutex
  and the queue's) and the history of the others: accepted by \<^verbatim>\<open>Submit\<close>, finished (the handler
  returned) and dropped (\<^verbatim>\<open>dispatch\<close> gave up waiting for a slot).
\<close>

record ssys =
  ss_sched :: sched
  ss_pushing :: "entry multiset"
  ss_accepted :: "entry multiset"
  ss_finished :: "entry multiset"
  ss_dropped :: "entry multiset"

definition finish_log :: "wevent \<Rightarrow> worker \<Rightarrow> entry multiset" where
  "finish_log ev w = (case (w_phase w, ev) of (WRun _ e _, EvFinish) \<Rightarrow> {#e#} | _ \<Rightarrow> {#})"

definition drop_log :: "wevent \<Rightarrow> worker \<Rightarrow> entry multiset" where
  "drop_log ev w = (case (w_phase w, ev) of (WAcquire _ e, EvCtxDone) \<Rightarrow> {#e#} | _ \<Rightarrow> {#})"

definition ss_init :: "sched \<Rightarrow> ssys" where
  "ss_init s = \<lparr>ss_sched = s, ss_pushing = {#}, ss_accepted = {#}, ss_finished = {#}, ss_dropped = {#}\<rparr>"

text \<open>
  The steps.  \<^verbatim>\<open>Submit\<close> is two atomic actions: under the lane's mutex it finds the queue of its tenant, and
  then it pushes on it; a push that is refused ends the call.  \<^verbatim>\<open>Stop\<close> sets the closed flag of the
  interactive lane, closes its queues one by one, does the same with the batch lane, and cancels the root
  context.  As a \<^verbatim>\<open>close\<close> that finds the flag set returns at once, a second \<^verbatim>\<open>Stop\<close> can go ahead of the first, so
  the closing of a queue may come at any time after the flag of its lane.  All of these can be interleaved with workers and
  with each other.  Cancelling the parent context cancels the root context too.
\<close>

inductive sched_step :: "ssys \<Rightarrow> ssys \<Rightarrow> bool" where
  submit: "lane_admit (tenantFromEntry e) (laneFor (e_priority e) (ss_sched x)) = Some (a, ls') \<Longrightarrow>
    sched_step x (x\<lparr>ss_sched := setLane (e_priority e) ls' (ss_sched x),
      ss_pushing := ss_pushing x + (if a = Inr () then {#StampEnqueued now e#} else {#})\<rparr>)"
| push: "e \<in># ss_pushing x \<Longrightarrow>
    lane_offer (tenantFromEntry e) e (laneFor (e_priority e) (ss_sched x)) = Some (r, ls') \<Longrightarrow>
    sched_step x (x\<lparr>ss_sched := setLane (e_priority e) ls' (ss_sched x),
      ss_pushing := ss_pushing x - {#e#},
      ss_accepted := ss_accepted x + (if r = Inr () then {#e#} else {#})\<rparr>)"
| start: "sched_Start parent_done (ss_sched x) = Some s' \<Longrightarrow> sched_step x (x\<lparr>ss_sched := s'\<rparr>)"
| worker: "s_started (ss_sched x) \<Longrightarrow> i < length (s_pool (ss_sched x)) \<Longrightarrow>
    w = s_pool (ss_sched x) ! i \<Longrightarrow>
    worker_step now ev (ss_sched x) w = Some (s', w', obs) \<Longrightarrow>
    sched_step x (x\<lparr>ss_sched := s'\<lparr>s_pool := (s_pool s')[i := w']\<rparr>,
      ss_finished := ss_finished x + finish_log ev w,
      ss_dropped := ss_dropped x + drop_log ev w\<rparr>)"
| stop_interactive: "s_started (ss_sched x) \<Longrightarrow>
    sched_step x (x\<lparr>ss_sched := (ss_sched x)\<lparr>s_interactive := lane_mark_closed (s_interactive (ss_sched x))\<rparr>\<rparr>)"
| stop_batch: "s_started (ss_sched x) \<Longrightarrow> ln_closed (s_interactive (ss_sched x)) \<Longrightarrow>
    sched_step x (x\<lparr>ss_sched := (ss_sched x)\<lparr>s_batch := lane_mark_closed (s_batch (ss_sched x))\<rparr>\<rparr>)"
| stop_queue: "ln_closed (laneFor l (ss_sched x)) \<Longrightarrow>
    sched_step x (x\<lparr>ss_sched := setLane l (lane_close_queue t (laneFor l (ss_sched x))) (ss_sched x)\<rparr>)"
| stop_cancel: "s_started (ss_sched x) \<Longrightarrow> ln_closed (s_interactive (ss_sched x)) \<Longrightarrow>
    ln_closed (s_batch (ss_sched x)) \<Longrightarrow>
    sched_step x (x\<lparr>ss_sched := (ss_sched x)\<lparr>s_cancelled := True\<rparr>\<rparr>)"
| parent_cancel: "s_started (ss_sched x) \<Longrightarrow>
    sched_step x (x\<lparr>ss_sched := (ss_sched x)\<lparr>s_cancelled := True\<rparr>\<rparr>)"

inductive sched_reach :: "config \<Rightarrow> ssys \<Rightarrow> bool" for cfg where
  init: "NewInteractiveFirst cfg = Some s \<Longrightarrow> sched_reach cfg (ss_init s)"
| step: "sched_reach cfg x \<Longrightarrow> sched_step x y \<Longrightarrow> sched_reach cfg y"


subsection \<open>Counting entries\<close>

definition items_mset :: "('k \<Rightarrow> 'a list) \<Rightarrow> 'a multiset" where
  "items_mset f = (\<Sum>t\<in>{t. f t \<noteq> []}. mset (f t))"

lemma items_mset_superset:
  "finite S \<Longrightarrow> {t. f t \<noteq> []} \<subseteq> S \<Longrightarrow> items_mset f = (\<Sum>t\<in>S. mset (f t))"
  unfolding items_mset_def by (rule sum.mono_neutral_left) auto

lemma items_mset_upd:
  assumes "finite {t. f t \<noteq> []}"
  shows "items_mset (f(t := xs)) + mset (f t) = items_mset f + mset xs"
proof -
  let ?S = "insert t {t. f t \<noteq> []}"
  have fin: "finite ?S" using assms by simp
  have a: "items_mset f = (\<Sum>u\<in>?S. mset (f u))"
    using fin by (rule items_mset_superset) auto
  have b: "items_mset (f(t := xs)) = (\<Sum>u\<in>?S. mset ((f(t := xs)) u))"
    using fin by (rule items_mset_superset) auto
  have "(\<Sum>u\<in>?S - {t}. mset ((f(t := xs)) u)) = (\<Sum>u\<in>?S - {t}. mset (f u))"
    by (rule sum.cong) auto
  then show ?thesis
    using sum.remove [OF fin, of t "\<lambda>u. mset (f u)"]
      sum.remove [OF fin, of t "\<lambda>u. mset ((f(t := xs)) u)"]
    unfolding a b by simp
qed

definition lane_mset :: "lane \<Rightarrow> entry multiset" where
  "lane_mset ls = items_mset (tenant_items ls)"

lemma lane_finite: "lane_invar ls \<Longrightarrow> finite {t. tenant_items ls t \<noteq> []}"
proof -
  assume "lane_invar ls"
  then have "{t. tenant_items ls t \<noteq> []} \<subseteq> set (ln_tenants ls)"
    by (auto simp: lane_invar_def tenant_items_def split: option.splits)
  then show ?thesis by (rule finite_subset) simp
qed

lemma lane_mset_push:
  assumes "lane_invar ls" "lane_push t e ls = Some (r, ls')"
  shows "lane_mset ls' = lane_mset ls + (if r = Inr () then {#e#} else {#})"
    and "lane_invar ls'" "ln_closed ls' = ln_closed ls"
proof -
  from lane_push_spec [OF assms(1), of t e] assms(2)
  have sp: "r = push_answer ls t" "lane_invar ls'" "ln_closed ls' = ln_closed ls"
    "tenant_items ls' = (if r = Inr () then (tenant_items ls)(t := tenant_items ls t @ [e])
       else tenant_items ls)" by auto
  from items_mset_upd [OF lane_finite [OF assms(1)], of t "tenant_items ls t @ [e]"] sp(4)
  show "lane_mset ls' = lane_mset ls + (if r = Inr () then {#e#} else {#})"
    by (auto simp: lane_mset_def)
  show "lane_invar ls'" "ln_closed ls' = ln_closed ls" by fact+
qed

lemma lane_pop_entry:
  assumes "lane_invar ls" "lane_pop_chosen t ls = (TPEntry e, ls')"
  shows "lane_mset ls = add_mset e (lane_mset ls')" "lane_invar ls'" "ln_closed ls' = ln_closed ls"
proof -
  from assms(2) obtain rest where it: "tenant_items ls t = e # rest"
    by (auto simp: lane_pop_chosen_def queue_Pop_def tenant_items_def
        split: option.splits list.splits if_splits)
  from lane_pop_chosen_spec [OF assms(1) it] assms(2)
  have sp: "lane_invar ls'" "tenant_items ls' = (tenant_items ls)(t := rest)"
    "ln_closed ls' = ln_closed ls" by auto
  from items_mset_upd [OF lane_finite [OF assms(1)], of t rest] sp(2) it
  show "lane_mset ls = add_mset e (lane_mset ls')" by (simp add: lane_mset_def)
  show "lane_invar ls'" "ln_closed ls' = ln_closed ls" by fact+
qed

lemma lane_pop_err:
  assumes "lane_pop_chosen t ls = (TPErr er, ls')"
  shows "ls' = ls" "tenant_items ls t = []"
proof -
  from assms have "tenant_items ls t = []" "tenant_items ls' = tenant_items ls \<and> ls' = ls"
    by (auto simp: lane_pop_chosen_def queue_Pop_def tenant_items_def map_upd_triv
        split: option.splits list.splits if_splits)
  then show "ls' = ls" "tenant_items ls t = []" by auto
qed

lemma sum_list_map_update:
  fixes f :: "'a \<Rightarrow> 'b :: comm_monoid_add"
  shows "i < length xs \<Longrightarrow> sum_list (map f (xs[i := y])) + f (xs ! i) = sum_list (map f xs) + f y"
proof (induction xs arbitrary: i)
  case (Cons x xs)
  show ?case
  proof (cases i)
    case (Suc j)
    with Cons show ?thesis by (simp add: add.assoc)
  qed (simp add: ac_simps)
qed simp

lemma sum_list_zeros [simp]: "sum_list (replicate n (0 :: 'b :: comm_monoid_add)) = 0"
  by (induction n) simp_all

lemma sum_list_empties [simp]: "sum_list (replicate n {#}) = {#}"
  by (induction n) simp_all

lemma all_set_update: "\<forall>w\<in>set xs. P w \<Longrightarrow> P y \<Longrightarrow> \<forall>w\<in>set (xs[i := y]). P w"
  using set_update_subset_insert by fastforce

subsection \<open>The effect of one worker step\<close>

definition held_entry :: "worker \<Rightarrow> entry multiset" where
  "held_entry w = (case w_phase w of WAcquire _ e \<Rightarrow> {#e#} | WRun _ e _ \<Rightarrow> {#e#} | _ \<Rightarrow> {#})"

definition slot_of :: "gostring \<Rightarrow> worker \<Rightarrow> nat" where
  "slot_of d w = (case w_phase w of WRun _ e True \<Rightarrow> of_bool (e_deployment e = d) | _ \<Rightarrow> 0)"

definition holders :: "sched \<Rightarrow> gostring \<Rightarrow> nat" where
  "holders s d = sum_list (map (slot_of d) (s_pool s))"

definition queued :: "sched \<Rightarrow> entry multiset" where
  "queued s = lane_mset (s_interactive s) + lane_mset (s_batch s)"

definition lanes_ok :: "sched \<Rightarrow> bool" where
  "lanes_ok s \<longleftrightarrow> lane_invar (s_interactive s) \<and> lane_invar (s_batch s)"

lemmas phase_defs = interactive_error_def batch_error_def after_interactive_def idle_phase_def
  dispatch_begin_def semaphoreFor_def Let_def

lemmas step_splits = wphase.splits wevent.splits option.splits if_splits lane_choice.splits
  try_pop.splits prod.splits bool.splits

lemma held_entry_phase:
  "held_entry (interactive_error er w) = {#}" "held_entry (batch_error er w) = {#}"
  by (auto simp: held_entry_def phase_defs)

lemma dispatch_begin_effect:
  assumes "dispatch_begin now l e s w = (s', w', obs)"
  shows "held_entry w' = {#e#}" "s_interactive s' = s_interactive s" "s_batch s' = s_batch s"
    "slot_of d w' = 0"
  using assms by (auto simp: phase_defs held_entry_def slot_of_def split: option.splits if_splits)

definition holding :: "worker \<Rightarrow> bool" where
  "holding w \<longleftrightarrow> (case w_phase w of WAcquire _ _ \<Rightarrow> True | WRun _ _ _ \<Rightarrow> True | _ \<Rightarrow> False)"

lemma not_holding:
  assumes "\<not> holding w"
  shows "held_entry w = {#}" "slot_of d w = 0" "finish_log ev w = {#}" "drop_log ev w = {#}"
    "w_phase w \<noteq> WAcquire l e" "w_phase w \<noteq> WRun l e h"
  using assms
  by (cases "w_phase w"; simp add: holding_def held_entry_def slot_of_def finish_log_def drop_log_def)+

text \<open>Steps that neither take an entry nor release one.\<close>

definition quiet_step :: "sched \<Rightarrow> worker \<Rightarrow> sched \<Rightarrow> worker \<Rightarrow> bool" where
  "quiet_step s w s' w' \<longleftrightarrow>
     s' = s \<and> \<not> holding w \<and> \<not> holding w'
     \<and> (w_backoff w' = w_backoff w \<or> w_backoff w' = min idleMaxBackoff (w_backoff w * 2))"

lemma quiet_error:
  "\<not> holding w \<Longrightarrow> quiet_step s w s (interactive_error er w)"
  "\<not> holding w \<Longrightarrow> quiet_step s w s (batch_error er w)"
  by (auto simp: quiet_step_def holding_def phase_defs)

lemma quiet_phase:
  "\<not> holding w \<Longrightarrow> p \<in> {WTop, WTryI, WTryB, WIdle, WExit, WPanic, WPopI t, WPopB t} \<Longrightarrow>
     quiet_step s w s (w\<lparr>w_phase := p\<rparr>)"
  by (auto simp: quiet_step_def holding_def)

lemma worker_step_eqs:
  "w_phase w = WTop \<Longrightarrow> worker_step now ev s w = Some (s', w', obs) \<Longrightarrow> quiet_step s w s' w'"
  "w_phase w = WIdle \<Longrightarrow> worker_step now ev s w = Some (s', w', obs) \<Longrightarrow> quiet_step s w s' w'"
  "w_phase w = WTryI \<Longrightarrow> worker_step now ev s w = Some (s', w', obs) \<Longrightarrow> quiet_step s w s' w'"
  "w_phase w = WTryB \<Longrightarrow> worker_step now ev s w = Some (s', w', obs) \<Longrightarrow> quiet_step s w s' w'"
proof -
  assume "w_phase w = WTop" "worker_step now ev s w = Some (s', w', obs)"
  then show "quiet_step s w s' w'"
    by (cases ev) (auto simp: worker_step_def quiet_step_def holding_def split: if_splits)
next
  assume "w_phase w = WIdle" "worker_step now ev s w = Some (s', w', obs)"
  then show "quiet_step s w s' w'"
    by (cases ev) (auto simp: worker_step_def quiet_step_def holding_def split: if_splits)
next
  assume p: "w_phase w = WTryI" and st: "worker_step now ev s w = Some (s', w', obs)"
  then obtain r where "ev = EvDraw r" by (cases ev) (auto simp: worker_step_def)
  moreover have "\<not> holding w" using p by (simp add: holding_def)
  ultimately show "quiet_step s w s' w'"
    using p st by (auto simp: worker_step_def quiet_error quiet_phase split: if_splits lane_choice.splits)
next
  assume p: "w_phase w = WTryB" and st: "worker_step now ev s w = Some (s', w', obs)"
  then obtain r where "ev = EvDraw r" by (cases ev) (auto simp: worker_step_def)
  moreover have "\<not> holding w" using p by (simp add: holding_def)
  ultimately show "quiet_step s w s' w'"
    using p st by (auto simp: worker_step_def quiet_error quiet_phase split: if_splits lane_choice.splits)
qed

definition pop_step :: "timestamp \<Rightarrow> sched \<Rightarrow> worker \<Rightarrow> sched \<Rightarrow> worker \<Rightarrow> observation list \<Rightarrow> bool" where
  "pop_step now s w s' w' obs \<longleftrightarrow>
     (\<exists>l t e ls'. lane_pop_chosen t (laneFor l s) = (TPEntry e, ls')
        \<and> w_phase w = (if l = LaneBatch then WPopB t else WPopI t)
        \<and> dispatch_begin now l e (setLane l ls' s) w = (s', w', obs))"

lemma worker_step_pop:
  assumes "w_phase w = WPopI t \<or> w_phase w = WPopB t" "worker_step now ev s w = Some (s', w', obs)"
  shows "quiet_step s w s' w' \<or> pop_step now s w s' w' obs"
proof -
  define l where "l = (if w_phase w = WPopB t then LaneBatch else LaneInteractive)"
  have ev: "ev = EvStep" using assms by (cases ev) (auto simp: worker_step_def)
  have nh: "\<not> holding w" using assms(1) by (auto simp: holding_def)
  obtain r ls' where p: "lane_pop_chosen t (laneFor l s) = (r, ls')" by fastforce
  have lane: "laneFor l s = (if w_phase w = WPopB t then s_batch s else s_interactive s)"
    by (simp add: l_def laneFor_def LaneBatch_def LaneInteractive_def)
  have lb: "l = LaneBatch \<longleftrightarrow> w_phase w = WPopB t"
    by (simp add: l_def LaneBatch_def LaneInteractive_def)
  show ?thesis
  proof (cases r)
    case (TPEntry e)
    then have "dispatch_begin now l e (setLane l ls' s) w = (s', w', obs)"
      using assms ev p lane
      by (auto simp: worker_step_def setLane_def l_def LaneBatch_def LaneInteractive_def split: if_splits)
    then show ?thesis using p TPEntry assms(1) lb unfolding pop_step_def by force
  next
    case (TPErr er)
    then show ?thesis using assms ev p lane nh lane_pop_err(1) [of t "laneFor l s" er ls']
      by (auto simp: worker_step_def quiet_error split: if_splits)
  next
    case TPPanic
    then show ?thesis using assms ev p lane nh
      by (auto simp: worker_step_def quiet_phase split: if_splits)
  qed
qed

lemma worker_step_cases:
  assumes "worker_step now ev s w = Some (s', w', obs)"
  obtains (quiet) "quiet_step s w s' w'"
    | (pop) "pop_step now s w s' w' obs"
    | (acquire) l e n where "w_phase w = WAcquire l e" "ev = EvAcquire"
      "s_sems s (e_deployment e) = Some n" "int n < s_inFlightCap s"
      "s' = s\<lparr>s_sems := (s_sems s)(e_deployment e \<mapsto> Suc n)\<rparr>"
      "w' = w\<lparr>w_phase := WRun l e True\<rparr>"
    | (abandon) l e where "w_phase w = WAcquire l e" "ev = EvCtxDone" "s_cancelled s" "s' = s"
      "w' = w\<lparr>w_phase := WTop\<rparr>"
    | (finish) l e h where "w_phase w = WRun l e h" "ev = EvFinish"
      "s' = (if h then s\<lparr>s_sems := (s_sems s)(e_deployment e \<mapsto> the (s_sems s (e_deployment e)) - 1)\<rparr>
             else s)"
      "w' = w\<lparr>w_phase := WTop\<rparr>"
proof (cases "w_phase w")
  case (WAcquire l e)
  then have "ev = EvAcquire \<or> ev = EvCtxDone" using assms by (cases ev) (auto simp: worker_step_def)
  then show ?thesis
  proof
    assume ev: "ev = EvAcquire"
    with assms WAcquire obtain n where "s_sems s (e_deployment e) = Some n" "int n < s_inFlightCap s"
      "s' = s\<lparr>s_sems := (s_sems s)(e_deployment e \<mapsto> Suc n)\<rparr>" "w' = w\<lparr>w_phase := WRun l e True\<rparr>"
      by (auto simp: worker_step_def split: option.splits if_splits)
    then show ?thesis by (rule acquire [OF WAcquire ev])
  next
    assume ev: "ev = EvCtxDone"
    with assms WAcquire have "s_cancelled s" "s' = s" "w' = w\<lparr>w_phase := WTop\<rparr>"
      by (auto simp: worker_step_def split: if_splits)
    then show ?thesis by (rule abandon [OF WAcquire ev])
  qed
next
  case (WRun l e h)
  then have ev: "ev = EvFinish" using assms by (cases ev) (auto simp: worker_step_def)
  show ?thesis using assms WRun ev by (intro finish [OF WRun ev]) (simp_all add: worker_step_def)
next
  case WExit
  then show ?thesis using assms by (cases ev) (simp_all add: worker_step_def)
next
  case WPanic
  then show ?thesis using assms by (cases ev) (simp_all add: worker_step_def)
next
  case WTop
  from quiet [OF worker_step_eqs(1) [OF this assms]] show ?thesis .
next
  case WIdle
  from quiet [OF worker_step_eqs(2) [OF this assms]] show ?thesis .
next
  case WTryI
  from quiet [OF worker_step_eqs(3) [OF this assms]] show ?thesis .
next
  case WTryB
  from quiet [OF worker_step_eqs(4) [OF this assms]] show ?thesis .
next
  case (WPopI t)
  from worker_step_pop [OF disjI1 [OF this] assms] quiet pop show ?thesis by metis
next
  case (WPopB t)
  from worker_step_pop [OF disjI2 [OF this] assms] quiet pop show ?thesis by metis
qed

lemma semaphoreFor_frame [simp]:
  "s_interactive (semaphoreFor d s) = s_interactive s" "s_batch (semaphoreFor d s) = s_batch s"
  "s_pool (semaphoreFor d s) = s_pool s" "s_inFlightCap (semaphoreFor d s) = s_inFlightCap s"
  "s_started (semaphoreFor d s) = s_started s" "s_cancelled (semaphoreFor d s) = s_cancelled s"
  by (simp_all add: semaphoreFor_def split: option.split)

lemma setLane_frame [simp]:
  "s_sems (setLane l ls s) = s_sems s" "s_pool (setLane l ls s) = s_pool s"
  "s_inFlightCap (setLane l ls s) = s_inFlightCap s" "s_started (setLane l ls s) = s_started s"
  "s_cancelled (setLane l ls s) = s_cancelled s"
  by (simp_all add: setLane_def)

lemma pop_step_effect:
  assumes "pop_step now s w s' w' obs" "lanes_ok s"
  obtains l e where "\<not> holding w" "lanes_ok s'" "queued s = add_mset e (queued s')"
    "s_pool s' = s_pool s" "s_inFlightCap s' = s_inFlightCap s" "s_started s' = s_started s"
    "s_cancelled s' = s_cancelled s" "w_backoff w' = idleStartBackoff"
    "s_sems s' = (if 0 < s_inFlightCap s \<and> s_sems s (e_deployment e) = None
       then (s_sems s)(e_deployment e \<mapsto> 0) else s_sems s)"
    "w_phase w' = (if 0 < s_inFlightCap s then WAcquire l e else WRun l e False)"
    "held_entry w' = {#e#}" "\<And>d. slot_of d w' = 0"
proof -
  from assms(1) obtain l t e ls' where
    p: "lane_pop_chosen t (laneFor l s) = (TPEntry e, ls')" "w_phase w = (if l = LaneBatch then WPopB t else WPopI t)"
    and d: "dispatch_begin now l e (setLane l ls' s) w = (s', w', obs)"
    unfolding pop_step_def by blast
  have inv: "lane_invar (laneFor l s)" using assms(2) by (simp add: lanes_ok_def laneFor_def)
  note P = lane_pop_entry [OF inv p(1)]
  have lanes: "s_interactive s' = s_interactive (setLane l ls' s)" "s_batch s' = s_batch (setLane l ls' s)"
    using d by (auto simp: dispatch_begin_def Let_def split: if_splits)
  show ?thesis
  proof (rule that)
    show "held_entry w' = {#e#}" "\<And>d. slot_of d w' = 0"
      using dispatch_begin_effect [OF d] by auto
    show "\<not> holding w" using p(2) by (simp add: holding_def)
    show "lanes_ok s'" using assms(2) P(2) lanes by (auto simp: lanes_ok_def setLane_def)
    show "queued s = add_mset e (queued s')"
      using P(1) lanes by (auto simp: queued_def setLane_def laneFor_def split: if_splits)
  qed (use d in \<open>auto simp: dispatch_begin_def semaphoreFor_def Let_def split: if_splits option.splits\<close>)
qed

lemma worker_step_frame:
  assumes "worker_step now ev s w = Some (s', w', obs)" "lanes_ok s"
  shows "s_inFlightCap s' = s_inFlightCap s" "s_started s' = s_started s"
    "s_cancelled s' = s_cancelled s" "s_pool s' = s_pool s" "lanes_ok s'"
  using assms(1)
  by (cases rule: worker_step_cases;
      (use assms(2) in \<open>auto simp: quiet_step_def lanes_ok_def elim!: pop_step_effect\<close>))+

lemma worker_step_conserves:
  assumes "worker_step now ev s w = Some (s', w', obs)" "lanes_ok s"
  shows "queued s + held_entry w = queued s' + held_entry w' + finish_log ev w + drop_log ev w"
  using assms(1)
proof (cases rule: worker_step_cases)
  case quiet
  then show ?thesis by (simp add: quiet_step_def not_holding)
next
  case pop
  from pop assms(2) obtain l e where "\<not> holding w" "queued s = add_mset e (queued s')"
    "held_entry w' = {#e#}" by (rule pop_step_effect)
  then show ?thesis using not_holding(1,3,4) [of w] by simp
qed (simp_all add: held_entry_def finish_log_def drop_log_def queued_def)

subsection \<open>The invariant of the scheduler\<close>

definition slots_ok :: "sched \<Rightarrow> bool" where
  "slots_ok s \<longleftrightarrow>
     (\<forall>d. case s_sems s d of
        None \<Rightarrow> holders s d = 0 | Some n \<Rightarrow> n = holders s d \<and> int n \<le> s_inFlightCap s)"

definition worker_ok :: "sched \<Rightarrow> worker \<Rightarrow> bool" where
  "worker_ok s w \<longleftrightarrow>
     idleStartBackoff \<le> w_backoff w \<and> w_backoff w \<le> idleMaxBackoff
     \<and> (\<forall>l e. w_phase w = WAcquire l e \<longrightarrow> 0 < s_inFlightCap s \<and> s_sems s (e_deployment e) \<noteq> None)
     \<and> (\<forall>l e h. w_phase w = WRun l e h \<longrightarrow>
          h = (0 < s_inFlightCap s) \<and> (h \<longrightarrow> s_sems s (e_deployment e) \<noteq> None))"

definition sched_ok :: "sched \<Rightarrow> bool" where
  "sched_ok s \<longleftrightarrow>
     lanes_ok s \<and> slots_ok s \<and> 0 \<le> s_inFlightCap s \<and> (\<forall>w\<in>set (s_pool s). worker_ok s w)
     \<and> (\<not> s_started s \<longrightarrow> s_pool s = [])"

definition in_hand :: "sched \<Rightarrow> entry multiset" where
  "in_hand s = sum_list (map held_entry (s_pool s))"

definition history_ok :: "ssys \<Rightarrow> bool" where
  "history_ok x \<longleftrightarrow>
     ss_accepted x = queued (ss_sched x) + in_hand (ss_sched x) + ss_finished x + ss_dropped x
     \<and> (ss_dropped x = {#} \<or> s_cancelled (ss_sched x) \<and> s_started (ss_sched x))"

lemma worker_ok_mono:
  "worker_ok s w \<Longrightarrow> s_inFlightCap s' = s_inFlightCap s \<Longrightarrow> dom (s_sems s) \<subseteq> dom (s_sems s') \<Longrightarrow>
     worker_ok s' w"
  unfolding worker_ok_def by (simp add: domIff subset_iff)

lemma worker_step_sems_dom:
  assumes "worker_step now ev s w = Some (s', w', obs)" "lanes_ok s"
  shows "dom (s_sems s) \<subseteq> dom (s_sems s')"
  using assms(1)
  by (cases rule: worker_step_cases)
    (use assms(2) in \<open>auto simp: quiet_step_def dom_def elim!: pop_step_effect split: if_splits\<close>)

lemma worker_step_worker_ok:
  assumes "worker_step now ev s w = Some (s', w', obs)" "lanes_ok s" "worker_ok s w"
  shows "worker_ok s' w'"
  using assms(1)
proof (cases rule: worker_step_cases)
  case quiet
  then have nh: "\<not> holding w'" and "s' = s"
    and b: "w_backoff w' = w_backoff w \<or> w_backoff w' = min idleMaxBackoff (w_backoff w * 2)"
    by (simp_all add: quiet_step_def)
  moreover have "idleStartBackoff \<le> w_backoff w'" "w_backoff w' \<le> idleMaxBackoff"
    using b assms(3) by (auto simp: worker_ok_def idleStartBackoff_def idleMaxBackoff_def)
  ultimately show ?thesis by (simp add: worker_ok_def not_holding)
next
  case pop
  then show ?thesis using assms(2)
    by (elim pop_step_effect)
      (auto simp: worker_ok_def idleStartBackoff_def idleMaxBackoff_def split: if_splits)
qed (use assms(3) in \<open>auto simp: worker_ok_def\<close>)

text \<open>The slots one step adds to or takes from a deployment's semaphore.\<close>

lemma worker_step_slots:
  assumes "worker_step now ev s w = Some (s', w', obs)" "lanes_ok s" "worker_ok s w"
    and "case s_sems s d of None \<Rightarrow> slot_of d w = 0 | Some n \<Rightarrow> slot_of d w \<le> n \<and> int n \<le> s_inFlightCap s"
  shows "case s_sems s' d of
      None \<Rightarrow> s_sems s d = None \<and> slot_of d w' = 0
    | Some m \<Rightarrow> m + slot_of d w = (case s_sems s d of None \<Rightarrow> 0 | Some n \<Rightarrow> n) + slot_of d w'
        \<and> int m \<le> s_inFlightCap s"
  using assms(1)
proof (cases rule: worker_step_cases)
  case quiet
  then show ?thesis using assms(4) by (auto simp: quiet_step_def not_holding split: option.splits)
next
  case pop
  then show ?thesis using assms(2,4)
    by (elim pop_step_effect) (auto simp: not_holding split: option.splits if_splits)
next
  case (acquire l e n)
  then show ?thesis using assms(4) by (auto simp: slot_of_def split: option.splits)
next
  case (abandon l e)
  then show ?thesis using assms(4) by (auto simp: slot_of_def split: option.splits)
next
  case (finish l e h)
  then show ?thesis using assms(3,4)
    by (cases h) (auto simp: slot_of_def worker_ok_def split: option.splits)
qed

lemma holders_update:
  "i < length (s_pool s) \<Longrightarrow>
     holders (s\<lparr>s_pool := (s_pool s)[i := w']\<rparr>) d + slot_of d (s_pool s ! i) = holders s d + slot_of d w'"
  unfolding holders_def using sum_list_map_update [of i "s_pool s" "slot_of d" w'] by simp

lemma slot_le_holders: "i < length (s_pool s) \<Longrightarrow> slot_of d (s_pool s ! i) \<le> holders s d"
  unfolding holders_def by (auto intro!: member_le_sum_list)

lemma slots_ok_worker:
  assumes "sched_ok s" "i < length (s_pool s)" "w = s_pool s ! i"
    and "worker_step now ev s w = Some (s', w', obs)"
  shows "slots_ok (s'\<lparr>s_pool := (s_pool s')[i := w']\<rparr>)"
  unfolding slots_ok_def
proof
  fix d
  let ?s' = "s'\<lparr>s_pool := (s_pool s')[i := w']\<rparr>"
  have ok: "lanes_ok s" "worker_ok s w" "slots_ok s" using assms by (auto simp: sched_ok_def)
  have le: "slot_of d w \<le> holders s d" using slot_le_holders assms(2,3) by simp
  have pre: "case s_sems s d of None \<Rightarrow> holders s d = 0
      | Some n \<Rightarrow> n = holders s d \<and> int n \<le> s_inFlightCap s"
    using ok(3) by (simp add: slots_ok_def)
  then have pre': "case s_sems s d of None \<Rightarrow> slot_of d w = 0
      | Some n \<Rightarrow> slot_of d w \<le> n \<and> int n \<le> s_inFlightCap s"
    using le by (simp split: option.splits)
  note F = worker_step_frame [OF assms(4) ok(1)]
  have up: "holders ?s' d + slot_of d w = holders s d + slot_of d w'"
    using holders_update [OF assms(2), of w' d] assms(3) F(4) by (simp add: holders_def)
  from worker_step_slots [OF assms(4) ok(1,2) pre'] pre up F(1)
  show "case s_sems ?s' d of None \<Rightarrow> holders ?s' d = 0
      | Some n \<Rightarrow> n = holders ?s' d \<and> int n \<le> s_inFlightCap ?s'"
    by (auto split: option.splits)
qed

lemma sched_ok_worker:
  assumes "sched_ok s" "i < length (s_pool s)" "w = s_pool s ! i"
    and "worker_step now ev s w = Some (s', w', obs)"
  shows "sched_ok (s'\<lparr>s_pool := (s_pool s')[i := w']\<rparr>)"
proof -
  let ?s' = "s'\<lparr>s_pool := (s_pool s')[i := w']\<rparr>"
  have ok: "lanes_ok s" "worker_ok s w" "\<forall>v\<in>set (s_pool s). worker_ok s v"
    using assms by (auto simp: sched_ok_def)
  note F = worker_step_frame [OF assms(4) ok(1)]
  have lift: "worker_ok ?s' v" if "worker_ok s' v" for v
    using that by (simp add: worker_ok_def)
  have old: "\<forall>v\<in>set (s_pool s). worker_ok ?s' v"
    using ok(3) worker_ok_mono [OF _ F(1) worker_step_sems_dom [OF assms(4) ok(1)]] lift by blast
  have "worker_ok ?s' w'" using worker_step_worker_ok [OF assms(4) ok(1,2)] by (rule lift)
  from all_set_update [OF old this, of i] have "\<forall>v\<in>set (s_pool ?s'). worker_ok ?s' v"
    using F(4) by simp
  moreover have "lanes_ok ?s'" using F(5) by (simp add: lanes_ok_def)
  moreover have "s_started s" using assms(1,2) by (auto simp: sched_ok_def)
  ultimately show ?thesis
    using slots_ok_worker [OF assms] F assms(1) by (simp add: sched_ok_def)
qed

lemma sched_Submit_effect:
  assumes "sched_Submit now e s = Some (r, obs, s')" "lanes_ok s"
  shows "\<exists>ls'. s' = setLane (e_priority e) ls' s" "lanes_ok s'"
    "queued s' = queued s + (if r = Inr () then {#StampEnqueued now e#} else {#})"
proof -
  obtain ls' where p: "lane_push (tenantFromEntry e) (StampEnqueued now e) (laneFor (e_priority e) s)
      = Some (r, ls')" and s': "s' = setLane (e_priority e) ls' s"
    using assms(1) by (auto simp: sched_Submit_def Let_def split: option.splits sum.splits)
  have inv: "lane_invar (laneFor (e_priority e) s)" using assms(2) by (simp add: lanes_ok_def laneFor_def)
  note P = lane_mset_push [OF inv p]
  show "\<exists>ls'. s' = setLane (e_priority e) ls' s" using s' by blast
  show "lanes_ok s'" using P(2) assms(2) s' by (auto simp: lanes_ok_def setLane_def)
  show "queued s' = queued s + (if r = Inr () then {#StampEnqueued now e#} else {#})"
    using P(1) s' by (auto simp: queued_def setLane_def laneFor_def)
qed

lemma tenant_stamp [simp]: "tenantFromEntry (StampEnqueued now e) = tenantFromEntry e" "e_priority (StampEnqueued now e) = e_priority e"
  by (simp_all add: tenantFromEntry_def StampEnqueued_def)

lemma lanes_ok_lane: "lanes_ok s \<Longrightarrow> lane_invar (laneFor l s)"
  by (simp add: lanes_ok_def laneFor_def)

lemma lanes_ok_set: "lanes_ok s \<Longrightarrow> lane_invar ls \<Longrightarrow> lanes_ok (setLane l ls s)"
  by (simp add: lanes_ok_def setLane_def)

lemma queued_set: "queued (setLane l ls s) + lane_mset (laneFor l s) = queued s + lane_mset ls"
  by (simp add: queued_def setLane_def laneFor_def)

lemma admit_effect:
  assumes "lane_admit t (laneFor l s) = Some (a, ls')" "lanes_ok s"
  shows "lanes_ok (setLane l ls' s)" "queued (setLane l ls' s) = queued s"
proof -
  from lane_admit_spec [OF lanes_ok_lane [OF assms(2)], of t l] assms(1)
  have "lane_invar ls'" "tenant_items ls' = tenant_items (laneFor l s)" by auto
  then show "lanes_ok (setLane l ls' s)" "queued (setLane l ls' s) = queued s"
    using lanes_ok_set [OF assms(2)] queued_set [of l ls' s] by (simp_all add: lane_mset_def)
qed

lemma offer_effect:
  assumes "lane_offer t e (laneFor l s) = Some (r, ls')" "lanes_ok s"
  shows "lanes_ok (setLane l ls' s)" "queued (setLane l ls' s) = queued s + (if r = Inr () then {#e#} else {#})"
proof -
  let ?ls = "laneFor l s"
  have inv: "lane_invar ?ls" by (rule lanes_ok_lane [OF assms(2)])
  obtain q where q: "ln_queues ?ls t = Some q" using assms(1) by (auto simp: lane_offer_def split: option.splits)
  from lane_offer_spec [OF inv q, of e] assms(1)
  have o: "lane_invar ls'" "tenant_items ls' =
      (if r = Inr () then (tenant_items ?ls)(t := tenant_items ?ls t @ [e]) else tenant_items ?ls)"
    by (auto split: if_splits)
  have "lane_mset ls' = lane_mset ?ls + (if r = Inr () then {#e#} else {#})"
    using items_mset_upd [OF lane_finite [OF inv], of t "tenant_items ?ls t @ [e]"] o(2)
    by (auto simp: lane_mset_def)
  then show "lanes_ok (setLane l ls' s)" "queued (setLane l ls' s) = queued s + (if r = Inr () then {#e#} else {#})"
    using lanes_ok_set [OF assms(2) o(1)] queued_set [of l ls' s] by simp_all
qed

lemma close_queue_effect:
  assumes "ln_closed (laneFor l s)" "lanes_ok s"
  shows "lanes_ok (setLane l (lane_close_queue t (laneFor l s)) s)"
    "queued (setLane l (lane_close_queue t (laneFor l s)) s) = queued s"
proof -
  have "lane_mset (lane_close_queue t (laneFor l s)) = lane_mset (laneFor l s)" by (simp add: lane_mset_def)
  then show "lanes_ok (setLane l (lane_close_queue t (laneFor l s)) s)"
    "queued (setLane l (lane_close_queue t (laneFor l s)) s) = queued s"
    using lanes_ok_set [OF assms(2) lane_close_queue_spec(1) [OF lanes_ok_lane [OF assms(2)] assms(1)]]
      queued_set [of l "lane_close_queue t (laneFor l s)" s] by simp_all
qed

lemma lane_mset_mark [simp]: "lane_mset (lane_mark_closed ls) = lane_mset ls"
  by (simp add: lane_mset_def)

lemma sched_ok_cong:
  assumes "sched_ok s" "s_pool s' = s_pool s" "s_sems s' = s_sems s"
    "s_inFlightCap s' = s_inFlightCap s" "s_started s' = s_started s" "lanes_ok s'"
  shows "sched_ok s'"
proof -
  have hold: "holders s' = holders s" using assms(2) by (simp add: holders_def fun_eq_iff)
  have "slots_ok s'" using assms(1) unfolding sched_ok_def slots_ok_def hold assms(3,4) by blast
  then show ?thesis using assms by (simp add: sched_ok_def worker_ok_def)
qed

lemma lane_mset_close [simp]: "lane_mset (lane_close ls) = lane_mset ls"
  by (simp add: lane_mset_def)

lemma sched_ok_step:
  assumes "sched_step x y" "sched_ok (ss_sched x)"
  shows "sched_ok (ss_sched y)"
  using assms
proof (induction rule: sched_step.induct)
  case (submit e x a ls' now)
  then have lo: "lanes_ok (ss_sched x)" by (simp add: sched_ok_def)
  from admit_effect [OF submit(1) lo] submit(2) show ?case by (auto intro: sched_ok_cong)
next
  case (push e x r ls')
  then have lo: "lanes_ok (ss_sched x)" by (simp add: sched_ok_def)
  from offer_effect [OF push(2) lo] push(3) show ?case by (auto intro: sched_ok_cong)
next
  case (stop_queue l x t)
  then have lo: "lanes_ok (ss_sched x)" by (simp add: sched_ok_def)
  from close_queue_effect [OF stop_queue(1) lo] stop_queue(2) show ?case by (auto intro: sched_ok_cong)
next
  case (start p x s')
  have "worker_ok s' new_worker" if "s_inFlightCap s' = s_inFlightCap (ss_sched x)" for s'
    by (simp add: worker_ok_def new_worker_def idleStartBackoff_def idleMaxBackoff_def)
  moreover have "slot_of d new_worker = 0" for d by (simp add: slot_of_def new_worker_def)
  ultimately show ?case using start
    by (auto simp: sched_Start_def sched_ok_def slots_ok_def holders_def lanes_ok_def
        split: if_splits option.splits)
next
  case (worker x i w now ev s' w' obs)
  from sched_ok_worker [OF worker(5,2,3,4)] show ?case by simp
next
  case (stop_interactive x)
  then have "lanes_ok (ss_sched x)" by (simp add: sched_ok_def)
  then show ?case
    by (intro sched_ok_cong [OF stop_interactive(2)]) (simp_all add: lanes_ok_def)
next
  case (stop_batch x)
  then have "lanes_ok (ss_sched x)" by (simp add: sched_ok_def)
  then show ?case
    by (intro sched_ok_cong [OF stop_batch(3)]) (simp_all add: lanes_ok_def)
next
  case (stop_cancel x)
  then have "lanes_ok (ss_sched x)" by (simp add: sched_ok_def)
  then show ?case by (intro sched_ok_cong [OF stop_cancel(4)]) (simp_all add: lanes_ok_def)
next
  case (parent_cancel x)
  then have "lanes_ok (ss_sched x)" by (simp add: sched_ok_def)
  then show ?case by (intro sched_ok_cong [OF parent_cancel(2)]) (simp_all add: lanes_ok_def)
qed

lemma drop_log_cancelled:
  "worker_step now ev s w = Some (s', w', obs) \<Longrightarrow> drop_log ev w = {#} \<or> s_cancelled s"
  by (cases "w_phase w"; cases ev) (auto simp: worker_step_def drop_log_def split: if_splits)

lemma mset_transfer:
  assumes "q + h = q' + h' + f + d" "i' + h = i + (h' :: 'a multiset)"
  shows "q + i + F + D = q' + i' + (F + f) + (D + d)"
proof (rule multiset_eqI)
  fix a
  from assms have "count (q + h) a = count (q' + h' + f + d) a" "count (i' + h) a = count (i + h') a"
    by simp_all
  then show "count (q + i + F + D) a = count (q' + i' + (F + f) + (D + d)) a" by simp
qed

lemma history_ok_step:
  assumes "sched_step x y" "sched_ok (ss_sched x)" "history_ok x"
  shows "history_ok y"
  using assms
proof (induction rule: sched_step.induct)
  case (submit e x a ls' now)
  then have lo: "lanes_ok (ss_sched x)" by (simp add: sched_ok_def)
  from admit_effect [OF submit(1) lo] submit(3) show ?case by (simp add: history_ok_def in_hand_def)
next
  case (push e x r ls')
  then have lo: "lanes_ok (ss_sched x)" by (simp add: sched_ok_def)
  from offer_effect [OF push(2) lo] push(4) show ?case by (simp add: history_ok_def in_hand_def)
next
  case (stop_queue l x t)
  then have lo: "lanes_ok (ss_sched x)" by (simp add: sched_ok_def)
  from close_queue_effect [OF stop_queue(1) lo] stop_queue(3) show ?case by (simp add: history_ok_def in_hand_def)
next
  case (start p x s')
  then have "s_pool (ss_sched x) = []" by (auto simp: sched_ok_def sched_Start_def split: if_splits)
  moreover have "held_entry new_worker = {#}" by (simp add: held_entry_def new_worker_def)
  ultimately show ?case using start(1,3)
    by (auto simp: sched_Start_def history_ok_def in_hand_def queued_def
        split: if_splits)
next
  case (worker x i w now ev s' w' obs)
  then have lo: "lanes_ok (ss_sched x)" by (simp add: sched_ok_def)
  note F = worker_step_frame [OF worker(4) lo]
  let ?s' = "s'\<lparr>s_pool := (s_pool s')[i := w']\<rparr>"
  have "in_hand ?s' + held_entry w = in_hand (ss_sched x) + held_entry w'"
    using sum_list_map_update [OF worker(2), of held_entry w'] worker(3) F(4) by (simp add: in_hand_def)
  from mset_transfer [OF worker_step_conserves [OF worker(4) lo] this]
  have "ss_accepted x = queued s' + in_hand ?s' + (ss_finished x + finish_log ev w)
      + (ss_dropped x + drop_log ev w)" using worker(6) by (simp add: history_ok_def)
  then show ?case
    using worker(1,6) F(2,3) drop_log_cancelled [OF worker(4)] by (auto simp: history_ok_def queued_def)
qed (auto simp: history_ok_def in_hand_def queued_def)

subsection \<open>Reachable states\<close>

lemma sched_init_ok:
  assumes "NewInteractiveFirst cfg = Some s"
  shows "sched_ok s" "history_ok (ss_init s)" "s_inFlightCap s = cfg_in_flight_cap cfg"
proof -
  have "lane_mset (newLaneState n w c) = {#}" for n w c
    by (simp add: lane_mset_def items_mset_def tenant_items_def newLaneState_def)
  then show "sched_ok s" "history_ok (ss_init s)" "s_inFlightCap s = cfg_in_flight_cap cfg"
    using assms
    by (auto simp: NewInteractiveFirst_def sched_ok_def lanes_ok_def slots_ok_def lane_invar_new
        holders_def history_ok_def ss_init_def queued_def in_hand_def Let_def split: if_splits)
qed

lemma sched_step_cap:
  assumes "sched_step x y" "sched_ok (ss_sched x)"
  shows "s_inFlightCap (ss_sched y) = s_inFlightCap (ss_sched x)"
  using assms
proof (induction rule: sched_step.induct)
  case (worker x i w now ev s' w' obs)
  then have "lanes_ok (ss_sched x)" by (simp add: sched_ok_def)
  from worker_step_frame(1) [OF worker(4) this] show ?case by simp
qed (auto simp: sched_Start_def split: if_splits)

lemma sched_reach_ok:
  assumes "sched_reach cfg x"
  shows "sched_ok (ss_sched x)" "history_ok x" "s_inFlightCap (ss_sched x) = cfg_in_flight_cap cfg"
proof -
  from assms have "sched_ok (ss_sched x) \<and> history_ok x
      \<and> s_inFlightCap (ss_sched x) = cfg_in_flight_cap cfg"
  proof (induction rule: sched_reach.induct)
    case (init s)
    from sched_init_ok [OF this] show ?case by (simp add: ss_init_def)
  next
    case (step x y)
    then show ?case using sched_ok_step history_ok_step sched_step_cap by metis
  qed
  then show "sched_ok (ss_sched x)" "history_ok x"
    "s_inFlightCap (ss_sched x) = cfg_in_flight_cap cfg" by auto
qed

text \<open>An uninterrupted \<^verbatim>\<open>Submit\<close> is one or two of the steps.\<close>

lemma sched_reach_submit:
  assumes "sched_reach cfg x" "sched_Submit now e (ss_sched x) = Some (r, obs, s')"
  shows "sched_reach cfg (x\<lparr>ss_sched := s', ss_accepted := ss_accepted x + (if r = Inr () then {#StampEnqueued now e#} else {#})\<rparr>)"
proof -
  let ?l = "e_priority e" and ?t = "tenantFromEntry e" and ?e = "StampEnqueued now e"
  obtain ls' where p: "lane_push ?t ?e (laneFor ?l (ss_sched x)) = Some (r, ls')" "s' = setLane ?l ls' (ss_sched x)"
    using assms(2) by (auto simp: sched_Submit_def Let_def split: option.splits sum.splits)
  obtain a ls1 where a: "lane_admit ?t (laneFor ?l (ss_sched x)) = Some (a, ls1)"
    using p(1) by (auto simp: lane_push_def split: option.splits)
  note one = sched_reach.step [OF assms(1) sched_step.submit [OF a, of now]]
  show ?thesis
  proof (cases a)
    case (Inl err)
    then have "r = Inl err" "ls' = ls1" using p(1) a by (simp_all add: lane_push_def)
    then show ?thesis using one p(2) Inl by simp
  next
    case (Inr u)
    let ?y = "x\<lparr>ss_sched := setLane ?l ls1 (ss_sched x), ss_pushing := ss_pushing x + {#?e#}\<rparr>"
    have y: "sched_reach cfg ?y" using one Inr by simp
    have "lane_offer ?t ?e ls1 = Some (r, ls')" using p(1) a Inr by (simp add: lane_push_def)
    then have off: "lane_offer (tenantFromEntry ?e) ?e (laneFor (e_priority ?e) (ss_sched ?y)) = Some (r, ls')"
      by (simp add: laneFor_def setLane_def)
    have "?e \<in># ss_pushing ?y" by simp
    from sched_reach.step [OF y sched_step.push [OF this off]]
    show ?thesis unfolding p(2) by (cases "e_priority e = LaneBatch") (simp_all add: setLane_def)
  qed
qed

lemma setLane_setLane: "setLane l b (setLane l a s) = setLane l b s" "laneFor l (setLane l a s) = a"
  "setLane l (laneFor l s) s = s"
  by (simp_all add: setLane_def laneFor_def)

lemma sched_reach_close_queues:
  "sched_reach cfg x \<Longrightarrow> ln_closed (laneFor l (ss_sched x)) \<Longrightarrow>
   sched_reach cfg (x\<lparr>ss_sched := setLane l (fold lane_close_queue ts (laneFor l (ss_sched x))) (ss_sched x)\<rparr>)"
proof (induction ts arbitrary: x)
  case (Cons t ts)
  let ?y = "x\<lparr>ss_sched := setLane l (lane_close_queue t (laneFor l (ss_sched x))) (ss_sched x)\<rparr>"
  have "sched_reach cfg ?y" by (rule sched_reach.step [OF Cons.prems(1) sched_step.stop_queue [OF Cons.prems(2)]])
  from Cons.IH [OF this] Cons.prems(2) show ?case by (simp add: setLane_setLane)
qed (simp add: setLane_setLane)

text \<open>And an uninterrupted \<^verbatim>\<open>Stop\<close> is a run of the steps.\<close>

lemma sched_reach_Stop:
  assumes "sched_reach cfg x" "s_started (ss_sched x)"
    and "\<not> ln_closed (s_interactive (ss_sched x))" "\<not> ln_closed (s_batch (ss_sched x))"
  shows "sched_reach cfg (x\<lparr>ss_sched := sched_Stop (ss_sched x)\<rparr>)"
proof -
  let ?s = "ss_sched x"
  let ?i = "lane_close (s_interactive ?s)" and ?b = "lane_close (s_batch ?s)"
  have l: "LaneInteractive \<noteq> LaneBatch" by (simp add: LaneInteractive_def LaneBatch_def)
  note i1 = sched_reach.step [OF assms(1) sched_step.stop_interactive [OF assms(2)]]
  from sched_reach_close_queues [OF i1, of LaneInteractive "ln_tenants (s_interactive ?s)"] l assms(3)
  have i2: "sched_reach cfg (x\<lparr>ss_sched := ?s\<lparr>s_interactive := ?i\<rparr>\<rparr>)"
    by (simp add: laneFor_def setLane_def lane_close_def)
  let ?y = "x\<lparr>ss_sched := ?s\<lparr>s_interactive := ?i\<rparr>\<rparr>"
  have y: "s_started (ss_sched ?y)" "ln_closed (s_interactive (ss_sched ?y))" using assms(2) by simp_all
  note b1 = sched_reach.step [OF i2 sched_step.stop_batch [OF y]]
  from sched_reach_close_queues [OF b1, of LaneBatch "ln_tenants (s_batch ?s)"] assms(4)
  have b2: "sched_reach cfg (x\<lparr>ss_sched := ?s\<lparr>s_interactive := ?i, s_batch := ?b\<rparr>\<rparr>)"
    by (simp add: laneFor_def setLane_def lane_close_def)
  let ?z = "x\<lparr>ss_sched := ?s\<lparr>s_interactive := ?i, s_batch := ?b\<rparr>\<rparr>"
  have z: "s_started (ss_sched ?z)" "ln_closed (s_interactive (ss_sched ?z))" "ln_closed (s_batch (ss_sched ?z))"
    using assms(2) by simp_all
  from sched_reach.step [OF b2 sched_step.stop_cancel [OF z]] show ?thesis
    using assms(2) by (simp add: sched_Stop_def)
qed

lemma sched_conservation_aux:
  "sched_reach cfg x \<Longrightarrow>
     ss_accepted x = queued (ss_sched x) + in_hand (ss_sched x) + ss_finished x + ss_dropped x"
  using sched_reach_ok(2) [of cfg x] by (simp add: history_ok_def)

text \<open>The number of workers that are inside the handler for deployment \<open>d\<close>.\<close>

definition running :: "sched \<Rightarrow> gostring \<Rightarrow> nat" where
  "running s d =
     length (filter (\<lambda>w. case w_phase w of WRun _ e _ \<Rightarrow> e_deployment e = d | _ \<Rightarrow> False) (s_pool s))"

lemma running_holders:
  assumes "sched_ok s" "0 < s_inFlightCap s"
  shows "running s d = holders s d"
proof -
  have "\<forall>w\<in>set (s_pool s). slot_of d w =
      of_bool (case w_phase w of WRun _ e _ \<Rightarrow> e_deployment e = d | _ \<Rightarrow> False)"
  proof
    fix w assume "w \<in> set (s_pool s)"
    then have "worker_ok s w" using assms(1) by (simp add: sched_ok_def)
    then show "slot_of d w = of_bool (case w_phase w of WRun _ e _ \<Rightarrow> e_deployment e = d | _ \<Rightarrow> False)"
      using assms(2) by (cases "w_phase w") (simp_all add: slot_of_def worker_ok_def)
  qed
  then have "holders s d =
      (\<Sum>w\<leftarrow>s_pool s. of_bool (case w_phase w of WRun _ e _ \<Rightarrow> e_deployment e = d | _ \<Rightarrow> False))"
    unfolding holders_def by (intro arg_cong [of _ _ sum_list] map_cong) auto
  moreover have "length (filter P xs) = (\<Sum>x\<leftarrow>xs. of_bool (P x))" for P and xs :: "worker list"
    by (induction xs) auto
  ultimately show ?thesis by (simp add: running_def)
qed

text \<open>A small system for the witnesses: one worker, cap 1, one entry submitted, then started.\<close>

definition sample_config :: config where
  "sample_config =
     \<lparr>cfg_handler_nil = False, cfg_workers = 1, cfg_interactive_capacity = 2,
      cfg_batch_capacity = 2, cfg_in_flight_cap = 1, cfg_weights = None\<rparr>"

definition sample_sched :: sched where
  "sample_sched = the (NewInteractiveFirst sample_config)"

definition sample_submitted :: sched where
  "sample_submitted =
     (case sched_Submit 5 (sample_entry 1 ''a'') sample_sched of Some (_, _, s) \<Rightarrow> s)"

lemma sample_sched_new: "NewInteractiveFirst sample_config = Some sample_sched"
  by (simp add: sample_sched_def sample_config_def NewInteractiveFirst_def Let_def)

lemma sample_submit:
  "\<exists>obs. sched_Submit 5 (sample_entry 1 ''a'') sample_sched = Some (Inr (), obs, sample_submitted)"
  by (simp add: sample_submitted_def sample_sched_def sample_config_def NewInteractiveFirst_def
      sched_Submit_def Let_def lane_push_def lane_admit_def lane_offer_def lane_locate_def laneFor_def newLaneState_def
      queue_New_def queue_Push_def LaneBatch_def sample_entry_def)

lemma sample_reach_submitted:
  "sched_reach sample_config
     \<lparr>ss_sched = sample_submitted, ss_pushing = {#}, ss_accepted = {#StampEnqueued 5 (sample_entry 1 ''a'')#},
      ss_finished = {#}, ss_dropped = {#}\<rparr>"
proof -
  obtain obs where sub: "sched_Submit 5 (sample_entry 1 ''a'') (ss_sched (ss_init sample_sched))
      = Some (Inr (), obs, sample_submitted)"
    using sample_submit by (auto simp: ss_init_def)
  from sched_reach_submit [OF sched_reach.init [OF sample_sched_new] sub]
  show ?thesis by (simp add: ss_init_def)
qed

subsection \<open>Properties of the scheduler\<close>

lemma running_capped:
  assumes "sched_reach cfg x" "0 < cfg_in_flight_cap cfg"
  shows "int (running (ss_sched x) d) \<le> cfg_in_flight_cap cfg"
proof -
  note R = sched_reach_ok [OF assms(1)]
  have "running (ss_sched x) d = holders (ss_sched x) d"
    using running_holders R(1,3) assms(2) by simp
  moreover have "int (holders (ss_sched x) d) \<le> s_inFlightCap (ss_sched x)"
    using R(1) by (auto simp: sched_ok_def slots_ok_def split: option.splits)
  ultimately show ?thesis using R(3) by simp
qed

text \<open>
  C1: the in-flight cap holds.  Whatever the interleaving of workers, submissions and
  \<^verbatim>\<open>Stop\<close>, with a positive \<^verbatim>\<open>InFlightCap\<close> no more than that many workers are inside the
  handler for the same deployment id at the same time.  The empty id is an id like the others here: all the
  entries that carry it share one budget, where the comment on \<^verbatim>\<open>Entry\<close> in \<^verbatim>\<open>scheduler.go\<close> says that they
  dispatch without a cap (\<open>empty_bucket_capped\<close>).
\<close>

theorem sched_in_flight_cap:
  assumes "sched_reach cfg x" "0 < cfg_in_flight_cap cfg"
  shows "int (running (ss_sched x) d) \<le> cfg_in_flight_cap cfg"
  by (rule running_capped [OF assms])

theorem sched_in_flight_cap_witness:
  "sched_reach sample_config (ss_init sample_sched) \<and> int (running sample_sched ''d'') \<le> 1"
  using sched_in_flight_cap [OF sched_reach.init [OF sample_sched_new], of "''d''"]
    sched_reach.init [OF sample_sched_new]
  by (simp add: sample_config_def ss_init_def)

text \<open>
  Entries without a deployment id are not exempt from the cap: a worker that has popped one waits for a slot
  of the empty id, and no more of them than the cap run at once.
\<close>

theorem empty_bucket_capped:
  assumes "e_deployment e = []" "0 < s_inFlightCap s" "dispatch_begin now l e s w = (s', w', obs)"
    and "sched_reach cfg x" "0 < cfg_in_flight_cap cfg"
  shows "w_phase w' = WAcquire l e" "s_sems s' [] \<noteq> None" "int (running (ss_sched x) []) \<le> cfg_in_flight_cap cfg"
  using assms running_capped [OF assms(4,5)]
  by (auto simp: dispatch_begin_def semaphoreFor_def Let_def split: option.splits)

text \<open>
  C2: no entry is lost or duplicated.  In every reachable state the accepted entries are,
  as a multiset, exactly the entries still queued, those a worker holds, those whose handler
  has returned and those dropped by a \<^verbatim>\<open>dispatch\<close> that gave up waiting for a slot; an entry is
  dropped only after the root context has been cancelled.
\<close>

theorem sched_conservation:
  assumes "sched_reach cfg x"
  shows "ss_accepted x
      = queued (ss_sched x) + in_hand (ss_sched x) + ss_finished x + ss_dropped x
    \<and> (s_cancelled (ss_sched x) \<or> ss_dropped x = {#})"
  using sched_reach_ok(2) [OF assms] by (auto simp: history_ok_def)

theorem sched_conservation_witness:
  "{#StampEnqueued 5 (sample_entry 1 ''a'')#} = queued sample_submitted + in_hand sample_submitted"
  using sched_conservation [OF sample_reach_submitted] by simp

text \<open>One worker's events in a row, with no other worker in between.\<close>

fun worker_run ::
  "timestamp \<Rightarrow> wevent list \<Rightarrow> sched \<Rightarrow> worker \<Rightarrow> (sched \<times> worker \<times> observation list) option" where
  "worker_run now [] s w = Some (s, w, [])"
| "worker_run now (ev # evs) s w =
     (case worker_step now ev s w of
        None \<Rightarrow> None
      | Some (s', w', obs) \<Rightarrow>
          map_option (\<lambda>(s'', w'', obs'). (s'', w'', obs @ obs')) (worker_run now evs s' w'))"

text \<open>
  Interactive work goes first.  A worker at the top of its loop that has not seen the
  interactive lane closed, and is not interrupted by another worker during the round, takes
  the oldest entry of some backlogged interactive tenant whenever there is one, for every
  possible draw, and does not touch the batch lane.
\<close>

theorem sched_strict_priority:
  assumes "lanes_ok s" "\<not> s_cancelled s" "w_phase w = WTop" "w_iopen w"
    and "backlogged (s_interactive s) \<noteq> {}" "lane_weight (s_interactive s) \<le> max_int64"
    and "0 \<le> r" "r < lane_weight (s_interactive s)"
  shows "\<exists>t e rest s' w' obs. tenant_items (s_interactive s) t = e # rest
    \<and> worker_run now [EvStep, EvDraw r, EvStep] s w = Some (s', w', obs)
    \<and> held_entry w' = {#e#} \<and> s_batch s' = s_batch s
    \<and> tenant_items (s_interactive s') = (tenant_items (s_interactive s))(t := rest)"
proof -
  let ?ls = "s_interactive s"
  have inv: "lane_invar ?ls" using assms(1) by (simp add: lanes_ok_def)
  obtain t where t: "t \<in> backlogged ?ls" "lane_choose ?ls r = ChooseTenant t"
    using lane_choose_spec [OF inv assms(5,6,8)] by blast
  obtain e rest where it: "tenant_items ?ls t = e # rest"
    using t(1) by (cases "tenant_items ?ls t") (auto simp: backlogged_def)
  obtain ls' where ls': "lane_pop_chosen t ?ls = (TPEntry e, ls')"
    "tenant_items ls' = (tenant_items ?ls)(t := rest)"
    using lane_pop_chosen_spec [OF inv it] by blast
  have tot: "total_weight 0 (lane_candidates ?ls) = lane_weight ?ls"
    using total_weight_sum [OF candidates_pos, of 0 ?ls] assms(6) candidates_sum [OF inv] by simp
  then have draw: "draw_ok ?ls r" using assms(7,8) by (simp add: draw_ok_def)
  let ?w = "w\<lparr>w_phase := WPopI t\<rparr>"
  obtain s' w' obs where d: "dispatch_begin now LaneInteractive e (s\<lparr>s_interactive := ls'\<rparr>) ?w = (s', w', obs)"
    by (metis prod_cases3)
  have "worker_run now [EvStep, EvDraw r, EvStep] s w = Some (s', w', obs)"
    using assms(2-4) draw t(2) ls'(1) d by (simp add: worker_step_def)
  with it ls'(2) dispatch_begin_effect [OF d] show ?thesis by auto
qed

theorem sched_strict_priority_witness:
  "\<exists>t e rest s' w' obs. tenant_items sample_lane t = e # rest
    \<and> worker_run 9 [EvStep, EvDraw 3, EvStep] (sample_sched\<lparr>s_interactive := sample_lane\<rparr>) new_worker
        = Some (s', w', obs)
    \<and> held_entry w' = {#e#}"
proof -
  let ?s = "sample_sched\<lparr>s_interactive := sample_lane\<rparr>"
  have "lanes_ok ?s" "\<not> s_cancelled ?s"
    using sched_init_ok(1) [OF sample_sched_new] sample_lane_facts(1)
    by (auto simp: sched_ok_def lanes_ok_def sample_sched_def sample_config_def
        NewInteractiveFirst_def Let_def)
  from sched_strict_priority [OF this, of new_worker 3 9] sample_lane_facts
  show ?thesis by (auto simp: new_worker_def max_int64_def)
qed

fun exit_rank :: "wphase \<Rightarrow> nat" where
  "exit_rank WExit = 0"
| "exit_rank WPanic = 0"
| "exit_rank WTop = 1"
| "exit_rank WIdle = 2"
| "exit_rank (WRun l e h) = 2"
| "exit_rank (WAcquire l e) = 3"
| "exit_rank (WPopB t) = 4"
| "exit_rank WTryB = 5"
| "exit_rank (WPopI t) = 6"
| "exit_rank WTryI = 7"

lemma exit_rank_error:
  "exit_rank (w_phase (interactive_error er w)) < 6" "exit_rank (w_phase (interactive_error er w)) < 7"
  "exit_rank (w_phase (batch_error er w)) < 4" "exit_rank (w_phase (batch_error er w)) < 5"
  by (simp_all add: phase_defs)

lemma exit_rank_dispatch:
  "dispatch_begin now l e s w = (s', w', obs) \<Longrightarrow> exit_rank (w_phase w') \<le> 3"
  by (auto simp: phase_defs split: if_splits option.splits)

lemma dispatch_begin_total: "\<exists>a b c. dispatch_begin now l e s w = (a, b, c)"
  by (metis prod_cases3)

lemma exit_rank_step:
  assumes "s_cancelled s" "worker_step now ev s w = Some (s', w', obs)"
  shows "exit_rank (w_phase w') < exit_rank (w_phase w)"
proof (cases "w_phase w")
  case WTryI
  then show ?thesis using assms
    by (cases ev) (auto simp: worker_step_def exit_rank_error split: if_splits lane_choice.splits)
next
  case WTryB
  then show ?thesis using assms
    by (cases ev) (auto simp: worker_step_def exit_rank_error split: if_splits lane_choice.splits)
next
  case (WPopI t)
  then show ?thesis using assms
    by (cases ev) (auto simp: worker_step_def exit_rank_error split: try_pop.splits prod.splits
        dest!: exit_rank_dispatch)
next
  case (WPopB t)
  then show ?thesis using assms
    by (cases ev) (auto simp: worker_step_def exit_rank_error split: try_pop.splits prod.splits
        dest!: exit_rank_dispatch)
qed (use assms in \<open>cases ev; auto simp: worker_step_def split: if_splits option.splits\<close>)+

lemma exit_step_enabled:
  assumes "s_cancelled s" "0 < exit_rank (w_phase w)"
  shows "\<exists>ev r. worker_step now ev s w = Some r"
proof -
  have draw: "\<exists>r. draw_ok ls r" for ls
    by (rule exI [of _ 0]) (auto simp: draw_ok_def Let_def)
  show ?thesis
  proof (cases "w_phase w")
    case WTryI
    with draw [of "s_interactive s"] obtain r where "draw_ok (s_interactive s) r" by blast
    with WTryI show ?thesis
      by (intro exI [of _ "EvDraw r"]) (simp add: worker_step_def split: lane_choice.split)
  next
    case WTryB
    with draw [of "s_batch s"] obtain r where "draw_ok (s_batch s) r" by blast
    with WTryB show ?thesis
      by (intro exI [of _ "EvDraw r"]) (simp add: worker_step_def split: lane_choice.split)
  next
    case (WAcquire l e)
    with assms(1) show ?thesis by (intro exI [of _ EvCtxDone]) (simp add: worker_step_def)
  next
    case (WRun l e h)
    then show ?thesis by (intro exI [of _ EvFinish]) (simp add: worker_step_def)
  next
    case WIdle
    then show ?thesis by (intro exI [of _ EvTimer]) (simp add: worker_step_def)
  next
    case (WPopI t)
    obtain r ls' where "lane_pop_chosen t (s_interactive s) = (r, ls')" by fastforce
    with WPopI show ?thesis
      by (intro exI [of _ EvStep]) (cases r; simp add: worker_step_def dispatch_begin_total)
  next
    case (WPopB t)
    obtain r ls' where "lane_pop_chosen t (s_batch s) = (r, ls')" by fastforce
    with WPopB show ?thesis
      by (intro exI [of _ EvStep]) (cases r; simp add: worker_step_def dispatch_begin_total)
  next
    case WTop
    then show ?thesis by (intro exI [of _ EvStep]) (simp add: worker_step_def)
  qed (use assms(2) in simp_all)
qed

text \<open>
  \<^verbatim>\<open>Stop\<close> returns.  Once the root context is cancelled, every worker that has not left
  its loop can take a step (as soon as its handler returns), and every step it takes brings it
  strictly closer to the exit, whatever the draws and whatever the other workers do, so the
  wait for the workers ends.
\<close>

theorem sched_stop_returns:
  assumes "s_cancelled s"
  shows "(0 < exit_rank (w_phase w) \<longrightarrow> (\<exists>ev r. worker_step now ev s w = Some r))
    \<and> wf {(w', w). \<exists>now ev s s' obs. s_cancelled s \<and> worker_step now ev s w = Some (s', w', obs)}"
proof -
  have "{(w', w). \<exists>now ev s s' obs. s_cancelled s \<and> worker_step now ev s w = Some (s', w', obs)}
      \<subseteq> measure (\<lambda>w. exit_rank (w_phase w))"
    using exit_rank_step by auto
  then have "wf {(w', w). \<exists>now ev s s' obs. s_cancelled s \<and> worker_step now ev s w = Some (s', w', obs)}"
    by (rule wf_subset [OF wf_measure])
  then show ?thesis using exit_step_enabled [OF assms] by blast
qed

theorem sched_stop_returns_witness:
  "s_cancelled (sample_sched\<lparr>s_cancelled := True\<rparr>)
   \<and> (\<exists>ev r. worker_step 0 ev (sample_sched\<lparr>s_cancelled := True\<rparr>) new_worker = Some r)"
  using sched_stop_returns [of "sample_sched\<lparr>s_cancelled := True\<rparr>" new_worker 0]
  by (simp add: new_worker_def)

text \<open>
  \<^verbatim>\<open>Stop\<close> abandons what is still queued.  A reachable state exists in which \<^verbatim>\<open>Stop\<close> has
  run to completion (both lanes closed, the context cancelled, every worker gone) while an
  entry that \<^verbatim>\<open>Submit\<close> accepted is still queued: its handler has not run and, all workers being
  gone, never will.
\<close>

theorem sched_stop_abandons:
  "\<exists>x. sched_reach sample_config x \<and> s_cancelled (ss_sched x) \<and> all_exited (ss_sched x)
     \<and> ln_closed (s_interactive (ss_sched x)) \<and> ln_closed (s_batch (ss_sched x))
     \<and> ss_accepted x \<noteq> {#} \<and> ss_finished x = {#} \<and> queued (ss_sched x) = ss_accepted x"
proof -
  let ?e = "StampEnqueued 5 (sample_entry 1 ''a'')"
  let ?x = "\<lparr>ss_sched = sample_submitted, ss_pushing = {#}, ss_accepted = {#?e#}, ss_finished = {#}, ss_dropped = {#}\<rparr>"
  let ?s1 = "sample_submitted\<lparr>s_started := True, s_cancelled := False, s_pool := [new_worker]\<rparr>"
  let ?s4 = "sched_Stop ?s1"
  let ?s5 = "?s4\<lparr>s_pool := [new_worker\<lparr>w_phase := WExit\<rparr>]\<rparr>"
  have sub: "s_workers sample_submitted = 1" "\<not> s_started sample_submitted" "s_pool sample_submitted = []"
    by (simp_all add: sample_submitted_def sample_sched_def sample_config_def NewInteractiveFirst_def
        sched_Submit_def Let_def lane_push_def lane_admit_def lane_offer_def lane_locate_def laneFor_def setLane_def newLaneState_def
        queue_New_def queue_Push_def LaneBatch_def sample_entry_def)
  have open_lanes: "\<not> ln_closed (s_interactive sample_submitted)" "\<not> ln_closed (s_batch sample_submitted)"
    by (simp_all add: sample_submitted_def sample_sched_def sample_config_def NewInteractiveFirst_def
        sched_Submit_def Let_def lane_push_def lane_admit_def lane_offer_def lane_locate_def laneFor_def setLane_def
        newLaneState_def queue_New_def queue_Push_def LaneBatch_def sample_entry_def)
  have "queued sample_submitted = {#?e#}"
    using sched_conservation_aux [OF sample_reach_submitted] sub by (simp add: in_hand_def)
  moreover have "sched_reach sample_config (?x\<lparr>ss_sched := ?s5\<rparr>)"
  proof -
    have "sched_reach sample_config (?x\<lparr>ss_sched := ?s1\<rparr>)"
      using sched_step.start [of False ?x ?s1] sub
      by (intro sched_reach.step [OF sample_reach_submitted]) (simp add: sched_Start_def)
    then have "sched_reach sample_config (?x\<lparr>ss_sched := ?s4\<rparr>)"
      using sched_reach_Stop [of sample_config "?x\<lparr>ss_sched := ?s1\<rparr>"] open_lanes by simp
    then show ?thesis
      using sched_step.worker [of "?x\<lparr>ss_sched := ?s4\<rparr>" 0 new_worker 9 EvStep ?s4 "new_worker\<lparr>w_phase := WExit\<rparr>" "[]"]
      by (elim sched_reach.step) (simp add: worker_step_def new_worker_def finish_log_def drop_log_def sched_Stop_def)
  qed
  ultimately show ?thesis
    by (intro exI [of _ "?x\<lparr>ss_sched := ?s5\<rparr>"]) (simp add: all_exited_def queued_def sched_Stop_def)
qed

text \<open>
  A push that has passed the lane's mutex when \<^verbatim>\<open>close\<close> sets the flag can still land on its queue.  A reachable
  state exists in which \<^verbatim>\<open>Submit\<close> has accepted an entry, the closed flag of its lane is set and the worker,
  which has read the closed lane as drained, does not look at that lane any more.
\<close>

theorem late_push_unserved:
  "\<exists>x. sched_reach sample_config x \<and> ln_closed (s_interactive (ss_sched x)) \<and> \<not> s_cancelled (ss_sched x)
     \<and> ss_accepted x \<noteq> {#} \<and> queued (ss_sched x) = ss_accepted x
     \<and> (\<forall>w \<in> set (s_pool (ss_sched x)). \<not> w_iopen w \<and> w_phase w = WTryB)"
proof -
  let ?e = "sample_entry 1 ''a''"
  let ?e5 = "StampEnqueued 5 ?e"
  let ?q = "\<lparr>q_capacity = 2, q_items = [], q_closed = False\<rparr> :: entry bqueue"
  let ?l1 = "(newLaneState LaneInteractive Map.empty 2)\<lparr>ln_queues := [''a'' \<mapsto> ?q], ln_tenants := [''a'']\<rparr>"
  let ?s1 = "sample_sched\<lparr>s_interactive := ?l1\<rparr>"
  let ?s2 = "?s1\<lparr>s_started := True, s_cancelled := False, s_pool := [new_worker]\<rparr>"
  let ?l3 = "lane_mark_closed ?l1"
  let ?s3 = "?s2\<lparr>s_interactive := ?l3\<rparr>"
  let ?w4 = "new_worker\<lparr>w_phase := WTryI\<rparr>"
  let ?s4 = "?s3\<lparr>s_pool := [?w4]\<rparr>"
  let ?w5 = "?w4\<lparr>w_iopen := False, w_phase := WTryB\<rparr>"
  let ?s5 = "?s4\<lparr>s_pool := [?w5]\<rparr>"
  let ?l6 = "?l3\<lparr>ln_queues := [''a'' \<mapsto> ?q\<lparr>q_items := [?e5]\<rparr>]\<rparr>"
  let ?s6 = "?s5\<lparr>s_interactive := ?l6\<rparr>"
  let ?x = "\<lambda>s p a. \<lparr>ss_sched = s, ss_pushing = p, ss_accepted = a, ss_finished = {#}, ss_dropped = {#}\<rparr>"
  have s: "s_interactive sample_sched = newLaneState LaneInteractive Map.empty 2" "\<not> s_started sample_sched"
    "s_workers sample_sched = 1" "s_pool sample_sched = []"
    by (simp_all add: sample_sched_def sample_config_def NewInteractiveFirst_def Let_def)
  have e: "tenantFromEntry ?e = ''a''" "e_priority ?e = ''interactive''"
    by (simp_all add: tenantFromEntry_def sample_entry_def)
  have "sched_reach sample_config (?x sample_sched {#} {#})"
    using sched_reach.init [OF sample_sched_new] by (simp add: ss_init_def)
  moreover have "lane_admit (tenantFromEntry ?e) (laneFor (e_priority ?e) sample_sched) = Some (Inr (), ?l1)"
    using s(1) e by (simp add: laneFor_def LaneBatch_def lane_admit_def lane_locate_def newLaneState_def queue_New_def)
  ultimately have "sched_reach sample_config (?x ?s1 {#?e5#} {#})"
    using sched_reach.step [OF _ sched_step.submit [of ?e "?x sample_sched {#} {#}" "Inr ()" ?l1 5]] e
    by (simp add: setLane_def LaneBatch_def)
  then have "sched_reach sample_config (?x ?s2 {#?e5#} {#})"
    using sched_step.start [of False "?x ?s1 {#?e5#} {#}" ?s2] s
    by (elim sched_reach.step) (simp add: sched_Start_def)
  then have "sched_reach sample_config (?x ?s3 {#?e5#} {#})"
    using sched_step.stop_interactive [of "?x ?s2 {#?e5#} {#}"] by (elim sched_reach.step) simp
  then have "sched_reach sample_config (?x ?s4 {#?e5#} {#})"
    using sched_step.worker [of "?x ?s3 {#?e5#} {#}" 0 new_worker 9 EvStep ?s3 ?w4 "[]"]
    by (elim sched_reach.step) (simp add: worker_step_def new_worker_def finish_log_def drop_log_def)
  moreover have "lane_choose ?l3 0 = ChooseErr ErrClosed" "draw_ok ?l3 0"
    by (simp_all add: lane_choose_def lane_candidates_def lane_mark_closed_def draw_ok_def newLaneState_def queue_Len_def)
  ultimately have "sched_reach sample_config (?x ?s5 {#?e5#} {#})"
    using sched_step.worker [of "?x ?s4 {#?e5#} {#}" 0 ?w4 9 "EvDraw 0" ?s4 ?w5 "[]"]
    by (elim sched_reach.step)
      (simp add: worker_step_def new_worker_def finish_log_def drop_log_def interactive_error_def after_interactive_def)
  moreover have "lane_offer (tenantFromEntry ?e5) ?e5 (laneFor (e_priority ?e5) ?s5) = Some (Inr (), ?l6)"
    using e by (simp add: laneFor_def LaneBatch_def lane_offer_def lane_mark_closed_def queue_Push_def newLaneState_def)
  ultimately have r: "sched_reach sample_config (?x ?s6 {#} {#?e5#})"
    using sched_reach.step [OF _ sched_step.push [of ?e5 "?x ?s5 {#?e5#} {#}" "Inr ()" ?l6]] e
    by (simp add: setLane_def LaneBatch_def)
  then have "queued ?s6 = {#?e5#}"
    using sched_conservation_aux [OF r] by (simp add: in_hand_def held_entry_def)
  then show ?thesis
    using r by (intro exI [of _ "?x ?s6 {#} {#?e5#}"]) (simp add: queued_def)
qed

end
