(* ===== verification/Token_Counter.thy ===== *)
theory Token_Counter
  imports Prelude
begin

text \<open>
  \<^verbatim>\<open>internal/router/tokencounter.go\<close>: the response writer that passes every byte through to the
  client and reads token usage out of what it sees, either from a buffered JSON body or from
  the server-sent events of a stream.  JSON decoding of the usage block is the argument
  \<open>decode\<close>: \<open>None\<close> for a blob that does not parse, otherwise the prompt and completion counts
  (zero when absent).
\<close>

subsection \<open>Bytes\<close>

abbreviation LF :: char where "LF \<equiv> char_of (10 :: nat)"
abbreviation CR :: char where "CR \<equiv> char_of (13 :: nat)"

text \<open>\<^verbatim>\<open>bytes.Index\<close>: the position of the first occurrence of a pattern.\<close>

fun bytes_index :: "gostring \<Rightarrow> gostring \<Rightarrow> nat option" where
  "bytes_index [] pat = (if pat = [] then Some 0 else None)"
| "bytes_index (c # cs) pat =
     (if has_prefix (c # cs) pat then Some 0 else map_option Suc (bytes_index cs pat))"

definition findEventTerminator :: "gostring \<Rightarrow> nat option" where
  "findEventTerminator buf =
     (case bytes_index buf [LF, LF] of
        Some i \<Rightarrow>
          (case bytes_index buf [CR, LF, CR, LF] of
             Some j \<Rightarrow> if j < i then Some j else Some i
           | None \<Rightarrow> Some i)
      | None \<Rightarrow> bytes_index buf [CR, LF, CR, LF])"

definition eventTerminatorLen :: "gostring \<Rightarrow> nat \<Rightarrow> nat" where
  "eventTerminatorLen buf pos = (if pos < length buf \<and> buf ! pos = CR then 4 else 2)"

text \<open>\<^verbatim>\<open>bytes.Split(event, "\n")\<close> and \<^verbatim>\<open>bytes.TrimRight(line, "\r")\<close>.\<close>

fun split_lines :: "gostring \<Rightarrow> gostring list" where
  "split_lines [] = [[]]"
| "split_lines (c # cs) =
     (if c = LF then [] # split_lines cs
      else (case split_lines cs of [] \<Rightarrow> [[c]] | l # ls \<Rightarrow> (c # l) # ls))"

definition trim_right_cr :: "gostring \<Rightarrow> gostring" where
  "trim_right_cr line = rev (dropWhile (\<lambda>c. c = CR) (rev line))"

fun join_lf :: "gostring list \<Rightarrow> gostring" where
  "join_lf [] = []"
| "join_lf [l] = l"
| "join_lf (l # m # ls) = l @ [LF] @ join_lf (m # ls)"

subsection \<open>The writer\<close>

definition FlatMaxBodyBytes :: nat where "FlatMaxBodyBytes = 8 * 1024 * 1024"

type_synonym usage_decoder = "gostring \<Rightarrow> (int \<times> int) option"

record tcw =
  tw_status :: int
  tw_body :: "gostring option"
  tw_sse :: "gostring option"
  tw_tokens :: int
  tw_prompt :: int

definition newTokenCountingWriter :: tcw where
  "newTokenCountingWriter =
     \<lparr>tw_status = 0, tw_body = None, tw_sse = None, tw_tokens = 0, tw_prompt = 0\<rparr>"

definition isStreamingContentType :: "gostring \<Rightarrow> bool" where
  "isStreamingContentType ct = has_prefix (to_lower ct) ''text/event-stream''"

definition isJSONContentType :: "gostring \<Rightarrow> bool" where
  "isJSONContentType ct =
     (has_prefix (to_lower ct) ''application/json'' \<or> has_prefix (to_lower ct) ''application/x-ndjson'')"

definition tcw_WriteHeader :: "int \<Rightarrow> gostring \<Rightarrow> tcw \<Rightarrow> tcw" where
  "tcw_WriteHeader code contentType w =
     (let w = w\<lparr>tw_status := code\<rparr>
      in if code < 400 then
           (if isStreamingContentType contentType then w\<lparr>tw_sse := Some []\<rparr>
            else if isJSONContentType contentType then w\<lparr>tw_body := Some []\<rparr>
            else w)
         else w)"

definition extractUsage :: "usage_decoder \<Rightarrow> gostring \<Rightarrow> int \<times> int" where
  "extractUsage decode data =
     (if trim_space data = ''[DONE]'' then (0, 0)
      else (case decode data of None \<Rightarrow> (0, 0) | Some u \<Rightarrow> u))"

definition data_payload :: "gostring \<Rightarrow> gostring option" where
  "data_payload line =
     (case cut_prefix (trim_right_cr line) ''data:'' of
        None \<Rightarrow> None
      | Some payload \<Rightarrow>
          Some (case payload of c # cs \<Rightarrow> if c = CHR '' '' then cs else payload | [] \<Rightarrow> []))"

definition extractFromEvent :: "usage_decoder \<Rightarrow> gostring \<Rightarrow> int \<times> int \<Rightarrow> int \<times> int" where
  "extractFromEvent decode event tp =
     (case tp of (tokens, prompt) \<Rightarrow>
        (let dataLines = List.map_filter data_payload (split_lines event)
         in if dataLines = [] then (tokens, prompt)
            else
              (case extractUsage decode (join_lf dataLines) of
                 (p, c) \<Rightarrow> ((if c > 0 then c else tokens), (if p > 0 then p else prompt)))))"

lemma bytes_index_bound: "bytes_index buf pat = Some i \<Longrightarrow> i + length pat \<le> length buf"
  by (induction buf pat arbitrary: i rule: bytes_index.induct)
    (auto simp: has_prefix_iff split: if_splits dest!: arg_cong [where f = length])

lemma findEventTerminator_bound:
  "findEventTerminator buf = Some i \<Longrightarrow> i + 2 \<le> length buf"
  by (auto simp: findEventTerminator_def split: option.splits if_splits dest!: bytes_index_bound)

text \<open>\<^verbatim>\<open>parseSSEBuffer\<close>: the loop consumes at least one byte per turn.\<close>

function parseSSEBuffer :: "usage_decoder \<Rightarrow> gostring \<Rightarrow> int \<times> int \<Rightarrow> gostring \<times> int \<times> int" where
  "parseSSEBuffer decode buf tp =
     (case findEventTerminator buf of
        None \<Rightarrow> (buf, tp)
      | Some idx \<Rightarrow>
          (let event = take idx buf;
               rest = drop idx buf;
               rest' = drop (eventTerminatorLen rest 0) rest
           in parseSSEBuffer decode rest' (extractFromEvent decode event tp)))"
  by pat_completeness auto
termination
  by (relation "measure (\<lambda>(d, buf, tp). length buf)")
    (auto simp: eventTerminatorLen_def dest!: findEventTerminator_bound)

declare parseSSEBuffer.simps [simp del]

definition tcw_Write :: "usage_decoder \<Rightarrow> gostring \<Rightarrow> tcw \<Rightarrow> tcw" where
  "tcw_Write decode written w =
     (if length written = 0 then w
      else
        (case tw_body w of
           Some body \<Rightarrow>
             (if length body + length written \<le> FlatMaxBodyBytes
              then w\<lparr>tw_body := Some (body @ written)\<rparr> else w)
         | None \<Rightarrow>
             (case tw_sse w of
                Some sse \<Rightarrow>
                  (case parseSSEBuffer decode (sse @ written) (tw_tokens w, tw_prompt w) of
                     (rest, tokens, prompt) \<Rightarrow>
                       w\<lparr>tw_sse := Some rest, tw_tokens := tokens, tw_prompt := prompt\<rparr>)
              | None \<Rightarrow> w)))"

definition CompletionTokens :: "usage_decoder \<Rightarrow> tcw \<Rightarrow> int" where
  "CompletionTokens decode w =
     (case tw_body w of Some body \<Rightarrow> snd (extractUsage decode body) | None \<Rightarrow> tw_tokens w)"

definition PromptTokens :: "usage_decoder \<Rightarrow> tcw \<Rightarrow> int" where
  "PromptTokens decode w =
     (case tw_body w of Some body \<Rightarrow> fst (extractUsage decode body) | None \<Rightarrow> tw_prompt w)"

definition StatusLabel :: "tcw \<Rightarrow> gostring" where
  "StatusLabel w =
     (if tw_status w = 0 then ''unknown''
      else if 200 \<le> tw_status w \<and> tw_status w < 300 then ''success''
      else if 400 \<le> tw_status w \<and> tw_status w < 500 then ''client_error''
      else if 500 \<le> tw_status w then ''engine_error''
      else ''other'')"

subsection \<open>Terminators do not move when bytes arrive\<close>

lemma has_prefix_append: "has_prefix s p \<Longrightarrow> has_prefix (s @ t) p"
  by (auto simp: has_prefix_iff)

lemma bytes_index_append:
  "pat \<noteq> [] \<Longrightarrow> bytes_index buf pat = Some i \<Longrightarrow> bytes_index (buf @ zs) pat = Some i"
proof (induction buf pat arbitrary: i rule: bytes_index.induct)
  case (2 c cs pat)
  show ?case
  proof (cases "has_prefix (c # cs) pat")
    case True
    with 2 show ?thesis using has_prefix_append [of "c # cs" pat zs] by simp
  next
    case False
    with 2(3) obtain k where k: "bytes_index cs pat = Some k" "i = Suc k" by auto
    have "length pat \<le> length cs" using bytes_index_bound [OF k(1)] by simp
    then have "take (length pat) ((c # cs) @ zs) = take (length pat) (c # cs)"
      by (simp only: take_append) simp
    then have "\<not> has_prefix (c # cs @ zs) pat" using False by (simp add: has_prefix_def)
    with 2(1) [OF False 2(2) k(1)] k show ?thesis by simp
  qed
qed simp

lemma bytes_index_at: "bytes_index buf pat = Some i \<Longrightarrow> has_prefix (drop i buf) pat"
  by (induction buf pat arbitrary: i rule: bytes_index.induct)
    (auto simp: has_prefix_def split: if_splits)

lemma bytes_index_found:
  "has_prefix (drop i buf) pat \<Longrightarrow> i \<le> length buf \<Longrightarrow> \<exists>k\<le>i. bytes_index buf pat = Some k"
proof (induction buf pat arbitrary: i rule: bytes_index.induct)
  case (1 pat)
  then show ?case by (auto simp: has_prefix_def)
next
  case (2 c cs pat)
  show ?case
  proof (cases "has_prefix (c # cs) pat \<or> i = 0")
    case False
    then obtain j where "i = Suc j" by (cases i) auto
    with 2 False obtain k where "k \<le> j" "bytes_index cs pat = Some k" by auto
    with \<open>i = Suc j\<close> False show ?thesis by auto
  qed (use 2 in auto)
qed

lemma has_prefix_nth: "has_prefix (drop i buf) p \<Longrightarrow> k < length p \<Longrightarrow> i + k < length buf \<and> buf ! (i + k) = p ! k"
  by (auto simp: has_prefix_iff) (metis append_take_drop_id drop_eq_Nil le_cases length_append
      length_drop less_diff_conv nth_append nth_drop add.commute linorder_not_less trans_less_add1)+

lemma findEventTerminator_append:
  assumes "findEventTerminator buf = Some i"
  shows "findEventTerminator (buf @ zs) = Some i"
proof (cases "bytes_index buf [LF, LF]")
  case None
  with assms have j: "bytes_index buf [CR, LF, CR, LF] = Some i"
    by (simp add: findEventTerminator_def)
  have ext: "bytes_index (buf @ zs) [CR, LF, CR, LF] = Some i"
    using bytes_index_append [OF _ j] by simp
  have "i < k" if k: "bytes_index (buf @ zs) [LF, LF] = Some k" for k
  proof (rule ccontr)
    assume "\<not> i < k"
    moreover have "i + 4 \<le> length buf" using bytes_index_bound [OF j] by simp
    ultimately have "has_prefix (drop k buf) [LF, LF]"
      using bytes_index_at [OF k] by (auto simp: has_prefix_def)
    then show False using bytes_index_found [of k buf "[LF, LF]"] None \<open>\<not> i < k\<close> \<open>i + 4 \<le> length buf\<close> by auto
  qed
  then show ?thesis using ext by (auto simp: findEventTerminator_def split: option.split)
next
  case (Some k)
  have ext: "bytes_index (buf @ zs) [LF, LF] = Some k" using bytes_index_append [OF _ Some] by simp
  show ?thesis
  proof (cases "bytes_index buf [CR, LF, CR, LF]")
    case (Some j)
    then have "bytes_index (buf @ zs) [CR, LF, CR, LF] = Some j"
      using bytes_index_append [OF _ Some] by simp
    with ext Some \<open>bytes_index buf [LF, LF] = Some k\<close> assms show ?thesis
      by (simp add: findEventTerminator_def)
  next
    case None
    with assms \<open>bytes_index buf [LF, LF] = Some k\<close> have i: "i = k" by (simp add: findEventTerminator_def)
    have "\<not> j < k" if j: "bytes_index (buf @ zs) [CR, LF, CR, LF] = Some j" for j
    proof
      assume "j < k"
      have kb: "k + 2 \<le> length buf" using bytes_index_bound [OF \<open>bytes_index buf [LF, LF] = Some k\<close>] by simp
      have "\<not> j + 4 \<le> length buf"
      proof
        assume "j + 4 \<le> length buf"
        then have "has_prefix (drop j buf) [CR, LF, CR, LF]"
          using bytes_index_at [OF j] by (auto simp: has_prefix_def)
        then show False using bytes_index_found [of j buf "[CR, LF, CR, LF]"] None \<open>j + 4 \<le> length buf\<close> by auto
      qed
      with kb \<open>j < k\<close> have kj: "k = j + 1" by simp
      have "(buf @ zs) ! (j + 2) = CR"
        using has_prefix_nth [OF bytes_index_at [OF j], of 2] by simp
      moreover have "buf ! (k + 1) = LF"
        using has_prefix_nth [OF bytes_index_at [OF \<open>bytes_index buf [LF, LF] = Some k\<close>], of 1] by simp
      ultimately show False using kj kb by (simp add: nth_append)
    qed
    with ext i show ?thesis by (auto simp: findEventTerminator_def split: option.split)
  qed
qed

lemma findEventTerminator_cases:
  assumes "findEventTerminator buf = Some i"
  shows "has_prefix (drop i buf) [LF, LF] \<or> has_prefix (drop i buf) [CR, LF, CR, LF]"
  using assms bytes_index_at
  by (auto simp: findEventTerminator_def split: option.splits if_splits)

lemma terminator_length:
  assumes "findEventTerminator buf = Some i"
  shows "i + eventTerminatorLen (drop i buf) 0 \<le> length buf"
    "eventTerminatorLen (drop i (buf @ zs)) 0 = eventTerminatorLen (drop i buf) 0"
proof -
  have i: "i \<le> length buf" using findEventTerminator_bound [OF assms] by simp
  then have len: "length buf = i + length (drop i buf)" by simp
  have app: "drop i (buf @ zs) = drop i buf @ zs" using i by simp
  from findEventTerminator_cases [OF assms]
  obtain t where "drop i buf = [LF, LF] @ t \<or> drop i buf = [CR, LF, CR, LF] @ t"
    by (auto simp: has_prefix_iff)
  then have "eventTerminatorLen (drop i buf) 0 \<le> length (drop i buf)
      \<and> eventTerminatorLen (drop i buf @ zs) 0 = eventTerminatorLen (drop i buf) 0"
  proof
    assume e: "drop i buf = [LF, LF] @ t"
    show ?thesis unfolding e by (simp add: eventTerminatorLen_def)
  next
    assume e: "drop i buf = [CR, LF, CR, LF] @ t"
    show ?thesis unfolding e by (simp add: eventTerminatorLen_def)
  qed
  then show "i + eventTerminatorLen (drop i buf) 0 \<le> length buf"
    "eventTerminatorLen (drop i (buf @ zs)) 0 = eventTerminatorLen (drop i buf) 0"
    unfolding app using len by (linarith, blast)
qed

lemma parse_append:
  "parseSSEBuffer d (buf @ zs) tp =
     (case parseSSEBuffer d buf tp of (rest, tp') \<Rightarrow> parseSSEBuffer d (rest @ zs) tp')"
proof (induction d buf tp rule: parseSSEBuffer.induct)
  case (1 d buf tp)
  show ?case
  proof (cases "findEventTerminator buf")
    case None
    then show ?thesis by (simp add: parseSSEBuffer.simps [of d buf])
  next
    case (Some i)
    let ?n = "eventTerminatorLen (drop i buf) 0"
    note T = terminator_length [OF Some]
    have i: "i \<le> length buf" using T(1) by simp
    have "parseSSEBuffer d (buf @ zs) tp
        = parseSSEBuffer d (drop ?n (drop i (buf @ zs))) (extractFromEvent d (take i buf) tp)"
      using findEventTerminator_append [OF Some, of zs] T(2) [of zs] i
      by (simp add: parseSSEBuffer.simps [of d "buf @ zs"] Let_def)
    also have "drop ?n (drop i (buf @ zs)) = drop ?n (drop i buf) @ zs"
      using T(1) i by simp
    finally show ?thesis
      using 1 [OF Some refl refl refl] Some by (simp add: parseSSEBuffer.simps [of d buf] Let_def)
  qed
qed

subsection \<open>Properties of the token counter\<close>

lemma tcw_Write_append:
  assumes "tw_body w = None"
  shows "tcw_Write d c2 (tcw_Write d c1 w) = tcw_Write d (c1 @ c2) w"
proof (cases "tw_sse w")
  case (Some s)
  obtain r t p where "parseSSEBuffer d (s @ c1) (tw_tokens w, tw_prompt w) = (r, t, p)"
    by (metis prod_cases3)
  with parse_append [of d "s @ c1" c2 "(tw_tokens w, tw_prompt w)"] Some assms show ?thesis
    by (auto simp: tcw_Write_def split: prod.split)
qed (simp add: tcw_Write_def assms)

lemma tcw_Write_body [simp]: "tw_body w = None \<Longrightarrow> tw_body (tcw_Write d c w) = None"
  by (simp add: tcw_Write_def split: option.split prod.split)

text \<open>
  C6: token usage does not depend on how the stream is cut into writes.  For a streaming
  response, writing any sequence of chunks leaves the writer in exactly the state of one write
  of all the bytes: the same buffered remainder and the same completion and prompt counts,
  even when an event terminator is split between chunks.
\<close>

theorem sse_chunking_irrelevant:
  assumes "tw_body w = None"
  shows "foldl (\<lambda>w c. tcw_Write decode c w) w chunks = tcw_Write decode (concat chunks) w"
  using assms
proof (induction chunks arbitrary: w)
  case Nil
  then show ?case by (simp add: tcw_Write_def)
next
  case (Cons c cs)
  then show ?case by (simp add: tcw_Write_append)
qed

definition sample_decode :: usage_decoder where
  "sample_decode data = (if data = ''u'' then Some (3, 7) else None)"

theorem sse_chunking_irrelevant_witness:
  "foldl (\<lambda>w c. tcw_Write sample_decode c w)
      (newTokenCountingWriter\<lparr>tw_status := 200, tw_sse := Some []\<rparr>) [''data: u'' @ [CR, LF, CR], [LF]]
   = tcw_Write sample_decode (''data: u'' @ [CR, LF, CR, LF])
      (newTokenCountingWriter\<lparr>tw_status := 200, tw_sse := Some []\<rparr>)"
  using sse_chunking_irrelevant [of "newTokenCountingWriter\<lparr>tw_status := 200, tw_sse := Some []\<rparr>"
      sample_decode "[''data: u'' @ [CR, LF, CR], [LF]]"]
  by (simp add: newTokenCountingWriter_def)

end
