(* ===== verification/Router_Serve.thy ===== *)
theory Router_Serve
  imports Router_Select Scheduler Token_Counter
begin

text \<open>
  The request path of the router: \<^verbatim>\<open>router.go\<close>, \<^verbatim>\<open>queue.go\<close> and the handler of \<^verbatim>\<open>flat.go\<close>.  A
  request is served by a function from the router's state to an outcome and the new state.
  What lies outside the router is an argument: the control plane's answers, the routing
  policy's \<^verbatim>\<open>Pick\<close>, URL parsing, trace injection, the process environment and the engine's
  answer to the request it is sent.  The texts of error messages are not modelled; their status,
  type and \<^verbatim>\<open>Retry-After\<close> are.
\<close>

subsection \<open>Requests, responses and the router's state\<close>

record hrequest =
  hq_path :: gostring
  hq_deploy_id :: gostring
  hq_headers :: headers
  hq_body :: gostring
  hq_ctx_tenant :: "gostring option"
  hq_ctx_priority :: "priority option"
  hq_derived :: gostring
  hq_wait_ms :: "int option"

record target_url =
  tu_scheme :: gostring
  tu_host :: gostring
  tu_path :: gostring

record outbound =
  ob_scheme :: gostring
  ob_host :: gostring
  ob_path :: gostring
  ob_headers :: headers
  ob_body :: gostring

text \<open>An engine's answer: the call fails, or a status, a content type and the body in chunks.\<close>

datatype engine_answer = EngineFailed | EngineAnswered int gostring "gostring list"

record env =
  en_url_parse :: "gostring \<Rightarrow> target_url option"
  en_inject :: "headers \<Rightarrow> headers"
  en_getenv :: "gostring \<Rightarrow> gostring"
  en_engine :: "outbound \<Rightarrow> engine_answer"
  en_decode :: usage_decoder

datatype hresult =
    HError int gostring "nat option"
  | HForwarded outbound engine_answer
  | HPanic

datatype rt_event =
    RvAffinity gostring affinity_outcome
  | RvDecision gostring gostring gostring
  | RvTouch gostring
  | RvActive gostring gostring gostring
  | RvRequest gostring gostring gostring gostring gostring gostring
  | RvTokens gostring gostring gostring gostring gostring gostring int

record 'p rstate =
  rt_policy :: 'p
  rt_inflight :: "gostring \<rightharpoonup> int"
  rt_completions :: "gostring \<rightharpoonup> timestamp"
  rt_last_replica :: "gostring \<rightharpoonup> gostring"
  rt_events :: "rt_event list"

subsection \<open>Construction\<close>

record pending_cfg =
  pc_servicers :: int
  pc_global_capacity :: int
  pc_interactive_capacity :: int
  pc_batch_capacity :: int
  pc_in_flight_cap :: int
  pc_tenant_weights :: "weights option"
  pc_explicit :: bool

datatype router_option =
    WithQueue int int
  | WithInteractiveQueue int int
  | WithBatchQueue int int
  | WithInFlightCap int
  | WithTenantWeights "weights option"
  | WithScheduler

fun apply_option :: "router_option \<Rightarrow> pending_cfg \<Rightarrow> pending_cfg" where
  "apply_option (WithQueue servicers capacity) c =
     (if servicers \<le> 0 \<or> capacity \<le> 0 then c
      else c\<lparr>pc_servicers := servicers, pc_global_capacity := capacity\<rparr>)"
| "apply_option (WithInteractiveQueue servicers capacity) c =
     (if servicers \<le> 0 \<or> capacity \<le> 0 then c
      else (if pc_servicers c = 0 then c\<lparr>pc_servicers := servicers\<rparr> else c)
             \<lparr>pc_interactive_capacity := capacity\<rparr>)"
| "apply_option (WithBatchQueue servicers capacity) c =
     (if servicers \<le> 0 \<or> capacity \<le> 0 then c
      else (if pc_servicers c = 0 then c\<lparr>pc_servicers := servicers\<rparr> else c)
             \<lparr>pc_batch_capacity := capacity\<rparr>)"
| "apply_option (WithInFlightCap cap) c = (if cap < 0 then c else c\<lparr>pc_in_flight_cap := cap\<rparr>)"
| "apply_option (WithTenantWeights w) c = c\<lparr>pc_tenant_weights := w\<rparr>"
| "apply_option WithScheduler c = c\<lparr>pc_explicit := True\<rparr>"

definition empty_cfg :: pending_cfg where
  "empty_cfg =
     \<lparr>pc_servicers = 0, pc_global_capacity = 0, pc_interactive_capacity = 0, pc_batch_capacity = 0,
      pc_in_flight_cap = 0, pc_tenant_weights = None, pc_explicit = False\<rparr>"

text \<open>The scheduler configuration \<^verbatim>\<open>New\<close> materialises, \<open>None\<close> when it builds none.\<close>

definition router_New :: "router_option list \<Rightarrow> config option" where
  "router_New opts =
     (let cfg = fold apply_option opts empty_cfg
      in if \<not> pc_explicit cfg \<and> pc_servicers cfg > 0 then
           (let i0 = (if pc_interactive_capacity cfg = 0 then pc_global_capacity cfg
                      else pc_interactive_capacity cfg);
                b0 = (if pc_batch_capacity cfg = 0 then pc_global_capacity cfg
                      else pc_batch_capacity cfg)
            in Some \<lparr>cfg_handler_nil = False, cfg_workers = pc_servicers cfg,
                     cfg_interactive_capacity = (if i0 \<le> 0 then 256 else i0),
                     cfg_batch_capacity = (if b0 \<le> 0 then 256 else b0),
                     cfg_in_flight_cap = pc_in_flight_cap cfg,
                     cfg_weights = pc_tenant_weights cfg\<rparr>)
         else None)"

definition router_Start :: "bool \<Rightarrow> sched option \<Rightarrow> sched option option" where
  "router_Start parent_done sch =
     (case sch of None \<Rightarrow> Some None | Some s \<Rightarrow> map_option Some (sched_Start parent_done s))"

definition router_Shutdown :: "sched option \<Rightarrow> sched option" where
  "router_Shutdown sch = map_option sched_Stop sch"

subsection \<open>Can the deployment serve?\<close>

text \<open>\<open>None\<close> means proceed; otherwise the error response that was written.\<close>

definition forwardable :: "deployment \<Rightarrow> hresult option" where
  "forwardable dep =
     (case dep_state dep of
        DRunning \<Rightarrow>
          if \<not> hasStampedEndpoint dep then Some (HError 503 ''deployment_not_ready'' (Some 2)) else None
      | DPending \<Rightarrow> Some (HError 503 ''deployment_not_ready'' (Some 5))
      | DStarting \<Rightarrow> Some (HError 503 ''deployment_not_ready'' (Some 5))
      | DConfiguring \<Rightarrow> Some (HError 503 ''deployment_not_ready'' (Some 5))
      | DDegraded \<Rightarrow> Some (HError 502 ''engine_unhealthy'' None)
      | DTerminating \<Rightarrow> Some (HError 410 ''deployment_gone'' None)
      | DTerminated \<Rightarrow> Some (HError 410 ''deployment_gone'' None)
      | DFailed \<Rightarrow> Some (HError 502 ''deployment_failed'' None)
      | DUnspecified \<Rightarrow> Some (HError 503 ''deployment_unknown_state'' None))"

subsection \<open>The outbound request\<close>

fun after_slash :: "gostring \<Rightarrow> gostring option" where
  "after_slash [] = None"
| "after_slash (c # cs) = (if c = CHR ''/'' then Some (c # cs) else after_slash cs)"

definition openAITail :: "gostring \<Rightarrow> gostring" where
  "openAITail p =
     (case cut_prefix p ''/v1/'' of
        None \<Rightarrow> p
      | Some rest \<Rightarrow> (case after_slash rest of None \<Rightarrow> p | Some t \<Rightarrow> t))"

definition applyUpstreamAuth :: "(gostring \<Rightarrow> gostring) \<Rightarrow> upstream_auth option \<Rightarrow> headers \<Rightarrow> headers" where
  "applyUpstreamAuth getenv auth h =
     (case auth of
        None \<Rightarrow> h
      | Some a \<Rightarrow>
          if ua_header a = [] \<or> ua_value_env a = [] then h
          else
            (let secret = getenv (ua_value_env a)
             in if secret = [] then h
                else h(map lower_char (ua_header a) \<mapsto> ua_value_prefix a @ secret)))"

text \<open>The path join of \<^verbatim>\<open>ProxyRequest.SetURL\<close>.\<close>

definition join_path :: "gostring \<Rightarrow> gostring \<Rightarrow> gostring" where
  "join_path a b =
     (let aslash = a \<noteq> [] \<and> last a = CHR ''/''; bslash = has_prefix b ''/''
      in if aslash \<and> bslash then a @ tl b
         else if \<not> aslash \<and> \<not> bslash then a @ ''/'' @ b else a @ b)"

definition header_del :: "gostring \<Rightarrow> headers \<Rightarrow> headers" where
  "header_del k h = h(map lower_char k := None)"

definition proxy_rewrite :: "env \<Rightarrow> deployment \<Rightarrow> bool \<Rightarrow> target_url \<Rightarrow> hrequest \<Rightarrow> outbound" where
  "proxy_rewrite en dep stripDeployPrefix target req =
     \<lparr>ob_scheme = tu_scheme target, ob_host = tu_host target,
      ob_path = (if stripDeployPrefix then openAITail (hq_path req)
                 else join_path (tu_path target) (hq_path req)),
      ob_headers = applyUpstreamAuth (en_getenv en) (dep_upstream_auth dep)
        (en_inject en (header_del PriorityHeader (header_del TenantHeader (hq_headers req)))),
      ob_body = hq_body req\<rparr>"

definition proxyTo :: "env \<Rightarrow> hrequest \<Rightarrow> deployment \<Rightarrow> gostring \<Rightarrow> bool \<Rightarrow> hresult" where
  "proxyTo en req dep endpoint stripDeployPrefix =
     (case en_url_parse en endpoint of
        None \<Rightarrow> HError 502 ''engine_unreachable'' None
      | Some target \<Rightarrow>
          (let ob = proxy_rewrite en dep stripDeployPrefix target req
           in case en_engine en ob of
                EngineFailed \<Rightarrow> HError 502 ''engine_unreachable'' None
              | a \<Rightarrow> HForwarded ob a))"

text \<open>The response as the token-counting writer saw it.\<close>

definition observe_response :: "usage_decoder \<Rightarrow> hresult \<Rightarrow> tcw" where
  "observe_response decode r =
     (case r of
        HError code _ _ \<Rightarrow> tcw_WriteHeader code ''application/json'' newTokenCountingWriter
      | HForwarded _ (EngineAnswered code ct chunks) \<Rightarrow>
          foldl (\<lambda>w c. tcw_Write decode c w) (tcw_WriteHeader code ct newTokenCountingWriter) chunks
      | _ \<Rightarrow> newTokenCountingWriter)"

subsection \<open>The instrumented tail\<close>

definition log_event :: "rt_event \<Rightarrow> 'p rstate \<Rightarrow> 'p rstate" where
  "log_event ev st = st\<lparr>rt_events := rt_events st @ [ev]\<rparr>"

text \<open>The deferred recording of the request's outcome.\<close>

definition record_outcome ::
  "usage_decoder \<Rightarrow> hrequest \<Rightarrow> deployment \<Rightarrow> gostring \<Rightarrow> hresult \<Rightarrow> 'p rstate \<Rightarrow> 'p rstate" where
  "record_outcome decode req dep replicaID r st =
     (let w = observe_response decode r;
          tenantID = tenantFromContext (hq_ctx_tenant req);
          prio = priorityLabel (effectivePriorityFromCtx (hq_ctx_priority req));
          st1 = log_event (RvRequest (dep_id dep) (dep_model dep) tenantID prio replicaID (StatusLabel w)) st;
          tokens = CompletionTokens decode w
      in if tokens > 0
         then log_event (RvTokens (dep_id dep) (dep_model dep) tenantID prio replicaID
                (contextBucket (PromptTokens decode w)) tokens) st1
         else st1)"

text \<open>
  The engine-facing part: the in-flight counter is raised, the deployment is touched, the
  request is proxied, and the deferred release lowers the counter and stamps the completion.
\<close>

definition serve_replica ::
  "env \<Rightarrow> timestamp \<Rightarrow> hrequest \<Rightarrow> deployment \<Rightarrow> bool \<Rightarrow> gostring \<Rightarrow> gostring \<Rightarrow> 'p rstate \<Rightarrow> hresult \<times> 'p rstate" where
  "serve_replica en done_at req dep strip replicaID endpoint st =
     (let st1 = log_event (RvDecision (dep_id dep) replicaID ''picked'') st;
          st2 = st1\<lparr>rt_inflight := trackInFlight (dep_id dep) replicaID (rt_inflight st1)\<rparr>;
          st3 = log_event (RvTouch (dep_id dep)) st2;
          r = proxyTo en req dep endpoint strip;
          st4 = log_event (RvActive (dep_model dep) (dep_id dep) replicaID) st3
      in case untrackInFlight done_at (dep_id dep) replicaID (rt_inflight st4, rt_completions st4) of
           (m, c) \<Rightarrow> (r, st4\<lparr>rt_inflight := m, rt_completions := c\<rparr>))"

definition handleWithObservability ::
  "env \<Rightarrow> (pick_request \<Rightarrow> 'p \<Rightarrow> pick \<times> 'p) \<Rightarrow> timestamp \<Rightarrow> hrequest \<Rightarrow> deployment \<Rightarrow> bool
   \<Rightarrow> 'p rstate \<Rightarrow> hresult \<times> 'p rstate" where
  "handleWithObservability en pick done_at req dep strip st =
     (let session = sessionKey (hq_headers req) (hq_derived req)
      in case pickReplica pick session (Some (router_InFlight (rt_inflight st))) dep (rt_policy st) of
           (ChosePanic, p) \<Rightarrow> (HPanic, st\<lparr>rt_policy := p\<rparr>)
         | (ChoseNone, p) \<Rightarrow>
             (let st1 = st\<lparr>rt_policy := p\<rparr>
              in case forwardable dep of
                   Some r \<Rightarrow> (r, record_outcome (en_decode en) req dep [] r st1)
                 | None \<Rightarrow>
                     (let r = HError 503 ''replica_unavailable'' (Some 5);
                          st2 = log_event (RvDecision (dep_id dep) [] ''no_replicas'') st1
                      in (r, record_outcome (en_decode en) req dep [] r st2)))
         | (ChoseReplica replicaID endpoint, p) \<Rightarrow>
             (let st1 = st\<lparr>rt_policy := p\<rparr>;
                  st2 = (if session \<noteq> [] then
                           (case recordAffinity (dep_id dep) session replicaID (rt_last_replica st1) of
                              (oc, m) \<Rightarrow> log_event (RvAffinity (dep_id dep) oc) (st1\<lparr>rt_last_replica := m\<rparr>))
                         else st1)
              in case forwardable dep of
                   Some r \<Rightarrow> (r, record_outcome (en_decode en) req dep replicaID r st2)
                 | None \<Rightarrow>
                     (case serve_replica en done_at req dep strip replicaID endpoint st2 of
                        (r, st3) \<Rightarrow> (r, record_outcome (en_decode en) req dep replicaID r st3))))"

subsection \<open>Queueing\<close>

definition schedulerEntry :: "nat \<Rightarrow> hrequest \<Rightarrow> deployment \<Rightarrow> priority \<Rightarrow> entry" where
  "schedulerEntry rid req dep prio =
     \<lparr>e_request = rid, e_deployment = dep_id dep, e_priority = priorityLabel prio,
      e_tenant = Some (tenantFromContext (hq_ctx_tenant req)), e_stamper = True, e_enqueued = None\<rparr>"

text \<open>
  \<open>Served\<close> is the direct path, \<open>Waiting\<close> a handler blocked on \<^verbatim>\<open>entry.done\<close> until a worker
  runs \<^verbatim>\<open>dispatchEntry\<close> for the entry, \<open>Refused\<close> an error response.
\<close>

datatype enqueue_result = Served hresult | Waiting entry | Refused hresult | EnqueuePanic

definition enqueueOrServe ::
  "env \<Rightarrow> (pick_request \<Rightarrow> 'p \<Rightarrow> pick \<times> 'p) \<Rightarrow> timestamp \<Rightarrow> nat \<Rightarrow> hrequest \<Rightarrow> deployment \<Rightarrow> bool
   \<Rightarrow> 'p rstate \<Rightarrow> sched option \<Rightarrow> enqueue_result \<times> 'p rstate \<times> sched option" where
  "enqueueOrServe en pick now rid req dep strip st sch =
     (let prio = effectivePriority (hq_ctx_priority req);
          req1 = req\<lparr>hq_ctx_priority := Some prio\<rparr>
      in case sch of
           None \<Rightarrow>
             (case handleWithObservability en pick now req1 dep strip st of
                (r, st') \<Rightarrow> (Served r, st', None))
         | Some s \<Rightarrow>
             (let e = schedulerEntry rid req1 dep prio
              in case sched_Submit now e s of
                   None \<Rightarrow> (EnqueuePanic, st, sch)
                 | Some (Inr _, _, s') \<Rightarrow> (Waiting (StampEnqueued now e), st, Some s')
                 | Some (Inl ErrQueueFull, _, s') \<Rightarrow>
                     (Refused (HError 503 ''queue_full'' (Some 1)), st, Some s')
                 | Some (Inl ErrClosed, _, s') \<Rightarrow>
                     (Refused (HError 503 ''router_shutting_down'' None), st, Some s')
                 | Some (Inl ErrCanceled, _, s') \<Rightarrow>
                     (Refused (HError 500 ''internal_error'' None), st, Some s')))"

definition dispatchEntry ::
  "env \<Rightarrow> (pick_request \<Rightarrow> 'p \<Rightarrow> pick \<times> 'p) \<Rightarrow> timestamp \<Rightarrow> entry \<Rightarrow> hrequest \<Rightarrow> deployment \<Rightarrow> bool
   \<Rightarrow> 'p rstate \<Rightarrow> hresult \<times> 'p rstate" where
  "dispatchEntry en pick now e req dep strip st =
     (let req1 = (case e_enqueued e of
                    Some t \<Rightarrow> req\<lparr>hq_wait_ms := Some (go_quot (time_sub now t) 1000000)\<rparr>
                  | None \<Rightarrow> req)
      in handleWithObservability en pick now req1 dep strip st)"

subsection \<open>The two URL families\<close>

datatype lookup_error = CodeNotFound | CodeOther

definition handleDescribeError :: "lookup_error \<Rightarrow> hresult" where
  "handleDescribeError e =
     (case e of CodeNotFound \<Rightarrow> HError 404 ''deployment_not_found'' None
      | CodeOther \<Rightarrow> HError 502 ''daemon_error'' None)"

text \<open>\<^verbatim>\<open>withTenant\<close> and \<^verbatim>\<open>withPriority\<close>, the middleware \<^verbatim>\<open>Handle\<close> puts before both handlers.\<close>

definition with_middleware :: "hrequest \<Rightarrow> hrequest" where
  "with_middleware req =
     req\<lparr>hq_ctx_tenant := Some (extractTenant (hq_headers req)),
         hq_ctx_priority := Some (priorityFromHeader (hq_headers req))\<rparr>"

definition serveDeployID ::
  "env \<Rightarrow> (pick_request \<Rightarrow> 'p \<Rightarrow> pick \<times> 'p) \<Rightarrow> (gostring \<Rightarrow> lookup_error + deployment option)
   \<Rightarrow> timestamp \<Rightarrow> nat \<Rightarrow> hrequest \<Rightarrow> 'p rstate \<Rightarrow> sched option
   \<Rightarrow> enqueue_result \<times> 'p rstate \<times> sched option" where
  "serveDeployID en pick describe now rid req st sch =
     (if hq_deploy_id req = [] then (Refused (HError 400 ''invalid_request_error'' None), st, sch)
      else
        (case describe (hq_deploy_id req) of
           Inl e \<Rightarrow> (Refused (handleDescribeError e), st, sch)
         | Inr None \<Rightarrow> (Refused (HError 500 ''internal_error'' None), st, sch)
         | Inr (Some dep) \<Rightarrow> enqueueOrServe en pick now rid req dep True st sch))"

text \<open>
  \<open>body\<close> is what \<^verbatim>\<open>io.ReadAll\<close> of the limited reader returned (\<open>None\<close> is a read error), so it
  has at most one byte more than the limit; \<open>probe\<close> decodes the model and the messages.
\<close>

definition serveFlat ::
  "env \<Rightarrow> (pick_request \<Rightarrow> 'p \<Rightarrow> pick \<times> 'p) \<Rightarrow> (gostring \<Rightarrow> gostring)
   \<Rightarrow> (gostring \<Rightarrow> (gostring \<times> flat_message list) option) \<Rightarrow> (lookup_error + deployment list)
   \<Rightarrow> timestamp \<Rightarrow> nat \<Rightarrow> gostring option \<Rightarrow> hrequest \<Rightarrow> 'p rstate \<Rightarrow> sched option
   \<Rightarrow> enqueue_result \<times> 'p rstate \<times> sched option" where
  "serveFlat en pick sha256 probe deployments now rid body req st sch =
     (case body of
        None \<Rightarrow> (Refused (HError 400 ''invalid_request_error'' None), st, sch)
      | Some b \<Rightarrow>
          if length b > FlatMaxBodyBytes then (Refused (HError 413 ''request_too_large'' None), st, sch)
          else
            (case probe b of
               None \<Rightarrow> (Refused (HError 400 ''invalid_request_error'' None), st, sch)
             | Some (model, messages) \<Rightarrow>
                 if model = [] then (Refused (HError 400 ''invalid_request_error'' None), st, sch)
                 else
                   (case deployments of
                      Inl _ \<Rightarrow> (Refused (HError 502 ''daemon_error'' None), st, sch)
                    | Inr ds \<Rightarrow>
                        (case pickDeploymentForModel ds model of
                           ModelNotFound \<Rightarrow> (Refused (HError 404 ''model_not_available'' None), st, sch)
                         | ModelServedBy dep \<Rightarrow>
                             (let req1 = req\<lparr>hq_body := b\<rparr>;
                                  key = deriveSessionKey sha256 messages;
                                  req2 = (if key \<noteq> [] then req1\<lparr>hq_derived := key\<rparr> else req1)
                              in enqueueOrServe en pick now rid req2 dep False st sch)))))"

subsection \<open>Lemmas on the request path\<close>

lemma log_event_frame [simp]:
  "rt_inflight (log_event ev st) = rt_inflight st" "rt_policy (log_event ev st) = rt_policy st"
  "rt_completions (log_event ev st) = rt_completions st"
  by (simp_all add: log_event_def)

lemma record_outcome_frame [simp]:
  "rt_inflight (record_outcome d req dep i r st) = rt_inflight st"
  "rt_policy (record_outcome d req dep i r st) = rt_policy st"
  "rt_completions (record_outcome d req dep i r st) = rt_completions st"
  by (simp_all add: record_outcome_def Let_def)

lemma router_InFlight_upd:
  "router_InFlight (m(replica_key d i \<mapsto> n)) d' i' =
     (if replica_key d' i' = replica_key d i then n else router_InFlight m d' i')"
  by (simp add: router_InFlight_def)

lemma track_untrack:
  assumes "min_int64 \<le> router_InFlight m d i" "router_InFlight m d i < max_int64"
  shows "router_InFlight (fst (untrackInFlight t d i (trackInFlight d i m, c))) d' i' = router_InFlight m d' i'"
proof -
  have "wrap64 (router_InFlight m d i + 1) = router_InFlight m d i + 1" using assms by simp
  moreover have "wrap64 (router_InFlight m d i) = router_InFlight m d i" using assms by simp
  moreover have "router_InFlight m d' i' = router_InFlight m d i" if "replica_key d' i' = replica_key d i"
    using that by (simp add: router_InFlight_def)
  ultimately show ?thesis
    by (simp add: untrackInFlight_def trackInFlight_def router_InFlight_upd)
qed

lemma serve_replica_result [simp]:
  "fst (serve_replica en t req dep strip i ep st) = proxyTo en req dep ep strip"
  by (simp add: serve_replica_def Let_def split: prod.split)

lemma serve_replica_inflight:
  assumes "\<And>d i. min_int64 \<le> router_InFlight (rt_inflight st) d i \<and> router_InFlight (rt_inflight st) d i < max_int64"
  shows "router_InFlight (rt_inflight (snd (serve_replica en t req dep strip i ep st))) d' i'
    = router_InFlight (rt_inflight st) d' i'"
  using track_untrack [where m = "rt_inflight st" and d = "dep_id dep" and i = i and t = t
      and c = "rt_completions st" and d' = d' and i' = i'] assms
  by (simp add: serve_replica_def Let_def case_prod_unfold)

text \<open>The outcome of the instrumented tail, given the choice of replica.\<close>

definition expected_result :: "env \<Rightarrow> hrequest \<Rightarrow> deployment \<Rightarrow> bool \<Rightarrow> replica_choice \<Rightarrow> hresult" where
  "expected_result en req dep strip c =
     (case c of
        ChosePanic \<Rightarrow> HPanic
      | ChoseNone \<Rightarrow>
          (case forwardable dep of Some r \<Rightarrow> r | None \<Rightarrow> HError 503 ''replica_unavailable'' (Some 5))
      | ChoseReplica i ep \<Rightarrow>
          (case forwardable dep of Some r \<Rightarrow> r | None \<Rightarrow> proxyTo en req dep ep strip))"

lemma handle_result:
  "fst (handleWithObservability en pick t req dep strip st) =
     expected_result en req dep strip
       (fst (pickReplica pick (sessionKey (hq_headers req) (hq_derived req))
          (Some (router_InFlight (rt_inflight st))) dep (rt_policy st)))"
proof -
  obtain c p where "pickReplica pick (sessionKey (hq_headers req) (hq_derived req))
      (Some (router_InFlight (rt_inflight st))) dep (rt_policy st) = (c, p)" by fastforce
  then show ?thesis
    by (cases c; cases "forwardable dep")
      (simp_all add: handleWithObservability_def expected_result_def Let_def case_prod_unfold)
qed

lemma handle_inflight:
  assumes "\<And>d i. min_int64 \<le> router_InFlight (rt_inflight st) d i \<and> router_InFlight (rt_inflight st) d i < max_int64"
  shows "router_InFlight (rt_inflight (snd (handleWithObservability en pick t req dep strip st))) d i
    = router_InFlight (rt_inflight st) d i"
proof -
  obtain c p where cp: "pickReplica pick (sessionKey (hq_headers req) (hq_derived req))
      (Some (router_InFlight (rt_inflight st))) dep (rt_policy st) = (c, p)" by fastforce
  have key: "router_InFlight (rt_inflight (snd (serve_replica en t req dep strip x ep st'))) d i
      = router_InFlight (rt_inflight st) d i" if "rt_inflight st' = rt_inflight st" for x ep and st' :: "'a rstate"
    using serve_replica_inflight [of st'] that assms by metis
  show ?thesis
    by (cases c; cases "forwardable dep")
      (simp_all add: cp handleWithObservability_def Let_def case_prod_unfold key)
qed

lemma forwardable_None: "forwardable dep = None \<longleftrightarrow> dep_state dep = DRunning \<and> hasStampedEndpoint dep"
  by (simp add: forwardable_def split: deployment_state.split)

lemma forwardable_error: "forwardable dep = Some r \<Longrightarrow> \<exists>code ty ra. r = HError code ty ra \<and> 400 \<le> code"
  by (auto simp: forwardable_def split: deployment_state.splits if_splits)

lemma proxyTo_forwarded:
  "proxyTo en req dep ep strip = HForwarded ob a \<Longrightarrow>
     \<exists>target. en_url_parse en ep = Some target \<and> ob = proxy_rewrite en dep strip target req
       \<and> a = en_engine en ob"
  by (auto simp: proxyTo_def Let_def split: option.splits engine_answer.splits)

subsection \<open>Properties of the request path\<close>

definition sample_env :: env where
  "sample_env =
     \<lparr>en_url_parse = (\<lambda>u. Some \<lparr>tu_scheme = ''http'', tu_host = u, tu_path = []\<rparr>), en_inject = (\<lambda>h. h),
      en_getenv = (\<lambda>v. if v = ''KEY'' then ''secret'' else []),
      en_engine = (\<lambda>ob. EngineAnswered 200 ''application/json'' [''{}'']), en_decode = (\<lambda>d. None)\<rparr>"

definition sample_hrequest :: hrequest where
  "sample_hrequest =
     \<lparr>hq_path = ''/v1/chat/completions'', hq_deploy_id = ''d'', hq_headers = Map.empty, hq_body = ''{}'',
      hq_ctx_tenant = Some ''default'', hq_ctx_priority = Some PInteractive, hq_derived = ''s'', hq_wait_ms = None\<rparr>"

definition sample_rstate :: "affinity rstate" where
  "sample_rstate =
     \<lparr>rt_policy = NewPrefixAffinity 0, rt_inflight = Map.empty, rt_completions = Map.empty,
      rt_last_replica = Map.empty, rt_events = []\<rparr>"

text \<open>
  C4: only a healthy replica of a RUNNING deployment receives traffic.  Under the
  prefix-affinity policy (which contains round robin as its fallback), whenever the router hands
  a request to an engine, the deployment is RUNNING and the host it calls is that of a published
  endpoint of the deployment whose member has no machine among those marked unhealthy; the engine
  gets the client's body unchanged.
\<close>

theorem handle_forwards_only_eligible:
  assumes "pa_headroom (Suc 0) (rt_policy st)"
    and "fst (handleWithObservability en pa_Pick t req dep strip st) = HForwarded ob a"
  shows "dep_state dep = DRunning \<and> ob_body ob = hq_body req
    \<and> (\<exists>i < length (EffectiveEndpoints dep). \<exists>target. EffectiveEndpoints dep ! i \<noteq> []
        \<and> (\<forall>n. i < length (memberInstanceIDs dep) \<and> n \<in> set (memberInstanceIDs dep ! i) \<longrightarrow> n = [] \<or> n \<notin> set (dep_unhealthy dep))
        \<and> en_url_parse en (EffectiveEndpoints dep ! i) = Some target \<and> ob_host ob = tu_host target)"
proof -
  let ?c = "fst (pickReplica pa_Pick (sessionKey (hq_headers req) (hq_derived req))
      (Some (router_InFlight (rt_inflight st))) dep (rt_policy st))"
  have sound: "choice_sound dep ?c" using prefix_affinity.pickReplica_sound [OF assms(1)] .
  have er: "expected_result en req dep strip ?c = HForwarded ob a"
    using assms(2) by (simp add: handle_result)
  obtain i ep where c: "?c = ChoseReplica i ep"
    using sound er by (cases ?c)
      (auto simp: choice_sound_def expected_result_def split: option.splits dest: forwardable_error)
  have fw: "forwardable dep = None" "proxyTo en req dep ep strip = HForwarded ob a"
    using er forwardable_error unfolding c expected_result_def by (force split: option.splits)+
  from proxyTo_forwarded [OF fw(2)] obtain target
    where t: "en_url_parse en ep = Some target" "ob = proxy_rewrite en dep strip target req" by blast
  have "\<lparr>r_instance = i, r_endpoint = ep\<rparr> \<in> set (eligibleReplicas dep)"
    using sound unfolding c choice_sound_def by simp
  then obtain j where j: "j < length (EffectiveEndpoints dep)" "EffectiveEndpoints dep ! j \<noteq> []" "ep = EffectiveEndpoints dep ! j"
    and q: "\<not> anyQuarantined (quarantinedSet dep) (nodes_at (memberInstanceIDs dep) j)"
    unfolding eligible_member by auto
  from q have "\<forall>n. j < length (memberInstanceIDs dep) \<and> n \<in> set (memberInstanceIDs dep ! j) \<longrightarrow> n = [] \<or> n \<notin> set (dep_unhealthy dep)"
    by (auto simp: anyQuarantined_iff nodes_at_def)
  moreover have "ob_host ob = tu_host target" "ob_body ob = hq_body req" using t(2) by (simp_all add: proxy_rewrite_def)
  ultimately show ?thesis using j t(1) fw(1) unfolding forwardable_None by blast
qed

theorem handle_forwards_only_eligible_witness:
  "\<exists>ob a. fst (handleWithObservability sample_env pa_Pick 9 sample_hrequest sample_deployment False sample_rstate)
       = HForwarded ob a \<and> ob_body ob = ''{}''"
proof -
  let ?res = "fst (handleWithObservability sample_env pa_Pick 9 sample_hrequest sample_deployment False sample_rstate)"
  have pk: "fst (pickReplica pa_Pick s stt sample_deployment (NewPrefixAffinity 0)) = ChoseReplica ''d-r1'' ''u1''" for s stt
    by (simp add: pickReplica_def sample_eligible pa_Pick_def NewPrefixAffinity_def pa_place_def
        pa_fallback_pick_def rr_pick_def rr_Pick_def rr_counter_def NewRoundRobin_def go_rem_def Let_def)
  have fwd: "forwardable sample_deployment = None"
    by (simp add: forwardable_None sample_deployment_def hasStampedEndpoint_def)
  have "\<exists>ob a. ?res = HForwarded ob a"
    using fwd by (simp add: handle_result sample_rstate_def pk expected_result_def proxyTo_def
        sample_env_def Let_def)
  moreover have "pa_headroom (Suc 0) (rt_policy sample_rstate)"
    by (simp add: sample_rstate_def new_headroom)
  ultimately show ?thesis using handle_forwards_only_eligible by (fastforce simp: sample_hrequest_def)
qed

text \<open>
  The in-flight gauge balances.  However a request ends (error response, failed call,
  answered call, panic in the policy), every per-replica in-flight count is afterwards what it
  was before, as long as the counts are within the range of an int64.
\<close>

theorem handle_inflight_balanced:
  assumes "\<And>d i. min_int64 \<le> router_InFlight (rt_inflight st) d i \<and> router_InFlight (rt_inflight st) d i < max_int64"
  shows "router_InFlight (rt_inflight (snd (handleWithObservability en pick t req dep strip st))) d i
    = router_InFlight (rt_inflight st) d i"
  using handle_inflight assms by blast

theorem handle_inflight_balanced_witness:
  "router_InFlight (rt_inflight (snd (handleWithObservability sample_env pa_Pick 9 sample_hrequest
      sample_deployment False sample_rstate))) ''d'' ''d-r1'' = 0"
proof -
  have "router_InFlight (rt_inflight sample_rstate) d i = 0" for d i
    by (simp add: sample_rstate_def router_InFlight_def)
  then show ?thesis
    using handle_inflight_balanced [where st = sample_rstate and pick = pa_Pick and en = sample_env
        and t = 9 and req = sample_hrequest and dep = sample_deployment and strip = False
        and d = "''d''" and i = "''d-r1''"]
    by (simp add: min_int64_def max_int64_def)
qed

lemma after_slash_append: "CHR ''/'' \<notin> set i \<Longrightarrow> after_slash (i @ CHR ''/'' # t) = Some (CHR ''/'' # t)"
  by (induction i) auto

text \<open>
  The explicit-deployment prefix is stripped exactly.  For every path
  \<^verbatim>\<open>/v1/<deploy-id>/<rest>\<close> whose deployment id has no slash, the engine is asked for
  \<^verbatim>\<open>/<rest>\<close>.
\<close>

theorem openAITail_strips:
  assumes "CHR ''/'' \<notin> set i"
  shows "openAITail (''/v1/'' @ i @ ''/'' @ rest) = ''/'' @ rest"
proof -
  have "cut_prefix (''/v1/'' @ i @ ''/'' @ rest) ''/v1/'' = Some (i @ CHR ''/'' # rest)"
    by (subst cut_prefix_append) simp
  then show ?thesis by (simp add: openAITail_def after_slash_append [OF assms])
qed

theorem openAITail_strips_witness:
  "openAITail ''/v1/qwen-a/v1/chat/completions'' = ''/v1/chat/completions''"
  using openAITail_strips [of "''qwen-a''" "''v1/chat/completions''"] by simp

text \<open>
  What is relied on of the trace propagator: it leaves the headers named here alone (the W3C
  propagators write \<^verbatim>\<open>traceparent\<close>, \<^verbatim>\<open>tracestate\<close> and \<^verbatim>\<open>baggage\<close>).
\<close>

definition inject_leaves :: "(headers \<Rightarrow> headers) \<Rightarrow> gostring set \<Rightarrow> bool" where
  "inject_leaves inject ks \<longleftrightarrow> (\<forall>h. \<forall>k\<in>ks. inject h (map lower_char k) = h (map lower_char k))"

lemma header_names_distinct:
  "map lower_char TenantHeader \<noteq> map lower_char PriorityHeader"
  "map lower_char SessionHeader \<noteq> map lower_char PriorityHeader"
  "map lower_char SessionHeader \<noteq> map lower_char TenantHeader"
  by (simp_all add: TenantHeader_def PriorityHeader_def SessionHeader_def lower_char_def)

lemma applyUpstreamAuth_other:
  "(\<forall>a. auth = Some a \<longrightarrow> map lower_char (ua_header a) \<noteq> k) \<Longrightarrow> applyUpstreamAuth g auth h k = h k"
  by (auto simp: applyUpstreamAuth_def Let_def split: option.split)

text \<open>
  The engine sees the operator's credential and not the router's own headers.  The
  outbound request carries neither the tenant nor the priority header, and when the deployment
  names a credential whose variable is set, the credential header has exactly the configured
  prefix and secret, whatever the client sent under that name.
\<close>

theorem outbound_header_hygiene:
  assumes "inject_leaves (en_inject en) {TenantHeader, PriorityHeader}"
    and "dep_upstream_auth dep = Some a" "ua_header a \<noteq> []" "ua_value_env a \<noteq> []"
    and "en_getenv en (ua_value_env a) \<noteq> []"
    and "map lower_char (ua_header a) \<notin> map lower_char ` {TenantHeader, PriorityHeader}"
  shows "let h = ob_headers (proxy_rewrite en dep strip target req)
    in h (map lower_char TenantHeader) = None \<and> h (map lower_char PriorityHeader) = None
     \<and> h (map lower_char (ua_header a)) = Some (ua_value_prefix a @ en_getenv en (ua_value_env a))"
proof -
  let ?base = "header_del PriorityHeader (header_del TenantHeader (hq_headers req))"
  have "en_inject en ?base (map lower_char TenantHeader) = None"
    "en_inject en ?base (map lower_char PriorityHeader) = None"
    using assms(1) by (auto simp: inject_leaves_def header_del_def)
  then show ?thesis using assms(2-6)
    by (auto simp: proxy_rewrite_def applyUpstreamAuth_def Let_def)
qed

definition sample_auth :: upstream_auth where
  "sample_auth = \<lparr>ua_header = ''Authorization'', ua_value_env = ''KEY'', ua_value_prefix = ''Bearer ''\<rparr>"

theorem outbound_header_hygiene_witness:
  "ob_headers (proxy_rewrite sample_env (sample_deployment\<lparr>dep_upstream_auth := Some sample_auth\<rparr>) False
     \<lparr>tu_scheme = ''http'', tu_host = ''h'', tu_path = []\<rparr>
     (sample_hrequest\<lparr>hq_headers := [map lower_char ''Authorization'' \<mapsto> ''Bearer stolen'']\<rparr>))
     (map lower_char ''Authorization'') = Some ''Bearer secret''"
proof -
  have names: "map lower_char (ua_header sample_auth) \<notin> map lower_char ` {TenantHeader, PriorityHeader}"
    by (simp add: sample_auth_def TenantHeader_def PriorityHeader_def lower_char_def)
  have "inject_leaves (en_inject sample_env) {TenantHeader, PriorityHeader}"
    by (simp add: inject_leaves_def sample_env_def)
  from outbound_header_hygiene [OF this, of "sample_deployment\<lparr>dep_upstream_auth := Some sample_auth\<rparr>"
      sample_auth False "\<lparr>tu_scheme = ''http'', tu_host = ''h'', tu_path = []\<rparr>"
      "sample_hrequest\<lparr>hq_headers := [map lower_char ''Authorization'' \<mapsto> ''Bearer stolen'']\<rparr>"] names
  show ?thesis by (simp add: sample_auth_def sample_env_def Let_def)
qed

text \<open>
  The session header does cross to the engine.  Unlike the tenant and priority headers,
  \<^verbatim>\<open>X-IPlane-Session\<close> is forwarded as the client sent it.
\<close>

theorem session_header_forwarded:
  assumes "inject_leaves (en_inject en) {SessionHeader}" "dep_upstream_auth dep = None"
  shows "ob_headers (proxy_rewrite en dep strip target req) (map lower_char SessionHeader)
    = hq_headers req (map lower_char SessionHeader)"
  using assms header_names_distinct
  by (simp add: proxy_rewrite_def applyUpstreamAuth_def inject_leaves_def header_del_def)

theorem session_header_forwarded_witness:
  "ob_headers (proxy_rewrite sample_env sample_deployment False \<lparr>tu_scheme = ''http'', tu_host = ''h'', tu_path = []\<rparr>
     (sample_hrequest\<lparr>hq_headers := [map lower_char SessionHeader \<mapsto> ''s1'']\<rparr>))
     (map lower_char SessionHeader) = Some ''s1''"
  using session_header_forwarded [of sample_env sample_deployment False
      "\<lparr>tu_scheme = ''http'', tu_host = ''h'', tu_path = []\<rparr>"
      "sample_hrequest\<lparr>hq_headers := [map lower_char SessionHeader \<mapsto> ''s1'']\<rparr>"]
  by (simp add: inject_leaves_def sample_env_def sample_deployment_def zero_deployment_def)

lemma apply_option_cfg:
  "0 \<le> pc_servicers c \<and> 0 \<le> pc_in_flight_cap c \<Longrightarrow>
     0 \<le> pc_servicers (apply_option opt c) \<and> 0 \<le> pc_in_flight_cap (apply_option opt c)"
  by (cases opt) auto

lemma fold_option_cfg:
  "0 \<le> pc_servicers c \<and> 0 \<le> pc_in_flight_cap c \<Longrightarrow>
     0 \<le> pc_servicers (fold apply_option opts c) \<and> 0 \<le> pc_in_flight_cap (fold apply_option opts c)"
proof (induction opts arbitrary: c)
  case (Cons opt opts)
  from Cons.IH [OF apply_option_cfg [OF Cons.prems]] show ?case by simp
qed simp

text \<open>
  No combination of options makes the router's construction panic.  Whatever options
  \<^verbatim>\<open>New\<close> is given, in whatever order and with whatever numbers, the configuration it builds for
  the default scheduler is accepted by \<^verbatim>\<open>NewInteractiveFirst\<close>.
\<close>

theorem router_New_never_panics:
  assumes "router_New opts = Some cfg"
  shows "\<exists>s. NewInteractiveFirst cfg = Some s"
proof -
  have "0 \<le> pc_in_flight_cap (fold apply_option opts empty_cfg)"
    using fold_option_cfg [of empty_cfg opts] by (simp add: empty_cfg_def)
  then show ?thesis using assms
    by (auto simp: router_New_def NewInteractiveFirst_def Let_def split: if_splits)
qed

theorem router_New_never_panics_witness:
  "\<exists>cfg s. router_New [WithInFlightCap (-4), WithBatchQueue 2 7, WithQueue 0 9] = Some cfg
     \<and> NewInteractiveFirst cfg = Some s"
  using router_New_never_panics [of "[WithInFlightCap (-4), WithBatchQueue 2 7, WithQueue 0 9]"]
  by (simp add: router_New_def empty_cfg_def Let_def)

lemma tenantFromContext_nonempty: "tenantFromContext c \<noteq> []"
  by (simp add: tenantFromContext_def DefaultTenantID_def split: option.split)

lemma tenantFromEntry_schedulerEntry [simp]:
  "tenantFromEntry (schedulerEntry rid req dep prio) = tenantFromContext (hq_ctx_tenant req)"
  by (simp add: tenantFromEntry_def schedulerEntry_def tenantFromContext_nonempty)

lemma schedulerEntry_priority [simp]:
  "e_priority (schedulerEntry rid req dep prio) = priorityLabel prio"
  by (simp add: schedulerEntry_def)

text \<open>
  Back-pressure is per tenant and per lane.  With a scheduler configured, a request is
  refused with 503 and \<^verbatim>\<open>Retry-After: 1\<close> exactly when its own tenant's queue on the lane of its
  effective priority is full, refused with 503 when that lane is closed, and otherwise joins
  the queued entries; the routing state is untouched in every case.
\<close>

theorem enqueue_backpressure:
  assumes "lanes_ok s" "prio = effectivePriority (hq_ctx_priority req)"
    and "e = schedulerEntry rid (req\<lparr>hq_ctx_priority := Some prio\<rparr>) dep prio"
    and "ans = push_answer (laneFor (priorityLabel prio) s) (tenantFromContext (hq_ctx_tenant req))"
  shows "\<exists>s'. enqueueOrServe en pick now rid req dep strip st (Some s) =
      ((case ans of
          Inr _ \<Rightarrow> Waiting (StampEnqueued now e)
        | Inl ErrQueueFull \<Rightarrow> Refused (HError 503 ''queue_full'' (Some 1))
        | Inl ErrClosed \<Rightarrow> Refused (HError 503 ''router_shutting_down'' None)
        | Inl ErrCanceled \<Rightarrow> Refused (HError 500 ''internal_error'' None)), st, Some s')
    \<and> lanes_ok s' \<and> queued s' = queued s + (if ans = Inr () then {#StampEnqueued now e#} else {#})"
proof -
  let ?l = "laneFor (priorityLabel prio) s"
  have inv: "lane_invar ?l" using assms(1) by (simp add: lanes_ok_def laneFor_def)
  have te: "tenantFromEntry e = tenantFromContext (hq_ctx_tenant req)" and pr: "e_priority e = priorityLabel prio"
    using assms(3) by simp_all
  obtain ls' where "lane_push (tenantFromEntry e) (StampEnqueued now e) ?l = Some (ans, ls')"
    using lane_push_spec [OF inv] te assms(4) by metis
  then obtain obs s' where sub: "sched_Submit now e s = Some (ans, obs, s')"
    using pr by (cases ans) (auto simp: sched_Submit_def Let_def)
  note E = sched_Submit_effect [OF sub assms(1)]
  have "enqueueOrServe en pick now rid req dep strip st (Some s) =
      ((case ans of
          Inr _ \<Rightarrow> Waiting (StampEnqueued now e)
        | Inl ErrQueueFull \<Rightarrow> Refused (HError 503 ''queue_full'' (Some 1))
        | Inl ErrClosed \<Rightarrow> Refused (HError 503 ''router_shutting_down'' None)
        | Inl ErrCanceled \<Rightarrow> Refused (HError 500 ''internal_error'' None)), st, Some s')"
    using sub assms(2,3) by (simp add: enqueueOrServe_def Let_def split: sum.split qerr.split)
  with E(2,3) show ?thesis by blast
qed

theorem enqueue_backpressure_witness:
  "\<exists>r s'. enqueueOrServe sample_env pa_Pick 5 1 sample_hrequest sample_deployment False sample_rstate (Some sample_sched)
     = (r, sample_rstate, Some s') \<and> lanes_ok s'"
proof -
  have "lanes_ok sample_sched" using sched_init_ok(1) [OF sample_sched_new] by (simp add: sched_ok_def)
  from enqueue_backpressure [OF this refl refl refl] show ?thesis by blast
qed

end
