(* ===== verification/Store.thy ===== *)
theory Store
  imports Records "HOL-Library.List_Lexorder" "HOL-Library.Char_ord"
begin

text \<open>
  The state of record (\<^verbatim>\<open>internal/provisioners/store.go\<close>): instances, deployments and engines by
  id, the rules for ids (\<^verbatim>\<open>provider.go\<close>) and the contract of a store, stated as the locale
  \<open>state_store\<close>: an update whose function fails leaves the state alone and one that succeeds
  installs the function's result.
\<close>

subsection \<open>Records\<close>

record spec =
  sp_id :: gostring
  sp_provider :: gostring
  sp_region :: gostring
  sp_base_image :: gostring
  sp_requirements :: "requirements option"
  sp_volume_ids :: "gostring list"
  sp_tags :: "gostring \<rightharpoonup> gostring"

record ssh_target =
  ssh_host :: gostring
  ssh_port :: int
  ssh_user :: gostring

text \<open>Values of the provider's metadata; the numbers the code reads are integral machine ids.\<close>

datatype meta_value = MetaString gostring | MetaNumber int | MetaOther

text \<open>Hourly rates are only copied and compared with zero; they are kept as integers.\<close>

record inst =
  in_id :: gostring
  in_provider_id :: gostring
  in_provider :: gostring
  in_spec :: "spec option"
  in_region :: gostring
  in_hourly_rate :: rat
  in_state :: instance_state
  in_created_at :: "timestamp option"
  in_activated_at :: "timestamp option"
  in_terminated_at :: "timestamp option"
  in_ssh :: "ssh_target option"
  in_failure_reason :: gostring
  in_metadata :: "gostring \<rightharpoonup> meta_value"

datatype engine_state = EUnspecified | EAssembling | EServing | EServingDegraded | ELost | EDraining

record engine_node =
  nd_index :: int
  nd_host_id :: gostring
  nd_provider :: gostring
  nd_gpu_count :: int

record engine =
  en_id :: gostring
  en_deployment_id :: gostring
  en_model :: gostring
  en_state :: engine_state
  en_endpoint :: gostring
  en_span :: "engine_node list"
  en_registered_at :: "timestamp option"
  en_last_seen_at :: "timestamp option"
  en_lease_expires_at :: "timestamp option"

text \<open>A cache volume of the warm-cache pin registry.\<close>

record volume =
  vol_id :: gostring
  vol_provider :: gostring
  vol_region :: gostring
  vol_name :: gostring
  vol_size_gb :: int
  vol_models :: "gostring list"
  vol_mount_path :: gostring
  vol_host_path :: gostring
  vol_created_at :: "timestamp option"

record state =
  st_instances :: "gostring \<rightharpoonup> inst"
  st_deployments :: "gostring \<rightharpoonup> deployment"
  st_volumes :: "gostring \<rightharpoonup> volume"
  st_engines :: "gostring \<rightharpoonup> engine"

definition NewState :: state where
  "NewState = \<lparr>st_instances = Map.empty, st_deployments = Map.empty, st_volumes = Map.empty,
     st_engines = Map.empty\<rparr>"

subsection \<open>The store\<close>

text \<open>
  The contract of \<^verbatim>\<open>Store\<close> (\<^verbatim>\<open>store.go\<close>): a failed update leaves the store alone, a
  successful one installs what the function made of the current state.  A backend may be unable
  to keep some states (\<open>storable\<close>) and may be in a condition in which it cannot be read
  (\<open>sound\<close>); a successful update keeps it readable.
\<close>

locale state_store =
  fixes read :: "'s \<Rightarrow> state"
    and update :: "(state \<Rightarrow> 'e + state) \<Rightarrow> 's \<Rightarrow> ('e + unit) \<times> 's"
    and sound :: "'s \<Rightarrow> bool"
    and storable :: "state \<Rightarrow> bool"
  assumes update_ok:
      "sound s \<Longrightarrow> fn (read s) = Inr st \<Longrightarrow> storable st \<Longrightarrow>
         fst (update fn s) = Inr () \<and> read (snd (update fn s)) = st \<and> sound (snd (update fn s))"
    and update_err: "sound s \<Longrightarrow> fn (read s) = Inl e \<Longrightarrow> update fn s = (Inl e, s)"
begin

primrec updates :: "(state \<Rightarrow> 'e + state) list \<Rightarrow> 's \<Rightarrow> 's" where
  "updates [] s = s"
| "updates (fn # fns) s = updates fns (snd (update fn s))"

primrec spec_updates :: "(state \<Rightarrow> 'e + state) list \<Rightarrow> state \<Rightarrow> state" where
  "spec_updates [] st = st"
| "spec_updates (fn # fns) st = spec_updates fns (case fn st of Inl e \<Rightarrow> st | Inr st' \<Rightarrow> st')"

text \<open>A sequence of updates acts on the state like the functions themselves.\<close>

lemma updates_refine:
  assumes "sound s" and "\<And>fn st st'. fn \<in> set fns \<Longrightarrow> fn st = Inr st' \<Longrightarrow> storable st'"
  shows "read (updates fns s) = spec_updates fns (read s) \<and> sound (updates fns s)"
  using assms
proof (induction fns arbitrary: s)
  case (Cons fn fns)
  have IH: "read (updates fns s') = spec_updates fns (read s') \<and> sound (updates fns s')"
    if "sound s'" for s'
    using that by (rule Cons.IH) (meson Cons.prems(2) list.set_intros(2))
  show ?case
  proof (cases "fn (read s)")
    case (Inl e)
    with IH [OF Cons.prems(1)] Cons.prems(1) show ?thesis by (simp add: update_err)
  next
    case (Inr st)
    with Cons.prems(2) have "storable st" by (meson list.set_intros(1))
    with Inr Cons.prems(1) have "read (snd (update fn s)) = st \<and> sound (snd (update fn s))"
      using update_ok by blast
    with Inr IH show ?thesis by simp
  qed
qed simp

end

text \<open>A store that keeps the state as it is: the snapshot handed to \<^verbatim>\<open>fn\<close> is the live one.\<close>

definition store_Read :: "state \<Rightarrow> state" where "store_Read s = s"

definition store_Update :: "(state \<Rightarrow> 'e + state) \<Rightarrow> state \<Rightarrow> ('e + unit) \<times> state" where
  "store_Update fn s = (case fn s of Inl e \<Rightarrow> (Inl e, s) | Inr s' \<Rightarrow> (Inr (), s'))"

interpretation live_store: state_store store_Read store_Update "\<lambda>_. True" "\<lambda>_. True"
  by unfold_locales (simp_all add: store_Read_def store_Update_def)

text \<open>An update of one deployment record that does nothing when the record is absent.\<close>

definition update_deployment :: "gostring \<Rightarrow> (deployment \<Rightarrow> deployment) \<Rightarrow> state \<Rightarrow> state" where
  "update_deployment ident f st =
     (case st_deployments st ident of
        None \<Rightarrow> st
      | Some d \<Rightarrow> st\<lparr>st_deployments := (st_deployments st)(ident \<mapsto> f d)\<rparr>)"

definition update_instance :: "gostring \<Rightarrow> (inst \<Rightarrow> inst) \<Rightarrow> state \<Rightarrow> state" where
  "update_instance ident f st =
     (case st_instances st ident of
        None \<Rightarrow> st
      | Some i \<Rightarrow> st\<lparr>st_instances := (st_instances st)(ident \<mapsto> f i)\<rparr>)"

lemma update_deployment_lookup [store_simps, simp]:
  "st_deployments (update_deployment ident f st) k =
     (if k = ident then map_option f (st_deployments st ident) else st_deployments st k)"
  "st_instances (update_deployment ident f st) = st_instances st"
  "st_engines (update_deployment ident f st) = st_engines st"
  "st_volumes (update_deployment ident f st) = st_volumes st"
  by (auto simp: update_deployment_def split: option.split)

lemma update_instance_lookup [store_simps, simp]:
  "st_instances (update_instance ident f st) k =
     (if k = ident then map_option f (st_instances st ident) else st_instances st k)"
  "st_deployments (update_instance ident f st) = st_deployments st"
  "st_engines (update_instance ident f st) = st_engines st"
  "st_volumes (update_instance ident f st) = st_volumes st"
  by (auto simp: update_instance_def split: option.split)

subsection \<open>Identifiers\<close>

definition ReservedIDPrefix :: gostring where "ReservedIDPrefix = ''iplane-''"

definition ProviderExternal :: gostring where "ProviderExternal = ''external''"

definition is_digit :: "char \<Rightarrow> bool" where
  "is_digit c \<longleftrightarrow> CHR ''0'' \<le> c \<and> c \<le> CHR ''9''"

definition is_alnum :: "char \<Rightarrow> bool" where
  "is_alnum c \<longleftrightarrow> CHR ''a'' \<le> c \<and> c \<le> CHR ''z'' \<or> is_digit c"

text \<open>\<^verbatim>\<open>idPattern\<close>: one alphanumeric, or two of them around at most 61 alphanumerics and hyphens.\<close>

definition idPattern :: "gostring \<Rightarrow> bool" where
  "idPattern s \<longleftrightarrow>
     s \<noteq> [] \<and> length s \<le> 63 \<and> is_alnum (hd s) \<and> is_alnum (last s)
     \<and> list_all (\<lambda>c. is_alnum c \<or> c = CHR ''-'') s"

definition ValidateID :: "gostring \<Rightarrow> bool" where
  "ValidateID ident \<longleftrightarrow> ident \<noteq> [] \<and> \<not> has_prefix ident ReservedIDPrefix \<and> idPattern ident"

text \<open>\<^verbatim>\<open>%d\<close> for a natural number.\<close>

function dec :: "nat \<Rightarrow> gostring" where
  "dec n = (if n < 10 then [char_of (48 + n)] else dec (n div 10) @ [char_of (48 + n mod 10)])"
  by pat_completeness auto
termination by (relation "measure id") auto

declare dec.simps [simp del]

lemma of_char_digit: "k < 10 \<Longrightarrow> of_char (char_of (48 + k) :: char) = (48 + k :: nat)"
  by (simp add: of_char_of)

lemma digit_char: "k < 10 \<Longrightarrow> is_digit (char_of (48 + k :: nat))"
  by (simp add: is_digit_def less_eq_char_def of_char_digit)

lemma dec_digits: "list_all is_digit (dec n)"
  by (induction n rule: dec.induct) (subst dec.simps, simp add: digit_char)

lemma dec_nonempty: "dec n \<noteq> []"
  by (subst dec.simps) simp

fun undec :: "nat \<Rightarrow> gostring \<Rightarrow> nat" where
  "undec acc [] = acc"
| "undec acc (c # cs) = undec (acc * 10 + (of_char c - 48)) cs"

lemma undec_append: "undec acc (xs @ ys) = undec (undec acc xs) ys"
  by (induction xs arbitrary: acc) simp_all

lemma undec_dec: "undec 0 (dec n) = n"
proof (induction n rule: dec.induct)
  case (1 n)
  show ?case
  proof (cases "n < 10")
    case True
    then show ?thesis by (subst dec.simps) (simp add: of_char_digit)
  next
    case False
    with 1 show ?thesis by (subst dec.simps) (simp add: undec_append of_char_digit)
  qed
qed

lemma dec_inj: "dec m = dec n \<Longrightarrow> m = n"
  using undec_dec by metis

text \<open>\<^verbatim>\<open>strconv.Atoi\<close>: an optional sign and digits, within 64 bits.\<close>

definition go_atoi :: "gostring \<Rightarrow> int option" where
  "go_atoi s =
     (let (neg, ds) = (case s of
          c # cs \<Rightarrow> if c = CHR ''-'' then (True, cs) else if c = CHR ''+'' then (False, cs) else (False, s)
        | [] \<Rightarrow> (False, []));
        n = (if neg then - int (undec 0 ds) else int (undec 0 ds)) in
      if ds \<noteq> [] \<and> list_all is_digit ds \<and> min_int64 \<le> n \<and> n \<le> max_int64 then Some n else None)"

lemma go_atoi_dec:
  assumes "int n \<le> max_int64"
  shows "go_atoi (dec n) = Some (int n)"
proof -
  obtain c cs where c: "dec n = c # cs" "is_digit c"
    using dec_nonempty [of n] dec_digits [of n] by (cases "dec n") (auto simp del: dec.simps)
  then have "c \<noteq> CHR ''-''" "c \<noteq> CHR ''+''"
    by (auto simp: is_digit_def less_eq_char_def)
  then show ?thesis
    using assms c(1) dec_digits [of n] undec_dec [of n] by (auto simp: go_atoi_def min_int64_def)
qed

end
