(* ===== verification/Deployment_Ops.thy ===== *)
theory Deployment_Ops
  imports Store Router_Select
begin

text \<open>
  The operations of the deployment service that change the state of record
  (\<^verbatim>\<open>internal/provisioners/service.go\<close>): patching, touching, quarantining and restoring,
  listing, describing and destroying, and the naming rules of \<^verbatim>\<open>fanout.go\<close> that decide which
  instances a deployment owns.  Providers, the key store and the deployer are arguments; the
  store's own I/O errors are not modelled.
\<close>

subsection \<open>Names of instances\<close>

definition replicaInstanceID :: "gostring \<Rightarrow> nat \<Rightarrow> nat \<Rightarrow> gostring" where
  "replicaInstanceID deployID slot totalSlots =
     (if totalSlots = 1 then deployID else deployID @ ''-r'' @ dec slot)"

definition nodeInstanceID :: "gostring \<Rightarrow> nat \<Rightarrow> nat \<Rightarrow> gostring" where
  "nodeInstanceID memberID node totalNodes =
     (if totalNodes \<le> 1 then memberID else memberID @ ''-n'' @ dec node)"

definition ownsInstance :: "gostring \<Rightarrow> gostring \<Rightarrow> bool" where
  "ownsInstance deployID instanceID \<longleftrightarrow>
     instanceID = deployID
     \<or> (case cut_prefix instanceID (deployID @ ''-r'') of
          None \<Rightarrow> False
        | Some suffix \<Rightarrow> suffix \<noteq> [] \<and> list_all is_digit suffix)"

subsection \<open>Patching\<close>

record dupdate =
  du_state :: deployment_state
  du_phase :: gostring
  du_progress :: gostring
  du_container :: gostring
  du_endpoint :: gostring
  du_failure :: gostring
  du_rate :: rat
  du_ssh :: "ssh_target option"

definition state_update :: "deployment_state \<Rightarrow> gostring \<Rightarrow> gostring \<Rightarrow> dupdate" where
  "state_update s progress failure =
     \<lparr>du_state = s, du_phase = [], du_progress = progress, du_container = [], du_endpoint = [],
      du_failure = failure, du_rate = 0, du_ssh = None\<rparr>"

definition stamp_once :: "timestamp \<Rightarrow> timestamp option \<Rightarrow> timestamp option" where
  "stamp_once now t = (case t of None \<Rightarrow> Some now | Some v \<Rightarrow> Some v)"

definition stamp_state :: "deployment_state \<Rightarrow> timestamp \<Rightarrow> deployment \<Rightarrow> deployment" where
  "stamp_state s now rec =
     (case s of
        DStarting \<Rightarrow> rec\<lparr>dep_started_at := stamp_once now (dep_started_at rec)\<rparr>
      | DRunning \<Rightarrow> rec\<lparr>dep_ready_at := stamp_once now (dep_ready_at rec)\<rparr>
      | DTerminated \<Rightarrow> rec\<lparr>dep_terminated_at := stamp_once now (dep_terminated_at rec)\<rparr>
      | _ \<Rightarrow> rec)"

fun set_first_endpoint :: "gostring \<Rightarrow> backing list \<Rightarrow> backing list" where
  "set_first_endpoint ep [] = []"
| "set_first_endpoint ep (r # rs) = r\<lparr>rb_endpoint := ep\<rparr> # rs"

definition stamp_endpoint :: "gostring \<Rightarrow> deployment \<Rightarrow> deployment" where
  "stamp_endpoint ep rec =
     (if ep = [] then rec
      else
        (let reps = (if dep_replicas rec = []
                     then [\<lparr>rb_instance_ids = [dep_instance_id rec], rb_endpoint = []\<rparr>]
                     else dep_replicas rec)
         in rec\<lparr>dep_engine_endpoint := ep, dep_replicas := set_first_endpoint ep reps\<rparr>))"

definition patch_record :: "dupdate \<Rightarrow> timestamp \<Rightarrow> deployment \<Rightarrow> deployment" where
  "patch_record u now rec =
     (let r1 = rec\<lparr>dep_state := du_state u, dep_current_phase := du_phase u,
                    dep_progress_message := du_progress u\<rparr>;
          r2 = (if du_container u \<noteq> [] then r1\<lparr>dep_container_id := du_container u\<rparr> else r1);
          r3 = stamp_endpoint (du_endpoint u) r2;
          r4 = (if du_failure u \<noteq> [] then r3\<lparr>dep_failure_reason := du_failure u\<rparr> else r3)
      in stamp_state (du_state u) now r4)"

definition set_provider_id :: "gostring \<Rightarrow> inst \<Rightarrow> inst" where
  "set_provider_id c i = (if in_provider_id i = [] then i\<lparr>in_provider_id := c\<rparr> else i)"

definition patchDeployment :: "gostring \<Rightarrow> dupdate \<Rightarrow> timestamp \<Rightarrow> state \<Rightarrow> state" where
  "patchDeployment ident u now st =
     (case st_deployments st ident of
        None \<Rightarrow> st
      | Some rec \<Rightarrow>
          (let st1 = update_deployment ident (patch_record u now) st;
               st2 = (if du_container u \<noteq> []
                      then update_instance ident (set_provider_id (du_container u)) st1 else st1);
               instID = (if dep_instance_id rec = [] then ident else dep_instance_id rec)
           in if du_rate u > 0
              then update_instance instID (\<lambda>i. i\<lparr>in_hourly_rate := du_rate u\<rparr>) st2 else st2))"

subsection \<open>Touching, quarantining, listing\<close>

datatype dserr = DInvalidArgument | DNotFound | DFailedPrecondition | DInternal

record touch_state =
  ts_store :: state
  ts_seen :: "gostring \<rightharpoonup> timestamp"

definition TouchDeployment ::
  "duration \<Rightarrow> timestamp \<Rightarrow> gostring \<Rightarrow> touch_state \<Rightarrow> (dserr + deployment option) \<times> touch_state" where
  "TouchDeployment interval now ident s =
     (if \<not> ValidateID ident then (Inl DInvalidArgument, s)
      else if interval > 0 \<and> (case ts_seen s ident of Some t \<Rightarrow> time_sub now t < interval | None \<Rightarrow> False)
      then (Inr None, s)
      else
        (case st_deployments (ts_store s) ident of
           None \<Rightarrow> (Inl DNotFound, s)
         | Some d \<Rightarrow>
             (let d' = d\<lparr>dep_last_activity_at := Some now\<rparr>
              in (Inr (Some d'),
                  s\<lparr>ts_store := update_deployment ident (\<lambda>_. d') (ts_store s),
                    ts_seen := (ts_seen s)(ident \<mapsto> now)\<rparr>))))"

definition Quarantine :: "gostring \<Rightarrow> gostring \<Rightarrow> state \<Rightarrow> state" where
  "Quarantine deployID instanceID st =
     (if deployID = [] \<or> instanceID = [] then st
      else update_deployment deployID
        (\<lambda>d. if instanceID \<in> set (dep_unhealthy d) then d
             else d\<lparr>dep_unhealthy := dep_unhealthy d @ [instanceID]\<rparr>) st)"

definition Restore :: "gostring \<Rightarrow> gostring \<Rightarrow> state \<Rightarrow> state" where
  "Restore deployID instanceID st =
     (if deployID = [] \<or> instanceID = [] then st
      else update_deployment deployID
        (\<lambda>d. d\<lparr>dep_unhealthy := remove1 instanceID (dep_unhealthy d)\<rparr>) st)"

definition DescribeDeployment :: "gostring \<Rightarrow> state \<Rightarrow> dserr + deployment" where
  "DescribeDeployment ident st =
     (if \<not> ValidateID ident then Inl DInvalidArgument
      else (case st_deployments st ident of None \<Rightarrow> Inl DNotFound | Some d \<Rightarrow> Inr d))"

text \<open>\<open>order\<close> is the order in which the map is visited.\<close>

definition ListDeployments :: "gostring list \<Rightarrow> gostring \<Rightarrow> deployment_state \<Rightarrow> state \<Rightarrow> deployment list" where
  "ListDeployments order instanceFilter stateFilter st =
     filter (\<lambda>d. (instanceFilter = [] \<or> dep_instance_id d = instanceFilter)
               \<and> (stateFilter = DUnspecified \<or> dep_state d = stateFilter))
       (List.map_filter (st_deployments st) order)"

subsection \<open>Destroying\<close>

text \<open>
  The deployer's \<^verbatim>\<open>Destroy\<close> returns the updates it emits and an error text (empty on success);
  \<^verbatim>\<open>EnsureKeyPair\<close> and \<^verbatim>\<open>Terminate\<close> return an error text.
\<close>

record svc =
  sv_keystore_nil :: bool
  sv_ensure_key :: "gostring \<Rightarrow> gostring"
  sv_destroy :: "deployment \<Rightarrow> inst \<Rightarrow> dupdate list \<times> gostring"
  sv_providers :: "gostring \<Rightarrow> bool"
  sv_terminate :: "gostring \<Rightarrow> gostring \<Rightarrow> gostring"

definition releaseRental :: "svc \<Rightarrow> gostring \<Rightarrow> inst \<Rightarrow> gostring" where
  "releaseRental sv deployID i =
     (if \<not> ownsInstance deployID (in_id i) then []
      else if in_provider_id i = [] then []
      else if \<not> sv_providers sv (in_provider i) then ''provider not configured''
      else sv_terminate sv (in_provider i) (in_provider_id i))"

definition markInstanceTerminated :: "timestamp \<Rightarrow> gostring \<Rightarrow> gostring \<Rightarrow> state \<Rightarrow> state" where
  "markInstanceTerminated now deployID instanceID st =
     (if \<not> ownsInstance deployID instanceID then st
      else
        (case st_instances st instanceID of
           None \<Rightarrow> st
         | Some cur \<Rightarrow>
             if in_state cur = ITerminated then st
             else st\<lparr>st_instances := (st_instances st)(instanceID \<mapsto>
                        cur\<lparr>in_state := ITerminated, in_terminated_at := Some now\<rparr>)\<rparr>))"

fun destroy_loop ::
  "svc \<Rightarrow> timestamp \<Rightarrow> gostring \<Rightarrow> deployment \<Rightarrow> (gostring \<rightharpoonup> inst) \<Rightarrow> gostring list \<Rightarrow> gostring list
   \<Rightarrow> state \<Rightarrow> gostring list \<times> state" where
  "destroy_loop sv now ident rec insts [] failures st = (failures, st)"
| "destroy_loop sv now ident rec insts (instID # ids) failures st =
     (if instID = [] then destroy_loop sv now ident rec insts ids failures st
      else
        (case insts instID of
           None \<Rightarrow> destroy_loop sv now ident rec insts ids failures st
         | Some i \<Rightarrow>
             if sv_ensure_key sv (in_provider i) \<noteq> [] then
               destroy_loop sv now ident rec insts ids
                 (failures @ [instID @ '': load ssh key: '' @ sv_ensure_key sv (in_provider i)]) st
             else
               (case sv_destroy sv rec i of
                  (updates, err) \<Rightarrow>
                    (let st1 = fold (\<lambda>u. patchDeployment ident u now) updates st
                     in if err \<noteq> [] then
                          destroy_loop sv now ident rec insts ids (failures @ [instID @ '': '' @ err]) st1
                        else if releaseRental sv ident i \<noteq> [] then
                          destroy_loop sv now ident rec insts ids
                            (failures @ [instID @ '': release rental: '' @ releaseRental sv ident i]) st1
                        else
                          destroy_loop sv now ident rec insts ids failures
                            (markInstanceTerminated now ident instID st1)))))"

fun join_with :: "gostring \<Rightarrow> gostring list \<Rightarrow> gostring" where
  "join_with sep [] = []"
| "join_with sep [x] = x"
| "join_with sep (x # y # ys) = x @ sep @ join_with sep (y # ys)"

definition DestroyDeployment ::
  "svc \<Rightarrow> timestamp \<Rightarrow> gostring \<Rightarrow> state \<Rightarrow> (dserr + deployment) \<times> state" where
  "DestroyDeployment sv now ident st =
     (if \<not> ValidateID ident then (Inl DInvalidArgument, st)
      else
        (case st_deployments st ident of
           None \<Rightarrow> (Inl DNotFound, st)
         | Some existing \<Rightarrow>
             if dep_state existing = DTerminated then (Inr existing, st)
             else
               (let rec = existing\<lparr>dep_state := DTerminating\<rparr>;
                    st1 = update_deployment ident (\<lambda>_. rec) st;
                    ids = EffectiveInstanceIDs rec
                in if ids = [] then
                     (let st2 = patchDeployment ident
                        (state_update DTerminated ''no instances recorded; marked terminated locally'' []) now st1
                      in (Inr (the (st_deployments st2 ident)), st2))
                   else if sv_keystore_nil sv then (Inl DFailedPrecondition, st1)
                   else
                     (case destroy_loop sv now ident rec (st_instances st1) ids [] st1 of
                        (failures, st2) \<Rightarrow>
                          if failures \<noteq> [] then
                            (Inl DInternal, patchDeployment ident (state_update DTerminating
                               (dec (length failures) @ '' of '' @ dec (length ids) @ '' replicas failed to destroy; retry to converge'')
                               (join_with ''; '' failures)) now st2)
                          else
                            (let st3 = patchDeployment ident (state_update DTerminated
                               (dec (length ids) @ '' replica(s) destroyed'') []) now st2
                             in (Inr (the (st_deployments st3 ident)), st3))))))"

subsection \<open>Lemmas on names\<close>

lemma owns_self [simp]: "ownsInstance d d"
  by (simp add: ownsInstance_def)

lemma owns_replica: "ownsInstance d (replicaInstanceID d slot tot)"
proof (cases "tot = 1")
  case False
  have "cut_prefix ((d @ ''-r'') @ dec slot) (d @ ''-r'') = Some (dec slot)" by (rule cut_prefix_append)
  then show ?thesis using False dec_nonempty dec_digits by (simp add: ownsInstance_def replicaInstanceID_def)
qed (simp add: replicaInstanceID_def)

lemma hyphen_not_digit: "\<not> is_digit (CHR ''-'')"
  by (simp add: is_digit_def less_eq_char_def)

lemma not_owns_node:
  assumes "1 < totalNodes"
  shows "\<not> ownsInstance d (nodeInstanceID (replicaInstanceID d slot tot) node totalNodes)"
proof (cases "tot = 1")
  case True
  have "cut_prefix (d @ ''-n'' @ dec node) (d @ ''-r'') = None"
    by (cases "cut_prefix (d @ ''-n'' @ dec node) (d @ ''-r'')") (auto simp: cut_prefix_Some)
  then show ?thesis using True assms by (simp add: ownsInstance_def nodeInstanceID_def replicaInstanceID_def)
next
  case False
  let ?suf = "dec slot @ ''-n'' @ dec node"
  have "cut_prefix ((d @ ''-r'') @ ?suf) (d @ ''-r'') = Some ?suf" by (rule cut_prefix_append)
  moreover have "\<not> list_all is_digit ?suf" by (simp add: hyphen_not_digit)
  ultimately show ?thesis using False assms
    by (simp add: ownsInstance_def nodeInstanceID_def replicaInstanceID_def)
qed

subsection \<open>Lemmas on patching and destroying\<close>

lemma stamp_state_frame [simp]:
  "dep_state (stamp_state s now r) = dep_state r" "dep_failure_reason (stamp_state s now r) = dep_failure_reason r"
  "dep_id (stamp_state s now r) = dep_id r" "dep_unhealthy (stamp_state s now r) = dep_unhealthy r"
  by (cases s; simp add: stamp_state_def)+

lemma stamp_endpoint_frame [simp]:
  "dep_state (stamp_endpoint ep r) = dep_state r" "dep_failure_reason (stamp_endpoint ep r) = dep_failure_reason r"
  "dep_id (stamp_endpoint ep r) = dep_id r" "dep_unhealthy (stamp_endpoint ep r) = dep_unhealthy r"
  by (simp_all add: stamp_endpoint_def Let_def)

lemma patch_record_state [simp]: "dep_state (patch_record u now r) = du_state u"
  by (simp add: patch_record_def Let_def)


lemma set_provider_id_state [simp]: "in_state (set_provider_id c i) = in_state i"
  by (simp add: set_provider_id_def)

lemma patchDeployment_deployments [store_simps]:
  "st_deployments (patchDeployment ident u now st) =
     (case st_deployments st ident of None \<Rightarrow> st_deployments st
      | Some r \<Rightarrow> (st_deployments st)(ident \<mapsto> patch_record u now r))"
  by (auto simp: patchDeployment_def Let_def fun_eq_iff split: option.split)

lemma patchDeployment_instance_state [store_simps]:
  "map_option in_state (st_instances (patchDeployment ident u now st) k) = map_option in_state (st_instances st k)"
  by (auto simp: patchDeployment_def Let_def option.map_comp comp_def split: option.split)

lemma patchDeployment_has:
  "st_deployments st ident \<noteq> None \<Longrightarrow> st_deployments (patchDeployment ident u now st) ident \<noteq> None"
  by (auto simp: patchDeployment_deployments split: option.split)

lemma patches_has:
  "st_deployments st ident \<noteq> None \<Longrightarrow>
     st_deployments (fold (\<lambda>u. patchDeployment ident u now) us st) ident \<noteq> None"
proof (induction us arbitrary: st)
  case (Cons u us)
  from Cons.IH [OF patchDeployment_has [OF Cons.prems]] show ?case by simp
qed simp

lemma patches_instance_state:
  "map_option in_state (st_instances (fold (\<lambda>u. patchDeployment ident u now) us st) k)
     = map_option in_state (st_instances st k)"
  by (induction us arbitrary: st) (simp_all add: patchDeployment_instance_state)

lemma mark_frame [simp]: "st_deployments (markInstanceTerminated now d k st) = st_deployments st"
  by (simp add: markInstanceTerminated_def split: option.split)

lemma mark_state:
  "map_option in_state (st_instances (markInstanceTerminated now d k st) j) =
     (if j = k \<and> ownsInstance d k then map_option (\<lambda>_. ITerminated) (st_instances st j)
      else map_option in_state (st_instances st j))"
  by (auto simp: markInstanceTerminated_def split: option.split)

text \<open>What the loop does to the states of the instances.\<close>

lemma destroy_loop_unowned:
  "destroy_loop sv now ident rec insts ids fs st = (fs', st') \<Longrightarrow> \<not> ownsInstance ident k \<Longrightarrow>
     map_option in_state (st_instances st' k) = map_option in_state (st_instances st k)"
  by (induction sv now ident rec insts ids fs st rule: destroy_loop.induct)
    (auto simp: Let_def mark_state patches_instance_state split: if_splits option.splits prod.splits)

lemma destroy_loop_has:
  "destroy_loop sv now ident rec insts ids fs st = (fs', st') \<Longrightarrow> st_deployments st ident \<noteq> None \<Longrightarrow>
     st_deployments st' ident \<noteq> None"
  by (induction sv now ident rec insts ids fs st rule: destroy_loop.induct)
    (auto simp: Let_def patches_has split: if_splits option.splits prod.splits)

lemma destroy_loop_terminated_stays:
  "destroy_loop sv now ident rec insts ids fs st = (fs', st') \<Longrightarrow>
     map_option in_state (st_instances st k) = Some ITerminated \<Longrightarrow>
     map_option in_state (st_instances st' k) = Some ITerminated"
proof (induction sv now ident rec insts ids fs st rule: destroy_loop.induct)
  case (2 sv now ident rec insts instID ids fs st)
  have m: "map_option in_state (st_instances (markInstanceTerminated now ident instID
      (fold (\<lambda>u. patchDeployment ident u now) us st)) k) = Some ITerminated" for us
    using 2(8) patches_instance_state [of ident now us st k]
    by (auto simp: mark_state)
  have p: "map_option in_state (st_instances (fold (\<lambda>u. patchDeployment ident u now) us st) k) = Some ITerminated" for us
    using 2(8) patches_instance_state [of ident now us st k] by simp
  from 2 m p show ?case
    by (auto simp: Let_def split: if_splits option.splits prod.splits)
qed simp

text \<open>Every call the loop makes succeeds.\<close>

definition calls_succeed :: "svc \<Rightarrow> gostring \<Rightarrow> deployment \<Rightarrow> (gostring \<rightharpoonup> inst) \<Rightarrow> gostring list \<Rightarrow> bool" where
  "calls_succeed sv ident rec insts ids \<longleftrightarrow>
     (\<forall>k\<in>set ids. \<forall>i. insts k = Some i \<longrightarrow>
        sv_ensure_key sv (in_provider i) = [] \<and> snd (sv_destroy sv rec i) = [] \<and> releaseRental sv ident i = [])"

lemma map_option_none_iff: "map_option f x = map_option f y \<Longrightarrow> (x = None) = (y = None)"
  by (cases x; cases y) auto

lemma calls_succeed_tl: "calls_succeed sv ident rec insts (k # ids) \<Longrightarrow> calls_succeed sv ident rec insts ids"
  by (simp add: calls_succeed_def)

lemma destroy_loop_success:
  "destroy_loop sv now ident rec insts ids fs st = (fs', st') \<Longrightarrow>
   calls_succeed sv ident rec insts ids \<Longrightarrow> fs' = fs"
proof (induction sv now ident rec insts ids fs st rule: destroy_loop.induct)
  case (2 sv now ident rec insts instID ids fs st)
  from 2(8) have cs: "calls_succeed sv ident rec insts ids" by (rule calls_succeed_tl)
  from 2 cs show ?case
    by (auto simp: calls_succeed_def Let_def split: if_splits option.splits prod.splits)
qed simp

lemma destroy_loop_skip:
  "instID = [] \<or> insts instID = None \<Longrightarrow>
     destroy_loop sv now ident rec insts (instID # ids) fs st = destroy_loop sv now ident rec insts ids fs st"
  by (cases "instID = []") simp_all

lemma destroy_loop_step:
  assumes "calls_succeed sv ident rec insts (instID # ids)" "insts instID = Some i" "instID \<noteq> []"
  shows "destroy_loop sv now ident rec insts (instID # ids) fs st =
    destroy_loop sv now ident rec insts ids fs (markInstanceTerminated now ident instID
      (fold (\<lambda>u. patchDeployment ident u now) (fst (sv_destroy sv rec i)) st))"
  using assms by (cases "sv_destroy sv rec i") (simp add: calls_succeed_def)

declare destroy_loop.simps(2) [simp del]

lemma destroy_loop_terminates_owned:
  "calls_succeed sv ident rec insts ids \<Longrightarrow> k \<in> set ids \<Longrightarrow> k \<noteq> [] \<Longrightarrow> ownsInstance ident k \<Longrightarrow>
   insts k \<noteq> None \<Longrightarrow> st_instances st k \<noteq> None \<Longrightarrow>
   map_option in_state (st_instances (snd (destroy_loop sv now ident rec insts ids fs st)) k) = Some ITerminated"
proof (induction ids arbitrary: fs st)
  case (Cons instID ids)
  have cs: "calls_succeed sv ident rec insts ids" using Cons.prems(1) by (rule calls_succeed_tl)
  show ?case
  proof (cases "instID = [] \<or> insts instID = None")
    case True
    then have "k \<in> set ids" using Cons.prems(2,3,5) by auto
    from Cons.IH [OF cs this Cons.prems(3-6)] show ?thesis
      by (subst destroy_loop_skip) (use True in auto)
  next
    case False
    then obtain i where i: "insts instID = Some i" "instID \<noteq> []" by auto
    let ?st1 = "fold (\<lambda>u. patchDeployment ident u now) (fst (sv_destroy sv rec i)) st"
    let ?st2 = "markInstanceTerminated now ident instID ?st1"
    have p1: "st_instances ?st1 k \<noteq> None"
      unfolding map_option_none_iff [OF patches_instance_state] by (rule Cons.prems(6))
    show ?thesis
    proof (cases "k = instID")
      case True
      have "map_option in_state (st_instances ?st2 k) = Some ITerminated"
        unfolding mark_state using p1 True Cons.prems(4) by simp
      then show ?thesis unfolding destroy_loop_step [where insts = insts and instID = instID, OF Cons.prems(1) i]
        by (rule destroy_loop_terminated_stays [OF surjective_pairing])
    next
      case False
      then have k: "k \<in> set ids" using Cons.prems(2) by simp
      have "map_option in_state (st_instances ?st2 k) = map_option in_state (st_instances ?st1 k)"
        using False by (simp add: mark_state)
      from map_option_none_iff [OF this] have "st_instances ?st2 k \<noteq> None" using p1 by simp
      from Cons.IH [OF cs k Cons.prems(3-5) this] show ?thesis
        unfolding destroy_loop_step [where insts = insts and instID = instID, OF Cons.prems(1) i] .
    qed
  qed
qed simp

subsection \<open>Properties of the deployment service\<close>

lemma patch_lookup:
  "st_deployments st ident \<noteq> None \<Longrightarrow>
     \<exists>r. st_deployments st ident = Some r
       \<and> st_deployments (patchDeployment ident u now st) ident = Some (patch_record u now r)"
  by (auto simp: patchDeployment_deployments)

text \<open>The names a deployment gives its own machines: its id alone, or with the number of a replica.\<close>

definition named_after :: "gostring \<Rightarrow> gostring \<Rightarrow> bool" where
  "named_after ident k \<longleftrightarrow> k = ident \<or> (\<exists>digits. digits \<noteq> [] \<and> (\<forall>c \<in> set digits. CHR ''0'' \<le> c \<and> c \<le> CHR ''9'') \<and> k = ident @ ''-r'' @ digits)"

lemma named_after_iff: "named_after ident k \<longleftrightarrow> ownsInstance ident k"
  using cut_prefix_append [of "ident @ ''-r''"] cut_prefix_Some [of k "ident @ ''-r''"]
  by (auto simp: named_after_def ownsInstance_def list_all_iff is_digit_def split: option.splits)

lemma destroy_unowned:
  assumes "\<not> ownsInstance ident k"
  shows "map_option in_state (st_instances (snd (DestroyDeployment sv now ident st)) k) =
    map_option in_state (st_instances st k)"
  by (auto simp: DestroyDeployment_def Let_def patchDeployment_instance_state
      dest: destroy_loop_unowned [OF _ assms] split: option.split prod.split)

text \<open>
  C8: a destroy that succeeds terminates the deployment and its own machines.  With a key store,
  and when every key, destroy and release call succeeds, \<^verbatim>\<open>DestroyDeployment\<close> returns the record in
  state TERMINATED; of the machines the record lists, those named after the deployment (its id, or
  its id, \<open>-r\<close> and digits) are TERMINATED too, and no machine named otherwise changes state.  The nodes
  of a multi-node member are named otherwise (\<open>destroy_leaves_nodes\<close>).
\<close>

theorem destroy_success_terminates:
  assumes "ValidateID ident" "st_deployments st ident = Some dep" "dep_state dep \<noteq> DTerminated"
    and "\<not> sv_keystore_nil sv"
    and "calls_succeed sv ident (dep\<lparr>dep_state := DTerminating\<rparr>) (st_instances st) (EffectiveInstanceIDs dep)"
    and "DestroyDeployment sv now ident st = (r, st')"
  shows "\<exists>d. r = Inr d \<and> st_deployments st' ident = Some d \<and> dep_state d = DTerminated
    \<and> (\<forall>k. if named_after ident k then k \<in> set (EffectiveInstanceIDs dep) \<and> k \<noteq> [] \<and> st_instances st k \<noteq> None
           \<longrightarrow> map_option in_state (st_instances st' k) = Some ITerminated
         else map_option in_state (st_instances st' k) = map_option in_state (st_instances st k))"
proof -
  let ?rec = "dep\<lparr>dep_state := DTerminating\<rparr>"
  let ?st1 = "update_deployment ident (\<lambda>_. ?rec) st"
  have ids: "EffectiveInstanceIDs ?rec = EffectiveInstanceIDs dep"
    by (simp add: EffectiveInstanceIDs_def Let_def)
  have has1: "st_deployments ?st1 ident \<noteq> None" using assms(2) by simp
  have others: "map_option in_state (st_instances st' k) = map_option in_state (st_instances st k)" if "\<not> named_after ident k" for k
    using destroy_unowned [of ident k sv now st] that assms(6) by (simp add: named_after_iff)
  show ?thesis
  proof (cases "EffectiveInstanceIDs dep = []")
    case True
    from assms(6,1-3) True ids patch_lookup [OF has1, where now = now
        and u = "state_update DTerminated ''no instances recorded; marked terminated locally'' []"]
    show ?thesis using others by (auto simp: DestroyDeployment_def Let_def state_update_def)
  next
    case False
    obtain fs st2 where run: "destroy_loop sv now ident ?rec (st_instances ?st1) (EffectiveInstanceIDs dep) [] ?st1 = (fs, st2)"
      by fastforce
    have cs: "calls_succeed sv ident ?rec (st_instances ?st1) (EffectiveInstanceIDs dep)" using assms(5) by simp
    have fs: "fs = []" by (rule destroy_loop_success [OF run cs])
    let ?u = "state_update DTerminated (dec (length (EffectiveInstanceIDs dep)) @ '' replica(s) destroyed'') []"
    have st': "st' = patchDeployment ident ?u now st2" and r: "r = Inr (the (st_deployments st' ident))"
      using assms(1-4,6) False ids run fs by (auto simp: DestroyDeployment_def Let_def)
    obtain d where d: "st_deployments st' ident = Some d" "dep_state d = DTerminated"
      using patch_lookup [OF destroy_loop_has [OF run has1], where u = ?u and now = now] st'
      by (auto simp: state_update_def)
    have "map_option in_state (st_instances st' k) = Some ITerminated"
      if "k \<in> set (EffectiveInstanceIDs dep)" "k \<noteq> []" "ownsInstance ident k" "st_instances st k \<noteq> None" for k
      using destroy_loop_terminates_owned [OF cs that(1-3), where st = ?st1 and fs = "[]" and now = now] that(4) run st'
      by (simp add: patchDeployment_instance_state)
    with r d others show ?thesis by (auto simp: named_after_iff)
  qed
qed

definition sample_instance :: inst where
  "sample_instance =
     \<lparr>in_id = ''d'', in_provider_id = ''pod'', in_provider = ''p'', in_spec = None, in_region = [],
      in_hourly_rate = 0, in_state = IActive, in_created_at = None, in_activated_at = None,
      in_terminated_at = None, in_ssh = None, in_failure_reason = [], in_metadata = Map.empty\<rparr>"

definition sample_single :: deployment where
  "sample_single = zero_deployment\<lparr>dep_id := ''d'', dep_instance_id := ''d'', dep_state := DRunning\<rparr>"

definition sample_state :: state where
  "sample_state = \<lparr>st_instances = [''d'' \<mapsto> sample_instance], st_deployments = [''d'' \<mapsto> sample_single],
     st_volumes = Map.empty, st_engines = Map.empty\<rparr>"

definition sample_svc :: "gostring \<Rightarrow> svc" where
  "sample_svc err =
     \<lparr>sv_keystore_nil = False, sv_ensure_key = (\<lambda>_. []),
      sv_destroy = (\<lambda>d i. ([state_update DTerminating ''stopping'' []], err)),
      sv_providers = (\<lambda>_. True), sv_terminate = (\<lambda>_ _. [])\<rparr>"

lemma valid_d [simp]: "ValidateID ''d''"
  by code_simp

lemma sample_ids: "EffectiveInstanceIDs sample_single = [''d'']"
  by (simp add: EffectiveInstanceIDs_def sample_single_def zero_deployment_def)

theorem destroy_success_terminates_witness:
  "\<exists>d. fst (DestroyDeployment (sample_svc []) 7 ''d'' sample_state) = Inr d \<and> dep_state d = DTerminated"
proof -
  obtain r st' where run: "DestroyDeployment (sample_svc []) 7 ''d'' sample_state = (r, st')" by fastforce
  have "\<exists>d. r = Inr d \<and> st_deployments st' ''d'' = Some d \<and> dep_state d = DTerminated
    \<and> (\<forall>k. if named_after ''d'' k then k \<in> set (EffectiveInstanceIDs sample_single) \<and> k \<noteq> [] \<and> st_instances sample_state k \<noteq> None
           \<longrightarrow> map_option in_state (st_instances st' k) = Some ITerminated
         else map_option in_state (st_instances st' k) = map_option in_state (st_instances sample_state k))"
    by (rule destroy_success_terminates [OF _ _ _ _ _ run])
      (simp_all add: sample_state_def sample_svc_def sample_single_def calls_succeed_def releaseRental_def)
  with run show ?thesis by auto
qed






subsection \<open>Properties of names\<close>

text \<open>
  The replicas of one deployment have distinct names, all of them recognised as its own.
\<close>

theorem replica_names:
  "ownsInstance d (replicaInstanceID d i n) \<and>
   (i < n \<and> j < n \<and> replicaInstanceID d i n = replicaInstanceID d j n \<longrightarrow> i = j)"
  using owns_replica dec_inj by (auto simp: replicaInstanceID_def split: if_splits)

theorem replica_names_witness:
  "ownsInstance ''d'' (replicaInstanceID ''d'' 1 3) \<and> replicaInstanceID ''d'' 1 3 \<noteq> replicaInstanceID ''d'' 2 3"
  using replica_names [of "''d''" 1 3 2] by simp

text \<open>
  The nodes of a multi-node replica are not recognised as owned by their deployment.  Their
  rental is therefore not released and no destroy of the deployment marks them TERMINATED,
  whatever the outcome of the destroy.
\<close>

theorem destroy_leaves_nodes:
  assumes "1 < totalNodes" "k = nodeInstanceID (replicaInstanceID ident slot tot) node totalNodes" "in_id i = k"
  shows "releaseRental sv ident i = [] \<and>
    map_option in_state (st_instances (snd (DestroyDeployment sv now ident st)) k) =
      map_option in_state (st_instances st k)"
  using destroy_unowned [of ident k] not_owns_node [OF assms(1)] assms(2,3) by (simp add: releaseRental_def)

theorem destroy_leaves_nodes_witness:
  "releaseRental (sample_svc []) ''d'' (sample_instance\<lparr>in_id := ''d-n0''\<rparr>) = []"
proof -
  have n: "''d-n0'' = nodeInstanceID (replicaInstanceID ''d'' 0 1) 0 2" by code_simp
  show ?thesis
    using destroy_leaves_nodes [OF _ n, where i = "sample_instance\<lparr>in_id := ''d-n0''\<rparr>" and sv = "sample_svc []"]
    by simp
qed

text \<open>Two deployments with valid ids may name the same instance.\<close>

theorem replica_name_collision:
  "ValidateID ''foo'' \<and> ValidateID ''foo-r1'' \<and> replicaInstanceID ''foo'' 1 2 = replicaInstanceID ''foo-r1'' 0 1
   \<and> ownsInstance ''foo'' ''foo-r1''"
  by code_simp

subsection \<open>Quarantine and the router\<close>

lemma memberInstanceIDs_unhealthy [simp]:
  "memberInstanceIDs (d\<lparr>dep_unhealthy := us\<rparr>) = memberInstanceIDs d"
  "EffectiveEndpoints (d\<lparr>dep_unhealthy := us\<rparr>) = EffectiveEndpoints d"
  by (simp_all add: memberInstanceIDs_def EffectiveEndpoints_def)

lemma Quarantine_record:
  assumes "st_deployments st k = Some d" "k \<noteq> []" "i \<noteq> []"
  shows "\<exists>us. st_deployments (Quarantine k i st) k = Some (d\<lparr>dep_unhealthy := us\<rparr>)
    \<and> set us = insert i (set (dep_unhealthy d))"
proof (cases "i \<in> set (dep_unhealthy d)")
  case True
  then show ?thesis using assms by (intro exI [of _ "dep_unhealthy d"]) (auto simp: Quarantine_def)
next
  case False
  then show ?thesis using assms
    by (intro exI [of _ "dep_unhealthy d @ [i]"]) (auto simp: Quarantine_def)
qed

lemma remove1_snoc: "i \<notin> set us \<Longrightarrow> remove1 i (us @ [i]) = us"
  by (simp add: remove1_append)

text \<open>
  A quarantine takes exactly the member that contains the machine out of the router's
  rotation, and a restore undoes it.
\<close>

theorem quarantine_takes_out_of_rotation:
  assumes "st_deployments st k = Some d" "k \<noteq> []" "i \<noteq> []"
  shows "(\<exists>d'. st_deployments (Quarantine k i st) k = Some d' \<and>
      (\<forall>r. r \<in> set (eligibleReplicas d') \<longleftrightarrow>
        (\<exists>n < length (EffectiveEndpoints d). EffectiveEndpoints d ! n \<noteq> []
           \<and> \<not> anyQuarantined (quarantinedSet d) (nodes_at (memberInstanceIDs d) n)
           \<and> i \<notin> set (nodes_at (memberInstanceIDs d) n)
           \<and> r = \<lparr>r_instance = first_node (nodes_at (memberInstanceIDs d) n),
                  r_endpoint = EffectiveEndpoints d ! n\<rparr>)))
    \<and> (i \<notin> set (dep_unhealthy d) \<longrightarrow> Restore k i (Quarantine k i st) = st)"
proof (rule conjI)
  obtain us where us: "st_deployments (Quarantine k i st) k = Some (d\<lparr>dep_unhealthy := us\<rparr>)"
    "set us = insert i (set (dep_unhealthy d))"
    using Quarantine_record [OF assms] by blast
  have q: "anyQuarantined (quarantinedSet (d\<lparr>dep_unhealthy := us\<rparr>)) ns \<longleftrightarrow>
      anyQuarantined (quarantinedSet d) ns \<or> i \<in> set ns" for ns
    unfolding anyQuarantined_iff using us(2) assms(3) by auto
  have "r \<in> set (eligibleReplicas (d\<lparr>dep_unhealthy := us\<rparr>)) \<longleftrightarrow>
        (\<exists>n < length (EffectiveEndpoints d). EffectiveEndpoints d ! n \<noteq> []
           \<and> \<not> anyQuarantined (quarantinedSet d) (nodes_at (memberInstanceIDs d) n)
           \<and> i \<notin> set (nodes_at (memberInstanceIDs d) n)
           \<and> r = \<lparr>r_instance = first_node (nodes_at (memberInstanceIDs d) n),
                  r_endpoint = EffectiveEndpoints d ! n\<rparr>)" for r
    unfolding eligible_member q by auto
  then show "\<exists>d'. st_deployments (Quarantine k i st) k = Some d' \<and>
      (\<forall>r. r \<in> set (eligibleReplicas d') \<longleftrightarrow>
        (\<exists>n < length (EffectiveEndpoints d). EffectiveEndpoints d ! n \<noteq> []
           \<and> \<not> anyQuarantined (quarantinedSet d) (nodes_at (memberInstanceIDs d) n)
           \<and> i \<notin> set (nodes_at (memberInstanceIDs d) n)
           \<and> r = \<lparr>r_instance = first_node (nodes_at (memberInstanceIDs d) n),
                  r_endpoint = EffectiveEndpoints d ! n\<rparr>))"
    using us(1) by blast
  show "i \<notin> set (dep_unhealthy d) \<longrightarrow> Restore k i (Quarantine k i st) = st"
    using assms by (cases st) (auto simp: Quarantine_def Restore_def update_deployment_def remove1_snoc fun_upd_idem)
qed

theorem quarantine_takes_out_of_rotation_witness:
  "Restore ''d'' ''d'' (Quarantine ''d'' ''d'' sample_state) = sample_state"
  using quarantine_takes_out_of_rotation [of sample_state "''d''" sample_single "''d''"]
  by (simp add: sample_state_def sample_single_def zero_deployment_def)

end
