(* ===== verification/Reaper.thy ===== *)
theory Reaper
  imports Deployment_Ops
begin

text \<open>
  The idle-TTL reaper (\<^verbatim>\<open>internal/provisioners/lifecycle/reaper.go\<close>): the reap policy, the retry
  counters and the sweep.  The reaper talks to the deployment service through two calls, which
  are arguments here; the locale \<open>reapable_service\<close> states what it relies on, and the
  deployment service of \<open>Deployment_Ops\<close> is an instance.  \<open>idle_ttl_seconds\<close> is an int32, so the
  product with a second stays within 64 bits.
\<close>

subsection \<open>Policy\<close>

definition MaxDestroyRetries :: int where "MaxDestroyRetries = 3"

text \<open>The zero \<^verbatim>\<open>time.Time\<close>: the first of January of year 1, in nanoseconds since 1970.\<close>

definition zero_time :: timestamp where "zero_time = - 62135596800 * second"

definition lastActivityFor :: "deployment \<Rightarrow> timestamp" where
  "lastActivityFor dep =
     (case dep_last_activity_at dep of
        Some ts \<Rightarrow> ts
      | None \<Rightarrow> (case dep_created_at dep of Some ts \<Rightarrow> ts | None \<Rightarrow> zero_time))"

definition shouldRetry :: "deployment \<Rightarrow> bool" where
  "shouldRetry dep \<longleftrightarrow> dep_state dep = DTerminating"

definition shouldReap :: "deployment \<Rightarrow> timestamp \<Rightarrow> bool" where
  "shouldReap dep now =
     (if dep_state dep \<noteq> DRunning then False
      else if dep_idle_ttl_seconds dep \<le> 0 then False
      else if dep_no_idle_destroy dep then False
      else
        (let lastAct = lastActivityFor dep
         in if lastAct = zero_time then False
            else time_sub now lastAct > dep_idle_ttl_seconds dep * second))"

subsection \<open>Sweeps\<close>

text \<open>
  \<^verbatim>\<open>destroyRetries\<close> is a Go map read with its zero value; the metric and the log lines are left
  out.  The service's \<^verbatim>\<open>DestroyDeployment\<close> returns whether it succeeded.
\<close>

record reaper =
  rp_retries :: "gostring \<rightharpoonup> int"

definition NewReaper :: reaper where "NewReaper = \<lparr>rp_retries = Map.empty\<rparr>"

definition retries_of :: "reaper \<Rightarrow> gostring \<Rightarrow> int" where
  "retries_of r k = (case rp_retries r k of Some n \<Rightarrow> n | None \<Rightarrow> 0)"

definition reaper_destroy ::
  "(gostring \<Rightarrow> 's \<Rightarrow> bool \<times> 's) \<Rightarrow> deployment \<Rightarrow> reaper \<Rightarrow> 's \<Rightarrow> bool \<times> reaper \<times> 's" where
  "reaper_destroy svc dep r s =
     (let ident = dep_id dep;
          attempt = retries_of r ident + 1
      in if attempt > MaxDestroyRetries then (False, r, s)
         else
           (case svc ident s of
              (False, s') \<Rightarrow> (False, r\<lparr>rp_retries := (rp_retries r)(ident \<mapsto> attempt)\<rparr>, s')
            | (True, s') \<Rightarrow> (True, r\<lparr>rp_retries := (rp_retries r)(ident := None)\<rparr>, s')))"

fun sweep ::
  "(gostring \<Rightarrow> 's \<Rightarrow> bool \<times> 's) \<Rightarrow> timestamp \<Rightarrow> deployment list \<Rightarrow> nat \<Rightarrow> reaper \<Rightarrow> 's
   \<Rightarrow> nat \<times> reaper \<times> 's" where
  "sweep svc now [] reaped r s = (reaped, r, s)"
| "sweep svc now (dep # deps) reaped r s =
     (if shouldReap dep now \<or> shouldRetry dep then
        (case reaper_destroy svc dep r s of
           (ok, r', s') \<Rightarrow> sweep svc now deps (if ok then Suc reaped else reaped) r' s')
      else sweep svc now deps reaped r s)"

text \<open>\<^verbatim>\<open>RunOnce\<close>; \<open>None\<close> is a listing that failed.\<close>

definition RunOnce ::
  "(gostring \<Rightarrow> 's \<Rightarrow> bool \<times> 's) \<Rightarrow> timestamp \<Rightarrow> deployment list option \<Rightarrow> reaper \<Rightarrow> 's
   \<Rightarrow> nat \<times> reaper \<times> 's" where
  "RunOnce svc now listing r s =
     (case listing of None \<Rightarrow> (0, r, s) | Some deps \<Rightarrow> sweep svc now deps 0 r s)"

subsection \<open>The contract with the deployment service\<close>

locale reapable_service =
  fixes svc :: "gostring \<Rightarrow> 's \<Rightarrow> bool \<times> 's"
    and record_of :: "'s \<Rightarrow> gostring \<Rightarrow> deployment option"
  assumes destroyed: "svc k s = (True, s') \<Longrightarrow> map_option dep_state (record_of s' k) = Some DTerminated"
    and others_kept: "svc k s = (ok, s') \<Longrightarrow> j \<noteq> k \<Longrightarrow> record_of s' j = record_of s j"
begin

lemma sweep_keeps_others:
  "sweep svc now deps n r s = (n', r', s') \<Longrightarrow>
   (\<forall>d\<in>set deps. dep_id d = k \<longrightarrow> \<not> shouldReap d now \<and> \<not> shouldRetry d) \<Longrightarrow>
   record_of s' k = record_of s k"
proof (induction deps arbitrary: n r s)
  case (Cons d deps)
  show ?case
  proof (cases "shouldReap d now \<or> shouldRetry d")
    case True
    then have k: "dep_id d \<noteq> k" using Cons.prems(2) by auto
    obtain ok r1 s1 where run: "reaper_destroy svc d r s = (ok, r1, s1)" by (cases "reaper_destroy svc d r s")
    have "record_of s1 k = record_of s k"
      using run k others_kept [of "dep_id d" s _ _ k]
      by (auto simp: reaper_destroy_def Let_def split: if_splits prod.splits bool.splits)
    moreover have "record_of s' k = record_of s1 k"
      using Cons.IH [of "if ok then Suc n else n" r1 s1] Cons.prems True run by simp
    ultimately show ?thesis by simp
  qed (use Cons in auto)
qed simp

lemma sweep_terminated_stays:
  "sweep svc now deps n r s = (n', r', s') \<Longrightarrow> distinct (map dep_id deps) \<Longrightarrow> k \<notin> dep_id ` set deps \<Longrightarrow>
   record_of s' k = record_of s k"
  by (rule sweep_keeps_others) auto

text \<open>How many deployments of the listing a sweep has terminated.\<close>

lemma sweep_count:
  "sweep svc now deps n r s = (n', r', s') \<Longrightarrow> distinct (map dep_id deps) \<Longrightarrow>
   n' \<le> n + length (filter (\<lambda>d. map_option dep_state (record_of s' (dep_id d)) = Some DTerminated) deps)"
proof (induction deps arbitrary: n r s)
  case (Cons d deps)
  show ?case
  proof (cases "shouldReap d now \<or> shouldRetry d")
    case True
    obtain ok r1 s1 where run: "reaper_destroy svc d r s = (ok, r1, s1)" by (cases "reaper_destroy svc d r s")
    let ?n = "if ok then Suc n else n"
    have rest: "sweep svc now deps ?n r1 s1 = (n', r', s')" using Cons.prems(1) True run by simp
    have "record_of s' (dep_id d) = record_of s1 (dep_id d)"
      using sweep_terminated_stays [OF rest] Cons.prems(2) by simp
    moreover have "ok \<Longrightarrow> map_option dep_state (record_of s1 (dep_id d)) = Some DTerminated"
      using run destroyed [of "dep_id d" s s1]
      by (auto simp: reaper_destroy_def Let_def split: if_splits prod.splits bool.splits)
    ultimately show ?thesis using Cons.IH [OF rest] Cons.prems(2) by (cases ok) auto
  next
    case False
    then have "sweep svc now deps n r s = (n', r', s')" using Cons.prems(1) by simp
    from Cons.IH [OF this] show ?thesis using Cons.prems(2) by simp
  qed
qed simp

end

subsection \<open>The deployment service keeps the contract\<close>

lemma patches_others:
  "j \<noteq> ident \<Longrightarrow> st_deployments (fold (\<lambda>u. patchDeployment ident u now) us st) j = st_deployments st j"
  by (induction us arbitrary: st) (simp_all add: patchDeployment_deployments split: option.split)

lemma destroy_loop_others:
  "destroy_loop sv now ident rec insts ids fs st = (fs', st') \<Longrightarrow> j \<noteq> ident \<Longrightarrow>
     st_deployments st' j = st_deployments st j"
  by (induction sv now ident rec insts ids fs st rule: destroy_loop.induct)
    (auto simp: Let_def destroy_loop.simps(2) patches_others split: if_splits option.splits prod.splits)

lemma DestroyDeployment_others:
  assumes "j \<noteq> ident"
  shows "st_deployments (snd (DestroyDeployment sv now ident st)) j = st_deployments st j"
  using assms
  by (auto simp: DestroyDeployment_def Let_def patchDeployment_deployments
      dest: destroy_loop_others [OF _ assms] split: option.split prod.split)

lemma DestroyDeployment_success:
  assumes "DestroyDeployment sv now ident st = (Inr d, st')"
  shows "map_option dep_state (st_deployments st' ident) = Some DTerminated"
proof -
  obtain dep where dep: "ValidateID ident" "st_deployments st ident = Some dep"
    using assms by (auto simp: DestroyDeployment_def split: if_splits option.splits)
  let ?rec = "dep\<lparr>dep_state := DTerminating\<rparr>"
  let ?st1 = "update_deployment ident (\<lambda>_. ?rec) st"
  have has1: "st_deployments ?st1 ident \<noteq> None" using dep(2) by simp
  consider (gone) "dep_state dep = DTerminated" | (empty) "dep_state dep \<noteq> DTerminated" "EffectiveInstanceIDs ?rec = []"
    | (loop) fs st2 where "dep_state dep \<noteq> DTerminated" "EffectiveInstanceIDs ?rec \<noteq> []"
      "destroy_loop sv now ident ?rec (st_instances ?st1) (EffectiveInstanceIDs ?rec) [] ?st1 = (fs, st2)"
    by fastforce
  then show ?thesis
  proof cases
    case gone
    then show ?thesis using assms dep by (auto simp: DestroyDeployment_def)
  next
    case empty
    with assms dep have st': "st' = patchDeployment ident
        (state_update DTerminated ''no instances recorded; marked terminated locally'' []) now ?st1"
      by (auto simp: DestroyDeployment_def Let_def)
    show ?thesis using patch_lookup [OF has1] unfolding st' by (fastforce simp: state_update_def)
  next
    case loop
    with assms dep have st': "st' = patchDeployment ident (state_update DTerminated
        (dec (length (EffectiveInstanceIDs ?rec)) @ '' replica(s) destroyed'') []) now st2"
      by (auto simp: DestroyDeployment_def Let_def split: if_splits)
    show ?thesis using patch_lookup [OF destroy_loop_has [OF loop(3) has1]] unfolding st'
      by (fastforce simp: state_update_def)
  qed
qed

definition destroy_call :: "svc \<Rightarrow> timestamp \<Rightarrow> gostring \<Rightarrow> state \<Rightarrow> bool \<times> state" where
  "destroy_call sv now ident st =
     (case DestroyDeployment sv now ident st of (Inr _, st') \<Rightarrow> (True, st') | (Inl _, st') \<Rightarrow> (False, st'))"

lemma destroy_call_True: "destroy_call sv now k st = (True, st') \<Longrightarrow> \<exists>d. DestroyDeployment sv now k st = (Inr d, st')"
  by (auto simp: destroy_call_def split: prod.splits sum.splits)

lemma destroy_call_snd: "snd (destroy_call sv now k st) = snd (DestroyDeployment sv now k st)"
  by (auto simp: destroy_call_def split: prod.splits sum.splits)

interpretation deployments: reapable_service "destroy_call sv now" st_deployments for sv now
proof unfold_locales
  fix k s s'
  assume "destroy_call sv now k s = (True, s')"
  then show "map_option dep_state (st_deployments s' k) = Some DTerminated"
    using destroy_call_True DestroyDeployment_success by blast
next
  fix k s ok s' j
  assume "destroy_call sv now k s = (ok, s')" "(j :: gostring) \<noteq> k"
  then show "st_deployments s' j = st_deployments s j"
    using destroy_call_snd [of sv now k s] DestroyDeployment_others [of j k] by simp
qed

subsection \<open>Properties of the reaper\<close>

text \<open>
  C10: a sweep harms nothing that is in use.  If the listing has the deployment's record, and that
  record is neither TERMINATING nor a RUNNING, unpinned deployment with a positive TTL that has
  been idle for longer than the TTL, then the sweep leaves the record alone; and the number of
  deployments it reports as reaped is at most the number of listed deployments that are
  TERMINATED afterwards.
\<close>

theorem reaper_spares_active:
  assumes "distinct (map dep_id deps)" "dep \<in> set deps" "dep_state dep \<noteq> DTerminating"
    and "dep_state dep = DRunning \<and> 0 < dep_idle_ttl_seconds dep \<and> \<not> dep_no_idle_destroy dep \<longrightarrow>
           now - lastActivityFor dep \<le> dep_idle_ttl_seconds dep * second"
    and "RunOnce (destroy_call sv clock) now (Some deps) r st = (n, r', st')"
  shows "st_deployments st' (dep_id dep) = st_deployments st (dep_id dep)
    \<and> n \<le> length (filter (\<lambda>d. map_option dep_state (st_deployments st' (dep_id d)) = Some DTerminated) deps)"
proof (rule conjI)
  have run: "sweep (destroy_call sv clock) now deps 0 r st = (n, r', st')" using assms(5) by (simp add: RunOnce_def)
  have "\<not> shouldReap dep now"
    using assms(4) by (auto simp: shouldReap_def Let_def time_sub_def min_int64_def)
  moreover have "\<not> shouldRetry dep" using assms(3) by (simp add: shouldRetry_def)
  moreover have "d = dep" if "d \<in> set deps" "dep_id d = dep_id dep" for d
    using assms(1,2) that by (auto simp: distinct_map inj_on_def)
  ultimately show "st_deployments st' (dep_id dep) = st_deployments st (dep_id dep)"
    by (intro deployments.sweep_keeps_others [OF run]) auto
  show "n \<le> length (filter (\<lambda>d. map_option dep_state (st_deployments st' (dep_id d)) = Some DTerminated) deps)"
    using deployments.sweep_count [OF run assms(1)] by simp
qed

theorem reaper_spares_active_witness:
  "st_deployments (snd (snd (RunOnce (destroy_call (sample_svc []) 9) (100 * second)
     (Some [sample_single\<lparr>dep_created_at := Some second, dep_idle_ttl_seconds := 200\<rparr>]) NewReaper sample_state))) ''d''
   = Some sample_single"
proof -
  let ?d = "sample_single\<lparr>dep_created_at := Some second, dep_idle_ttl_seconds := 200\<rparr>"
  obtain n r' st' where run:
    "RunOnce (destroy_call (sample_svc []) 9) (100 * second) (Some [?d]) NewReaper sample_state = (n, r', st')"
    by (cases "RunOnce (destroy_call (sample_svc []) 9) (100 * second) (Some [?d]) NewReaper sample_state")
  have "st_deployments st' (dep_id ?d) = st_deployments sample_state (dep_id ?d)
    \<and> n \<le> length (filter (\<lambda>d. map_option dep_state (st_deployments st' (dep_id d)) = Some DTerminated) [?d])"
    by (rule reaper_spares_active [OF _ _ _ _ run])
      (simp_all add: sample_single_def lastActivityFor_def zero_deployment_def)
  then show ?thesis using run by (simp add: sample_state_def sample_single_def)
qed

subsection \<open>Retries\<close>

text \<open>
  A service that records its calls: the newest call first, with its outcome.  A run is a sequence
  of sweeps, each with its own clock reading and listing.
\<close>

definition logged :: "(gostring \<Rightarrow> 's \<Rightarrow> bool \<times> 's) \<Rightarrow> gostring \<Rightarrow> (gostring \<times> bool) list \<times> 's
  \<Rightarrow> bool \<times> (gostring \<times> bool) list \<times> 's" where
  "logged svc k ls = (case svc k (snd ls) of (ok, s') \<Rightarrow> (ok, ((k, ok) # fst ls, s')))"

fun run_sweeps ::
  "(gostring \<Rightarrow> 's \<Rightarrow> bool \<times> 's) \<Rightarrow> (timestamp \<times> deployment list option) list \<Rightarrow> reaper \<Rightarrow> 's \<Rightarrow> reaper \<times> 's" where
  "run_sweeps svc [] r s = (r, s)"
| "run_sweeps svc ((now, l) # rest) r s =
     (case RunOnce svc now l r s of (_, r', s') \<Rightarrow> run_sweeps svc rest r' s')"

text \<open>The failed calls for one id since the last success.\<close>

fun failures_since_success :: "gostring \<Rightarrow> (gostring \<times> bool) list \<Rightarrow> int" where
  "failures_since_success k [] = 0"
| "failures_since_success k ((j, ok) # attempts) =
     (if j \<noteq> k then failures_since_success k attempts
      else if ok then 0 else 1 + failures_since_success k attempts)"

definition retries_ok :: "reaper \<Rightarrow> (gostring \<times> bool) list \<Rightarrow> bool" where
  "retries_ok r attempts \<longleftrightarrow>
     (\<forall>k. retries_of r k = failures_since_success k attempts \<and> failures_since_success k attempts \<le> MaxDestroyRetries)"

lemma retries_of_upd [simp]:
  "retries_of (r\<lparr>rp_retries := (rp_retries r)(i \<mapsto> n)\<rparr>) k = (if k = i then n else retries_of r k)"
  "retries_of (r\<lparr>rp_retries := (rp_retries r)(i := None)\<rparr>) k = (if k = i then 0 else retries_of r k)"
  by (simp_all add: retries_of_def)

lemma reaper_destroy_retries:
  assumes "retries_ok r (fst ls)" "reaper_destroy (logged svc) d r ls = (ok, r', ls')"
  shows "retries_ok r' (fst ls')"
proof -
  obtain ok1 s1 where c: "svc (dep_id d) (snd ls) = (ok1, s1)" by (cases "svc (dep_id d) (snd ls)")
  show ?thesis
    using assms c
    by (cases ok1) (auto simp: reaper_destroy_def logged_def Let_def retries_ok_def MaxDestroyRetries_def split: if_splits)
qed

lemma sweep_retries:
  "sweep (logged svc) now deps n r ls = (n', r', ls') \<Longrightarrow> retries_ok r (fst ls) \<Longrightarrow> retries_ok r' (fst ls')"
proof (induction deps arbitrary: n r ls)
  case (Cons d deps)
  show ?case
  proof (cases "shouldReap d now \<or> shouldRetry d")
    case True
    obtain ok r1 l1 where run: "reaper_destroy (logged svc) d r ls = (ok, r1, l1)"
      by (cases "reaper_destroy (logged svc) d r ls")
    have "sweep (logged svc) now deps (if ok then Suc n else n) r1 l1 = (n', r', ls')"
      using Cons.prems(1) True run by simp
    then show ?thesis by (rule Cons.IH) (rule reaper_destroy_retries [OF Cons.prems(2) run])
  qed (use Cons in auto)
qed simp

lemma run_sweeps_retries:
  "run_sweeps (logged svc) ss r ls = (r', ls') \<Longrightarrow> retries_ok r (fst ls) \<Longrightarrow> retries_ok r' (fst ls')"
proof (induction ss arbitrary: r ls)
  case (Cons x ss)
  obtain now l where x: "x = (now, l)" by (cases x)
  obtain n r1 l1 where run: "RunOnce (logged svc) now l r ls = (n, r1, l1)"
    by (cases "RunOnce (logged svc) now l r ls")
  have "retries_ok r1 (fst l1)"
    using run Cons.prems(2) by (cases l) (auto simp: RunOnce_def dest: sweep_retries)
  then show ?case using Cons.IH [of r1 l1] Cons.prems(1) x run by simp
qed simp

text \<open>
  C11: the reaper never retries without bound.  Over any sequence of sweeps of a fresh reaper,
  with any listings and any outcomes of the service, the counter of an id is the number of its
  failed destroys since its last successful one, and that number never exceeds
  \<^verbatim>\<open>MaxDestroyRetries\<close>.
\<close>

theorem reaper_retry_cap:
  assumes "run_sweeps (logged svc) ss NewReaper ([], s) = (r, (attempts, s'))"
  shows "retries_of r k = failures_since_success k attempts \<and> failures_since_success k attempts \<le> 3"
proof -
  have "retries_ok NewReaper (fst ([], s))"
    by (simp add: retries_ok_def retries_of_def NewReaper_def MaxDestroyRetries_def)
  from run_sweeps_retries [OF assms this] show ?thesis by (simp add: retries_ok_def MaxDestroyRetries_def)
qed

definition stuck :: deployment where
  "stuck = zero_deployment\<lparr>dep_id := ''d'', dep_state := DTerminating\<rparr>"

theorem reaper_retry_cap_witness:
  "\<exists>r attempts. run_sweeps (logged (\<lambda>_ s. (False, s))) (replicate 5 (0, Some [stuck])) NewReaper ([], ()) = (r, (attempts, ()))
     \<and> attempts = replicate 3 (''d'', False) \<and> failures_since_success ''d'' attempts \<le> 3"
proof -
  have run: "run_sweeps (logged (\<lambda>_ s. (False, s))) (replicate 5 (0, Some [stuck])) NewReaper ([], ())
      = (\<lparr>rp_retries = [''d'' \<mapsto> 3]\<rparr>, (replicate 3 (''d'', False), ()))"
    by (simp add: eval_nat_numeral RunOnce_def shouldRetry_def stuck_def reaper_destroy_def logged_def
        retries_of_def NewReaper_def MaxDestroyRetries_def Let_def)
  from reaper_retry_cap [OF run, where k = "''d''"] run show ?thesis by blast
qed

definition calls_for :: "gostring \<Rightarrow> (gostring \<times> bool) list \<Rightarrow> (gostring \<times> bool) list" where
  "calls_for k attempts = filter (\<lambda>e. fst e = k) attempts"

lemma reaper_destroy_tombstone:
  assumes "retries_of r k = 3" "reaper_destroy (logged svc) d r ls = (ok, r', ls')"
  shows "retries_of r' k = 3 \<and> calls_for k (fst ls') = calls_for k (fst ls)"
proof -
  obtain ok1 s1 where c: "svc (dep_id d) (snd ls) = (ok1, s1)" by (cases "svc (dep_id d) (snd ls)")
  show ?thesis
    using assms c
    by (cases ok1)
      (auto simp: reaper_destroy_def logged_def Let_def MaxDestroyRetries_def calls_for_def split: if_splits)
qed

lemma sweep_tombstone:
  "retries_of r k = 3 \<Longrightarrow> sweep (logged svc) now deps n r ls = (n', r', ls') \<Longrightarrow>
   retries_of r' k = 3 \<and> calls_for k (fst ls') = calls_for k (fst ls)"
proof (induction deps arbitrary: n r ls)
  case (Cons d deps)
  show ?case
  proof (cases "shouldReap d now \<or> shouldRetry d")
    case True
    obtain ok r1 l1 where run: "reaper_destroy (logged svc) d r ls = (ok, r1, l1)"
      by (cases "reaper_destroy (logged svc) d r ls")
    have "sweep (logged svc) now deps (if ok then Suc n else n) r1 l1 = (n', r', ls')"
      using Cons.prems(2) True run by simp
    with Cons.IH [OF _ this] reaper_destroy_tombstone [OF Cons.prems(1) run] show ?thesis by simp
  qed (use Cons in auto)
qed simp

text \<open>
  An id the reaper has given up on is never reaped again by this process.  Once three
  destroys have failed, no later sweep calls the service for that id, whatever has become of the
  deployment in the meantime (including a deployment created anew under the same id).
\<close>

theorem reaper_tombstone:
  assumes "retries_of r k = 3" "run_sweeps (logged svc) ss r ls = (r', ls')"
  shows "retries_of r' k = 3 \<and> calls_for k (fst ls') = calls_for k (fst ls)"
  using assms
proof (induction ss arbitrary: r ls)
  case (Cons x ss)
  obtain now l where x: "x = (now, l)" by (cases x)
  obtain n r1 l1 where run: "RunOnce (logged svc) now l r ls = (n, r1, l1)"
    by (cases "RunOnce (logged svc) now l r ls")
  have "retries_of r1 k = 3 \<and> calls_for k (fst l1) = calls_for k (fst ls)"
    using run Cons.prems(1) by (cases l) (auto simp: RunOnce_def dest: sweep_tombstone)
  then show ?case using Cons.IH [of r1 l1] Cons.prems(2) x run by simp
qed simp

theorem reaper_tombstone_witness:
  "\<exists>r' ls'. run_sweeps (logged (\<lambda>_ s. (True, s))) [(0, Some [stuck])] \<lparr>rp_retries = [''d'' \<mapsto> 3]\<rparr> ([], ())
      = (r', ls') \<and> calls_for ''d'' (fst ls') = []"
proof -
  obtain r' ls' where run:
    "run_sweeps (logged (\<lambda>_ s. (True, s))) [(0, Some [stuck])] \<lparr>rp_retries = [''d'' \<mapsto> 3]\<rparr> ([], ()) = (r', ls')"
    by (cases "run_sweeps (logged (\<lambda>_ s. (True, s))) [(0, Some [stuck])] \<lparr>rp_retries = [''d'' \<mapsto> 3]\<rparr> ([], ())") auto
  have "retries_of \<lparr>rp_retries = [''d'' \<mapsto> 3]\<rparr> ''d'' = 3" by (simp add: retries_of_def)
  from reaper_tombstone [OF this run] run show ?thesis by (simp add: calls_for_def)
qed

subsection \<open>Touches and the reaper\<close>

text \<open>The debounce cache never claims more recent activity than the record shows.\<close>

definition seen_ok :: "touch_state \<Rightarrow> bool" where
  "seen_ok s \<longleftrightarrow>
     (\<forall>k t. ts_seen s k = Some t \<longrightarrow> (\<exists>d. st_deployments (ts_store s) k = Some d \<and> dep_last_activity_at d = Some t))"

text \<open>
  A successful touch protects a deployment from the reaper.  If the debounce cache agrees
  with the records, a touch at time \<open>now\<close> that reports success leaves a record, with the cache
  still in agreement, which no sweep will consider idle until the TTL less the debounce interval
  has passed since \<open>now\<close>.
\<close>

theorem touch_defers_reap:
  assumes "seen_ok s" "TouchDeployment interval now ident s = (Inr r, s')" "0 \<le> interval"
    and "later - now \<le> dep_idle_ttl_seconds d * second - interval"
    and "st_deployments (ts_store s') ident = Some d" "interval \<le> max_int64"
  shows "seen_ok s' \<and> \<not> shouldReap d later"
proof (cases "interval > 0 \<and> (case ts_seen s ident of Some t \<Rightarrow> time_sub now t < interval | None \<Rightarrow> False)")
  case True
  then obtain t where t: "ts_seen s ident = Some t" "time_sub now t < interval" by (auto split: option.splits)
  have s': "s' = s" using assms(2) True by (auto simp: TouchDeployment_def split: if_splits)
  have la: "lastActivityFor d = t" using assms(1,5) t(1) s' by (fastforce simp: seen_ok_def lastActivityFor_def)
  have "now - t < interval" using t(2) assms(6) by (auto simp: time_sub_def)
  then have "later - t \<le> dep_idle_ttl_seconds d * second" using assms(4) by simp
  then show ?thesis using assms(1) s' la
    by (auto simp: shouldReap_def Let_def time_sub_def min_int64_def)
next
  case False
  then have d: "dep_last_activity_at d = Some now" and s': "seen_ok s'"
    using assms(1,2,5) by (auto simp: TouchDeployment_def Let_def seen_ok_def split: if_splits option.splits)
  have "later - now \<le> dep_idle_ttl_seconds d * second" using assms(3,4) by simp
  then show ?thesis using d s'
    by (auto simp: shouldReap_def lastActivityFor_def Let_def time_sub_def min_int64_def)
qed

theorem touch_defers_reap_witness:
  "\<not> shouldReap (sample_single\<lparr>dep_idle_ttl_seconds := 60, dep_last_activity_at := Some second\<rparr>) (51 * second)"
proof -
  let ?d = "sample_single\<lparr>dep_idle_ttl_seconds := 60\<rparr>"
  let ?s = "\<lparr>ts_store = sample_state\<lparr>st_deployments := [''d'' \<mapsto> ?d]\<rparr>, ts_seen = Map.empty\<rparr>"
  have ok: "seen_ok ?s" by (simp add: seen_ok_def)
  have run: "TouchDeployment (10 * second) second ''d'' ?s =
      (Inr (Some (?d\<lparr>dep_last_activity_at := Some second\<rparr>)),
       \<lparr>ts_store = sample_state\<lparr>st_deployments := [''d'' \<mapsto> ?d\<lparr>dep_last_activity_at := Some second\<rparr>]\<rparr>,
        ts_seen = [''d'' \<mapsto> second]\<rparr>)"
    by (simp add: TouchDeployment_def Let_def update_deployment_def)
  show ?thesis
    using touch_defers_reap [OF ok run, where later = "51 * second" and
        d = "?d\<lparr>dep_last_activity_at := Some second\<rparr>"]
    by (simp add: max_int64_def)
qed

end
