(* ===== verification/Healthcheck.thy ===== *)
theory Healthcheck
  imports Deployment_Ops
begin

text \<open>
  The health poll (\<^verbatim>\<open>internal/healthcheck\<close>): the snapshot of running replicas, the probe with its
  streak counters, the activity veto and the calls to \<^verbatim>\<open>Quarantine\<close> and \<^verbatim>\<open>Restore\<close>.  The HTTP client
  is an argument: it maps a URL to the status code, or to \<open>None\<close> on an error or a timeout.  A
  tick runs its probes concurrently; the counters of one key are behind a mutex and the store's
  updates are atomic, so a tick is modelled as its probes in some order.
\<close>

subsection \<open>Configuration\<close>

record hconfig =
  hc_poll_interval :: duration
  hc_failure_threshold :: int
  hc_success_threshold :: int
  hc_probe_timeout :: duration
  hc_max_concurrent :: int
  hc_activity_window :: duration

definition DefaultConfig :: hconfig where
  "DefaultConfig =
     \<lparr>hc_poll_interval = 10 * second, hc_failure_threshold = 3, hc_success_threshold = 3,
      hc_probe_timeout = 2 * second, hc_max_concurrent = 32, hc_activity_window = 2 * minute\<rparr>"

definition or_default :: "int \<Rightarrow> int \<Rightarrow> int" where
  "or_default v d = (if v \<le> 0 then d else v)"

type_synonym activity = "gostring \<Rightarrow> gostring \<Rightarrow> timestamp \<Rightarrow> duration option"

type_synonym streaks = "gostring \<rightharpoonup> int \<times> int"

record runner =
  rn_cfg :: hconfig
  rn_activity :: "activity option"
  rn_streaks :: streaks

definition NewRunner :: "hconfig \<Rightarrow> runner" where
  "NewRunner cfg =
     \<lparr>rn_cfg =
        \<lparr>hc_poll_interval = or_default (hc_poll_interval cfg) (hc_poll_interval DefaultConfig),
         hc_failure_threshold = or_default (hc_failure_threshold cfg) (hc_failure_threshold DefaultConfig),
         hc_success_threshold = or_default (hc_success_threshold cfg) (hc_success_threshold DefaultConfig),
         hc_probe_timeout = or_default (hc_probe_timeout cfg) (hc_probe_timeout DefaultConfig),
         hc_max_concurrent = or_default (hc_max_concurrent cfg) (hc_max_concurrent DefaultConfig),
         hc_activity_window = or_default (hc_activity_window cfg) (hc_activity_window DefaultConfig)\<rparr>,
      rn_activity = None, rn_streaks = Map.empty\<rparr>"

definition WithActivity :: "activity \<Rightarrow> runner \<Rightarrow> runner" where
  "WithActivity a r = r\<lparr>rn_activity := Some a\<rparr>"

subsection \<open>Snapshots\<close>

record replica_snapshot =
  rsn_instance :: gostring
  rsn_endpoint :: gostring
  rsn_quarantined :: bool

record deployment_snapshot =
  dsn_deploy :: gostring
  dsn_replicas :: "replica_snapshot list"

definition snapshot_of :: "deployment \<Rightarrow> deployment_snapshot" where
  "snapshot_of dep =
     (let ids = EffectiveInstanceIDs dep;
          eps = EffectiveEndpoints dep
      in \<lparr>dsn_deploy = dep_id dep,
          dsn_replicas =
            map (\<lambda>i. let instanceID = (if i < length ids then ids ! i else [])
                     in \<lparr>rsn_instance = instanceID, rsn_endpoint = eps ! i,
                         rsn_quarantined = (instanceID \<in> set (dep_unhealthy dep))\<rparr>)
              [0..<length eps]\<rparr>)"

text \<open>\<^verbatim>\<open>Snapshot\<close>, over the records \<^verbatim>\<open>ListDeployments\<close> returned for the filter RUNNING.\<close>

definition Snapshot :: "deployment list \<Rightarrow> deployment_snapshot list" where
  "Snapshot deps = map snapshot_of (filter (\<lambda>d. EffectiveEndpoints d \<noteq> []) deps)"

subsection \<open>Probes\<close>

fun trim_right :: "char \<Rightarrow> gostring \<Rightarrow> gostring" where
  "trim_right c s = rev (dropWhile (\<lambda>x. x = c) (rev s))"

definition doProbe :: "(gostring \<Rightarrow> int option) \<Rightarrow> gostring \<Rightarrow> bool" where
  "doProbe http endpoint =
     (case http (trim_right (CHR ''/'') endpoint @ ''/health'') of
        None \<Rightarrow> False
      | Some code \<Rightarrow> code < 500)"

definition activityVeto :: "runner \<Rightarrow> timestamp \<Rightarrow> gostring \<Rightarrow> gostring \<Rightarrow> bool" where
  "activityVeto r now deployID instanceID =
     (case rn_activity r of
        None \<Rightarrow> False
      | Some a \<Rightarrow>
          if hc_activity_window (rn_cfg r) \<le> 0 then False
          else
            (case a deployID instanceID now of
               None \<Rightarrow> False
             | Some since \<Rightarrow> since \<le> hc_activity_window (rn_cfg r)))"

definition streakKey :: "gostring \<Rightarrow> gostring \<Rightarrow> gostring" where
  "streakKey deployID instanceID = deployID @ ''/'' @ instanceID"

definition streak_of :: "streaks \<Rightarrow> gostring \<Rightarrow> int \<times> int" where
  "streak_of m k = (case m k of Some s \<Rightarrow> s | None \<Rightarrow> (0, 0))"

definition bump :: "bool \<Rightarrow> int \<times> int \<Rightarrow> int \<times> int" where
  "bump healthy s = (if healthy then (0, snd s + 1) else (fst s + 1, 0))"

definition probe ::
  "(gostring \<Rightarrow> int option) \<Rightarrow> timestamp \<Rightarrow> gostring \<Rightarrow> gostring \<Rightarrow> gostring \<Rightarrow> bool
   \<Rightarrow> runner \<times> state \<Rightarrow> runner \<times> state" where
  "probe http now deployID instanceID endpoint quarantined rs =
     (case rs of (r, st) \<Rightarrow>
        (let healthy = doProbe http endpoint;
             key = streakKey deployID instanceID;
             s = bump healthy (streak_of (rn_streaks r) key);
             r' = r\<lparr>rn_streaks := (rn_streaks r)(key \<mapsto> s)\<rparr>
         in if \<not> quarantined \<and> fst s \<ge> hc_failure_threshold (rn_cfg r) then
              (if activityVeto r' now deployID instanceID then (r', st)
               else (r', Quarantine deployID instanceID st))
            else if quarantined \<and> snd s \<ge> hc_success_threshold (rn_cfg r) then
              (r', Restore deployID instanceID st)
            else (r', st)))"

text \<open>One probe of a tick, and the probes of a tick: replicas without an endpoint are skipped.\<close>

record probe_job =
  pj_deploy :: gostring
  pj_instance :: gostring
  pj_endpoint :: gostring
  pj_quarantined :: bool

definition jobs_of :: "deployment_snapshot list \<Rightarrow> probe_job list" where
  "jobs_of snaps =
     concat (map (\<lambda>dep. map (\<lambda>rep. \<lparr>pj_deploy = dsn_deploy dep, pj_instance = rsn_instance rep,
                                     pj_endpoint = rsn_endpoint rep, pj_quarantined = rsn_quarantined rep\<rparr>)
                          (filter (\<lambda>rep. rsn_endpoint rep \<noteq> []) (dsn_replicas dep))) snaps)"

definition run_job ::
  "(gostring \<Rightarrow> int option) \<Rightarrow> timestamp \<Rightarrow> probe_job \<Rightarrow> runner \<times> state \<Rightarrow> runner \<times> state" where
  "run_job http now j = probe http now (pj_deploy j) (pj_instance j) (pj_endpoint j) (pj_quarantined j)"

text \<open>\<open>order\<close> lists the positions of the jobs in the order in which their probes complete.\<close>

definition tick ::
  "nat list \<Rightarrow> (gostring \<Rightarrow> int option) \<Rightarrow> timestamp \<Rightarrow> deployment list \<Rightarrow> runner \<times> state \<Rightarrow> runner \<times> state" where
  "tick order http now deps rs =
     (let jobs = jobs_of (Snapshot deps)
      in fold (\<lambda>i. run_job http now (jobs ! i)) (filter (\<lambda>i. i < length jobs) order) rs)"

subsection \<open>Streaks\<close>

type_synonym probe_event = "(gostring \<Rightarrow> int option) \<times> timestamp \<times> probe_job"

definition job_key :: "probe_job \<Rightarrow> gostring" where
  "job_key j = streakKey (pj_deploy j) (pj_instance j)"

fun run_event :: "probe_event \<Rightarrow> runner \<times> state \<Rightarrow> runner \<times> state" where
  "run_event (http, now, j) rs = run_job http now j rs"

text \<open>The outcomes of the probes of one replica, oldest first, and the length of their last run.\<close>

definition history :: "gostring \<Rightarrow> probe_event list \<Rightarrow> bool list" where
  "history k es =
     map (\<lambda>(http, now, j). doProbe http (pj_endpoint j)) (filter (\<lambda>(http, now, j). job_key j = k) es)"

definition trailing :: "bool \<Rightarrow> bool list \<Rightarrow> int" where
  "trailing b xs = int (length (takeWhile (\<lambda>x. x = b) (rev xs)))"

lemma trailing_snoc:
  "trailing b (xs @ [x]) = (if x = b then 1 + trailing b xs else 0)" "trailing b [] = 0"
  by (simp_all add: trailing_def)

lemma bump_trailing: "bump x (trailing False xs, trailing True xs) = (trailing False (xs @ [x]), trailing True (xs @ [x]))"
  by (simp add: bump_def trailing_snoc)

lemma run_job_runner:
  "fst (run_job http now j (r, st)) =
     r\<lparr>rn_streaks := (rn_streaks r)(job_key j \<mapsto> bump (doProbe http (pj_endpoint j)) (streak_of (rn_streaks r) (job_key j)))\<rparr>"
  by (simp add: run_job_def probe_def Let_def job_key_def)

lemma run_event_config:
  "rn_cfg (fst (run_event e rs)) = rn_cfg (fst rs)" "rn_activity (fst (run_event e rs)) = rn_activity (fst rs)"
  by (cases e; cases rs; simp add: run_job_runner)+

lemma run_events_config:
  "rn_cfg (fst (fold run_event es rs)) = rn_cfg (fst rs)" "rn_activity (fst (fold run_event es rs)) = rn_activity (fst rs)"
  by (induction es arbitrary: rs) (simp_all add: run_event_config)

lemma streak_is_trailing:
  assumes "rn_streaks r0 = Map.empty"
  shows "streak_of (rn_streaks (fst (fold run_event es (r0, st0)))) k =
    (trailing False (history k es), trailing True (history k es))"
proof (induction es rule: rev_induct)
  case Nil
  then show ?case using assms by (simp add: streak_of_def history_def trailing_snoc)
next
  case (snoc e es)
  obtain http now j where e: "e = (http, now, j)" by (cases e)
  obtain r st where rs: "fold run_event es (r0, st0) = (r, st)" by fastforce
  have h: "history k (es @ [e]) = history k es @ (if job_key j = k then [doProbe http (pj_endpoint j)] else [])"
    by (simp add: history_def e)
  show ?case
    using snoc rs e bump_trailing [of "doProbe http (pj_endpoint j)" "history k es"] unfolding h
    by (auto simp: run_job_runner streak_of_def)
qed

lemma activityVeto_cong:
  "rn_cfg r = rn_cfg r' \<Longrightarrow> rn_activity r = rn_activity r' \<Longrightarrow> activityVeto r = activityVeto r'"
  by (simp add: activityVeto_def fun_eq_iff cong: option.case_cong if_cong)

lemma activityVeto_streaks [simp]: "activityVeto (r\<lparr>rn_streaks := m\<rparr>) = activityVeto r"
  by (rule activityVeto_cong) simp_all

subsection \<open>Properties of the health poll\<close>

text \<open>
  C12: the health poll acts exactly on full streaks.  After any sequence of probes of a fresh
  runner, one more probe quarantines its replica if and only if the replica is not marked
  quarantined in the snapshot, the last \<^verbatim>\<open>FailureThreshold\<close> outcomes for this very replica
  (the new one included) are failures, and no request completed on it within the activity window;
  it restores the replica exactly when it is marked quarantined and the last
  \<^verbatim>\<open>SuccessThreshold\<close> outcomes are successes; in every other case the state is unchanged.
\<close>

theorem healthcheck_exact:
  assumes "rn_streaks r0 = Map.empty" "fold run_event es (r0, st0) = (r, st)"
    and "h = history (job_key j) (es @ [(http, now, j)])"
  shows "snd (run_job http now j (r, st)) =
    (if \<not> pj_quarantined j \<and> hc_failure_threshold (rn_cfg r0) \<le> trailing False h
        \<and> \<not> activityVeto r0 now (pj_deploy j) (pj_instance j)
     then Quarantine (pj_deploy j) (pj_instance j) st
     else if pj_quarantined j \<and> hc_success_threshold (rn_cfg r0) \<le> trailing True h
     then Restore (pj_deploy j) (pj_instance j) st
     else st)"
proof -
  have cfg: "rn_cfg r = rn_cfg r0" and act: "rn_activity r = rn_activity r0"
    using run_events_config [of es "(r0, st0)"] assms(2) by simp_all
  have veto: "activityVeto r = activityVeto r0" by (rule activityVeto_cong [OF cfg act])
  have "h = history (job_key j) es @ [doProbe http (pj_endpoint j)]"
    by (simp add: assms(3) history_def)
  then have "bump (doProbe http (pj_endpoint j)) (streak_of (rn_streaks r) (job_key j)) = (trailing False h, trailing True h)"
    using streak_is_trailing [OF assms(1), of es st0 "job_key j"] assms(2) by (simp add: bump_trailing)
  then show ?thesis
    by (simp add: run_job_def probe_def Let_def job_key_def [symmetric] cfg veto)
qed

definition failing_job :: probe_job where
  "failing_job = \<lparr>pj_deploy = ''d'', pj_instance = ''d'', pj_endpoint = ''http://e/'', pj_quarantined = False\<rparr>"

theorem healthcheck_exact_witness:
  "\<exists>r st. fold run_event (replicate 2 (\<lambda>_. None, 0, failing_job)) (NewRunner DefaultConfig, sample_state) = (r, st)
     \<and> snd (run_job (\<lambda>_. None) 0 failing_job (r, st)) = Quarantine ''d'' ''d'' st"
proof -
  let ?es = "replicate 2 ((\<lambda>_. None, 0, failing_job) :: probe_event)"
  obtain r st where rs: "fold run_event ?es (NewRunner DefaultConfig, sample_state) = (r, st)" by fastforce
  have h: "history (job_key failing_job) (?es @ [((\<lambda>_. None), 0, failing_job)]) = replicate 3 False"
    by (simp add: history_def eval_nat_numeral doProbe_def)
  have t: "trailing False (replicate 3 False) = 3" by (simp add: trailing_def eval_nat_numeral)
  have "rn_streaks (NewRunner DefaultConfig) = Map.empty" by (simp add: NewRunner_def)
  from healthcheck_exact [OF this rs, of _ failing_job "\<lambda>_. None" 0] h t rs show ?thesis
    by (simp add: failing_job_def NewRunner_def DefaultConfig_def or_default_def activityVeto_def)
qed

text \<open>
  When every member runs on one machine, the poll probes the members the router routes to.
  The replicas of a snapshot are then, in order, the members' machines with their endpoints, and
  a replica is marked quarantined exactly when its machine is.
\<close>

theorem snapshot_aligned:
  assumes "dep_replicas dep \<noteq> []" "list_all (\<lambda>b. length (rb_instance_ids b) = 1) (dep_replicas dep)"
  shows "dsn_replicas (snapshot_of dep) =
    map (\<lambda>(i, ep). \<lparr>rsn_instance = i, rsn_endpoint = ep, rsn_quarantined = (i \<in> set (dep_unhealthy dep))\<rparr>)
      (zip (EffectiveMemberInstanceIDs dep) (EffectiveEndpoints dep))"
proof -
  have c: "concat (map rb_instance_ids bs) = map (\<lambda>r. case rb_instance_ids r of [] \<Rightarrow> [] | i # _ \<Rightarrow> i) bs"
    if "list_all (\<lambda>b. length (rb_instance_ids b) = 1) bs" for bs
    using that by (induction bs) (auto simp: length_Suc_conv)
  have ids: "EffectiveInstanceIDs dep = EffectiveMemberInstanceIDs dep"
    using assms by (simp add: EffectiveInstanceIDs_def EffectiveMemberInstanceIDs_def c Let_def)
  show ?thesis
    by (rule nth_equalityI) (simp_all add: snapshot_of_def ids Let_def assms(1) effective_endpoints_length)
qed

theorem snapshot_aligned_witness:
  "dsn_replicas (snapshot_of sample_deployment) =
     [\<lparr>rsn_instance = ''d-r0'', rsn_endpoint = ''u0'', rsn_quarantined = True\<rparr>,
      \<lparr>rsn_instance = ''d-r1'', rsn_endpoint = ''u1'', rsn_quarantined = False\<rparr>]"
  using snapshot_aligned [of sample_deployment]
  by (simp add: sample_deployment_def EffectiveMemberInstanceIDs_def EffectiveEndpoints_def)

definition two_node_members :: deployment where
  "two_node_members =
     zero_deployment\<lparr>dep_id := ''d'', dep_state := DRunning,
       dep_replicas := [\<lparr>rb_instance_ids = [''a0'', ''a1''], rb_endpoint = ''ua''\<rparr>,
                        \<lparr>rb_instance_ids = [''b0'', ''b1''], rb_endpoint = ''ub''\<rparr>]\<rparr>"

text \<open>
  With members of several machines the poll blames the wrong machine.  For two two-node
  members the second endpoint is attributed to the second machine of the first member, so the
  failure of the second member quarantines the first one and leaves the second in rotation.
\<close>

theorem snapshot_misattributes:
  "dsn_replicas (snapshot_of two_node_members) ! 1 =
     \<lparr>rsn_instance = ''a1'', rsn_endpoint = ''ub'', rsn_quarantined = False\<rparr>
   \<and> eligibleReplicas (two_node_members\<lparr>dep_unhealthy := [''a1'']\<rparr>) = [\<lparr>r_instance = ''b0'', r_endpoint = ''ub''\<rparr>]"
  by (simp add: snapshot_of_def two_node_members_def EffectiveInstanceIDs_def EffectiveEndpoints_def
      zero_deployment_def eligibleReplicas_def memberInstanceIDs_def quarantinedSet_def anyQuarantined_def Let_def)

end
