(* ===== verification/Engine_Registry.thy ===== *)
theory Engine_Registry
  imports Deployment_Ops "HOL-Library.Multiset"
begin

text \<open>
  The engine registry (\<^verbatim>\<open>internal/engines\<close>): registrations are leases that engines renew, an expired
  lease moves the engine to LOST, and an operator's drain moves it to DRAINING.  The registry reads
  the store's engine map in an unspecified order, which is an argument \<open>order\<close> of every
  operation that does so.  Readings an engine reports and the registry only carries (in-flight
  count, cache utilisation, staging progress, link health) are left out of the record, and the
  store's own I/O errors are not modelled.
\<close>

subsection \<open>Store adapter\<close>

definition PutEngine :: "engine \<Rightarrow> state \<Rightarrow> state" where
  "PutEngine e st = st\<lparr>st_engines := (st_engines st)(en_id e \<mapsto> e)\<rparr>"

definition ListEngines :: "gostring list \<Rightarrow> state \<Rightarrow> engine list" where
  "ListEngines order st = List.map_filter (st_engines st) order"

subsection \<open>Registry\<close>

definition DefaultLease :: duration where "DefaultLease = 30 * second"
definition RenewDivisor :: int where "RenewDivisor = 3"

datatype registry_error = ErrNoID | ErrSelfLost | ErrUnknownEngine

definition WithLease :: "duration \<Rightarrow> duration \<Rightarrow> duration" where
  "WithLease d lease = (if d > 0 then d else lease)"

definition LeaseSeconds :: "duration \<Rightarrow> int" where
  "LeaseSeconds lease = (lease div second + 2 ^ 31) mod 2 ^ 32 - 2 ^ 31"

definition RenewInterval :: "duration \<Rightarrow> duration" where
  "RenewInterval lease = lease div RenewDivisor"

definition sortSpan :: "engine \<Rightarrow> engine" where
  "sortSpan e = e\<lparr>en_span := sort_key nd_index (en_span e)\<rparr>"

definition lookupLocked :: "gostring list \<Rightarrow> gostring \<Rightarrow> state \<Rightarrow> engine option" where
  "lookupLocked order ident st = find (\<lambda>e. en_id e = ident) (ListEngines order st)"

definition Register ::
  "duration \<Rightarrow> timestamp \<Rightarrow> gostring list \<Rightarrow> engine \<Rightarrow> state \<Rightarrow> (registry_error + engine) \<times> state" where
  "Register lease now order inp st =
     (if en_id inp = [] then (Inl ErrNoID, st)
      else if en_state inp = ELost then (Inl ErrSelfLost, st)
      else
        (let e1 = (if en_state inp = EUnspecified then inp\<lparr>en_state := EAssembling\<rparr> else inp);
             e2 = sortSpan e1;
             prior = lookupLocked order (en_id e2) st;
             reg = (case prior of
                      Some p \<Rightarrow> (case en_registered_at p of Some t \<Rightarrow> Some t | None \<Rightarrow> Some now)
                    | None \<Rightarrow> Some now);
             e3 = e2\<lparr>en_registered_at := reg\<rparr>;
             e4 = (case prior of
                     Some p \<Rightarrow> if en_state p = EDraining then e3\<lparr>en_state := EDraining\<rparr> else e3
                   | None \<Rightarrow> e3);
             e5 = e4\<lparr>en_last_seen_at := Some now, en_lease_expires_at := Some (now + lease)\<rparr>
         in (Inr e5, PutEngine e5 st)))"

definition SetState ::
  "gostring list \<Rightarrow> gostring \<Rightarrow> engine_state \<Rightarrow> state \<Rightarrow> (registry_error + engine) \<times> state" where
  "SetState order ident s st =
     (case lookupLocked order ident st of
        None \<Rightarrow> (Inl ErrUnknownEngine, st)
      | Some cur \<Rightarrow> (let next = cur\<lparr>en_state := s\<rparr> in (Inr next, PutEngine next st)))"

definition registry_Get :: "gostring list \<Rightarrow> gostring \<Rightarrow> state \<Rightarrow> engine option" where
  "registry_Get order ident st = find (\<lambda>e. en_id e = ident) (ListEngines order st)"

definition registry_List :: "gostring list \<Rightarrow> gostring \<Rightarrow> engine_state \<Rightarrow> state \<Rightarrow> engine list" where
  "registry_List order deploymentID s st =
     sort_key en_id
       (filter (\<lambda>e. (deploymentID = [] \<or> en_deployment_id e = deploymentID)
                  \<and> (s = EUnspecified \<or> en_state e = s)) (ListEngines order st))"

definition overdue :: "timestamp \<Rightarrow> engine \<Rightarrow> bool" where
  "overdue now e \<longleftrightarrow>
     en_state e \<noteq> ELost \<and> (case en_lease_expires_at e of None \<Rightarrow> False | Some expiry \<Rightarrow> now > expiry)"

fun expire_loop :: "timestamp \<Rightarrow> engine list \<Rightarrow> nat \<Rightarrow> state \<Rightarrow> nat \<times> state" where
  "expire_loop now [] changed st = (changed, st)"
| "expire_loop now (e # es) changed st =
     (if overdue now e then expire_loop now es (Suc changed) (PutEngine (e\<lparr>en_state := ELost\<rparr>) st)
      else expire_loop now es changed st)"

definition ExpireOverdue :: "timestamp \<Rightarrow> gostring list \<Rightarrow> state \<Rightarrow> nat \<times> state" where
  "ExpireOverdue now order st = expire_loop now (ListEngines order st) 0 st"

definition TotalCards :: "engine \<Rightarrow> int" where
  "TotalCards e =
     foldl (\<lambda>n node. (n + nd_gpu_count node + 2 ^ 31) mod 2 ^ 32 - 2 ^ 31) 0 (en_span e)"

subsection \<open>Identity of a node\<close>

definition dec_int :: "int \<Rightarrow> gostring" where
  "dec_int n = (if n < 0 then ''-'' @ dec (nat (- n)) else dec (nat n))"

definition machineIDFromMetadata :: "inst \<Rightarrow> gostring \<Rightarrow> gostring" where
  "machineIDFromMetadata i provider =
     (if provider = [] then []
      else
        (case in_metadata i (provider @ ''.machine_id'') of
           None \<Rightarrow> []
         | Some (MetaString s) \<Rightarrow> s
         | Some (MetaNumber n) \<Rightarrow> if n \<noteq> 0 then dec_int n else []
         | Some MetaOther \<Rightarrow> []))"

record node_identity =
  ni_host :: gostring
  ni_provider :: gostring
  ni_endpoint :: gostring

fun locate_endpoint :: "deployment list \<Rightarrow> gostring \<Rightarrow> gostring" where
  "locate_endpoint [] engineID = []"
| "locate_endpoint (dep # deps) engineID =
     (let slot = MemberOf dep engineID
      in if slot \<ge> 0 then
           (let ep = (if slot < int (length (EffectiveEndpoints dep))
                      then EffectiveEndpoints dep ! nat slot else [])
            in if ep = [] then dep_engine_endpoint dep else ep)
         else locate_endpoint deps engineID)"

definition LocateEngineNode :: "gostring list \<Rightarrow> gostring \<Rightarrow> state \<Rightarrow> node_identity option" where
  "LocateEngineNode order engineID st =
     (case st_instances st engineID of
        None \<Rightarrow> None
      | Some i \<Rightarrow>
          Some \<lparr>ni_host = machineIDFromMetadata i (in_provider i), ni_provider = in_provider i,
                ni_endpoint = locate_endpoint (List.map_filter (st_deployments st) order) engineID\<rparr>)"

definition zero_node :: engine_node where
  "zero_node = \<lparr>nd_index = 0, nd_host_id = [], nd_provider = [], nd_gpu_count = 0\<rparr>"

definition fill_node :: "node_identity \<Rightarrow> engine_node \<Rightarrow> engine_node" where
  "fill_node ident n =
     n\<lparr>nd_host_id := (if nd_host_id n = [] then ni_host ident else nd_host_id n),
       nd_provider := (if nd_provider n = [] then ni_provider ident else nd_provider n)\<rparr>"

text \<open>
  \<^verbatim>\<open>enrich\<close>; the locator is \<open>None\<close> when not wired, and answers \<open>None\<close> when the lookup fails or
  finds nothing.
\<close>

definition enrich :: "(gostring \<Rightarrow> node_identity option) option \<Rightarrow> engine \<Rightarrow> engine" where
  "enrich locator e =
     (case locator of
        None \<Rightarrow> e
      | Some locate \<Rightarrow>
          if en_id e = [] then e
          else if length (en_span e) > 1 then e
          else if en_span e \<noteq> [] \<and> nd_host_id (hd (en_span e)) \<noteq> [] \<and> en_endpoint e \<noteq> [] then e
          else
            (case locate (en_id e) of
               None \<Rightarrow> e
             | Some ident \<Rightarrow>
                 e\<lparr>en_endpoint := (if en_endpoint e = [] then ni_endpoint ident else en_endpoint e),
                   en_span := (case en_span e of
                                 [] \<Rightarrow> [fill_node ident zero_node]
                               | n # ns \<Rightarrow> fill_node ident n # ns)\<rparr>))"

definition RegisterEngine ::
  "(gostring \<Rightarrow> node_identity option) option \<Rightarrow> duration \<Rightarrow> timestamp \<Rightarrow> gostring list \<Rightarrow> engine \<Rightarrow> state
   \<Rightarrow> (registry_error + engine \<times> int) \<times> state" where
  "RegisterEngine locator lease now order incoming st =
     (case Register lease now order (enrich locator incoming) st of
        (Inl e, st') \<Rightarrow> (Inl e, st')
      | (Inr stored, st') \<Rightarrow> (Inr (stored, LeaseSeconds lease), st'))"

subsection \<open>Draining\<close>

definition DefaultDrainTimeout :: duration where "DefaultDrainTimeout = 2 * minute"

datatype drain_error = DrainNoDeployment | DrainNoReplicas | DrainCancelled | DrainUnknownDeployment | DrainDestroyFailed

fun quarantine_all :: "gostring \<Rightarrow> gostring list \<Rightarrow> state \<Rightarrow> state" where
  "quarantine_all deployID [] st = st"
| "quarantine_all deployID (instID # ids) st =
     quarantine_all deployID ids (if instID = [] then st else Quarantine deployID instID st)"

text \<open>
  \<^verbatim>\<open>cancelled\<close> says, for a wait of the given length, whether the caller's context ends first.
  The health poll keeps running during the wait; \<open>meanwhile\<close> is what other components do to the
  state in that time.
\<close>

definition DrainReplicas ::
  "(duration \<Rightarrow> bool) \<Rightarrow> (state \<Rightarrow> state) \<Rightarrow> duration \<Rightarrow> bool \<Rightarrow> gostring \<Rightarrow> gostring list \<Rightarrow> state
   \<Rightarrow> (drain_error + unit) \<times> state" where
  "DrainReplicas cancelled meanwhile timeout force deployID instanceIDs st =
     (if deployID = [] then (Inl DrainNoDeployment, st)
      else if instanceIDs = [] then (Inl DrainNoReplicas, st)
      else
        (let st1 = quarantine_all deployID instanceIDs st
         in if force then (Inr (), st1)
            else
              (let wait = (if timeout \<le> 0 then DefaultDrainTimeout else timeout)
               in if cancelled wait then (Inl DrainCancelled, meanwhile st1)
                  else (Inr (), meanwhile st1))))"

definition DrainAndDestroyDeployment ::
  "svc \<Rightarrow> timestamp \<Rightarrow> (duration \<Rightarrow> bool) \<Rightarrow> (state \<Rightarrow> state) \<Rightarrow> duration \<Rightarrow> bool \<Rightarrow> gostring \<Rightarrow> state
   \<Rightarrow> (drain_error + gostring list) \<times> state" where
  "DrainAndDestroyDeployment sv now cancelled meanwhile timeout force deployID st =
     (case st_deployments st deployID of
        None \<Rightarrow> (Inl DrainUnknownDeployment, st)
      | Some dep \<Rightarrow>
          (let ids = EffectiveInstanceIDs dep
           in case DrainReplicas cancelled meanwhile timeout force deployID ids st of
                (Inl e, st1) \<Rightarrow> (Inl e, st1)
              | (Inr _, st1) \<Rightarrow>
                  (case DestroyDeployment sv now deployID st1 of
                     (Inl _, st2) \<Rightarrow> (Inl DrainDestroyFailed, st2)
                   | (Inr _, st2) \<Rightarrow> (Inr ids, st2))))"

datatype drain_reply = DrainInvalid | DrainUnimplemented | DrainNotFound | DrainPrecondition | DrainInternal
  | Drained "engine option" "gostring list"

definition DrainEngine ::
  "(duration \<Rightarrow> bool \<Rightarrow> gostring \<Rightarrow> state \<Rightarrow> (drain_error + gostring list) \<times> state) option \<Rightarrow> duration
   \<Rightarrow> gostring list \<Rightarrow> gostring \<Rightarrow> int \<Rightarrow> bool \<Rightarrow> state \<Rightarrow> drain_reply \<times> state" where
  "DrainEngine drainer maxDrainTimeout order ident timeoutSeconds force st =
     (if ident = [] then (DrainInvalid, st)
      else
        (case drainer of
           None \<Rightarrow> (DrainUnimplemented, st)
         | Some drain \<Rightarrow>
             (let timeout = timeoutSeconds * second
              in if \<not> force \<and> timeout > maxDrainTimeout then (DrainInvalid, st)
                 else
                   (case registry_Get order ident st of
                      None \<Rightarrow> (DrainNotFound, st)
                    | Some eng \<Rightarrow>
                        if en_deployment_id eng = [] then (DrainPrecondition, st)
                        else
                          (case SetState order ident EDraining st of
                             (Inl _, st1) \<Rightarrow> (DrainInternal, st1)
                           | (Inr _, st1) \<Rightarrow>
                               (case drain timeout force (en_deployment_id eng) st1 of
                                  (Inl _, st2) \<Rightarrow> (DrainInternal, st2)
                                | (Inr released, st2) \<Rightarrow>
                                    (Drained (registry_Get order ident st2) released, st2)))))))"

subsection \<open>Lemmas on the registry\<close>

text \<open>The map is keyed by the engines' ids, and \<open>order\<close> enumerates it.\<close>

definition engines_ok :: "state \<Rightarrow> bool" where
  "engines_ok st \<longleftrightarrow> (\<forall>k e. st_engines st k = Some e \<longrightarrow> en_id e = k)"

definition enumerates :: "gostring list \<Rightarrow> state \<Rightarrow> bool" where
  "enumerates order st \<longleftrightarrow> distinct order \<and> set order = dom (st_engines st)"

lemma find_map_filter:
  "(\<forall>k\<in>set order. \<forall>e. m k = Some e \<longrightarrow> en_id e = k) \<Longrightarrow>
   find (\<lambda>e. en_id e = x) (List.map_filter m order) = (if x \<in> set order then m x else None)"
  by (induction order) (auto simp: List.map_filter_simps split: option.split)

lemma lookup_engine:
  assumes "engines_ok st" "enumerates order st"
  shows "lookupLocked order k st = st_engines st k" "registry_Get order k st = st_engines st k"
  using find_map_filter [of order "st_engines st" k] assms
  by (auto simp: lookupLocked_def registry_Get_def ListEngines_def engines_ok_def enumerates_def dom_def)

lemma PutEngine_simps [simp]:
  "st_engines (PutEngine e st) = (st_engines st)(en_id e \<mapsto> e)"
  "st_deployments (PutEngine e st) = st_deployments st" "st_instances (PutEngine e st) = st_instances st"
  by (simp_all add: PutEngine_def)

lemma PutEngine_ok: "engines_ok st \<Longrightarrow> engines_ok (PutEngine e st)"
  by (auto simp: engines_ok_def split: if_splits)

lemma sortSpan_simps [simp]:
  "en_id (sortSpan e) = en_id e" "en_state (sortSpan e) = en_state e"
  "en_span (sortSpan e) = sort_key nd_index (en_span e)"
  by (simp_all add: sortSpan_def)

lemma Register_result:
  assumes "engines_ok st" "enumerates order st" "en_id inp \<noteq> []" "en_state inp \<noteq> ELost"
  obtains e where "Register lease now order inp st = (Inr e, PutEngine e st)" "en_id e = en_id inp"
    "en_last_seen_at e = Some now" "en_lease_expires_at e = Some (now + lease)"
    "en_span e = sort_key nd_index (en_span inp)"
    "en_registered_at e = (case st_engines st (en_id inp) of
        Some p \<Rightarrow> (case en_registered_at p of Some t \<Rightarrow> Some t | None \<Rightarrow> Some now) | None \<Rightarrow> Some now)"
    "en_state e = (if map_option en_state (st_engines st (en_id inp)) = Some EDraining then EDraining
        else if en_state inp = EUnspecified then EAssembling else en_state inp)"
proof (cases "st_engines st (en_id inp)")
  case None
  show ?thesis
    by (rule that [of "sortSpan (if en_state inp = EUnspecified then inp\<lparr>en_state := EAssembling\<rparr> else inp)
          \<lparr>en_registered_at := Some now, en_last_seen_at := Some now, en_lease_expires_at := Some (now + lease)\<rparr>"])
      (use assms None in \<open>simp_all add: Register_def Let_def lookup_engine\<close>)
next
  case (Some p)
  let ?e = "sortSpan (if en_state inp = EUnspecified then inp\<lparr>en_state := EAssembling\<rparr> else inp)
      \<lparr>en_registered_at := (case en_registered_at p of Some t \<Rightarrow> Some t | None \<Rightarrow> Some now)\<rparr>"
  let ?e4 = "if en_state p = EDraining then ?e\<lparr>en_state := EDraining\<rparr> else ?e"
  show ?thesis
    by (rule that [of "?e4\<lparr>en_last_seen_at := Some now, en_lease_expires_at := Some (now + lease)\<rparr>"])
      (use assms Some in \<open>simp_all add: Register_def Let_def lookup_engine\<close>)
qed

definition expired :: "timestamp \<Rightarrow> engine \<Rightarrow> engine" where
  "expired now e = (if overdue now e then e\<lparr>en_state := ELost\<rparr> else e)"

lemma expire_loop_count: "fst (expire_loop now es n st) = n + length (filter (overdue now) es)"
  by (induction es arbitrary: n st) simp_all

lemma expire_loop_other:
  "k \<notin> en_id ` set es \<Longrightarrow> st_engines (snd (expire_loop now es n st)) k = st_engines st k"
  by (induction es arbitrary: n st) simp_all

lemma expire_loop_member:
  "distinct (map en_id es) \<Longrightarrow> e \<in> set es \<Longrightarrow> st_engines st (en_id e) = Some e \<Longrightarrow>
   st_engines (snd (expire_loop now es n st)) (en_id e) = Some (expired now e)"
proof (induction es arbitrary: n st)
  case (Cons x es)
  show ?case
  proof (cases "x = e")
    case True
    then have "en_id e \<notin> en_id ` set es" using Cons.prems(1) by simp
    with True Cons.prems(3) show ?thesis by (simp add: expire_loop_other expired_def)
  next
    case False
    then have e: "e \<in> set es" "en_id x \<noteq> en_id e" using Cons.prems(1,2) by auto
    have d: "distinct (map en_id es)" using Cons.prems(1) by simp
    show ?thesis using Cons.IH [OF d e(1)] Cons.prems(3) e(2) by simp
  qed
qed simp

lemma map_filter_engines:
  "\<forall>k e. m k = Some e \<longrightarrow> en_id e = k \<Longrightarrow> set order \<subseteq> dom m \<Longrightarrow> map en_id (List.map_filter m order) = order"
  by (induction order) (auto simp: List.map_filter_simps split: option.split)

lemma ListEngines_ids:
  assumes "engines_ok st" "enumerates order st"
  shows "map en_id (ListEngines order st) = order"
    and "e \<in> set (ListEngines order st) \<longleftrightarrow> st_engines st (en_id e) = Some e"
proof -
  show "map en_id (ListEngines order st) = order"
    using assms by (simp add: ListEngines_def engines_ok_def enumerates_def map_filter_engines)
  have "e \<in> set (ListEngines order st) \<longleftrightarrow> (\<exists>k\<in>set order. st_engines st k = Some e)"
    by (force simp: ListEngines_def List.map_filter_def)
  then show "e \<in> set (ListEngines order st) \<longleftrightarrow> st_engines st (en_id e) = Some e"
    using assms by (auto simp: engines_ok_def enumerates_def dom_def)
qed

lemma ExpireOverdue_engines:
  assumes "engines_ok st" "enumerates order st"
  shows "st_engines (snd (ExpireOverdue now order st)) k = map_option (expired now) (st_engines st k)"
proof (cases "st_engines st k")
  case None
  then have "k \<notin> en_id ` set (ListEngines order st)"
    using ListEngines_ids(2) [OF assms] by auto
  then show ?thesis using None by (simp add: ExpireOverdue_def expire_loop_other)
next
  case (Some e)
  then have k: "en_id e = k" using assms(1) by (simp add: engines_ok_def)
  have d: "distinct (map en_id (ListEngines order st))"
    using ListEngines_ids(1) [OF assms] assms(2) by (simp add: enumerates_def)
  have m: "e \<in> set (ListEngines order st)" using ListEngines_ids(2) [OF assms] Some k by simp
  from expire_loop_member [OF d m, of st now 0] Some k show ?thesis by (simp add: ExpireOverdue_def)
qed

lemma expired_idem: "expired now (expired now e) = expired now e" "\<not> overdue now (expired now e)"
  by (simp_all add: expired_def overdue_def)

subsection \<open>Runs of the registry\<close>

datatype reg_op = OpRegister timestamp engine | OpSetState gostring engine_state | OpExpire timestamp

inductive reg_step :: "duration \<Rightarrow> reg_op \<Rightarrow> state \<Rightarrow> state \<Rightarrow> bool" for lease where
  register: "enumerates order st \<Longrightarrow> reg_step lease (OpRegister now e) st (snd (Register lease now order e st))"
| set_state: "enumerates order st \<Longrightarrow> reg_step lease (OpSetState k s) st (snd (SetState order k s st))"
| expire: "enumerates order st \<Longrightarrow> reg_step lease (OpExpire now) st (snd (ExpireOverdue now order st))"

inductive reg_run :: "duration \<Rightarrow> reg_op list \<Rightarrow> state \<Rightarrow> state \<Rightarrow> bool" for lease where
  nil: "reg_run lease [] st st"
| step: "reg_step lease p st st1 \<Longrightarrow> reg_run lease ps st1 st2 \<Longrightarrow> reg_run lease (p # ps) st st2"

inductive_cases reg_registerE: "reg_step lease (OpRegister now e) st st'"
inductive_cases reg_set_stateE: "reg_step lease (OpSetState k s) st st'"
inductive_cases reg_expireE: "reg_step lease (OpExpire now) st st'"
inductive_cases reg_run_ConsE: "reg_run lease (p # ps) st st'"
inductive_cases reg_run_NilE: "reg_run lease [] st st'"

lemma Register_ok:
  assumes "engines_ok st" "enumerates order st"
  shows "engines_ok (snd (Register lease now order e st))"
proof (cases "en_id e = [] \<or> en_state e = ELost")
  case True
  then show ?thesis using assms(1) by (auto simp: Register_def)
next
  case False
  then show ?thesis using Register_result [OF assms, of e lease now] PutEngine_ok [OF assms(1)]
    by (metis snd_conv)
qed

lemma SetState_ok: "engines_ok st \<Longrightarrow> engines_ok (snd (SetState order k s st))"
  by (simp add: SetState_def Let_def PutEngine_ok split: option.split)

lemma ExpireOverdue_ok:
  assumes "engines_ok st" "enumerates order st"
  shows "engines_ok (snd (ExpireOverdue now order st))"
  unfolding engines_ok_def ExpireOverdue_engines [OF assms]
  using assms(1) by (auto simp: engines_ok_def expired_def)

lemma reg_step_ok: "reg_step lease p st st' \<Longrightarrow> engines_ok st \<Longrightarrow> engines_ok st'"
  by (induction rule: reg_step.induct) (simp_all add: Register_ok SetState_ok ExpireOverdue_ok)

text \<open>
  The engine \<open>k\<close>, last renewed at time \<open>t\<close>, renews before every sweep that could find its lease
  expired, and nobody sets its state by hand.
\<close>

fun timely :: "duration \<Rightarrow> gostring \<Rightarrow> timestamp \<Rightarrow> reg_op list \<Rightarrow> bool" where
  "timely lease k t [] \<longleftrightarrow> True"
| "timely lease k t (OpRegister now e # ops) \<longleftrightarrow>
     timely lease k (if en_id e = k \<and> k \<noteq> [] \<and> en_state e \<noteq> ELost then now else t) ops"
| "timely lease k t (OpSetState j s # ops) \<longleftrightarrow> j \<noteq> k \<and> timely lease k t ops"
| "timely lease k t (OpExpire now # ops) \<longleftrightarrow> now \<le> t + lease \<and> timely lease k t ops"

definition alive_at :: "duration \<Rightarrow> gostring \<Rightarrow> timestamp \<Rightarrow> bool \<Rightarrow> state \<Rightarrow> bool" where
  "alive_at lease k t draining st \<longleftrightarrow>
     (\<exists>e. st_engines st k = Some e \<and> en_state e \<noteq> ELost \<and> en_lease_expires_at e = Some (t + lease)
        \<and> (draining \<longrightarrow> en_state e = EDraining))"

lemma alive_register:
  assumes "engines_ok st" "enumerates order st" "alive_at lease k t dr st"
  shows "alive_at lease k (if en_id e = k \<and> k \<noteq> [] \<and> en_state e \<noteq> ELost then now else t) dr
    (snd (Register lease now order e st))"
proof (cases "en_id e = [] \<or> en_state e = ELost")
  case True
  then have "snd (Register lease now order e st) = st" by (auto simp: Register_def)
  then show ?thesis using assms(3) True by auto
next
  case False
  then obtain x where x: "Register lease now order e st = (Inr x, PutEngine x st)" "en_id x = en_id e"
    "en_lease_expires_at x = Some (now + lease)"
    "en_state x = (if map_option en_state (st_engines st (en_id e)) = Some EDraining then EDraining
        else if en_state e = EUnspecified then EAssembling else en_state e)"
    using Register_result [OF assms(1,2), of e lease now] by metis
  then show ?thesis using assms(3) False by (auto simp: alive_at_def)
qed

lemma alive_set_state:
  assumes "engines_ok st" "enumerates order st" "alive_at lease k t dr st" "j \<noteq> k"
  shows "alive_at lease k t dr (snd (SetState order j s st))"
proof (cases "st_engines st j")
  case (Some e)
  then have "en_id e = j" using assms(1) by (simp add: engines_ok_def)
  with Some show ?thesis using assms by (simp add: SetState_def lookup_engine alive_at_def Let_def)
qed (use assms in \<open>simp add: SetState_def lookup_engine\<close>)

lemma alive_expire:
  assumes "engines_ok st" "enumerates order st" "alive_at lease k t dr st" "now \<le> t + lease"
  shows "alive_at lease k t dr (snd (ExpireOverdue now order st))"
proof -
  obtain e where e: "st_engines st k = Some e" "en_lease_expires_at e = Some (t + lease)" "en_state e \<noteq> ELost"
    "dr \<longrightarrow> en_state e = EDraining"
    using assms(3) by (auto simp: alive_at_def)
  have "expired now e = e" using e(2) assms(4) by (simp add: expired_def overdue_def)
  then show ?thesis using e by (simp add: alive_at_def ExpireOverdue_engines [OF assms(1,2)])
qed

lemma timely_alive:
  "reg_run lease ps st st' \<Longrightarrow> engines_ok st \<Longrightarrow> alive_at lease k t dr st \<Longrightarrow> timely lease k t ps \<Longrightarrow>
   \<exists>t'. alive_at lease k t' dr st'"
proof (induction ps arbitrary: st t)
  case Nil
  then show ?case by (auto elim: reg_run_NilE)
next
  case (Cons p ps)
  obtain st1 where s1: "reg_step lease p st st1" and rest: "reg_run lease ps st1 st'"
    using Cons.prems(1) by (rule reg_run_ConsE)
  have ok1: "engines_ok st1" using reg_step_ok [OF s1 Cons.prems(2)] .
  note IH = Cons.IH [OF rest ok1]
  show ?case
  proof (cases p)
    case (OpRegister now e)
    let ?t = "if en_id e = k \<and> k \<noteq> [] \<and> en_state e \<noteq> ELost then now else t"
    have "alive_at lease k ?t dr st1"
      using s1 alive_register [OF Cons.prems(2) _ Cons.prems(3)] unfolding OpRegister by (blast elim: reg_registerE)
    moreover have "timely lease k ?t ps" using Cons.prems(4) OpRegister by simp
    ultimately show ?thesis by (rule IH)
  next
    case (OpSetState j s)
    then have "alive_at lease k t dr st1"
      using s1 alive_set_state [OF Cons.prems(2) _ Cons.prems(3)] Cons.prems(4) by (auto elim!: reg_set_stateE)
    then show ?thesis using IH Cons.prems(4) OpSetState by simp
  next
    case (OpExpire now)
    then have "alive_at lease k t dr st1"
      using s1 alive_expire [OF Cons.prems(2) _ Cons.prems(3)] Cons.prems(4) by (auto elim!: reg_expireE)
    then show ?thesis using IH Cons.prems(4) OpExpire by simp
  qed
qed

subsection \<open>Properties of the registry\<close>

text \<open>
  A sweep declares lost exactly the engines whose lease has run out.  Every engine that is
  not LOST and whose lease expired before \<open>now\<close> becomes LOST with nothing else about it changed,
  every other engine is untouched, and a second sweep at the same time finds nothing to do.
\<close>

theorem expire_exact:
  assumes "engines_ok st" "enumerates order st" "ExpireOverdue now order st = (n, st')" "enumerates order' st'"
  shows "(\<forall>k. st_engines st' k = map_option (\<lambda>e. if overdue now e then e\<lparr>en_state := ELost\<rparr> else e) (st_engines st k))
    \<and> n = length (filter (overdue now) (ListEngines order st))
    \<and> fst (ExpireOverdue now order' st') = 0"
proof (intro conjI allI)
  have st': "st_engines st' k = map_option (expired now) (st_engines st k)" for k
    using ExpireOverdue_engines [OF assms(1,2)] assms(3) by (metis snd_conv)
  then show "st_engines st' k = map_option (\<lambda>e. if overdue now e then e\<lparr>en_state := ELost\<rparr> else e) (st_engines st k)" for k
    by (simp add: expired_def [abs_def])
  show "n = length (filter (overdue now) (ListEngines order st))"
    using expire_loop_count [of now "ListEngines order st" 0 st] assms(3) by (simp add: ExpireOverdue_def)
  have ok': "engines_ok st'" using ExpireOverdue_ok [OF assms(1,2), of now] assms(3) by simp
  have "\<not> overdue now e" if "e \<in> set (ListEngines order' st')" for e
    using that ListEngines_ids(2) [OF ok' assms(4)] st' [of "en_id e"] expired_idem(2) by auto
  then have "filter (overdue now) (ListEngines order' st') = []" by (simp add: filter_empty_conv)
  then show "fst (ExpireOverdue now order' st') = 0" by (simp add: ExpireOverdue_def expire_loop_count)
qed

definition sample_engine :: engine where
  "sample_engine =
     \<lparr>en_id = ''e'', en_deployment_id = ''d'', en_model = ''m'', en_state = EServing, en_endpoint = ''u'',
      en_span = [], en_registered_at = Some 0, en_last_seen_at = Some 0, en_lease_expires_at = Some 30\<rparr>"

definition engine_world :: "engine \<Rightarrow> state" where
  "engine_world e = NewState\<lparr>st_engines := [en_id e \<mapsto> e]\<rparr>"

lemma engine_world_ok [simp]: "engines_ok (engine_world e)" "enumerates [en_id e] (engine_world e)"
  by (simp_all add: engine_world_def engines_ok_def enumerates_def NewState_def)

theorem expire_exact_witness:
  "\<exists>st'. ExpireOverdue 31 [''e''] (engine_world sample_engine) = (1, st') \<and>
     st_engines st' ''e'' = Some (sample_engine\<lparr>en_state := ELost\<rparr>)"
proof -
  let ?st = "engine_world (sample_engine\<lparr>en_state := ELost\<rparr>)"
  have run: "ExpireOverdue 31 [''e''] (engine_world sample_engine) = (1, ?st)"
    by (simp add: ExpireOverdue_def ListEngines_def List.map_filter_simps engine_world_def sample_engine_def
        NewState_def overdue_def PutEngine_def)
  have ok: "engines_ok (engine_world sample_engine)" "enumerates [''e''] (engine_world sample_engine)" "enumerates [''e''] ?st"
    using engine_world_ok [of sample_engine] engine_world_ok [of "sample_engine\<lparr>en_state := ELost\<rparr>"]
    by (simp_all add: sample_engine_def)
  from expire_exact [OF ok(1,2) run ok(3)] run show ?thesis
    by (simp add: engine_world_def sample_engine_def NewState_def)
qed

text \<open>
  What a registration stores.  A registration with an id that does not claim to be LOST is
  stored under its id and touches no other engine; its lease runs from \<open>now\<close> whatever expiry
  the caller claimed, the time of the first registration is kept, the nodes are a sorted
  rearrangement of those reported, and an engine that is draining stays DRAINING although the
  renewal reports another state.
\<close>

theorem register_renews:
  assumes "engines_ok st" "enumerates order st" "en_id inp \<noteq> []" "en_state inp \<noteq> ELost"
  shows "\<exists>e st'. Register lease now order inp st = (Inr e, st')
    \<and> st_engines st' = (st_engines st)(en_id inp \<mapsto> e) \<and> engines_ok st'
    \<and> en_lease_expires_at e = Some (now + lease) \<and> en_last_seen_at e = Some now
    \<and> sorted (map nd_index (en_span e)) \<and> mset (en_span e) = mset (en_span inp)
    \<and> (\<forall>p t. st_engines st (en_id inp) = Some p \<and> en_registered_at p = Some t \<longrightarrow> en_registered_at e = Some t)
    \<and> (\<forall>p. st_engines st (en_id inp) = Some p \<and> en_state p = EDraining \<longrightarrow> en_state e = EDraining)"
proof -
  obtain e where e: "Register lease now order inp st = (Inr e, PutEngine e st)" "en_id e = en_id inp"
    "en_last_seen_at e = Some now" "en_lease_expires_at e = Some (now + lease)"
    "en_span e = sort_key nd_index (en_span inp)"
    "en_registered_at e = (case st_engines st (en_id inp) of
        Some p \<Rightarrow> (case en_registered_at p of Some t \<Rightarrow> Some t | None \<Rightarrow> Some now) | None \<Rightarrow> Some now)"
    "en_state e = (if map_option en_state (st_engines st (en_id inp)) = Some EDraining then EDraining
        else if en_state inp = EUnspecified then EAssembling else en_state inp)"
    by (rule Register_result [OF assms])
  then show ?thesis using PutEngine_ok [OF assms(1), of e]
    by (intro exI [of _ e] exI [of _ "PutEngine e st"]) auto
qed

theorem register_renews_witness:
  "\<exists>e st'. Register 30 10 [''e''] sample_engine (engine_world (sample_engine\<lparr>en_state := EDraining\<rparr>)) = (Inr e, st')
     \<and> en_state e = EDraining \<and> en_lease_expires_at e = Some 40"
proof -
  let ?st = "engine_world (sample_engine\<lparr>en_state := EDraining\<rparr>)"
  have "engines_ok ?st" "enumerates [''e''] ?st" "en_id sample_engine \<noteq> []" "en_state sample_engine \<noteq> ELost"
    "st_engines ?st (en_id sample_engine) = Some (sample_engine\<lparr>en_state := EDraining\<rparr>)"
    using engine_world_ok [of "sample_engine\<lparr>en_state := EDraining\<rparr>"]
    by (simp_all add: sample_engine_def engine_world_def NewState_def)
  then show ?thesis using register_renews [of ?st "[''e'']" sample_engine 30 10] by auto
qed

text \<open>
  C18: an engine that renews in time is never declared lost, and one that is draining keeps
  draining.  Over any run of registrations, state changes and sweeps, in any order, if the
  engine's last renewal is at most a lease old whenever a sweep happens and nobody changes its
  state by hand, the engine is known and not LOST at the end, and still DRAINING if it was.
\<close>

theorem timely_engine_never_lost:
  assumes "reg_run lease ps st st'" "engines_ok st" "st_engines st k = Some e" "en_state e \<noteq> ELost"
    and "en_lease_expires_at e = Some (t + lease)" "timely lease k t ps"
  shows "\<exists>e'. st_engines st' k = Some e' \<and> en_state e' \<noteq> ELost \<and> (en_state e = EDraining \<longrightarrow> en_state e' = EDraining)"
proof -
  have "alive_at lease k t (en_state e = EDraining) st" using assms(3-5) by (simp add: alive_at_def)
  from timely_alive [OF assms(1,2) this assms(6)] show ?thesis by (auto simp: alive_at_def)
qed

theorem timely_engine_never_lost_witness:
  "\<exists>st'. reg_run 30 [OpExpire 20] (engine_world sample_engine) st'
     \<and> (\<exists>e'. st_engines st' ''e'' = Some e' \<and> en_state e' \<noteq> ELost)"
proof -
  let ?st = "engine_world sample_engine"
  have ok: "engines_ok ?st" "enumerates [''e''] ?st" "st_engines ?st ''e'' = Some sample_engine"
    using engine_world_ok [of sample_engine] by (simp_all add: sample_engine_def engine_world_def)
  have run: "reg_run 30 [OpExpire 20] ?st (snd (ExpireOverdue 20 [''e''] ?st))"
    by (rule reg_run.step [OF reg_step.expire [OF ok(2)] reg_run.nil])
  with timely_engine_never_lost [OF run ok(1,3), of 0] show ?thesis
    by (auto simp: sample_engine_def)
qed

text \<open>
  A drain is forgotten when the lease of a draining engine lapses.  The sweep replaces
  DRAINING by LOST, and the next registration brings the engine back in the state it reports.
\<close>

theorem lapse_forgets_drain:
  assumes "engines_ok st" "enumerates order st" "st_engines st k = Some e" "en_state e = EDraining"
    and "en_lease_expires_at e = Some expiry" "expiry < now" "k \<noteq> []" "en_id inp = k" "en_state inp = EServing"
    and "enumerates order' (snd (ExpireOverdue now order st))"
  shows "\<exists>e'. st_engines (snd (Register lease later order' inp (snd (ExpireOverdue now order st)))) k = Some e'
    \<and> en_state e' = EServing"
proof -
  let ?st1 = "snd (ExpireOverdue now order st)"
  have lost: "map_option en_state (st_engines ?st1 k) = Some ELost"
    using assms(3-6) by (simp add: ExpireOverdue_engines [OF assms(1,2)] expired_def overdue_def)
  have "en_id inp \<noteq> []" "en_state inp \<noteq> ELost" using assms(7-9) by simp_all
  then obtain x where "Register lease later order' inp ?st1 = (Inr x, PutEngine x ?st1)" "en_id x = en_id inp"
    "en_state x = (if map_option en_state (st_engines ?st1 (en_id inp)) = Some EDraining then EDraining
        else if en_state inp = EUnspecified then EAssembling else en_state inp)"
    using Register_result [OF ExpireOverdue_ok [OF assms(1,2)] assms(10), of inp lease later] by metis
  then show ?thesis using lost assms(8,9) by simp
qed

theorem lapse_forgets_drain_witness:
  "\<exists>e'. st_engines (snd (Register 30 32 [''e''] sample_engine
      (snd (ExpireOverdue 31 [''e''] (engine_world (sample_engine\<lparr>en_state := EDraining\<rparr>)))))) ''e'' = Some e'
    \<and> en_state e' = EServing"
proof -
  let ?d = "sample_engine\<lparr>en_state := EDraining\<rparr>"
  let ?st = "engine_world ?d"
  have ok: "engines_ok ?st" "enumerates [''e''] ?st" "st_engines ?st ''e'' = Some ?d"
    using engine_world_ok [of ?d] by (simp_all add: sample_engine_def engine_world_def)
  have "snd (ExpireOverdue 31 [''e''] ?st) = engine_world (sample_engine\<lparr>en_state := ELost\<rparr>)"
    by (simp add: ExpireOverdue_def ListEngines_def List.map_filter_simps engine_world_def sample_engine_def
        NewState_def overdue_def PutEngine_def)
  then have "enumerates [''e''] (snd (ExpireOverdue 31 [''e''] ?st))"
    using engine_world_ok [of "sample_engine\<lparr>en_state := ELost\<rparr>"] by (simp add: sample_engine_def)
  from lapse_forgets_drain [OF ok _ _ _ _ _ _ this, of 30 sample_engine 30 32] show ?thesis
    by (simp add: sample_engine_def)
qed

end
