(* ===== verification/Fanout.thy ===== *)
theory Fanout
  imports Deployment_Ops
begin

text \<open>
  The fan-out of a deployment over several members (\<^verbatim>\<open>internal/provisioners/fanout.go\<close>): the slot
  table, the updates one replica may make to it, the aggregate state, the placement of a member
  made of several machines, and the plan of a scale-up.  Placing and destroying one machine are
  arguments; the goroutines of a fan-out meet in the store, whose updates are atomic, so their
  effect is a sequence of the updates defined here.
\<close>

subsection \<open>Members\<close>

record memberPlacement =
  mp_instances :: "inst list"
  mp_err :: "gostring option"

definition primary :: "memberPlacement \<Rightarrow> inst option" where
  "primary m = (case mp_instances m of [] \<Rightarrow> None | i # _ \<Rightarrow> Some i)"

definition member_ids :: "memberPlacement \<Rightarrow> gostring list" where
  "member_ids m = map in_id (mp_instances m)"

text \<open>Machines rented for a member that failed are handed back one by one; failures are logged.\<close>

fun returnMember :: "(gostring \<Rightarrow> 's \<Rightarrow> 's) \<Rightarrow> inst list \<Rightarrow> 's \<Rightarrow> 's" where
  "returnMember destroy [] s = s"
| "returnMember destroy (i # is) s = returnMember destroy is (destroy (in_id i) s)"

fun place_nodes ::
  "(gostring \<Rightarrow> 's \<Rightarrow> (gostring + inst) \<times> 's) \<Rightarrow> (gostring \<Rightarrow> 's \<Rightarrow> 's) \<Rightarrow> gostring \<Rightarrow> nat \<Rightarrow> nat list
   \<Rightarrow> inst list \<Rightarrow> 's \<Rightarrow> memberPlacement \<times> 's" where
  "place_nodes place destroy memberID nodes [] acc s = (\<lparr>mp_instances = acc, mp_err = None\<rparr>, s)"
| "place_nodes place destroy memberID nodes (n # ns) acc s =
     (case place (nodeInstanceID memberID n nodes) s of
        (Inl err, s') \<Rightarrow>
          (\<lparr>mp_instances = [],
            mp_err = Some (''node '' @ dec n @ '' of '' @ dec nodes @ '': '' @ err)\<rparr>,
           returnMember destroy acc s')
      | (Inr i, s') \<Rightarrow> place_nodes place destroy memberID nodes ns (acc @ [i]) s')"

definition placeMember ::
  "(gostring \<Rightarrow> 's \<Rightarrow> (gostring + inst) \<times> 's) \<Rightarrow> (gostring \<Rightarrow> 's \<Rightarrow> 's) \<Rightarrow> replica_spec \<Rightarrow> gostring \<Rightarrow> nat
   \<Rightarrow> nat \<Rightarrow> 's \<Rightarrow> memberPlacement \<times> 's" where
  "placeMember place destroy spec deployID slot totalSlots s =
     (let nodes = (if rs_nodes spec < 1 then 1 else nat (rs_nodes spec))
      in place_nodes place destroy (replicaInstanceID deployID slot totalSlots) nodes [0..<nodes] [] s)"

subsection \<open>The slot table\<close>

definition recordCreateSlots ::
  "gostring \<Rightarrow> replica_spec option list \<Rightarrow> memberPlacement list \<Rightarrow> state \<Rightarrow> state" where
  "recordCreateSlots deployID specs placements st =
     update_deployment deployID
       (\<lambda>rec.
          let r1 = rec\<lparr>dep_replicas := map (\<lambda>m. \<lparr>rb_instance_ids = member_ids m, rb_endpoint = []\<rparr>) placements\<rparr>;
              r2 = (case placements of
                      [m] \<Rightarrow> if length (member_ids m) = 1 then r1\<lparr>dep_instance_id := hd (member_ids m)\<rparr> else r1
                    | _ \<Rightarrow> r1)
          in if length specs = length placements then r2\<lparr>dep_replica_specs := specs\<rparr> else r2) st"

definition pad_to :: "nat \<Rightarrow> 'a \<Rightarrow> 'a list \<Rightarrow> 'a list" where
  "pad_to n x xs = xs @ replicate (n - length xs) x"

fun set_slots :: "nat \<Rightarrow> memberPlacement list \<Rightarrow> backing list \<Rightarrow> backing list" where
  "set_slots i [] reps = reps"
| "set_slots i (m # ms) reps = set_slots (Suc i) ms (reps[i := (reps ! i)\<lparr>rb_instance_ids := member_ids m\<rparr>])"

definition recordAppendedSlots ::
  "gostring \<Rightarrow> replica_spec option list \<Rightarrow> memberPlacement list \<Rightarrow> nat \<Rightarrow> state \<Rightarrow> state" where
  "recordAppendedSlots deployID specs placements startingSlot st =
     update_deployment deployID
       (\<lambda>rec.
          let reps = pad_to (startingSlot + length placements) \<lparr>rb_instance_ids = [], rb_endpoint = []\<rparr> (dep_replicas rec);
              sps = pad_to startingSlot None (dep_replica_specs rec);
              r1 = rec\<lparr>dep_replicas := set_slots startingSlot placements reps, dep_replica_specs := sps\<rparr>
          in if length specs = length placements then r1\<lparr>dep_replica_specs := sps @ specs\<rparr> else r1) st"

definition readSlotEndpoint :: "gostring \<Rightarrow> int \<Rightarrow> state \<Rightarrow> gostring" where
  "readSlotEndpoint deployID slot st =
     (case st_deployments st deployID of
        None \<Rightarrow> []
      | Some rec \<Rightarrow>
          if slot < 0 \<or> slot \<ge> int (length (dep_replicas rec)) then []
          else rb_endpoint (dep_replicas rec ! nat slot))"

subsection \<open>Updates of one slot\<close>

definition slotLabel :: "gostring list \<Rightarrow> gostring \<Rightarrow> gostring \<Rightarrow> gostring" where
  "slotLabel instanceIDs replicaID msg =
     (if length instanceIDs \<le> 1 then msg else replicaID @ '': '' @ msg)"

fun provisioning_rank :: "deployment_state \<Rightarrow> nat" where
  "provisioning_rank DPending = 1"
| "provisioning_rank DStarting = 2"
| "provisioning_rank DConfiguring = 3"
| "provisioning_rank _ = 0"

definition provisioningAdvance :: "deployment_state \<Rightarrow> deployment_state \<Rightarrow> deployment_state option" where
  "provisioningAdvance current update =
     (let ur = provisioning_rank update
      in if ur = 0 then None else if ur \<le> provisioning_rank current then None else Some update)"

definition slot_record :: "gostring \<Rightarrow> dupdate \<Rightarrow> nat \<Rightarrow> deployment \<Rightarrow> deployment" where
  "slot_record replicaID u slot rec =
     (let ids = rb_instance_ids (dep_replicas rec ! slot);
          prim = (case ids of [] \<Rightarrow> [] | i # _ \<Rightarrow> i);
          r1 = (if du_endpoint u \<noteq> [] \<and> replicaID = prim then
                  (let r = rec\<lparr>dep_replicas := (dep_replicas rec)[slot := (dep_replicas rec ! slot)\<lparr>rb_endpoint := du_endpoint u\<rparr>]\<rparr>
                   in if slot = 0 \<and> dep_engine_endpoint r = [] then r\<lparr>dep_engine_endpoint := du_endpoint u\<rparr> else r)
                else rec);
          r2 = (if du_phase u \<noteq> [] then r1\<lparr>dep_current_phase := slotLabel (EffectiveInstanceIDs r1) replicaID (du_phase u)\<rparr> else r1);
          r3 = (if du_progress u \<noteq> [] then r2\<lparr>dep_progress_message := slotLabel (EffectiveInstanceIDs r2) replicaID (du_progress u)\<rparr> else r2)
      in case provisioningAdvance (dep_state r3) (du_state u) of Some next \<Rightarrow> r3\<lparr>dep_state := next\<rparr> | None \<Rightarrow> r3)"

definition slot_instance :: "dupdate \<Rightarrow> inst \<Rightarrow> inst" where
  "slot_instance u i =
     (let i1 = (if du_container u \<noteq> [] \<and> in_provider_id i = [] then i\<lparr>in_provider_id := du_container u\<rparr> else i);
          i2 = (case du_ssh u of Some t \<Rightarrow> if ssh_host t \<noteq> [] then i1\<lparr>in_ssh := Some t\<rparr> else i1 | None \<Rightarrow> i1)
      in if du_rate u > 0 then i2\<lparr>in_hourly_rate := du_rate u\<rparr> else i2)"

definition patchDeploymentSlot :: "gostring \<Rightarrow> gostring \<Rightarrow> dupdate \<Rightarrow> state \<Rightarrow> state" where
  "patchDeploymentSlot deployID replicaID u st =
     (case st_deployments st deployID of
        None \<Rightarrow> st
      | Some rec \<Rightarrow>
          (let slot = MemberOf rec replicaID
           in if slot < 0 then st
              else update_instance replicaID (slot_instance u)
                     (update_deployment deployID (slot_record replicaID u (nat slot)) st)))"

subsection \<open>Aggregate state\<close>

definition applyAggregateState ::
  "gostring \<Rightarrow> nat \<Rightarrow> nat \<Rightarrow> gostring list \<Rightarrow> timestamp \<Rightarrow> state \<Rightarrow> state" where
  "applyAggregateState deployID count successes failureReasons now st =
     (let aggState = (if successes = count then DRunning else if successes > 0 then DDegraded else DFailed);
          reason = (if successes = count then []
                    else if successes > 0 then
                      dec (count - successes) @ '' of '' @ dec count @ '' instances failed at provision: '' @ join_with ''; '' failureReasons
                    else ''all '' @ dec count @ '' instances failed at provision: '' @ join_with ''; '' failureReasons)
      in update_deployment deployID
           (\<lambda>rec. let r1 = rec\<lparr>dep_state := aggState\<rparr>;
                      r2 = (if reason \<noteq> [] then r1\<lparr>dep_failure_reason := reason\<rparr> else r1)
                  in if aggState = DRunning \<or> aggState = DDegraded
                     then r2\<lparr>dep_ready_at := stamp_once now (dep_ready_at r2)\<rparr> else r2) st)"

definition applyScaleAggregate :: "gostring \<Rightarrow> nat \<Rightarrow> nat \<Rightarrow> gostring list \<Rightarrow> state \<Rightarrow> state" where
  "applyScaleAggregate deployID delta successes failureReasons st =
     update_deployment deployID
       (\<lambda>rec. if successes = delta then rec
              else rec\<lparr>dep_state := DDegraded,
                       dep_failure_reason := dec (delta - successes) @ '' of '' @ dec delta
                         @ '' new replicas failed at scale-up: '' @ join_with ''; '' failureReasons\<rparr>) st"

text \<open>
  The collector of \<^verbatim>\<open>provisionSlots\<close>: one result per slot, in the order of arrival; \<open>None\<close> is a
  slot that came up.
\<close>

fun collect_results :: "(gostring \<times> gostring option) list \<Rightarrow> nat \<Rightarrow> gostring list \<Rightarrow> nat \<times> gostring list" where
  "collect_results [] successes reasons = (successes, reasons)"
| "collect_results ((k, None) # rs) successes reasons = collect_results rs (Suc successes) reasons"
| "collect_results ((k, Some err) # rs) successes reasons = collect_results rs successes (reasons @ [k @ '': '' @ err])"

definition fanOutProvision ::
  "gostring \<Rightarrow> (gostring \<times> gostring option) list \<Rightarrow> timestamp \<Rightarrow> state \<Rightarrow> state" where
  "fanOutProvision deployID results now st =
     (case collect_results results 0 [] of
        (successes, reasons) \<Rightarrow> applyAggregateState deployID (length results) successes reasons now st)"

definition appendReplicas :: "gostring \<Rightarrow> (gostring \<times> gostring option) list \<Rightarrow> state \<Rightarrow> state" where
  "appendReplicas deployID results st =
     (case collect_results results 0 [] of
        (successes, reasons) \<Rightarrow> applyScaleAggregate deployID (length results) successes reasons st)"

text \<open>
  What \<^verbatim>\<open>launchMember\<close> reports for a member, from the outcomes of its machines in the order of
  arrival: the rank-0 machine's endpoint, or a failure if any machine failed, in which case every
  machine is handed back.
\<close>

fun span_outcome :: "gostring \<Rightarrow> (gostring \<times> (gostring + gostring)) list \<Rightarrow> gostring \<Rightarrow> gostring list \<Rightarrow> gostring \<times> gostring list" where
  "span_outcome prim [] endpoint failures = (endpoint, failures)"
| "span_outcome prim ((k, Inl err) # rs) endpoint failures = span_outcome prim rs endpoint (failures @ [k @ '': '' @ err])"
| "span_outcome prim ((k, Inr ep) # rs) endpoint failures = span_outcome prim rs (if k = prim then ep else endpoint) failures"

definition launchMember ::
  "(gostring \<Rightarrow> 's \<Rightarrow> 's) \<Rightarrow> inst list \<Rightarrow> (gostring \<times> (gostring + gostring)) list \<Rightarrow> 's
   \<Rightarrow> (gostring \<times> (gostring + gostring)) \<times> 's" where
  "launchMember destroy nodes outcomes s =
     (if length nodes = 1 then (hd outcomes, s)
      else
        (let prim = in_id (hd nodes)
         in case span_outcome prim outcomes [] [] of
              (endpoint, failures) \<Rightarrow>
                if failures \<noteq> [] then
                  ((prim, Inl (''member spanning '' @ dec (length nodes) @ '' nodes lost '' @ dec (length failures)
                      @ '' of them, so the whole span was returned: '' @ join_with ''; '' failures)),
                   returnMember destroy nodes s)
                else ((prim, Inr endpoint), s)))"

subsection \<open>Requests\<close>

definition volumesForProvider :: "volume_mount list \<Rightarrow> gostring \<Rightarrow> gostring list" where
  "volumesForProvider mounts provider =
     map vm_volume_id
       (filter (\<lambda>m. vm_volume_id m \<noteq> [] \<and> (vm_provider m = [] \<or> vm_provider m = provider)) mounts)"

definition expand_group :: "replica_spec \<Rightarrow> replica_spec list" where
  "expand_group g =
     replicate (nat (if rs_replicas g = 0 then 1 else rs_replicas g)) (g\<lparr>rs_replicas := 0\<rparr>)"

text \<open>\<open>None\<close> is a nil entry of the request; the error carries the index of the offending entry.\<close>

fun expand_groups :: "nat \<Rightarrow> replica_spec option list \<Rightarrow> nat + replica_spec list" where
  "expand_groups i [] = Inr []"
| "expand_groups i (None # gs) = Inl i"
| "expand_groups i (Some g # gs) =
     (if rs_replicas g < 0 then Inl i
      else bindE (expand_groups (Suc i) gs) (\<lambda>out. Inr (expand_group g @ out)))"

definition resolveCreateReplicaSpecs :: "replica_spec option list \<Rightarrow> nat + replica_spec list" where
  "resolveCreateReplicaSpecs groups = expand_groups 0 groups"

text \<open>The claim of a record by \<^verbatim>\<open>createMultiReplicaDeployment\<close>.\<close>

datatype claim = ClaimTerminating | ClaimExisting deployment | ClaimFresh deployment

definition claim_multi :: "deployment \<Rightarrow> timestamp \<Rightarrow> state \<Rightarrow> claim \<times> state" where
  "claim_multi dep now st =
     (let record = newDeploymentRecord dep now;
          fresh = (ClaimFresh record, st\<lparr>st_deployments := (st_deployments st)(dep_id dep \<mapsto> record)\<rparr>)
      in case st_deployments st (dep_id dep) of
           None \<Rightarrow> fresh
         | Some existing \<Rightarrow>
             if dep_state existing \<in> {DPending, DStarting, DConfiguring, DRunning, DDegraded} then
               (if dep_image existing = dep_image dep \<and> dep_model existing = dep_model dep
                then (ClaimExisting existing, st) else fresh)
             else if dep_state existing = DTerminating then (ClaimTerminating, st)
             else fresh)"

definition anchorReplicaSpec :: "deployment \<Rightarrow> state \<Rightarrow> dserr + replica_spec" where
  "anchorReplicaSpec rec st =
     (case dep_replica_specs rec of
        Some sp # _ \<Rightarrow> Inr sp
      | _ \<Rightarrow>
          (let anchorID = (case EffectiveMemberInstanceIDs rec of
                             i # _ \<Rightarrow> if i \<noteq> [] then i else dep_instance_id rec
                           | [] \<Rightarrow> dep_instance_id rec)
           in if anchorID = [] then Inl DFailedPrecondition
              else
                (case st_instances st anchorID of
                   None \<Rightarrow> Inl DFailedPrecondition
                 | Some anchor \<Rightarrow>
                     (case in_spec anchor of
                        None \<Rightarrow> Inl DFailedPrecondition
                      | Some sp \<Rightarrow>
                          Inr \<lparr>rs_provider = in_provider anchor, rs_region = sp_region sp,
                               rs_requirements = sp_requirements sp, rs_replicas = 0,
                               rs_engine_endpoint = [], rs_nodes = 0\<rparr>))))"

text \<open>Promotion of a single-instance record to a member list, before a scale-up.\<close>

definition normalize_record :: "state \<Rightarrow> deployment \<Rightarrow> deployment" where
  "normalize_record st r =
     (let r1 = r\<lparr>dep_replicas := [\<lparr>rb_instance_ids = [dep_instance_id r], rb_endpoint = dep_engine_endpoint r\<rparr>]\<rparr>
      in case st_instances st (dep_instance_id r) of
           Some anchor \<Rightarrow>
             (case in_spec anchor of
                Some sp \<Rightarrow>
                  r1\<lparr>dep_replica_specs :=
                       [Some \<lparr>rs_provider = in_provider anchor, rs_region = sp_region sp,
                              rs_requirements = sp_requirements sp, rs_replicas = 0,
                              rs_engine_endpoint = [], rs_nodes = 0\<rparr>]\<rparr>
              | None \<Rightarrow> r1)
         | None \<Rightarrow> r1)"

datatype scale_result = ScaleError dserr | ScaleDownUnimplemented | ScaleNoop deployment
  | ScaleUp deployment nat "replica_spec option list" "gostring list"

definition scale_up :: "gostring \<Rightarrow> deployment \<Rightarrow> nat \<Rightarrow> replica_spec option list \<Rightarrow> scale_result" where
  "scale_up ident rec current specs =
     ScaleUp rec current specs
       (map (\<lambda>i. replicaInstanceID ident (current + i) (current + length specs)) [0..<length specs])"

text \<open>
  \<^verbatim>\<open>ScaleDeployment\<close> up to the point where the new slots are provisioned: a dry run returns the
  planned ids, the other modes provision slots \<open>current\<close> onwards with \<open>specs\<close>.
\<close>

definition ScaleDeployment ::
  "gostring \<Rightarrow> int \<Rightarrow> replica_spec option list \<Rightarrow> state \<Rightarrow> scale_result \<times> state" where
  "ScaleDeployment ident target hetero st =
     (if \<not> ValidateID ident then (ScaleError DInvalidArgument, st)
      else if target > 0 \<and> hetero \<noteq> [] then (ScaleError DInvalidArgument, st)
      else if target = 0 \<and> hetero = [] then (ScaleError DInvalidArgument, st)
      else if target < 0 then (ScaleError DInvalidArgument, st)
      else
        (case st_deployments st ident of
           None \<Rightarrow> (ScaleError DNotFound, st)
         | Some rec0 \<Rightarrow>
             if dep_state rec0 \<noteq> DRunning \<and> dep_state rec0 \<noteq> DDegraded then (ScaleError DFailedPrecondition, st)
             else
               (let legacy = (dep_replicas rec0 = [] \<and> dep_instance_id rec0 \<noteq> []);
                    current = (if legacy then 1 else length (dep_replicas rec0));
                    rec = (if legacy then normalize_record st rec0 else rec0);
                    st1 = (if legacy then update_deployment ident (\<lambda>_. rec) st else st)
                in if hetero \<noteq> [] then (scale_up ident rec current hetero, st1)
                   else if target = int current then (ScaleNoop rec, st1)
                   else if target < int current then (ScaleDownUnimplemented, st1)
                   else
                     (case anchorReplicaSpec rec st1 of
                        Inl e \<Rightarrow> (ScaleError e, st1)
                      | Inr sp \<Rightarrow> (scale_up ident rec current (replicate (nat target - current) (Some sp)), st1)))))"

subsection \<open>Lemmas on slots\<close>

lemma provisioningAdvance_Some:
  "provisioningAdvance cur u = Some s \<longleftrightarrow> s = u \<and> provisioning_rank cur < provisioning_rank u"
  by (auto simp: provisioningAdvance_def Let_def)

lemma rank_inflight: "0 < provisioning_rank s \<longleftrightarrow> s \<in> {DPending, DStarting, DConfiguring}"
  by (cases s) auto

lemma slot_record_frame:
  "dep_id (slot_record r u i rec) = dep_id rec" "dep_unhealthy (slot_record r u i rec) = dep_unhealthy rec"
  "dep_instance_id (slot_record r u i rec) = dep_instance_id rec"
  "length (dep_replicas (slot_record r u i rec)) = length (dep_replicas rec)"
  by (simp_all add: slot_record_def Let_def split: option.split)

lemma slot_record_state:
  "dep_state (slot_record r u i rec) =
     (if provisioning_rank (dep_state rec) < provisioning_rank (du_state u) then du_state u else dep_state rec)"
  by (auto simp: slot_record_def Let_def provisioningAdvance_def split: option.split if_splits)

lemma slot_record_replicas:
  "dep_replicas (slot_record r u i rec) =
     (if du_endpoint u \<noteq> [] \<and> r = first_node (rb_instance_ids (dep_replicas rec ! i))
      then (dep_replicas rec)[i := (dep_replicas rec ! i)\<lparr>rb_endpoint := du_endpoint u\<rparr>]
      else dep_replicas rec)"
  by (simp add: slot_record_def Let_def first_node_def split: option.split)

lemma MemberOf_range: "0 \<le> MemberOf rec r \<Longrightarrow> nat (MemberOf rec r) < length (dep_replicas rec)"
  using member_of_loop_range [of 0 "dep_replicas rec" r] by (auto simp: MemberOf_def)

lemma patchDeploymentSlot_deployment:
  assumes "st_deployments st d = Some rec"
  shows "st_deployments (patchDeploymentSlot d r u st) d =
    Some (if MemberOf rec r < 0 then rec else slot_record r u (nat (MemberOf rec r)) rec)"
  using assms by (simp add: patchDeploymentSlot_def Let_def)

lemma collect_results_counts:
  "collect_results rs n fs = (n', fs') \<Longrightarrow>
     n' = n + length (filter (\<lambda>r. snd r = None) rs)
     \<and> length fs' = length fs + length (filter (\<lambda>r. snd r \<noteq> None) rs)"
  by (induction rs n fs rule: collect_results.induct) auto

lemma filter_length_all: "length (filter P xs) = length xs \<longleftrightarrow> list_all P xs"
proof (induction xs)
  case (Cons x xs)
  have "length (filter P xs) \<le> length xs" by (rule length_filter_le)
  with Cons show ?case by (auto simp del: length_filter_le)
qed simp

lemma filter_length_ex: "0 < length (filter P xs) \<longleftrightarrow> list_ex P xs"
  by (induction xs) auto

text \<open>The record after the aggregate, and its fields.\<close>

definition aggregate_record :: "nat \<Rightarrow> nat \<Rightarrow> gostring list \<Rightarrow> timestamp \<Rightarrow> deployment \<Rightarrow> deployment" where
  "aggregate_record count n fs now rec =
     (if n = count then rec\<lparr>dep_state := DRunning, dep_ready_at := stamp_once now (dep_ready_at rec)\<rparr>
      else if n > 0 then
        rec\<lparr>dep_state := DDegraded,
            dep_failure_reason := dec (count - n) @ '' of '' @ dec count @ '' instances failed at provision: '' @ join_with ''; '' fs,
            dep_ready_at := stamp_once now (dep_ready_at rec)\<rparr>
      else rec\<lparr>dep_state := DFailed,
               dep_failure_reason := ''all '' @ dec count @ '' instances failed at provision: '' @ join_with ''; '' fs\<rparr>)"

lemma applyAggregateState_record:
  "applyAggregateState d count n fs now st = update_deployment d (aggregate_record count n fs now) st"
  by (auto simp: applyAggregateState_def aggregate_record_def Let_def update_deployment_def split: option.split)

lemma aggregate_record_fields:
  "dep_state (aggregate_record count n fs now rec) = (if n = count then DRunning else if n > 0 then DDegraded else DFailed)"
  "n \<noteq> count \<Longrightarrow> dep_failure_reason (aggregate_record count n fs now rec) \<noteq> []"
  "n = count \<or> n > 0 \<Longrightarrow> dep_ready_at (aggregate_record count n fs now rec) \<noteq> None"
  "dep_replicas (aggregate_record count n fs now rec) = dep_replicas rec"
  by (auto simp: aggregate_record_def stamp_once_def split: option.split)

subsection \<open>Properties of the fan-out\<close>

text \<open>
  One replica's report never decides the deployment.  A slot update leaves every other
  member, the machines of all members and the quarantine list alone; it changes the deployment's
  state only forward through PENDING, STARTING and CONFIGURING, never to a conclusion about the
  whole deployment; and it changes the member's endpoint only when the report comes from the
  member's first machine.
\<close>

theorem slot_patch_contained:
  assumes "st_deployments st d = Some rec" "st_deployments (patchDeploymentSlot d r u st) d = Some rec'"
  shows "(dep_state rec' = dep_state rec
      \<or> dep_state rec' \<in> {DStarting, DConfiguring, DPending} \<and> provisioning_rank (dep_state rec) < provisioning_rank (dep_state rec'))
    \<and> map rb_instance_ids (dep_replicas rec') = map rb_instance_ids (dep_replicas rec)
    \<and> dep_unhealthy rec' = dep_unhealthy rec
    \<and> (\<forall>j < length (dep_replicas rec). dep_replicas rec' ! j \<noteq> dep_replicas rec ! j \<longrightarrow>
         int j = MemberOf rec r \<and> r = first_node (rb_instance_ids (dep_replicas rec ! j))
         \<and> rb_endpoint (dep_replicas rec' ! j) = du_endpoint u)"
proof (cases "MemberOf rec r < 0")
  case True
  then show ?thesis using assms patchDeploymentSlot_deployment [OF assms(1), of r u] by simp
next
  case False
  let ?i = "nat (MemberOf rec r)"
  have rec': "rec' = slot_record r u ?i rec"
    using assms patchDeploymentSlot_deployment [OF assms(1), of r u] False by simp
  have i: "?i < length (dep_replicas rec)" using MemberOf_range False by simp
  have ids: "map rb_instance_ids (dep_replicas rec') = map rb_instance_ids (dep_replicas rec)"
    using i by (auto simp: rec' slot_record_replicas map_update intro: list_update_same_conv [THEN iffD2])
  have "dep_state rec' = dep_state rec
      \<or> dep_state rec' \<in> {DStarting, DConfiguring, DPending} \<and> provisioning_rank (dep_state rec) < provisioning_rank (dep_state rec')"
    using rank_inflight [of "du_state u"] by (auto simp: rec' slot_record_state)
  moreover have "int j = MemberOf rec r \<and> r = first_node (rb_instance_ids (dep_replicas rec ! j))
         \<and> rb_endpoint (dep_replicas rec' ! j) = du_endpoint u"
    if "j < length (dep_replicas rec)" "dep_replicas rec' ! j \<noteq> dep_replicas rec ! j" for j
    using that i False by (auto simp: rec' slot_record_replicas nth_list_update split: if_splits)
  ultimately show ?thesis using ids by (simp add: rec' slot_record_frame)
qed

definition two_slots :: deployment where
  "two_slots = zero_deployment\<lparr>dep_id := ''d'', dep_state := DStarting,
     dep_replicas := [\<lparr>rb_instance_ids = [''d-r0''], rb_endpoint = []\<rparr>, \<lparr>rb_instance_ids = [''d-r1''], rb_endpoint = []\<rparr>]\<rparr>"

theorem slot_patch_contained_witness:
  "\<exists>rec'. st_deployments (patchDeploymentSlot ''d'' ''d-r1'' ((state_update DRunning [] [])\<lparr>du_endpoint := ''u1''\<rparr>)
       (NewState\<lparr>st_deployments := [''d'' \<mapsto> two_slots]\<rparr>)) ''d'' = Some rec'
     \<and> rb_endpoint (dep_replicas rec' ! 1) = ''u1'' \<and> dep_state rec' \<noteq> DRunning
     \<and> map rb_instance_ids (dep_replicas rec') = [[''d-r0''], [''d-r1'']]"
proof -
  let ?st = "NewState\<lparr>st_deployments := [''d'' \<mapsto> two_slots]\<rparr>"
  let ?u = "(state_update DRunning [] [])\<lparr>du_endpoint := ''u1''\<rparr>"
  have st: "st_deployments ?st ''d'' = Some two_slots" by simp
  obtain rec' where rec': "st_deployments (patchDeploymentSlot ''d'' ''d-r1'' ?u ?st) ''d'' = Some rec'"
    using patchDeploymentSlot_deployment [OF st] by simp
  have "rb_endpoint (dep_replicas rec' ! 1) = ''u1''"
    using rec' patchDeploymentSlot_deployment [OF st, of "''d-r1''" ?u]
    by (simp add: slot_record_replicas MemberOf_def two_slots_def first_node_def)
  with slot_patch_contained [OF st rec'] rec' show ?thesis by (auto simp: two_slots_def)
qed

text \<open>
  The aggregate state says what happened.  When every slot has reported, the deployment is
  RUNNING if all slots came up, DEGRADED if some did and FAILED if none did, with a reason in the
  latter two cases; a deployment that is serving has a ready time.
\<close>

theorem fanout_aggregate:
  assumes "st_deployments st d = Some rec" "results \<noteq> []"
  shows "\<exists>rec'. st_deployments (fanOutProvision d results now st) d = Some rec'
    \<and> dep_state rec' = (if list_all (\<lambda>r. snd r = None) results then DRunning
                         else if list_ex (\<lambda>r. snd r = None) results then DDegraded else DFailed)
    \<and> (dep_state rec' \<noteq> DRunning \<longrightarrow> dep_failure_reason rec' \<noteq> [])
    \<and> (dep_state rec' \<noteq> DFailed \<longrightarrow> dep_ready_at rec' \<noteq> None)
    \<and> dep_replicas rec' = dep_replicas rec"
proof -
  obtain n fs where c: "collect_results results 0 [] = (n, fs)" by fastforce
  have n: "n = length (filter (\<lambda>r. snd r = None) results)" using collect_results_counts [OF c] by simp
  have all: "n = length results \<longleftrightarrow> list_all (\<lambda>r. snd r = None) results" unfolding n by (rule filter_length_all)
  have ex: "0 < n \<longleftrightarrow> list_ex (\<lambda>r. snd r = None) results" unfolding n by (rule filter_length_ex)
  let ?rec' = "aggregate_record (length results) n fs now rec"
  have run: "st_deployments (fanOutProvision d results now st) d = Some ?rec'"
    using assms(1) c by (simp add: fanOutProvision_def applyAggregateState_record)
  show ?thesis
    by (intro exI [of _ ?rec'] conjI run)
      (use all ex in \<open>auto simp: aggregate_record_fields simp del: not_None_eq split: if_splits\<close>)
qed

theorem fanout_aggregate_witness:
  "\<exists>rec'. st_deployments (fanOutProvision ''d'' [(''d-r0'', None), (''d-r1'', Some ''no capacity'')] 5
       (NewState\<lparr>st_deployments := [''d'' \<mapsto> two_slots]\<rparr>)) ''d'' = Some rec'
     \<and> dep_state rec' = DDegraded \<and> dep_failure_reason rec' \<noteq> []"
  using fanout_aggregate [of "NewState\<lparr>st_deployments := [''d'' \<mapsto> two_slots]\<rparr>" "''d''" two_slots
      "[(''d-r0'', None), (''d-r1'', Some ''no capacity'')]" 5]
  by auto

lemma member_of_loop_first:
  "i < length bs \<Longrightarrow> x \<in> set (rb_instance_ids (bs ! i)) \<Longrightarrow>
   (\<forall>j < length bs. j \<noteq> i \<longrightarrow> x \<notin> set (rb_instance_ids (bs ! j))) \<Longrightarrow>
   member_of_loop k bs x = k + int i"
proof (induction bs arbitrary: i k)
  case (Cons b bs)
  show ?case
  proof (cases i)
    case 0
    then show ?thesis using Cons.prems(2) by simp
  next
    case (Suc i')
    have "x \<notin> set (rb_instance_ids b)" using Cons.prems(3) Suc by force
    moreover have "\<forall>j < length bs. j \<noteq> i' \<longrightarrow> x \<notin> set (rb_instance_ids (bs ! j))"
    proof (intro allI impI)
      fix j assume "j < length bs" "j \<noteq> i'"
      then show "x \<notin> set (rb_instance_ids (bs ! j))" using Cons.prems(3) Suc by (auto dest: spec [of _ "Suc j"])
    qed
    ultimately show ?thesis using Cons.IH [of i' "k + 1"] Cons.prems(1,2) Suc by simp
  qed
qed simp

lemma recordCreateSlots_record:
  assumes "st_deployments st d = Some rec"
  obtains rec' where "st_deployments (recordCreateSlots d specs ps st) d = Some rec'"
    "dep_replicas rec' = map (\<lambda>m. \<lparr>rb_instance_ids = member_ids m, rb_endpoint = []\<rparr>) ps"
    "dep_unhealthy rec' = dep_unhealthy rec" "dep_state rec' = dep_state rec"
proof -
  obtain rec' where rec': "st_deployments (recordCreateSlots d specs ps st) d = Some rec'"
    using assms by (simp add: recordCreateSlots_def)
  show thesis
    by (rule that [OF rec'])
      (use rec' assms in \<open>auto simp: recordCreateSlots_def Let_def split: list.splits if_splits\<close>)
qed

text \<open>A slot table of which no member has reported an endpoint yet.\<close>

definition fresh_table :: "memberPlacement list \<Rightarrow> deployment \<Rightarrow> bool" where
  "fresh_table ps rec \<longleftrightarrow>
     dep_replicas rec = map (\<lambda>m. \<lparr>rb_instance_ids = member_ids m, rb_endpoint = []\<rparr>) ps \<and> dep_unhealthy rec = []"

lemma fresh_table_silent:
  "fresh_table ps rec \<Longrightarrow> du_endpoint u = [] \<Longrightarrow> fresh_table ps (slot_record r u i rec)"
  by (simp add: fresh_table_def slot_record_replicas slot_record_frame)

lemma fresh_table_routable:
  assumes r1: "st_deployments st d = Some r1" and "fresh_table ps r1"
    and "i < length ps" "mp_instances (ps ! i) \<noteq> []"
    and "\<forall>j < length ps. j \<noteq> i \<longrightarrow> in_id (hd (mp_instances (ps ! i))) \<notin> set (member_ids (ps ! j))"
    and "du_endpoint u \<noteq> []"
  shows "\<exists>rec'. st_deployments (patchDeploymentSlot d (in_id (hd (mp_instances (ps ! i)))) u st) d = Some rec'
    \<and> set (eligibleReplicas rec') = {\<lparr>r_instance = in_id (hd (mp_instances (ps ! i))), r_endpoint = du_endpoint u\<rparr>}"
proof -
  let ?k = "in_id (hd (mp_instances (ps ! i)))"
  have r1': "dep_replicas r1 = map (\<lambda>m. \<lparr>rb_instance_ids = member_ids m, rb_endpoint = []\<rparr>) ps" "dep_unhealthy r1 = []"
    using assms(2) by (simp_all add: fresh_table_def)
  have k: "first_node (member_ids (ps ! i)) = ?k" "?k \<in> set (member_ids (ps ! i))"
    using assms(4) by (cases "mp_instances (ps ! i)"; simp add: member_ids_def first_node_def)+
  have m: "MemberOf r1 ?k = int i"
    using member_of_loop_first [of i "dep_replicas r1" ?k 0] assms(3,5) k(2) r1'(1) by (simp add: MemberOf_def)
  let ?r2 = "slot_record ?k u i r1"
  have r2: "st_deployments (patchDeploymentSlot d ?k u st) d = Some ?r2"
    using patchDeploymentSlot_deployment [OF r1, of ?k u] m by simp
  have reps: "dep_replicas ?r2 = (dep_replicas r1)[i := (dep_replicas r1 ! i)\<lparr>rb_endpoint := du_endpoint u\<rparr>]"
    using assms(3,6) r1'(1) k(1) by (simp add: slot_record_replicas)
  have ne: "dep_replicas ?r2 \<noteq> []" using reps r1'(1) assms(3) by auto
  have ep: "EffectiveEndpoints ?r2 = map rb_endpoint (dep_replicas ?r2)"
    and ms: "memberInstanceIDs ?r2 = map rb_instance_ids (dep_replicas ?r2)"
    using ne by (simp_all add: EffectiveEndpoints_def memberInstanceIDs_def)
  have q: "\<not> anyQuarantined (quarantinedSet ?r2) ns" for ns
    by (simp add: anyQuarantined_iff slot_record_frame r1'(2))
  have epn: "EffectiveEndpoints ?r2 ! n = (if n = i then du_endpoint u else [])" if "n < length ps" for n
    using that assms(3) r1'(1) by (simp add: ep reps nth_list_update)
  have nd: "nodes_at (memberInstanceIDs ?r2) i = member_ids (ps ! i)"
    using assms(3) r1'(1) by (simp add: nodes_at_def ms reps)
  have len: "length (EffectiveEndpoints ?r2) = length ps" by (simp add: ep reps r1'(1))
  have "r \<in> set (eligibleReplicas ?r2) \<longleftrightarrow> r = \<lparr>r_instance = ?k, r_endpoint = du_endpoint u\<rparr>" for r
    unfolding eligible_member len using q epn nd assms(3,6) k(1) by (auto split: if_splits)
  then show ?thesis using r2 by blast
qed

text \<open>
  A slot that reports its endpoint becomes routable.  After the slot table of a fresh
  deployment is recorded, with no machine in two members, the report of a member's first machine
  makes the router offer exactly that machine with that endpoint, and no member that has not
  reported is offered.
\<close>

theorem reported_slot_routable:
  assumes "st_deployments st d = Some rec" "dep_unhealthy rec = []"
    and "i < length ps" "mp_instances (ps ! i) \<noteq> []"
    and "\<forall>j < length ps. j \<noteq> i \<longrightarrow> in_id (hd (mp_instances (ps ! i))) \<notin> set (member_ids (ps ! j))"
    and "du_endpoint u \<noteq> []"
  shows "\<exists>rec'. st_deployments (patchDeploymentSlot d (in_id (hd (mp_instances (ps ! i)))) u (recordCreateSlots d specs ps st)) d = Some rec'
    \<and> set (eligibleReplicas rec') = {\<lparr>r_instance = in_id (hd (mp_instances (ps ! i))), r_endpoint = du_endpoint u\<rparr>}"
proof -
  obtain r1 where r1: "st_deployments (recordCreateSlots d specs ps st) d = Some r1" "fresh_table ps r1"
    using recordCreateSlots_record [OF assms(1), of specs ps] assms(2) unfolding fresh_table_def by metis
  from fresh_table_routable [OF r1 assms(3-6)] show ?thesis .
qed

theorem reported_slot_routable_witness:
  "\<exists>rec'. st_deployments (patchDeploymentSlot ''d'' ''d'' ((state_update DRunning [] [])\<lparr>du_endpoint := ''u''\<rparr>)
       (recordCreateSlots ''d'' [] [\<lparr>mp_instances = [sample_instance], mp_err = None\<rparr>] sample_state)) ''d'' = Some rec'
     \<and> set (eligibleReplicas rec') = {\<lparr>r_instance = ''d'', r_endpoint = ''u''\<rparr>}"
  using reported_slot_routable [of sample_state "''d''" sample_single 0 "[\<lparr>mp_instances = [sample_instance], mp_err = None\<rparr>]"
      "(state_update DRunning [] [])\<lparr>du_endpoint := ''u''\<rparr>" "[]"]
  by (simp add: sample_state_def sample_single_def zero_deployment_def sample_instance_def)

lemma scale_up_names:
  assumes "current \<ge> 1" "specs \<noteq> []"
    and "names = map (\<lambda>i. replicaInstanceID ident (current + i) (current + length specs)) [0..<length specs]"
  shows "distinct names \<and> list_all (ownsInstance ident) names
    \<and> (\<forall>j < current. replicaInstanceID ident j current \<notin> set names)"
proof -
  have n: "current + length specs \<noteq> 1" using assms(1,2) by (cases specs) auto
  have names: "names = map (\<lambda>i. ident @ ''-r'' @ dec (current + i)) [0..<length specs]"
    using n assms(3) by (simp add: replicaInstanceID_def)
  have "distinct names" unfolding names by (auto simp: distinct_map inj_on_def dest: dec_inj)
  moreover have "list_all (ownsInstance ident) names" using owns_replica assms(3) by (auto simp: list_all_iff)
  moreover have "replicaInstanceID ident j current \<notin> set names" if "j < current" for j
    using that dec_inj [of j] by (auto simp: names replicaInstanceID_def)
  ultimately show ?thesis by blast
qed

text \<open>
  A scale-up names new machines only.  When a scale-up is planned, the planned ids are
  pairwise distinct, belong to the deployment and differ from the names of all the slots it
  already has; a homogeneous scale-up plans exactly the missing number of slots.
\<close>

theorem scale_plan_fresh:
  assumes "ScaleDeployment ident target hetero st = (ScaleUp rec current specs names, st')" "current \<ge> 1"
  shows "distinct names \<and> list_all (ownsInstance ident) names \<and> length names = length specs
    \<and> (\<forall>j < current. replicaInstanceID ident j current \<notin> set names)
    \<and> (hetero = [] \<longrightarrow> int current + int (length names) = target)"
proof -
  have s: "specs \<noteq> []" "names = map (\<lambda>i. replicaInstanceID ident (current + i) (current + length specs)) [0..<length specs]"
    "hetero = [] \<longrightarrow> int current + int (length specs) = target"
    using assms(1)
    by (auto simp: ScaleDeployment_def scale_up_def Let_def split: if_splits option.splits sum.splits)
  then show ?thesis using scale_up_names [OF assms(2) s(1,2)] by simp
qed

theorem scale_plan_fresh_witness:
  "\<exists>rec st'. ScaleDeployment ''d'' 3 [] (NewState\<lparr>st_deployments := [''d'' \<mapsto> two_slots\<lparr>dep_state := DRunning,
        dep_replica_specs := [Some \<lparr>rs_provider = ''p'', rs_region = [], rs_requirements = None, rs_replicas = 0,
                                  rs_engine_endpoint = [], rs_nodes = 0\<rparr>]\<rparr>]\<rparr>)
      = (ScaleUp rec 2 [Some \<lparr>rs_provider = ''p'', rs_region = [], rs_requirements = None, rs_replicas = 0,
                                  rs_engine_endpoint = [], rs_nodes = 0\<rparr>] [''d-r2''], st')
    \<and> ownsInstance ''d'' ''d-r2''"
proof -
  let ?sp = "\<lparr>rs_provider = ''p'', rs_region = [], rs_requirements = None, rs_replicas = 0,
              rs_engine_endpoint = [], rs_nodes = 0\<rparr>"
  let ?st = "NewState\<lparr>st_deployments := [''d'' \<mapsto> two_slots\<lparr>dep_state := DRunning, dep_replica_specs := [Some ?sp]\<rparr>]\<rparr>"
  have "dec (Suc (Suc 0)) = ''2''" by code_simp
  then have run: "ScaleDeployment ''d'' 3 [] ?st =
      (ScaleUp (two_slots\<lparr>dep_state := DRunning, dep_replica_specs := [Some ?sp]\<rparr>) 2 [Some ?sp] [''d-r2''], ?st)"
    by (simp add: ScaleDeployment_def two_slots_def scale_up_def anchorReplicaSpec_def Let_def replicaInstanceID_def)
  from scale_plan_fresh [OF run] run show ?thesis by auto
qed

text \<open>
  A create request for a live deployment with another image or model replaces its record: the
  members it had are no longer named by any record.
\<close>

theorem claim_multi_forgets_members:
  assumes "st_deployments st (dep_id dep) = Some old" "dep_state old = DRunning"
    and "dep_image old \<noteq> dep_image dep" "dep_instance_id dep = []"
  shows "\<exists>rec. fst (claim_multi dep now st) = ClaimFresh rec \<and> EffectiveInstanceIDs rec = []
    \<and> st_deployments (snd (claim_multi dep now st)) (dep_id dep) = Some rec"
  using assms by (simp add: claim_multi_def Let_def EffectiveInstanceIDs_def newDeploymentRecord_def)

end
