(* ===== verification/Instance_Service.thy ===== *)
theory Instance_Service
  imports Fanout
begin

text \<open>
  The instance half of the service (\<^verbatim>\<open>internal/provisioners/service.go\<close>, \<^verbatim>\<open>tagfilter.go\<close>): claiming,
  adopting or renting a machine, destroying it, refreshing and listing records.  A provider
  adapter is a record of its calls and of the optional capabilities it declares; its answers are
  fixed during one operation.
\<close>

subsection \<open>Providers\<close>

datatype iserr = IInvalidArgument | INotFound | IFailedPrecondition | IInternal | IUnknown | IDeadline | IUnavailable

record instance_ref =
  ref_provider_id :: gostring
  ref_state :: gostring
  ref_tags :: "gostring \<rightharpoonup> gostring"
  ref_rate :: rat
  ref_created_at :: "timestamp option"

datatype provider_error = PNotFound gostring | PError gostring

fun error_text :: "provider_error \<Rightarrow> gostring" where
  "error_text (PNotFound t) = t"
| "error_text (PError t) = t"

datatype wait_error = WaitDeadline | WaitOther

text \<open>
  \<open>pv_register_key\<close> is \<open>None\<close> when the adapter is no \<^verbatim>\<open>KeyRegistrar\<close>, otherwise the error of
  loading the key pair and registering it, if any; \<open>pv_waiter\<close> is the optional
  \<^verbatim>\<open>SSHReadyWaiter\<close>, \<open>pv_active\<close> the optional \<^verbatim>\<open>ActiveStateChecker\<close>.
\<close>

record provider =
  pv_name :: gostring
  pv_list :: "gostring option \<Rightarrow> gostring + instance_ref list"
  pv_describe :: "gostring \<Rightarrow> provider_error + inst"
  pv_spawn :: "spec \<Rightarrow> provider_error + inst"
  pv_terminate :: "gostring \<Rightarrow> gostring option"
  pv_active :: "(gostring \<Rightarrow> bool) option"
  pv_register_key :: "iserr option option"
  pv_waiter :: "(gostring \<Rightarrow> wait_error + ssh_target) option"
  pv_tracks :: bool
  pv_deployer :: bool

type_synonym providers = "gostring \<rightharpoonup> provider"

definition TagID :: gostring where "TagID = ''iplane-id''"
definition TagOperator :: gostring where "TagOperator = ''iplane-operator''"
definition ExternalEndpointTag :: gostring where "ExternalEndpointTag = ''iplane-external-engine-endpoint''"

definition providerSaysActive :: "provider \<Rightarrow> gostring \<Rightarrow> bool" where
  "providerSaysActive p s = (case pv_active p of Some f \<Rightarrow> f s | None \<Rightarrow> False)"

text \<open>A filter is the list of its entries; reading an absent tag gives the empty string.\<close>

definition tag_get :: "(gostring \<rightharpoonup> gostring) \<Rightarrow> gostring \<Rightarrow> gostring" where
  "tag_get tags k = (case tags k of Some v \<Rightarrow> v | None \<Rightarrow> [])"

definition MatchesTags :: "(gostring \<rightharpoonup> gostring) \<Rightarrow> (gostring \<times> gostring) list \<Rightarrow> bool" where
  "MatchesTags tags flt = list_all (\<lambda>(k, want). tag_get tags k = want) flt"

definition FilterRefs :: "instance_ref list \<Rightarrow> (gostring \<times> gostring) list \<Rightarrow> instance_ref list" where
  "FilterRefs refs flt =
     (if flt = [] then refs else filter (\<lambda>r. MatchesTags (ref_tags r) flt) refs)"

subsection \<open>Requirements\<close>

record class_defaults =
  cd_min_vram_gb :: int
  cd_min_disk_gb :: int
  cd_min_ram_gb :: int

definition classDefaults :: "gostring \<rightharpoonup> class_defaults" where
  "classDefaults =
     [''small'' \<mapsto> \<lparr>cd_min_vram_gb = 24, cd_min_disk_gb = 20, cd_min_ram_gb = 16\<rparr>,
      ''medium'' \<mapsto> \<lparr>cd_min_vram_gb = 40, cd_min_disk_gb = 40, cd_min_ram_gb = 32\<rparr>,
      ''large'' \<mapsto> \<lparr>cd_min_vram_gb = 80, cd_min_disk_gb = 60, cd_min_ram_gb = 64\<rparr>,
      ''xlarge'' \<mapsto> \<lparr>cd_min_vram_gb = 96, cd_min_disk_gb = 100, cd_min_ram_gb = 128\<rparr>]"

datatype req_error = ReqMissing | ReqClassAndSku | ReqNothing | ReqFabricCards | ReqFabricScope
  | ReqInterNode | ReqUnknownClass

definition expand_class :: "class_defaults \<Rightarrow> requirements \<Rightarrow> requirements" where
  "expand_class d r =
     r\<lparr>rq_min_vram_gb := (if rq_min_vram_gb r < cd_min_vram_gb d then cd_min_vram_gb d else rq_min_vram_gb r),
       rq_min_disk_gb := (if rq_min_disk_gb r < cd_min_disk_gb d then cd_min_disk_gb d else rq_min_disk_gb r),
       rq_min_ram_gb := (if rq_min_ram_gb r < cd_min_ram_gb d then cd_min_ram_gb d else rq_min_ram_gb r)\<rparr>"

definition ValidateAndExpandRequirements :: "spec \<Rightarrow> req_error + spec" where
  "ValidateAndExpandRequirements sp =
     (case sp_requirements sp of
        None \<Rightarrow> Inl ReqMissing
      | Some r \<Rightarrow>
          if rq_sku r \<noteq> [] \<and> rq_class r \<noteq> [] then Inl ReqClassAndSku
          else if rq_sku r = [] \<and> rq_class r = [] \<and> rq_min_vram_gb r = 0 then Inl ReqNothing
          else if rq_fabric_scope r \<noteq> ScopeUnspecified \<and> rq_fabric_scope r \<noteq> ScopeNone \<and> rq_gpu_count r < 2
          then Inl ReqFabricCards
          else if rq_min_fabric_gbps r > 0 \<and> rq_fabric_scope r = ScopeUnspecified then Inl ReqFabricScope
          else if rq_fabric_scope r = ScopeInterNode then Inl ReqInterNode
          else if rq_class r \<noteq> [] then
            (case classDefaults (rq_class r) of
               None \<Rightarrow> Inl ReqUnknownClass
             | Some d \<Rightarrow> Inr (sp\<lparr>sp_requirements := Some (expand_class d r)\<rparr>))
          else Inr sp)"

subsection \<open>Records of instances\<close>

definition patchRecord :: "gostring \<Rightarrow> inst \<Rightarrow> state \<Rightarrow> state" where
  "patchRecord k i st = st\<lparr>st_instances := (st_instances st)(k \<mapsto> i)\<rparr>"

definition finalizeActive :: "timestamp \<Rightarrow> inst \<Rightarrow> spec option \<Rightarrow> gostring \<Rightarrow> timestamp option \<Rightarrow> inst" where
  "finalizeActive now i sp providerName createdAt =
     i\<lparr>in_state := (if in_state i = IUnspecified then IActive else in_state i),
       in_activated_at := stamp_once now (in_activated_at i),
       in_created_at := (case createdAt of Some t \<Rightarrow> Some t | None \<Rightarrow> stamp_once now (in_created_at i)),
       in_id := (case sp of Some s \<Rightarrow> sp_id s | None \<Rightarrow> []),
       in_provider := providerName,
       in_spec := (case in_spec i of None \<Rightarrow> sp | Some s \<Rightarrow> Some s)\<rparr>"

definition newPendingInstance :: "spec \<Rightarrow> gostring \<Rightarrow> timestamp \<Rightarrow> inst" where
  "newPendingInstance sp providerName now =
     \<lparr>in_id = sp_id sp, in_provider_id = [], in_provider = providerName, in_spec = Some sp,
      in_region = sp_region sp, in_hourly_rate = 0, in_state = IPending, in_created_at = Some now,
      in_activated_at = None, in_terminated_at = None, in_ssh = None, in_failure_reason = [],
      in_metadata = Map.empty\<rparr>"

definition withSystemTags :: "spec \<Rightarrow> gostring \<Rightarrow> spec" where
  "withSystemTags sp operatorID =
     sp\<lparr>sp_tags := (sp_tags sp)(TagID \<mapsto> sp_id sp, TagOperator \<mapsto> operatorID)\<rparr>"

definition markVanished :: "timestamp \<Rightarrow> inst \<Rightarrow> inst" where
  "markVanished now i = i\<lparr>in_state := ITerminated, in_terminated_at := stamp_once now (in_terminated_at i)\<rparr>"

definition refToInstance :: "instance_ref \<Rightarrow> gostring \<Rightarrow> inst" where
  "refToInstance ref providerName =
     \<lparr>in_id = tag_get (ref_tags ref) TagID, in_provider_id = ref_provider_id ref, in_provider = providerName,
      in_spec = None, in_region = [], in_hourly_rate = ref_rate ref, in_state = IActive,
      in_created_at = ref_created_at ref, in_activated_at = None, in_terminated_at = None, in_ssh = None,
      in_failure_reason = [], in_metadata = Map.empty\<rparr>"

subsection \<open>Operations\<close>

text \<open>The error of \<^verbatim>\<open>ensureProviderKey\<close>, \<open>None\<close> when it succeeds or there is nothing to do.\<close>

definition ensureProviderKey :: "bool \<Rightarrow> provider \<Rightarrow> iserr option" where
  "ensureProviderKey keystore p =
     (if \<not> keystore then None else (case pv_register_key p of None \<Rightarrow> None | Some err \<Rightarrow> err))"

definition registerKeyAndSpawn ::
  "bool \<Rightarrow> gostring \<Rightarrow> timestamp \<Rightarrow> provider \<Rightarrow> spec \<Rightarrow> inst \<Rightarrow> state \<Rightarrow> (iserr + inst) \<times> state" where
  "registerKeyAndSpawn keystore operatorID now p sp record st =
     (case ensureProviderKey keystore p of
        Some e \<Rightarrow> (Inl e, st)
      | None \<Rightarrow>
        (case pv_spawn p (withSystemTags sp operatorID) of
           Inl e \<Rightarrow>
             (Inl IUnknown,
              patchRecord (sp_id sp) (record\<lparr>in_state := IFailed, in_failure_reason := error_text e\<rparr>) st)
         | Inr i \<Rightarrow>
             (let spawned = finalizeActive now i (Some sp) (pv_name p) (in_created_at record)
              in (Inr spawned, patchRecord (sp_id sp) spawned st))))"

fun adopt :: "timestamp \<Rightarrow> provider \<Rightarrow> spec \<Rightarrow> inst \<Rightarrow> instance_ref list \<Rightarrow> inst option" where
  "adopt now p sp record [] = None"
| "adopt now p sp record (ref # refs) =
     (if \<not> providerSaysActive p (ref_state ref) then adopt now p sp record refs
      else
        (case pv_describe p (ref_provider_id ref) of
           Inl _ \<Rightarrow> adopt now p sp record refs
         | Inr i \<Rightarrow> Some (finalizeActive now i (Some sp) (pv_name p) (in_created_at record))))"

definition list_refs :: "provider \<Rightarrow> gostring \<Rightarrow> instance_ref list" where
  "list_refs p k = (case pv_list p (Some k) of Inl _ \<Rightarrow> [] | Inr refs \<Rightarrow> refs)"

definition CreateInstance ::
  "providers \<Rightarrow> bool \<Rightarrow> gostring \<Rightarrow> timestamp \<Rightarrow> spec option \<Rightarrow> state \<Rightarrow> (iserr + inst \<times> bool) \<times> state" where
  "CreateInstance ps keystore operatorID now req st =
     (case req of
        None \<Rightarrow> (Inl IInvalidArgument, st)
      | Some sp0 \<Rightarrow>
          if \<not> ValidateID (sp_id sp0) then (Inl IInvalidArgument, st)
          else
            (case ValidateAndExpandRequirements sp0 of
               Inl _ \<Rightarrow> (Inl IInvalidArgument, st)
             | Inr sp \<Rightarrow>
                 (case ps (sp_provider sp) of
                    None \<Rightarrow> (Inl IInvalidArgument, st)
                  | Some p \<Rightarrow>
                      (let record = newPendingInstance sp (pv_name p) now;
                           st1 = patchRecord (sp_id sp) record st;
                           claimed =
                             (case adopt now p sp record (FilterRefs (list_refs p (sp_id sp)) [(TagID, sp_id sp)]) of
                                Some adopted \<Rightarrow> (Inr (adopted, True), patchRecord (sp_id sp) adopted st1)
                              | None \<Rightarrow>
                                  (case registerKeyAndSpawn keystore operatorID now p sp record st1 of
                                     (Inl e, st2) \<Rightarrow> (Inl e, st2)
                                   | (Inr spawned, st2) \<Rightarrow> (Inr (spawned, False), st2)))
                       in case st_instances st (sp_id sp) of
                            Some existing \<Rightarrow>
                              if in_state existing = IPending \<or> in_state existing = IActive then
                                (if in_provider existing \<noteq> sp_provider sp then (Inl IFailedPrecondition, st)
                                 else (Inr (existing, True), st))
                              else if in_state existing = ITerminating then (Inl IFailedPrecondition, st)
                              else claimed
                          | None \<Rightarrow> claimed))))"

definition destroy_provider_id :: "gostring \<Rightarrow> inst \<Rightarrow> state \<Rightarrow> gostring" where
  "destroy_provider_id k existing st =
     (if in_provider_id existing = [] then
        (case st_deployments st k of
           Some dep \<Rightarrow> dep_container_id dep
         | None \<Rightarrow> [])
      else in_provider_id existing)"

definition DestroyInstance ::
  "providers \<Rightarrow> timestamp \<Rightarrow> bool \<Rightarrow> gostring \<Rightarrow> state \<Rightarrow> (iserr + inst) \<times> state" where
  "DestroyInstance ps now force k st =
     (if \<not> ValidateID k then (Inl IInvalidArgument, st)
      else
        (case st_instances st k of
           None \<Rightarrow> (Inl INotFound, st)
         | Some existing \<Rightarrow>
             if in_state existing = ITerminated then (Inr existing, st)
             else
               (let pid = destroy_provider_id k existing st;
                    rec = existing\<lparr>in_provider_id := pid, in_state := ITerminating\<rparr>;
                    st1 = patchRecord k rec st;
                    finish = (\<lambda>terminateErr.
                      case terminateErr of
                        Some err \<Rightarrow>
                          (Inl IUnknown, patchRecord k (rec\<lparr>in_state := IFailed, in_failure_reason := err\<rparr>) st1)
                      | None \<Rightarrow>
                          (let fin = rec\<lparr>in_state := ITerminated, in_terminated_at := Some now\<rparr>
                           in (Inr fin, patchRecord k fin st1)))
                in if \<not> force \<and> pid \<noteq> [] then
                     (case ps (in_provider existing) of
                        None \<Rightarrow> (Inl IFailedPrecondition, st1)
                      | Some p \<Rightarrow> finish (pv_terminate p pid))
                   else finish None)))"

definition DescribeInstance ::
  "providers \<Rightarrow> timestamp \<Rightarrow> bool \<Rightarrow> gostring \<Rightarrow> state \<Rightarrow> (iserr + inst) \<times> state" where
  "DescribeInstance ps now remote k st =
     (if \<not> ValidateID k then (Inl IInvalidArgument, st)
      else
        (case st_instances st k of
           None \<Rightarrow> (Inl INotFound, st)
         | Some existing \<Rightarrow>
             if \<not> remote then (Inr existing, st)
             else
               (case ps (in_provider existing) of
                  None \<Rightarrow> (Inl IFailedPrecondition, st)
                | Some p \<Rightarrow>
                    if in_provider_id existing = [] then (Inl IFailedPrecondition, st)
                    else
                      (case pv_describe p (in_provider_id existing) of
                         Inl (PNotFound t) \<Rightarrow>
                           if pv_tracks p then
                             (let gone = markVanished now existing in (Inr gone, patchRecord k gone st))
                           else (Inl IUnknown, st)
                       | Inl (PError t) \<Rightarrow> (Inl IUnknown, st)
                       | Inr i \<Rightarrow>
                           (let fresh = finalizeActive now i (in_spec existing) (pv_name p) (in_created_at existing)
                            in (Inr fresh, patchRecord k fresh st))))))"

definition WaitForInstanceReady :: "providers \<Rightarrow> gostring \<Rightarrow> state \<Rightarrow> (iserr + inst \<times> bool) \<times> state" where
  "WaitForInstanceReady ps k st =
     (if \<not> ValidateID k then (Inl IInvalidArgument, st)
      else
        (case st_instances st k of
           None \<Rightarrow> (Inl INotFound, st)
         | Some i \<Rightarrow>
             (let has_ssh = (case in_ssh i of Some t \<Rightarrow> ssh_host t \<noteq> [] | None \<Rightarrow> False);
                  verifiable = (case ps (in_provider i) of Some p \<Rightarrow> pv_waiter p \<noteq> None | None \<Rightarrow> False);
                  no_shell = (case st_deployments st k of
                                Some dep \<Rightarrow> dep_instance_id dep = k \<and> \<not> dep_debug_shell dep
                              | None \<Rightarrow> False)
              in if has_ssh \<and> \<not> verifiable then (Inr (i, True), st)
                 else if no_shell then (Inl IFailedPrecondition, st)
                 else
                   (case ps (in_provider i) of
                      None \<Rightarrow> (Inl IFailedPrecondition, st)
                    | Some p \<Rightarrow>
                        (case pv_waiter p of
                           None \<Rightarrow> (Inr (i, True), st)
                         | Some wait \<Rightarrow>
                             (case wait (in_provider_id i) of
                                Inl WaitDeadline \<Rightarrow> (Inl IDeadline, st)
                              | Inl WaitOther \<Rightarrow> (Inl IUnavailable, st)
                              | Inr target \<Rightarrow>
                                  (let upd = i\<lparr>in_ssh := Some target\<rparr>
                                   in (Inr (upd, False), patchRecord k upd st))))))))"

text \<open>One step of the self-heal of a local listing, for the record read as \<open>i\<close> under id \<open>k\<close>.\<close>

definition heal :: "providers \<Rightarrow> timestamp \<Rightarrow> gostring \<Rightarrow> inst \<Rightarrow> state \<Rightarrow> state" where
  "heal ps now k i st =
     (if in_state i \<noteq> IPending \<and> in_state i \<noteq> ITerminating then st
      else
        (case ps (in_provider i) of
           None \<Rightarrow> st
         | Some p \<Rightarrow>
             (case pv_list p (Some k) of
                Inl _ \<Rightarrow> st
              | Inr refs \<Rightarrow>
                  (case FilterRefs refs [(TagID, k)] of
                     [] \<Rightarrow>
                       if in_state i = ITerminating
                       then update_instance k (\<lambda>r. r\<lparr>in_state := ITerminated, in_terminated_at := Some now\<rparr>) st
                       else st
                   | ref # _ \<Rightarrow>
                       if in_state i = IPending then
                         (case pv_describe p (ref_provider_id ref) of
                            Inl _ \<Rightarrow> st
                          | Inr a \<Rightarrow> patchRecord k (finalizeActive now a (in_spec i) (pv_name p) (in_created_at i)) st)
                       else st))))"

fun heal_all ::
  "providers \<Rightarrow> timestamp \<Rightarrow> gostring \<Rightarrow> (gostring \<rightharpoonup> inst) \<Rightarrow> gostring list \<Rightarrow> state \<Rightarrow> state" where
  "heal_all ps now flt snap [] st = st"
| "heal_all ps now flt snap (k # ks) st =
     heal_all ps now flt snap ks
       (case snap k of
          None \<Rightarrow> st
        | Some i \<Rightarrow> if flt \<noteq> [] \<and> in_provider i \<noteq> flt then st else heal ps now k i st)"

definition ListInstances_local ::
  "providers \<Rightarrow> timestamp \<Rightarrow> gostring list \<Rightarrow> gostring \<Rightarrow> state \<Rightarrow> inst list \<times> state" where
  "ListInstances_local ps now order flt st =
     (let st1 = heal_all ps now flt (st_instances st) order st
      in (filter (\<lambda>i. flt = [] \<or> in_provider i = flt) (List.map_filter (st_instances st1) order), st1))"

definition ListInstances_remote :: "providers \<Rightarrow> gostring \<Rightarrow> iserr + inst list" where
  "ListInstances_remote ps flt =
     (if flt = [] then Inl IInvalidArgument
      else
        (case ps flt of
           None \<Rightarrow> Inl IInvalidArgument
         | Some p \<Rightarrow>
             (case pv_list p None of
                Inl _ \<Rightarrow> Inl IUnknown
              | Inr refs \<Rightarrow>
                  Inr (map (\<lambda>r. refToInstance r (pv_name p))
                         (filter (\<lambda>r. tag_get (ref_tags r) TagID \<noteq> []) refs)))))"

definition finalizeInstanceAfterDeploy ::
  "providers \<Rightarrow> timestamp \<Rightarrow> gostring \<Rightarrow> gostring \<Rightarrow> state \<Rightarrow> state" where
  "finalizeInstanceAfterDeploy ps now k depID st =
     (case st_deployments st depID of
        None \<Rightarrow> st
      | Some d \<Rightarrow>
          (case st_instances st k of
             None \<Rightarrow> st
           | Some cur \<Rightarrow>
               if in_state cur = IActive then st
               else
                 (let podID = (if in_provider_id cur = [] then dep_container_id d else in_provider_id cur)
                  in if podID = [] then st
                     else
                       (case ps (in_provider cur) of
                          None \<Rightarrow> st
                        | Some p \<Rightarrow>
                            (case pv_describe p podID of
                               Inr i \<Rightarrow>
                                 (let fin = (finalizeActive now i (in_spec cur) (in_provider cur) (in_created_at cur))
                                        \<lparr>in_provider_id := podID, in_ssh := in_ssh cur\<rparr>
                                  in patchRecord (in_id cur) fin st)
                             | Inl _ \<Rightarrow>
                                 patchRecord (in_id cur) (cur\<lparr>in_provider_id := podID, in_state := IActive,
                                   in_activated_at := Some now\<rparr>) st)))))"

text \<open>\<^verbatim>\<open>placeReplicaInstance\<close> of \<^verbatim>\<open>fanout.go\<close>; \<open>None\<close> is a missing spec.\<close>

definition place_spec :: "gostring \<Rightarrow> gostring \<Rightarrow> replica_spec \<Rightarrow> requirements \<Rightarrow> gostring list \<Rightarrow> spec" where
  "place_spec instanceID baseImage sp reqs volumeIDs =
     \<lparr>sp_id = instanceID, sp_provider = rs_provider sp, sp_region = rs_region sp, sp_base_image = baseImage,
      sp_requirements = Some reqs, sp_volume_ids = volumeIDs, sp_tags = Map.empty\<rparr>"

definition zero_requirements :: requirements where
  "zero_requirements =
     \<lparr>rq_min_vram_gb = 0, rq_min_disk_gb = 0, rq_min_ram_gb = 0, rq_gpu_count = 0, rq_class = [], rq_sku = [],
      rq_fabric_scope = ScopeUnspecified, rq_min_fabric_gbps = 0, rq_reclaim_policy = ReclaimUnspecified,
      rq_architecture = []\<rparr>"

definition place_rent ::
  "bool \<Rightarrow> gostring \<Rightarrow> timestamp \<Rightarrow> provider \<Rightarrow> spec \<Rightarrow> state \<Rightarrow> (iserr + inst) \<times> state" where
  "place_rent keystore operatorID now p pspec st =
     (let i = newPendingInstance pspec (sp_provider pspec) now;
          st1 = patchRecord (in_id i) i st
      in if pv_deployer p then (Inr i, st1)
         else
           (case registerKeyAndSpawn keystore operatorID now p pspec i st1 of
              (Inl _, st2) \<Rightarrow> (Inl IInternal, st2)
            | (Inr spawned, st2) \<Rightarrow>
                (case pv_waiter p of
                   None \<Rightarrow> (Inr spawned, st2)
                 | Some wait \<Rightarrow>
                     (case wait (in_provider_id spawned) of
                        Inl _ \<Rightarrow> (Inr spawned, st2)
                      | Inr target \<Rightarrow>
                          if ssh_host target \<noteq> [] then
                            (let up = spawned\<lparr>in_ssh := Some target\<rparr> in (Inr up, patchRecord (in_id up) up st2))
                          else (Inr spawned, st2)))))"

definition placeReplicaInstance ::
  "providers \<Rightarrow> bool \<Rightarrow> gostring \<Rightarrow> timestamp \<Rightarrow> replica_spec option \<Rightarrow> gostring \<Rightarrow> gostring \<Rightarrow> gostring \<Rightarrow> state
   \<Rightarrow> (iserr + inst) \<times> state" where
  "placeReplicaInstance ps keystore operatorID now rsp baseImage deployID instanceID st =
     (case rsp of
        None \<Rightarrow> (Inl IInvalidArgument, st)
      | Some sp \<Rightarrow>
          if rs_provider sp = [] then (Inl IInvalidArgument, st)
          else
            (case ps (rs_provider sp) of
               None \<Rightarrow> (Inl IInvalidArgument, st)
             | Some p \<Rightarrow>
                 (let external = (rs_provider sp = ProviderExternal)
                  in if rs_requirements sp = None \<and> \<not> external then (Inl IInvalidArgument, st)
                     else
                       (case st_instances st instanceID of
                          Some existing \<Rightarrow> (Inr existing, st)
                        | None \<Rightarrow>
                            (let reqs = (case rs_requirements sp of Some r \<Rightarrow> r | None \<Rightarrow> zero_requirements);
                                 mounts = (case st_deployments st deployID of Some d \<Rightarrow> dep_mounts d | None \<Rightarrow> []);
                                 pspec = place_spec instanceID baseImage sp reqs (volumesForProvider mounts (rs_provider sp))
                             in if external then
                                  (if rs_engine_endpoint sp = [] then (Inl IInvalidArgument, st)
                                   else place_rent keystore operatorID now p
                                     (pspec\<lparr>sp_tags := [ExternalEndpointTag \<mapsto> rs_engine_endpoint sp]\<rparr>) st)
                                else
                                  (case ValidateAndExpandRequirements pspec of
                                     Inl _ \<Rightarrow> (Inl IInvalidArgument, st)
                                   | Inr pspec' \<Rightarrow> place_rent keystore operatorID now p pspec' st))))))"

subsection \<open>Lemmas\<close>

lemma patchRecord_simps [simp]:
  "st_instances (patchRecord k i st) = (st_instances st)(k \<mapsto> i)"
  "st_deployments (patchRecord k i st) = st_deployments st" "st_engines (patchRecord k i st) = st_engines st"
  by (simp_all add: patchRecord_def)

lemma finalizeActive_fields [simp]:
  "in_id (finalizeActive now i (Some sp) pn c) = sp_id sp" "in_provider (finalizeActive now i sps pn c) = pn"
  "in_state (finalizeActive now i sps pn c) = (if in_state i = IUnspecified then IActive else in_state i)"
  "in_created_at (finalizeActive now i sps pn (Some t)) = Some t"
  by (simp_all add: finalizeActive_def)

lemma expand_id: "ValidateAndExpandRequirements sp = Inr sp' \<Longrightarrow> sp_id sp' = sp_id sp \<and> sp_provider sp' = sp_provider sp"
  by (auto simp: ValidateAndExpandRequirements_def split: option.splits if_splits)

lemma registerKeyAndSpawn_frame:
  assumes "registerKeyAndSpawn ks op now p sp record st = (r, st')"
  shows "\<forall>k. k \<noteq> sp_id sp \<longrightarrow> st_instances st' k = st_instances st k" "st_deployments st' = st_deployments st"
  using assms by (auto simp: registerKeyAndSpawn_def Let_def split: option.splits sum.splits)

lemma registerKeyAndSpawn_ok:
  "registerKeyAndSpawn ks op now p sp record st = (Inr i, st') \<Longrightarrow>
     st_instances st' (sp_id sp) = Some i \<and> in_id i = sp_id sp \<and> in_provider i = pv_name p
     \<and> (\<exists>x. pv_spawn p (withSystemTags sp op) = Inr x \<and> i = finalizeActive now x (Some sp) (pv_name p) (in_created_at record))"
  by (auto simp: registerKeyAndSpawn_def Let_def split: option.splits sum.splits)

lemma adopt_None:
  "adopt now p sp record refs = None \<Longrightarrow> ref \<in> set refs \<Longrightarrow> providerSaysActive p (ref_state ref) \<Longrightarrow>
     \<exists>e. pv_describe p (ref_provider_id ref) = Inl e"
  by (induction refs) (auto split: if_splits sum.splits)

lemma adopt_Some:
  "adopt now p sp record refs = Some a \<Longrightarrow>
   \<exists>ref\<in>set refs. \<exists>i. providerSaysActive p (ref_state ref) \<and> pv_describe p (ref_provider_id ref) = Inr i
     \<and> a = finalizeActive now i (Some sp) (pv_name p) (in_created_at record)"
  by (induction refs) (auto split: if_splits sum.splits)

subsection \<open>Properties of requirements\<close>

text \<open>
  A class shorthand sets floors.  Requirements that pass validation name a SKU, a memory
  floor or a class; after expansion every constraint is at least what the operator asked for, for
  a known class at least the class's floor, and never more than the larger of the two; expanding
  again changes nothing.
\<close>

theorem expand_requirements_floor:
  assumes "ValidateAndExpandRequirements sp = Inr sp'"
  shows "\<exists>r r'. sp_requirements sp = Some r \<and> sp_requirements sp' = Some r'
    \<and> (rq_sku r \<noteq> [] \<or> rq_class r \<noteq> [] \<or> rq_min_vram_gb r \<noteq> 0)
    \<and> (case classDefaults (rq_class r) of
         Some d \<Rightarrow> rq_class r \<noteq> [] \<longrightarrow>
           rq_min_vram_gb r' = max (rq_min_vram_gb r) (cd_min_vram_gb d)
           \<and> rq_min_disk_gb r' = max (rq_min_disk_gb r) (cd_min_disk_gb d)
           \<and> rq_min_ram_gb r' = max (rq_min_ram_gb r) (cd_min_ram_gb d)
       | None \<Rightarrow> r' = r)
    \<and> ValidateAndExpandRequirements sp' = Inr sp'"
proof -
  obtain r where r: "sp_requirements sp = Some r"
    using assms by (auto simp: ValidateAndExpandRequirements_def split: option.splits)
  have idem: "expand_class d (expand_class d r) = expand_class d r" for d by (simp add: expand_class_def)
  show ?thesis
  proof (cases "rq_class r = []")
    case True
    then have "sp' = sp" "classDefaults [] = None"
      using assms r by (auto simp: ValidateAndExpandRequirements_def classDefaults_def split: if_splits)
    then show ?thesis using assms r True by (auto simp: ValidateAndExpandRequirements_def split: if_splits)
  next
    case False
    then obtain d where d: "classDefaults (rq_class r) = Some d" "sp' = sp\<lparr>sp_requirements := Some (expand_class d r)\<rparr>"
      using assms r by (auto simp: ValidateAndExpandRequirements_def split: if_splits option.splits)
    have v: "ValidateAndExpandRequirements sp' = Inr sp'"
    proof -
      have f: "rq_sku (expand_class d r) = rq_sku r" "rq_class (expand_class d r) = rq_class r"
        "rq_fabric_scope (expand_class d r) = rq_fabric_scope r" "rq_gpu_count (expand_class d r) = rq_gpu_count r"
        "rq_min_fabric_gbps (expand_class d r) = rq_min_fabric_gbps r"
        by (simp_all add: expand_class_def)
      show ?thesis using assms r d False idem [of d]
        by (auto simp: ValidateAndExpandRequirements_def f split: if_splits)
    qed
    show ?thesis using r d v False by (auto simp: expand_class_def)
  qed
qed

definition sample_spec :: spec where
  "sample_spec = \<lparr>sp_id = ''i'', sp_provider = ''p'', sp_region = [], sp_base_image = [],
     sp_requirements = Some (zero_requirements\<lparr>rq_class := ''small'', rq_min_vram_gb := 32\<rparr>), sp_volume_ids = [],
     sp_tags = Map.empty\<rparr>"

definition sample_expanded :: spec where
  "sample_expanded = sample_spec\<lparr>sp_requirements := Some (zero_requirements\<lparr>rq_class := ''small'', rq_min_vram_gb := 32,
     rq_min_disk_gb := 20, rq_min_ram_gb := 16\<rparr>)\<rparr>"

lemma sample_expand: "ValidateAndExpandRequirements sample_spec = Inr sample_expanded"
  by (simp add: ValidateAndExpandRequirements_def sample_spec_def sample_expanded_def zero_requirements_def
      classDefaults_def expand_class_def)

theorem expand_requirements_floor_witness:
  "ValidateAndExpandRequirements sample_spec = Inr sample_expanded
   \<and> ValidateAndExpandRequirements sample_expanded = Inr sample_expanded"
  using expand_requirements_floor [OF sample_expand] sample_expand by blast

subsection \<open>Properties of creation and destruction\<close>

text \<open>The record of a machine under an id: the machine is the one the provider told of.\<close>

definition bound_to :: "gostring \<Rightarrow> provider \<Rightarrow> inst \<Rightarrow> inst \<Rightarrow> bool" where
  "bound_to k p machine i \<longleftrightarrow>
     in_id i = k \<and> in_provider i = pv_name p \<and> in_provider_id i = in_provider_id machine \<and> in_ssh i = in_ssh machine
     \<and> in_region i = in_region machine \<and> in_hourly_rate i = in_hourly_rate machine"

lemma finalize_bound: "bound_to (sp_id sp) p a (finalizeActive now a (Some sp) (pv_name p) c)"
  by (simp add: bound_to_def finalizeActive_def)

text \<open>The listing entries of an id, those a create looks at for a machine to adopt.\<close>

lemma tagged_refs:
  "ref \<in> set (FilterRefs (list_refs p k) [(TagID, k)]) \<longleftrightarrow>
     (\<exists>refs. pv_list p (Some k) = Inr refs \<and> ref \<in> set refs) \<and> tag_get (ref_tags ref) TagID = k"
  by (cases "pv_list p (Some k)") (auto simp: FilterRefs_def list_refs_def MatchesTags_def)

lemma adopted_bound:
  assumes "adopt now p sp record (FilterRefs (list_refs p (sp_id sp)) [(TagID, sp_id sp)]) = Some i"
  shows "\<exists>refs ref a. pv_list p (Some (sp_id sp)) = Inr refs \<and> ref \<in> set refs
     \<and> tag_get (ref_tags ref) TagID = sp_id sp \<and> providerSaysActive p (ref_state ref)
     \<and> pv_describe p (ref_provider_id ref) = Inr a \<and> bound_to (sp_id sp) p a i"
  using adopt_Some [OF assms] finalize_bound [of sp] by (fastforce simp: tagged_refs)

lemma none_described:
  assumes "adopt now p sp record (FilterRefs (list_refs p (sp_id sp)) [(TagID, sp_id sp)]) = None"
  shows "\<forall>refs ref a. pv_list p (Some (sp_id sp)) = Inr refs \<and> ref \<in> set refs \<and> tag_get (ref_tags ref) TagID = sp_id sp
     \<and> providerSaysActive p (ref_state ref) \<longrightarrow> pv_describe p (ref_provider_id ref) \<noteq> Inr a"
  using adopt_None [OF assms] by (fastforce simp: tagged_refs)

lemma spawned_bound:
  assumes "registerKeyAndSpawn ks op now p sp record st = (Inr i, st')"
  shows "\<exists>tagged x. sp_id tagged = sp_id sp \<and> sp_tags tagged TagID = Some (sp_id sp) \<and> sp_tags tagged TagOperator = Some op
     \<and> pv_spawn p tagged = Inr x \<and> bound_to (sp_id sp) p x i"
proof -
  obtain x where x: "pv_spawn p (withSystemTags sp op) = Inr x" "i = finalizeActive now x (Some sp) (pv_name p) (in_created_at record)"
    using registerKeyAndSpawn_ok [OF assms] by blast
  moreover have "sp_id (withSystemTags sp op) = sp_id sp" "sp_tags (withSystemTags sp op) TagID = Some (sp_id sp)"
    "sp_tags (withSystemTags sp op) TagOperator = Some op"
    by (simp_all add: withSystemTags_def TagID_def TagOperator_def)
  ultimately show ?thesis using finalize_bound [of sp] by blast
qed

text \<open>
  C23: creating an instance binds the id to the right machine.  A successful create returns the
  record stored under the requested id and touches no other record.  If it says the instance
  already existed, then either the id had a PENDING or ACTIVE record on the same provider and nothing
  changes, or the record is that of a machine which a listing entry names that carries this very id as
  its iplane tag and that the provider calls active.  If not, the record is that of a machine the provider
  has just rented under this id and the operator's tag, and it could describe no active machine of that tag.
\<close>

theorem create_instance_sound:
  assumes "CreateInstance ps ks op now (Some sp0) st = (Inr (i, existed), st')"
  shows "st_instances st' (sp_id sp0) = Some i
    \<and> (\<forall>k. k \<noteq> sp_id sp0 \<longrightarrow> st_instances st' k = st_instances st k)
    \<and> (\<exists>p. ps (sp_provider sp0) = Some p \<and>
        (existed \<longrightarrow>
           st_instances st (sp_id sp0) = Some i \<and> st' = st \<and> in_state i \<in> {IPending, IActive} \<and> in_provider i = sp_provider sp0
         \<or> (\<exists>refs ref a. pv_list p (Some (sp_id sp0)) = Inr refs \<and> ref \<in> set refs
              \<and> tag_get (ref_tags ref) TagID = sp_id sp0 \<and> providerSaysActive p (ref_state ref)
              \<and> pv_describe p (ref_provider_id ref) = Inr a \<and> bound_to (sp_id sp0) p a i))
      \<and> (\<not> existed \<longrightarrow>
           (\<exists>sp x. sp_id sp = sp_id sp0 \<and> sp_tags sp TagID = Some (sp_id sp0) \<and> sp_tags sp TagOperator = Some op
              \<and> pv_spawn p sp = Inr x \<and> bound_to (sp_id sp0) p x i)
         \<and> (\<forall>refs ref a. pv_list p (Some (sp_id sp0)) = Inr refs \<and> ref \<in> set refs \<and> tag_get (ref_tags ref) TagID = sp_id sp0
              \<and> providerSaysActive p (ref_state ref) \<longrightarrow> pv_describe p (ref_provider_id ref) \<noteq> Inr a)))"
proof -
  obtain sp p where sp: "ValidateAndExpandRequirements sp0 = Inr sp" "ps (sp_provider sp) = Some p"
    using assms by (auto simp: CreateInstance_def split: if_splits sum.splits option.splits)
  have ids: "sp_id sp = sp_id sp0" "sp_provider sp = sp_provider sp0" using expand_id [OF sp(1)] by auto
  let ?rec = "newPendingInstance sp (pv_name p) now"
  let ?st1 = "patchRecord (sp_id sp) ?rec st"
  let ?refs = "FilterRefs (list_refs p (sp_id sp)) [(TagID, sp_id sp)]"
  consider (exists) "st_instances st (sp_id sp) = Some i" "existed" "st' = st" "in_state i \<in> {IPending, IActive}"
      "in_provider i = sp_provider sp0"
    | (adopted) "adopt now p sp ?rec ?refs = Some i" "existed" "st' = patchRecord (sp_id sp) i ?st1"
    | (spawned) "adopt now p sp ?rec ?refs = None" "registerKeyAndSpawn ks op now p sp ?rec ?st1 = (Inr i, st')" "\<not> existed"
    using assms sp ids
    by (auto simp: CreateInstance_def Let_def split: if_splits option.splits sum.splits prod.splits)
  then show ?thesis
  proof cases
    case exists
    then show ?thesis using sp(2) unfolding ids by (intro conjI exI [of _ p]) simp_all
  next
    case adopted
    then show ?thesis using sp(2) adopted_bound [OF adopted(1)] unfolding ids by (intro conjI exI [of _ p]) simp_all
  next
    case spawned
    then have "st_instances st' (sp_id sp) = Some i" "\<forall>k. k \<noteq> sp_id sp \<longrightarrow> st_instances st' k = st_instances st k"
      using registerKeyAndSpawn_ok [OF spawned(2)] registerKeyAndSpawn_frame(1) [OF spawned(2)] by simp_all
    then show ?thesis using sp(2) none_described [OF spawned(1)] spawned_bound [OF spawned(2)] spawned(3) unfolding ids
      by (intro conjI exI [of _ p]) simp_all
  qed
qed

definition sample_provider :: provider where
  "sample_provider =
     \<lparr>pv_name = ''p'', pv_list = (\<lambda>_. Inr []), pv_describe = (\<lambda>_. Inl (PError ''down'')),
      pv_spawn = (\<lambda>s. Inr (sample_instance\<lparr>in_state := IUnspecified\<rparr>)), pv_terminate = (\<lambda>_. None), pv_active = None,
      pv_register_key = Some None, pv_waiter = None, pv_tracks = True, pv_deployer = False\<rparr>"

lemma valid_i [simp]: "ValidateID ''i''"
  by code_simp

theorem create_instance_sound_witness:
  "\<exists>i st'. CreateInstance [''p'' \<mapsto> sample_provider] True ''me'' 5 (Some sample_spec) NewState = (Inr (i, False), st')
     \<and> st_instances st' ''i'' = Some i"
proof -
  have f: "ValidateID (sp_id sample_spec)" "sp_provider sample_expanded = ''p''" "st_instances NewState k = None"
    "FilterRefs (list_refs sample_provider k) flt = []" "ensureProviderKey True sample_provider = None"
    "pv_spawn sample_provider sp = Inr (sample_instance\<lparr>in_state := IUnspecified\<rparr>)" for k flt sp
    by (simp_all add: sample_spec_def sample_expanded_def NewState_def list_refs_def sample_provider_def
        FilterRefs_def ensureProviderKey_def)
  obtain i st' where run:
    "CreateInstance [''p'' \<mapsto> sample_provider] True ''me'' 5 (Some sample_spec) NewState = (Inr (i, False), st')"
    by (simp add: CreateInstance_def sample_expand f registerKeyAndSpawn_def Let_def)
  from create_instance_sound [OF run] run show ?thesis by (auto simp: sample_spec_def)
qed

text \<open>
  Destroying an instance settles it.  For a record that is not already TERMINATED, the
  destroy either reports success and leaves the record TERMINATED with its time, or reports the
  provider's error and leaves it FAILED with that error as the reason, or cannot reach the
  provider and leaves it TERMINATING; no other record changes.
\<close>

theorem destroy_instance_settles:
  assumes "ValidateID k" "st_instances st k = Some old" "in_state old \<noteq> ITerminated"
    and "DestroyInstance ps now force k st = (r, st')"
  shows "(\<forall>j. j \<noteq> k \<longrightarrow> st_instances st' j = st_instances st j) \<and> st_deployments st' = st_deployments st
    \<and> (\<exists>i. st_instances st' k = Some i \<and>
         (r = Inr i \<and> in_state i = ITerminated \<and> in_terminated_at i = Some now
        \<or> r = Inl IUnknown \<and> in_state i = IFailed \<and> \<not> force
            \<and> (\<exists>p. ps (in_provider old) = Some p \<and> pv_terminate p (in_provider_id i) = Some (in_failure_reason i))
        \<or> r = Inl IFailedPrecondition \<and> in_state i = ITerminating \<and> ps (in_provider old) = None))"
  using assms
  by (auto simp: DestroyInstance_def Let_def split: if_splits option.splits)

theorem destroy_instance_settles_witness:
  "\<exists>i st'. DestroyInstance [''p'' \<mapsto> sample_provider] 9 False ''d'' sample_state = (Inr i, st') \<and> in_state i = ITerminated"
proof -
  obtain i st' where run: "DestroyInstance [''p'' \<mapsto> sample_provider] 9 False ''d'' sample_state = (Inr i, st')"
    by (simp add: DestroyInstance_def sample_state_def sample_instance_def destroy_provider_id_def sample_provider_def Let_def)
  have "st_instances sample_state ''d'' = Some sample_instance" "in_state sample_instance \<noteq> ITerminated"
    by (simp_all add: sample_state_def sample_instance_def)
  from destroy_instance_settles [OF valid_d this run] run show ?thesis by auto
qed

lemma heal_frame: "j \<noteq> k \<Longrightarrow> st_instances (heal ps now k i st) j = st_instances st j"
  by (simp add: heal_def split: option.split sum.split list.split)

lemma heal_all_frame:
  "k \<notin> set ks \<Longrightarrow> st_instances (heal_all ps now flt snap ks st) k = st_instances st k"
  by (induction ks arbitrary: st) (simp_all add: heal_frame split: option.split)

lemma heal_local:
  "st_instances st k = st_instances st2 k \<Longrightarrow>
   st_instances (heal ps now k i st) k = st_instances (heal ps now k i st2) k"
  by (simp add: heal_def split: option.split sum.split list.split)

definition healed :: "providers \<Rightarrow> timestamp \<Rightarrow> gostring \<Rightarrow> gostring \<Rightarrow> state \<Rightarrow> state" where
  "healed ps now flt k st =
     (case st_instances st k of
        None \<Rightarrow> st
      | Some i \<Rightarrow> if flt \<noteq> [] \<and> in_provider i \<noteq> flt then st else heal ps now k i st)"

lemma heal_all_at:
  "distinct ks \<Longrightarrow> k \<in> set ks \<Longrightarrow> st_instances st k = st_instances st0 k \<Longrightarrow>
   st_instances (heal_all ps now flt (st_instances st0) ks st) k = st_instances (healed ps now flt k st0) k"
proof (induction ks arbitrary: st)
  case (Cons j ks)
  let ?st1 = "case st_instances st0 j of None \<Rightarrow> st
     | Some i \<Rightarrow> if flt \<noteq> [] \<and> in_provider i \<noteq> flt then st else heal ps now j i st"
  show ?case
  proof (cases "j = k")
    case True
    have "st_instances (heal_all ps now flt (st_instances st0) (k # ks) st) k =
        st_instances (case st_instances st0 k of None \<Rightarrow> st
          | Some i \<Rightarrow> if flt \<noteq> [] \<and> in_provider i \<noteq> flt then st else heal ps now k i st) k"
      using Cons.prems(1) True by (simp add: heal_all_frame)
    also have "\<dots> = st_instances (healed ps now flt k st0) k"
      using heal_local [OF Cons.prems(3), of ps now] Cons.prems(3) by (simp add: healed_def split: option.split)
    finally show ?thesis using True by simp
  next
    case False
    have "st_instances ?st1 k = st_instances st0 k"
      using False Cons.prems(3) by (simp add: heal_frame split: option.split)
    then show ?thesis using Cons.IH [of ?st1] Cons.prems(1,2) False by simp
  qed
qed simp

text \<open>
  A listing heals conservatively.  A local listing changes a record only if it was PENDING
  or TERMINATING; a TERMINATING record becomes TERMINATED only if its provider answered and
  listed no machine carrying this id.
\<close>

theorem list_heals_conservatively:
  assumes "distinct order" "ListInstances_local ps now order flt st = (l, st')" "st_instances st k = Some i"
  shows "(in_state i \<notin> {IPending, ITerminating} \<longrightarrow> st_instances st' k = Some i)
    \<and> (in_state i = ITerminating \<and> map_option in_state (st_instances st' k) \<noteq> Some ITerminating \<longrightarrow>
         map_option in_state (st_instances st' k) = Some ITerminated
         \<and> (\<exists>p refs. ps (in_provider i) = Some p \<and> pv_list p (Some k) = Inr refs
              \<and> (\<forall>ref\<in>set refs. tag_get (ref_tags ref) TagID \<noteq> k)))"
proof -
  have st': "st' = heal_all ps now flt (st_instances st) order st"
    using assms(2) by (auto simp: ListInstances_local_def Let_def)
  have cases: "st_instances st' k = Some i \<or> st_instances st' k = st_instances (heal ps now k i st) k"
  proof (cases "k \<in> set order")
    case True
    then show ?thesis using heal_all_at [OF assms(1) True refl] assms(3) by (auto simp: st' healed_def)
  qed (use assms(3) in \<open>simp add: st' heal_all_frame\<close>)
  have quiet: "in_state i \<notin> {IPending, ITerminating} \<Longrightarrow> heal ps now k i st = st"
    by (simp add: heal_def)
  have gone: "in_state i = ITerminating \<Longrightarrow> heal ps now k i st \<noteq> st \<Longrightarrow>
      (\<exists>p refs. ps (in_provider i) = Some p \<and> pv_list p (Some k) = Inr refs
         \<and> (\<forall>ref\<in>set refs. tag_get (ref_tags ref) TagID \<noteq> k))
      \<and> map_option in_state (st_instances (heal ps now k i st) k) = Some ITerminated"
    using assms(3)
    by (auto simp: heal_def FilterRefs_def MatchesTags_def filter_empty_conv split: option.splits sum.splits list.splits)
  show ?thesis
  proof (intro conjI impI)
    assume "in_state i \<notin> {IPending, ITerminating}"
    then show "st_instances st' k = Some i" using cases quiet assms(3) by auto
  next
    assume a: "in_state i = ITerminating \<and> map_option in_state (st_instances st' k) \<noteq> Some ITerminating"
    then have "st_instances st' k = st_instances (heal ps now k i st) k" "heal ps now k i st \<noteq> st"
      using cases assms(3) by auto
    with gone a show "map_option in_state (st_instances st' k) = Some ITerminated"
      "\<exists>p refs. ps (in_provider i) = Some p \<and> pv_list p (Some k) = Inr refs
         \<and> (\<forall>ref\<in>set refs. tag_get (ref_tags ref) TagID \<noteq> k)"
      by simp_all
  qed
qed

theorem list_heals_conservatively_witness:
  "\<exists>l st'. ListInstances_local [''p'' \<mapsto> sample_provider] 9 [''d''] [] sample_state = (l, st')
     \<and> st_instances st' ''d'' = Some sample_instance"
proof -
  obtain l st' where run: "ListInstances_local [''p'' \<mapsto> sample_provider] 9 [''d''] [] sample_state = (l, st')"
    by fastforce
  have "st_instances sample_state ''d'' = Some sample_instance" by (simp add: sample_state_def)
  from list_heals_conservatively [OF _ run this] run show ?thesis by (simp add: sample_instance_def)
qed

text \<open>
  A failing key registration leaves the claimed record PENDING, and a retry then reports that the
  instance already exists although nothing was rented.
\<close>

theorem create_key_failure_sticks:
  assumes "ValidateAndExpandRequirements sp0 = Inr sp" "ValidateID (sp_id sp0)" "ps (sp_provider sp) = Some p"
    and "pv_name p = sp_provider sp" "st_instances st (sp_id sp) = None" "pv_active p = None"
    and "pv_register_key p = Some (Some e)" "CreateInstance ps True op now (Some sp0) st = (r, st')"
  shows "r = Inl e \<and> (\<exists>i. in_state i = IPending \<and> CreateInstance ps True op later (Some sp0) st' = (Inr (i, True), st'))"
proof -
  have id0: "sp_id sp = sp_id sp0" using expand_id [OF assms(1)] by simp
  have no: "adopt now p sp rc refs = None" for rc refs
    by (induction refs) (simp_all add: providerSaysActive_def assms(6))
  have key: "ensureProviderKey True p = Some e" using assms(7) by (simp add: ensureProviderKey_def)
  have r: "r = Inl e" and st': "st' = patchRecord (sp_id sp) (newPendingInstance sp (pv_name p) now) st"
    using assms(1-3,5,8) id0 by (simp_all add: CreateInstance_def Let_def no registerKeyAndSpawn_def key)
  show ?thesis
    by (rule conjI [OF r], rule exI [of _ "newPendingInstance sp (pv_name p) now"])
      (use assms(1-4) id0 in \<open>simp add: CreateInstance_def st' Let_def newPendingInstance_def\<close>)
qed

subsection \<open>Members of several machines\<close>

text \<open>Placing and handing back one node, the two calls a member is placed with.\<close>

definition place_one ::
  "providers \<Rightarrow> bool \<Rightarrow> gostring \<Rightarrow> timestamp \<Rightarrow> replica_spec \<Rightarrow> gostring \<Rightarrow> gostring \<Rightarrow> gostring \<Rightarrow> state
   \<Rightarrow> (gostring + inst) \<times> state" where
  "place_one ps ks op now sp img deployID k st =
     (case placeReplicaInstance ps ks op now (Some sp) img deployID k st of
        (Inl _, st') \<Rightarrow> (Inl ''place'', st') | (Inr i, st') \<Rightarrow> (Inr i, st'))"

definition return_one :: "providers \<Rightarrow> timestamp \<Rightarrow> gostring \<Rightarrow> state \<Rightarrow> state" where
  "return_one ps now k st = snd (DestroyInstance ps now False k st)"

text \<open>The names of the nodes are valid and new; the nodes of a larger member are not named like a deployment.\<close>

definition free_names :: "gostring list \<Rightarrow> state \<Rightarrow> bool" where
  "free_names ks st \<longleftrightarrow> distinct ks
     \<and> (\<forall>k\<in>set ks. ValidateID k \<and> st_instances st k = None \<and> (1 < length ks \<longrightarrow> st_deployments st k = None))"

text \<open>
  The record of a machine placed under \<open>k\<close>: on an image-native provider nothing is rented at the placement,
  on another one the record names the machine that the provider answered to the rent.
\<close>

definition rented_as :: "provider \<Rightarrow> gostring \<Rightarrow> gostring \<Rightarrow> inst \<Rightarrow> bool" where
  "rented_as p op k i \<longleftrightarrow>
     (if pv_deployer p then in_provider_id i = []
      else (\<exists>s x. sp_id s = k \<and> pv_spawn p (withSystemTags s op) = Inr x \<and> in_provider_id i = in_provider_id x))"

definition placed_record :: "provider \<Rightarrow> gostring \<Rightarrow> gostring \<Rightarrow> inst option \<Rightarrow> bool" where
  "placed_record p op k r \<longleftrightarrow>
     (\<exists>i. r = Some i \<and> in_id i = k \<and> in_provider i = pv_name p \<and> in_state i \<noteq> ITerminated \<and> rented_as p op k i)"

text \<open>The record of such a machine after it was handed back: the provider has ended it, or its refusal is on the record.\<close>

definition handed_back :: "provider \<Rightarrow> gostring \<Rightarrow> gostring \<Rightarrow> inst option \<Rightarrow> bool" where
  "handed_back p op k r \<longleftrightarrow>
     (\<exists>i. r = Some i \<and> rented_as p op k i
        \<and> (case (if in_provider_id i = [] then None else pv_terminate p (in_provider_id i)) of
             None \<Rightarrow> in_state i = ITerminated
           | Some err \<Rightarrow> in_state i = IFailed \<and> in_failure_reason i = err))"

definition names_no_machine :: "inst option \<Rightarrow> bool" where
  "names_no_machine r \<longleftrightarrow> (\<forall>i. r = Some i \<longrightarrow> in_provider_id i = [] \<and> in_state i \<in> {IPending, IFailed})"

text \<open>The provider is registered under its own name, and does not answer a rent with a machine that has ended.\<close>

definition rents_live :: "providers \<Rightarrow> gostring \<Rightarrow> provider \<Rightarrow> bool" where
  "rents_live ps name p \<longleftrightarrow> ps name = Some p \<and> pv_name p = name
     \<and> (\<forall>s x. pv_spawn p s = Inr x \<longrightarrow> in_state x \<noteq> ITerminated)"

lemma pending_fields:
  "in_id (newPendingInstance s q now) = sp_id s" "in_state (newPendingInstance s q now) = IPending"
  "in_provider_id (newPendingInstance s q now) = []" "in_provider (newPendingInstance s q now) = q"
  by (simp_all add: newPendingInstance_def)

lemma finalize_machine: "in_provider_id (finalizeActive now i sp pn c) = in_provider_id i"
  by (simp add: finalizeActive_def)

lemma registerKeyAndSpawn_err:
  "registerKeyAndSpawn ks op now p sp rec st = (Inl e, st') \<Longrightarrow>
   st' = st \<or> (\<exists>t. st' = patchRecord (sp_id sp) (rec\<lparr>in_state := IFailed, in_failure_reason := t\<rparr>) st)"
  by (auto simp: registerKeyAndSpawn_def Let_def split: option.splits sum.splits)

lemma place_rent_outcome:
  assumes "rents_live ps q p" "sp_provider sp = q" "place_rent ks op now p sp st = (r, st')"
  shows "(\<exists>e. r = Inl e \<and> names_no_machine (st_instances st' (sp_id sp)))
    \<or> (\<exists>i. r = Inr i \<and> in_id i = sp_id sp \<and> st_instances st' (sp_id sp) = Some i \<and> placed_record p op (sp_id sp) (Some i))"
proof (cases "pv_deployer p")
  case True
  then show ?thesis
    using assms by (auto simp: place_rent_def Let_def pending_fields placed_record_def rented_as_def rents_live_def)
next
  case False
  let ?i = "newPendingInstance sp (sp_provider sp) now"
  obtain r1 st1 where run: "registerKeyAndSpawn ks op now p sp ?i (patchRecord (sp_id sp) ?i st) = (r1, st1)" by fastforce
  show ?thesis
  proof (cases r1)
    case (Inl e)
    from registerKeyAndSpawn_err [OF run [unfolded Inl]]
    have "names_no_machine (st_instances st1 (sp_id sp))" by (auto simp: names_no_machine_def pending_fields)
    moreover have "\<exists>e. r = Inl e" "st' = st1"
      using assms(3) run Inl False by (auto simp: place_rent_def Let_def pending_fields)
    ultimately show ?thesis by blast
  next
    case (Inr i)
    obtain x where x: "st_instances st1 (sp_id sp) = Some i" "in_id i = sp_id sp" "in_provider i = pv_name p"
      "pv_spawn p (withSystemTags sp op) = Inr x" "i = finalizeActive now x (Some sp) (pv_name p) (in_created_at ?i)"
      using registerKeyAndSpawn_ok [OF run [unfolded Inr]] by blast
    have "in_state x \<noteq> ITerminated" using assms(1) x(4) by (auto simp: rents_live_def)
    then have ok: "placed_record p op (sp_id sp) (Some i)" "placed_record p op (sp_id sp) (Some (i\<lparr>in_ssh := t\<rparr>))" for t
      using x False finalize_machine by (auto simp: placed_record_def rented_as_def)
    have "(r, st') = (Inr i, st1) \<or> (\<exists>t. (r, st') = (Inr (i\<lparr>in_ssh := Some t\<rparr>), patchRecord (sp_id sp) (i\<lparr>in_ssh := Some t\<rparr>) st1))"
      using assms(3) run Inr False x(2)
      by (auto simp: place_rent_def Let_def pending_fields split: option.splits sum.splits if_splits)
    then show ?thesis using ok x(1,2) by auto
  qed
qed

lemma place_rent_frame:
  "place_rent ks op now p sp st = (r, st') \<Longrightarrow>
   (\<forall>k. k \<noteq> sp_id sp \<longrightarrow> st_instances st' k = st_instances st k) \<and> st_deployments st' = st_deployments st"
  by (auto simp: place_rent_def registerKeyAndSpawn_def pending_fields Let_def
      split: option.splits sum.splits if_splits prod.splits)

lemma place_spec_fields: "sp_id (place_spec k b rs rq v) = k" "sp_provider (place_spec k b rs rq v) = rs_provider rs"
  by (simp_all add: place_spec_def)

lemma place_one_outcome:
  assumes "rents_live ps (rs_provider sp) p" "st_instances st k = None" "place_one ps ks op now sp img d k st = (r, st')"
  shows "((\<exists>e. r = Inl e) \<and> names_no_machine (st_instances st' k)
      \<or> (\<exists>i. r = Inr i \<and> in_id i = k \<and> st_instances st' k = Some i \<and> placed_record p op k (Some i)))
    \<and> (\<forall>x. x \<noteq> k \<longrightarrow> st_instances st' x = st_instances st x) \<and> st_deployments st' = st_deployments st"
proof -
  obtain r0 st0 where run: "placeReplicaInstance ps ks op now (Some sp) img d k st = (r0, st0)" by fastforce
  then have st': "st' = st0" "r = (case r0 of Inl _ \<Rightarrow> Inl ''place'' | Inr i \<Rightarrow> Inr i)"
    using assms(3) by (auto simp: place_one_def split: sum.splits)
  have p: "ps (rs_provider sp) = Some p" using assms(1) by (simp add: rents_live_def)
  have "(\<exists>e. r0 = Inl e) \<and> st0 = st
      \<or> (\<exists>s. sp_id s = k \<and> sp_provider s = rs_provider sp \<and> place_rent ks op now p s st = (r0, st0))"
    using run p assms(2) expand_id
    by (fastforce simp: placeReplicaInstance_def Let_def place_spec_fields split: option.splits if_splits sum.splits)
  then show ?thesis
  proof (elim disjE exE conjE)
    fix e assume "r0 = Inl e" "st0 = st"
    then show ?thesis using st' assms(2) by (simp add: names_no_machine_def)
  next
    fix s assume s: "sp_id s = k" "sp_provider s = rs_provider sp" "place_rent ks op now p s st = (r0, st0)"
    from place_rent_outcome [OF assms(1) s(2,3)] place_rent_frame [OF s(3)] st' s(1) show ?thesis by (auto split: sum.splits)
  qed
qed

lemma return_one_outcome:
  assumes "rents_live ps q p" "placed_record p op k (st_instances st k)" "ValidateID k" "st_deployments st k = None"
  shows "handed_back p op k (st_instances (return_one ps now k st) k)"
    and "x \<noteq> k \<Longrightarrow> st_instances (return_one ps now k st) x = st_instances st x"
    and "st_deployments (return_one ps now k st) = st_deployments st"
proof -
  obtain i where i: "st_instances st k = Some i" "in_provider i = q" "in_state i \<noteq> ITerminated" "rented_as p op k i" "ps q = Some p"
    using assms(1,2) by (auto simp: placed_record_def rents_live_def)
  let ?err = "if in_provider_id i = [] then None else pv_terminate p (in_provider_id i)"
  let ?rec = "case ?err of None \<Rightarrow> i\<lparr>in_state := ITerminated, in_terminated_at := Some now\<rparr>
    | Some err \<Rightarrow> i\<lparr>in_state := IFailed, in_failure_reason := err\<rparr>"
  have same: "i\<lparr>in_provider_id := t\<rparr> = i" if "in_provider_id i = t" for t using that by (cases i) simp
  have pid: "destroy_provider_id k i st = in_provider_id i" using assms(4) by (simp add: destroy_provider_id_def)
  have run: "return_one ps now k st = patchRecord k ?rec (patchRecord k (i\<lparr>in_state := ITerminating\<rparr>) st)"
    using assms(3) i(1,2,3,5) by (simp add: return_one_def DestroyInstance_def Let_def pid same split: option.split)
  have "rented_as p op k ?rec" using i(4) by (auto simp: rented_as_def split: option.split)
  then show "handed_back p op k (st_instances (return_one ps now k st) k)"
    unfolding run by (auto simp: handed_back_def split: option.splits if_splits)
  show "x \<noteq> k \<Longrightarrow> st_instances (return_one ps now k st) x = st_instances st x"
    "st_deployments (return_one ps now k st) = st_deployments st"
    unfolding run by simp_all
qed

lemma returnMember_outcome:
  "rents_live ps q p \<Longrightarrow> distinct (map in_id acc) \<Longrightarrow>
   \<forall>i\<in>set acc. placed_record p op (in_id i) (st_instances st (in_id i)) \<and> ValidateID (in_id i) \<and> st_deployments st (in_id i) = None \<Longrightarrow>
   (\<forall>i\<in>set acc. handed_back p op (in_id i) (st_instances (returnMember (return_one ps now) acc st) (in_id i)))
   \<and> (\<forall>x. x \<notin> in_id ` set acc \<longrightarrow> st_instances (returnMember (return_one ps now) acc st) x = st_instances st x)"
proof (induction acc arbitrary: st)
  case (Cons i acc)
  let ?s = "return_one ps now (in_id i) st"
  have i: "placed_record p op (in_id i) (st_instances st (in_id i))" "ValidateID (in_id i)" "st_deployments st (in_id i) = None"
    using Cons.prems(3) by simp_all
  note one = return_one_outcome [OF Cons.prems(1) i, where now = now]
  have "in_id i \<notin> in_id ` set acc" using Cons.prems(2) by simp
  have ne: "in_id j \<noteq> in_id i" if "j \<in> set acc" for j using that \<open>in_id i \<notin> in_id ` set acc\<close> by (metis imageI)
  have "\<forall>j\<in>set acc. placed_record p op (in_id j) (st_instances ?s (in_id j)) \<and> ValidateID (in_id j) \<and> st_deployments ?s (in_id j) = None"
    using Cons.prems(3) ne one(2,3) by simp
  from Cons.IH [OF Cons.prems(1) _ this] Cons.prems(2)
  have rest: "\<forall>j\<in>set acc. handed_back p op (in_id j) (st_instances (returnMember (return_one ps now) acc ?s) (in_id j))"
    "\<forall>x. x \<notin> in_id ` set acc \<longrightarrow> st_instances (returnMember (return_one ps now) acc ?s) x = st_instances ?s x" by simp_all
  then show ?case using rest one \<open>in_id i \<notin> in_id ` set acc\<close> by auto
qed simp

text \<open>What a placement has done once the nodes \<open>acc\<close> stand and \<open>names\<close> are still to come.\<close>

definition member_outcome ::
  "provider \<Rightarrow> gostring \<Rightarrow> inst list \<Rightarrow> gostring list \<Rightarrow> memberPlacement \<Rightarrow> state \<Rightarrow> bool" where
  "member_outcome p op acc names m st' \<longleftrightarrow>
     mp_err m = None \<and> member_ids m = map in_id acc @ names
       \<and> (\<forall>i \<in> set (mp_instances m). st_instances st' (in_id i) = Some i \<and> placed_record p op (in_id i) (Some i))
     \<or> mp_err m \<noteq> None \<and> mp_instances m = []
       \<and> (\<exists>stood failed later. names = stood @ failed # later
            \<and> (\<forall>k \<in> in_id ` set acc \<union> set stood. handed_back p op k (st_instances st' k))
            \<and> names_no_machine (st_instances st' failed)
            \<and> (\<forall>k \<in> set later. st_instances st' k = None))"

lemma member_outcome_step:
  assumes "member_outcome p op (acc @ [i]) rest m st'" "in_id i = k"
  shows "member_outcome p op acc (k # rest) m st'"
  using assms(1) [unfolded member_outcome_def]
proof (elim disjE conjE exE)
  assume "mp_err m = None" "member_ids m = map in_id (acc @ [i]) @ rest"
    "\<forall>i\<in>set (mp_instances m). st_instances st' (in_id i) = Some i \<and> placed_record p op (in_id i) (Some i)"
  then show ?thesis using assms(2) by (simp add: member_outcome_def)
next
  fix stood failed later
  assume o: "mp_err m \<noteq> None" "mp_instances m = []" "rest = stood @ failed # later"
    "\<forall>x \<in> in_id ` set (acc @ [i]) \<union> set stood. handed_back p op x (st_instances st' x)"
    "names_no_machine (st_instances st' failed)" "\<forall>x \<in> set later. st_instances st' x = None"
  have "k # rest = (k # stood) @ failed # later" using o(3) by simp
  moreover have "\<forall>x \<in> in_id ` set acc \<union> set (k # stood). handed_back p op x (st_instances st' x)"
    using o(4) assms(2) by auto
  ultimately show ?thesis unfolding member_outcome_def using o(1,2,5,6) by blast
qed

lemma place_nodes_outcome:
  assumes "rents_live ps (rs_provider sp) p"
  shows "place_nodes (place_one ps ks op now sp img d) (return_one ps now) mid nodes ns acc st = (m, st') \<Longrightarrow>
    names = map (\<lambda>n. nodeInstanceID mid n nodes) ns \<Longrightarrow> distinct (map in_id acc @ names) \<Longrightarrow>
    \<forall>k \<in> set names. st_instances st k = None \<Longrightarrow>
    \<forall>k \<in> in_id ` set acc \<union> set names. ValidateID k \<and> (1 < length acc + length names \<longrightarrow> st_deployments st k = None) \<Longrightarrow>
    \<forall>i \<in> set acc. st_instances st (in_id i) = Some i \<and> placed_record p op (in_id i) (Some i) \<Longrightarrow>
    member_outcome p op acc names m st' \<and> (\<forall>k. k \<notin> in_id ` set acc \<union> set names \<longrightarrow> st_instances st' k = st_instances st k)"
proof (induction ns arbitrary: acc st names)
  case Nil
  then show ?case by (auto simp: member_ids_def member_outcome_def)
next
  case (Cons n ns)
  let ?k = "nodeInstanceID mid n nodes"
  let ?rest = "map (\<lambda>n. nodeInstanceID mid n nodes) ns"
  have names: "names = ?k # ?rest" using Cons.prems(2) by simp
  obtain r st1 where r: "place_one ps ks op now sp img d ?k st = (r, st1)" by fastforce
  have k: "st_instances st ?k = None" "?k \<notin> in_id ` set acc" "?k \<notin> set ?rest"
    using Cons.prems(3,4) names by auto
  note one = place_one_outcome [OF assms k(1) r]
  have keep: "st_instances st1 x = st_instances st x" if "x \<noteq> ?k" for x using one that by blast
  have keep_d: "st_deployments st1 = st_deployments st" using one by blast
  from one consider (fail) e where "r = Inl e" "names_no_machine (st_instances st1 ?k)"
    | (ok) i where "r = Inr i" "in_id i = ?k" "st_instances st1 ?k = Some i" "placed_record p op ?k (Some i)" by blast
  then show ?case
  proof cases
    case fail
    let ?returned = "returnMember (return_one ps now) acc st1"
    have acc: "distinct (map in_id acc)" "\<forall>i\<in>set acc. placed_record p op (in_id i) (st_instances st1 (in_id i))
        \<and> ValidateID (in_id i) \<and> st_deployments st1 (in_id i) = None"
    proof -
      show "distinct (map in_id acc)" using Cons.prems(3) by simp
      have "1 < length acc + length names" if "i \<in> set acc" for i using that names by (cases acc) auto
      moreover have "in_id i \<noteq> ?k" if "i \<in> set acc" for i using k(2) that by force
      ultimately show "\<forall>i\<in>set acc. placed_record p op (in_id i) (st_instances st1 (in_id i))
        \<and> ValidateID (in_id i) \<and> st_deployments st1 (in_id i) = None"
        using Cons.prems(5,6) keep keep_d by auto
    qed
    from returnMember_outcome [OF assms acc, where now = now]
    have bk: "\<forall>i\<in>set acc. handed_back p op (in_id i) (st_instances ?returned (in_id i))"
      "\<And>x. x \<notin> in_id ` set acc \<Longrightarrow> st_instances ?returned x = st_instances st1 x" by simp_all
    have "in_id ` set acc \<inter> set ?rest = {}" using Cons.prems(3) names by simp
    then have rest: "x \<notin> in_id ` set acc \<and> x \<noteq> ?k" if "x \<in> set ?rest" for x using that k(3) by blast
    have m: "mp_err m \<noteq> None" "mp_instances m = []" "st' = ?returned" using Cons.prems(1) r fail(1) by auto
    have later: "\<forall>x \<in> set ?rest. st_instances st' x = None"
      using Cons.prems(4) names rest m(3) bk(2) keep by simp
    have "names_no_machine (st_instances st' ?k)" using fail(2) m(3) bk(2) k(2) by simp
    then have "member_outcome p op acc names m st'"
      unfolding member_outcome_def using m(1,2) bk(1) m(3) later names
      by (intro disjI2 conjI exI [of _ "[]"] exI [of _ ?k] exI [of _ ?rest]) auto
    moreover have "\<forall>x. x \<notin> in_id ` set acc \<union> set names \<longrightarrow> st_instances st' x = st_instances st x"
      using m(3) names keep bk(2) by simp
    ultimately show ?thesis by blast
  next
    case ok
    have run: "place_nodes (place_one ps ks op now sp img d) (return_one ps now) mid nodes ns (acc @ [i]) st1 = (m, st')"
      using Cons.prems(1) r ok(1) by simp
    have sets: "in_id ` set (acc @ [i]) \<union> set ?rest = in_id ` set acc \<union> set names"
      "length (acc @ [i]) + length ?rest = length acc + length names"
      using ok(2) names by auto
    have d: "distinct (map in_id (acc @ [i]) @ ?rest)" using Cons.prems(3) names ok(2) by auto
    have free: "\<forall>x\<in>set ?rest. st_instances st1 x = None"
    proof
      fix x assume x: "x \<in> set ?rest"
      then have "x \<noteq> ?k" using k(3) by blast
      moreover have "st_instances st x = None" using x Cons.prems(4) unfolding names by auto
      ultimately show "st_instances st1 x = None" using keep by simp
    qed
    have acc: "\<forall>x\<in>set (acc @ [i]). st_instances st1 (in_id x) = Some x \<and> placed_record p op (in_id x) (Some x)"
    proof
      fix x assume "x \<in> set (acc @ [i])"
      then consider "x = i" | "x \<in> set acc" "in_id x \<noteq> ?k" using k(2) by force
      then show "st_instances st1 (in_id x) = Some x \<and> placed_record p op (in_id x) (Some x)"
        using Cons.prems(6) ok keep by cases simp_all
    qed
    have valid: "\<forall>x \<in> in_id ` set (acc @ [i]) \<union> set ?rest.
        ValidateID x \<and> (1 < length (acc @ [i]) + length ?rest \<longrightarrow> st_deployments st1 x = None)"
      unfolding sets keep_d by (rule Cons.prems(5))
    from Cons.IH [OF run refl d free valid acc]
    have ih: "member_outcome p op (acc @ [i]) ?rest m st'"
      "\<forall>x. x \<notin> in_id ` set acc \<union> set names \<longrightarrow> st_instances st' x = st_instances st1 x" unfolding sets by simp_all
    have "member_outcome p op acc names m st'" unfolding names by (rule member_outcome_step [OF ih(1) ok(2)])
    moreover have "\<forall>x. x \<notin> in_id ` set acc \<union> set names \<longrightarrow> st_instances st' x = st_instances st x"
      using ih(2) keep names by simp
    ultimately show ?thesis by blast
  qed
qed

text \<open>
  C24: a member is placed as a whole or handed back.  With new and valid node names, placing a member touches
  the records of its own nodes only.  Either every node is placed and its record stands, and names the machine
  that the provider answered to the rent (none yet on an image-native provider).  Or an error is reported with
  no machine; the nodes before the one that failed are handed back, each one ended by the provider with its
  record TERMINATED, or FAILED with the provider's refusal as the reason and the machine's id still on it; the
  one that failed has no record or one that names no machine, and the nodes after it have none.
\<close>

theorem place_member_all_or_nothing:
  assumes "rents_live ps (rs_provider sp) p" "nodes = (if rs_nodes sp < 1 then 1 else nat (rs_nodes sp))"
    and "names = map (\<lambda>n. nodeInstanceID (replicaInstanceID d slot tot) n nodes) [0..<nodes]" "free_names names st"
    and "placeMember (place_one ps ks op now sp img d) (return_one ps now) sp d slot tot st = (m, st')"
  shows "(\<forall>k. k \<notin> set names \<longrightarrow> st_instances st' k = st_instances st k)
    \<and> (mp_err m = None \<and> member_ids m = names
         \<and> (\<forall>i \<in> set (mp_instances m). st_instances st' (in_id i) = Some i \<and> rented_as p op (in_id i) i)
       \<or> mp_err m \<noteq> None \<and> mp_instances m = []
         \<and> (\<exists>stood failed later. names = stood @ failed # later
              \<and> (\<forall>k \<in> set stood. handed_back p op k (st_instances st' k))
              \<and> names_no_machine (st_instances st' failed)
              \<and> (\<forall>k \<in> set later. st_instances st' k = None)))"
proof -
  have run: "place_nodes (place_one ps ks op now sp img d) (return_one ps now) (replicaInstanceID d slot tot) nodes
      [0..<nodes] [] st = (m, st')"
    using assms(2,5) by (simp add: placeMember_def Let_def)
  have free: "distinct (map in_id [] @ names)" "\<forall>k\<in>set names. st_instances st k = None"
    "\<forall>k \<in> in_id ` set [] \<union> set names. ValidateID k \<and> (1 < length ([] :: inst list) + length names \<longrightarrow> st_deployments st k = None)"
    using assms(4) unfolding free_names_def by simp_all
  from place_nodes_outcome [OF assms(1) run assms(3) free] have o: "member_outcome p op [] names m st'"
    "\<forall>k. k \<notin> set names \<longrightarrow> st_instances st' k = st_instances st k" by simp_all
  have "rented_as p op k i" if "placed_record p op k (Some i)" for k i using that by (auto simp: placed_record_def)
  then show ?thesis using o unfolding member_outcome_def by (intro conjI) auto
qed

definition two_node_spec :: replica_spec where
  "two_node_spec = \<lparr>rs_provider = ''p'', rs_region = [], rs_requirements = Some (zero_requirements\<lparr>rq_sku := ''x''\<rparr>),
     rs_replicas = 0, rs_engine_endpoint = [], rs_nodes = 2\<rparr>"

text \<open>A provider that rents the first node, has no capacity for the second and refuses to end the first.\<close>

definition stuck_provider :: provider where
  "stuck_provider = sample_provider\<lparr>
     pv_spawn := (\<lambda>s. if sp_id s = ''d-n0'' then Inr (sample_instance\<lparr>in_provider_id := ''vm'', in_state := IUnspecified\<rparr>)
                      else Inl (PError ''no capacity'')),
     pv_terminate := (\<lambda>_. Some ''busy'')\<rparr>"

lemma two_node_names: "map (\<lambda>n. nodeInstanceID (replicaInstanceID ''d'' 0 1) n 2) [0..<2] = [''d-n0'', ''d-n1'']"
  by code_simp

lemma two_node_valid: "ValidateID ''d-n0'' \<and> ValidateID ''d-n1''"
  by code_simp

theorem place_member_all_or_nothing_witness:
  "\<exists>m st' i. placeMember (place_one [''p'' \<mapsto> stuck_provider] True ''me'' 5 two_node_spec [] ''d'')
       (return_one [''p'' \<mapsto> stuck_provider] 5) two_node_spec ''d'' 0 1 NewState = (m, st')
     \<and> mp_instances m = [] \<and> st_instances st' ''d-n0'' = Some i \<and> in_state i = IFailed
     \<and> in_failure_reason i = ''busy'' \<and> in_provider_id i = ''vm''"
proof -
  let ?ps = "[''p'' \<mapsto> stuck_provider]"
  let ?place = "place_one ?ps True ''me'' 5 two_node_spec [] ''d''"
  obtain m st' where run: "placeMember ?place (return_one ?ps 5) two_node_spec ''d'' 0 1
      NewState = (m, st')" by fastforce
  have n: "(2::nat) = (if rs_nodes two_node_spec < 1 then 1 else nat (rs_nodes two_node_spec))"
    by (simp add: two_node_spec_def)
  have free: "free_names [''d-n0'', ''d-n1''] NewState"
    using two_node_valid by (simp add: free_names_def NewState_def)
  have live: "rents_live ?ps (rs_provider two_node_spec) stuck_provider"
    by (auto simp: rents_live_def two_node_spec_def stuck_provider_def sample_provider_def sample_instance_def split: if_splits)
  have eval: "\<not> pv_deployer stuck_provider" "ensureProviderKey ks stuck_provider = None" "pv_waiter stuck_provider = None"
    "pv_spawn stuck_provider (withSystemTags s op) =
       (if sp_id s = ''d-n0'' then Inr (sample_instance\<lparr>in_provider_id := ''vm'', in_state := IUnspecified\<rparr>)
        else Inl (PError ''no capacity''))" "pv_terminate stuck_provider t = Some ''busy''" for ks s op t
    by (simp_all add: stuck_provider_def sample_provider_def withSystemTags_def ensureProviderKey_def)
  have valid: "ValidateAndExpandRequirements (place_spec k [] two_node_spec (zero_requirements\<lparr>rq_sku := ''x''\<rparr>) v)
      = Inr (place_spec k [] two_node_spec (zero_requirements\<lparr>rq_sku := ''x''\<rparr>) v)" for k v
    by (simp add: ValidateAndExpandRequirements_def place_spec_def zero_requirements_def)
  have spec: "rs_provider two_node_spec = ''p''" "rs_requirements two_node_spec = Some (zero_requirements\<lparr>rq_sku := ''x''\<rparr>)"
    "''p'' \<noteq> ProviderExternal"
    by (simp_all add: two_node_spec_def ProviderExternal_def)
  have first: "fst (?place ''d-n0'' NewState) \<in> range Inr"
    by (simp add: place_one_def placeReplicaInstance_def spec valid place_rent_def registerKeyAndSpawn_def eval Let_def
        place_spec_fields NewState_def)
  have second: "st_instances s ''d-n1'' = None \<Longrightarrow> fst (?place ''d-n1'' s) \<in> range Inl" for s
    by (simp add: place_one_def placeReplicaInstance_def spec valid place_rent_def registerKeyAndSpawn_def eval Let_def
        place_spec_fields)
  obtain i s where i: "?place ''d-n0'' NewState = (Inr i, s)" using first by (cases "?place ''d-n0'' NewState") auto
  have one: "in_id i = ''d-n0''" "placed_record stuck_provider ''me'' ''d-n0'' (Some i)" "st_instances s ''d-n0'' = Some i"
     "st_instances s ''d-n1'' = None"
    using place_one_outcome [OF live _ i] by (auto simp: NewState_def)
  have names: "nodeInstanceID (replicaInstanceID ''d'' 0 1) 0 2 = ''d-n0''" "nodeInstanceID (replicaInstanceID ''d'' 0 1) 1 2 = ''d-n1''"
    using two_node_names by (simp_all add: upt_rec)
  obtain e s2 where e: "?place ''d-n1'' s = (Inl e, s2)" using second [OF one(4)] by (cases "?place ''d-n1'' s") auto
  have "mp_err m \<noteq> None"
    using run i e names n by (auto simp: placeMember_def upt_rec)
  with place_member_all_or_nothing [OF live n two_node_names [symmetric] free run]
  have "mp_instances m = [] \<and> (\<exists>stood failed later. [''d-n0'', ''d-n1''] = stood @ failed # later
      \<and> (\<forall>k \<in> set stood. handed_back stuck_provider ''me'' k (st_instances st' k))
      \<and> names_no_machine (st_instances st' failed) \<and> (\<forall>k \<in> set later. st_instances st' k = None))" by simp
  then obtain stood failed later where o: "mp_instances m = []" "[''d-n0'', ''d-n1''] = stood @ failed # later"
      "\<forall>k \<in> set stood. handed_back stuck_provider ''me'' k (st_instances st' k)"
    by (elim conjE exE)
  have "handed_back stuck_provider ''me'' ''d-n0'' (st_instances st' ''d-n0'')"
  proof (cases stood)
    case Nil
    have "st_instances s2 ''d-n0'' = Some i" "st_deployments s2 ''d-n0'' = None"
      using place_one_outcome [OF live one(4) e] place_one_outcome [OF live _ i] one(3) by (auto simp: NewState_def)
    moreover have "st' = return_one ?ps 5 ''d-n0'' s2"
      using run i e names n one(1) by (auto simp: placeMember_def upt_rec)
    ultimately show ?thesis
      using return_one_outcome(1) [OF live, of "''me''" "''d-n0''" s2] one(2) two_node_valid by simp
  next
    case (Cons a list)
    then show ?thesis using o(2,3) by (cases list) auto
  qed
  then obtain j where "st_instances st' ''d-n0'' = Some j" "in_provider_id j = ''vm''" "in_state j = IFailed" "in_failure_reason j = ''busy''"
    using eval by (auto simp: handed_back_def rented_as_def sample_instance_def split: if_splits)
  then show ?thesis using run o(1) by blast
qed

text \<open>A valid deployment id may give replica ids that the instance operations refuse.\<close>

theorem long_replica_id_refused:
  assumes "d = replicate 62 (CHR ''a'')"
  shows "ValidateID d \<and> (\<forall>ps now force st. DestroyInstance ps now force (replicaInstanceID d 0 2) st = (Inl IInvalidArgument, st))"
proof -
  have "ValidateID d \<and> \<not> ValidateID (replicaInstanceID d 0 2)" unfolding assms by code_simp
  then show ?thesis by (simp add: DestroyInstance_def)
qed

end
