(* ===== verification/File_Store.thy ===== *)
theory File_Store
  imports Store
begin

text \<open>
  The file backend of the state of record (\<^verbatim>\<open>internal/provisioners/stores/file/file.go\<close>): the
  envelope of \<^verbatim>\<open>state.json\<close>, its encoding and decoding, the temp-sync-rename write as a machine
  with a fault at any system call and a crash between any two of them, the lock of the state
  directory with its pid sidecar, and updates of several goroutines and processes as an
  interleaving of their steps.

  A file is seen as \<^verbatim>\<open>json.Unmarshal\<close> sees it: empty, a JSON document, or bytes that are no
  document.  The encoding of one record is \<^verbatim>\<open>protojson\<close>'s and a parameter.
\<close>

named_theorems file_simps "equations of the file store"

subsection \<open>Documents\<close>

datatype json =
    JNull | JBool bool | JNum int | JStr gostring | JArr "json list"
  | JObj "(gostring \<times> json) list"

datatype contents = EmptyFile | Document json | NotJson

text \<open>\<^verbatim>\<open>protojson\<close>: marshalling and unmarshalling of the four kinds of record.\<close>

record protojson =
  pjn_instance :: "inst \<Rightarrow> json option"
  pjn_deployment :: "deployment \<Rightarrow> json option"
  pjn_volume :: "volume \<Rightarrow> json option"
  pjn_engine :: "engine \<Rightarrow> json option"
  pjn_to_instance :: "json \<Rightarrow> inst option"
  pjn_to_deployment :: "json \<Rightarrow> deployment option"
  pjn_to_volume :: "json \<Rightarrow> volume option"
  pjn_to_engine :: "json \<Rightarrow> engine option"

datatype write_error = ErrCreateTemp | ErrWriteTemp | ErrSyncTemp | ErrCloseTemp | ErrRename

datatype ferr =
    ErrFn gostring
  | ErrOpenLock | ErrFlock | ErrLockedTwice | ErrLockHeld gostring int
  | ErrReadFile | ErrParseFile | ErrParseInstance | ErrParseDeployment | ErrParseVolume | ErrParseEngine
  | ErrMarshalInstance | ErrMarshalDeployment | ErrMarshalVolume | ErrMarshalEngine
  | ErrWrite write_error

definition SchemaVersion :: gostring where "SchemaVersion = ''1.6''"
definition BackendLocalFile :: gostring where "BackendLocalFile = ''local-file''"

record envelope =
  ev_schema_version :: gostring
  ev_backend :: gostring
  ev_operator_id :: gostring
  ev_state :: state

text \<open>The anonymous struct of \<^verbatim>\<open>readFromDisk\<close> and \<^verbatim>\<open>writeToDisk\<close>, its records still raw.\<close>

record raw_envelope =
  raw_schema_version :: gostring
  raw_backend :: gostring
  raw_operator_id :: gostring
  raw_instances :: "gostring \<rightharpoonup> json"
  raw_deployments :: "gostring \<rightharpoonup> json"
  raw_volumes :: "gostring \<rightharpoonup> json"
  raw_engines :: "gostring \<rightharpoonup> json"

definition zero_raw :: raw_envelope where
  "zero_raw = \<lparr>raw_schema_version = [], raw_backend = [], raw_operator_id = [],
     raw_instances = Map.empty, raw_deployments = Map.empty, raw_volumes = Map.empty,
     raw_engines = Map.empty\<rparr>"

text \<open>
  Decoding of a string and of a \<^verbatim>\<open>map[string]json.RawMessage\<close> into a field that already has a
  value: null leaves it alone, another type is an error, and an object adds its entries.
\<close>

fun decode_string :: "gostring \<Rightarrow> json \<Rightarrow> gostring option" where
  "decode_string old (JStr s) = Some s"
| "decode_string old JNull = Some old"
| "decode_string old _ = None"

fun add_fields :: "(gostring \<rightharpoonup> json) \<Rightarrow> (gostring \<times> json) list \<Rightarrow> (gostring \<rightharpoonup> json)" where
  "add_fields m [] = m"
| "add_fields m ((k, v) # kvs) = add_fields (m(k \<mapsto> v)) kvs"

fun decode_table :: "(gostring \<rightharpoonup> json) \<Rightarrow> json \<Rightarrow> (gostring \<rightharpoonup> json) option" where
  "decode_table old (JObj kvs) = Some (add_fields old kvs)"
| "decode_table old JNull = Some old"
| "decode_table old _ = None"

text \<open>
  \<^verbatim>\<open>encoding/json\<close> matches the name of a field without regard to case and ignores unknown
  names.  (It also folds U+017F to \<^verbatim>\<open>s\<close>, which no document written here contains.)
\<close>

definition decode_field :: "gostring \<times> json \<Rightarrow> raw_envelope \<Rightarrow> raw_envelope option" where
  "decode_field kv raw =
     (let k = to_lower (fst kv); v = snd kv in
      if k = ''schema_version'' then
        map_option (\<lambda>s. raw\<lparr>raw_schema_version := s\<rparr>) (decode_string (raw_schema_version raw) v)
      else if k = ''backend'' then
        map_option (\<lambda>s. raw\<lparr>raw_backend := s\<rparr>) (decode_string (raw_backend raw) v)
      else if k = ''operator_id'' then
        map_option (\<lambda>s. raw\<lparr>raw_operator_id := s\<rparr>) (decode_string (raw_operator_id raw) v)
      else if k = ''instances'' then
        map_option (\<lambda>m. raw\<lparr>raw_instances := m\<rparr>) (decode_table (raw_instances raw) v)
      else if k = ''deployments'' then
        map_option (\<lambda>m. raw\<lparr>raw_deployments := m\<rparr>) (decode_table (raw_deployments raw) v)
      else if k = ''volumes'' then
        map_option (\<lambda>m. raw\<lparr>raw_volumes := m\<rparr>) (decode_table (raw_volumes raw) v)
      else if k = ''engines'' then
        map_option (\<lambda>m. raw\<lparr>raw_engines := m\<rparr>) (decode_table (raw_engines raw) v)
      else Some raw)"

fun decode_fields :: "(gostring \<times> json) list \<Rightarrow> raw_envelope \<Rightarrow> raw_envelope option" where
  "decode_fields [] raw = Some raw"
| "decode_fields (kv # kvs) raw =
     (case decode_field kv raw of None \<Rightarrow> None | Some raw' \<Rightarrow> decode_fields kvs raw')"

fun decode_document :: "json \<Rightarrow> raw_envelope option" where
  "decode_document (JObj kvs) = decode_fields kvs zero_raw"
| "decode_document JNull = Some zero_raw"
| "decode_document _ = None"

text \<open>
  The records of a table, decoded or encoded one by one.  \<^verbatim>\<open>range\<close> visits them in an order of its
  own choice, which only decides which of several bad records an error message names.
\<close>

definition entries :: "(gostring \<rightharpoonup> 'a) \<Rightarrow> (gostring \<times> 'a) list" where
  "entries m = map (\<lambda>k. (k, the (m k))) (sorted_list_of_set (dom m))"

fun convert_all :: "('a \<Rightarrow> 'b option) \<Rightarrow> (gostring \<times> 'a) list \<Rightarrow> (gostring \<times> 'b) list option" where
  "convert_all f [] = Some []"
| "convert_all f ((k, v) # kvs) =
     (case f v of
        None \<Rightarrow> None
      | Some w \<Rightarrow> map_option (Cons (k, w)) (convert_all f kvs))"

definition parse_table :: "('a \<Rightarrow> 'b option) \<Rightarrow> ferr \<Rightarrow> (gostring \<rightharpoonup> 'a) \<Rightarrow> ferr + (gostring \<rightharpoonup> 'b)" where
  "parse_table f err m =
     (case convert_all f (entries m) of None \<Rightarrow> Inl err | Some kvs \<Rightarrow> Inr (map_of kvs))"

definition marshal_table :: "('a \<Rightarrow> json option) \<Rightarrow> ferr \<Rightarrow> (gostring \<rightharpoonup> 'a) \<Rightarrow> ferr + json" where
  "marshal_table f err m =
     (case convert_all f (entries m) of None \<Rightarrow> Inl err | Some kvs \<Rightarrow> Inr (JObj kvs))"

subsection \<open>Reading\<close>

definition emptyFile :: "gostring \<Rightarrow> envelope" where
  "emptyFile operator_id =
     \<lparr>ev_schema_version = SchemaVersion, ev_backend = BackendLocalFile,
      ev_operator_id = operator_id, ev_state = NewState\<rparr>"

definition decode_envelope :: "protojson \<Rightarrow> gostring \<Rightarrow> raw_envelope \<Rightarrow> ferr + envelope" where
  "decode_envelope pj operator_id raw =
     bindE (parse_table (pjn_to_instance pj) ErrParseInstance (raw_instances raw)) (\<lambda>insts.
     bindE (parse_table (pjn_to_deployment pj) ErrParseDeployment (raw_deployments raw)) (\<lambda>deps.
     bindE (parse_table (pjn_to_volume pj) ErrParseVolume (raw_volumes raw)) (\<lambda>vols.
     bindE (parse_table (pjn_to_engine pj) ErrParseEngine (raw_engines raw)) (\<lambda>engs.
       Inr \<lparr>ev_schema_version = raw_schema_version raw, ev_backend = raw_backend raw,
            ev_operator_id = (if raw_operator_id raw = [] then operator_id else raw_operator_id raw),
            ev_state = \<lparr>st_instances = insts, st_deployments = deps, st_volumes = vols,
                        st_engines = engs\<rparr>\<rparr>))))"

definition readFromDisk :: "protojson \<Rightarrow> gostring \<Rightarrow> bool \<Rightarrow> contents option \<Rightarrow> ferr + envelope" where
  "readFromDisk pj operator_id io_error disk =
     (if io_error then Inl ErrReadFile
      else case disk of
        None \<Rightarrow> Inr (emptyFile operator_id)
      | Some EmptyFile \<Rightarrow> Inr (emptyFile operator_id)
      | Some NotJson \<Rightarrow> Inl ErrParseFile
      | Some (Document j) \<Rightarrow>
          (case decode_document j of
             None \<Rightarrow> Inl ErrParseFile
           | Some raw \<Rightarrow> decode_envelope pj operator_id raw))"

definition envelopeToState :: "envelope \<Rightarrow> state" where
  "envelopeToState env = ev_state env"

text \<open>\<^verbatim>\<open>Store.Read\<close>: the tables of the envelope.\<close>

definition file_Read :: "protojson \<Rightarrow> gostring \<Rightarrow> bool \<Rightarrow> contents option \<Rightarrow> ferr + state" where
  "file_Read pj operator_id io_error disk =
     bindE (readFromDisk pj operator_id io_error disk) (\<lambda>env. Inr (envelopeToState env))"

subsection \<open>Writing\<close>

definition stamp_envelope :: "gostring \<Rightarrow> envelope \<Rightarrow> envelope" where
  "stamp_envelope operator_id env =
     env\<lparr>ev_schema_version := (if ev_schema_version env = [] then SchemaVersion else ev_schema_version env),
         ev_backend := (if ev_backend env = [] then BackendLocalFile else ev_backend env),
         ev_operator_id := (if ev_operator_id env = [] then operator_id else ev_operator_id env)\<rparr>"

definition encode_envelope :: "protojson \<Rightarrow> envelope \<Rightarrow> ferr + contents" where
  "encode_envelope pj env =
     bindE (marshal_table (pjn_instance pj) ErrMarshalInstance (st_instances (ev_state env))) (\<lambda>insts.
     bindE (marshal_table (pjn_deployment pj) ErrMarshalDeployment (st_deployments (ev_state env))) (\<lambda>deps.
     bindE (marshal_table (pjn_volume pj) ErrMarshalVolume (st_volumes (ev_state env))) (\<lambda>vols.
     bindE (marshal_table (pjn_engine pj) ErrMarshalEngine (st_engines (ev_state env))) (\<lambda>engs.
       Inr (Document (JObj
         [(''schema_version'', JStr (ev_schema_version env)), (''backend'', JStr (ev_backend env)),
          (''operator_id'', JStr (ev_operator_id env)), (''instances'', insts),
          (''deployments'', deps), (''volumes'', vols), (''engines'', engs)]))))))"

text \<open>
  The system calls of the atomic write.  A file whose data was not synced may be torn by a crash.
  \<open>WWriting\<close> is the middle of \<^verbatim>\<open>tmp.Write\<close>: the temp file holds part of the bytes.
\<close>

record dfile =
  fl_data :: contents
  fl_synced :: bool

text \<open>
  \<open>fs_state\<close> is the state file as every process sees it.  The directory is never synced, so a crash may
  bring back an entry that a rename has replaced: these are \<open>fs_undo\<close>, the latest first.
\<close>

record fs =
  fs_state :: "dfile option"
  fs_tmp :: "dfile option"
  fs_undo :: "dfile option list"

text \<open>The outcome of a system call; a failed call is followed by \<^verbatim>\<open>os.Remove\<close> of the temp file, which may fail as well.\<close>

datatype sysres = SysOk | SysFail bool

definition remove_temp :: "bool \<Rightarrow> fs \<Rightarrow> fs" where
  "remove_temp fails fs = (if fails then fs else fs\<lparr>fs_tmp := None\<rparr>)"

datatype wpc = WCreate | WWrite | WWriting | WSync | WClose | WRename | WOk | WFail write_error

text \<open>One system call.\<close>

fun write_step :: "contents \<Rightarrow> sysres \<Rightarrow> wpc \<times> fs \<Rightarrow> wpc \<times> fs" where
  "write_step out (SysFail r) (WCreate, fs) = (WFail ErrCreateTemp, fs)"
| "write_step out SysOk (WCreate, fs) = (WWrite, fs\<lparr>fs_tmp := Some \<lparr>fl_data = EmptyFile, fl_synced = False\<rparr>\<rparr>)"
| "write_step out (SysFail r) (WWrite, fs) = (WFail ErrWriteTemp, remove_temp r fs)"
| "write_step out SysOk (WWrite, fs) = (WWriting, fs\<lparr>fs_tmp := Some \<lparr>fl_data = NotJson, fl_synced = False\<rparr>\<rparr>)"
| "write_step out (SysFail r) (WWriting, fs) = (WFail ErrWriteTemp, remove_temp r fs)"
| "write_step out SysOk (WWriting, fs) = (WSync, fs\<lparr>fs_tmp := Some \<lparr>fl_data = out, fl_synced = False\<rparr>\<rparr>)"
| "write_step out (SysFail r) (WSync, fs) = (WFail ErrSyncTemp, remove_temp r fs)"
| "write_step out SysOk (WSync, fs) = (WClose, fs\<lparr>fs_tmp := map_option (\<lambda>f. f\<lparr>fl_synced := True\<rparr>) (fs_tmp fs)\<rparr>)"
| "write_step out (SysFail r) (WClose, fs) = (WFail ErrCloseTemp, remove_temp r fs)"
| "write_step out SysOk (WClose, fs) = (WRename, fs)"
| "write_step out (SysFail r) (WRename, fs) = (WFail ErrRename, remove_temp r fs)"
| "write_step out SysOk (WRename, fs) =
     (WOk, fs\<lparr>fs_state := fs_tmp fs, fs_tmp := None, fs_undo := fs_state fs # fs_undo fs\<rparr>)"
| "write_step out res (WOk, fs) = (WOk, fs)"
| "write_step out res (WFail e, fs) = (WFail e, fs)"

definition write_run :: "contents \<Rightarrow> sysres list \<Rightarrow> fs \<Rightarrow> wpc \<times> fs" where
  "write_run out faults fs = foldl (\<lambda>c fault. write_step out fault c) (WCreate, fs) faults"

text \<open>A crash loses what was not synced.\<close>

definition crash_file :: "dfile \<Rightarrow> dfile" where
  "crash_file f = (if fl_synced f then f else \<lparr>fl_data = NotJson, fl_synced = True\<rparr>)"

text \<open>The number says how many of the last renames the directory loses.\<close>

definition crash :: "nat \<Rightarrow> fs \<Rightarrow> fs" where
  "crash lost fs =
     \<lparr>fs_state = map_option crash_file ((fs_state fs # fs_undo fs) ! min lost (length (fs_undo fs))),
      fs_tmp = map_option crash_file (fs_tmp fs), fs_undo = []\<rparr>"

definition state_data :: "fs \<Rightarrow> contents option" where
  "state_data fs = map_option fl_data (fs_state fs)"

text \<open>
  \<^verbatim>\<open>writeToDisk\<close>: stamp, marshal, then the six system calls, whose faults are given.  (A
  shorter fault list is continued without faults.)
\<close>

definition six_faults :: "sysres list \<Rightarrow> sysres list" where
  "six_faults faults = take 6 (faults @ replicate 6 SysOk)"

definition writeToDisk :: "protojson \<Rightarrow> gostring \<Rightarrow> sysres list \<Rightarrow> envelope \<Rightarrow> fs \<Rightarrow> (ferr + unit) \<times> fs" where
  "writeToDisk pj operator_id faults env fs =
     (case encode_envelope pj (stamp_envelope operator_id env) of
        Inl e \<Rightarrow> (Inl e, fs)
      | Inr out \<Rightarrow>
          (case write_run out (six_faults faults) fs of
             (WFail e, fs') \<Rightarrow> (Inl (ErrWrite e), fs')
           | (_, fs') \<Rightarrow> (Inr (), fs')))"

text \<open>The body of \<^verbatim>\<open>Store.Update\<close> once the locks are held.\<close>

definition update_body ::
  "protojson \<Rightarrow> gostring \<Rightarrow> bool \<Rightarrow> sysres list \<Rightarrow> (state \<Rightarrow> ferr + state) \<Rightarrow> fs \<Rightarrow> (ferr + unit) \<times> fs" where
  "update_body pj operator_id io_error faults fn fs =
     (case readFromDisk pj operator_id io_error (state_data fs) of
        Inl e \<Rightarrow> (Inl e, fs)
      | Inr env \<Rightarrow>
          (case fn (envelopeToState env) of
             Inl e \<Rightarrow> (Inl e, fs)
           | Inr st \<Rightarrow> writeToDisk pj operator_id faults (env\<lparr>ev_state := st\<rparr>) fs))"

subsection \<open>Round trip\<close>

text \<open>What \<^verbatim>\<open>protojson\<close> can keep: it encodes every record of the table and decodes it to itself.\<close>

definition table_kept :: "('a \<Rightarrow> json option) \<Rightarrow> (json \<Rightarrow> 'a option) \<Rightarrow> (gostring \<rightharpoonup> 'a) \<Rightarrow> bool" where
  "table_kept f g m \<longleftrightarrow> finite (dom m) \<and> (\<forall>v \<in> ran m. \<exists>j. f v = Some j \<and> g j = Some v)"

definition storable :: "protojson \<Rightarrow> state \<Rightarrow> bool" where
  "storable pj st \<longleftrightarrow>
     table_kept (pjn_instance pj) (pjn_to_instance pj) (st_instances st)
     \<and> table_kept (pjn_deployment pj) (pjn_to_deployment pj) (st_deployments st)
     \<and> table_kept (pjn_volume pj) (pjn_to_volume pj) (st_volumes st)
     \<and> table_kept (pjn_engine pj) (pjn_to_engine pj) (st_engines st)"

lemma map_of_entries: "finite (dom m) \<Longrightarrow> map_of (entries m) = m"
  by (auto simp: entries_def map_of_map_restrict restrict_map_def fun_eq_iff dom_def comp_def)

lemma entries_values: "finite (dom m) \<Longrightarrow> v \<in> snd ` set (entries m) \<Longrightarrow> v \<in> ran m"
  by (auto simp: entries_def ran_def)

lemma entries_distinct: "distinct (map fst (entries m))"
  by (simp add: entries_def comp_def)

lemma convert_all_keys: "convert_all f kvs = Some kws \<Longrightarrow> map fst kws = map fst kvs"
  by (induction f kvs arbitrary: kws rule: convert_all.induct) (auto split: option.splits)

lemma convert_all_total:
  "(\<And>v. v \<in> snd ` set kvs \<Longrightarrow> f v \<noteq> None) \<Longrightarrow>
     convert_all f kvs = Some (map (\<lambda>(k, v). (k, the (f v))) kvs)"
  by (induction f kvs rule: convert_all.induct) (auto split: option.splits)

lemma map_of_convert_all:
  "convert_all f kvs = Some kws \<Longrightarrow> map_of kws k = Option.bind (map_of kvs k) f"
  by (induction f kvs arbitrary: kws rule: convert_all.induct) (auto split: option.splits if_splits)

lemma add_fields_map_of: "add_fields m kvs = m ++ map_of (rev kvs)"
proof (induction kvs arbitrary: m)
  case (Cons kv kvs)
  then show ?case by (cases kv) (simp del: fun_upd_apply)
qed simp

lemma decode_table_object:
  "distinct (map fst kvs) \<Longrightarrow> decode_table Map.empty (JObj kvs) = Some (map_of kvs)"
  by (simp add: add_fields_map_of map_of_inject_set rev_map [symmetric])

text \<open>A kept table survives marshalling, decoding of the object and parsing.\<close>

lemma table_roundtrip:
  assumes "table_kept f g m"
  obtains kvs where "marshal_table f err m = Inr (JObj kvs)" "distinct (map fst kvs)"
    "parse_table g err' (map_of kvs) = Inr m"
proof -
  have fin: "finite (dom m)" and keep: "\<And>v. v \<in> ran m \<Longrightarrow> \<exists>j. f v = Some j \<and> g j = Some v"
    using assms by (auto simp: table_kept_def)
  then have "f v \<noteq> None" if "v \<in> snd ` set (entries m)" for v
    using entries_values [OF fin that] keep by force
  then obtain kvs where kvs: "convert_all f (entries m) = Some kvs"
    using convert_all_total by blast
  have look: "map_of kvs k = Option.bind (m k) f" for k
    using map_of_convert_all [OF kvs] by (simp add: map_of_entries fin)
  have fin': "finite (dom (map_of kvs))" by (rule finite_dom_map_of)
  have "g j \<noteq> None" if "j \<in> snd ` set (entries (map_of kvs))" for j
  proof -
    have "j \<in> ran (map_of kvs)" by (rule entries_values [OF fin' that])
    then obtain k v where "m k = Some v" "f v = Some j"
      by (auto simp: ran_def look bind_eq_Some_conv)
    then show ?thesis using keep [of v] by (auto simp: ran_def)
  qed
  then obtain kws where kws: "convert_all g (entries (map_of kvs)) = Some kws"
    using convert_all_total by blast
  have "map_of kws k = m k" for k
  proof -
    have "map_of kws k = Option.bind (Option.bind (m k) f) g"
      using map_of_convert_all [OF kws] by (simp add: map_of_entries fin' look)
    also have "\<dots> = m k"
      using keep by (cases "m k") (force simp: ran_def)+
    finally show ?thesis .
  qed
  then have "map_of kws = m" by (rule ext)
  moreover have "distinct (map fst kvs)"
    using convert_all_keys [OF kvs] entries_distinct [of m] by simp
  ultimately show ?thesis
    using that [of kvs] kvs kws by (simp add: marshal_table_def parse_table_def)
qed

lemma field_names [simp]:
  "to_lower ''schema_version'' = ''schema_version''" "to_lower ''backend'' = ''backend''"
  "to_lower ''operator_id'' = ''operator_id''" "to_lower ''instances'' = ''instances''"
  "to_lower ''deployments'' = ''deployments''" "to_lower ''volumes'' = ''volumes''"
  "to_lower ''engines'' = ''engines''"
  by (rule to_lower_plain; simp)+

lemma encode_decode:
  assumes "storable pj (ev_state env)"
  obtains j raw where "encode_envelope pj env = Inr (Document j)" "decode_document j = Some raw"
    "decode_envelope pj op raw =
       Inr (env\<lparr>ev_operator_id := if ev_operator_id env = [] then op else ev_operator_id env\<rparr>)"
proof -
  have keeps: "table_kept (pjn_instance pj) (pjn_to_instance pj) (st_instances (ev_state env))"
    "table_kept (pjn_deployment pj) (pjn_to_deployment pj) (st_deployments (ev_state env))"
    "table_kept (pjn_volume pj) (pjn_to_volume pj) (st_volumes (ev_state env))"
    "table_kept (pjn_engine pj) (pjn_to_engine pj) (st_engines (ev_state env))"
    using assms by (simp_all add: storable_def)
  obtain i where i: "marshal_table (pjn_instance pj) ErrMarshalInstance (st_instances (ev_state env)) = Inr (JObj i)"
    "distinct (map fst i)"
    "parse_table (pjn_to_instance pj) ErrParseInstance (map_of i) = Inr (st_instances (ev_state env))"
    by (rule table_roundtrip [OF keeps(1)])
  obtain d where d: "marshal_table (pjn_deployment pj) ErrMarshalDeployment (st_deployments (ev_state env)) = Inr (JObj d)"
    "distinct (map fst d)"
    "parse_table (pjn_to_deployment pj) ErrParseDeployment (map_of d) = Inr (st_deployments (ev_state env))"
    by (rule table_roundtrip [OF keeps(2)])
  obtain v where v: "marshal_table (pjn_volume pj) ErrMarshalVolume (st_volumes (ev_state env)) = Inr (JObj v)"
    "distinct (map fst v)"
    "parse_table (pjn_to_volume pj) ErrParseVolume (map_of v) = Inr (st_volumes (ev_state env))"
    by (rule table_roundtrip [OF keeps(3)])
  obtain e where e: "marshal_table (pjn_engine pj) ErrMarshalEngine (st_engines (ev_state env)) = Inr (JObj e)"
    "distinct (map fst e)"
    "parse_table (pjn_to_engine pj) ErrParseEngine (map_of e) = Inr (st_engines (ev_state env))"
    by (rule table_roundtrip [OF keeps(4)])
  let ?raw = "\<lparr>raw_schema_version = ev_schema_version env, raw_backend = ev_backend env,
     raw_operator_id = ev_operator_id env, raw_instances = map_of i, raw_deployments = map_of d,
     raw_volumes = map_of v, raw_engines = map_of e\<rparr>"
  let ?doc = "JObj [(''schema_version'', JStr (ev_schema_version env)), (''backend'', JStr (ev_backend env)),
          (''operator_id'', JStr (ev_operator_id env)), (''instances'', JObj i),
          (''deployments'', JObj d), (''volumes'', JObj v), (''engines'', JObj e)]"
  have "encode_envelope pj env = Inr (Document ?doc)"
    by (simp add: encode_envelope_def i d v e)
  moreover have "decode_document ?doc = Some ?raw"
    by (simp add: decode_field_def Let_def zero_raw_def decode_table_object i d v e
        del: decode_table.simps to_lower.simps)
  moreover have "decode_envelope pj op ?raw =
      Inr (env\<lparr>ev_operator_id := if ev_operator_id env = [] then op else ev_operator_id env\<rparr>)"
    by (simp add: decode_envelope_def i d v e)
  ultimately show ?thesis by (rule that)
qed

subsection \<open>The atomic write\<close>

text \<open>
  Until the rename, \<^verbatim>\<open>state.json\<close> is untouched; the temp file is complete and synced when it is
  renamed.
\<close>

definition write_inv :: "contents \<Rightarrow> fs \<Rightarrow> wpc \<times> fs \<Rightarrow> bool" where
  "write_inv out fs0 c \<longleftrightarrow>
     (case fst c of
        WOk \<Rightarrow> fs_state (snd c) = Some \<lparr>fl_data = out, fl_synced = True\<rparr> \<and> fs_undo (snd c) = fs_state fs0 # fs_undo fs0
      | pc \<Rightarrow> fs_state (snd c) = fs_state fs0 \<and> fs_undo (snd c) = fs_undo fs0
          \<and> (pc = WSync \<longrightarrow> (\<exists>b. fs_tmp (snd c) = Some \<lparr>fl_data = out, fl_synced = b\<rparr>))
          \<and> (pc = WClose \<or> pc = WRename \<longrightarrow> fs_tmp (snd c) = Some \<lparr>fl_data = out, fl_synced = True\<rparr>))"

lemma write_step_inv: "write_inv out fs0 c \<Longrightarrow> write_inv out fs0 (write_step out fault c)"
  by (cases "(out, fault, c)" rule: write_step.cases) (auto simp: write_inv_def remove_temp_def)

lemma write_run_inv: "write_inv out fs (write_run out faults fs)"
proof -
  have "write_inv out fs (foldl (\<lambda>c fault. write_step out fault c) c faults)" if "write_inv out fs c" for c
    using that by (induction faults arbitrary: c) (simp_all add: write_step_inv)
  then show ?thesis by (simp add: write_run_def write_inv_def)
qed

fun pc_rank :: "wpc \<Rightarrow> nat" where
  "pc_rank WCreate = 6" | "pc_rank WWrite = 5" | "pc_rank WWriting = 4" | "pc_rank WSync = 3"
| "pc_rank WClose = 2" | "pc_rank WRename = 1" | "pc_rank WOk = 0" | "pc_rank (WFail e) = 0"

lemma write_step_rank: "pc_rank (fst (write_step out fault c)) \<le> pc_rank (fst c) - 1"
  by (cases "(out, fault, c)" rule: write_step.cases) auto

lemma write_run_settles:
  assumes "6 \<le> length faults"
  shows "pc_rank (fst (write_run out faults fs)) = 0"
proof -
  have "pc_rank (fst (foldl (\<lambda>c fault. write_step out fault c) c faults)) \<le> pc_rank (fst c) - length faults" for c
  proof (induction faults arbitrary: c)
    case (Cons f faults)
    have "pc_rank (fst (foldl (\<lambda>c fault. write_step out fault c) c (f # faults)))
        \<le> pc_rank (fst (write_step out f c)) - length faults"
      using Cons.IH by simp
    also have "\<dots> \<le> pc_rank (fst c) - length (f # faults)"
      using write_step_rank [of out f c] by simp
    finally show ?case .
  qed simp
  from this [of "(WCreate, fs)"] assms show ?thesis by (simp add: write_run_def)
qed

lemma write_run_no_fault:
  "write_run out (replicate 6 SysOk) fs =
     (WOk, \<lparr>fs_state = Some \<lparr>fl_data = out, fl_synced = True\<rparr>, fs_tmp = None, fs_undo = fs_state fs # fs_undo fs\<rparr>)"
  by (simp add: write_run_def numeral_eq_Suc)

subsection \<open>The store contract\<close>

definition file_read :: "protojson \<Rightarrow> gostring \<Rightarrow> fs \<Rightarrow> state" where
  "file_read pj op fs = (case file_Read pj op False (state_data fs) of Inl e \<Rightarrow> NewState | Inr st \<Rightarrow> st)"

definition file_update :: "protojson \<Rightarrow> gostring \<Rightarrow> (state \<Rightarrow> ferr + state) \<Rightarrow> fs \<Rightarrow> (ferr + unit) \<times> fs" where
  "file_update pj op = update_body pj op False []"

definition file_sound :: "protojson \<Rightarrow> gostring \<Rightarrow> fs \<Rightarrow> bool" where
  "file_sound pj op fs \<longleftrightarrow> (\<exists>env. readFromDisk pj op False (state_data fs) = Inr env)"

lemma file_read_env:
  "readFromDisk pj op False (state_data fs) = Inr env \<Longrightarrow> file_read pj op fs = ev_state env"
  by (simp add: file_read_def file_Read_def envelopeToState_def)

text \<open>What a write leaves behind, whatever faults it meets.\<close>

lemma writeToDisk_effect:
  assumes "storable pj (ev_state env)"
  shows "(case writeToDisk pj op faults env fs of
            (Inl e, fs') \<Rightarrow> fs_state fs' = fs_state fs
          | (Inr u, fs') \<Rightarrow>
              readFromDisk pj op' False (state_data fs') =
                Inr ((stamp_envelope op env)
                  \<lparr>ev_operator_id := if ev_operator_id (stamp_envelope op env) = [] then op'
                     else ev_operator_id (stamp_envelope op env)\<rparr>))"
proof -
  have "storable pj (ev_state (stamp_envelope op env))"
    using assms by (simp add: stamp_envelope_def)
  then obtain j raw where j: "encode_envelope pj (stamp_envelope op env) = Inr (Document j)"
    "decode_document j = Some raw"
    "decode_envelope pj op' raw =
       Inr ((stamp_envelope op env)
         \<lparr>ev_operator_id := if ev_operator_id (stamp_envelope op env) = [] then op'
            else ev_operator_id (stamp_envelope op env)\<rparr>)"
    by (rule encode_decode)
  obtain pc fs' where run: "write_run (Document j) (six_faults faults) fs = (pc, fs')"
    by (cases "write_run (Document j) (six_faults faults) fs")
  have "pc_rank pc = 0"
    using write_run_settles [of "six_faults faults" "Document j" fs] run
    by (simp add: six_faults_def)
  then consider "pc = WOk" | e where "pc = WFail e" by (cases pc) auto
  then show ?thesis
    using write_run_inv [of "Document j" fs "six_faults faults"] j run
    by cases (simp_all add: writeToDisk_def write_inv_def readFromDisk_def state_data_def)
qed

lemma six_no_faults: "set faults \<subseteq> {SysOk} \<Longrightarrow> six_faults faults = replicate 6 SysOk"
proof -
  assume "set faults \<subseteq> {SysOk}"
  then have "set (six_faults faults) \<subseteq> {SysOk}" by (auto simp: six_faults_def dest!: in_set_takeD)
  moreover have "length (six_faults faults) = 6" by (simp add: six_faults_def)
  ultimately show ?thesis by (metis replicate_length_same singletonD subsetD)
qed

lemma writeToDisk_no_fault:
  assumes "storable pj (ev_state env)" "set faults \<subseteq> {SysOk}"
  shows "fst (writeToDisk pj op faults env fs) = Inr ()"
proof -
  have "storable pj (ev_state (stamp_envelope op env))"
    using assms by (simp add: stamp_envelope_def)
  then obtain j where "encode_envelope pj (stamp_envelope op env) = Inr (Document j)"
    by (rule encode_decode)
  then show ?thesis by (simp add: writeToDisk_def write_run_no_fault six_no_faults [OF assms(2)])
qed

lemma write_run_failed: "write_run out faults fs = (WFail e, fs') \<Longrightarrow> fs_state fs' = fs_state fs"
  using write_run_inv [of out fs faults] by (simp add: write_inv_def)

lemma writeToDisk_failed: "writeToDisk pj op faults env fs = (Inl e, fs') \<Longrightarrow> fs_state fs' = fs_state fs"
  by (auto simp: writeToDisk_def split: sum.splits prod.splits wpc.splits dest: write_run_failed)

text \<open>
  C15: Read after update.  Whatever the read, the function, the encoding and the system calls of the
  write answer, an \<^verbatim>\<open>Update\<close> that reports an error has left the file as it was, and one that reports
  success has run its function on the state the file held and put exactly its result into the file,
  for every later reader, when the codec keeps that state.  Such an update succeeds if the file can
  be read, the function succeeds and no system call fails.
\<close>

theorem file_update_roundtrip:
  "(case update_body pj op io_error faults fn fs of
      (Inl e, fs') \<Rightarrow> fs_state fs' = fs_state fs
    | (Inr u, fs') \<Rightarrow> \<exists>st0 st. file_Read pj op io_error (state_data fs) = Inr st0 \<and> fn st0 = Inr st
        \<and> (storable pj st \<longrightarrow> file_Read pj op' False (state_data fs') = Inr st))
   \<and> (\<forall>st0 st. file_Read pj op io_error (state_data fs) = Inr st0 \<and> fn st0 = Inr st \<and> storable pj st \<and> set faults \<subseteq> {SysOk}
       \<longrightarrow> fst (update_body pj op io_error faults fn fs) = Inr ())"
proof (cases "readFromDisk pj op io_error (state_data fs)")
  case (Inl e)
  then show ?thesis by (simp add: update_body_def file_Read_def)
next
  case (Inr env)
  show ?thesis
  proof (cases "fn (ev_state env)")
    case (Inl e)
    with Inr show ?thesis by (simp add: update_body_def file_Read_def envelopeToState_def)
  next
    case fn: (Inr st)
    let ?env = "env\<lparr>ev_state := st\<rparr>"
    obtain r fs' where w: "writeToDisk pj op faults ?env fs = (r, fs')" by (rule prod.exhaust)
    have u: "update_body pj op io_error faults fn fs = (r, fs')" using Inr fn w by (simp add: update_body_def envelopeToState_def)
    have read: "file_Read pj op io_error (state_data fs) = Inr (ev_state env)" using Inr by (simp add: file_Read_def envelopeToState_def)
    have ok: "fst (writeToDisk pj op faults ?env fs) = Inr ()" if "storable pj st" "set faults \<subseteq> {SysOk}"
      using writeToDisk_no_fault [where env = ?env and fs = fs and op = op] that by simp
    have kept: "file_Read pj op' False (state_data fs') = Inr st" if "storable pj st" "r = Inr x" for x
      using writeToDisk_effect [where env = ?env and op = op and faults = faults and fs = fs and op' = op' and pj = pj] that w
      by (simp add: file_Read_def envelopeToState_def stamp_envelope_def)
    show ?thesis
    proof (cases r)
      case (Inl e)
      then show ?thesis using writeToDisk_failed [of pj op faults ?env fs e fs'] w u read fn ok by auto
    next
      case (Inr x)
      then show ?thesis using u read fn kept by simp
    qed
  qed
qed

interpretation file_backed: state_store "file_read pj op" "file_update pj op" "file_sound pj op" "storable pj"
  for pj op
proof
  fix s and fn :: "state \<Rightarrow> ferr + state" and st
  assume "file_sound pj op s" and fn: "fn (file_read pj op s) = Inr st" and st: "storable pj st"
  then obtain env where env: "readFromDisk pj op False (state_data s) = Inr env"
    by (auto simp: file_sound_def)
  with fn have fn': "fn (ev_state env) = Inr st" by (simp add: file_read_env)
  have u: "file_update pj op fn s = writeToDisk pj op [] (env\<lparr>ev_state := st\<rparr>) s"
    using env fn' by (simp add: file_update_def update_body_def envelopeToState_def)
  have kept: "storable pj (ev_state (env\<lparr>ev_state := st\<rparr>))" using st by simp
  then show "fst (file_update pj op fn s) = Inr () \<and> file_read pj op (snd (file_update pj op fn s)) = st
      \<and> file_sound pj op (snd (file_update pj op fn s))"
    using writeToDisk_effect [OF kept, where op = op and faults = "[]" and fs = s and op' = op] writeToDisk_no_fault [OF kept, where op = op and fs = s and faults = "[]"]
    by (cases "writeToDisk pj op [] (env\<lparr>ev_state := st\<rparr>) s")
       (simp add: u file_read_def file_Read_def envelopeToState_def file_sound_def stamp_envelope_def)
next
  fix s e and fn :: "state \<Rightarrow> ferr + state"
  assume "file_sound pj op s" and "fn (file_read pj op s) = Inl e"
  then show "file_update pj op fn s = (Inl e, s)"
    by (auto simp: file_sound_def file_read_env file_update_def update_body_def envelopeToState_def)
qed

text \<open>The samples of the witnesses: a codec that knows one volume.\<close>

definition sample_volume :: volume where
  "sample_volume = \<lparr>vol_id = ''v'', vol_provider = ''p'', vol_region = ''r'', vol_name = ''n'', vol_size_gb = 200,
     vol_models = [''m''], vol_mount_path = ''/cache'', vol_host_path = [], vol_created_at = None\<rparr>"

definition sample_codec :: protojson where
  "sample_codec = \<lparr>pjn_instance = (\<lambda>_. None), pjn_deployment = (\<lambda>_. None),
     pjn_volume = (\<lambda>v. if v = sample_volume then Some (JStr ''v'') else None), pjn_engine = (\<lambda>_. None),
     pjn_to_instance = (\<lambda>_. None), pjn_to_deployment = (\<lambda>_. None),
     pjn_to_volume = (\<lambda>j. if j = JStr ''v'' then Some sample_volume else None), pjn_to_engine = (\<lambda>_. None)\<rparr>"

definition blank_fs :: fs where
  "blank_fs = \<lparr>fs_state = None, fs_tmp = None, fs_undo = []\<rparr>"

abbreviation volume_state :: state where
  "volume_state \<equiv> NewState\<lparr>st_volumes := [''v'' \<mapsto> sample_volume]\<rparr>"

lemma sample_storable: "storable sample_codec volume_state"
  by (simp add: storable_def table_kept_def NewState_def sample_codec_def)

lemma sample_blank: "readFromDisk sample_codec op False (state_data blank_fs) = Inr (emptyFile op)"
  by (simp add: readFromDisk_def state_data_def blank_fs_def)

theorem file_update_roundtrip_witness:
  "fst (update_body sample_codec ''o'' False [SysOk] (\<lambda>_. Inr volume_state) blank_fs) = Inr ()"
  using file_update_roundtrip [where pj = sample_codec and op = "''o''" and io_error = False and faults = "[SysOk]" and fn = "\<lambda>_. Inr volume_state"
      and fs = blank_fs and op' = "''o''"] sample_blank [of "''o''"] sample_storable
  by (simp add: file_Read_def envelopeToState_def)

text \<open>
  C14: The write is atomic.  At whatever system call it stops, by a fault or by a crash that tears
  every file not yet synced and may lose the rename, \<^verbatim>\<open>state.json\<close> holds the old contents or the complete
  new ones.  When the write reports success every process reads the new contents, and a crash keeps
  them unless it loses the rename; when it reports an error the old ones stay, crash or not.  A temp
  file is left only where its removal failed.
\<close>

theorem write_crash_atomic:
  assumes "\<forall>f. fs_state fs = Some f \<longrightarrow> fl_synced f" and "fs_tmp fs = None" and "fs_undo fs = []"
  shows "state_data (crash lost (snd (write_run out faults fs))) \<in> {state_data fs, Some out}
    \<and> (fst (write_run out faults fs) = WOk \<longrightarrow> state_data (snd (write_run out faults fs)) = Some out
         \<and> state_data (crash 0 (snd (write_run out faults fs))) = Some out)
    \<and> (\<forall>e. fst (write_run out faults fs) = WFail e \<longrightarrow> state_data (snd (write_run out faults fs)) = state_data fs
         \<and> state_data (crash lost (snd (write_run out faults fs))) = state_data fs)
    \<and> (pc_rank (fst (write_run out faults fs)) = 0 \<and> SysFail True \<notin> set faults \<longrightarrow> fs_tmp (snd (write_run out faults fs)) = None)"
proof -
  let ?c = "write_run out faults fs"
  have old: "map_option fl_data (map_option crash_file (fs_state fs)) = state_data fs"
    using assms(1) by (cases "fs_state fs") (auto simp: state_data_def crash_file_def)
  have same: "state_data (crash lost fs') = state_data fs \<and> state_data fs' = state_data fs"
    if "fs_state fs' = fs_state fs" "fs_undo fs' = fs_undo fs" for fs'
    using that assms(3) old by (simp add: state_data_def crash_def)
  have new: "state_data (crash lost fs') \<in> {state_data fs, Some out} \<and> state_data (crash 0 fs') = Some out \<and> state_data fs' = Some out"
    if "fs_state fs' = Some \<lparr>fl_data = out, fl_synced = True\<rparr>" "fs_undo fs' = fs_state fs # fs_undo fs" for fs'
    using that assms(3) old by (cases lost) (auto simp: state_data_def crash_def crash_file_def)
  have tmp: "pc_rank (fst (foldl (\<lambda>c f. write_step out f c) c faults)) = 0 \<longrightarrow>
      fs_tmp (snd (foldl (\<lambda>c f. write_step out f c) c faults)) = None"
    if "(fst c = WCreate \<or> pc_rank (fst c) = 0) \<longrightarrow> fs_tmp (snd c) = None" "SysFail True \<notin> set faults" for c
    using that
  proof (induction faults arbitrary: c)
    case (Cons f faults)
    have "(fst (write_step out f c) = WCreate \<or> pc_rank (fst (write_step out f c)) = 0) \<longrightarrow>
        fs_tmp (snd (write_step out f c)) = None"
      using Cons.prems by (cases "(out, f, c)" rule: write_step.cases) (auto simp: remove_temp_def)
    from Cons.IH [OF this] Cons.prems(2) show ?case by simp
  qed simp
  have inv: "write_inv out fs ?c" by (rule write_run_inv)
  have t: "pc_rank (fst ?c) = 0 \<and> SysFail True \<notin> set faults \<longrightarrow> fs_tmp (snd ?c) = None"
    using tmp [of "(WCreate, fs)"] assms(2) by (simp add: write_run_def)
  show ?thesis
  proof (cases "fst ?c = WOk")
    case True
    with inv new [of "snd ?c"] t show ?thesis by (simp add: write_inv_def)
  next
    case False
    with inv have "fs_state (snd ?c) = fs_state fs" "fs_undo (snd ?c) = fs_undo fs"
      by (auto simp: write_inv_def split: wpc.splits)
    with same [of "snd ?c"] t False show ?thesis by simp
  qed
qed

theorem write_crash_atomic_witness:
  "state_data (crash 1 (snd (write_run EmptyFile [SysOk, SysOk, SysFail True] blank_fs)))
     \<in> {state_data blank_fs, Some EmptyFile}"
  using write_crash_atomic [of blank_fs 1 EmptyFile "[SysOk, SysOk, SysFail True]"] by (simp add: blank_fs_def)

text \<open>The directory is not synced: a crash after a write that reported success may bring the old contents back.\<close>

theorem success_not_durable:
  "fst (write_run EmptyFile (replicate 6 SysOk) blank_fs) = WOk
   \<and> state_data (crash 1 (snd (write_run EmptyFile (replicate 6 SysOk) blank_fs))) = state_data blank_fs"
  by (simp add: write_run_no_fault crash_def state_data_def blank_fs_def)

subsection \<open>The pid sidecar\<close>

definition writeHolderPID :: "nat \<Rightarrow> gostring" where
  "writeHolderPID pid = dec pid @ [char_of (10 :: nat)]"

definition readHolderPID :: "gostring option \<Rightarrow> int" where
  "readHolderPID sidecar =
     (case sidecar of
        None \<Rightarrow> 0
      | Some raw \<Rightarrow> (case go_atoi (trim_space raw) of None \<Rightarrow> 0 | Some pid \<Rightarrow> pid))"

lemma digit_plain: "is_digit c \<Longrightarrow> plain c"
  by (simp add: is_digit_def plain_def less_eq_char_def)

lemma digits_end:
  assumes "s \<noteq> []" and "list_all is_digit s"
  obtains c cs where "s = c # cs" "is_digit c"
  using assms by (cases s) auto

lemma trim_dec_line: "trim_space (dec n @ [char_of (10 :: nat)]) = dec n"
proof -
  obtain c cs where c: "dec n = c # cs" "is_digit c"
    by (rule digits_end [OF dec_nonempty dec_digits])
  have "rev (dec n) \<noteq> []" using dec_nonempty [of n] by (simp only: rev_is_Nil_conv) simp
  moreover have "list_all is_digit (rev (dec n))" using dec_digits [of n] by (simp only: list_all_rev)
  ultimately obtain d ds where d: "rev (dec n) = d # ds" "is_digit d"
    by (rule digits_end)
  have "trim_left_space (dec n @ [char_of (10 :: nat)]) = dec n @ [char_of (10 :: nat)]"
    unfolding c(1) append_Cons by (rule trim_stop(1), rule strip_plain(1), rule digit_plain, rule c(2))
  moreover have "trim_right_rev (rev (dec n)) = rev (dec n)"
    unfolding d(1) by (rule trim_stop(2), rule strip_plain(2), rule digit_plain, rule d(2))
  ultimately show ?thesis
    unfolding trim_space_def by (simp only: rev_append rev.simps append.simps trim_newline rev_rev_ident)
qed

lemma holder_pid_roundtrip:
  assumes "int pid \<le> max_int64"
  shows "readHolderPID (Some (writeHolderPID pid)) = int pid"
  using go_atoi_dec [OF assms] by (simp add: readHolderPID_def writeHolderPID_def trim_dec_line)

subsection \<open>Locks and concurrent updates\<close>

text \<open>
  Goroutines of several processes share the state directory; \<open>proc\<close> gives the process of a
  goroutine.  A process has one store: its mutex (\<^verbatim>\<open>mu\<close>) and the lock file through which it holds the
  directory's flock for its lifetime (\<^verbatim>\<open>heldLock\<close>); lock files are numbered as they are opened, and the
  number stands for the release function that closes over the file and its \<^verbatim>\<open>sync.Once\<close>.  The flock belongs to a lifetime lock or to one running
  \<^verbatim>\<open>Update\<close>.  The steps of \<^verbatim>\<open>Update\<close> interleave freely; a step that would block is not
  possible.  The log holds the functions whose updates reported success, in the order of their
  writes.
\<close>

type_synonym updater = "state \<Rightarrow> ferr + state"

datatype owner = Lifetime nat | OneShot nat

datatype phase =
    Idle
  | Entered updater
  | Locked bool updater
  | HaveRead bool updater envelope
  | Leaving bool "ferr + unit"

record sys =
  sy_fs :: fs
  sy_flock :: "owner option"
  sy_sidecar :: "gostring option"
  sy_held :: "nat \<Rightarrow> nat option"
  sy_next :: nat
  sy_mu :: "nat \<Rightarrow> nat option"
  sy_phase :: "nat \<Rightarrow> phase"
  sy_log :: "updater list"

datatype event =
    UEnter nat updater
  | UFlock nat bool
  | URead nat bool
  | UWrite nat "sysres list"
  | ULeave nat
  | LLock nat "ferr option" bool
  | LRelease nat nat

text \<open>
  \<^verbatim>\<open>LockForLifetime\<close> by the process with this pid: its answer and the new state.  Opening or
  locking the file may fail (\<open>fault\<close>) and so may writing the sidecar, which is ignored.
\<close>

definition LockForLifetime :: "gostring \<Rightarrow> ferr option \<Rightarrow> bool \<Rightarrow> nat \<Rightarrow> sys \<Rightarrow> (ferr + nat) \<times> sys" where
  "LockForLifetime path fault sidecar_ok pid s =
     (if sy_held s pid \<noteq> None then (Inl ErrLockedTwice, s)
      else case fault of Some e \<Rightarrow> (Inl e, s)
      | None \<Rightarrow>
          (case sy_flock s of
             Some _ \<Rightarrow> (Inl (ErrLockHeld path (readHolderPID (sy_sidecar s))), s)
           | None \<Rightarrow>
               (Inr (sy_next s), s\<lparr>sy_flock := Some (Lifetime pid),
                          sy_sidecar := (if sidecar_ok then Some (writeHolderPID pid) else sy_sidecar s),
                          sy_held := (sy_held s)(pid := Some (sy_next s)), sy_next := Suc (sy_next s)\<rparr>)))"

text \<open>
  The release function of a lock file of the process; \<^verbatim>\<open>releaseOnce\<close> makes a second call of it do nothing,
  also when the process has taken the lock again through another file.
\<close>

definition release :: "nat \<Rightarrow> nat \<Rightarrow> sys \<Rightarrow> sys" where
  "release pid lk s =
     (if sy_held s pid = Some lk then
        s\<lparr>sy_sidecar := None, sy_held := (sy_held s)(pid := None), sy_flock := None\<rparr>
      else s)"

fun sys_step :: "protojson \<Rightarrow> gostring \<Rightarrow> (nat \<Rightarrow> nat) \<Rightarrow> event \<Rightarrow> sys \<Rightarrow> sys option" where
  "sys_step pj op proc (UEnter g fn) s =
     (case (sy_phase s g, sy_mu s (proc g)) of
        (Idle, None) \<Rightarrow>
          Some (s\<lparr>sy_mu := (sy_mu s)(proc g := Some g), sy_phase := (sy_phase s)(g := Entered fn)\<rparr>)
      | _ \<Rightarrow> None)"
| "sys_step pj op proc (UFlock g fault) s =
     (case sy_phase s g of
        Entered fn \<Rightarrow>
          (if sy_held s (proc g) \<noteq> None then Some (s\<lparr>sy_phase := (sy_phase s)(g := Locked False fn)\<rparr>)
           else if fault then Some (s\<lparr>sy_phase := (sy_phase s)(g := Leaving False (Inl ErrFlock))\<rparr>)
           else if sy_flock s = None then
             Some (s\<lparr>sy_flock := Some (OneShot g), sy_phase := (sy_phase s)(g := Locked True fn)\<rparr>)
           else None)
      | _ \<Rightarrow> None)"
| "sys_step pj op proc (URead g io_error) s =
     (case sy_phase s g of
        Locked own fn \<Rightarrow>
          (case readFromDisk pj op io_error (state_data (sy_fs s)) of
             Inl e \<Rightarrow> Some (s\<lparr>sy_phase := (sy_phase s)(g := Leaving own (Inl e))\<rparr>)
           | Inr env \<Rightarrow> Some (s\<lparr>sy_phase := (sy_phase s)(g := HaveRead own fn env)\<rparr>))
      | _ \<Rightarrow> None)"
| "sys_step pj op proc (UWrite g faults) s =
     (case sy_phase s g of
        HaveRead own fn env \<Rightarrow>
          (case fn (envelopeToState env) of
             Inl e \<Rightarrow> Some (s\<lparr>sy_phase := (sy_phase s)(g := Leaving own (Inl e))\<rparr>)
           | Inr st \<Rightarrow>
               (let (r, fs') = writeToDisk pj op faults (env\<lparr>ev_state := st\<rparr>) (sy_fs s) in
                Some (s\<lparr>sy_fs := fs', sy_phase := (sy_phase s)(g := Leaving own r),
                        sy_log := (if r = Inr () then sy_log s @ [fn] else sy_log s)\<rparr>)))
      | _ \<Rightarrow> None)"
| "sys_step pj op proc (ULeave g) s =
     (case sy_phase s g of
        Leaving own r \<Rightarrow>
          Some (s\<lparr>sy_flock := (if own then None else sy_flock s), sy_mu := (sy_mu s)(proc g := None),
                  sy_phase := (sy_phase s)(g := Idle)\<rparr>)
      | _ \<Rightarrow> None)"
| "sys_step pj op proc (LLock pid fault sidecar_ok) s = Some (snd (LockForLifetime [] fault sidecar_ok pid s))"
| "sys_step pj op proc (LRelease pid lk) s = Some (release pid lk s)"

fun sys_run :: "protojson \<Rightarrow> gostring \<Rightarrow> (nat \<Rightarrow> nat) \<Rightarrow> event list \<Rightarrow> sys \<Rightarrow> sys option" where
  "sys_run pj op proc [] s = Some s"
| "sys_run pj op proc (ev # evs) s =
     (case sys_step pj op proc ev s of None \<Rightarrow> None | Some s' \<Rightarrow> sys_run pj op proc evs s')"

text \<open>A daemon that gives the lock back only while none of its own updates is running.\<close>

fun quiet :: "event \<Rightarrow> sys \<Rightarrow> bool" where
  "quiet (LRelease pid lk) s \<longleftrightarrow> sy_mu s pid = None"
| "quiet _ s \<longleftrightarrow> True"

fun quiet_run :: "protojson \<Rightarrow> gostring \<Rightarrow> (nat \<Rightarrow> nat) \<Rightarrow> event list \<Rightarrow> sys \<Rightarrow> bool" where
  "quiet_run pj op proc [] s \<longleftrightarrow> True"
| "quiet_run pj op proc (ev # evs) s \<longleftrightarrow>
     quiet ev s
     \<and> (case sys_step pj op proc ev s of None \<Rightarrow> True | Some s' \<Rightarrow> quiet_run pj op proc evs s')"

definition sys_init :: "fs \<Rightarrow> sys" where
  "sys_init fs = \<lparr>sy_fs = fs, sy_flock = None, sy_sidecar = None, sy_held = (\<lambda>_. None), sy_next = 0,
     sy_mu = (\<lambda>_. None), sy_phase = (\<lambda>_. Idle), sy_log = []\<rparr>"

text \<open>The specification: the functions applied one after the other.\<close>

definition apply_serially :: "updater list \<Rightarrow> state \<Rightarrow> state" where
  "apply_serially fns st = foldl (\<lambda>st fn. case fn st of Inl e \<Rightarrow> st | Inr st' \<Rightarrow> st') st fns"

fun phase_ok :: "(nat \<Rightarrow> nat) \<Rightarrow> protojson \<Rightarrow> gostring \<Rightarrow> sys \<Rightarrow> nat \<Rightarrow> phase \<Rightarrow> bool" where
  "phase_ok proc pj op s g Idle \<longleftrightarrow>
     sy_mu s (proc g) \<noteq> Some g \<and> sy_flock s \<noteq> Some (OneShot g)"
| "phase_ok proc pj op s g (Entered fn) \<longleftrightarrow>
     sy_mu s (proc g) = Some g \<and> sy_flock s \<noteq> Some (OneShot g)"
| "phase_ok proc pj op s g (Locked own fn) \<longleftrightarrow> sy_mu s (proc g) = Some g
     \<and> sy_flock s = Some (if own then OneShot g else Lifetime (proc g))"
| "phase_ok proc pj op s g (HaveRead own fn env) \<longleftrightarrow> sy_mu s (proc g) = Some g
     \<and> sy_flock s = Some (if own then OneShot g else Lifetime (proc g))
     \<and> readFromDisk pj op False (state_data (sy_fs s)) = Inr env"
| "phase_ok proc pj op s g (Leaving own r) \<longleftrightarrow> sy_mu s (proc g) = Some g
     \<and> (own \<longleftrightarrow> sy_flock s = Some (OneShot g))"

fun updater_of :: "phase \<Rightarrow> updater option" where
  "updater_of (Entered fn) = Some fn"
| "updater_of (Locked own fn) = Some fn"
| "updater_of (HaveRead own fn env) = Some fn"
| "updater_of _ = None"

definition keeps_storable :: "protojson \<Rightarrow> updater \<Rightarrow> bool" where
  "keeps_storable pj fn \<longleftrightarrow> (\<forall>st st'. fn st = Inr st' \<longrightarrow> storable pj st')"

definition sys_inv :: "protojson \<Rightarrow> gostring \<Rightarrow> (nat \<Rightarrow> nat) \<Rightarrow> state \<Rightarrow> sys \<Rightarrow> bool" where
  "sys_inv pj op proc st0 s \<longleftrightarrow>
     (\<forall>g. phase_ok proc pj op s g (sy_phase s g))
     \<and> (\<forall>pid. sy_held s pid \<noteq> None \<longleftrightarrow> sy_flock s = Some (Lifetime pid))
     \<and> (\<forall>g fn. updater_of (sy_phase s g) = Some fn \<longrightarrow> keeps_storable pj fn)
     \<and> file_sound pj op (sy_fs s)
     \<and> file_read pj op (sy_fs s) = apply_serially (sy_log s) st0"

lemma phase_ok_upd [simp]:
  "phase_ok proc pj op (s\<lparr>sy_phase := x\<rparr>) g ph = phase_ok proc pj op s g ph"
  "phase_ok proc pj op (s\<lparr>sy_log := l\<rparr>) g ph = phase_ok proc pj op s g ph"
  by (cases ph; simp)+

lemma inv_parts:
  assumes "sys_inv pj op proc st0 s"
  shows "phase_ok proc pj op s g (sy_phase s g)" "sy_held s pid \<noteq> None \<longleftrightarrow> sy_flock s = Some (Lifetime pid)"
    "updater_of (sy_phase s g) = Some fn \<Longrightarrow> keeps_storable pj fn" "file_sound pj op (sy_fs s)"
    "file_read pj op (sy_fs s) = apply_serially (sy_log s) st0"
  using assms by (auto simp: sys_inv_def)

lemma exclusive:
  assumes "sys_inv pj op proc st0 s"
    and "sy_phase s g = HaveRead own fn env" and "sy_phase s g' = HaveRead own' fn' env'"
  shows "g = g'"
proof -
  have fl: "sy_flock s = Some (if own then OneShot g else Lifetime (proc g))"
    "sy_flock s = Some (if own' then OneShot g' else Lifetime (proc g'))"
    and mu: "sy_mu s (proc g) = Some g" "sy_mu s (proc g') = Some g'"
    using inv_parts(1) [OF assms(1), of g] inv_parts(1) [OF assms(1), of g'] assms(2,3) by simp_all
  show ?thesis
  proof (rule ccontr)
    assume "g \<noteq> g'"
    with fl have "proc g = proc g'" by (cases own; cases own') simp_all
    with mu \<open>g \<noteq> g'\<close> show False by simp
  qed
qed

text \<open>A step that leaves file, locks and log alone only has to justify the new phase.\<close>

lemma phase_step_inv:
  assumes inv: "sys_inv pj op proc st0 s" and "phase_ok proc pj op s g ph"
    and "\<And>fn. updater_of ph = Some fn \<Longrightarrow> keeps_storable pj fn"
  shows "sys_inv pj op proc st0 (s\<lparr>sy_phase := (sy_phase s)(g := ph)\<rparr>)"
  using assms(2,3) inv_parts [OF inv] by (simp add: sys_inv_def)

lemma mu_step_inv:
  assumes inv: "sys_inv pj op proc st0 s" and "sy_phase s g = Idle" "sy_mu s (proc g) = None" "keeps_storable pj fn"
  shows "sys_inv pj op proc st0 (s\<lparr>sy_mu := (sy_mu s)(proc g := Some g), sy_phase := (sy_phase s)(g := Entered fn)\<rparr>)"
proof -
  have "phase_ok proc pj op (s\<lparr>sy_mu := (sy_mu s)(proc g := Some g)\<rparr>) g' (sy_phase s g')" if "g' \<noteq> g" for g'
    using inv_parts(1) [OF inv, of g'] that assms(3) by (cases "sy_phase s g'") auto
  then show ?thesis
    using assms(2-) inv_parts [OF inv] inv_parts(1) [OF inv, of g] by (auto simp: sys_inv_def)
qed

lemma flock_step_inv:
  assumes inv: "sys_inv pj op proc st0 s" and "sy_phase s g = Entered fn" "sy_flock s = None"
  shows "sys_inv pj op proc st0 (s\<lparr>sy_flock := Some (OneShot g), sy_phase := (sy_phase s)(g := Locked True fn)\<rparr>)"
proof -
  have "phase_ok proc pj op (s\<lparr>sy_flock := Some (OneShot g)\<rparr>) g' (sy_phase s g')" if "g' \<noteq> g" for g'
    using inv_parts(1) [OF inv, of g'] that assms(3) by (cases "sy_phase s g'") auto
  moreover have "keeps_storable pj fn"
    using inv_parts(3) [OF inv, of g fn] assms(2) by simp
  ultimately show ?thesis
    using assms(2-) inv_parts [OF inv] inv_parts(1) [OF inv, of g] by (auto simp: sys_inv_def)
qed

lemma leave_step_inv:
  assumes inv: "sys_inv pj op proc st0 s" and ph: "sy_phase s g = Leaving own r"
  shows "sys_inv pj op proc st0
    (s\<lparr>sy_flock := (if own then None else sy_flock s), sy_mu := (sy_mu s)(proc g := None), sy_phase := (sy_phase s)(g := Idle)\<rparr>)"
proof -
  have g: "sy_mu s (proc g) = Some g" "own \<longleftrightarrow> sy_flock s = Some (OneShot g)"
    using inv_parts(1) [OF inv, of g] ph by simp_all
  have "phase_ok proc pj op (s\<lparr>sy_flock := (if own then None else sy_flock s), sy_mu := (sy_mu s)(proc g := None)\<rparr>)
      g' (sy_phase s g')" if "g' \<noteq> g" for g'
    using inv_parts(1) [OF inv, of g'] that g by (cases "sy_phase s g'") (auto split: if_splits)
  then show ?thesis
    using g ph inv_parts [OF inv] by (auto simp: sys_inv_def)
qed

lemma lock_step_inv:
  assumes inv: "sys_inv pj op proc st0 s"
  shows "sys_inv pj op proc st0 (snd (LockForLifetime path fault ok pid s))"
proof (cases "fst (LockForLifetime path fault ok pid s)")
  case (Inl e)
  then have "snd (LockForLifetime path fault ok pid s) = s"
    by (auto simp: LockForLifetime_def split: if_splits option.splits)
  with inv show ?thesis by simp
next
  case (Inr u)
  then have free: "sy_flock s = None" and res: "snd (LockForLifetime path fault ok pid s) =
      s\<lparr>sy_flock := Some (Lifetime pid), sy_sidecar := (if ok then Some (writeHolderPID pid) else sy_sidecar s),
        sy_held := (sy_held s)(pid := Some (sy_next s)), sy_next := Suc (sy_next s)\<rparr>"
    by (auto simp: LockForLifetime_def split: if_splits option.splits)
  have "phase_ok proc pj op (snd (LockForLifetime path fault ok pid s)) g (sy_phase s g)" for g
    using inv_parts(1) [OF inv, of g] free unfolding res by (cases "sy_phase s g") auto
  then show ?thesis
    using inv_parts [OF inv] free unfolding res by (auto simp: sys_inv_def)
qed

lemma release_step_inv:
  assumes inv: "sys_inv pj op proc st0 s" and "sy_mu s pid = None"
  shows "sys_inv pj op proc st0 (release pid lk s)"
proof (cases "sy_held s pid = Some lk")
  case True
  then have fl: "sy_flock s = Some (Lifetime pid)" using inv_parts(2) [OF inv, of pid] by simp
  have "phase_ok proc pj op (release pid lk s) g (sy_phase s g)" for g
    using inv_parts(1) [OF inv, of g] fl assms(2) by (cases "sy_phase s g") (auto simp: release_def split: if_splits)
  moreover have "sy_held s pid' = None" if "pid' \<noteq> pid" for pid' using inv_parts(2) [OF inv, of pid'] fl that by auto
  ultimately show ?thesis
    using inv_parts [OF inv] fl True by (auto simp: sys_inv_def release_def)
qed (use inv in \<open>simp add: release_def\<close>)

lemma write_step_keeps_inv:
  assumes inv: "sys_inv pj op proc st0 s" and ph: "sy_phase s g = HaveRead own fn env"
    and fn: "fn (ev_state env) = Inr st"
    and w: "writeToDisk pj op faults (env\<lparr>ev_state := st\<rparr>) (sy_fs s) = (r, fs')"
  shows "sys_inv pj op proc st0
    (s\<lparr>sy_fs := fs', sy_phase := (sy_phase s)(g := Leaving own r),
       sy_log := (if r = Inr () then sy_log s @ [fn] else sy_log s)\<rparr>)"
proof -
  let ?s' = "s\<lparr>sy_fs := fs', sy_phase := (sy_phase s)(g := Leaving own r),
       sy_log := (if r = Inr () then sy_log s @ [fn] else sy_log s)\<rparr>"
  have g: "sy_mu s (proc g) = Some g" "sy_flock s = Some (if own then OneShot g else Lifetime (proc g))"
    "readFromDisk pj op False (state_data (sy_fs s)) = Inr env"
    using inv_parts(1) [OF inv, of g] ph by simp_all
  have "keeps_storable pj fn" using inv_parts(3) [OF inv, of g fn] ph by simp
  with fn have kept: "storable pj (ev_state (env\<lparr>ev_state := st\<rparr>))" by (simp add: keeps_storable_def)
  have eff: "case (r, fs') of
      (Inl e, fs') \<Rightarrow> fs_state fs' = fs_state (sy_fs s)
    | (Inr u, fs') \<Rightarrow> file_sound pj op fs' \<and> file_read pj op fs' = st"
    using writeToDisk_effect [OF kept, where op = op and faults = faults and fs = "sy_fs s" and op' = op] w
    by (cases r) (simp_all add: file_sound_def file_read_def file_Read_def envelopeToState_def stamp_envelope_def)
  have "phase_ok proc pj op ?s' g' (sy_phase ?s' g')" for g'
  proof (cases "g' = g")
    case True
    then show ?thesis using g by auto
  next
    case False
    with exclusive [OF inv ph] have "\<nexists>own fn env. sy_phase s g' = HaveRead own fn env" by blast
    with False inv_parts(1) [OF inv, of g'] show ?thesis by (cases "sy_phase s g'") auto
  qed
  moreover have "file_sound pj op fs' \<and> file_read pj op fs' = apply_serially (sy_log ?s') st0"
  proof (cases r)
    case (Inl e)
    with eff have "state_data fs' = state_data (sy_fs s)" by (simp add: state_data_def)
    with Inl inv_parts(4,5) [OF inv] show ?thesis by (simp add: file_sound_def file_read_def)
  next
    case (Inr u)
    have "apply_serially (sy_log s) st0 = ev_state env"
      using inv_parts(5) [OF inv] file_read_env [OF g(3)] by simp
    with Inr eff fn show ?thesis by (simp add: apply_serially_def)
  qed
  ultimately show ?thesis
    using inv_parts(2,3) [OF inv] by (simp add: sys_inv_def)
qed

fun event_ok :: "protojson \<Rightarrow> event \<Rightarrow> bool" where
  "event_ok pj (UEnter g fn) \<longleftrightarrow> keeps_storable pj fn"
| "event_ok pj _ \<longleftrightarrow> True"

lemma sys_step_inv:
  assumes inv: "sys_inv pj op proc st0 s" and st: "sys_step pj op proc ev s = Some s'"
    and "quiet ev s" "event_ok pj ev"
  shows "sys_inv pj op proc st0 s'"
proof (cases ev)
  case (UEnter g fn)
  with st assms(4) mu_step_inv [OF inv] show ?thesis by (auto split: phase.splits option.splits)
next
  case (UFlock g fault)
  obtain fn where ph: "sy_phase s g = Entered fn" using st UFlock by (auto split: phase.splits)
  have ks: "keeps_storable pj fn" using inv_parts(3) [OF inv, of g fn] ph by simp
  have ok: "sy_mu s (proc g) = Some g" "sy_flock s \<noteq> Some (OneShot g)" using inv_parts(1) [OF inv, of g] ph by simp_all
  show ?thesis
    using st UFlock ph ks ok inv_parts(2) [OF inv, of "proc g"] flock_step_inv [OF inv ph]
      phase_step_inv [OF inv, of g "Locked False fn"] phase_step_inv [OF inv, of g "Leaving False (Inl ErrFlock)"]
    by (auto split: if_splits)
next
  case (URead g io)
  obtain own fn where ph: "sy_phase s g = Locked own fn" using st URead by (auto split: phase.splits)
  have ks: "keeps_storable pj fn" using inv_parts(3) [OF inv, of g fn] ph by simp
  have ok: "sy_mu s (proc g) = Some g" "sy_flock s = Some (if own then OneShot g else Lifetime (proc g))"
    using inv_parts(1) [OF inv, of g] ph by simp_all
  show ?thesis
  proof (cases "readFromDisk pj op io (state_data (sy_fs s))")
    case (Inl e)
    with st URead ph ok phase_step_inv [OF inv, of g "Leaving own (Inl e)"] show ?thesis by auto
  next
    case (Inr env)
    then have "readFromDisk pj op False (state_data (sy_fs s)) = Inr env"
      by (cases io) (simp_all add: readFromDisk_def)
    with Inr st URead ph ok ks phase_step_inv [OF inv, of g "HaveRead own fn env"] show ?thesis by auto
  qed
next
  case (UWrite g faults)
  obtain own fn env where ph: "sy_phase s g = HaveRead own fn env" using st UWrite by (auto split: phase.splits)
  have ok: "sy_mu s (proc g) = Some g" "sy_flock s = Some (if own then OneShot g else Lifetime (proc g))"
    using inv_parts(1) [OF inv, of g] ph by simp_all
  show ?thesis
  proof (cases "fn (ev_state env)")
    case (Inl e)
    with st UWrite ph ok phase_step_inv [OF inv, of g "Leaving own (Inl e)"] show ?thesis
      by (auto simp: envelopeToState_def)
  next
    case (Inr st1)
    with st UWrite ph write_step_keeps_inv [OF inv ph Inr] show ?thesis
      by (auto simp: envelopeToState_def split: prod.splits)
  qed
next
  case (ULeave g)
  with st leave_step_inv [OF inv] show ?thesis by (auto split: phase.splits)
next
  case (LLock pid fault ok)
  with st lock_step_inv [OF inv] show ?thesis by auto
next
  case (LRelease pid lk)
  with st assms(3) release_step_inv [OF inv] show ?thesis by auto
qed

lemma sys_run_inv:
  "sys_inv pj op proc st0 s \<Longrightarrow> sys_run pj op proc evs s = Some s' \<Longrightarrow> quiet_run pj op proc evs s \<Longrightarrow>
     list_all (event_ok pj) evs \<Longrightarrow> sys_inv pj op proc st0 s'"
  by (induction pj op proc evs s arbitrary: s' rule: sys_run.induct)
     (auto split: option.splits dest: sys_step_inv)

lemma sys_init_inv: "file_sound pj op fs \<Longrightarrow> sys_inv pj op proc (file_read pj op fs) (sys_init fs)"
  by (simp add: sys_inv_def sys_init_def apply_serially_def)

text \<open>
  C13: No lost update.  However the updates of goroutines and processes interleave, with faults at
  any step, the file always holds the result of applying the successful updates one after the other
  in the order of their writes, and no two updates are between their read and their write at the
  same time.  Two things are assumed: a process releases its lifetime lock only while none of its own
  updates runs (\<open>release_loses_update\<close> shows that the code does not see to it), and the functions return
  states that the codec keeps.
\<close>

theorem file_updates_serializable:
  assumes "file_sound pj op fs" and "sys_run pj op proc evs (sys_init fs) = Some s"
    and "quiet_run pj op proc evs (sys_init fs)" and "list_all (event_ok pj) evs"
  shows "file_Read pj op False (state_data (sy_fs s)) = Inr (apply_serially (sy_log s) (file_read pj op fs))
    \<and> (\<forall>g g' own fn env own' fn' env'. sy_phase s g = HaveRead own fn env \<longrightarrow>
         sy_phase s g' = HaveRead own' fn' env' \<longrightarrow> g = g')"
proof -
  have inv: "sys_inv pj op proc (file_read pj op fs) s"
    using sys_run_inv [OF sys_init_inv [OF assms(1)] assms(2-4)] .
  from inv_parts(4) [OF inv] obtain env where "readFromDisk pj op False (state_data (sy_fs s)) = Inr env"
    by (auto simp: file_sound_def)
  with inv_parts(5) [OF inv] have "file_Read pj op False (state_data (sy_fs s)) =
      Inr (apply_serially (sy_log s) (file_read pj op fs))"
    by (simp add: file_Read_def envelopeToState_def file_read_def)
  with exclusive [OF inv] show ?thesis by blast
qed

definition add_volume :: updater where
  "add_volume st = Inr (NewState\<lparr>st_volumes := [''v'' \<mapsto> sample_volume]\<rparr>)"

definition clear_all :: updater where
  "clear_all st = (if st_volumes st ''v'' = None then Inr NewState else Inl (ErrFn ''in use''))"

lemma clear_storable: "storable sample_codec NewState"
  by (simp add: storable_def table_kept_def NewState_def)

lemma blank_sound: "file_sound sample_codec op blank_fs"
  by (simp add: file_sound_def sample_blank)

lemma blank_read: "file_read sample_codec op blank_fs = NewState"
  using file_read_env [OF sample_blank] by (simp add: emptyFile_def)

lemma sample_write:
  assumes "storable sample_codec st"
  obtains fs' where "writeToDisk sample_codec op [] (env\<lparr>ev_state := st\<rparr>) fs = (Inr (), fs')"
    "\<And>op'. \<exists>env'. readFromDisk sample_codec op' False (state_data fs') = Inr env' \<and> ev_state env' = st"
proof -
  have kept: "storable sample_codec (ev_state (env\<lparr>ev_state := st\<rparr>))" using assms by simp
  obtain fs' where w: "writeToDisk sample_codec op [] (env\<lparr>ev_state := st\<rparr>) fs = (Inr (), fs')"
    using writeToDisk_no_fault [OF kept, of "[]" op fs]
    by (cases "writeToDisk sample_codec op [] (env\<lparr>ev_state := st\<rparr>) fs") auto
  show ?thesis
    using that [OF w] writeToDisk_effect [OF kept, where op = op and faults = "[]" and fs = fs] w
    by (auto simp: stamp_envelope_def)
qed

abbreviation one_update :: "event list" where
  "one_update \<equiv> [LLock 7 None True, UEnter 1 add_volume, UFlock 1 False, URead 1 False, UWrite 1 [], ULeave 1, LRelease 7 0]"

theorem file_updates_serializable_witness:
  "\<exists>s. sys_run sample_codec ''o'' (\<lambda>_. 7) one_update (sys_init blank_fs) = Some s
     \<and> sy_log s = [add_volume]
     \<and> file_Read sample_codec ''o'' False (state_data (sy_fs s)) = Inr (apply_serially (sy_log s) NewState)"
proof -
  obtain fs' where w: "writeToDisk sample_codec ''o'' [] ((emptyFile ''o'')\<lparr>ev_state := volume_state\<rparr>) blank_fs = (Inr (), fs')"
    by (rule sample_write [OF sample_storable])
  obtain s where s: "sys_run sample_codec ''o'' (\<lambda>_. 7) one_update (sys_init blank_fs) = Some s" "sy_log s = [add_volume]"
    by (simp add: sys_init_def LockForLifetime_def release_def sample_blank w add_volume_def envelopeToState_def)
  have "quiet_run sample_codec ''o'' (\<lambda>_. 7) one_update (sys_init blank_fs)"
    by (simp add: sys_init_def LockForLifetime_def sample_blank w add_volume_def envelopeToState_def)
  moreover have "list_all (event_ok sample_codec) one_update"
    using sample_storable by (simp add: keeps_storable_def add_volume_def)
  ultimately show ?thesis
    using file_updates_serializable [OF blank_sound s(1)] s by (auto simp: blank_read)
qed

text \<open>
  A release while an update of the same process runs: nothing in \<^verbatim>\<open>release\<close> waits for it, and
  \<^verbatim>\<open>serve\<close> does not wait for its reaper.  Another process may then update the file between the
  read and the write of the first, and its update is lost although both reported success.
\<close>

abbreviation racing :: "event list" where
  "racing \<equiv> [LLock 1 None True, UEnter 1 clear_all, UFlock 1 False, URead 1 False, LRelease 1 0,
     UEnter 2 add_volume, UFlock 2 False, URead 2 False, UWrite 2 [], ULeave 2, UWrite 1 [], ULeave 1]"

theorem release_loses_update:
  "\<exists>s. sys_run sample_codec ''o'' (\<lambda>g. g) racing (sys_init blank_fs) = Some s
     \<and> sy_log s = [add_volume, clear_all]
     \<and> file_Read sample_codec ''o'' False (state_data (sy_fs s)) = Inr NewState
     \<and> apply_serially (sy_log s) NewState = volume_state"
proof -
  obtain fs1 where w1: "writeToDisk sample_codec ''o'' [] ((emptyFile ''o'')\<lparr>ev_state := volume_state\<rparr>) blank_fs = (Inr (), fs1)"
    by (rule sample_write [OF sample_storable])
  obtain fs2 where w2: "writeToDisk sample_codec ''o'' [] ((emptyFile ''o'')\<lparr>ev_state := NewState\<rparr>) fs1 = (Inr (), fs2)"
    and r2: "\<And>op'. \<exists>env'. readFromDisk sample_codec op' False (state_data fs2) = Inr env' \<and> ev_state env' = NewState"
    by (rule sample_write [OF clear_storable, where op = "''o''" and env = "emptyFile ''o''" and fs = fs1]) blast
  have c: "clear_all (ev_state (emptyFile ''o'')) = Inr NewState"
    by (simp add: clear_all_def emptyFile_def NewState_def)
  obtain s where s: "sys_run sample_codec ''o'' (\<lambda>g. g) racing (sys_init blank_fs) = Some s"
    "sy_log s = [add_volume, clear_all]" "sy_fs s = fs2"
    by (simp add: sys_init_def LockForLifetime_def release_def sample_blank w1 w2 c add_volume_def envelopeToState_def)
  have "file_Read sample_codec ''o'' False (state_data fs2) = Inr NewState"
    using r2 [of "''o''"] by (auto simp: file_Read_def envelopeToState_def)
  with s show ?thesis by (simp add: apply_serially_def add_volume_def clear_all_def)
qed

text \<open>The locks alone, whatever the updates do and whenever a lock is released.\<close>

fun owns :: "phase \<Rightarrow> bool" where
  "owns (Locked own fn) = own"
| "owns (HaveRead own fn env) = own"
| "owns (Leaving own r) = own"
| "owns _ = False"

definition lock_inv :: "sys \<Rightarrow> bool" where
  "lock_inv s \<longleftrightarrow>
     (\<forall>pid. sy_held s pid \<noteq> None \<longleftrightarrow> sy_flock s = Some (Lifetime pid))
     \<and> (\<forall>pid lk. sy_held s pid = Some lk \<longrightarrow> lk < sy_next s)
     \<and> (\<forall>g. owns (sy_phase s g) \<longrightarrow> sy_flock s = Some (OneShot g))"

lemma lock_inv_init: "lock_inv (sys_init fs)"
  by (simp add: lock_inv_def sys_init_def)

lemma lock_inv_phase:
  assumes "lock_inv s" "sy_held s' = sy_held s" "sy_flock s' = sy_flock s" "sy_next s' = sy_next s"
    "\<And>g. owns (sy_phase s' g) \<Longrightarrow> owns (sy_phase s g)"
  shows "lock_inv s'"
  using assms by (auto simp: lock_inv_def)

lemma lock_inv_alone: "lock_inv s \<Longrightarrow> sy_held s pid = Some lk \<Longrightarrow> pid' \<noteq> pid \<Longrightarrow> sy_held s pid' = None"
  unfolding lock_inv_def by (metis not_None_eq option.inject owner.inject(1))

lemma lock_inv_release: "lock_inv s \<Longrightarrow> lock_inv (release pid lk s)"
  using lock_inv_alone [of s pid lk] by (auto simp: release_def) (auto simp: lock_inv_def)

lemma lock_inv_take: "lock_inv s \<Longrightarrow> lock_inv (snd (LockForLifetime path fault ok pid s))"
  by (auto simp: lock_inv_def LockForLifetime_def less_Suc_eq split: option.splits)

lemma lock_inv_step:
  assumes inv: "lock_inv s" and st: "sys_step pj op proc ev s = Some s'"
  shows "lock_inv s'"
proof (cases ev)
  case (UEnter g fn)
  show ?thesis by (rule lock_inv_phase [OF inv]) (use st UEnter in \<open>auto split: phase.splits option.splits if_splits\<close>)
next
  case (UFlock g fault)
  with st inv show ?thesis by (auto simp: lock_inv_def split: phase.splits if_splits)
next
  case (URead g io)
  show ?thesis by (rule lock_inv_phase [OF inv]) (use st URead in \<open>auto split: phase.splits sum.splits if_splits\<close>)
next
  case (UWrite g faults)
  show ?thesis by (rule lock_inv_phase [OF inv]) (use st UWrite in \<open>auto split: phase.splits sum.splits prod.splits if_splits\<close>)
next
  case (ULeave g)
  then obtain own r where ph: "sy_phase s g = Leaving own r" and s': "s' = s\<lparr>sy_flock := (if own then None else sy_flock s),
      sy_mu := (sy_mu s)(proc g := None), sy_phase := (sy_phase s)(g := Idle)\<rparr>"
    using st by (auto split: phase.splits)
  show ?thesis
  proof (cases own)
    case True
    with ph inv have fl: "sy_flock s = Some (OneShot g)" by (auto simp: lock_inv_def dest: spec [of _ g])
    with inv have "sy_held s pid = None" for pid by (auto simp: lock_inv_def)
    moreover have "\<not> owns (sy_phase s g')" if "g' \<noteq> g" for g' using inv fl that by (auto simp: lock_inv_def)
    ultimately show ?thesis using s' True by (auto simp: lock_inv_def)
  next
    case False
    with s' show ?thesis by (intro lock_inv_phase [OF inv]) (auto split: if_splits)
  qed
next
  case (LLock pid fault ok)
  with st lock_inv_take [OF inv] show ?thesis by auto
next
  case (LRelease pid lk)
  with st lock_inv_release [OF inv] show ?thesis by auto
qed

text \<open>What stays as long as the release function of the lock is not called.\<close>

definition held_by :: "nat \<Rightarrow> nat \<Rightarrow> gostring option \<Rightarrow> sys \<Rightarrow> bool" where
  "held_by pid lk sidecar s \<longleftrightarrow> lock_inv s \<and> sy_held s pid = Some lk \<and> sy_sidecar s = sidecar"

lemma held_by_flock: "held_by pid lk sidecar s \<Longrightarrow> sy_flock s = Some (Lifetime pid)"
  by (auto simp: held_by_def lock_inv_def)

lemma held_by_alone: "held_by pid lk sidecar s \<Longrightarrow> pid' \<noteq> pid \<Longrightarrow> sy_held s pid' = None"
  unfolding held_by_def using lock_inv_alone [of s pid lk pid'] by blast

lemma step_keeps_sidecar:
  "sys_step pj op proc (UEnter g fn) s = Some s' \<Longrightarrow> sy_held s' = sy_held s \<and> sy_sidecar s' = sy_sidecar s"
  "sys_step pj op proc (UFlock g fault) s = Some s' \<Longrightarrow> sy_held s' = sy_held s \<and> sy_sidecar s' = sy_sidecar s"
  "sys_step pj op proc (URead g io) s = Some s' \<Longrightarrow> sy_held s' = sy_held s \<and> sy_sidecar s' = sy_sidecar s"
  "sys_step pj op proc (UWrite g faults) s = Some s' \<Longrightarrow> sy_held s' = sy_held s \<and> sy_sidecar s' = sy_sidecar s"
  "sys_step pj op proc (ULeave g) s = Some s' \<Longrightarrow> sy_held s' = sy_held s \<and> sy_sidecar s' = sy_sidecar s"
  by (auto split: phase.splits option.splits if_splits sum.splits prod.splits)

lemma held_by_step:
  assumes h: "held_by pid lk sidecar s" and st: "sys_step pj op proc ev s = Some s'" and ev: "ev \<noteq> LRelease pid lk"
  shows "held_by pid lk sidecar s'"
proof -
  have inv: "lock_inv s'" using lock_inv_step [OF _ st] h by (simp add: held_by_def)
  have fl: "sy_flock s = Some (Lifetime pid)" by (rule held_by_flock [OF h])
  have "sy_held s' pid = Some lk \<and> sy_sidecar s' = sidecar"
  proof (cases ev)
    case (LRelease pid' lk')
    show ?thesis
    proof (cases "pid' = pid")
      case True
      with LRelease ev st h show ?thesis by (auto simp: release_def held_by_def)
    next
      case False
      with held_by_alone [OF h False] LRelease st h show ?thesis by (auto simp: release_def held_by_def)
    qed
  next
    case (LLock pid' fault ok)
    have "snd (LockForLifetime [] fault ok pid' s) = s" using fl by (simp add: LockForLifetime_def split: option.split)
    with LLock st h show ?thesis by (simp add: held_by_def)
  next
    case (UEnter g fn)
    show ?thesis using step_keeps_sidecar(1) [OF st [unfolded UEnter]] h by (simp add: held_by_def)
  next
    case (UFlock g fault)
    show ?thesis using step_keeps_sidecar(2) [OF st [unfolded UFlock]] h by (simp add: held_by_def)
  next
    case (URead g io)
    show ?thesis using step_keeps_sidecar(3) [OF st [unfolded URead]] h by (simp add: held_by_def)
  next
    case (UWrite g faults)
    show ?thesis using step_keeps_sidecar(4) [OF st [unfolded UWrite]] h by (simp add: held_by_def)
  next
    case (ULeave g)
    show ?thesis using step_keeps_sidecar(5) [OF st [unfolded ULeave]] h by (simp add: held_by_def)
  qed
  with inv show ?thesis by (simp add: held_by_def)
qed

lemma held_by_run:
  "held_by pid lk sidecar s \<Longrightarrow> sys_run pj op proc evs s = Some s' \<Longrightarrow> LRelease pid lk \<notin> set evs \<Longrightarrow> held_by pid lk sidecar s'"
  by (induction pj op proc evs s rule: sys_run.induct) (auto split: option.splits dest: held_by_step)

lemma lock_inv_run: "lock_inv s \<Longrightarrow> sys_run pj op proc evs s = Some s' \<Longrightarrow> lock_inv s'"
  by (induction pj op proc evs s rule: sys_run.induct) (auto split: option.splits dest: lock_inv_step)

lemma take_held_by:
  assumes "lock_inv s" and "LockForLifetime path None ok pid s = (Inr lk, s')"
  shows "held_by pid lk (if ok then Some (writeHolderPID pid) else sy_sidecar s) s'"
  using assms lock_inv_take [OF assms(1), of path None ok pid]
  by (auto simp: held_by_def LockForLifetime_def split: if_splits option.splits)

text \<open>
  C16: The lifetime lock.  From when a process has taken it until it calls the release function it was
  given, whatever the others and its own updates do, every other \<^verbatim>\<open>LockForLifetime\<close> is refused at once,
  naming the holder if the holder's sidecar could be written, and the holder is told that it already has the lock.
  The release frees the lock, a second call of it changes nothing, and so do the release functions
  of earlier locks of the process.
\<close>

theorem lifetime_lock_exclusive:
  assumes "sys_run pj op proc before (sys_init fs) = Some s" and "LockForLifetime path None ok pid s = (Inr lk, s1)"
    and "sys_run pj op proc after s1 = Some s2" and "LRelease pid lk \<notin> set after" and "pid' \<noteq> pid" and "int pid \<le> max_int64"
  shows "(\<exists>holder. LockForLifetime path None ok' pid' s2 = (Inl (ErrLockHeld path holder), s2) \<and> (ok \<longrightarrow> holder = int pid))
    \<and> LockForLifetime path fault ok' pid s2 = (Inl ErrLockedTwice, s2)
    \<and> (\<exists>lk'. fst (LockForLifetime path None ok' pid' (release pid lk s2)) = Inr lk')
    \<and> release pid lk (release pid lk s2) = release pid lk s2
    \<and> (\<forall>lk'. lk' \<noteq> lk \<longrightarrow> release pid lk' s2 = s2)"
proof -
  let ?car = "if ok then Some (writeHolderPID pid) else sy_sidecar s"
  have h: "held_by pid lk ?car s2"
    by (rule held_by_run [OF take_held_by [OF lock_inv_run [OF lock_inv_init assms(1)] assms(2)] assms(3,4)])
  have fl: "sy_flock s2 = Some (Lifetime pid)" "sy_held s2 pid' = None" "sy_held s2 pid = Some lk" "sy_sidecar s2 = ?car"
    using held_by_flock [OF h] held_by_alone [OF h assms(5)] h by (simp_all add: held_by_def)
  have "readHolderPID ?car = int pid" if ok using that holder_pid_roundtrip [OF assms(6)] by simp
  then have refused: "\<exists>holder. LockForLifetime path None ok' pid' s2 = (Inl (ErrLockHeld path holder), s2) \<and> (ok \<longrightarrow> holder = int pid)"
    using fl(1,2,4) by (simp add: LockForLifetime_def)
  have twice: "LockForLifetime path fault ok' pid s2 = (Inl ErrLockedTwice, s2)" using fl(3) by (simp add: LockForLifetime_def)
  have free: "\<exists>lk'. fst (LockForLifetime path None ok' pid' (release pid lk s2)) = Inr lk'"
    using fl(2,3) assms(5) by (simp add: LockForLifetime_def release_def)
  have "release pid lk (release pid lk s2) = release pid lk s2" "\<forall>lk'. lk' \<noteq> lk \<longrightarrow> release pid lk' s2 = s2"
    using fl(3) by (simp_all add: release_def)
  with refused twice free show ?thesis by blast
qed

theorem lifetime_lock_exclusive_witness:
  "fst (LockForLifetime [] None True 9 (snd (LockForLifetime [] None True 7 (sys_init blank_fs)))) = Inl (ErrLockHeld [] 7)"
proof -
  let ?s1 = "snd (LockForLifetime [] None True 7 (sys_init blank_fs))"
  have take: "LockForLifetime [] None True 7 (sys_init blank_fs) = (Inr 0, ?s1)" by (simp add: LockForLifetime_def sys_init_def)
  have "\<exists>holder. LockForLifetime [] None True 9 ?s1 = (Inl (ErrLockHeld [] holder), ?s1) \<and> (True \<longrightarrow> holder = int 7)"
    by (rule lifetime_lock_exclusive [THEN conjunct1, OF sys_run.simps(1) take sys_run.simps(1)]) (simp_all add: max_int64_def)
  then show ?thesis by (elim exE conjE) simp
qed

text \<open>The stamps of an existing file are never brought up to date.\<close>

lemma stamps_kept:
  "ev_schema_version env \<noteq> [] \<Longrightarrow> ev_schema_version (stamp_envelope op env) = ev_schema_version env"
  "ev_backend env \<noteq> [] \<Longrightarrow> ev_backend (stamp_envelope op env) = ev_backend env"
  by (simp_all add: stamp_envelope_def)

end
