(* ===== verification/Float_Rounding.thy ===== *)
theory Float_Rounding
  imports Prelude Complex_Main
begin

text \<open>
  The \<^verbatim>\<open>float64\<close> arithmetic of the memory budget: a value is a rational and every operation
  rounds its exact result to 53 significant bits, half to even.  The exponent is not bounded: the
  budget multiplies a 64-bit count by at most a few 32-bit ones, so its values stay far from the
  overflow threshold and from the subnormal numbers.  What the budget's lemmas need of rounding
  is the locale \<open>rounding\<close>.
\<close>

definition round_half_even :: "rat \<Rightarrow> int" where
  "round_half_even x =
     (let f = \<lfloor>x\<rfloor>; d = x - of_int f in
      if d < 1 / 2 then f else if 1 / 2 < d then f + 1 else if even f then f else f + 1)"

fun ilog :: "int \<Rightarrow> nat" where
  "ilog n = (if n < 2 then 0 else Suc (ilog (n div 2)))"

declare ilog.simps [simp del]

definition binade :: "rat \<Rightarrow> int" where
  "binade x = (if 1 \<le> x then int (ilog \<lfloor>x\<rfloor>) else - int (ilog \<lfloor>1 / x\<rfloor>) - 1)"

text \<open>The unit in the last place of a positive value.\<close>

definition ulp :: "rat \<Rightarrow> rat" where
  "ulp x = 2 powi (binade x - 52)"

definition fl64 :: "rat \<Rightarrow> rat" where
  "fl64 x =
     (if x = 0 then 0
      else if x < 0 then - (of_int (round_half_even (- x / ulp (- x))) * ulp (- x))
      else of_int (round_half_even (x / ulp x)) * ulp x)"

text \<open>\<^verbatim>\<open>int64(x)\<close>: truncation; out of range the conversion of amd64 gives the smallest integer.\<close>

definition to_int64 :: "rat \<Rightarrow> int" where
  "to_int64 x =
     (let n = (if x < 0 then \<lceil>x\<rceil> else \<lfloor>x\<rfloor>) in
      if min_int64 \<le> n \<and> n \<le> max_int64 then n else min_int64)"

locale rounding =
  fixes fl :: "rat \<Rightarrow> rat"
  assumes fl_mono: "x \<le> y \<Longrightarrow> fl x \<le> fl y"
    and fl_zero: "fl 0 = 0"
begin

lemma fl_nonneg: "0 \<le> x \<Longrightarrow> 0 \<le> fl x"
  using fl_mono [of 0 x] fl_zero by simp

lemma fl_mult_mono: "x \<le> y \<Longrightarrow> 0 \<le> c \<Longrightarrow> fl (x * c) \<le> fl (y * c)"
  by (intro fl_mono mult_right_mono)

lemma fl_divide_anti: "0 \<le> x \<Longrightarrow> 0 < c \<Longrightarrow> c \<le> d \<Longrightarrow> fl (x / d) \<le> fl (x / c)"
  by (intro fl_mono divide_left_mono) auto

end

subsection \<open>Rounding is monotone\<close>

lemma round_half_even_bounds: "\<lfloor>x\<rfloor> \<le> round_half_even x" "round_half_even x \<le> \<lfloor>x\<rfloor> + 1"
  by (simp_all add: round_half_even_def Let_def)

lemma round_half_even_int [simp]: "round_half_even (of_int n) = n"
  by (simp add: round_half_even_def)

lemma round_half_even_mono:
  assumes "x \<le> y"
  shows "round_half_even x \<le> round_half_even y"
proof (cases "\<lfloor>x\<rfloor> = \<lfloor>y\<rfloor>")
  case True
  with assms show ?thesis by (auto simp: round_half_even_def Let_def)
next
  case False
  with floor_mono [OF assms] have "\<lfloor>x\<rfloor> + 1 \<le> \<lfloor>y\<rfloor>" by simp
  with round_half_even_bounds(2) [of x] round_half_even_bounds(1) [of y] show ?thesis by simp
qed

lemma ilog_bounds: "0 < n \<Longrightarrow> 2 ^ ilog n \<le> n \<and> n < 2 ^ Suc (ilog n)"
proof (induction n rule: ilog.induct)
  case (1 n)
  show ?case
  proof (cases "n < 2")
    case True
    with 1(2) show ?thesis by (simp add: ilog.simps [of n])
  next
    case False
    then have "2 ^ ilog (n div 2) \<le> n div 2 \<and> n div 2 < 2 ^ Suc (ilog (n div 2))"
      using 1(1) by simp
    with False show ?thesis by (simp add: ilog.simps [of n]) linarith
  qed
qed

lemma floor_ilog:
  fixes x :: rat
  assumes "1 \<le> x"
  shows "2 ^ ilog \<lfloor>x\<rfloor> \<le> x" "x < 2 ^ Suc (ilog \<lfloor>x\<rfloor>)"
proof -
  have b: "2 ^ ilog \<lfloor>x\<rfloor> \<le> \<lfloor>x\<rfloor>" "\<lfloor>x\<rfloor> + 1 \<le> 2 ^ Suc (ilog \<lfloor>x\<rfloor>)"
    using ilog_bounds [of "\<lfloor>x\<rfloor>"] assms by simp_all
  have "(of_int (2 ^ ilog \<lfloor>x\<rfloor>) :: rat) \<le> of_int \<lfloor>x\<rfloor>" using b(1) by (simp only: of_int_le_iff)
  also have "\<dots> \<le> x" by simp
  finally show "2 ^ ilog \<lfloor>x\<rfloor> \<le> x" by simp
  have "x < of_int (\<lfloor>x\<rfloor> + 1)" using floor_correct [of x] by linarith
  also have "\<dots> \<le> of_int (2 ^ Suc (ilog \<lfloor>x\<rfloor>))" using b(2) by (simp only: of_int_le_iff)
  finally show "x < 2 ^ Suc (ilog \<lfloor>x\<rfloor>)" by simp
qed

lemma binade_bounds:
  assumes "0 < x"
  shows "2 powi binade x \<le> x" "x \<le> 2 powi (binade x + 1)"
proof -
  consider "1 \<le> x" | "x < 1" by linarith
  then have "2 powi binade x \<le> x \<and> x \<le> 2 powi (binade x + 1)"
  proof cases
    case 1
    let ?k = "ilog \<lfloor>x\<rfloor>"
    have k: "binade x = int ?k" "binade x + 1 = int (Suc ?k)" using 1 by (simp_all add: binade_def)
    have "2 ^ ?k \<le> x" "x \<le> 2 ^ Suc ?k" using floor_ilog [OF 1] by (simp_all only: less_imp_le)
    then show ?thesis unfolding k(2) unfolding k(1) power_int_of_nat by (rule conjI)
  next
    case 2
    let ?k = "ilog \<lfloor>1 / x\<rfloor>"
    have inv: "1 \<le> 1 / x" using 2 assms by simp
    have k: "binade x = - int (Suc ?k)" "binade x + 1 = - int ?k" using 2 by (simp_all add: binade_def)
    have lo: "inverse (2 ^ Suc ?k) \<le> x"
      using le_imp_inverse_le [OF less_imp_le [OF floor_ilog(2) [OF inv]]] assms
      by (simp only: zero_less_divide_1_iff inverse_eq_divide divide_divide_eq_right mult_1_left div_by_1)
    have hi: "x \<le> inverse (2 ^ ?k)"
      using le_imp_inverse_le [OF floor_ilog(1) [OF inv]]
      by (simp only: zero_less_power zero_less_numeral inverse_eq_divide divide_divide_eq_right mult_1_left div_by_1)
    show ?thesis unfolding k(2) unfolding k(1) power_int_minus power_int_of_nat using lo hi by (rule conjI)
  qed
  then show "2 powi binade x \<le> x" "x \<le> 2 powi (binade x + 1)" by auto
qed

lemma binade_mono:
  assumes "0 < x" "x \<le> y"
  shows "binade x \<le> binade y"
proof (rule ccontr)
  assume "\<not> binade x \<le> binade y"
  then have "(2 :: rat) powi (binade y + 1) \<le> 2 powi binade x"
    by (intro power_int_increasing) auto
  with binade_bounds(1) [OF assms(1)] binade_bounds(2) [of y] assms have "x = y" by linarith
  with \<open>\<not> binade x \<le> binade y\<close> show False by simp
qed

lemma ulp_pos: "0 < ulp x"
  by (simp add: ulp_def)

lemma ulp_scale: "(2 :: rat) powi (binade x + k) = 2 powi (k + 52) * ulp x"
  by (simp add: ulp_def add.commute flip: power_int_add)

definition fl_pos :: "rat \<Rightarrow> rat" where
  "fl_pos x = of_int (round_half_even (x / ulp x)) * ulp x"

lemma fl_pos_bounds:
  assumes "0 < x"
  shows "2 powi binade x \<le> fl_pos x" "fl_pos x \<le> 2 powi (binade x + 1)"
proof -
  have "of_int (2 ^ 52) \<le> x / ulp x" "x / ulp x \<le> of_int (2 ^ 53)"
    using binade_bounds [OF assms] ulp_scale [of x 0] ulp_scale [of x 1] ulp_pos [of x]
    by (simp_all add: field_simps)
  then have "2 ^ 52 \<le> round_half_even (x / ulp x)" "round_half_even (x / ulp x) \<le> 2 ^ 53"
    using round_half_even_mono round_half_even_int by metis+
  then have "of_int (2 ^ 52) \<le> (of_int (round_half_even (x / ulp x)) :: rat)"
    "(of_int (round_half_even (x / ulp x)) :: rat) \<le> of_int (2 ^ 53)"
    by (simp_all only: of_int_le_iff)
  then show "2 powi binade x \<le> fl_pos x" "fl_pos x \<le> 2 powi (binade x + 1)"
    using ulp_scale [of x 0] ulp_scale [of x 1] ulp_pos [of x] by (simp_all add: fl_pos_def)
qed

lemma fl_pos_mono:
  assumes "0 < x" "x \<le> y"
  shows "fl_pos x \<le> fl_pos y"
proof (cases "binade x = binade y")
  case True
  then have "ulp x = ulp y" by (simp add: ulp_def)
  with assms round_half_even_mono [of "x / ulp y" "y / ulp y"] ulp_pos [of y] show ?thesis
    by (simp add: fl_pos_def divide_right_mono mult_right_mono)
next
  case False
  with binade_mono [OF assms] have "(2 :: rat) powi (binade x + 1) \<le> 2 powi binade y"
    by (intro power_int_increasing) auto
  with fl_pos_bounds(2) [OF assms(1)] fl_pos_bounds(1) [of y] assms show ?thesis by linarith
qed

lemma fl_pos_nonneg: "0 < x \<Longrightarrow> 0 \<le> fl_pos x"
  using fl_pos_bounds(1) [of x] by (meson order_trans zero_le_power_int zero_le_numeral)

lemma fl64_alt: "fl64 x = (if x = 0 then 0 else if x < 0 then - fl_pos (- x) else fl_pos x)"
  by (simp add: fl64_def fl_pos_def)

lemma fl64_mono: "x \<le> y \<Longrightarrow> fl64 x \<le> fl64 y"
  using fl_pos_mono [of x y] fl_pos_mono [of "- y" "- x"] fl_pos_nonneg [of y] fl_pos_nonneg [of "- x"]
  by (auto simp: fl64_alt)

interpretation float64: rounding fl64
  by unfold_locales (simp_all add: fl64_mono, simp add: fl64_def)

interpretation exact: rounding "\<lambda>x. x"
  by unfold_locales simp_all

lemma to_int64_in_range: "min_int64 \<le> to_int64 x \<and> to_int64 x \<le> max_int64"
  by (simp add: to_int64_def Let_def min_int64_def max_int64_def)

lemma to_int64_floor: "0 \<le> x \<Longrightarrow> x \<le> of_int max_int64 \<Longrightarrow> to_int64 x = \<lfloor>x\<rfloor>"
  by (simp add: to_int64_def Let_def min_int64_def floor_le_iff)

lemma to_int64_mono: "0 \<le> x \<Longrightarrow> x \<le> y \<Longrightarrow> y < 2 ^ 60 \<Longrightarrow> 0 \<le> to_int64 x \<and> to_int64 x \<le> to_int64 y \<and> to_int64 y < 2 ^ 60"
proof -
  assume h: "0 \<le> x" "x \<le> y" "y < 2 ^ 60"
  then have "y < of_int (2 ^ 60)" by simp
  then have "\<lfloor>y\<rfloor> < 2 ^ 60" by (simp only: floor_less_iff)
  moreover have "0 \<le> \<lfloor>x\<rfloor>" "\<lfloor>x\<rfloor> \<le> \<lfloor>y\<rfloor>" using h by (auto intro: floor_mono)
  ultimately show ?thesis using h by (simp add: to_int64_def Let_def min_int64_def max_int64_def)
qed

end
