(* ===== verification/Vram_Budget.thy ===== *)
theory Vram_Budget
  imports Float_Rounding
begin

text \<open>
  The memory budget (\<^verbatim>\<open>internal/vrambudget/vrambudget.go\<close>): what weights, cache, activations and
  overhead claim of one card, the verdict against a card, the sweep over card counts and the
  session count.  Counts are 32- and 64-bit integers with their wrap-around, \<^verbatim>\<open>float64\<close>
  expressions round after every operation; the rounding is the argument \<open>fl\<close>, which is
  \<open>fl64\<close> for the program.
\<close>

subsection \<open>Architecture, precision and plan\<close>

record arch =
  ar_params :: int
  ar_layers :: int
  ar_kv_heads :: int
  ar_head_dim :: int
  ar_hidden_size :: int
  ar_num_experts :: int
  ar_num_experts_per_tok :: int
  ar_moe_intermediate_size :: int
  ar_dense_layers :: int
  ar_routed_expert_hidden_size :: int
  ar_kv_lora_rank :: int
  ar_qk_rope_head_dim :: int
  ar_full_attention_layers :: int
  ar_mtp_layers :: int
  ar_quantization :: gostring

datatype budget_error =
    ErrNoArch | ErrParams | ErrLayers | ErrKvHeads | ErrHeadDim
  | ErrWeightPrecision | ErrCachePrecision | ErrMaxModelLen | ErrMaxBatch
  | ErrPrecisionRequired | ErrUnknownPrecision | ErrCardMemory | ErrTensorWidth
  | ErrDoesNotFit | ErrFreeSession | PanicDivide

definition ValidateArch :: "arch option \<Rightarrow> budget_error + arch" where
  "ValidateArch a =
     (case a of
        None \<Rightarrow> Inl ErrNoArch
      | Some a \<Rightarrow>
          if ar_params a \<le> 0 then Inl ErrParams
          else if ar_layers a \<le> 0 then Inl ErrLayers
          else if 0 < ar_kv_lora_rank a then Inr a
          else if ar_kv_heads a \<le> 0 then Inl ErrKvHeads
          else if ar_head_dim a \<le> 0 then Inl ErrHeadDim
          else Inr a)"

type_synonym precision = gostring

abbreviation PrecisionFP16 :: precision where "PrecisionFP16 \<equiv> ''fp16''"
abbreviation PrecisionBF16 :: precision where "PrecisionBF16 \<equiv> ''bf16''"
abbreviation PrecisionFP8 :: precision where "PrecisionFP8 \<equiv> ''fp8''"
abbreviation PrecisionINT8 :: precision where "PrecisionINT8 \<equiv> ''int8''"
abbreviation PrecisionAWQ :: precision where "PrecisionAWQ \<equiv> ''awq''"
abbreviation PrecisionGPTQ :: precision where "PrecisionGPTQ \<equiv> ''gptq''"
abbreviation PrecisionMXFP4 :: precision where "PrecisionMXFP4 \<equiv> ''mxfp4''"

definition ParsePrecision :: "gostring \<Rightarrow> budget_error + precision" where
  "ParsePrecision s =
     (let p = to_lower (trim_space s) in
      if p \<in> set [PrecisionFP16, PrecisionBF16, PrecisionFP8, PrecisionINT8, PrecisionAWQ,
                  PrecisionGPTQ, PrecisionMXFP4] then Inr p
      else if p = [] then Inl ErrPrecisionRequired
      else Inl ErrUnknownPrecision)"

definition BytesPerParam :: "(rat \<Rightarrow> rat) \<Rightarrow> precision \<Rightarrow> rat" where
  "BytesPerParam fl p =
     (if p = PrecisionFP16 \<or> p = PrecisionBF16 then 2
      else if p = PrecisionFP8 \<or> p = PrecisionINT8 then 1
      else if p = PrecisionAWQ \<or> p = PrecisionGPTQ then fl (60 / 100)
      else if p = PrecisionMXFP4 then fl (57 / 100)
      else 0)"

definition BytesPerCacheElement :: "precision \<Rightarrow> int" where
  "BytesPerCacheElement p =
     (if p = PrecisionFP16 \<or> p = PrecisionBF16 then 2
      else if p \<in> set [PrecisionFP8, PrecisionINT8, PrecisionAWQ, PrecisionGPTQ, PrecisionMXFP4] then 1
      else 0)"

record plan =
  pn_weights :: precision
  pn_kv_cache :: precision
  pn_max_model_len :: int
  pn_max_batch :: int
  pn_tp_size :: int
  pn_ep_size :: int

definition cacheDtype :: "plan \<Rightarrow> precision" where
  "cacheDtype p = (if pn_kv_cache p = [] then pn_weights p else pn_kv_cache p)"

definition TensorWidth :: "plan \<Rightarrow> int" where
  "TensorWidth p = (if pn_tp_size p < 1 then 1 else pn_tp_size p)"

definition expertCards :: "plan \<Rightarrow> int" where
  "expertCards p = (if pn_ep_size p < 1 then TensorWidth p else pn_ep_size p)"

definition plan_Validate :: "(rat \<Rightarrow> rat) \<Rightarrow> plan \<Rightarrow> budget_error + unit" where
  "plan_Validate fl p =
     (if BytesPerParam fl (pn_weights p) = 0 then Inl ErrWeightPrecision
      else if BytesPerCacheElement (cacheDtype p) = 0 then Inl ErrCachePrecision
      else if pn_max_model_len p \<le> 0 then Inl ErrMaxModelLen
      else if pn_max_batch p \<le> 0 then Inl ErrMaxBatch
      else Inr ())"

subsection \<open>Shares of the model\<close>

definition ffnMatrices :: int where "ffnMatrices = 3"

definition moeLayers :: "arch \<Rightarrow> int" where
  "moeLayers a =
     (let n = wrap32 (wrap32 (ar_layers a - ar_dense_layers a) + ar_mtp_layers a) in
      if n < 0 then 0 else n)"

definition expertParams :: "arch \<Rightarrow> int" where
  "expertParams a =
     (let width = (if ar_routed_expert_hidden_size a \<le> 0 then ar_hidden_size a
                   else ar_routed_expert_hidden_size a) in
      wrap64 (wrap64 (ffnMatrices * width) * ar_moe_intermediate_size a))"

definition RoutedExpertParams :: "arch \<Rightarrow> int" where
  "RoutedExpertParams a =
     (if ar_num_experts a \<le> 0 then 0
      else if moeLayers a \<le> 0 \<or> expertParams a \<le> 0 then 0
      else wrap64 (wrap64 (moeLayers a * ar_num_experts a) * expertParams a))"

definition ActiveParams :: "arch \<Rightarrow> int" where
  "ActiveParams a =
     (let total = ar_params a; resident = RoutedExpertParams a; active = ar_num_experts_per_tok a in
      if total \<le> 0 then 0
      else if ar_num_experts a \<le> 0 then total
      else if resident \<le> 0 then 0
      else if active \<le> 0 \<or> ar_num_experts a < active then 0
      else if total \<le> resident then 0
      else wrap64 (wrap64 (total - resident) + wrap64 (wrap64 (moeLayers a * active) * expertParams a)))"

definition CachingLayers :: "arch \<Rightarrow> int" where
  "CachingLayers a =
     (if 0 < ar_full_attention_layers a \<and> ar_full_attention_layers a < ar_layers a
      then ar_full_attention_layers a else ar_layers a)"

definition LatentCache :: "arch \<Rightarrow> bool" where
  "LatentCache a \<longleftrightarrow> 0 < ar_kv_lora_rank a"

definition KVBytesPerToken :: "arch \<Rightarrow> precision \<Rightarrow> int" where
  "KVBytesPerToken a cache =
     (if LatentCache a then
        wrap64 (wrap64 (CachingLayers a * wrap64 (ar_kv_lora_rank a + ar_qk_rope_head_dim a))
          * BytesPerCacheElement cache)
      else
        wrap64 (wrap64 (wrap64 (wrap64 (2 * CachingLayers a) * ar_kv_heads a) * ar_head_dim a)
          * BytesPerCacheElement cache))"

subsection \<open>The budget\<close>

definition weightBytesPerCard :: "(rat \<Rightarrow> rat) \<Rightarrow> arch \<Rightarrow> plan \<Rightarrow> int" where
  "weightBytesPerCard fl a p =
     (let bytesPerParam = BytesPerParam fl (pn_weights p);
          routed = RoutedExpertParams a in
      to_int64 (fl
        (fl (fl (fl (of_int (wrap64 (ar_params a - routed))) * bytesPerParam) / of_int (TensorWidth p))
         + fl (fl (fl (of_int routed) * bytesPerParam) / of_int (expertCards p)))))"

record budget =
  bg_cards :: int
  bg_weight :: int
  bg_kv :: int
  bg_activation :: int
  bg_overhead :: int
  bg_kv_per_token :: int
  bg_active_params :: int
  bg_active_weight :: int

definition WorkingSetBytes :: "budget \<Rightarrow> int" where
  "WorkingSetBytes b = wrap64 (wrap64 (bg_weight b + bg_kv b) + bg_activation b)"

definition TotalBytes :: "budget \<Rightarrow> int" where
  "TotalBytes b = wrap64 (WorkingSetBytes b + bg_overhead b)"

definition OverheadFraction :: rat where "OverheadFraction = 15 / 100"
definition ActivationFactor :: rat where "ActivationFactor = 15 / 10"
definition activationElementBytes :: rat where "activationElementBytes = 2"

text \<open>The two products of \<^verbatim>\<open>Compute\<close>, over the whole engine.\<close>

definition kv_total :: "(rat \<Rightarrow> rat) \<Rightarrow> arch \<Rightarrow> plan \<Rightarrow> rat" where
  "kv_total fl a p =
     fl (fl (fl (of_int (KVBytesPerToken a (cacheDtype p))) * of_int (pn_max_model_len p))
         * of_int (pn_max_batch p))"

definition activation_total :: "(rat \<Rightarrow> rat) \<Rightarrow> arch \<Rightarrow> plan \<Rightarrow> rat" where
  "activation_total fl a p =
     fl (fl (fl (fl (of_int (pn_max_batch p) * of_int (pn_max_model_len p)) * of_int (ar_hidden_size a))
             * activationElementBytes) * ActivationFactor)"

definition budget_of :: "(rat \<Rightarrow> rat) \<Rightarrow> arch \<Rightarrow> plan \<Rightarrow> budget" where
  "budget_of fl a p =
     (let cards = TensorWidth p;
          perCard = (\<lambda>total. to_int64 (fl (total / of_int cards)));
          b = \<lparr>bg_cards = cards,
               bg_weight = weightBytesPerCard fl a p,
               bg_kv = (if LatentCache a then to_int64 (kv_total fl a p) else perCard (kv_total fl a p)),
               bg_activation = perCard (activation_total fl a p),
               bg_overhead = 0,
               bg_kv_per_token = KVBytesPerToken a (cacheDtype p),
               bg_active_params = ActiveParams a,
               bg_active_weight = to_int64 (fl (fl (of_int (ActiveParams a)) * BytesPerParam fl (pn_weights p)))\<rparr> in
      b\<lparr>bg_overhead := to_int64 (fl (fl (of_int (WorkingSetBytes b)) * fl OverheadFraction))\<rparr>)"

definition Compute :: "(rat \<Rightarrow> rat) \<Rightarrow> arch option \<Rightarrow> plan \<Rightarrow> budget_error + budget" where
  "Compute fl a p =
     bindE (ValidateArch a) (\<lambda>a. bindE (plan_Validate fl p) (\<lambda>_. Inr (budget_of fl a p)))"

datatype verdict = Fits | Tight | Overcommitted

definition Against :: "budget \<Rightarrow> int \<Rightarrow> verdict" where
  "Against b usable =
     (if TotalBytes b \<le> usable then Fits
      else if WorkingSetBytes b \<le> usable then Tight
      else Overcommitted)"

definition DefaultUtilization :: rat where "DefaultUtilization = 9 / 10"

definition UsableBytes :: "(rat \<Rightarrow> rat) \<Rightarrow> int \<Rightarrow> rat \<Rightarrow> int" where
  "UsableBytes fl cardBytes utilization =
     (let u = (if utilization \<le> 0 \<or> 1 < utilization then fl DefaultUtilization else utilization) in
      to_int64 (fl (fl (of_int cardBytes) * u)))"

subsection \<open>Sessions\<close>

text \<open>What one session claims of a card.\<close>

definition session_cache :: "(rat \<Rightarrow> rat) \<Rightarrow> arch \<Rightarrow> plan \<Rightarrow> int \<Rightarrow> rat" where
  "session_cache fl a p contextLen =
     (let c = fl (fl (of_int (KVBytesPerToken a (cacheDtype p))) * of_int contextLen) in
      if LatentCache a then c else fl (c / of_int (TensorWidth p)))"

definition session_activation :: "(rat \<Rightarrow> rat) \<Rightarrow> arch \<Rightarrow> plan \<Rightarrow> int \<Rightarrow> rat" where
  "session_activation fl a p contextLen =
     fl (fl (fl (fl (of_int contextLen * of_int (ar_hidden_size a)) * activationElementBytes) * ActivationFactor)
         / of_int (TensorWidth p))"

definition MaxSessions :: "(rat \<Rightarrow> rat) \<Rightarrow> arch option \<Rightarrow> plan \<Rightarrow> int \<Rightarrow> rat \<Rightarrow> budget_error + int" where
  "MaxSessions fl a p cardBytes utilization =
     bindE (ValidateArch a) (\<lambda>a.
     bindE (plan_Validate fl (p\<lparr>pn_max_batch := 1\<rparr>)) (\<lambda>_.
       if cardBytes \<le> 0 then Inl ErrCardMemory
       else
         let usable = fl (of_int (UsableBytes fl cardBytes utilization));
             room = fl (fl (usable / fl (1 + OverheadFraction)) - fl (of_int (weightBytesPerCard fl a p)));
             perSession = fl (session_cache fl a p (pn_max_model_len p)
                              + session_activation fl a p (pn_max_model_len p)) in
         if room \<le> 0 then Inr 0
         else if perSession \<le> 0 then Inl ErrFreeSession
         else Inr (to_int64 (fl (room / perSession)))))"

definition SessionCost :: "(rat \<Rightarrow> rat) \<Rightarrow> arch \<Rightarrow> plan \<Rightarrow> int \<Rightarrow> int \<times> int" where
  "SessionCost fl a p contextLen =
     (to_int64 (session_cache fl a p contextLen), to_int64 (session_activation fl a p contextLen))"

subsection \<open>Sweeps\<close>

datatype skip = SkipRanks | SkipExperts | SkipHeads
datatype sweepAxis = TensorAxis | ExpertAxis

record candidate_row =
  cr_cards :: int
  cr_budget :: "budget option"
  cr_verdict :: verdict
  cr_skip :: "skip option"

text \<open>A zero modulus panics; \<open>x % n == 0\<close> is divisibility otherwise.\<close>

definition skipReason :: "arch \<Rightarrow> int \<Rightarrow> int \<Rightarrow> sweepAxis \<Rightarrow> budget_error + skip option" where
  "skipReason a n tp axis =
     (case axis of
        ExpertAxis \<Rightarrow>
          if \<not> tp dvd n then Inr (Some SkipRanks)
          else if 0 < ar_num_experts a then
            (if n = 0 then Inl PanicDivide
             else if \<not> n dvd ar_num_experts a then Inr (Some SkipExperts) else Inr None)
          else Inr None
      | TensorAxis \<Rightarrow>
          if 1 < n \<and> \<not> LatentCache a \<and> \<not> n dvd ar_kv_heads a then Inr (Some SkipHeads)
          else Inr None)"

definition sweep_row ::
  "(rat \<Rightarrow> rat) \<Rightarrow> arch \<Rightarrow> plan \<Rightarrow> int \<Rightarrow> sweepAxis \<Rightarrow> int \<Rightarrow> budget_error + candidate_row" where
  "sweep_row fl a p usable axis n =
     bindE (skipReason a n (TensorWidth p) axis) (\<lambda>reason.
       case reason of
         Some r \<Rightarrow> Inr \<lparr>cr_cards = n, cr_budget = None, cr_verdict = Fits, cr_skip = Some r\<rparr>
       | None \<Rightarrow>
           bindE (Compute fl (Some a)
                    (case axis of ExpertAxis \<Rightarrow> p\<lparr>pn_ep_size := n\<rparr> | TensorAxis \<Rightarrow> p\<lparr>pn_tp_size := n\<rparr>)) (\<lambda>b.
             Inr \<lparr>cr_cards = n, cr_budget = Some b, cr_verdict = Against b usable, cr_skip = None\<rparr>))"

text \<open>
  The loop doubles a 32-bit counter; \<open>None\<close> is a loop that does not end.
\<close>

partial_function (option) sweep_loop ::
  "(int \<Rightarrow> budget_error + candidate_row) \<Rightarrow> int \<Rightarrow> int \<Rightarrow> candidate_row list
     \<Rightarrow> (budget_error + candidate_row list) option" where
  "sweep_loop row maxCards n out =
     (if maxCards < n then Some (Inr out)
      else case row n of
        Inl e \<Rightarrow> Some (Inl e)
      | Inr c \<Rightarrow> sweep_loop row maxCards (wrap32 (n * 2)) (out @ [c]))"

declare sweep_loop.simps [code]

definition budget_sweep ::
  "(rat \<Rightarrow> rat) \<Rightarrow> arch option \<Rightarrow> plan \<Rightarrow> int \<Rightarrow> rat \<Rightarrow> int \<Rightarrow> sweepAxis
     \<Rightarrow> (budget_error + candidate_row list) option" where
  "budget_sweep fl a p cardBytes utilization maxCards axis =
     (case ValidateArch a of
        Inl e \<Rightarrow> Some (Inl e)
      | Inr a \<Rightarrow>
          if cardBytes \<le> 0 then Some (Inl ErrCardMemory)
          else if axis = ExpertAxis \<and> 1 < TensorWidth p \<and> \<not> LatentCache a
                  \<and> \<not> TensorWidth p dvd ar_kv_heads a
          then Some (Inl ErrTensorWidth)
          else sweep_loop (sweep_row fl a p (UsableBytes fl cardBytes utilization) axis)
                 (if maxCards < 1 then 8 else maxCards) 1 [])"

definition Sweep ::
  "(rat \<Rightarrow> rat) \<Rightarrow> arch option \<Rightarrow> plan \<Rightarrow> int \<Rightarrow> rat \<Rightarrow> int \<Rightarrow> (budget_error + candidate_row list) option" where
  "Sweep fl a p cardBytes utilization maxCards = budget_sweep fl a p cardBytes utilization maxCards TensorAxis"

definition SweepExpertParallel ::
  "(rat \<Rightarrow> rat) \<Rightarrow> arch option \<Rightarrow> plan \<Rightarrow> int \<Rightarrow> rat \<Rightarrow> int \<Rightarrow> (budget_error + candidate_row list) option" where
  "SweepExpertParallel fl a p cardBytes utilization maxCards =
     budget_sweep fl a p cardBytes utilization maxCards ExpertAxis"

fun first_fit :: "candidate_row list \<Rightarrow> (int \<times> budget option) option" where
  "first_fit [] = None"
| "first_fit (c # cs) =
     (if cr_skip c = None \<and> cr_verdict c = Fits then Some (cr_cards c, cr_budget c) else first_fit cs)"

definition MinCards ::
  "(rat \<Rightarrow> rat) \<Rightarrow> arch option \<Rightarrow> plan \<Rightarrow> int \<Rightarrow> rat \<Rightarrow> int \<Rightarrow> (budget_error + (int \<times> budget option)) option" where
  "MinCards fl a p cardBytes utilization maxCards =
     (case Sweep fl a p cardBytes utilization maxCards of
        None \<Rightarrow> None
      | Some (Inl e) \<Rightarrow> Some (Inl e)
      | Some (Inr candidates) \<Rightarrow>
          (case first_fit candidates of
             None \<Rightarrow> Some (Inl ErrDoesNotFit)
           | Some r \<Rightarrow> Some (Inr r)))"

subsection \<open>The sweep visits the powers of two\<close>

definition card_counts :: "int \<Rightarrow> int list" where
  "card_counts maxCards = map (\<lambda>k. 2 ^ k) [0..<Suc (ilog maxCards)]"

fun collect :: "(int \<Rightarrow> 'e + 'c) \<Rightarrow> int list \<Rightarrow> 'e + 'c list" where
  "collect row [] = Inr []"
| "collect row (n # ns) = bindE (row n) (\<lambda>c. bindE (collect row ns) (\<lambda>cs. Inr (c # cs)))"

lemma power_le_iff_ilog:
  assumes "1 \<le> maxCards"
  shows "2 ^ k \<le> maxCards \<longleftrightarrow> k \<le> ilog maxCards"
proof
  have b: "2 ^ ilog maxCards \<le> maxCards" "maxCards < 2 ^ Suc (ilog maxCards)"
    using ilog_bounds [of maxCards] assms by auto
  {
    assume "2 ^ k \<le> maxCards"
    from this b(2) have "(2 :: int) ^ k < 2 ^ Suc (ilog maxCards)" by (rule le_less_trans)
    then show "k \<le> ilog maxCards" using power_less_imp_less_exp [of "2 :: int" k "Suc (ilog maxCards)"] by simp
  next
    assume "k \<le> ilog maxCards"
    then have "(2 :: int) ^ k \<le> 2 ^ ilog maxCards" by simp
    with b(1) show "2 ^ k \<le> maxCards" by (rule order_trans [rotated])
  }
qed

lemma card_counts_iff: "1 \<le> maxCards \<Longrightarrow> n \<in> set (card_counts maxCards) \<longleftrightarrow> n \<le> maxCards \<and> (\<exists>k. n = 2 ^ k)"
  by (auto simp: card_counts_def less_Suc_eq_le power_le_iff_ilog [symmetric] simp del: upt_Suc)

lemma sweep_loop_collect:
  assumes "1 \<le> maxCards" "maxCards < 2 ^ 30"
  shows "sweep_loop row maxCards (2 ^ k) out =
     Some (bindE (collect row (map (\<lambda>k. 2 ^ k) [k..<Suc (ilog maxCards)])) (\<lambda>cs. Inr (out @ cs)))"
proof (induction "Suc (ilog maxCards) - k" arbitrary: k out)
  case 0
  then have "\<not> 2 ^ k \<le> maxCards" using power_le_iff_ilog [OF assms(1)] by simp
  with 0 show ?case by (subst sweep_loop.simps) simp
next
  case (Suc m)
  then have le: "2 ^ k \<le> maxCards" using power_le_iff_ilog [OF assms(1)] by simp
  moreover have "(0 :: int) \<le> 2 ^ k" by simp
  ultimately have "wrap32 (2 ^ k * 2) = 2 ^ Suc k"
    using assms(2) by (subst wrap32_nonneg) simp_all
  moreover have "[k..<Suc (ilog maxCards)] = k # [Suc k..<Suc (ilog maxCards)]"
    using Suc(2) by (intro upt_conv_Cons) simp
  moreover have "m = Suc (ilog maxCards) - Suc k" using Suc(2) by simp
  note IH = Suc(1) [OF this]
  ultimately show ?case
    using le by (subst sweep_loop.simps) (cases "row (2 ^ k)"; simp add: IH del: upt_Suc; cases "collect row (map (\<lambda>k. 2 ^ k) [Suc k..<Suc (ilog maxCards)])"; simp)
qed

lemma sweep_loop_from_one:
  assumes "1 \<le> maxCards" "maxCards < 2 ^ 30"
  shows "sweep_loop row maxCards 1 [] = Some (collect row (card_counts maxCards))"
  using sweep_loop_collect [OF assms, of row 0 "[]"]
  by (simp add: card_counts_def del: upt_Suc) (cases "collect row (map (\<lambda>k. 2 ^ k) [0..<Suc (ilog maxCards)])"; simp)

text \<open>From \<open>2 ^ 30\<close> on the counter overflows to zero and stays there.\<close>

lemma sweep_loop_never_from_zero:
  assumes "sweep_loop row m n out = Some r"
  shows "n = 0 \<longrightarrow> 0 \<le> m \<longrightarrow> (\<forall>c. row 0 \<noteq> Inr c)"
proof (rule sweep_loop.raw_induct [where P = "\<lambda>row m n out r. n = 0 \<longrightarrow> 0 \<le> m \<longrightarrow> (\<forall>c. row 0 \<noteq> Inr c)", OF _ assms])
  fix loop row' m' n' out' r'
  assume IH: "\<And>row m n out r. loop row m n out = Some r \<Longrightarrow> n = 0 \<longrightarrow> 0 \<le> m \<longrightarrow> (\<forall>c. row 0 \<noteq> Inr c)"
    and body: "(if m' < n' then Some (Inr out') else case row' n' of Inl e \<Rightarrow> Some (Inl e)
      | Inr c \<Rightarrow> loop row' m' (wrap32 (n' * 2)) (out' @ [c])) = Some r'"
  show "n' = 0 \<longrightarrow> 0 \<le> m' \<longrightarrow> (\<forall>c. row' 0 \<noteq> Inr c)"
    using body IH [of row' m' 0 _ r'] by (auto simp: wrap32_def)
qed

lemma sweep_loop_stuck: "0 \<le> maxCards \<Longrightarrow> row 0 = Inr c \<Longrightarrow> sweep_loop row maxCards 0 out = None"
  using sweep_loop_never_from_zero [of row maxCards 0 out] by (cases "sweep_loop row maxCards 0 out") auto

lemma sweep_loop_diverges:
  assumes "2 ^ 30 \<le> maxCards" "maxCards < 2 ^ 31" and rows: "\<And>n. \<exists>c. row n = Inr c"
  shows "sweep_loop row maxCards 1 [] = None"
proof -
  obtain c where c: "row 0 = Inr c" using rows by blast
  have zero: "sweep_loop row maxCards 0 out = None" for out
    using sweep_loop_stuck [of maxCards row c out] assms(1) c by simp
  have low: "sweep_loop row maxCards (- (2 ^ 31)) out = None" for out
  proof -
    obtain c where "row (- (2 ^ 31)) = Inr c" using rows by blast
    then show ?thesis using assms(1) zero by (subst sweep_loop.simps) (simp add: wrap32_def)
  qed
  have "sweep_loop row maxCards (2 ^ (30 - k)) out = None" if "k \<le> 30" for k out
    using that
  proof (induction k arbitrary: out)
    case 0
    obtain c where "row (2 ^ 30) = Inr c" using rows by blast
    then show ?case using assms(1) low by (subst sweep_loop.simps) (simp add: wrap32_def)
  next
    case (Suc k)
    let ?n = "2 ^ (30 - Suc k) :: int"
    obtain c where c: "row ?n = Inr c" using rows by blast
    have dbl: "?n * 2 = 2 ^ (30 - k)" using Suc.prems by (metis Suc_diff_Suc Suc_le_lessD power_Suc2)
    have "?n \<le> 2 ^ 30" "(2 :: int) ^ (30 - k) \<le> 2 ^ 30" "(0 :: int) \<le> 2 ^ (30 - k)"
      by (intro power_increasing; simp)+ simp
    with assms(1) dbl have "\<not> maxCards < ?n" "wrap32 (?n * 2) = 2 ^ (30 - k)"
      by (linarith, simp only: dbl, intro wrap32_nonneg, simp_all)
    with c Suc show ?case by (subst sweep_loop.simps) simp
  qed
  from this [of 30] show ?thesis by simp
qed

subsection \<open>The smallest card count\<close>

definition shards :: "arch \<Rightarrow> int \<Rightarrow> bool" where
  "shards a n \<longleftrightarrow> n \<le> 1 \<or> LatentCache a \<or> n dvd ar_kv_heads a"

definition fits_on :: "(rat \<Rightarrow> rat) \<Rightarrow> arch \<Rightarrow> plan \<Rightarrow> int \<Rightarrow> int \<Rightarrow> bool" where
  "fits_on fl a p usable n \<longleftrightarrow> shards a n \<and> Against (budget_of fl a (p\<lparr>pn_tp_size := n\<rparr>)) usable = Fits"

definition tensor_row :: "(rat \<Rightarrow> rat) \<Rightarrow> arch \<Rightarrow> plan \<Rightarrow> int \<Rightarrow> int \<Rightarrow> candidate_row" where
  "tensor_row fl a p usable n =
     (if shards a n
      then \<lparr>cr_cards = n, cr_budget = Some (budget_of fl a (p\<lparr>pn_tp_size := n\<rparr>)),
            cr_verdict = Against (budget_of fl a (p\<lparr>pn_tp_size := n\<rparr>)) usable, cr_skip = None\<rparr>
      else \<lparr>cr_cards = n, cr_budget = None, cr_verdict = Fits, cr_skip = Some SkipHeads\<rparr>)"

lemma ValidateArch_some: "ValidateArch (Some a) = Inr a' \<Longrightarrow> a' = a"
  by (auto simp: ValidateArch_def split: if_splits)

lemma plan_Validate_tp [simp]: "plan_Validate fl (p\<lparr>pn_tp_size := n\<rparr>) = plan_Validate fl p"
  by (simp add: plan_Validate_def cacheDtype_def)

lemma sweep_row_tensor:
  assumes "ValidateArch (Some a) = Inr a" "plan_Validate fl p = Inr ()"
  shows "sweep_row fl a p usable TensorAxis n = Inr (tensor_row fl a p usable n)"
  using assms by (auto simp: sweep_row_def skipReason_def tensor_row_def shards_def Compute_def)

lemma collect_total: "(\<And>n. row n = Inr (f n)) \<Longrightarrow> collect row ns = Inr (map f ns)"
  by (induction ns) simp_all

lemma Sweep_rows:
  assumes "ValidateArch (Some a) = Inr a" "plan_Validate fl p = Inr ()" "0 < cardBytes"
    "1 \<le> maxCards" "maxCards < 2 ^ 30"
  shows "Sweep fl (Some a) p cardBytes util maxCards =
     Some (Inr (map (tensor_row fl a p (UsableBytes fl cardBytes util)) (card_counts maxCards)))"
  using assms(3-) collect_total [OF sweep_row_tensor [OF assms(1,2)]]
  by (simp add: Sweep_def budget_sweep_def assms(1) sweep_loop_from_one)

lemma first_fit_sorted:
  assumes "sorted_wrt (<) ns"
  shows "case first_fit (map (tensor_row fl a p usable) ns) of
      None \<Rightarrow> \<forall>n \<in> set ns. \<not> fits_on fl a p usable n
    | Some (n, b) \<Rightarrow> n \<in> set ns \<and> fits_on fl a p usable n \<and> b = Some (budget_of fl a (p\<lparr>pn_tp_size := n\<rparr>))
        \<and> (\<forall>m \<in> set ns. fits_on fl a p usable m \<longrightarrow> n \<le> m)"
  using assms
proof (induction ns)
  case (Cons n ns)
  then show ?case
    by (cases "fits_on fl a p usable n")
       (auto simp: fits_on_def tensor_row_def split: option.splits if_splits)
qed simp

lemma card_counts_sorted: "sorted_wrt (<) (card_counts maxCards)"
  unfolding card_counts_def sorted_wrt_map
  by (rule sorted_wrt_mono_rel [OF _ sorted_wrt_upt]) simp

text \<open>
  C26: \<^verbatim>\<open>MinCards\<close> answers the question it is asked.  For a valid model and plan and fewer than
  \<open>2 ^ 30\<close> cards it returns; the answer is the smallest power of two within the limit that the
  key-value heads divide into (or any, for a latent cache) and whose per-card budget leaves the
  overhead band intact; and it reports that the model does not fit exactly when there is none.
\<close>

theorem min_cards_least:
  assumes "ValidateArch (Some a) = Inr a" "plan_Validate fl64 p = Inr ()" "0 < cardBytes"
    "1 \<le> maxCards" "maxCards < 2 ^ 30"
  shows "case MinCards fl64 (Some a) p cardBytes util maxCards of
      None \<Rightarrow> False
    | Some (Inl e) \<Rightarrow> e = ErrDoesNotFit
        \<and> (\<forall>m. m \<le> maxCards \<and> (\<exists>k. m = 2 ^ k) \<longrightarrow> \<not> fits_on fl64 a p (UsableBytes fl64 cardBytes util) m)
    | Some (Inr (n, b)) \<Rightarrow> n \<le> maxCards \<and> (\<exists>k. n = 2 ^ k)
        \<and> fits_on fl64 a p (UsableBytes fl64 cardBytes util) n
        \<and> b = Some (budget_of fl64 a (p\<lparr>pn_tp_size := n\<rparr>))
        \<and> (\<forall>m. m \<le> maxCards \<and> (\<exists>k. m = 2 ^ k) \<and> fits_on fl64 a p (UsableBytes fl64 cardBytes util) m \<longrightarrow> n \<le> m)"
proof -
  let ?u = "UsableBytes fl64 cardBytes util"
  have "MinCards fl64 (Some a) p cardBytes util maxCards =
      (case first_fit (map (tensor_row fl64 a p ?u) (card_counts maxCards)) of
         None \<Rightarrow> Some (Inl ErrDoesNotFit) | Some r \<Rightarrow> Some (Inr r))"
    by (simp add: MinCards_def Sweep_rows [OF assms])
  then show ?thesis
    using first_fit_sorted [OF card_counts_sorted [of maxCards], where fl = fl64 and a = a and p = p and usable = "?u"] card_counts_iff [OF assms(4)]
    by (simp split: option.splits prod.splits)
qed

text \<open>
  A limit of \<open>2 ^ 30\<close> cards or more sends the same loop past the range of its 32-bit counter:
  the counter becomes zero, never exceeds the limit, and the call does not return.
\<close>

theorem min_cards_diverges:
  assumes "ValidateArch (Some a) = Inr a" "plan_Validate fl64 p = Inr ()" "0 < cardBytes"
    "2 ^ 30 \<le> maxCards" "maxCards < 2 ^ 31"
  shows "MinCards fl64 (Some a) p cardBytes util maxCards = None"
proof -
  have "sweep_loop (sweep_row fl64 a p (UsableBytes fl64 cardBytes util) TensorAxis) maxCards 1 [] = None"
    by (rule sweep_loop_diverges [OF assms(4,5)]) (simp add: sweep_row_tensor [OF assms(1,2)])
  with assms(3,4) show ?thesis by (simp add: MinCards_def Sweep_def budget_sweep_def assms(1))
qed

definition llama70b :: arch where
  "llama70b = \<lparr>ar_params = 70000000000, ar_layers = 80, ar_kv_heads = 8, ar_head_dim = 128, ar_hidden_size = 8192,
     ar_num_experts = 0, ar_num_experts_per_tok = 0, ar_moe_intermediate_size = 0, ar_dense_layers = 0,
     ar_routed_expert_hidden_size = 0, ar_kv_lora_rank = 0, ar_qk_rope_head_dim = 0,
     ar_full_attention_layers = 0, ar_mtp_layers = 0, ar_quantization = []\<rparr>"

definition fp16_plan :: plan where
  "fp16_plan = \<lparr>pn_weights = ''fp16'', pn_kv_cache = [], pn_max_model_len = 8192, pn_max_batch = 4,
     pn_tp_size = 0, pn_ep_size = 0\<rparr>"

lemma sample_valid: "ValidateArch (Some llama70b) = Inr llama70b" "plan_Validate fl64 fp16_plan = Inr ()"
  by (simp_all add: ValidateArch_def llama70b_def plan_Validate_def fp16_plan_def BytesPerParam_def
      BytesPerCacheElement_def cacheDtype_def)

theorem min_cards_least_witness:
  "case MinCards fl64 (Some llama70b) fp16_plan 80000000000 0 8 of
      None \<Rightarrow> False
    | Some (Inl e) \<Rightarrow> e = ErrDoesNotFit
        \<and> (\<forall>m. m \<le> 8 \<and> (\<exists>k. m = 2 ^ k) \<longrightarrow> \<not> fits_on fl64 llama70b fp16_plan (UsableBytes fl64 80000000000 0) m)
    | Some (Inr (n, b)) \<Rightarrow> n \<le> 8 \<and> (\<exists>k. n = 2 ^ k)
        \<and> fits_on fl64 llama70b fp16_plan (UsableBytes fl64 80000000000 0) n
        \<and> b = Some (budget_of fl64 llama70b (fp16_plan\<lparr>pn_tp_size := n\<rparr>))
        \<and> (\<forall>m. m \<le> 8 \<and> (\<exists>k. m = 2 ^ k) \<and> fits_on fl64 llama70b fp16_plan (UsableBytes fl64 80000000000 0) m \<longrightarrow> n \<le> m)"
  by (rule min_cards_least [OF sample_valid]) simp_all

subsection \<open>More cards never claim more per card\<close>

text \<open>The four \<^verbatim>\<open>float64\<close> values of a budget before they are converted to integers.\<close>

definition weight_float :: "(rat \<Rightarrow> rat) \<Rightarrow> arch \<Rightarrow> plan \<Rightarrow> rat" where
  "weight_float fl a p =
     fl (fl (fl (fl (of_int (wrap64 (ar_params a - RoutedExpertParams a))) * BytesPerParam fl (pn_weights p))
             / of_int (TensorWidth p))
         + fl (fl (fl (of_int (RoutedExpertParams a)) * BytesPerParam fl (pn_weights p)) / of_int (expertCards p)))"

definition kv_float :: "(rat \<Rightarrow> rat) \<Rightarrow> arch \<Rightarrow> plan \<Rightarrow> rat" where
  "kv_float fl a p = (if LatentCache a then kv_total fl a p else fl (kv_total fl a p / of_int (TensorWidth p)))"

definition activation_float :: "(rat \<Rightarrow> rat) \<Rightarrow> arch \<Rightarrow> plan \<Rightarrow> rat" where
  "activation_float fl a p = fl (activation_total fl a p / of_int (TensorWidth p))"

definition overhead_float :: "(rat \<Rightarrow> rat) \<Rightarrow> arch \<Rightarrow> plan \<Rightarrow> rat" where
  "overhead_float fl a p = fl (fl (of_int (WorkingSetBytes (budget_of fl a p))) * fl OverheadFraction)"

lemma budget_of_floats:
  "bg_weight (budget_of fl a p) = to_int64 (weight_float fl a p)"
  "bg_kv (budget_of fl a p) = to_int64 (kv_float fl a p)"
  "bg_activation (budget_of fl a p) = to_int64 (activation_float fl a p)"
  "bg_overhead (budget_of fl a p) = to_int64 (overhead_float fl a p)"
  by (simp_all add: budget_of_def Let_def weight_float_def weightBytesPerCard_def kv_float_def
      activation_float_def overhead_float_def WorkingSetBytes_def)

text \<open>A budget whose claims stay below \<open>2 ^ 60\<close> bytes, of a model with sensible counts.\<close>

definition headroom :: "(rat \<Rightarrow> rat) \<Rightarrow> arch \<Rightarrow> plan \<Rightarrow> bool" where
  "headroom fl a p \<longleftrightarrow>
     weight_float fl a p < 2 ^ 60 \<and> kv_float fl a p < 2 ^ 60 \<and> activation_float fl a p < 2 ^ 60
     \<and> overhead_float fl a p < 2 ^ 60"

definition sane :: "arch \<Rightarrow> plan \<Rightarrow> bool" where
  "sane a p \<longleftrightarrow>
     0 \<le> RoutedExpertParams a \<and> RoutedExpertParams a \<le> ar_params a \<and> ar_params a \<le> max_int64
     \<and> 0 \<le> KVBytesPerToken a (cacheDtype p) \<and> 0 \<le> ar_hidden_size a
     \<and> 0 \<le> pn_max_model_len p \<and> 0 \<le> pn_max_batch p"

context rounding begin

lemma BytesPerParam_nonneg: "0 \<le> BytesPerParam fl w"
  by (simp add: BytesPerParam_def fl_nonneg)

lemma totals_nonneg:
  assumes "sane a p"
  shows "0 \<le> kv_total fl a p" "0 \<le> activation_total fl a p"
  using assms
  by (auto simp: sane_def kv_total_def activation_total_def activationElementBytes_def ActivationFactor_def
      intro!: fl_nonneg mult_nonneg_nonneg)

lemma claims_antitone:
  assumes "sane a p" "1 \<le> n" "n \<le> m"
  defines "pn \<equiv> p\<lparr>pn_tp_size := n\<rparr>" and "pm \<equiv> p\<lparr>pn_tp_size := m\<rparr>"
  shows "0 \<le> weight_float fl a pm" "weight_float fl a pm \<le> weight_float fl a pn"
    "0 \<le> kv_float fl a pm" "kv_float fl a pm \<le> kv_float fl a pn"
    "0 \<le> activation_float fl a pm" "activation_float fl a pm \<le> activation_float fl a pn"
proof -
  have w: "TensorWidth pn = n" "TensorWidth pm = m" "1 \<le> expertCards pn" "expertCards pn \<le> expertCards pm"
    "pn_weights pn = pn_weights p" "pn_weights pm = pn_weights p"
    using assms(2,3) by (auto simp: pn_def pm_def TensorWidth_def expertCards_def)
  have same: "kv_total fl a pm = kv_total fl a p" "kv_total fl a pn = kv_total fl a p"
    "activation_total fl a pm = activation_total fl a p" "activation_total fl a pn = activation_total fl a p"
    by (simp_all add: pn_def pm_def kv_total_def activation_total_def cacheDtype_def)
  have div: "fl (x / of_int d) \<le> fl (x / of_int c)" "0 \<le> fl (x / of_int d)"
    if "0 \<le> x" "1 \<le> c" "c \<le> d" for x and c d :: int
    using that by (auto intro!: fl_divide_anti fl_nonneg)
  have params: "wrap64 (ar_params a - RoutedExpertParams a) = ar_params a - RoutedExpertParams a"
    using assms(1) by (intro wrap64_id) (auto simp: sane_def min_int64_def)
  have prod: "0 \<le> fl (fl (of_int (wrap64 (ar_params a - RoutedExpertParams a))) * BytesPerParam fl (pn_weights p))"
    "0 \<le> fl (fl (of_int (RoutedExpertParams a)) * BytesPerParam fl (pn_weights p))"
    using assms(1) params by (auto simp: sane_def intro!: fl_nonneg mult_nonneg_nonneg BytesPerParam_nonneg)
  show "0 \<le> weight_float fl a pm"
    using div(2) [OF prod(1), of n m] div(2) [OF prod(2), of "expertCards pn" "expertCards pm"] w assms(2,3)
    by (simp add: weight_float_def fl_nonneg)
  show "weight_float fl a pm \<le> weight_float fl a pn"
    unfolding weight_float_def w using assms(2,3) w
    by (intro fl_mono add_mono div prod) auto
  show "0 \<le> kv_float fl a pm" "kv_float fl a pm \<le> kv_float fl a pn"
    using div [OF totals_nonneg(1) [OF assms(1)], of n m] totals_nonneg(1) [OF assms(1)] w assms(2,3)
    by (simp_all add: kv_float_def same)
  show "0 \<le> activation_float fl a pm" "activation_float fl a pm \<le> activation_float fl a pn"
    using div [OF totals_nonneg(2) [OF assms(1)], of n m] w assms(2,3)
    by (simp_all add: activation_float_def same)
qed

lemma budget_antitone:
  assumes "sane a p" "1 \<le> n" "n \<le> m" and room: "headroom fl a (p\<lparr>pn_tp_size := n\<rparr>)"
  shows "TotalBytes (budget_of fl a (p\<lparr>pn_tp_size := m\<rparr>)) \<le> TotalBytes (budget_of fl a (p\<lparr>pn_tp_size := n\<rparr>))"
    and "WorkingSetBytes (budget_of fl a (p\<lparr>pn_tp_size := m\<rparr>)) \<le> WorkingSetBytes (budget_of fl a (p\<lparr>pn_tp_size := n\<rparr>))"
proof -
  let ?bn = "budget_of fl a (p\<lparr>pn_tp_size := n\<rparr>)" and ?bm = "budget_of fl a (p\<lparr>pn_tp_size := m\<rparr>)"
  note anti = claims_antitone [OF assms(1-3)]
  have W: "0 \<le> bg_weight ?bm \<and> bg_weight ?bm \<le> bg_weight ?bn \<and> bg_weight ?bn < 2 ^ 60"
    using to_int64_mono [OF anti(1,2)] room by (simp add: budget_of_floats headroom_def)
  have K: "0 \<le> bg_kv ?bm \<and> bg_kv ?bm \<le> bg_kv ?bn \<and> bg_kv ?bn < 2 ^ 60"
    using to_int64_mono [OF anti(3,4)] room by (simp add: budget_of_floats headroom_def)
  have A: "0 \<le> bg_activation ?bm \<and> bg_activation ?bm \<le> bg_activation ?bn \<and> bg_activation ?bn < 2 ^ 60"
    using to_int64_mono [OF anti(5,6)] room by (simp add: budget_of_floats headroom_def)
  have ws: "WorkingSetBytes b = bg_weight b + bg_kv b + bg_activation b"
    if "0 \<le> bg_weight b" "0 \<le> bg_kv b" "0 \<le> bg_activation b"
      "bg_weight b < 2 ^ 60" "bg_kv b < 2 ^ 60" "bg_activation b < 2 ^ 60" for b
    using that by (simp add: WorkingSetBytes_def min_int64_def max_int64_def)
  have wsn: "WorkingSetBytes ?bn = bg_weight ?bn + bg_kv ?bn + bg_activation ?bn"
    and wsm: "WorkingSetBytes ?bm = bg_weight ?bm + bg_kv ?bm + bg_activation ?bm"
    using W K A by (auto intro!: ws)
  have le: "0 \<le> WorkingSetBytes ?bm" "WorkingSetBytes ?bm \<le> WorkingSetBytes ?bn" "WorkingSetBytes ?bn < 2 ^ 62"
    using W K A unfolding wsn wsm by auto
  have "0 \<le> overhead_float fl a (p\<lparr>pn_tp_size := m\<rparr>)"
    "overhead_float fl a (p\<lparr>pn_tp_size := m\<rparr>) \<le> overhead_float fl a (p\<lparr>pn_tp_size := n\<rparr>)"
    unfolding overhead_float_def using le
    by (auto intro!: fl_nonneg fl_mono mult_right_mono mult_nonneg_nonneg simp: OverheadFraction_def)
  from to_int64_mono [OF this] room
  have O: "0 \<le> bg_overhead ?bm \<and> bg_overhead ?bm \<le> bg_overhead ?bn \<and> bg_overhead ?bn < 2 ^ 60"
    by (simp add: budget_of_floats headroom_def)
  have "TotalBytes ?bm = WorkingSetBytes ?bm + bg_overhead ?bm" "TotalBytes ?bn = WorkingSetBytes ?bn + bg_overhead ?bn"
    unfolding TotalBytes_def using le O by (auto intro!: wrap64_id simp: min_int64_def max_int64_def)
  with le O show "TotalBytes ?bm \<le> TotalBytes ?bn" "WorkingSetBytes ?bm \<le> WorkingSetBytes ?bn" by linarith+
qed

end

text \<open>
  Adding cards never makes a model fit worse.  For a model and plan whose claims stay below
  \<open>2 ^ 60\<close> bytes, a wider tensor split never claims more memory of a card, rounding included;
  so once a plan fits some card count it fits every larger one the cache can be sharded over.
\<close>

theorem wider_split_fits:
  assumes "sane a p" "1 \<le> n" "n \<le> m" "headroom fl64 a (p\<lparr>pn_tp_size := n\<rparr>)"
  shows "TotalBytes (budget_of fl64 a (p\<lparr>pn_tp_size := m\<rparr>)) \<le> TotalBytes (budget_of fl64 a (p\<lparr>pn_tp_size := n\<rparr>))
    \<and> (fits_on fl64 a p usable n \<longrightarrow> shards a m \<longrightarrow> fits_on fl64 a p usable m)"
proof -
  have le: "TotalBytes (budget_of fl64 a (p\<lparr>pn_tp_size := m\<rparr>)) \<le> TotalBytes (budget_of fl64 a (p\<lparr>pn_tp_size := n\<rparr>))"
    by (rule float64.budget_antitone(1) [OF assms])
  then show ?thesis by (auto simp: fits_on_def Against_def split: if_splits)
qed

lemma sample_sane: "sane llama70b fp16_plan"
  by (simp add: sane_def llama70b_def fp16_plan_def RoutedExpertParams_def KVBytesPerToken_def LatentCache_def
      CachingLayers_def BytesPerCacheElement_def cacheDtype_def max_int64_def min_int64_def)

lemma sample_floats [simp]:
  "fl64 70000000000 = 70000000000"
  "fl64 140000000000 = 140000000000"
  "fl64 327680 = 327680"
  "fl64 2684354560 = 2684354560"
  "fl64 10737418240 = 10737418240"
  "fl64 32768 = 32768"
  "fl64 268435456 = 268435456"
  "fl64 536870912 = 536870912"
  "fl64 805306368 = 805306368"
  "fl64 151542724608 = 151542724608"
  "fl64 0 = 0" "fl64 (3 / 20) = 5404319552844595 / 36028797018963968"
  by code_simp+

lemma sample_headroom: "headroom fl64 llama70b (fp16_plan\<lparr>pn_tp_size := 1\<rparr>)"
proof -
  let ?p = "fp16_plan\<lparr>pn_tp_size := 1\<rparr>"
  have w: "weight_float fl64 llama70b ?p = 140000000000"
    by (simp add: weight_float_def llama70b_def fp16_plan_def RoutedExpertParams_def BytesPerParam_def TensorWidth_def
        expertCards_def max_int64_def min_int64_def)
  have k: "kv_float fl64 llama70b ?p = 10737418240"
    by (simp add: kv_float_def kv_total_def llama70b_def fp16_plan_def KVBytesPerToken_def LatentCache_def CachingLayers_def
        BytesPerCacheElement_def cacheDtype_def TensorWidth_def max_int64_def min_int64_def)
  have a: "activation_float fl64 llama70b ?p = 805306368"
    by (simp add: activation_float_def activation_total_def llama70b_def fp16_plan_def TensorWidth_def
        activationElementBytes_def ActivationFactor_def)
  have "WorkingSetBytes (budget_of fl64 llama70b ?p) = 151542724608"
    by (simp add: WorkingSetBytes_def budget_of_floats w k a to_int64_def max_int64_def min_int64_def)
  then have "overhead_float fl64 llama70b ?p = fl64 (151542724608 * (5404319552844595 / 36028797018963968))"
    by (simp add: overhead_float_def OverheadFraction_def)
  also have "\<dots> < 2 ^ 60" by code_simp
  finally show ?thesis by (simp add: headroom_def w k a)
qed

theorem wider_split_fits_witness:
  "TotalBytes (budget_of fl64 llama70b (fp16_plan\<lparr>pn_tp_size := 4\<rparr>)) \<le> TotalBytes (budget_of fl64 llama70b (fp16_plan\<lparr>pn_tp_size := 1\<rparr>))"
  using wider_split_fits [OF sample_sane _ _ sample_headroom, of 4 0] by simp

subsection \<open>Activated parameters\<close>

text \<open>
  The parameters read per token.  When the published counts multiply within 64 bits, the
  figure lies between zero and the whole model; a dense model reads all of itself; and a sparse
  model for which a figure is reported reads the model less exactly the experts the router did
  not pick, so it reads all of itself only when every expert is picked.
\<close>

theorem active_params_share:
  assumes "moeLayers a * ar_num_experts a * expertParams a \<le> max_int64" and "ar_params a \<le> max_int64"
  shows "0 \<le> ActiveParams a \<and> ActiveParams a \<le> max 0 (ar_params a)
    \<and> (ar_num_experts a \<le> 0 \<longrightarrow> ActiveParams a = max 0 (ar_params a))
    \<and> (0 < ar_num_experts a \<longrightarrow> 0 < ActiveParams a \<longrightarrow>
         ActiveParams a = ar_params a
           - moeLayers a * (ar_num_experts a - ar_num_experts_per_tok a) * expertParams a
         \<and> (ActiveParams a = ar_params a \<longleftrightarrow> ar_num_experts_per_tok a = ar_num_experts a))"
proof (cases "0 < ar_num_experts a \<and> 0 < moeLayers a \<and> 0 < expertParams a \<and> 0 < ar_params a
    \<and> 0 < ar_num_experts_per_tok a \<and> ar_num_experts_per_tok a \<le> ar_num_experts a
    \<and> RoutedExpertParams a < ar_params a")
  case False
  then show ?thesis by (auto simp: ActiveParams_def RoutedExpertParams_def Let_def)
next
  case True
  let ?L = "moeLayers a" and ?E = "ar_num_experts a" and ?x = "expertParams a" and ?k = "ar_num_experts_per_tok a"
  have pos: "0 < ?L" "0 < ?E" "0 < ?x" "0 < ?k" "?k \<le> ?E" using True by auto
  have LE: "0 < ?L * ?E" "?L * ?E \<le> ?L * ?E * ?x" using pos mult_left_mono [of 1 ?x "?L * ?E"] by simp_all
  have Lk: "0 < ?L * ?k" "?L * ?k \<le> ?L * ?E" using pos by simp_all
  have Lkx: "0 < ?L * ?k * ?x" "?L * ?k * ?x \<le> ?L * ?E * ?x"
    using Lk pos by (simp_all only: mult_right_mono less_imp_le mult_pos_pos)
  have "wrap64 (?L * ?E) = ?L * ?E" "wrap64 (?L * ?E * ?x) = ?L * ?E * ?x"
    by (rule wrap64_nonneg; use LE assms(1) in linarith)+
  then have R: "RoutedExpertParams a = ?L * ?E * ?x"
    using pos by (simp add: RoutedExpertParams_def)
  have lt: "?L * ?E * ?x < ar_params a" using True R by simp
  have "wrap64 (?L * ?k) = ?L * ?k" "wrap64 (?L * ?k * ?x) = ?L * ?k * ?x"
    "wrap64 (ar_params a - ?L * ?E * ?x) = ar_params a - ?L * ?E * ?x"
    "wrap64 (ar_params a - ?L * ?E * ?x + ?L * ?k * ?x) = ar_params a - ?L * ?E * ?x + ?L * ?k * ?x"
    by (rule wrap64_nonneg; use Lk Lkx LE lt assms in linarith)+
  moreover have "\<not> RoutedExpertParams a \<le> 0" using LE R by linarith
  then have "ActiveParams a = wrap64 (wrap64 (ar_params a - RoutedExpertParams a) + wrap64 (wrap64 (?L * ?k) * ?x))"
    using True by (simp add: ActiveParams_def Let_def)
  ultimately have A: "ActiveParams a = ar_params a - ?L * ?E * ?x + ?L * ?k * ?x"
    by (simp only: R)
  have dist: "?L * (?E - ?k) * ?x = ?L * ?E * ?x - ?L * ?k * ?x" by (simp add: algebra_simps)
  have "?L * ?k * ?x = ?L * ?E * ?x \<longleftrightarrow> ?k = ?E" using pos by simp
  then have eq: "ActiveParams a = ar_params a \<longleftrightarrow> ?k = ?E" using A by linarith
  have "0 < ActiveParams a" "ActiveParams a \<le> ar_params a" "0 < ar_params a"
    using A Lkx lt True by linarith+
  with A dist eq pos show ?thesis by (simp add: max_def)
qed

definition sparse_sample :: arch where
  "sparse_sample = llama70b\<lparr>ar_params := 1000, ar_layers := 2, ar_hidden_size := 2, ar_num_experts := 8,
     ar_num_experts_per_tok := 2, ar_moe_intermediate_size := 5\<rparr>"

lemma sparse_sample_shape: "moeLayers sparse_sample = 2" "expertParams sparse_sample = 30" "ar_num_experts sparse_sample = 8"
  "ar_params sparse_sample = 1000" "ar_num_experts_per_tok sparse_sample = 2"
  by (simp_all add: moeLayers_def expertParams_def sparse_sample_def llama70b_def ffnMatrices_def min_int64_def max_int64_def)

lemma sparse_sample_active: "ActiveParams sparse_sample = 640"
  by (simp add: ActiveParams_def RoutedExpertParams_def sparse_sample_shape max_int64_def min_int64_def)

theorem active_params_share_witness: "ActiveParams sparse_sample = 1000 - 2 * (8 - 2) * 30"
  using active_params_share [of sparse_sample]
  by (simp add: sparse_sample_shape sparse_sample_active max_int64_def)

subsection \<open>Sessions\<close>

abbreviation (input) exactly :: "rat \<Rightarrow> rat" where "exactly \<equiv> \<lambda>x. x"

lemma batch_widths:
  "TensorWidth (p\<lparr>pn_max_batch := k\<rparr>) = TensorWidth p" "expertCards (p\<lparr>pn_max_batch := k\<rparr>) = expertCards p"
  "cacheDtype (p\<lparr>pn_max_batch := k\<rparr>) = cacheDtype p" "pn_max_batch (p\<lparr>pn_max_batch := k\<rparr>) = k"
  "pn_max_model_len (p\<lparr>pn_max_batch := k\<rparr>) = pn_max_model_len p"
  by (simp_all add: TensorWidth_def expertCards_def cacheDtype_def)

lemma batch_out:
  fixes k :: rat
  shows "x * l * k = k * (x * l)" "x * l * k / t = k * (x * l / t)" "k * l * h * e * f / t = k * (l * h * e * f / t)"
proof -
  show comm: "x * l * k = k * (x * l)" by (rule mult.commute)
  show "x * l * k / t = k * (x * l / t)" unfolding comm by (rule times_divide_eq_right [symmetric])
  show "k * l * h * e * f / t = k * (l * h * e * f / t)" by (simp only: mult.assoc times_divide_eq_right)
qed

lemma exact_batch:
  "weight_float exactly a (p\<lparr>pn_max_batch := k\<rparr>) = weight_float exactly a p"
  "kv_float exactly a (p\<lparr>pn_max_batch := k\<rparr>) = of_int k * session_cache exactly a p (pn_max_model_len p)"
  "activation_float exactly a (p\<lparr>pn_max_batch := k\<rparr>) = of_int k * session_activation exactly a p (pn_max_model_len p)"
proof -
  show "weight_float exactly a (p\<lparr>pn_max_batch := k\<rparr>) = weight_float exactly a p"
    by (simp only: weight_float_def batch_widths) simp
  show "kv_float exactly a (p\<lparr>pn_max_batch := k\<rparr>) = of_int k * session_cache exactly a p (pn_max_model_len p)"
    unfolding kv_float_def kv_total_def session_cache_def Let_def batch_widths
    by (cases "LatentCache a") (simp_all only: if_True if_False batch_out(1,2) times_divide_eq_right)
  show "activation_float exactly a (p\<lparr>pn_max_batch := k\<rparr>) = of_int k * session_activation exactly a p (pn_max_model_len p)"
    unfolding activation_float_def activation_total_def session_activation_def batch_widths
    by (rule batch_out(3))
qed

lemma to_int64_floor_bounds:
  assumes "0 \<le> x" "x \<le> of_int u" "u \<le> max_int64"
  shows "0 \<le> to_int64 x" "of_int (to_int64 x) \<le> x" "to_int64 x \<le> u"
proof -
  have "\<lfloor>x\<rfloor> \<le> u" "0 \<le> \<lfloor>x\<rfloor>" using assms by (simp_all add: floor_le_iff)
  then show "0 \<le> to_int64 x" "of_int (to_int64 x) \<le> x" "to_int64 x \<le> u"
    using assms by (simp_all add: to_int64_def Let_def min_int64_def)
qed

lemma to_int64_pos_floor: "0 \<le> x \<Longrightarrow> 0 < to_int64 x \<Longrightarrow> to_int64 x = \<lfloor>x\<rfloor>"
  by (simp add: to_int64_def Let_def min_int64_def split: if_splits)

text \<open>
  \<^verbatim>\<open>MaxSessions\<close> inverts \<^verbatim>\<open>Compute\<close>.  In exact arithmetic, a batch of the size it
  returns fits the card with the overhead band intact, and one session more would claim more than
  the card holds beside the weights and the band.
\<close>

theorem max_sessions_fits:
  assumes "MaxSessions exactly (Some a) p cardBytes util = Inr k" "0 < k"
    and "sane a p" "weight_float exactly a p < 2 ^ 60"
  shows "Against (budget_of exactly a (p\<lparr>pn_max_batch := k\<rparr>)) (UsableBytes exactly cardBytes util) = Fits
    \<and> of_int (UsableBytes exactly cardBytes util) <
        (1 + OverheadFraction) * (of_int (weightBytesPerCard exactly a p)
           + of_int (k + 1) * (session_cache exactly a p (pn_max_model_len p)
               + session_activation exactly a p (pn_max_model_len p)))"
proof -
  let ?U = "UsableBytes exactly cardBytes util" and ?W = "weightBytesPerCard exactly a p"
  let ?c = "session_cache exactly a p (pn_max_model_len p)" and ?s = "session_activation exactly a p (pn_max_model_len p)"
  let ?room = "of_int ?U / (1 + OverheadFraction) - of_int ?W :: rat"
  let ?b = "budget_of exactly a (p\<lparr>pn_max_batch := k\<rparr>)"
  have pos: "0 < ?room" "0 < ?c + ?s" and k: "k = to_int64 (?room / (?c + ?s))"
    using assms(1,2) by (auto simp: MaxSessions_def bindE_Inr_iff Let_def dest!: ValidateArch_some split: if_splits)
  have U: "?U \<le> max_int64" using to_int64_in_range by (simp add: UsableBytes_def Let_def)
  have W0: "0 \<le> weight_float exactly a p"
  proof -
    let ?p = "p\<lparr>pn_tp_size := TensorWidth p\<rparr>"
    have "TensorWidth ?p = TensorWidth p" "expertCards ?p = expertCards p" "pn_weights ?p = pn_weights p" "1 \<le> TensorWidth p"
      by (simp_all add: TensorWidth_def expertCards_def)
    then show ?thesis
      using exact.claims_antitone(1) [OF assms(3) _ order_refl, of "TensorWidth p"] by (simp add: weight_float_def)
  qed
  have W: "0 \<le> ?W" using to_int64_mono [OF W0 order_refl assms(4)]
    by (simp add: weightBytesPerCard_def weight_float_def Let_def)
  have cs: "0 \<le> ?c" "0 \<le> ?s"
    using assms(3) by (auto simp: sane_def session_cache_def session_activation_def Let_def activationElementBytes_def
        ActivationFactor_def TensorWidth_def intro!: divide_nonneg_nonneg)
  have q: "of_int k \<le> ?room / (?c + ?s)" "?room / (?c + ?s) < of_int k + 1"
  proof -
    have "k = \<lfloor>?room / (?c + ?s)\<rfloor>"
      unfolding k by (rule to_int64_pos_floor) (use k assms(2) pos in \<open>simp_all add: less_imp_le\<close>)
    then show "of_int k \<le> ?room / (?c + ?s)" "?room / (?c + ?s) < of_int k + 1"
      using floor_correct [of "?room / (?c + ?s)"] by simp_all
  qed
  then have k1: "of_int k * (?c + ?s) \<le> ?room" "?room < (of_int k + 1) * (?c + ?s)"
    using pos by (simp_all add: pos_le_divide_eq pos_divide_less_eq)
  have split_k: "of_int k * (?c + ?s) = of_int k * ?c + of_int k * ?s" by (simp add: distrib_left)
  have kc: "0 \<le> of_int k * ?c" "0 \<le> of_int k * ?s" using cs assms(2) by simp_all
  have W': "0 \<le> (of_int ?W :: rat)" using W by simp
  have "0 < (of_int ?U :: rat)" using pos(1) W' by (simp add: OverheadFraction_def)
  then have UU: "of_int ?U / (1 + OverheadFraction) \<le> (of_int ?U :: rat)" by (simp add: OverheadFraction_def)
  have "of_int k * ?c \<le> of_int ?U" "of_int k * ?s \<le> of_int ?U" using k1(1) split_k kc UU W' by linarith+
  note K = to_int64_floor_bounds [OF kc(1) this(1) U] and A = to_int64_floor_bounds [OF kc(2) this(2) U]
  have terms: "bg_weight ?b = ?W" "bg_kv ?b = to_int64 (of_int k * ?c)" "bg_activation ?b = to_int64 (of_int k * ?s)"
    by (simp_all add: budget_of_floats exact_batch(2,3) weightBytesPerCard_def weight_float_def Let_def batch_widths)
  have "of_int (?W + bg_kv ?b + bg_activation ?b) \<le> of_int ?U / (1 + OverheadFraction :: rat)"
    using K(2) A(2) k1(1) split_k unfolding terms by simp
  then have wsU: "(1 + OverheadFraction) * of_int (?W + bg_kv ?b + bg_activation ?b) \<le> (of_int ?U :: rat)"
    by (simp add: OverheadFraction_def field_simps)
  have sum_nonneg: "0 \<le> ?W + bg_kv ?b + bg_activation ?b" using W K(1) A(1) by (simp add: terms)
  then have "(of_int (?W + bg_kv ?b + bg_activation ?b) :: rat) \<le> of_int ?U"
    using wsU of_int_0_le_iff [of "?W + bg_kv ?b + bg_activation ?b", where 'a = rat] by (simp add: OverheadFraction_def)
  then have le: "?W + bg_kv ?b + bg_activation ?b \<le> ?U" by (simp only: of_int_le_iff)
  have ws: "WorkingSetBytes ?b = ?W + bg_kv ?b + bg_activation ?b"
    using le sum_nonneg W K(1) A(1) U by (simp add: WorkingSetBytes_def terms wrap64_id min_int64_def)
  have ov: "overhead_float exactly a (p\<lparr>pn_max_batch := k\<rparr>) = OverheadFraction * of_int (?W + bg_kv ?b + bg_activation ?b)"
    by (simp add: overhead_float_def ws)
  have ov0: "0 \<le> OverheadFraction * (of_int (?W + bg_kv ?b + bg_activation ?b) :: rat)"
    using sum_nonneg by (simp add: OverheadFraction_def)
  have "OverheadFraction * of_int (?W + bg_kv ?b + bg_activation ?b) \<le> (of_int ?U :: rat)"
    using wsU of_int_0_le_iff [of "?W + bg_kv ?b + bg_activation ?b", where 'a = rat] sum_nonneg by (simp add: distrib_right)
  note O = to_int64_floor_bounds [OF ov0 this U]
  have over: "bg_overhead ?b = to_int64 (OverheadFraction * of_int (?W + bg_kv ?b + bg_activation ?b))"
    by (simp add: budget_of_floats ov)
  have "(of_int (WorkingSetBytes ?b + bg_overhead ?b) :: rat) \<le> of_int ?U"
    using O(2) wsU unfolding over ws by (simp add: distrib_right)
  then have total: "WorkingSetBytes ?b + bg_overhead ?b \<le> ?U" by (simp only: of_int_le_iff)
  have "TotalBytes ?b = WorkingSetBytes ?b + bg_overhead ?b"
    using total U O(1) sum_nonneg by (simp add: TotalBytes_def ws over wrap64_id min_int64_def)
  with total have "Against ?b ?U = Fits" by (simp add: Against_def)
  moreover have "of_int ?U < (1 + OverheadFraction) * (of_int ?W + of_int (k + 1) * (?c + ?s))"
    using k1(2) by (simp add: OverheadFraction_def field_simps)
  ultimately show ?thesis by blast
qed

definition tiny_arch :: arch where
  "tiny_arch = llama70b\<lparr>ar_params := 10, ar_layers := 1, ar_kv_heads := 1, ar_head_dim := 1, ar_hidden_size := 0\<rparr>"

definition tiny_plan :: plan where
  "tiny_plan = fp16_plan\<lparr>pn_max_model_len := 1\<rparr>"

theorem max_sessions_fits_witness:
  "Against (budget_of (\<lambda>x. x) tiny_arch (tiny_plan\<lparr>pn_max_batch := 34\<rparr>)) (UsableBytes (\<lambda>x. x) 200 0) = Fits"
proof -
  have m: "MaxSessions (\<lambda>x. x) (Some tiny_arch) tiny_plan 200 0 = Inr 34" by code_simp
  have "sane tiny_arch tiny_plan" "weight_float (\<lambda>x. x) tiny_arch tiny_plan < 2 ^ 60" by code_simp+
  then show ?thesis using max_sessions_fits [OF m] by simp
qed

end
