(* ===== verification/Engine_Plan.thy ===== *)
theory Engine_Plan
  imports Store Vram_Budget
begin

text \<open>
  The checks a deployment passes before hardware is rented: the requested split and its engine
  flags (\<^verbatim>\<open>parallelism.go\<close>), the expert count (\<^verbatim>\<open>expertshape.go\<close>), the plan read back out of
  the engine's arguments (\<^verbatim>\<open>engineplan.go\<close>) and the memory pre-flight (\<^verbatim>\<open>budgetcheck.go\<close>).
\<close>

subsection \<open>Parallelism\<close>

definition vllmTensorParallelFlag :: gostring where "vllmTensorParallelFlag = ''--tensor-parallel-size''"
definition vllmPipelineParallelFlag :: gostring where "vllmPipelineParallelFlag = ''--pipeline-parallel-size''"
definition vllmDataParallelFlag :: gostring where "vllmDataParallelFlag = ''--data-parallel-size''"
definition vllmEnableExpertParallelFlag :: gostring where "vllmEnableExpertParallelFlag = ''--enable-expert-parallel''"

datatype par_error =
    ParNegative int int int
  | ParNotDivisible int int
  | ParTooWide int int
  | ParExperts int int "int list"

definition dataParallelWidth :: "int \<Rightarrow> int \<Rightarrow> par_error + int" where
  "dataParallelWidth tp ep =
     (if ep \<le> 1 then Inr 1
      else if ep mod tp \<noteq> 0 then Inl (ParNotDivisible ep tp)
      else Inr (ep div tp))"

definition size_arg :: "gostring \<Rightarrow> int \<Rightarrow> gostring" where
  "size_arg flag n = flag @ ''='' @ dec (nat n)"

definition parallelismArgs :: "int \<Rightarrow> int \<Rightarrow> int \<Rightarrow> int \<Rightarrow> gostring list" where
  "parallelismArgs tp pp dp ep =
     (if 1 < tp \<or> 1 < ep then [size_arg vllmTensorParallelFlag tp] else [])
     @ (if 1 < pp then [size_arg vllmPipelineParallelFlag pp] else [])
     @ (if 1 < dp then [size_arg vllmDataParallelFlag dp] else [])
     @ (if 1 < ep then [vllmEnableExpertParallelFlag] else [])"

text \<open>The sizes of a request; a missing message reads as zeros.\<close>

definition par_sizes :: "parallelism option \<Rightarrow> int \<times> int \<times> int" where
  "par_sizes p = (case p of None \<Rightarrow> (0, 0, 0) | Some p \<Rightarrow> (pl_tensor p, pl_pipeline p, pl_expert p))"

definition ValidateParallelism :: "parallelism option \<Rightarrow> int \<Rightarrow> bool \<Rightarrow> par_error + gostring list" where
  "ValidateParallelism p gpuCount cardsKnown =
     (let (tp0, pp0, ep) = par_sizes p in
      if tp0 = 0 \<and> pp0 = 0 \<and> ep = 0 then Inr []
      else if tp0 < 0 \<or> pp0 < 0 \<or> ep < 0 then Inl (ParNegative tp0 pp0 ep)
      else
        let tp = (if tp0 = 0 then 1 else tp0); pp = (if pp0 = 0 then 1 else pp0) in
        bindE (dataParallelWidth tp ep) (\<lambda>dp.
          if \<not> cardsKnown then Inr (parallelismArgs tp pp dp ep)
          else
            let cards = (if gpuCount \<le> 0 then 1 else gpuCount);
                want = wrap32 (wrap32 (tp * pp) * dp) in
            if cards < want then Inl (ParTooWide want cards)
            else Inr (parallelismArgs tp pp dp ep)))"

fun deploymentGPUCount_loop :: "replica_spec list \<Rightarrow> (int \<times> bool) option" where
  "deploymentGPUCount_loop [] = None"
| "deploymentGPUCount_loop (s # ss) =
     (if rs_engine_endpoint s \<noteq> [] then Some (0, False)
      else case rs_requirements s of
        Some r \<Rightarrow> Some (rq_gpu_count r, True)
      | None \<Rightarrow> deploymentGPUCount_loop ss)"

definition deploymentGPUCount :: "replica_spec list \<Rightarrow> int \<times> bool" where
  "deploymentGPUCount specs =
     (case deploymentGPUCount_loop specs of Some r \<Rightarrow> r | None \<Rightarrow> (0, specs \<noteq> []))"

subsection \<open>Experts\<close>

definition maxArrangeableEPDegree :: int where "maxArrangeableEPDegree = 32"

definition suggestEPDegrees :: "int \<Rightarrow> int list" where
  "suggestEPDegrees experts = filter (\<lambda>d. d dvd experts) [2..min maxArrangeableEPDegree experts]"

definition ValidateExpertShape :: "parallelism option \<Rightarrow> arch option \<Rightarrow> par_error option" where
  "ValidateExpertShape par a =
     (let ep = snd (snd (par_sizes par)); experts = (case a of None \<Rightarrow> 0 | Some a \<Rightarrow> ar_num_experts a) in
      if ep \<le> 1 then None
      else if experts \<le> 0 then None
      else if ep dvd experts then None
      else Some (ParExperts ep experts (suggestEPDegrees experts)))"

subsection \<open>The plan in the engine's arguments\<close>

definition vllmQuantizationFlag :: gostring where "vllmQuantizationFlag = ''--quantization''"
definition vllmKVCacheDtypeFlag :: gostring where "vllmKVCacheDtypeFlag = ''--kv-cache-dtype''"
definition vllmMaxModelLenFlag :: gostring where "vllmMaxModelLenFlag = ''--max-model-len''"
definition vllmMaxNumSeqsFlag :: gostring where "vllmMaxNumSeqsFlag = ''--max-num-seqs''"

definition normalizeEngineQuant :: "gostring \<Rightarrow> gostring" where
  "normalizeEngineQuant s =
     (let v = to_lower (trim_space s) in
      if has_prefix v ''awq'' then ''awq''
      else if has_prefix v ''gptq'' then ''gptq''
      else if has_prefix v ''fp8'' then ''fp8''
      else v)"

text \<open>\<^verbatim>\<open>strconv.Atoi\<close> and the positive values the switch accepts, cut to 32 bits.\<close>

definition positive_int32 :: "gostring \<Rightarrow> int option" where
  "positive_int32 value =
     (case go_atoi value of Some n \<Rightarrow> if 0 < n then Some (wrap32 n) else None | None \<Rightarrow> None)"

definition apply_flag :: "gostring \<Rightarrow> gostring \<Rightarrow> plan \<times> bool \<Rightarrow> plan \<times> bool" where
  "apply_flag flag value acc =
     (let (p, usable) = acc in
      if value = [] then acc
      else if flag = vllmQuantizationFlag then
        (case ParsePrecision (normalizeEngineQuant value) of
           Inr w \<Rightarrow> (p\<lparr>pn_weights := w\<rparr>, usable) | Inl _ \<Rightarrow> acc)
      else if flag = vllmKVCacheDtypeFlag then
        (if value = ''auto'' then acc
         else case ParsePrecision value of
           Inr w \<Rightarrow> (p\<lparr>pn_kv_cache := w\<rparr>, usable) | Inl _ \<Rightarrow> acc)
      else if flag = vllmMaxModelLenFlag then
        (case positive_int32 value of Some n \<Rightarrow> (p\<lparr>pn_max_model_len := n\<rparr>, True) | None \<Rightarrow> acc)
      else if flag = vllmMaxNumSeqsFlag then
        (case positive_int32 value of Some n \<Rightarrow> (p\<lparr>pn_max_batch := n\<rparr>, usable) | None \<Rightarrow> acc)
      else acc)"

definition cut_eq :: "gostring \<Rightarrow> (gostring \<times> gostring) option" where
  "cut_eq arg =
     (if CHR ''='' \<in> set arg
      then Some (takeWhile (\<lambda>c. c \<noteq> CHR ''='') arg, tl (dropWhile (\<lambda>c. c \<noteq> CHR ''='') arg))
      else None)"

fun plan_args :: "gostring list \<Rightarrow> plan \<times> bool \<Rightarrow> plan \<times> bool" where
  "plan_args [] acc = acc"
| "plan_args [arg] acc =
     (case cut_eq arg of
        Some (flag, value) \<Rightarrow> apply_flag flag value acc
      | None \<Rightarrow> apply_flag arg [] acc)"
| "plan_args (arg # nxt # rest) acc =
     (case cut_eq arg of
        Some (flag, value) \<Rightarrow> plan_args (nxt # rest) (apply_flag flag value acc)
      | None \<Rightarrow>
          if has_prefix nxt ''-'' then plan_args (nxt # rest) (apply_flag arg [] acc)
          else plan_args rest (apply_flag arg nxt acc))"

definition EnginePlan :: "gostring list \<Rightarrow> parallelism option \<Rightarrow> plan \<times> bool" where
  "EnginePlan args par =
     plan_args args
       (\<lparr>pn_weights = PrecisionFP16, pn_kv_cache = [], pn_max_model_len = 0, pn_max_batch = 1,
         pn_tp_size = fst (par_sizes par), pn_ep_size = snd (snd (par_sizes par))\<rparr>, False)"

subsection \<open>The memory pre-flight\<close>

record create_request =
  cq_deployment :: deployment
  cq_replicas_spec :: "replica_spec list"

definition isExternalDeploy :: "create_request \<Rightarrow> bool" where
  "isExternalDeploy req \<longleftrightarrow>
     cq_replicas_spec req \<noteq> [] \<and> list_all (\<lambda>s. rs_provider s = ProviderExternal) (cq_replicas_spec req)"

text \<open>
  What the check reads elsewhere: the MiB and the number of the cards of a recorded instance, the
  capacity in bytes a provider reports for a SKU (zero when it has none), and the model's shape.
\<close>

record preflight_env =
  pe_hardware :: "gostring \<Rightarrow> (int \<times> int) option"
  pe_capacity :: "gostring \<Rightarrow> gostring \<Rightarrow> int"
  pe_architecture :: "gostring \<Rightarrow> arch option"

fun capacity_loop :: "preflight_env \<Rightarrow> replica_spec list \<Rightarrow> int \<times> int" where
  "capacity_loop env [] = (0, 0)"
| "capacity_loop env (s # ss) =
     (case rs_requirements s of
        None \<Rightarrow> capacity_loop env ss
      | Some r \<Rightarrow>
          if rq_sku r \<noteq> [] \<and> 0 < pe_capacity env (rs_provider s) (rq_sku r)
          then (pe_capacity env (rs_provider s) (rq_sku r), rq_gpu_count r)
          else capacity_loop env ss)"

definition deployCardCapacity :: "preflight_env \<Rightarrow> create_request \<Rightarrow> int \<times> int" where
  "deployCardCapacity env req =
     (if dep_instance_id (cq_deployment req) \<noteq> [] then
        (case pe_hardware env (dep_instance_id (cq_deployment req)) of
           None \<Rightarrow> (0, 0)
         | Some (vram_mb, count) \<Rightarrow> (wrap64 (vram_mb * 1024 * 1024), count))
      else capacity_loop env (cq_replicas_spec req))"

datatype budget_term = TermWeights | TermCache | TermActivation

definition largestBudgetTerm :: "budget \<Rightarrow> budget_term" where
  "largestBudgetTerm b =
     (let (t, biggest) = (if bg_weight b < bg_kv b then (TermCache, bg_kv b) else (TermWeights, bg_weight b)) in
      if biggest < bg_activation b then TermActivation else t)"

datatype preflight = Skipped | Passed | Warned | Refused budget_term

definition budgetCheck :: "preflight_env \<Rightarrow> create_request \<Rightarrow> preflight" where
  "budgetCheck env req =
     (let dep = cq_deployment req;
          (plan0, usable) = EnginePlan (dep_engine_args dep) (dep_parallelism dep);
          (cardBytes, cards) = deployCardCapacity env req;
          plan = (if 0 < cards \<and> pn_ep_size plan0 \<le> 1 then plan0\<lparr>pn_tp_size := cards\<rparr> else plan0) in
      if isExternalDeploy req then Skipped
      else if \<not> usable then Skipped
      else if cardBytes \<le> 0 then Skipped
      else case pe_architecture env (dep_model dep) of
        None \<Rightarrow> Skipped
      | Some a \<Rightarrow>
          if ar_quantization a \<noteq> [] then Skipped
          else case Compute fl64 (Some a) plan of
            Inl e \<Rightarrow> Skipped
          | Inr b \<Rightarrow>
              (case Against b (UsableBytes fl64 cardBytes (fl64 DefaultUtilization)) of
                 Overcommitted \<Rightarrow> Refused (largestBudgetTerm b)
               | Tight \<Rightarrow> Warned
               | Fits \<Rightarrow> Passed))"

definition expertShapeCheck :: "preflight_env \<Rightarrow> create_request \<Rightarrow> par_error option" where
  "expertShapeCheck env req =
     (let dep = cq_deployment req in
      if snd (snd (par_sizes (dep_parallelism dep))) \<le> 1 then None
      else ValidateExpertShape (dep_parallelism dep) (pe_architecture env (dep_model dep)))"

subsection \<open>The split the engine is told is the split that was checked\<close>

lemmas flag_defs = vllmTensorParallelFlag_def vllmPipelineParallelFlag_def vllmDataParallelFlag_def
  vllmEnableExpertParallelFlag_def

lemma size_arg_prefix:
  "has_prefix (size_arg f n) (f @ ''='')" "drop (Suc (length f)) (size_arg f n) = dec (nat n)"
  by (simp_all add: size_arg_def has_prefix_def)

lemma flags_apart:
  "\<not> has_prefix (size_arg vllmTensorParallelFlag n) (vllmPipelineParallelFlag @ ''='')"
  "\<not> has_prefix (size_arg vllmTensorParallelFlag n) (vllmDataParallelFlag @ ''='')"
  "\<not> has_prefix (size_arg vllmPipelineParallelFlag n) (vllmTensorParallelFlag @ ''='')"
  "\<not> has_prefix (size_arg vllmPipelineParallelFlag n) (vllmDataParallelFlag @ ''='')"
  "\<not> has_prefix (size_arg vllmDataParallelFlag n) (vllmTensorParallelFlag @ ''='')"
  "\<not> has_prefix (size_arg vllmDataParallelFlag n) (vllmPipelineParallelFlag @ ''='')"
  "\<not> has_prefix vllmEnableExpertParallelFlag (vllmTensorParallelFlag @ ''='')"
  "\<not> has_prefix vllmEnableExpertParallelFlag (vllmPipelineParallelFlag @ ''='')"
  "\<not> has_prefix vllmEnableExpertParallelFlag (vllmDataParallelFlag @ ''='')"
  "size_arg vllmTensorParallelFlag n \<noteq> vllmEnableExpertParallelFlag"
  "size_arg vllmPipelineParallelFlag n \<noteq> vllmEnableExpertParallelFlag"
  "size_arg vllmDataParallelFlag n \<noteq> vllmEnableExpertParallelFlag"
  by (simp_all add: size_arg_def has_prefix_def flag_defs)

lemma size_arg_inj: "size_arg f n = size_arg f m \<Longrightarrow> 1 \<le> n \<Longrightarrow> 1 \<le> m \<Longrightarrow> n = m"
proof -
  assume "size_arg f n = size_arg f m" "1 \<le> n" "1 \<le> m"
  moreover from this have "undec 0 (dec (nat n)) = undec 0 (dec (nat m))" by (simp only: size_arg_def same_append_eq)
  ultimately show "n = m" by (simp add: undec_dec)
qed

lemma wrap32_mult: "wrap32 (wrap32 x * d) = wrap32 (x * d)"
proof -
  have "wrap32 x * d = x * d - (x + 2 ^ 31) div 2 ^ 32 * d * 2 ^ 32"
    by (simp add: wrap32_def minus_div_mult_eq_mod [symmetric] algebra_simps)
  moreover have "wrap32 (y - z * 2 ^ 32) = wrap32 y" for y z
    using mod_mult_self1 [of "y + 2 ^ 31" "- z" "2 ^ 32"] by (simp add: wrap32_def algebra_simps)
  ultimately show ?thesis by metis
qed

lemma flags_distinct:
  "size_arg vllmTensorParallelFlag n \<noteq> size_arg vllmPipelineParallelFlag k"
  "size_arg vllmTensorParallelFlag n \<noteq> size_arg vllmDataParallelFlag k"
  "size_arg vllmPipelineParallelFlag n \<noteq> size_arg vllmDataParallelFlag k"
  using flags_apart(1,2,4) size_arg_prefix(1) by metis+

text \<open>
  A split is accepted exactly when the sizes are not negative, the tensor split divides the expert degree,
  and, where the cards are known, the 32-bit product of the three sizes is at most their number.  The
  arguments then carry exactly the sizes that were compared, and under expert parallelism the two that an engine
  multiplies to its expert degree give the requested one.  The product is the code's: a product of \<open>2 ^ 32\<close> counts as no
  cards (\<open>parallelism_overflow_accepted\<close>); below \<open>2 ^ 31\<close> it is the true one.
\<close>

theorem parallelism_admits_exactly:
  assumes "par_sizes p = (tp0, pp0, ep)" and "\<not> (tp0 = 0 \<and> pp0 = 0 \<and> ep = 0)"
    and "tp = (if tp0 = 0 then 1 else tp0)" and "pp = (if pp0 = 0 then 1 else pp0)"
    and "dp = (if ep \<le> 1 then 1 else ep div tp)"
  shows "((\<exists>args. ValidateParallelism p gpuCount known = Inr args) \<longleftrightarrow>
       0 \<le> tp0 \<and> 0 \<le> pp0 \<and> 0 \<le> ep \<and> (1 < ep \<longrightarrow> tp dvd ep) \<and> (known \<longrightarrow> wrap32 (tp * pp * dp) \<le> max 1 gpuCount))
    \<and> (\<forall>args. ValidateParallelism p gpuCount known = Inr args \<longrightarrow>
       (1 < ep \<longrightarrow> tp * dp = ep) \<and> (vllmEnableExpertParallelFlag \<in> set args \<longleftrightarrow> 1 < ep)
       \<and> (\<forall>n \<ge> 1. (size_arg vllmTensorParallelFlag n \<in> set args \<longleftrightarrow> n = tp \<and> (1 < tp \<or> 1 < ep))
           \<and> (size_arg vllmPipelineParallelFlag n \<in> set args \<longleftrightarrow> n = pp \<and> 1 < pp)
           \<and> (size_arg vllmDataParallelFlag n \<in> set args \<longleftrightarrow> n = dp \<and> 1 < dp)))"
proof -
  let ?nn = "0 \<le> tp0 \<and> 0 \<le> pp0 \<and> 0 \<le> ep" and ?dv = "1 < ep \<longrightarrow> tp dvd ep"
  have dpw: "dataParallelWidth tp ep = (if ?dv then Inr dp else Inl (ParNotDivisible ep tp))"
    using assms(5) by (auto simp: dataParallelWidth_def dvd_eq_mod_eq_0)
  note wrap = wrap32_mult [of "tp * pp" dp]
  have run: "ValidateParallelism p gpuCount known =
      (if \<not> ?nn then Inl (ParNegative tp0 pp0 ep)
       else if \<not> ?dv then Inl (ParNotDivisible ep tp)
       else if known \<and> max 1 gpuCount < wrap32 (tp * pp * dp) then Inl (ParTooWide (wrap32 (tp * pp * dp)) (max 1 gpuCount))
       else Inr (parallelismArgs tp pp dp ep))"
  proof -
    have "(if tp0 = 0 then 1 else tp0) = tp" "(if pp0 = 0 then 1 else pp0) = pp" using assms(3,4) by simp_all
    then show ?thesis
      using assms(2) by (auto simp: ValidateParallelism_def assms(1) dpw wrap Let_def max_def)
  qed
  have "(\<exists>args. ValidateParallelism p gpuCount known = Inr args) \<longleftrightarrow>
       0 \<le> tp0 \<and> 0 \<le> pp0 \<and> 0 \<le> ep \<and> (1 < ep \<longrightarrow> tp dvd ep) \<and> (known \<longrightarrow> wrap32 (tp * pp * dp) \<le> max 1 gpuCount)"
    unfolding run by (auto simp: not_less)
  moreover have "(1 < ep \<longrightarrow> tp * dp = ep) \<and> (vllmEnableExpertParallelFlag \<in> set args \<longleftrightarrow> 1 < ep)
       \<and> (\<forall>n \<ge> 1. (size_arg vllmTensorParallelFlag n \<in> set args \<longleftrightarrow> n = tp \<and> (1 < tp \<or> 1 < ep))
           \<and> (size_arg vllmPipelineParallelFlag n \<in> set args \<longleftrightarrow> n = pp \<and> 1 < pp)
           \<and> (size_arg vllmDataParallelFlag n \<in> set args \<longleftrightarrow> n = dp \<and> 1 < dp))"
    if "ValidateParallelism p gpuCount known = Inr args" for args
  proof -
    from that have ok: "?nn" "?dv" "args = parallelismArgs tp pp dp ep"
      unfolding run by (auto split: if_splits)
    have "1 \<le> tp" "1 \<le> pp" using ok(1) assms(3,4) by auto
    then show ?thesis
      using ok(2) assms(5) unfolding ok(3) parallelismArgs_def
      by (auto simp: flags_apart flags_apart(10-12) [THEN not_sym] flags_distinct flags_distinct [THEN not_sym] dest: size_arg_inj)
  qed
  ultimately show ?thesis by blast
qed

text \<open>
  A split the cards can carry: the sizes are not negative, an unset one counts as one way, the tensor split divides the
  expert degree, and where the number of cards is known, a product of the sizes within 31 bits is at most that number.
\<close>

definition split_fits :: "parallelism option \<Rightarrow> int \<Rightarrow> bool \<Rightarrow> bool" where
  "split_fits p cards known \<longleftrightarrow>
     (let (tp0, pp0, ep) = par_sizes p; tp = max 1 tp0; pp = max 1 pp0; world = tp * pp * (if ep \<le> 1 then 1 else ep div tp) in
      0 \<le> tp0 \<and> 0 \<le> pp0 \<and> 0 \<le> ep \<and> (1 < ep \<longrightarrow> tp dvd ep) \<and> (known \<and> world < 2 ^ 31 \<longrightarrow> world \<le> max 1 cards))"

lemma admitted_split_fits:
  assumes "ValidateParallelism p cards known = Inr args"
  shows "split_fits p cards known"
proof -
  obtain tp0 pp0 ep where s: "par_sizes p = (tp0, pp0, ep)" by (metis prod_cases3)
  show ?thesis
  proof (cases "tp0 = 0 \<and> pp0 = 0 \<and> ep = 0")
    case True
    then show ?thesis by (simp add: split_fits_def s)
  next
    case False
    define tp pp where "tp = (if tp0 = 0 then 1 else tp0)" and "pp = (if pp0 = 0 then 1 else pp0)"
    define dp where "dp = (if ep \<le> 1 then 1 else ep div tp)"
    from parallelism_admits_exactly [OF s False tp_def pp_def dp_def, of cards known] assms
    have a: "0 \<le> tp0" "0 \<le> pp0" "0 \<le> ep" "1 < ep \<longrightarrow> tp dvd ep" "known \<longrightarrow> wrap32 (tp * pp * dp) \<le> max 1 cards" by blast+
    have m: "max 1 tp0 = tp" "max 1 pp0 = pp" using a(1,2) by (auto simp: tp_def pp_def)
    have "0 \<le> tp" "0 \<le> pp" "0 \<le> dp" using a(1-3) by (auto simp: tp_def pp_def dp_def pos_imp_zdiv_nonneg_iff)
    then have "0 \<le> tp * pp * dp" by simp
    moreover have "split_fits p cards known \<longleftrightarrow>
        0 \<le> tp0 \<and> 0 \<le> pp0 \<and> 0 \<le> ep \<and> (1 < ep \<longrightarrow> tp dvd ep) \<and> (known \<and> tp * pp * dp < 2 ^ 31 \<longrightarrow> tp * pp * dp \<le> max 1 cards)"
      by (simp only: split_fits_def s Let_def prod.case m dp_def)
    ultimately show ?thesis using a wrap32_nonneg [of "tp * pp * dp"] by auto
  qed
qed

abbreviation tp2_ep8 :: "parallelism option" where
  "tp2_ep8 \<equiv> Some \<lparr>pl_tensor = 2, pl_pipeline = 0, pl_expert = 8\<rparr>"

theorem parallelism_admits_exactly_witness:
  "(\<exists>args. ValidateParallelism tp2_ep8 8 True = Inr args) \<and> \<not> (\<exists>args. ValidateParallelism tp2_ep8 4 True = Inr args)"
proof -
  have sizes: "par_sizes tp2_ep8 = (2, 0, 8)" by (simp add: par_sizes_def)
  have "(\<exists>args. ValidateParallelism tp2_ep8 n True = Inr args) \<longleftrightarrow> 8 \<le> max 1 n" for n
    using conjunct1 [OF parallelism_admits_exactly [OF sizes _ refl refl refl, where gpuCount = n and known = True]]
    by simp
  then show ?thesis by simp
qed

text \<open>
  The product of the sizes is taken in 32 bits: a split into \<open>2 ^ 32\<close> ways counts as no cards
  at all and is accepted on a single one.
\<close>

theorem parallelism_overflow_accepted:
  "ValidateParallelism (Some \<lparr>pl_tensor = 65536, pl_pipeline = 65536, pl_expert = 0\<rparr>) 1 True
     = Inr [size_arg vllmTensorParallelFlag 65536, size_arg vllmPipelineParallelFlag 65536]"
  by (simp add: ValidateParallelism_def par_sizes_def dataParallelWidth_def wrap32_def parallelismArgs_def)

text \<open>
  The expert check refuses exactly the uneven splits.  With the model's expert count known, a
  degree above one is refused exactly when it does not divide the count, and then every degree it
  suggests would have been accepted.
\<close>

theorem expert_shape_exact:
  assumes "pl_expert p = ep" and "1 < ep" and "0 < ar_num_experts a"
  shows "(ValidateExpertShape (Some p) (Some a) = None \<longleftrightarrow> ep dvd ar_num_experts a)
    \<and> (\<forall>e x ds. ValidateExpertShape (Some p) (Some a) = Some (ParExperts e x ds) \<longrightarrow>
         (\<forall>d. d \<in> set ds \<longleftrightarrow> 2 \<le> d \<and> d \<le> maxArrangeableEPDegree
            \<and> d \<le> ar_num_experts a \<and> ValidateExpertShape (Some (p\<lparr>pl_expert := d\<rparr>)) (Some a) = None))"
  using assms by (auto simp: ValidateExpertShape_def par_sizes_def suggestEPDegrees_def Let_def split: if_splits)

theorem expert_shape_exact_witness:
  "ValidateExpertShape (Some \<lparr>pl_tensor = 0, pl_pipeline = 0, pl_expert = 4\<rparr>) (Some sparse_sample) = None
   \<and> ValidateExpertShape (Some \<lparr>pl_tensor = 0, pl_pipeline = 0, pl_expert = 3\<rparr>) (Some sparse_sample) \<noteq> None"
  using expert_shape_exact [of "\<lparr>pl_tensor = 0, pl_pipeline = 0, pl_expert = 4\<rparr>" 4 sparse_sample]
    expert_shape_exact [of "\<lparr>pl_tensor = 0, pl_pipeline = 0, pl_expert = 3\<rparr>" 3 sparse_sample]
  by (simp add: sparse_sample_shape)

subsection \<open>Reading the plan back\<close>

lemma plan_args_append:
  "has_prefix b ''-'' \<Longrightarrow> plan_args (args @ b # bs) acc = plan_args (b # bs) (plan_args args acc)"
proof (induction args acc rule: plan_args.induct)
  case (2 arg acc)
  then show ?case by (auto split: option.splits)
next
  case (3 arg nxt rest acc)
  then show ?case by (auto split: option.splits)
qed simp

lemma cut_eq_size_arg: "CHR ''='' \<notin> set flag \<Longrightarrow> cut_eq (size_arg flag n) = Some (flag, dec (nat n))"
  by (simp add: cut_eq_def size_arg_def takeWhile_append dropWhile_append)

lemma positive_int32_dec: "0 < n \<Longrightarrow> n < 2 ^ 31 \<Longrightarrow> positive_int32 (dec (nat n)) = Some n"
  using go_atoi_dec [of "nat n"] by (simp add: positive_int32_def max_int64_def)

text \<open>
  C28: the pre-flight sizes the plan the engine is given.  Whatever arguments precede them, a final
  \<^verbatim>\<open>--max-model-len\<close> and \<^verbatim>\<open>--max-num-seqs\<close>, each written with an equals sign or as two arguments,
  decide the context and the batch of the budget; the plan then counts as complete, the formats are those of the
  arguments before, and the requested split is carried over.  The values are positive and below \<open>2 ^ 31\<close>
  (\<open>engine_plan_cuts_context\<close> is what happens beyond).
\<close>

theorem engine_plan_reads_back:
  assumes "0 < len" "len < 2 ^ 31" "0 < seqs" "seqs < 2 ^ 31"
    and "len_args \<in> {[size_arg vllmMaxModelLenFlag len], [vllmMaxModelLenFlag, dec (nat len)]}"
    and "seq_args \<in> {[size_arg vllmMaxNumSeqsFlag seqs], [vllmMaxNumSeqsFlag, dec (nat seqs)]}"
  shows "case EnginePlan (args @ len_args @ seq_args) par of
           (p, usable) \<Rightarrow> usable \<and> pn_max_model_len p = len \<and> pn_max_batch p = seqs
             \<and> pn_weights p = pn_weights (fst (EnginePlan args par))
             \<and> pn_kv_cache p = pn_kv_cache (fst (EnginePlan args par))
             \<and> (pn_tp_size p, pn_ep_size p) = (fst (par_sizes par), snd (snd (par_sizes par)))"
proof -
  have dash: "has_prefix (size_arg vllmMaxModelLenFlag len) ''-''" "has_prefix (size_arg vllmMaxNumSeqsFlag seqs) ''-''"
    "has_prefix vllmMaxModelLenFlag ''-''" "has_prefix vllmMaxNumSeqsFlag ''-''" "\<not> has_prefix (dec n) ''-''" for n
    using dec_digits [of n] dec_nonempty [of n]
    by (auto simp: has_prefix_def size_arg_def vllmMaxModelLenFlag_def vllmMaxNumSeqsFlag_def is_digit_def neq_Nil_conv)
  have cut: "cut_eq (size_arg vllmMaxModelLenFlag len) = Some (vllmMaxModelLenFlag, dec (nat len))"
    "cut_eq (size_arg vllmMaxNumSeqsFlag seqs) = Some (vllmMaxNumSeqsFlag, dec (nat seqs))"
    by (rule cut_eq_size_arg, simp add: vllmMaxModelLenFlag_def vllmMaxNumSeqsFlag_def)+
  have plain: "cut_eq vllmMaxModelLenFlag = None" "cut_eq vllmMaxNumSeqsFlag = None"
    by (simp_all add: cut_eq_def vllmMaxModelLenFlag_def vllmMaxNumSeqsFlag_def)
  have keep: "pn_tp_size (fst (apply_flag f v acc)) = pn_tp_size (fst acc)"
    "pn_ep_size (fst (apply_flag f v acc)) = pn_ep_size (fst acc)" for f v acc
    by (auto simp: apply_flag_def Let_def split: prod.splits sum.splits option.splits)
  have split: "pn_tp_size (fst (plan_args as acc)) = pn_tp_size (fst acc)
      \<and> pn_ep_size (fst (plan_args as acc)) = pn_ep_size (fst acc)" for as acc
    by (induction as acc rule: plan_args.induct) (auto simp: keep split: option.splits)
  have len: "apply_flag vllmMaxModelLenFlag (dec (nat len)) acc = ((fst acc)\<lparr>pn_max_model_len := len\<rparr>, True)" for acc
    using positive_int32_dec [OF assms(1,2)] dec_nonempty
    by (simp add: apply_flag_def vllmMaxModelLenFlag_def vllmQuantizationFlag_def vllmKVCacheDtypeFlag_def split_beta)
  have seqs: "apply_flag vllmMaxNumSeqsFlag (dec (nat seqs)) acc = ((fst acc)\<lparr>pn_max_batch := seqs\<rparr>, snd acc)" for acc
    using positive_int32_dec [OF assms(3,4)] dec_nonempty
    by (simp add: apply_flag_def vllmMaxModelLenFlag_def vllmMaxNumSeqsFlag_def vllmQuantizationFlag_def
        vllmKVCacheDtypeFlag_def split_beta)
  have "plan_args (args @ len_args @ seq_args) acc
      = ((fst (plan_args args acc))\<lparr>pn_max_model_len := len, pn_max_batch := seqs\<rparr>, True)" for acc
    using assms(5,6) by (auto simp: plan_args_append dash cut plain len seqs)
  then show ?thesis by (simp add: EnginePlan_def split)
qed

theorem engine_plan_reads_back_witness:
  "case EnginePlan ([''--quantization'', ''awq_marlin'', ''--enforce-eager'']
       @ [vllmMaxModelLenFlag, dec (nat 8192)] @ [size_arg vllmMaxNumSeqsFlag 4]) None of
     (p, usable) \<Rightarrow> usable \<and> pn_max_model_len p = 8192 \<and> pn_max_batch p = 4"
  using engine_plan_reads_back [of 8192 4 "[vllmMaxModelLenFlag, dec (nat 8192)]" "[size_arg vllmMaxNumSeqsFlag 4]"
      "[''--quantization'', ''awq_marlin'', ''--enforce-eager'']" None]
  by (auto split: prod.splits)

text \<open>
  Two arguments the plan misreads.  A context length beyond 32 bits is cut: the budget is made for
  a context of one token.  And a cache type named by its format, as engines spell it, is not
  normalized the way a weight type is, so the cache is priced at the weights' precision.
\<close>

theorem engine_plan_cuts_context:
  "EnginePlan [size_arg vllmMaxModelLenFlag 4294967297] None =
     (\<lparr>pn_weights = ''fp16'', pn_kv_cache = [], pn_max_model_len = 1, pn_max_batch = 1, pn_tp_size = 0, pn_ep_size = 0\<rparr>, True)"
proof -
  have "positive_int32 (dec (nat 4294967297)) = Some 1"
    using go_atoi_dec [of "nat 4294967297"] by (simp add: positive_int32_def max_int64_def wrap32_def)
  moreover have "cut_eq (size_arg vllmMaxModelLenFlag 4294967297) = Some (vllmMaxModelLenFlag, dec (nat 4294967297))"
    by (rule cut_eq_size_arg) (simp add: vllmMaxModelLenFlag_def)
  ultimately show ?thesis
    using dec_nonempty by (simp add: EnginePlan_def apply_flag_def vllmMaxModelLenFlag_def vllmQuantizationFlag_def
        vllmKVCacheDtypeFlag_def par_sizes_def)
qed

theorem engine_plan_drops_cache_format:
  "pn_kv_cache (fst (EnginePlan [''--kv-cache-dtype'', ''fp8_e4m3''] None)) = []
   \<and> pn_weights (fst (EnginePlan [''--quantization'', ''fp8_e4m3''] None)) = ''fp8''"
proof -
  have trim: "trim_space ''fp8_e4m3'' = ''fp8_e4m3''" "trim_space ''fp8'' = ''fp8''"
    by (rule trim_space_plain; simp add: plain_def)+
  have low: "to_lower ''fp8_e4m3'' = ''fp8_e4m3''" "to_lower ''fp8'' = ''fp8''"
    by (rule to_lower_plain; simp)+
  show ?thesis
    by (simp add: EnginePlan_def cut_eq_def has_prefix_def apply_flag_def ParsePrecision_def normalizeEngineQuant_def
        trim low vllmQuantizationFlag_def vllmKVCacheDtypeFlag_def Let_def del: to_lower.simps)
qed

subsection \<open>The pre-flight\<close>

definition claim_of :: "budget \<Rightarrow> budget_term \<Rightarrow> int" where
  "claim_of b t = (case t of TermWeights \<Rightarrow> bg_weight b | TermCache \<Rightarrow> bg_kv b | TermActivation \<Rightarrow> bg_activation b)"

lemma largest_is_largest: "claim_of b t \<le> claim_of b (largestBudgetTerm b)"
  by (cases t) (auto simp: claim_of_def largestBudgetTerm_def)

text \<open>
  When the pre-flight refuses.  A deployment is refused exactly when it is not an attached engine, states a
  context length, the card's capacity and the shape of a model not published in a quantized format are known,
  and the working set of the plan exceeds the share of the card (nine tenths) that the engine may use; the claim
  it names is a largest one.
\<close>

theorem budget_check_refuses_exactly:
  assumes "EnginePlan (dep_engine_args (cq_deployment req)) (dep_parallelism (cq_deployment req)) = (plan0, usable)"
    and "deployCardCapacity env req = (cardBytes, cards)"
    and "plan = (if 0 < cards \<and> pn_ep_size plan0 \<le> 1 then plan0\<lparr>pn_tp_size := cards\<rparr> else plan0)"
  shows "((\<exists>t. budgetCheck env req = Refused t) \<longleftrightarrow>
       \<not> isExternalDeploy req \<and> usable \<and> 0 < cardBytes
       \<and> (\<exists>a b. pe_architecture env (dep_model (cq_deployment req)) = Some a \<and> ar_quantization a = []
            \<and> Compute fl64 (Some a) plan = Inr b
            \<and> UsableBytes fl64 cardBytes (fl64 DefaultUtilization) < min (WorkingSetBytes b) (TotalBytes b)))
    \<and> (\<forall>t a b. budgetCheck env req = Refused t \<longrightarrow> pe_architecture env (dep_model (cq_deployment req)) = Some a \<longrightarrow>
         Compute fl64 (Some a) plan = Inr b \<longrightarrow> (\<forall>t'. claim_of b t' \<le> claim_of b t))"
proof -
  have run: "budgetCheck env req =
      (if isExternalDeploy req \<or> \<not> usable \<or> cardBytes \<le> 0 then Skipped
       else case pe_architecture env (dep_model (cq_deployment req)) of None \<Rightarrow> Skipped
       | Some a \<Rightarrow> if ar_quantization a \<noteq> [] then Skipped
           else case Compute fl64 (Some a) plan of Inl e \<Rightarrow> Skipped
           | Inr b \<Rightarrow> (case Against b (UsableBytes fl64 cardBytes (fl64 DefaultUtilization)) of
                 Overcommitted \<Rightarrow> Refused (largestBudgetTerm b) | Tight \<Rightarrow> Warned | Fits \<Rightarrow> Passed))"
    unfolding assms(3) by (simp add: budgetCheck_def assms(1,2) Let_def)
  show ?thesis unfolding run
    by (auto simp: Against_def largest_is_largest split: option.splits sum.splits if_splits)
qed

definition small_env :: preflight_env where
  "small_env = \<lparr>pe_hardware = (\<lambda>_. Some (0, 1)), pe_capacity = (\<lambda>_ _. 10), pe_architecture = (\<lambda>_. Some tiny_arch)\<rparr>"

definition small_request :: create_request where
  "small_request = \<lparr>cq_deployment = zero_deployment\<lparr>dep_engine_args := [''--max-model-len=1'']\<rparr>,
     cq_replicas_spec = [\<lparr>rs_provider = ''p'', rs_region = [], rs_requirements = Some (\<lparr>rq_min_vram_gb = 0,
        rq_min_disk_gb = 0, rq_min_ram_gb = 0, rq_gpu_count = 1, rq_class = [], rq_sku = ''s'', rq_fabric_scope = ScopeUnspecified,
        rq_min_fabric_gbps = 0, rq_reclaim_policy = ReclaimUnspecified, rq_architecture = []\<rparr>), rs_replicas = 1,
        rs_engine_endpoint = [], rs_nodes = 1\<rparr>]\<rparr>"

lemma small_plan: "EnginePlan (dep_engine_args (cq_deployment small_request)) (dep_parallelism (cq_deployment small_request)) =
    (tiny_plan\<lparr>pn_max_batch := 1\<rparr>, True)"
  "deployCardCapacity small_env small_request = (10, 1)"
  "tiny_plan\<lparr>pn_max_batch := 1, pn_tp_size := 1\<rparr> =
     (if 0 < (1 :: int) \<and> pn_ep_size (tiny_plan\<lparr>pn_max_batch := 1\<rparr>) \<le> 1
      then (tiny_plan\<lparr>pn_max_batch := 1\<rparr>)\<lparr>pn_tp_size := 1\<rparr> else tiny_plan\<lparr>pn_max_batch := 1\<rparr>)"
  by code_simp+

lemma small_floats [simp]:
  "fl64 1 = 1" "fl64 4 = 4" "fl64 10 = 10" "fl64 20 = 20" "fl64 24 = 24"
  "to_int64 (fl64 (10 * fl64 DefaultUtilization)) = 9"
  "to_int64 (fl64 (24 * fl64 OverheadFraction)) = 3"
  by code_simp+

lemma small_usable: "UsableBytes fl64 10 (fl64 DefaultUtilization) = 9"
proof -
  have "fl64 DefaultUtilization = 8106479329266893 / 9007199254740992" by code_simp
  moreover from this have "\<not> (fl64 DefaultUtilization \<le> 0 \<or> 1 < fl64 DefaultUtilization)" by simp
  ultimately show ?thesis using small_floats(3,6) by (simp add: UsableBytes_def Let_def)
qed

abbreviation small_split :: plan where
  "small_split \<equiv> tiny_plan\<lparr>pn_max_batch := 1, pn_tp_size := 1\<rparr>"

lemma small_claims:
  "weight_float fl64 tiny_arch small_split = 20" "kv_float fl64 tiny_arch small_split = 4"
  "activation_float fl64 tiny_arch small_split = 0"
proof -
  show "weight_float fl64 tiny_arch small_split = 20"
    by (simp add: weight_float_def tiny_arch_def llama70b_def tiny_plan_def fp16_plan_def RoutedExpertParams_def
        BytesPerParam_def TensorWidth_def expertCards_def max_int64_def min_int64_def)
  show "kv_float fl64 tiny_arch small_split = 4"
    by (simp add: kv_float_def kv_total_def tiny_arch_def llama70b_def tiny_plan_def fp16_plan_def KVBytesPerToken_def
        LatentCache_def CachingLayers_def BytesPerCacheElement_def cacheDtype_def TensorWidth_def max_int64_def min_int64_def)
  show "activation_float fl64 tiny_arch small_split = 0"
    by (simp add: activation_float_def activation_total_def tiny_arch_def llama70b_def tiny_plan_def fp16_plan_def)
qed

lemma small_working_set: "WorkingSetBytes (budget_of fl64 tiny_arch small_split) = 24"
  by (simp add: WorkingSetBytes_def budget_of_floats small_claims to_int64_def max_int64_def min_int64_def)

lemma small_budget:
  "\<exists>b. Compute fl64 (Some tiny_arch) small_split = Inr b \<and> WorkingSetBytes b = 24 \<and> TotalBytes b = 27"
proof -
  let ?b = "budget_of fl64 tiny_arch small_split"
  have ok: "Compute fl64 (Some tiny_arch) small_split = Inr ?b"
    by (simp add: Compute_def ValidateArch_def plan_Validate_def tiny_arch_def llama70b_def tiny_plan_def fp16_plan_def
        BytesPerParam_def BytesPerCacheElement_def cacheDtype_def)
  have "bg_overhead ?b = 3"
    using small_floats(5,7) by (simp add: budget_of_floats overhead_float_def small_working_set)
  with ok small_working_set show ?thesis by (simp add: TotalBytes_def max_int64_def min_int64_def)
qed

theorem budget_check_refuses_exactly_witness: "\<exists>t. budgetCheck small_env small_request = Refused t"
proof -
  have "\<not> isExternalDeploy small_request" by code_simp
  moreover have "ar_quantization tiny_arch = []" by code_simp
  moreover have "pe_architecture small_env m = Some tiny_arch" for m by (simp add: small_env_def)
  ultimately show ?thesis
    using conjunct1 [OF budget_check_refuses_exactly [OF small_plan]] small_budget small_usable by auto
qed

subsection \<open>More cards\<close>

text \<open>The same request for machines with \<open>n\<close> cards.\<close>

definition with_cards :: "int \<Rightarrow> create_request \<Rightarrow> create_request" where
  "with_cards n req = req\<lparr>cq_replicas_spec := map (\<lambda>s. s\<lparr>rs_requirements := map_option (\<lambda>r. r\<lparr>rq_gpu_count := n\<rparr>)
     (rs_requirements s)\<rparr>) (cq_replicas_spec req)\<rparr>"

definition severity :: "preflight \<Rightarrow> nat" where
  "severity v = (case v of Skipped \<Rightarrow> 0 | Passed \<Rightarrow> 1 | Warned \<Rightarrow> 2 | Refused _ \<Rightarrow> 3)"

lemma capacity_with_cards:
  "capacity_loop env (map (\<lambda>s. s\<lparr>rs_requirements := map_option (\<lambda>r. r\<lparr>rq_gpu_count := n\<rparr>) (rs_requirements s)\<rparr>) ss)
     = (let c = fst (capacity_loop env ss) in (c, if 0 < c then n else 0))"
  by (induction ss) (auto simp: Let_def split: option.splits)

lemma with_cards_frame:
  "cq_deployment (with_cards n req) = cq_deployment req" "isExternalDeploy (with_cards n req) = isExternalDeploy req"
  by (simp_all add: with_cards_def isExternalDeploy_def list_all_iff)

lemma deploy_capacity_with_cards:
  "deployCardCapacity env (with_cards n req) = (let (c, k) = deployCardCapacity env req in
     (c, if dep_instance_id (cq_deployment req) \<noteq> [] then k else if 0 < c then n else 0))"
  by (auto simp: deployCardCapacity_def with_cards_frame capacity_with_cards Let_def with_cards_def split: option.splits prod.splits)

lemma Compute_either: "(\<exists>e. Compute fl (Some a) p = Inl e) \<or> Compute fl (Some a) p = Inr (budget_of fl a p)"
  by (cases "ValidateArch (Some a)"; cases "plan_Validate fl p") (auto simp: Compute_def dest: ValidateArch_some)

lemma Compute_tp: "(\<exists>e. Compute fl (Some a) (p\<lparr>pn_tp_size := x\<rparr>) = Inl e) \<longleftrightarrow> (\<exists>e. Compute fl (Some a) p = Inl e)"
  by (cases "ValidateArch (Some a)"; cases "plan_Validate fl p") (auto simp: Compute_def)

text \<open>What the check answers once it has everything, and when it has.\<close>

definition answer_of :: "arch \<Rightarrow> plan \<Rightarrow> int \<Rightarrow> preflight" where
  "answer_of a p usable = (case Against (budget_of fl64 a p) usable of
     Overcommitted \<Rightarrow> Refused (largestBudgetTerm (budget_of fl64 a p)) | Tight \<Rightarrow> Warned | Fits \<Rightarrow> Passed)"

definition unpriced :: "preflight_env \<Rightarrow> create_request \<Rightarrow> bool" where
  "unpriced env req \<longleftrightarrow>
     (let dep = cq_deployment req; (plan0, usable) = EnginePlan (dep_engine_args dep) (dep_parallelism dep) in
      isExternalDeploy req \<or> \<not> usable \<or> fst (deployCardCapacity env req) \<le> 0
      \<or> (case pe_architecture env (dep_model dep) of None \<Rightarrow> True
         | Some a \<Rightarrow> ar_quantization a \<noteq> [] \<or> (\<exists>e. Compute fl64 (Some a) plan0 = Inl e)))"

lemma budgetCheck_answer:
  assumes "EnginePlan (dep_engine_args (cq_deployment req)) (dep_parallelism (cq_deployment req)) = (plan0, usable)"
    and "deployCardCapacity env req = (c, cards)"
    and "plan = (if 0 < cards \<and> pn_ep_size plan0 \<le> 1 then plan0\<lparr>pn_tp_size := cards\<rparr> else plan0)"
  shows "budgetCheck env req = (if unpriced env req then Skipped
     else answer_of (the (pe_architecture env (dep_model (cq_deployment req)))) plan (UsableBytes fl64 c (fl64 DefaultUtilization)))"
proof (cases "pe_architecture env (dep_model (cq_deployment req))")
  case None
  then show ?thesis by (auto simp: budgetCheck_def unpriced_def assms Let_def)
next
  case (Some a)
  have "(\<exists>e. Compute fl64 (Some a) plan = Inl e) \<longleftrightarrow> (\<exists>e. Compute fl64 (Some a) plan0 = Inl e)"
    by (simp add: assms(3) Compute_tp)
  then show ?thesis using Some Compute_either [of fl64 a plan]
    by (auto simp: budgetCheck_def unpriced_def answer_of_def assms(1,2) Let_def assms(3) [symmetric] split: verdict.split)
qed

lemma unpriced_with_cards: "unpriced env (with_cards n req) = unpriced env req"
  by (auto simp: unpriced_def with_cards_frame deploy_capacity_with_cards Let_def split: prod.splits)

lemma answer_antitone:
  assumes "sane a p" "1 \<le> n" "n \<le> m" "headroom fl64 a (p\<lparr>pn_tp_size := n\<rparr>)"
  shows "severity (answer_of a (p\<lparr>pn_tp_size := m\<rparr>) u) \<le> severity (answer_of a (p\<lparr>pn_tp_size := n\<rparr>) u)"
  using float64.budget_antitone [OF assms] by (auto simp: severity_def answer_of_def Against_def)

text \<open>
  C29: more cards never turn the pre-flight against a deployment.  For the same request over machines with \<open>m\<close> cards
  instead of \<open>n \<le> m\<close>, the check is skipped in the same cases, and otherwise its answer (passed, warned, refused) is
  no worse, with every rounding of the 64-bit floating point arithmetic.  The model's counts are in range and its claims
  at \<open>n\<close> cards below \<open>2 ^ 60\<close> bytes.
\<close>

theorem more_cards_never_refused:
  assumes "1 \<le> n" "n \<le> m"
    and "plan0 = fst (EnginePlan (dep_engine_args (cq_deployment req)) (dep_parallelism (cq_deployment req)))"
    and "\<And>a. pe_architecture env (dep_model (cq_deployment req)) = Some a \<Longrightarrow>
           sane a plan0 \<and> headroom fl64 a (plan0\<lparr>pn_tp_size := n\<rparr>)"
  shows "(budgetCheck env (with_cards m req) = Skipped \<longleftrightarrow> budgetCheck env (with_cards n req) = Skipped)
    \<and> severity (budgetCheck env (with_cards m req)) \<le> severity (budgetCheck env (with_cards n req))"
proof -
  obtain usable where plan: "EnginePlan (dep_engine_args (cq_deployment req)) (dep_parallelism (cq_deployment req)) = (plan0, usable)"
    using assms(3) by (metis prod.collapse)
  obtain c k where cap: "deployCardCapacity env req = (c, k)" by fastforce
  let ?pinned = "dep_instance_id (cq_deployment req) \<noteq> []"
  let ?cards = "\<lambda>x. if ?pinned then k else if 0 < c then x else 0"
  let ?plan = "\<lambda>x. if 0 < ?cards x \<and> pn_ep_size plan0 \<le> 1 then plan0\<lparr>pn_tp_size := ?cards x\<rparr> else plan0"
  let ?a = "the (pe_architecture env (dep_model (cq_deployment req)))"
  have run: "budgetCheck env (with_cards x req) = (if unpriced env req then Skipped
      else answer_of ?a (?plan x) (UsableBytes fl64 c (fl64 DefaultUtilization)))" for x
    using budgetCheck_answer [of "with_cards x req" plan0 usable env c "?cards x" "?plan x"]
    by (simp add: with_cards_frame plan deploy_capacity_with_cards cap unpriced_with_cards)
  have ne: "answer_of a p u \<noteq> Skipped" for a p u by (simp add: answer_of_def split: verdict.split)
  show ?thesis
  proof (cases "unpriced env req")
    case False
    then obtain a where a: "pe_architecture env (dep_model (cq_deployment req)) = Some a"
      by (auto simp: unpriced_def Let_def split: option.splits prod.splits)
    show ?thesis
      using answer_antitone [OF conjunct1 [OF assms(4) [OF a]] assms(1,2) conjunct2 [OF assms(4) [OF a]]] assms(1,2) a False
      by (auto simp: run ne)
  qed (simp add: run)
qed

text \<open>The small model is refused on one card, and no answer is worse on two.\<close>

theorem more_cards_never_refused_witness:
  "severity (budgetCheck small_env (with_cards 2 small_request)) \<le> severity (budgetCheck small_env (with_cards 1 small_request))"
proof -
  let ?p = "fst (EnginePlan (dep_engine_args (cq_deployment small_request)) (dep_parallelism (cq_deployment small_request)))"
  have p: "?p = tiny_plan\<lparr>pn_max_batch := 1\<rparr>" using small_plan(1) by simp
  have "sane tiny_arch (tiny_plan\<lparr>pn_max_batch := 1\<rparr>)" by code_simp
  moreover have "fl64 (24 * fl64 OverheadFraction) < 2 ^ 60" by code_simp
  then have "headroom fl64 tiny_arch small_split"
    by (simp add: headroom_def small_claims overhead_float_def small_working_set)
  ultimately show ?thesis
    using more_cards_never_refused [of 1 2 ?p small_request small_env] by (simp add: p small_env_def)
qed

end
