(* ===== verification/Placement.thy ===== *)
theory Placement
  imports Store "HOL-Library.Multiset" Complex_Main
begin

text \<open>
  The capacity search: asking providers for candidates (\<^verbatim>\<open>candidates.go\<close>), classifying, merging and
  comparing their answers (\<^verbatim>\<open>candidates_across.go\<close>) and choosing the cheapest (\<^verbatim>\<open>placement.go\<close>).
  A provider is the list of candidates or the error it answers with; the goroutines of the fan-out
  write disjoint slots of the answer slice, so they are a map over the names.  Prices are finite
  numbers.
\<close>

datatype fabric_source = FabricUnspecified | FabricDeclared | FabricMeasured | FabricUnknown

record candidate =
  ca_provider :: gostring
  ca_host_id :: gostring
  ca_offer_id :: gostring
  ca_sku :: gostring
  ca_region :: gostring
  ca_price :: rat
  ca_gpu_count :: int
  ca_architecture :: gostring
  ca_fabric_source :: fabric_source

datatype rpc_code = CodeNotFound | CodeUnimplemented | CodeResourceExhausted | CodeUnavailable | CodeOther

type_synonym rpc_error = "rpc_code \<times> gostring"

text \<open>A configured provider: without the capability, or its answer to a requirement.\<close>

datatype candidate_source = NoSource | Source "requirements \<Rightarrow> rpc_error + candidate list"

definition ArchAMD64 :: gostring where "ArchAMD64 = ''amd64''"
definition ArchARM64 :: gostring where "ArchARM64 = ''arm64''"

definition NormalizeArch :: "gostring \<Rightarrow> gostring" where
  "NormalizeArch s =
     (let v = to_lower (trim_space s) in
      if v \<in> set [''amd64'', ''x86_64'', ''x86-64''] then ArchAMD64
      else if v \<in> set [''arm64'', ''aarch64''] then ArchARM64
      else [])"

definition CandidatesFrom ::
  "(gostring \<rightharpoonup> candidate_source) \<Rightarrow> gostring \<Rightarrow> requirements \<Rightarrow> rpc_error + candidate list" where
  "CandidatesFrom providers name reqs =
     (case providers name of
        None \<Rightarrow> Inl (CodeNotFound, name)
      | Some NoSource \<Rightarrow> Inl (CodeUnimplemented, name)
      | Some (Source ask) \<Rightarrow> bindE (ask reqs) (\<lambda>out. Inr (map (\<lambda>c. c\<lparr>ca_provider := name\<rparr>) out)))"

datatype answer_outcome = Answered | NoCapacity | CannotAnswer | Failed

record provider_answer =
  an_provider :: gostring
  an_outcome :: answer_outcome
  an_candidates :: "candidate list"
  an_error :: gostring

definition CanAnswer :: "provider_answer \<Rightarrow> bool" where
  "CanAnswer a \<longleftrightarrow> an_outcome a \<noteq> CannotAnswer"

definition FilterArchitecture :: "candidate list \<Rightarrow> gostring \<Rightarrow> candidate list" where
  "FilterArchitecture cands want =
     (if want = [] then cands
      else filter (\<lambda>c. ca_architecture c = [] \<or> ca_architecture c = want) cands)"

definition answerFor :: "gostring \<Rightarrow> candidate list \<Rightarrow> rpc_error option \<Rightarrow> provider_answer" where
  "answerFor name cands err =
     (case err of
        Some (code, msg) \<Rightarrow>
          \<lparr>an_provider = name, an_outcome = (if code = CodeUnimplemented then CannotAnswer else Failed),
           an_candidates = cands, an_error = msg\<rparr>
      | None \<Rightarrow>
          \<lparr>an_provider = name, an_outcome = (if cands = [] then NoCapacity else Answered),
           an_candidates = cands, an_error = []\<rparr>)"

definition answer_of :: "(gostring \<rightharpoonup> candidate_source) \<Rightarrow> requirements \<Rightarrow> gostring \<Rightarrow> provider_answer" where
  "answer_of providers reqs name =
     (case CandidatesFrom providers name reqs of
        Inl e \<Rightarrow> answerFor name (FilterArchitecture [] (rq_architecture reqs)) (Some e)
      | Inr cands \<Rightarrow> answerFor name (FilterArchitecture cands (rq_architecture reqs)) None)"

text \<open>Without names every configured provider is asked; \<open>configured\<close> lists them.\<close>

definition ListCandidatesAcross ::
  "(gostring \<rightharpoonup> candidate_source) \<Rightarrow> gostring list \<Rightarrow> gostring list \<Rightarrow> requirements \<Rightarrow> provider_answer list" where
  "ListCandidatesAcross providers configured names reqs =
     map (answer_of providers reqs) (if names = [] then sort configured else names)"

definition MergeCandidates :: "provider_answer list \<Rightarrow> candidate list" where
  "MergeCandidates answers = sort_key ca_price (concat (map an_candidates answers))"

subsection \<open>Comparability\<close>

record fact_gap =
  fg_fact :: gostring
  fg_reported_by :: "gostring list"
  fg_missing_from :: "gostring list"

record comparability =
  cmp_compared :: "gostring list"
  cmp_gaps :: "fact_gap list"

definition comparabilityFacts :: "(gostring \<times> (candidate \<Rightarrow> bool)) list" where
  "comparabilityFacts =
     [(''region'', \<lambda>c. ca_region c \<noteq> []),
      (''host identity'', \<lambda>c. ca_host_id c \<noteq> []),
      (''architecture'', \<lambda>c. ca_architecture c \<noteq> []),
      (''measured fabric'', \<lambda>c. ca_fabric_source c = FabricMeasured)]"

definition anyCandidateReports :: "candidate list \<Rightarrow> (candidate \<Rightarrow> bool) \<Rightarrow> bool" where
  "anyCandidateReports cands reported \<longleftrightarrow> list_ex reported cands"

definition add_fact ::
  "provider_answer list \<Rightarrow> gostring \<times> (candidate \<Rightarrow> bool) \<Rightarrow> comparability \<Rightarrow> comparability" where
  "add_fact participating f acc =
     (let reportedBy = filter (\<lambda>a. anyCandidateReports (an_candidates a) (snd f)) participating;
          missingFrom = filter (\<lambda>a. \<not> anyCandidateReports (an_candidates a) (snd f)) participating in
      if missingFrom = [] then acc\<lparr>cmp_compared := cmp_compared acc @ [fst f]\<rparr>
      else if reportedBy \<noteq> [] then
        acc\<lparr>cmp_gaps := cmp_gaps acc @
          [\<lparr>fg_fact = fst f, fg_reported_by = map an_provider reportedBy,
            fg_missing_from = map an_provider missingFrom\<rparr>]\<rparr>
      else acc)"

definition AnalyzeComparability :: "provider_answer list \<Rightarrow> comparability" where
  "AnalyzeComparability answers =
     (let participating = filter (\<lambda>a. an_outcome a = Answered) answers;
          empty = \<lparr>cmp_compared = [], cmp_gaps = []\<rparr> in
      if length participating < 2 then empty
      else foldl (\<lambda>acc f. add_fact participating f acc) empty comparabilityFacts)"

subsection \<open>Placement\<close>

record placement =
  pm_winner :: candidate
  pm_runners :: "candidate list"
  pm_considered :: int
  pm_answers :: "provider_answer list"
  pm_comparability :: comparability

definition maxRunners :: nat where "maxRunners = 3"

definition noPlacementError :: "provider_answer list \<Rightarrow> rpc_code" where
  "noPlacementError answers =
     (let answered = length (filter (\<lambda>a. an_outcome a = Answered \<or> an_outcome a = NoCapacity) answers);
          failed = length (filter (\<lambda>a. an_outcome a = Failed) answers) in
      if 0 < answered then CodeResourceExhausted
      else if 0 < failed then CodeUnavailable
      else CodeUnimplemented)"

definition SelectCheapest ::
  "(gostring \<rightharpoonup> candidate_source) \<Rightarrow> gostring list \<Rightarrow> gostring list \<Rightarrow> requirements \<Rightarrow> rpc_code + placement" where
  "SelectCheapest providers configured names reqs =
     (let answers = ListCandidatesAcross providers configured names reqs in
      case MergeCandidates answers of
        [] \<Rightarrow> Inl (noPlacementError answers)
      | winner # rest \<Rightarrow>
          Inr \<lparr>pm_winner = winner, pm_runners = take maxRunners rest,
               pm_considered = wrap32 (int (length (winner # rest))), pm_answers = answers,
               pm_comparability = AnalyzeComparability answers\<rparr>)"

definition ListCandidates ::
  "(gostring \<rightharpoonup> candidate_source) \<Rightarrow> gostring list \<Rightarrow> gostring list \<Rightarrow> requirements
     \<Rightarrow> provider_answer list \<times> candidate list \<times> comparability" where
  "ListCandidates providers configured names reqs =
     (let answers = ListCandidatesAcross providers configured names reqs in
      (answers, MergeCandidates answers, AnalyzeComparability answers))"

subsection \<open>What the search promises\<close>

text \<open>The candidates a named provider contributes.\<close>

definition contributes :: "(gostring \<rightharpoonup> candidate_source) \<Rightarrow> requirements \<Rightarrow> gostring \<Rightarrow> candidate \<Rightarrow> bool" where
  "contributes providers reqs name c \<longleftrightarrow>
     (\<exists>ask out c0. providers name = Some (Source ask) \<and> ask reqs = Inr out \<and> c0 \<in> set out
        \<and> c = c0\<lparr>ca_provider := name\<rparr>
        \<and> (rq_architecture reqs = [] \<or> ca_architecture c = [] \<or> ca_architecture c = rq_architecture reqs))"

lemma answer_candidates: "c \<in> set (an_candidates (answer_of providers reqs name)) \<longleftrightarrow> contributes providers reqs name c"
  by (auto simp: answer_of_def CandidatesFrom_def answerFor_def FilterArchitecture_def contributes_def
      split: option.splits candidate_source.splits sum.splits)
     (auto simp: bindE_Inr_iff)

lemma merged_set:
  "set (MergeCandidates (map (answer_of providers reqs) names)) = {c. \<exists>name \<in> set names. contributes providers reqs name c}"
  by (auto simp: MergeCandidates_def answer_candidates)

text \<open>The providers a request asks: those it names, or all that are configured, in the order of their names.\<close>

definition asked :: "gostring list \<Rightarrow> gostring list \<Rightarrow> gostring list" where
  "asked configured names = (if names = [] then sort configured else names)"

lemma asked_answers: "ListCandidatesAcross providers configured names reqs = map (answer_of providers reqs) (asked configured names)"
  by (simp add: ListCandidatesAcross_def asked_def)

text \<open>
  C31: The cheapest placement.  The winner is an allowed candidate of a provider that was asked: one of those
  the request names or, when it names none, of all that are configured.  Allowed is a candidate whose architecture is the
  one requested or that reports none.  No allowed candidate of a provider that was asked is cheaper, the winner is first of
  the cheapest in the order of asking, and the runners-up cost no less.  A provider that fails, cannot answer or has no
  capacity takes nothing from the others.
\<close>

theorem select_cheapest_optimal:
  assumes "SelectCheapest providers configured names reqs = Inr p"
  shows "(\<exists>name \<in> set (asked configured names). contributes providers reqs name (pm_winner p))
    \<and> (\<forall>name c. name \<in> set (asked configured names) \<and> contributes providers reqs name c \<longrightarrow> ca_price (pm_winner p) \<le> ca_price c)
    \<and> (\<forall>c \<in> set (pm_runners p). ca_price (pm_winner p) \<le> ca_price c)
    \<and> pm_winner p = hd (filter (\<lambda>c. ca_price c = ca_price (pm_winner p))
                          (concat (map (\<lambda>n. an_candidates (answer_of providers reqs n)) (asked configured names))))"
proof -
  let ?answers = "map (answer_of providers reqs) (asked configured names)"
  note ans = asked_answers [of providers configured names reqs]
  obtain rest where merged: "MergeCandidates ?answers = pm_winner p # rest" and run: "pm_runners p = take maxRunners rest"
    using assms(1) by (auto simp: SelectCheapest_def ans Let_def split: list.splits)
  have "sorted (map ca_price (MergeCandidates ?answers))" by (simp add: MergeCandidates_def)
  then have le: "\<forall>c \<in> set (MergeCandidates ?answers). ca_price (pm_winner p) \<le> ca_price c"
    unfolding merged by auto
  have stable: "filter (\<lambda>c. ca_price c = x) (MergeCandidates ?answers) =
      filter (\<lambda>c. ca_price c = x) (concat (map an_candidates ?answers))" for x
    by (simp add: MergeCandidates_def sort_key_stable)
  have "pm_winner p = hd (filter (\<lambda>c. ca_price c = ca_price (pm_winner p)) (concat (map an_candidates ?answers)))"
    unfolding stable [symmetric] merged by simp
  moreover have "pm_winner p \<in> set (MergeCandidates ?answers)" by (simp add: merged)
  moreover have "set (pm_runners p) \<subseteq> set (MergeCandidates ?answers)"
    unfolding run merged by (auto dest: in_set_takeD)
  ultimately show ?thesis
    using le unfolding merged_set by (auto simp: comp_def)
qed

text \<open>
  An empty search says why.  Without a placement no asked provider had an allowed candidate;
  the error is "no capacity" exactly when some asked provider answered, "unavailable" exactly when
  none answered but some one failed, and "unimplemented" only when none of them can answer at all.
\<close>

theorem no_placement_explained:
  assumes "SelectCheapest providers configured asking reqs = Inl code" and "names = asked configured asking"
  shows "(\<forall>name \<in> set names. \<forall>c. \<not> contributes providers reqs name c)
    \<and> (code = CodeResourceExhausted \<longleftrightarrow> (\<exists>name \<in> set names. \<exists>out. CandidatesFrom providers name reqs = Inr out))
    \<and> (code = CodeUnimplemented \<longleftrightarrow> (\<forall>name \<in> set names. \<exists>m. CandidatesFrom providers name reqs = Inl (CodeUnimplemented, m)))
    \<and> (code = CodeUnavailable \<longleftrightarrow> (\<forall>name \<in> set names. \<exists>e. CandidatesFrom providers name reqs = Inl e)
         \<and> (\<exists>name \<in> set names. \<exists>e m. CandidatesFrom providers name reqs = Inl (e, m) \<and> e \<noteq> CodeUnimplemented))"
proof -
  let ?answers = "map (answer_of providers reqs) names"
  have ans: "ListCandidatesAcross providers configured asking reqs = ?answers"
    by (simp add: asked_answers assms(2))
  have empty: "MergeCandidates ?answers = []" and code: "code = noPlacementError ?answers"
    using assms(1) by (auto simp: SelectCheapest_def ans Let_def split: list.splits)
  have none: "\<forall>name \<in> set names. \<forall>c. \<not> contributes providers reqs name c"
    using merged_set [of providers reqs names] empty by auto
  have outcome: "(an_outcome (answer_of providers reqs n) = Answered \<or> an_outcome (answer_of providers reqs n) = NoCapacity)
      \<longleftrightarrow> (\<exists>out. CandidatesFrom providers n reqs = Inr out)"
    "an_outcome (answer_of providers reqs n) = Failed \<longleftrightarrow>
       (\<exists>e m. CandidatesFrom providers n reqs = Inl (e, m) \<and> e \<noteq> CodeUnimplemented)" for n
    by (auto simp: answer_of_def answerFor_def split: sum.splits)
  have code': "code = (if \<exists>n \<in> set names. \<exists>out. CandidatesFrom providers n reqs = Inr out then CodeResourceExhausted
      else if \<exists>n \<in> set names. \<exists>e m. CandidatesFrom providers n reqs = Inl (e, m) \<and> e \<noteq> CodeUnimplemented
      then CodeUnavailable else CodeUnimplemented)"
    unfolding code noPlacementError_def Let_def by (simp add: filter_map comp_def outcome filter_empty_conv)
  have total: "(\<exists>out. CandidatesFrom providers n reqs = Inr out) \<or> (\<exists>e m. CandidatesFrom providers n reqs = Inl (e, m))" for n
    by (cases "CandidatesFrom providers n reqs") auto
  show ?thesis
    using none total unfolding code' by (auto split: if_splits) (metis sum.distinct(1) prod.inject sum.inject(1))+
qed

definition sample_candidate :: "gostring \<Rightarrow> rat \<Rightarrow> candidate" where
  "sample_candidate sku price = \<lparr>ca_provider = [], ca_host_id = [], ca_offer_id = [], ca_sku = sku, ca_region = [],
     ca_price = price, ca_gpu_count = 1, ca_architecture = [], ca_fabric_source = FabricUnspecified\<rparr>"

definition two_providers :: "gostring \<rightharpoonup> candidate_source" where
  "two_providers = [''a'' \<mapsto> Source (\<lambda>_. Inr [sample_candidate ''h100'' 3]), ''b'' \<mapsto> Source (\<lambda>_. Inr [sample_candidate ''h100'' 2]),
     ''c'' \<mapsto> NoSource]"

definition any_card :: requirements where
  "any_card = \<lparr>rq_min_vram_gb = 0, rq_min_disk_gb = 0, rq_min_ram_gb = 0, rq_gpu_count = 1, rq_class = [], rq_sku = [],
     rq_fabric_scope = ScopeUnspecified, rq_min_fabric_gbps = 0, rq_reclaim_policy = ReclaimUnspecified, rq_architecture = []\<rparr>"

theorem select_cheapest_optimal_witness:
  "\<exists>p. SelectCheapest two_providers [''b'', ''c'', ''a''] [] any_card = Inr p
     \<and> (\<exists>name \<in> {''a'', ''b'', ''c''}. contributes two_providers any_card name (pm_winner p))
     \<and> ca_price (pm_winner p) = 2"
proof -
  have asked: "asked [''b'', ''c'', ''a''] [] = [''a'', ''b'', ''c'']" by code_simp
  obtain p where p: "SelectCheapest two_providers [''b'', ''c'', ''a''] [] any_card = Inr p" "ca_price (pm_winner p) = 2"
    by (simp add: SelectCheapest_def asked_answers asked answer_of_def CandidatesFrom_def two_providers_def
        answerFor_def FilterArchitecture_def any_card_def MergeCandidates_def sample_candidate_def Let_def)
  then show ?thesis using select_cheapest_optimal [OF p(1)] unfolding asked by auto
qed

theorem no_placement_explained_witness:
  "SelectCheapest two_providers [] [''c''] any_card = Inl CodeUnimplemented
   \<and> (\<exists>m. CandidatesFrom two_providers ''c'' any_card = Inl (CodeUnimplemented, m))"
proof -
  have p: "SelectCheapest two_providers [] [''c''] any_card = Inl CodeUnimplemented"
    by (simp add: SelectCheapest_def ListCandidatesAcross_def answer_of_def CandidatesFrom_def two_providers_def
        answerFor_def FilterArchitecture_def any_card_def MergeCandidates_def noPlacementError_def)
  then show ?thesis using no_placement_explained [OF p refl] by (simp add: asked_def)
qed

end
