(* ===== verification/Phase_Refiner.thy ===== *)
theory Phase_Refiner
  imports Deployment_Ops Float_Rounding
begin

text \<open>
  The progress of a deploy while the engine starts (\<^verbatim>\<open>internal/provisioners/staging.go\<close> and
  \<^verbatim>\<open>deploy_telemetry.go\<close>): what an agent's reading of the disk makes of a provider's
  \<^verbatim>\<open>engine:init\<close>, when a download that cannot finish is given up, and how the observer turns the
  phases of the updates into durations.  A reading's rate and interval are \<^verbatim>\<open>float64\<close> values.
\<close>

subsection \<open>Readings and phases\<close>

record staging_progress =
  sg_available :: bool
  sg_bytes_local :: int
  sg_rate :: rat
  sg_interval :: rat

definition PhaseEngineInit :: gostring where "PhaseEngineInit = ''engine:init''"
definition PhaseEngineDownload :: gostring where "PhaseEngineDownload = ''engine:download''"
definition PhaseEngineLoad :: gostring where "PhaseEngineLoad = ''engine:load''"

lemma phases_distinct [simp]:
  "PhaseEngineInit \<noteq> PhaseEngineDownload" "PhaseEngineInit \<noteq> PhaseEngineLoad"
  "PhaseEngineDownload \<noteq> PhaseEngineLoad" "PhaseEngineDownload \<noteq> PhaseEngineInit"
  "PhaseEngineLoad \<noteq> PhaseEngineInit" "PhaseEngineLoad \<noteq> PhaseEngineDownload"
  "PhaseEngineInit \<noteq> []" "PhaseEngineDownload \<noteq> []" "PhaseEngineLoad \<noteq> []"
  by (simp_all add: PhaseEngineInit_def PhaseEngineDownload_def PhaseEngineLoad_def)

text \<open>\<^verbatim>\<open>abortMinWindow\<close> in seconds, \<^verbatim>\<open>abortConsecutive\<close> and \<^verbatim>\<open>abortSlack\<close>.\<close>

definition abortMinWindow :: rat where "abortMinWindow = 90"
definition abortConsecutive :: int where "abortConsecutive = 3"
definition abortSlack :: rat where "abortSlack = 3 / 2"

text \<open>\<^verbatim>\<open>fmt.Sprintf("%.1f GB", float64(b)/1e9)\<close>: the nearest tenth of the rounded quotient.\<close>

definition formatGB :: "int \<Rightarrow> gostring" where
  "formatGB b =
     (let tenths = nat (round_half_even (10 * fl64 (fl64 (of_int \<bar>b\<bar>) / 1000000000))) in
      (if b < 0 then ''-'' else []) @ dec (tenths div 10) @ ''.'' @ dec (tenths mod 10) @ '' GB'')"

subsection \<open>The refiner\<close>

text \<open>
  \<^verbatim>\<open>pr_can_abort\<close> says whether a cancellation was supplied.  The reader of the registry is called
  once per update; its answer is the argument \<open>reading\<close>, \<open>None\<close> when there is nothing to report.
\<close>

record phase_refiner =
  pr_checkpoint :: int
  pr_can_abort :: bool
  pr_hopeless :: int
  pr_reached_load :: bool

definition newPhaseRefiner :: "int \<Rightarrow> bool \<Rightarrow> phase_refiner" where
  "newPhaseRefiner checkpointBytes abort =
     \<lparr>pr_checkpoint = checkpointBytes, pr_can_abort = abort, pr_hopeless = 0, pr_reached_load = False\<rparr>"

definition needed_time :: "int \<Rightarrow> rat \<Rightarrow> duration" where
  "needed_time remainingBytes rate =
     to_int64 (fl64 (fl64 (fl64 (of_int remainingBytes) / rate) * of_int second))"

text \<open>
  Whether this reading projects past the deadline: everything of \<^verbatim>\<open>judge\<close> between the guards and
  the counter.
\<close>

definition projects_past :: "int \<Rightarrow> timestamp \<Rightarrow> timestamp \<Rightarrow> staging_progress \<Rightarrow> bool" where
  "projects_past checkpoint now deadline s \<longleftrightarrow>
     (let remainingBytes = wrap64 (checkpoint - sg_bytes_local s);
          needed = needed_time remainingBytes (sg_rate s);
          left = time_sub deadline now in
      \<not> (sg_rate s \<le> 0 \<or> sg_interval s < abortMinWindow)
      \<and> \<not> remainingBytes \<le> 0
      \<and> \<not> checkpoint < sg_bytes_local s
      \<and> \<not> (left \<le> 0 \<or> fl64 (of_int needed) \<le> fl64 (fl64 (of_int left) * abortSlack)))"

definition judge ::
  "bool \<Rightarrow> timestamp \<Rightarrow> timestamp option \<Rightarrow> staging_progress \<Rightarrow> phase_refiner \<Rightarrow> phase_refiner \<times> bool" where
  "judge abortEnabled now deadline s p =
     (if \<not> pr_can_abort p \<or> pr_checkpoint p \<le> 0 \<or> deadline = None \<or> \<not> abortEnabled then (p, False)
      else if pr_reached_load p then (p, False)
      else if projects_past (pr_checkpoint p) now (the deadline) s then
        (p\<lparr>pr_hopeless := pr_hopeless p + 1\<rparr>, \<not> pr_hopeless p + 1 < abortConsecutive)
      else (p\<lparr>pr_hopeless := 0\<rparr>, False))"

definition refine ::
  "bool \<Rightarrow> timestamp \<Rightarrow> timestamp option \<Rightarrow> staging_progress option \<Rightarrow> dupdate \<Rightarrow> phase_refiner
     \<Rightarrow> dupdate \<times> phase_refiner \<times> bool" where
  "refine abortEnabled now deadline reading u p =
     (if du_phase u \<noteq> PhaseEngineInit then (u, p, False)
      else case reading of
        None \<Rightarrow> (u, p, False)
      | Some s \<Rightarrow>
          if \<not> sg_available s then (u, p, False)
          else if sg_interval s \<le> 0 then (u, p, False)
          else
            (let (p1, aborted) = judge abortEnabled now deadline s p in
             if 0 < sg_rate s then
               (if pr_reached_load p1 then (u, p1, aborted)
                else (u\<lparr>du_phase := PhaseEngineDownload,
                        du_progress := formatGB (sg_bytes_local s) @ '' arrived, '' @ formatGB (to_int64 (sg_rate s)) @ ''/s''\<rparr>,
                      p1, aborted))
             else if 0 < sg_bytes_local s then
               (u\<lparr>du_phase := PhaseEngineLoad,
                  du_progress := formatGB (sg_bytes_local s) @ '' on disk, loading''\<rparr>,
                p1\<lparr>pr_reached_load := True\<rparr>, aborted)
             else (u, p1, aborted)))"

text \<open>The updates of one replica's deploy, with the clock, the deadline and the reading of each.\<close>

record refine_call =
  rc_now :: timestamp
  rc_deadline :: "timestamp option"
  rc_reading :: "staging_progress option"
  rc_update :: dupdate

fun refine_run :: "bool \<Rightarrow> refine_call list \<Rightarrow> phase_refiner \<Rightarrow> (dupdate \<times> bool) list" where
  "refine_run en [] p = []"
| "refine_run en (c # cs) p =
     (case refine en (rc_now c) (rc_deadline c) (rc_reading c) (rc_update c) p of
        (u, p', aborted) \<Rightarrow> (u, aborted) # refine_run en cs p')"

subsection \<open>The observer\<close>

record observer =
  ob_cur_phase :: gostring
  ob_phase_started :: timestamp
  ob_started :: timestamp
  ob_terminal :: bool
  ob_durations :: "(gostring \<times> duration) list"

definition newDeployObserver :: "timestamp \<Rightarrow> observer" where
  "newDeployObserver now =
     \<lparr>ob_cur_phase = [], ob_phase_started = now, ob_started = now, ob_terminal = False, ob_durations = []\<rparr>"

definition isTerminalDeployState :: "deployment_state \<Rightarrow> bool" where
  "isTerminalDeployState s \<longleftrightarrow> s \<in> {DRunning, DDegraded, DFailed, DTerminated}"

definition openPhase :: "gostring \<Rightarrow> timestamp \<Rightarrow> observer \<Rightarrow> observer" where
  "openPhase phase now ob = ob\<lparr>ob_cur_phase := phase, ob_phase_started := now\<rparr>"

definition closePhase :: "timestamp \<Rightarrow> observer \<Rightarrow> observer" where
  "closePhase now ob =
     (if ob_cur_phase ob = [] then ob
      else ob\<lparr>ob_durations := ob_durations ob @ [(ob_cur_phase ob, time_sub now (ob_phase_started ob))],
              ob_cur_phase := []\<rparr>)"

definition observe :: "timestamp \<Rightarrow> dupdate \<Rightarrow> observer \<Rightarrow> observer" where
  "observe now u ob =
     (if isTerminalDeployState (du_state u) then (closePhase now ob)\<lparr>ob_terminal := True\<rparr>
      else if du_phase u = [] \<or> du_phase u = ob_cur_phase ob then ob
      else openPhase (du_phase u) now (closePhase now ob))"

datatype deploy_kind = DeployProvision | DeployTeardown
datatype deploy_error = ErrDeadlineExceeded | ErrDeploy gostring

definition deployResult :: "deploy_kind \<Rightarrow> deploy_error option \<Rightarrow> gostring" where
  "deployResult kind err =
     (case err of
        None \<Rightarrow> (case kind of DeployTeardown \<Rightarrow> ''terminated'' | DeployProvision \<Rightarrow> ''running'')
      | Some ErrDeadlineExceeded \<Rightarrow> ''timeout''
      | Some (ErrDeploy _) \<Rightarrow> ''failed'')"

text \<open>The measurement \<^verbatim>\<open>finish\<close> records: kind, result label and the time since the observer started.\<close>

definition finish ::
  "timestamp \<Rightarrow> deploy_kind \<Rightarrow> deploy_error option \<Rightarrow> observer \<Rightarrow> observer \<times> (deploy_kind \<times> gostring \<times> duration)" where
  "finish now kind err ob =
     (let ob' = closePhase now ob in (ob', (kind, deployResult kind err, time_sub now (ob_started ob))))"

subsection \<open>Lemmas on the refiner\<close>

lemma judge_load [simp]: "pr_reached_load (fst (judge en now dl s p)) = pr_reached_load p"
  by (simp add: judge_def)

lemma judge_keeps_load: "judge en now dl s p = (p', ab) \<Longrightarrow> pr_reached_load p' = pr_reached_load p"
  using judge_load [of en now dl s p] by simp

lemma refine_load:
  assumes "refine en now dl r u p = (u', p', ab)"
  shows "pr_reached_load p \<Longrightarrow> pr_reached_load p'"
    and "du_phase u' = PhaseEngineLoad \<Longrightarrow> du_phase u \<noteq> PhaseEngineLoad \<Longrightarrow> pr_reached_load p'"
    and "pr_reached_load p \<Longrightarrow> du_phase u' = PhaseEngineDownload \<Longrightarrow> du_phase u = PhaseEngineDownload"
  using assms
  by (auto simp: refine_def dest: judge_keeps_load split: if_splits option.splits prod.splits)

lemma run_after_load:
  assumes "pr_reached_load p" "\<forall>c \<in> set cs. du_phase (rc_update c) \<noteq> PhaseEngineDownload" "j < length cs"
  shows "du_phase (fst (refine_run en cs p ! j)) \<noteq> PhaseEngineDownload"
  using assms
proof (induction cs arbitrary: p j)
  case (Cons c cs)
  obtain u p' ab where r: "refine en (rc_now c) (rc_deadline c) (rc_reading c) (rc_update c) p = (u, p', ab)"
    by (cases "refine en (rc_now c) (rc_deadline c) (rc_reading c) (rc_update c) p")
  show ?case
    using Cons.IH [of p'] Cons.prems refine_load [OF r] r by (cases j) auto
qed simp

text \<open>
  What a call contributes to the judgement: nothing when a guard of \<^verbatim>\<open>refine\<close> or \<^verbatim>\<open>judge\<close> ends it
  early, and otherwise whether its reading projects past the deadline.
\<close>

definition reading_verdict :: "bool \<Rightarrow> phase_refiner \<Rightarrow> refine_call \<Rightarrow> bool option" where
  "reading_verdict en p c =
     (case rc_reading c of
        Some s \<Rightarrow>
          if du_phase (rc_update c) = PhaseEngineInit \<and> sg_available s \<and> 0 < sg_interval s
             \<and> pr_can_abort p \<and> 0 < pr_checkpoint p \<and> rc_deadline c \<noteq> None \<and> en \<and> \<not> pr_reached_load p
          then Some (projects_past (pr_checkpoint p) (rc_now c) (the (rc_deadline c)) s) else None
      | None \<Rightarrow> None)"

fun verdicts :: "bool \<Rightarrow> refine_call list \<Rightarrow> phase_refiner \<Rightarrow> bool option list" where
  "verdicts en [] p = []"
| "verdicts en (c # cs) p =
     reading_verdict en p c # verdicts en cs (fst (snd (refine en (rc_now c) (rc_deadline c) (rc_reading c) (rc_update c) p)))"

definition trailing_verdicts :: "bool list \<Rightarrow> nat" where
  "trailing_verdicts vs = length (takeWhile id (rev vs))"

lemma trailing_simps [simp]:
  "trailing_verdicts [] = 0" "trailing_verdicts (vs @ [True]) = Suc (trailing_verdicts vs)" "trailing_verdicts (vs @ [False]) = 0"
  by (simp_all add: trailing_verdicts_def)

lemma three_trailing: "3 \<le> trailing_verdicts vs \<longleftrightarrow> (\<exists>ws. vs = ws @ [True, True, True])"
proof -
  have "3 \<le> length (takeWhile id xs) \<longleftrightarrow> (\<exists>ys. xs = True # True # True # ys)" for xs :: "bool list"
    by (cases xs; cases "tl xs"; cases "tl (tl xs)") (auto simp: Suc_le_eq split: if_splits)
  from this [of "rev vs"] show ?thesis
    by (simp add: trailing_verdicts_def rev_swap [of vs "True # True # True # _"]) (metis rev_rev_ident)
qed

lemma refine_verdict:
  assumes "refine en (rc_now c) (rc_deadline c) (rc_reading c) (rc_update c) p = (u, p', ab)"
    and "pr_hopeless p = int (trailing_verdicts vs)"
  shows "pr_hopeless p' = int (trailing_verdicts (vs @ map the (filter (\<lambda>v. v \<noteq> None) [reading_verdict en p c])))"
    and "ab \<longleftrightarrow> reading_verdict en p c = Some True \<and> 3 \<le> trailing_verdicts (vs @ [True])"
  using assms
  by (auto simp: refine_def reading_verdict_def judge_def abortConsecutive_def split: if_splits option.splits prod.splits)

lemma run_aborts:
  assumes "pr_hopeless p = int (trailing_verdicts vs)" "j < length cs"
  shows "snd (refine_run en cs p ! j) \<longleftrightarrow>
     verdicts en cs p ! j = Some True
     \<and> 3 \<le> trailing_verdicts (vs @ map the (filter (\<lambda>v. v \<noteq> None) (take (Suc j) (verdicts en cs p))))"
  using assms
proof (induction cs arbitrary: p vs j)
  case (Cons c cs)
  obtain u p' ab where r: "refine en (rc_now c) (rc_deadline c) (rc_reading c) (rc_update c) p = (u, p', ab)"
    by (cases "refine en (rc_now c) (rc_deadline c) (rc_reading c) (rc_update c) p")
  let ?vs = "vs @ map the (filter (\<lambda>v. v \<noteq> None) [reading_verdict en p c])"
  show ?case
  proof (cases j)
    case 0
    then show ?thesis using refine_verdict(2) [OF r Cons.prems(1)] r by auto
  next
    case (Suc i)
    then have "snd (refine_run en cs p' ! i) \<longleftrightarrow> verdicts en cs p' ! i = Some True
       \<and> 3 \<le> trailing_verdicts (?vs @ map the (filter (\<lambda>v. v \<noteq> None) (take (Suc i) (verdicts en cs p'))))"
      using Cons.IH [OF refine_verdict(1) [OF r Cons.prems(1)], of i] Cons.prems(2) by simp
    then show ?thesis using Suc r by (simp del: not_None_eq)
  qed
qed simp

subsection \<open>Properties of the refiner\<close>

text \<open>
  A deploy is given up exactly on three hopeless readings in a row.  In a run of updates from
  a fresh refiner, an update aborts the deploy if and only if its own reading and the two judged
  before it project past the deadline, where a reading projects only if its rate is positive, it
  was measured over at least ninety seconds, part of the checkpoint is missing and the time needed
  exceeds one and a half times the time left.  A stalled download is never the reason.
\<close>

theorem abort_after_three_hopeless:
  assumes "j < length cs"
  shows "snd (refine_run en cs (newPhaseRefiner checkpoint True) ! j) \<longleftrightarrow>
     verdicts en cs (newPhaseRefiner checkpoint True) ! j = Some True
     \<and> (\<exists>vs. map the (filter (\<lambda>v. v \<noteq> None) (take (Suc j) (verdicts en cs (newPhaseRefiner checkpoint True))))
           = vs @ [True, True, True])"
  using run_aborts [of "newPhaseRefiner checkpoint True" "[]" j cs en] assms
  by (simp add: newPhaseRefiner_def three_trailing del: not_None_eq)

text \<open>
  Loading is never followed by downloading.  Once an update of a run has been reported as
  loading, no later one is reported as downloading, whatever the readings say.
\<close>

theorem download_never_follows_load:
  assumes "i < j" "j < length cs"
    and "\<forall>c \<in> set cs. du_phase (rc_update c) \<noteq> PhaseEngineDownload \<and> du_phase (rc_update c) \<noteq> PhaseEngineLoad"
    and "du_phase (fst (refine_run en cs p ! i)) = PhaseEngineLoad"
  shows "du_phase (fst (refine_run en cs p ! j)) \<noteq> PhaseEngineDownload"
  using assms
proof (induction cs arbitrary: p i j)
  case (Cons c cs)
  obtain u p' ab where r: "refine en (rc_now c) (rc_deadline c) (rc_reading c) (rc_update c) p = (u, p', ab)"
    by (cases "refine en (rc_now c) (rc_deadline c) (rc_reading c) (rc_update c) p")
  obtain j' where j: "j = Suc j'" using Cons.prems(1) by (cases j) auto
  show ?case
  proof (cases i)
    case 0
    then have "pr_reached_load p'" using Cons.prems(3,4) r refine_load(2) [OF r] by simp
    then show ?thesis using run_after_load [of p' cs j' en] Cons.prems(2,3) r j by simp
  next
    case (Suc i')
    then show ?thesis using Cons.IH [of i' j' p'] Cons.prems r j by simp
  qed
qed simp

text \<open>
  The phase can still fall back to \<^verbatim>\<open>engine:init\<close>: bytes that arrive after loading was reported
  leave the update as the provider emitted it.
\<close>

theorem load_falls_back_to_init:
  assumes "pr_reached_load p" "du_phase u = PhaseEngineInit" "0 < sg_rate s"
  shows "fst (refine en now dl (Some s) u p) = u"
  using assms by (auto simp: refine_def judge_keeps_load split: prod.splits)

text \<open>
  The three readings need not be three measurements: one reading that stays in the registry while
  the deploy emits three updates ends it.
\<close>

theorem one_reading_aborts:
  assumes "projects_past checkpoint now deadline s" "sg_available s" "0 < checkpoint" "du_phase u = PhaseEngineInit"
  shows "snd (refine_run True (replicate 3 \<lparr>rc_now = now, rc_deadline = Some deadline, rc_reading = Some s, rc_update = u\<rparr>)
     (newPhaseRefiner checkpoint True) ! 2)"
proof -
  have "0 < sg_interval s" "0 < sg_rate s" using assms(1) by (auto simp: projects_past_def abortMinWindow_def Let_def)
  then show ?thesis
    using assms by (simp add: numeral_2_eq_2 numeral_3_eq_3 refine_def judge_def newPhaseRefiner_def abortConsecutive_def)
qed

text \<open>
  A download so slow that the time it needs exceeds the range of a \<^verbatim>\<open>time.Duration\<close> is not
  hopeless: the conversion to an integer gives the smallest one.
\<close>

theorem overflowing_estimate_tolerated:
  assumes "2 ^ 63 \<le> fl64 (fl64 (fl64 (of_int (wrap64 (checkpoint - sg_bytes_local s))) / sg_rate s) * of_int second)"
  shows "\<not> projects_past checkpoint now deadline s"
proof -
  let ?x = "fl64 (fl64 (fl64 (of_int (wrap64 (checkpoint - sg_bytes_local s))) / sg_rate s) * of_int second)"
  have "2 ^ 63 \<le> \<lfloor>?x\<rfloor>" using assms by (simp add: le_floor_iff)
  then have n: "needed_time (wrap64 (checkpoint - sg_bytes_local s)) (sg_rate s) = min_int64"
    using assms by (simp add: needed_time_def to_int64_def Let_def max_int64_def)
  have "fl64 (of_int min_int64) \<le> fl64 (fl64 (of_int left) * abortSlack)" if "0 < left" for left
  proof -
    have "0 \<le> fl64 (fl64 (of_int left) * abortSlack)"
      using that by (intro float64.fl_nonneg mult_nonneg_nonneg) (simp_all add: abortSlack_def)
    moreover have "fl64 (of_int min_int64) \<le> fl64 0" by (rule float64.fl_mono) (simp add: min_int64_def)
    ultimately show ?thesis by (simp add: float64.fl_zero)
  qed
  with n show ?thesis unfolding projects_past_def Let_def by (metis not_le)
qed

definition slow_reading :: staging_progress where
  "slow_reading = \<lparr>sg_available = True, sg_bytes_local = 24, sg_rate = 1, sg_interval = 90\<rparr>"

definition slow_call :: refine_call where
  "slow_call = \<lparr>rc_now = 0, rc_deadline = Some second, rc_reading = Some slow_reading,
     rc_update = (state_update DConfiguring [] [])\<lparr>du_phase := PhaseEngineInit\<rparr>\<rparr>"

lemma slow_projects: "projects_past 1024 0 second slow_reading"
  by code_simp

theorem abort_after_three_hopeless_witness:
  "snd (refine_run True [slow_call, slow_call, slow_call] (newPhaseRefiner 1024 True) ! 2)"
proof -
  have v: "verdicts True [slow_call, slow_call, slow_call] (newPhaseRefiner 1024 True) = [Some True, Some True, Some True]"
    using slow_projects
    by (simp add: reading_verdict_def slow_call_def slow_reading_def refine_def judge_def newPhaseRefiner_def)
  have "2 < length [slow_call, slow_call, slow_call]" by simp
  moreover have "map the (filter (\<lambda>v. v \<noteq> None) (take (Suc 2) [Some True, Some True, Some True])) = [] @ [True, True, True]"
    by (simp add: numeral_2_eq_2 del: not_None_eq)
  moreover have "[Some True, Some True, Some True] ! 2 = Some True" by (simp add: numeral_2_eq_2)
  ultimately show ?thesis by (metis abort_after_three_hopeless v)
qed

theorem download_never_follows_load_witness:
  "du_phase (fst (refine_run True [slow_call\<lparr>rc_reading := Some (slow_reading\<lparr>sg_rate := 0\<rparr>)\<rparr>, slow_call]
     (newPhaseRefiner 1024 True) ! 1)) \<noteq> PhaseEngineDownload"
proof -
  let ?cs = "[slow_call\<lparr>rc_reading := Some (slow_reading\<lparr>sg_rate := 0\<rparr>)\<rparr>, slow_call]"
  have "du_phase (fst (refine_run True ?cs (newPhaseRefiner 1024 True) ! 0)) = PhaseEngineLoad"
    by (simp add: slow_call_def slow_reading_def refine_def newPhaseRefiner_def split: prod.split)
  then show ?thesis
    using download_never_follows_load [of 0 1 ?cs True "newPhaseRefiner 1024 True"] by (simp add: slow_call_def)
qed

subsection \<open>Properties of the observer\<close>

text \<open>A run of the observer: the clock and the update of every call.\<close>

definition observe_all :: "(timestamp \<times> dupdate) list \<Rightarrow> observer \<Rightarrow> observer" where
  "observe_all us ob = fold (\<lambda>(now, u). observe now u) us ob"

text \<open>
  The durations recorded so far end where the open phase begins: the invariant of a deploy that has
  opened its first phase at \<open>t0\<close> and has not concluded.
\<close>

definition covers :: "timestamp \<Rightarrow> observer \<Rightarrow> bool" where
  "covers t0 ob \<longleftrightarrow> ob_cur_phase ob \<noteq> [] \<and> sum_list (map snd (ob_durations ob)) = ob_phase_started ob - t0"

lemma covers_close:
  assumes "covers t0 ob" "min_int64 \<le> now - ob_phase_started ob" "now - ob_phase_started ob \<le> max_int64"
  shows "sum_list (map snd (ob_durations (closePhase now ob))) = now - t0" "ob_cur_phase (closePhase now ob) = []"
  using assms by (simp_all add: covers_def closePhase_def time_sub_exact)

lemma covers_observe:
  assumes "covers t0 ob" "min_int64 \<le> now - ob_phase_started ob" "now - ob_phase_started ob \<le> max_int64"
    and "\<not> isTerminalDeployState (du_state u)"
  shows "covers t0 (observe now u ob)" "ob_phase_started (observe now u ob) \<in> {now, ob_phase_started ob}"
  using assms covers_close [OF assms(1-3)]
  by (auto simp: observe_def openPhase_def covers_def closePhase_def)

lemma covers_run:
  assumes "covers t0 ob" "ob_phase_started ob \<in> {lo..hi}" "hi - lo \<le> max_int64"
    and "\<forall>(t, u) \<in> set us. t \<in> {lo..hi} \<and> \<not> isTerminalDeployState (du_state u)"
  shows "covers t0 (observe_all us ob) \<and> ob_phase_started (observe_all us ob) \<in> {lo..hi}"
  using assms
proof (induction us arbitrary: ob)
  case (Cons x us)
  obtain t u where x: "x = (t, u)" by (cases x)
  have b: "min_int64 \<le> t - ob_phase_started ob" "t - ob_phase_started ob \<le> max_int64"
    using Cons.prems x by (auto simp: min_int64_def max_int64_def)
  have t: "\<not> isTerminalDeployState (du_state u)" using Cons.prems(4) x by auto
  have "ob_phase_started (observe t u ob) \<in> {lo..hi}"
    using covers_observe(2) [OF Cons.prems(1) b t] Cons.prems(2,4) x by auto
  then show ?case
    using Cons.IH [OF covers_observe(1) [OF Cons.prems(1) b t]] Cons.prems(3,4) x by (simp add: observe_all_def)
qed (simp add: observe_all_def)

text \<open>
  The phases of a deploy account for all of its time.  From the first update that names a phase
  to the end of the deploy, the recorded durations add up to the elapsed time, for updates in any
  order of phases, as long as no update in between concludes the deploy and the clock stays within
  the range of a \<^verbatim>\<open>time.Duration\<close>.
\<close>

theorem phases_account_for_deploy:
  assumes "du_phase u \<noteq> []" "\<not> isTerminalDeployState (du_state u)" "t0 \<in> {lo..hi}" "t1 \<in> {lo..hi}" "hi - lo \<le> max_int64"
    and "\<forall>(t, v) \<in> set us. t \<in> {lo..hi} \<and> \<not> isTerminalDeployState (du_state v)"
  shows "sum_list (map snd (ob_durations (fst (finish t1 kind err
           (observe_all ((t0, u) # us) (newDeployObserver begin)))))) = t1 - t0
     \<and> ob_cur_phase (fst (finish t1 kind err (observe_all ((t0, u) # us) (newDeployObserver begin)))) = []"
proof -
  let ?ob = "observe_all us (observe t0 u (newDeployObserver begin))"
  have "covers t0 (observe t0 u (newDeployObserver begin))" "ob_phase_started (observe t0 u (newDeployObserver begin)) = t0"
    using assms(1,2) by (simp_all add: observe_def openPhase_def closePhase_def newDeployObserver_def covers_def)
  then have ob: "covers t0 ?ob" "ob_phase_started ?ob \<in> {lo..hi}"
    using covers_run [of t0 "observe t0 u (newDeployObserver begin)" lo hi us] assms(3,5,6) by auto
  have "min_int64 \<le> t1 - ob_phase_started ?ob" "t1 - ob_phase_started ?ob \<le> max_int64"
    using ob(2) assms(4,5) by (auto simp: min_int64_def max_int64_def)
  from covers_close [OF ob(1) this] show ?thesis by (simp add: finish_def Let_def observe_all_def)
qed

theorem phases_account_for_deploy_witness:
  "sum_list (map snd (ob_durations (fst (finish 70 DeployProvision None
     (observe_all [(10, (state_update DStarting [] [])\<lparr>du_phase := ''a''\<rparr>), (40, (state_update DConfiguring [] [])\<lparr>du_phase := ''b''\<rparr>)]
       (newDeployObserver 0)))))) = 60"
  using phases_account_for_deploy [of "(state_update DStarting [] [])\<lparr>du_phase := ''a''\<rparr>" 10 0 100 70
      "[(40, (state_update DConfiguring [] [])\<lparr>du_phase := ''b''\<rparr>)]" DeployProvision None 0]
  by (simp add: isTerminalDeployState_def state_update_def max_int64_def)

end
