(* ===== verification/Engine_Agent.thy ===== *)
theory Engine_Agent
  imports Phase_Refiner Engine_Registry Token_Counter
begin

text \<open>
  The agent beside an engine (\<^verbatim>\<open>internal/engineagent\<close>): what it reads on the machine (cards, links,
  bytes on disk), the state it reports, and its renewal loop.  The outputs of \<^verbatim>\<open>nvidia-smi\<close>, the
  size of the cache directory, the answer of the engine's health endpoint and the clock are
  arguments; an agent runs over the list of answers the control plane gives it.
\<close>

subsection \<open>Cards and links\<close>

definition card_line :: "gostring \<Rightarrow> bool" where
  "card_line line \<longleftrightarrow> has_prefix line ''GPU ''"

definition parseCardCount :: "gostring \<Rightarrow> int" where
  "parseCardCount out = fold (\<lambda>line n. if card_line line then wrap32 (n + 1) else n) (split_lines out) 0"

text \<open>\<open>None\<close> is a failing \<^verbatim>\<open>nvidia-smi\<close>.\<close>

definition CountCards :: "gostring option \<Rightarrow> int" where
  "CountCards out = (case out of None \<Rightarrow> 0 | Some s \<Rightarrow> parseCardCount s)"

record link_health =
  lh_available :: bool
  lh_total :: int
  lh_up :: int

definition link_line :: "gostring \<Rightarrow> bool" where
  "link_line line \<longleftrightarrow> has_prefix (trim_space line) ''Link ''"

definition link_up :: "gostring \<Rightarrow> bool" where
  "link_up line \<longleftrightarrow> bytes_index (trim_space line) ''GB/s'' \<noteq> None"

definition count_link :: "gostring \<Rightarrow> int \<times> int \<Rightarrow> int \<times> int" where
  "count_link line acc =
     (let (n, up) = acc in
      if \<not> link_line line then acc
      else (wrap32 (n + 1), if link_up line then wrap32 (up + 1) else up))"

definition parseNVLinkStatus :: "gostring \<Rightarrow> link_health" where
  "parseNVLinkStatus out =
     (let (n, up) = fold count_link (split_lines out) (0, 0) in
      if n = 0 then \<lparr>lh_available = False, lh_total = 0, lh_up = 0\<rparr>
      else \<lparr>lh_available = True, lh_total = n, lh_up = up\<rparr>)"

definition ReadInterconnect :: "gostring option \<Rightarrow> link_health" where
  "ReadInterconnect out =
     (case out of None \<Rightarrow> \<lparr>lh_available = False, lh_total = 0, lh_up = 0\<rparr> | Some s \<Rightarrow> parseNVLinkStatus s)"

definition InterconnectImpaired :: "link_health option \<Rightarrow> bool" where
  "InterconnectImpaired h =
     (case h of None \<Rightarrow> False | Some h \<Rightarrow> if \<not> lh_available h then False else lh_up h < lh_total h)"

subsection \<open>Readiness\<close>

datatype readiness = NotReady | Ready | Degraded

text \<open>The status of the answer, \<open>None\<close> for a request that got none.\<close>

definition HTTPProbe :: "int option \<Rightarrow> readiness" where
  "HTTPProbe status =
     (case status of None \<Rightarrow> NotReady | Some c \<Rightarrow> if 200 \<le> c \<and> c < 300 then Ready else NotReady)"

definition AnyDegraded :: "readiness option \<Rightarrow> bool option \<Rightarrow> readiness" where
  "AnyDegraded ready impaired =
     (let r = (case ready of None \<Rightarrow> Ready | Some r \<Rightarrow> r) in
      if r \<noteq> Ready then r
      else case impaired of None \<Rightarrow> r | Some True \<Rightarrow> Degraded | Some False \<Rightarrow> Ready)"

subsection \<open>The staging sensor\<close>

record sensor =
  ss_last_at :: timestamp
  ss_last_size :: int
  ss_seeded :: bool

definition new_sensor :: sensor where
  "new_sensor = \<lparr>ss_last_at = 0, ss_last_size = 0, ss_seeded = False\<rparr>"

definition DefaultCacheDirs :: "gostring list" where
  "DefaultCacheDirs = [''/root/.cache/huggingface'', ''/data/.cache/huggingface'']"

definition NewStagingSensor :: "(gostring \<Rightarrow> bool) \<Rightarrow> gostring \<Rightarrow> (gostring \<times> sensor) option" where
  "NewStagingSensor isDir dir =
     (let dir' = (if dir = [] then (case find isDir DefaultCacheDirs of None \<Rightarrow> [] | Some d \<Rightarrow> d) else dir) in
      if dir' = [] then None else Some (dir', new_sensor))"

text \<open>
  The walk of the cache: per entry whether the walk failed there, whether it is a regular file and
  the size it gave, \<open>None\<close> when the file was gone; \<open>None\<close> for a root that is no readable directory.
\<close>

record walk_entry =
  we_failed :: bool
  we_regular :: bool
  we_size :: "int option"

definition dirSize :: "walk_entry list option \<Rightarrow> int option" where
  "dirSize walk =
     map_option (\<lambda>es. fold (\<lambda>e n. if we_failed e then n
                             else if \<not> we_regular e then n
                             else case we_size e of None \<Rightarrow> n | Some b \<Rightarrow> wrap64 (n + b)) es 0) walk"

text \<open>\<^verbatim>\<open>time.Duration.Seconds\<close>: whole seconds plus the rest as a fraction.\<close>

definition Seconds :: "duration \<Rightarrow> rat" where
  "Seconds d = fl64 (of_int (go_quot d second) + fl64 (of_int (d - go_quot d second * second) / 1000000000))"

definition no_reading :: staging_progress where
  "no_reading = \<lparr>sg_available = False, sg_bytes_local = 0, sg_rate = 0, sg_interval = 0\<rparr>"

definition sensor_Read :: "timestamp \<Rightarrow> int option \<Rightarrow> sensor \<Rightarrow> staging_progress \<times> sensor" where
  "sensor_Read now reading s =
     (case reading of
        None \<Rightarrow> (no_reading, s)
      | Some bytes \<Rightarrow>
          (let elapsed = Seconds (time_sub now (ss_last_at s));
               delta = wrap64 (bytes - ss_last_size s);
               base = \<lparr>sg_available = True, sg_bytes_local = bytes, sg_rate = 0, sg_interval = 0\<rparr>;
               out = (if ss_seeded s \<and> 0 < elapsed
                      then base\<lparr>sg_interval := elapsed,
                                sg_rate := (if 0 < delta then fl64 (fl64 (of_int delta) / elapsed) else 0)\<rparr>
                      else base) in
           (out, \<lparr>ss_last_at = now, ss_last_size = bytes, ss_seeded = True\<rparr>)))"

fun sensor_run :: "(timestamp \<times> int option) list \<Rightarrow> sensor \<Rightarrow> staging_progress list" where
  "sensor_run [] s = []"
| "sensor_run ((now, bytes) # ts) s = (case sensor_Read now bytes s of (r, s') \<Rightarrow> r # sensor_run ts s')"

subsection \<open>The agent\<close>

record identity =
  id_engine :: gostring
  id_deployment :: gostring
  id_model :: gostring
  id_endpoint :: gostring
  id_provider :: gostring
  id_host :: gostring
  id_node :: int

record agent =
  ag_ident :: identity
  ag_cards :: int
  ag_span :: "(engine_node \<times> link_health option) list option"
  ag_interval :: duration

definition DefaultInterval :: duration where "DefaultInterval = 5 * second"

definition agent_New :: "identity \<Rightarrow> int \<Rightarrow> (engine_node \<times> link_health option) list \<Rightarrow> duration \<Rightarrow> agent option" where
  "agent_New ident n nodes d =
     (if id_engine ident = [] then None
      else Some \<lparr>ag_ident = ident, ag_cards = (if 0 < n then n else 0),
                 ag_span = (if nodes \<noteq> [] then Some nodes else None),
                 ag_interval = (if 0 < d then d else DefaultInterval)\<rparr>)"

text \<open>
  The readings of a tick are arguments, \<open>None\<close> for an agent without the probe or the sensor.  A
  registration carries no times; the link readings of its nodes and the staging reading stand beside
  the engine record, which holds what the registry acts on.
\<close>

definition own_span :: "agent \<Rightarrow> (engine_node \<times> link_health option) list" where
  "own_span a =
     [(\<lparr>nd_index = id_node (ag_ident a), nd_host_id = id_host (ag_ident a),
        nd_provider = id_provider (ag_ident a), nd_gpu_count = ag_cards a\<rparr>, None)]"

definition stamp_link :: "agent \<Rightarrow> link_health option \<Rightarrow> engine_node \<times> link_health option \<Rightarrow> engine_node \<times> link_health option" where
  "stamp_link a link nl =
     (case link of None \<Rightarrow> nl
      | Some h \<Rightarrow> if nd_index (fst nl) = id_node (ag_ident a) then (fst nl, Some h) else nl)"

definition snapshot ::
  "readiness option \<Rightarrow> link_health option \<Rightarrow> staging_progress option \<Rightarrow> agent \<Rightarrow>
   engine \<times> link_health option list \<times> staging_progress option" where
  "snapshot probe link staging a =
     (let nodes = map (stamp_link a link) (case ag_span a of None \<Rightarrow> own_span a | Some ns \<Rightarrow> ns) in
      (\<lparr>en_id = id_engine (ag_ident a), en_deployment_id = id_deployment (ag_ident a),
        en_model = id_model (ag_ident a),
        en_state = (case (case probe of None \<Rightarrow> Ready | Some r \<Rightarrow> r) of
                      Ready \<Rightarrow> EServing | Degraded \<Rightarrow> EServingDegraded | NotReady \<Rightarrow> EAssembling),
        en_endpoint = id_endpoint (ag_ident a), en_span = map fst nodes,
        en_registered_at = None, en_last_seen_at = None, en_lease_expires_at = None\<rparr>,
       map snd nodes, staging))"

text \<open>
  The answer to a registration is the lease in seconds, or \<open>None\<close> when the call failed.
\<close>

definition registerOnce :: "int option \<Rightarrow> agent \<Rightarrow> agent" where
  "registerOnce answer a =
     (case answer of
        Some lease \<Rightarrow> if 0 < lease then a\<lparr>ag_interval := wrap64 (lease * second) div RenewDivisor\<rparr> else a
      | None \<Rightarrow> a)"

text \<open>The times of the registrations of a run that starts at \<open>now\<close>: one per answer.\<close>

fun agent_Run :: "timestamp \<Rightarrow> int option list \<Rightarrow> agent \<Rightarrow> timestamp list" where
  "agent_Run now [] a = []"
| "agent_Run now (r # rs) a =
     (let a' = registerOnce r a in now # agent_Run (now + ag_interval a') rs a')"

subsection \<open>Links\<close>

lemma count_link_fold:
  assumes "0 \<le> up" "up \<le> n" "n + int (length ls) < 2 ^ 31"
  shows "fold count_link ls (n, up) =
    (n + int (length (filter link_line ls)), up + int (length (filter (\<lambda>l. link_line l \<and> link_up l) ls)))"
  using assms
proof (induction ls arbitrary: n up)
  case (Cons l ls)
  then show ?case by (auto simp: count_link_def)
qed simp

lemma filter_length_strict:
  "length (filter (\<lambda>x. P x \<and> Q x) xs) < length (filter P xs) \<longleftrightarrow> (\<exists>x \<in> set xs. P x \<and> \<not> Q x)"
proof (induction xs)
  case (Cons x xs)
  have "length (filter (\<lambda>x. P x \<and> Q x) xs) \<le> length (filter P xs)"
    by (induction xs) auto
  with Cons show ?case by (auto simp: less_Suc_eq_le le_less)
qed simp

text \<open>
  A link fault is reported exactly when one was seen.  For an \<^verbatim>\<open>nvidia-smi\<close> report of fewer than
  \<open>2 ^ 31\<close> lines the node is impaired if and only if some line describes a link without a bandwidth;
  a report without links, a board without the tool and an unknown status line that is no link line
  are no fault.
\<close>

theorem link_fault_exact:
  assumes "int (length (split_lines out)) < 2 ^ 31"
  shows "InterconnectImpaired (Some (parseNVLinkStatus out)) \<longleftrightarrow>
     (\<exists>line \<in> set (split_lines out). link_line line \<and> \<not> link_up line)"
proof -
  have f: "fold count_link (split_lines out) (0, 0) =
      (int (length (filter link_line (split_lines out))),
       int (length (filter (\<lambda>l. link_line l \<and> link_up l) (split_lines out))))"
    using count_link_fold [of 0 0 "split_lines out"] assms by simp
  show ?thesis
    unfolding filter_length_strict [symmetric] parseNVLinkStatus_def f InterconnectImpaired_def
    by (auto simp: Let_def)
qed

theorem link_fault_exact_witness:
  "InterconnectImpaired (Some (parseNVLinkStatus ''Link 0: <inactive>''))"
proof -
  have l: "split_lines ''Link 0: <inactive>'' = [''Link 0: <inactive>'']" by (simp add: char_of_def)
  have "trim_space ''Link 0: <inactive>'' = ''Link 0: <inactive>''"
    by (rule trim_space_plain) (simp_all add: plain_def)
  then have "link_line ''Link 0: <inactive>'' \<and> \<not> link_up ''Link 0: <inactive>''"
    by (simp add: link_line_def link_up_def has_prefix_def)
  then show ?thesis using link_fault_exact [of "''Link 0: <inactive>''"] unfolding l by simp
qed

subsection \<open>Renewals\<close>

lemma registerOnce_interval:
  assumes "0 < lease" "lease * second \<le> max_int64" "r \<in> {None, Some lease}"
    and "ag_interval a = lease * second div RenewDivisor \<or> r \<noteq> None"
  shows "ag_interval (registerOnce r a) = lease * second div RenewDivisor"
  using assms by (auto simp: registerOnce_def wrap64_nonneg)

lemma agent_Run_times:
  assumes "0 < lease" "lease * second \<le> max_int64" "\<forall>r \<in> set rs. r \<in> {None, Some lease}"
    and "ag_interval a = lease * second div RenewDivisor \<or> (\<exists>qs. rs = Some lease # qs)"
  shows "agent_Run now rs a = map (\<lambda>k. now + int k * (lease * second div RenewDivisor)) [0..<length rs]"
  using assms(3,4)
proof (induction rs arbitrary: now a)
  case (Cons r rs)
  let ?d = "lease * second div RenewDivisor"
  have i: "ag_interval (registerOnce r a) = ?d"
    using registerOnce_interval [OF assms(1,2), of r a] Cons.prems by auto
  have "agent_Run (now + ?d) rs (registerOnce r a) = map (\<lambda>k. now + ?d + int k * ?d) [0..<length rs]"
    using Cons.IH [of "registerOnce r a" "now + ?d"] Cons.prems(1) i by simp
  also have "\<dots> = map (\<lambda>k. now + int k * ?d) (map Suc [0..<length rs])"
    by (simp add: algebra_simps)
  finally show ?case using i by (simp add: Let_def map_Suc_upt upt_conv_Cons del: upt_Suc)
qed simp

text \<open>
  One lost registration does not cost the lease.  After the control plane has answered once, the
  agent registers twice more before the lease it was given runs out, whichever of the later calls
  fail; so a single failed call is made good in time.
\<close>

theorem agent_renews_within_lease:
  assumes "0 < lease" "lease * second \<le> max_int64" "\<forall>r \<in> set rs. r \<in> {None, Some lease}" "k + 2 < length (Some lease # rs)"
  shows "let times = agent_Run now (Some lease # rs) a in
     times ! k < times ! (k + 1) \<and> times ! (k + 1) < times ! (k + 2) \<and> times ! (k + 2) < times ! k + lease * second"
proof -
  let ?d = "lease * second div RenewDivisor"
  have "agent_Run now (Some lease # rs) a = map (\<lambda>k. now + int k * ?d) [0..<length (Some lease # rs)]"
    using assms by (intro agent_Run_times) auto
  moreover have "0 < ?d" "2 * ?d < lease * second" using assms(1) by (auto simp: RenewDivisor_def)
  ultimately show ?thesis using assms(4) by (simp add: Let_def algebra_simps del: upt_Suc)
qed

theorem agent_renews_within_lease_witness:
  "agent_Run 0 [Some 30, None, None] \<lparr>ag_ident = undefined, ag_cards = 1, ag_span = None, ag_interval = 1\<rparr> ! 2 < 30 * second"
  using agent_renews_within_lease [of 30 "[None, None]" 0 0 "\<lparr>ag_ident = undefined, ag_cards = 1, ag_span = None, ag_interval = 1\<rparr>"]
  by (simp add: max_int64_def Let_def numeral_2_eq_2 registerOnce_def RenewDivisor_def)

subsection \<open>Downloads that are never given up\<close>

lemma Seconds_small:
  assumes "0 \<le> d" "d \<le> 89 * second"
  shows "Seconds d \<le> 89"
proof -
  let ?q = "d div second" and ?r = "d mod second"
  have split: "d - go_quot d second * second = ?r" "go_quot d second = ?q"
    using assms(1) minus_div_mult_eq_mod [of d second] by (simp_all add: go_quot_def)
  have r: "0 \<le> ?r" "?r < second" by simp_all
  have ones: "fl64 1 = 1" "fl64 89 = 89" by code_simp+
  have "of_int ?q + fl64 (of_int ?r / 1000000000) \<le> 89"
  proof (cases "?q = 89")
    case True
    then have "?r = 0" using assms(2) r(1) mult_div_mod_eq [of second d] by linarith
    then show ?thesis using True by (simp add: float64.fl_zero)
  next
    case False
    then have q: "?q \<le> 88" using assms by linarith
    have "of_int ?r \<le> (of_int second :: rat)" using r(2) by (simp only: of_int_le_iff less_imp_le)
    then have "fl64 (of_int ?r / 1000000000) \<le> fl64 1" by (intro float64.fl_mono) (simp add: field_simps)
    moreover have "of_int ?q \<le> (88 :: rat)" using q by (metis of_int_le_iff of_int_numeral)
    ultimately show ?thesis using ones(1) by linarith
  qed
  from float64.fl_mono [OF this] show ?thesis unfolding Seconds_def split(1) unfolding split(2) ones(2) .
qed

text \<open>The times of the successful readings.\<close>

definition read_times :: "(timestamp \<times> int option) list \<Rightarrow> timestamp list" where
  "read_times ts = map fst (filter (\<lambda>t. snd t \<noteq> None) ts)"

definition spaced :: "duration \<Rightarrow> timestamp list \<Rightarrow> bool" where
  "spaced g = successively (\<lambda>t t'. 0 \<le> t' - t \<and> t' - t \<le> g)"

lemma spaced_Cons: "spaced g (t # ts) \<longleftrightarrow> ts = [] \<or> 0 \<le> hd ts - t \<and> hd ts - t \<le> g \<and> spaced g ts"
  by (cases ts) (auto simp: spaced_def)

lemma sensor_intervals:
  assumes "spaced (89 * second) (if ss_seeded s then ss_last_at s # read_times ts else read_times ts)"
    and "r \<in> set (sensor_run ts s)"
  shows "sg_interval r \<le> 89"
  using assms
proof (induction ts arbitrary: s)
  case (Cons t ts)
  obtain now size0 where t: "t = (now, size0)" by (cases t)
  show ?case
  proof (cases size0)
    case None
    then show ?thesis
      using Cons.IH [of s] Cons.prems t
      by (auto simp: sensor_Read_def no_reading_def read_times_def split: if_splits)
  next
    case (Some b)
    obtain q s' where rd: "sensor_Read now size0 s = (q, s')" by (cases "sensor_Read now size0 s")
    have s': "ss_seeded s'" "ss_last_at s' = now" using rd Some by (auto simp: sensor_Read_def Let_def)
    have tl: "spaced (89 * second) (now # read_times ts)"
      using Cons.prems(1) t Some by (auto simp: read_times_def spaced_Cons split: if_splits)
    have "sg_interval q \<le> 89"
    proof (cases "ss_seeded s")
      case True
      then have "0 \<le> now - ss_last_at s" "now - ss_last_at s \<le> 89 * second"
        using Cons.prems(1) t Some by (auto simp: read_times_def spaced_Cons)
      then have "Seconds (time_sub now (ss_last_at s)) \<le> 89"
        by (subst time_sub_exact) (simp_all add: min_int64_def max_int64_def Seconds_small)
      then show ?thesis using rd Some by (auto simp: sensor_Read_def Let_def)
    qed (use rd Some in \<open>auto simp: sensor_Read_def Let_def\<close>)
    then show ?thesis
      using Cons.IH [of s'] Cons.prems(2) t rd s' tl by auto
  qed
qed simp

lemma refine_aborts_window:
  "refine en now dl (Some s) u p = (u', p', True) \<Longrightarrow> abortMinWindow \<le> sg_interval s"
  by (auto simp: refine_def judge_def projects_past_def Let_def split: if_splits prod.splits)

lemma run_aborts_window:
  assumes "j < length cs" "snd (refine_run en cs p ! j)"
  shows "\<exists>c \<in> set cs. \<exists>s. rc_reading c = Some s \<and> abortMinWindow \<le> sg_interval s"
  using assms
proof (induction cs arbitrary: p j)
  case (Cons c cs)
  obtain u p' ab where r: "refine en (rc_now c) (rc_deadline c) (rc_reading c) (rc_update c) p = (u, p', ab)"
    by (cases "refine en (rc_now c) (rc_deadline c) (rc_reading c) (rc_update c) p")
  show ?case
  proof (cases j)
    case 0
    then have ab: ab using Cons.prems(2) r by simp
    with r obtain s where "rc_reading c = Some s" by (auto simp: refine_def split: option.splits if_splits)
    with r ab show ?thesis using refine_aborts_window by fastforce
  next
    case (Suc i)
    then show ?thesis using Cons.IH [of i p'] Cons.prems r by auto
  qed
qed simp

text \<open>
  With the default lease no download is ever given up.  The agent reads the sensor once per
  renewal, the default lease makes it renew every ten seconds, and a reading measures from the
  one before it; so unless a renewal comes more than 79 seconds late, no reading reaches the
  ninety-second window that a judgement requires, and no deploy is aborted, however slow its
  download.
\<close>

theorem default_lease_never_aborts:
  assumes "spaced (ag_interval (registerOnce (Some (LeaseSeconds DefaultLease)) a) + 79 * second) (read_times ts)"
    and "\<forall>c \<in> set cs. \<forall>r. rc_reading c = Some r \<longrightarrow> r \<in> set (sensor_run ts new_sensor)"
    and "j < length cs"
  shows "\<not> snd (refine_run en cs (newPhaseRefiner checkpoint True) ! j)"
proof
  assume "snd (refine_run en cs (newPhaseRefiner checkpoint True) ! j)"
  then obtain r where r: "r \<in> set (sensor_run ts new_sensor)" "abortMinWindow \<le> sg_interval r"
    using run_aborts_window [OF assms(3)] assms(2) by blast
  have "ag_interval (registerOnce (Some (LeaseSeconds DefaultLease)) a) = 10 * second"
    by (simp add: registerOnce_def LeaseSeconds_def DefaultLease_def RenewDivisor_def wrap64_def)
  then have "spaced (89 * second) (read_times ts)" using assms(1) by simp
  then have "sg_interval r \<le> 89"
    using sensor_intervals [of new_sensor ts r] r(1) by (simp add: new_sensor_def)
  with r(2) show False by (simp add: abortMinWindow_def)
qed

theorem default_lease_never_aborts_witness:
  "\<not> snd (refine_run True [slow_call\<lparr>rc_reading := Some (sensor_run [(0, Some 0), (10 * second, Some 24)] new_sensor ! 1)\<rparr>]
     (newPhaseRefiner 1024 True) ! 0)"
proof -
  let ?ts = "[(0, Some 0), (10 * second, Some 24)]"
  let ?cs = "[slow_call\<lparr>rc_reading := Some (sensor_run ?ts new_sensor ! 1)\<rparr>]"
  let ?a = "\<lparr>ag_ident = undefined, ag_cards = 1, ag_span = None, ag_interval = 1\<rparr>"
  have "length (sensor_run ?ts new_sensor) = 2" by (simp split: prod.split)
  then have "sensor_run ?ts new_sensor ! 1 \<in> set (sensor_run ?ts new_sensor)" by (intro nth_mem) simp
  moreover have "spaced (ag_interval (registerOnce (Some (LeaseSeconds DefaultLease)) ?a) + 79 * second) (read_times ?ts)"
    by (simp add: spaced_def read_times_def registerOnce_def LeaseSeconds_def DefaultLease_def RenewDivisor_def wrap64_def)
  ultimately show ?thesis using default_lease_never_aborts [of ?a ?ts ?cs 0 True 1024] by simp
qed

end
