(* ===== verification/Engine_Wait.thy ===== *)
theory Engine_Wait
  imports Phase_Refiner
begin

text \<open>
  The wait between renting a machine and the engine's first answer
  (\<^verbatim>\<open>internal/provisioners/enginewait/enginewait.go\<close>).  A round supplies what the callbacks, the
  context and the clock answer in one round of the loop; \<^verbatim>\<open>Wait\<close> runs over a list of ticks and
  gives no result when the list ends first.  The locale \<open>phase_ladder\<close> is the contract a provider's
  vocabulary of phases has to meet.
\<close>

record wait_observation =
  wo_endpoint :: gostring
  wo_phase :: gostring
  wo_detail :: gostring
  wo_ssh :: "ssh_target option"
  wo_fatal :: "gostring option"

text \<open>\<open>wc_logs\<close>: what \<^verbatim>\<open>Logs\<close> returns, \<open>None\<close> for a provider without it.\<close>

record wait_config =
  wc_timeout :: duration
  wc_interval :: duration
  wc_container :: gostring
  wc_endpoint :: gostring
  wc_ordinal :: "gostring \<Rightarrow> int"
  wc_description :: "gostring \<Rightarrow> gostring"
  wc_logs :: "gostring option"

text \<open>
  One round: the probe before the observation, the observation, the probe of an endpoint found in
  this round, the clock at the update, whether the context was done (with a cause of its own or
  without one), and the clock after the interval.
\<close>

record wait_round =
  tk_probe :: "gostring \<Rightarrow> bool \<times> gostring"
  tk_observe :: "gostring \<Rightarrow> wait_observation"
  tk_reprobe :: "gostring \<Rightarrow> bool \<times> gostring"
  tk_emit_at :: timestamp
  tk_done :: "gostring option option"
  tk_after :: timestamp

datatype engine_wait_error =
    WaitFatal gostring
  | WaitStopped gostring gostring gostring
  | WaitTimedOut duration gostring gostring

datatype wait_result =
    WaitReady gostring
  | WaitFailed gostring "engine_wait_error \<times> gostring option"

record wait_state =
  ws_endpoint :: gostring
  ws_phase :: gostring
  ws_last :: gostring

definition poll_interval :: "wait_config \<Rightarrow> duration" where
  "poll_interval c = (if wc_interval c \<le> 0 then 5 * second else wc_interval c)"

definition describe :: "gostring \<Rightarrow> gostring" where
  "describe s = (if s = [] then ''no response'' else s)"

definition withEngineLogs :: "wait_config \<Rightarrow> engine_wait_error \<Rightarrow> engine_wait_error \<times> gostring option" where
  "withEngineLogs c err =
     (err, case wc_logs c of None \<Rightarrow> None
           | Some out \<Rightarrow> (let said = trim_space out in if said = [] then None else Some said))"

text \<open>\<^verbatim>\<open>Duration.Round(time.Second)\<close> and \<^verbatim>\<open>Duration.String\<close>.\<close>

definition round_second :: "duration \<Rightarrow> duration" where
  "round_second d =
     (let r = \<bar>d\<bar> mod second;
          up = (if 2 * r < second then \<bar>d\<bar> - r else \<bar>d\<bar> + second - r) in
      max min_int64 (min max_int64 (if d < 0 then - up else up)))"

text \<open>The digits of a fraction, padded to the precision and without trailing zeros.\<close>

definition frac_digits :: "nat \<Rightarrow> nat \<Rightarrow> gostring" where
  "frac_digits prec r =
     (let ds = replicate (prec - length (dec r)) CHR ''0'' @ dec r;
          kept = rev (dropWhile (\<lambda>c. c = CHR ''0'') (rev ds)) in
      if kept = [] then [] else ''.'' @ kept)"

definition duration_string :: "duration \<Rightarrow> gostring" where
  "duration_string d =
     (let u = nat \<bar>d\<bar>; secs = u div 1000000000; h = secs div 3600; m = secs div 60 mod 60; frac = frac_digits 9 (u mod 1000000000) in
      (if d < 0 then ''-'' else []) @
      (if u = 0 then ''0s''
       else if u < 1000 then dec u @ ''ns''
       else if u < 1000000 then dec (u div 1000) @ frac_digits 3 (u mod 1000) @ map char_of [194 :: nat, 181] @ ''s''
       else if u < 1000000000 then dec (u div 1000000) @ frac_digits 6 (u mod 1000000) @ ''ms''
       else (if 0 < h then dec h @ ''h'' @ dec m @ ''m'' else if 0 < m then dec m @ ''m'' else [])
            @ dec (secs mod 60) @ frac @ ''s''))"

text \<open>The text of a failed wait.\<close>

fun wait_reason :: "engine_wait_error \<Rightarrow> gostring" where
  "wait_reason (WaitFatal e) = e"
| "wait_reason (WaitStopped r phase l) = r @ '' during '' @ phase @ ''; last: '' @ l"
| "wait_reason (WaitTimedOut t phase l) =
     ''engine did not answer /health within '' @ duration_string t @ '', still at '' @ phase @ ''; last: '' @ l"

definition wait_error_text :: "engine_wait_error \<times> gostring option \<Rightarrow> gostring" where
  "wait_error_text e =
     (case e of (err, logs) \<Rightarrow>
        wait_reason err @
        (case logs of None \<Rightarrow> []
         | Some said \<Rightarrow> [char_of (10 :: nat)] @ ''--- engine said ---'' @ [char_of (10 :: nat)] @ said))"

definition wait_update ::
  "wait_config \<Rightarrow> gostring \<Rightarrow> gostring \<Rightarrow> duration \<Rightarrow> ssh_target option \<Rightarrow> dupdate" where
  "wait_update c phase detail elapsed ssh =
     (let msg = wc_description c phase @ (if detail \<noteq> [] then '': '' @ detail else []) in
      \<lparr>du_state = DConfiguring, du_phase = phase,
       du_progress = msg @ '' ('' @ duration_string (round_second elapsed) @ '' elapsed)'',
       du_container = wc_container c, du_endpoint = [], du_failure = [], du_rate = 0, du_ssh = ssh\<rparr>)"

definition stop_reason :: "gostring option \<Rightarrow> gostring" where
  "stop_reason cause = (case cause of None \<Rightarrow> ''caller stopped waiting'' | Some r \<Rightarrow> r)"

definition wait_tick ::
  "wait_config \<Rightarrow> timestamp \<Rightarrow> timestamp \<Rightarrow> wait_round \<Rightarrow> wait_state \<Rightarrow> dupdate list \<times> (wait_result + wait_state)" where
  "wait_tick c started deadline t s =
     (let known = ws_endpoint s \<noteq> [];
          first = (if known then tk_probe t (ws_endpoint s) else (False, ws_last s)) in
      if fst first then ([], Inl (WaitReady (ws_endpoint s)))
      else
        (let obs = tk_observe t (ws_phase s) in
         case wo_fatal obs of
           Some e \<Rightarrow> ([], Inl (WaitFailed (ws_endpoint s) (withEngineLogs c (WaitFatal e))))
         | None \<Rightarrow>
             (let endpoint = (if wo_endpoint obs \<noteq> [] then wo_endpoint obs else ws_endpoint s);
                  phase = (if wc_ordinal c (ws_phase s) \<le> wc_ordinal c (wo_phase obs) then wo_phase obs
                           else ws_phase s);
                  last0 = (if wo_detail obs \<noteq> [] then wo_detail obs else snd first);
                  again = (if endpoint \<noteq> [] \<and> \<not> known then tk_reprobe t endpoint else (False, last0)) in
              if fst again then ([], Inl (WaitReady endpoint))
              else
                (let last1 = (if wo_detail obs = [] then snd again else last0);
                     u = wait_update c phase last1 (time_sub (tk_emit_at t) started) (wo_ssh obs) in
                 ([u],
                  case tk_done t of
                    Some cause \<Rightarrow>
                      Inl (WaitFailed endpoint
                             (withEngineLogs c (WaitStopped (stop_reason cause) phase (describe last1))))
                  | None \<Rightarrow>
                      if deadline < tk_after t then
                        Inl (WaitFailed endpoint
                               (withEngineLogs c (WaitTimedOut (wc_timeout c) phase (describe last1))))
                      else Inr \<lparr>ws_endpoint = endpoint, ws_phase = phase, ws_last = last1\<rparr>)))))"

fun wait_loop ::
  "wait_config \<Rightarrow> timestamp \<Rightarrow> timestamp \<Rightarrow> wait_round list \<Rightarrow> wait_state \<Rightarrow> dupdate list \<times> wait_result option" where
  "wait_loop c started deadline [] s = ([], None)"
| "wait_loop c started deadline (t # ts) s =
     (case wait_tick c started deadline t s of
        (us, Inl r) \<Rightarrow> (us, Some r)
      | (us, Inr s') \<Rightarrow> (case wait_loop c started deadline ts s' of (us', r) \<Rightarrow> (us @ us', r)))"

text \<open>\<open>now\<close> and \<open>started\<close> are the two readings of the clock before the loop.\<close>

definition Wait :: "wait_config \<Rightarrow> timestamp \<Rightarrow> timestamp \<Rightarrow> wait_round list \<Rightarrow> dupdate list \<times> wait_result option" where
  "Wait c now started ts =
     wait_loop c started (now + wc_timeout c) ts \<lparr>ws_endpoint = wc_endpoint c, ws_phase = [], ws_last = []\<rparr>"

subsection \<open>Answers\<close>

text \<open>Where an endpoint of the loop can come from.\<close>

definition offered :: "wait_config \<Rightarrow> wait_round list \<Rightarrow> gostring \<Rightarrow> bool" where
  "offered c ts e \<longleftrightarrow> e = wc_endpoint c \<or> (\<exists>t \<in> set ts. \<exists>p. wo_endpoint (tk_observe t p) = e)"

lemma wait_tick_ready:
  assumes "wait_tick c started deadline t s = (us, Inl (WaitReady e))"
  shows "us = [] \<and> e \<noteq> [] \<and> (fst (tk_probe t e) \<or> fst (tk_reprobe t e))
     \<and> (e = ws_endpoint s \<or> (\<exists>p. wo_endpoint (tk_observe t p) = e))"
  using assms by (auto simp: wait_tick_def Let_def split: if_splits option.splits)

lemma wait_tick_going:
  assumes "wait_tick c started deadline t s = (us, Inr s')"
  shows "length us = 1 \<and> \<not> deadline < tk_after t
     \<and> \<not> (ws_endpoint s \<noteq> [] \<and> fst (tk_probe t (ws_endpoint s)))
     \<and> (ws_endpoint s' = ws_endpoint s \<or> (\<exists>p. wo_endpoint (tk_observe t p) = ws_endpoint s'))"
  using assms by (auto simp: wait_tick_def Let_def split: if_splits option.splits)

lemma wait_loop_ready:
  assumes "wait_loop c started deadline ts s = (us, Some (WaitReady e))"
  shows "length us < length ts \<and> e \<noteq> []
     \<and> (fst (tk_probe (ts ! length us) e) \<or> fst (tk_reprobe (ts ! length us) e))
     \<and> (e = ws_endpoint s \<or> (\<exists>t \<in> set ts. \<exists>p. wo_endpoint (tk_observe t p) = e))"
  using assms
proof (induction ts arbitrary: s us)
  case (Cons t ts)
  obtain vs q where q: "wait_tick c started deadline t s = (vs, q)" by (cases "wait_tick c started deadline t s")
  show ?case
  proof (cases q)
    case (Inl r)
    then show ?thesis using Cons.prems q wait_tick_ready [of c started deadline t s vs e] by auto
  next
    case (Inr s')
    obtain ws where l: "wait_loop c started deadline ts s' = (ws, Some (WaitReady e))" "us = vs @ ws"
      using Cons.prems q Inr by (auto split: prod.splits)
    show ?thesis using Cons.IH [OF l(1)] wait_tick_going [of c started deadline t s vs s'] q Inr l(2) by fastforce
  qed
qed simp

text \<open>Every update of the loop is an intermediate one.\<close>

lemma wait_tick_updates:
  "\<forall>u \<in> set (fst (wait_tick c started deadline t s)). du_state u = DConfiguring \<and> du_container u = wc_container c \<and> du_endpoint u = []"
  by (auto simp: wait_tick_def Let_def wait_update_def split: option.splits)

lemma wait_loop_updates:
  "\<forall>u \<in> set (fst (wait_loop c started deadline ts s)). du_state u = DConfiguring \<and> du_container u = wc_container c \<and> du_endpoint u = []"
proof (induction ts arbitrary: s)
  case (Cons t ts)
  obtain vs q where q: "wait_tick c started deadline t s = (vs, q)" by (cases "wait_tick c started deadline t s")
  have vs: "\<forall>u \<in> set vs. du_state u = DConfiguring \<and> du_container u = wc_container c \<and> du_endpoint u = []"
    using wait_tick_updates [of c started deadline t s] q by simp
  show ?case
  proof (cases q)
    case (Inr s')
    then show ?thesis using vs q Cons.IH [of s'] by (cases "wait_loop c started deadline ts s'") auto
  qed (use vs q in simp)
qed simp

text \<open>
  A wait succeeds only on an answer.  The endpoint that \<^verbatim>\<open>Wait\<close> returns is one the provider
  named, a probe of exactly that endpoint answered in the round that ended the wait, and until then
  the only updates are CONFIGURING ones without an endpoint.
\<close>

theorem wait_ready_answered:
  assumes "Wait c now started ts = (us, Some (WaitReady e))"
  shows "e \<noteq> [] \<and> offered c ts e \<and> length us < length ts
     \<and> (fst (tk_probe (ts ! length us) e) \<or> fst (tk_reprobe (ts ! length us) e))
     \<and> (\<forall>u. u \<in> set us \<longrightarrow> du_state u = DConfiguring \<and> du_endpoint u = [])"
proof -
  have l: "wait_loop c started (now + wc_timeout c) ts \<lparr>ws_endpoint = wc_endpoint c, ws_phase = [], ws_last = []\<rparr>
      = (us, Some (WaitReady e))"
    using assms by (simp add: Wait_def)
  show ?thesis
    using wait_loop_ready [OF l]
      wait_loop_updates [of c started "now + wc_timeout c" ts
        "\<lparr>ws_endpoint = wc_endpoint c, ws_phase = [], ws_last = []\<rparr>"] l
    by (auto simp: offered_def)
qed

subsection \<open>Termination\<close>

lemma wait_loop_running:
  assumes "wait_loop c started deadline ts s = (us, None)" "k < length ts"
  shows "tk_after (ts ! k) \<le> deadline"
  using assms
proof (induction ts arbitrary: s us k)
  case (Cons t ts)
  obtain vs q where q: "wait_tick c started deadline t s = (vs, q)" by (cases "wait_tick c started deadline t s")
  then obtain s' where s': "q = Inr s'" using Cons.prems(1) by (cases q) auto
  obtain ws where "wait_loop c started deadline ts s' = (ws, None)"
    using Cons.prems(1) q s' by (auto split: prod.splits)
  then show ?case
    using Cons.IH [of s' ws] Cons.prems(2) wait_tick_going [of c started deadline t s vs s'] q s'
    by (cases k) auto
qed simp

text \<open>
  C34: A wait ends.  When every round takes at least the poll interval, the wait has a result after
  at most as many rounds as intervals fit into the timeout, plus one.
\<close>

theorem wait_ends:
  assumes "\<forall>k < length ts. now + int (Suc k) * poll_interval c \<le> tk_after (ts ! k)"
    and "nat (wc_timeout c div poll_interval c) < length ts"
  shows "\<exists>us r. Wait c now started ts = (us, Some r)"
proof (rule ccontr)
  assume "\<not> ?thesis"
  then obtain us where w: "Wait c now started ts = (us, None)" by (metis not_None_eq surj_pair)
  let ?k = "nat (wc_timeout c div poll_interval c)"
  have p: "0 < poll_interval c" by (simp add: poll_interval_def)
  have "wc_timeout c < int (Suc ?k) * poll_interval c"
  proof -
    have "wc_timeout c < (wc_timeout c div poll_interval c + 1) * poll_interval c"
      using pos_mod_bound [OF p, of "wc_timeout c"] div_mult_mod_eq [of "wc_timeout c" "poll_interval c"]
      unfolding distrib_right by linarith
    also have "\<dots> \<le> int (Suc ?k) * poll_interval c" using p by (intro mult_right_mono) auto
    finally show ?thesis .
  qed
  then have "now + wc_timeout c < tk_after (ts ! ?k)" using assms by fastforce
  moreover have "tk_after (ts ! ?k) \<le> now + wc_timeout c"
    using wait_loop_running assms(2) w unfolding Wait_def by blast
  ultimately show False by simp
qed

subsection \<open>Ladders\<close>

text \<open>
  The laws of a ladder: exactly the rungs rank above zero, no two alike, and the empty phase is no
  rung.  What follows from them holds for every provider that waits with such a ladder.
\<close>

locale phase_ladder =
  fixes ordinal :: "gostring \<Rightarrow> int" and rungs :: "gostring list"
  assumes rung_iff: "p \<in> set rungs \<longleftrightarrow> 0 < ordinal p"
    and rung_inj: "p \<in> set rungs \<Longrightarrow> q \<in> set rungs \<Longrightarrow> ordinal p = ordinal q \<Longrightarrow> p = q"
    and rung_nonempty: "[] \<notin> set rungs"
begin

lemma climbing_once:
  assumes "sorted (map ordinal ps)" "set ps \<subseteq> set rungs"
  shows "distinct (remdups_adj ps)"
  using assms
proof (induction ps rule: remdups_adj.induct)
  case (3 x y xs)
  show ?case
  proof (cases "x = y")
    case False
    have "x \<noteq> z" if "z \<in> set (y # xs)" for z
    proof
      assume "x = z"
      then have "ordinal y \<le> ordinal x" using that 3(3) by auto
      then have "ordinal x = ordinal y" using 3(3) by simp
      then show False using False rung_inj 3(4) by simp
    qed
    then show ?thesis using False 3 by auto
  qed (use 3 in simp)
qed simp_all

end

lemma wait_tick_climbs:
  assumes "wait_tick c started deadline t s = (us, q)"
  shows "(\<forall>u \<in> set us. wc_ordinal c (ws_phase s) \<le> wc_ordinal c (du_phase u)
           \<and> du_phase u \<in> {ws_phase s, wo_phase (tk_observe t (ws_phase s))}
           \<and> wo_fatal (tk_observe t (ws_phase s)) = None)
     \<and> length us \<le> 1
     \<and> (\<forall>s'. q = Inr s' \<longrightarrow> us \<noteq> [] \<and> ws_phase s' = du_phase (hd us))"
  using assms by (auto simp: wait_tick_def wait_update_def Let_def split: if_splits option.splits)

lemma wait_loop_climbs:
  assumes "\<forall>t \<in> set ts. \<forall>p. wo_fatal (tk_observe t p) = None \<longrightarrow> wo_phase (tk_observe t p) \<in> insert p R"
  shows "sorted (map (\<lambda>u. wc_ordinal c (du_phase u)) (fst (wait_loop c started deadline ts s)))
     \<and> (\<forall>u \<in> set (fst (wait_loop c started deadline ts s)).
          wc_ordinal c (ws_phase s) \<le> wc_ordinal c (du_phase u) \<and> du_phase u \<in> insert (ws_phase s) R)"
  using assms
proof (induction ts arbitrary: s)
  case (Cons t ts)
  obtain vs q where q: "wait_tick c started deadline t s = (vs, q)" by (cases "wait_tick c started deadline t s")
  note climbed = wait_tick_climbs [OF q]
  have R: "du_phase u \<in> insert (ws_phase s) R" if "u \<in> set vs" for u
  proof -
    have "wo_fatal (tk_observe t (ws_phase s)) = None" using climbed that by blast
    then have "wo_phase (tk_observe t (ws_phase s)) \<in> insert (ws_phase s) R" using Cons.prems by simp
    moreover have "du_phase u \<in> {ws_phase s, wo_phase (tk_observe t (ws_phase s))}" using climbed that by blast
    ultimately show ?thesis by auto
  qed
  show ?case
  proof (cases q)
    case (Inl r)
    then show ?thesis using q climbed R by (cases vs) (auto split: prod.splits)
  next
    case (Inr s')
    then obtain u where u: "vs = [u]" "ws_phase s' = du_phase u" using climbed by (cases vs) auto
    have "\<forall>t \<in> set ts. \<forall>p. wo_fatal (tk_observe t p) = None \<longrightarrow> wo_phase (tk_observe t p) \<in> insert p R" using Cons.prems by simp
    from Cons.IH [OF this, of s'] show ?thesis
      using q Inr u climbed R [of u] by (fastforce split: prod.splits)
  qed
qed simp

subsection \<open>Phases on record\<close>

text \<open>What the observer has recorded, and the phase that is open.\<close>

definition seen_phases :: "observer \<Rightarrow> gostring list" where
  "seen_phases ob = map fst (ob_durations ob) @ (if ob_cur_phase ob = [] then [] else [ob_cur_phase ob])"

lemma remdups_adj_snoc:
  "remdups_adj (xs @ [x]) = (if xs \<noteq> [] \<and> last xs = x then remdups_adj xs else remdups_adj xs @ [x])"
  by (induction xs rule: remdups_adj.induct) auto

text \<open>Without a conclusion, the phases seen are the named phases of the updates, repeats removed.\<close>

lemma observe_all_phases:
  assumes "\<forall>(now, u) \<in> set us. \<not> isTerminalDeployState (du_state u)"
  shows "seen_phases (observe_all us (newDeployObserver t)) = remdups_adj (filter (\<lambda>p. p \<noteq> []) (map (\<lambda>x. du_phase (snd x)) us))
     \<and> ob_cur_phase (observe_all us (newDeployObserver t)) =
         (let ps = filter (\<lambda>p. p \<noteq> []) (map (\<lambda>x. du_phase (snd x)) us) in if ps = [] then [] else last ps)"
  using assms
proof (induction us rule: rev_induct)
  case (snoc x us)
  obtain now u where x: "x = (now, u)" by (cases x)
  have IH: "seen_phases (observe_all us (newDeployObserver t)) = remdups_adj (filter (\<lambda>p. p \<noteq> []) (map (\<lambda>x. du_phase (snd x)) us))"
    "ob_cur_phase (observe_all us (newDeployObserver t)) =
       (let ps = filter (\<lambda>p. p \<noteq> []) (map (\<lambda>x. du_phase (snd x)) us) in if ps = [] then [] else last ps)"
    using snoc by auto
  have "\<not> isTerminalDeployState (du_state u)" using snoc.prems x by auto
  moreover have "observe_all (us @ [x]) (newDeployObserver t) = observe now u (observe_all us (newDeployObserver t))"
    by (simp add: observe_all_def x)
  ultimately show ?case
    using IH x
    by (auto simp: observe_def openPhase_def closePhase_def seen_phases_def remdups_adj_snoc Let_def split: if_splits)
qed (simp add: observe_all_def newDeployObserver_def seen_phases_def)

lemma finish_phases: "map fst (ob_durations (fst (finish now kind err ob))) = seen_phases ob"
  by (simp add: finish_def closePhase_def seen_phases_def Let_def)

end
