(* ===== verification/Agent_Delivery.thy ===== *)
theory Agent_Delivery
  imports Engine_Agent
begin

text \<open>
  How the agent reaches a machine and learns who it is: the scripts of
  \<^verbatim>\<open>internal/engineagent/delivery.go\<close>, the environment of \<^verbatim>\<open>internal/provisioners/agentenv.go\<close> and
  the command that reads it back (\<^verbatim>\<open>cmd/iplane/cmd/engine_agent.go\<close>).  The reading of a command line
  by a shell is the specification the quoting is proved against.
\<close>

subsection \<open>Quoting\<close>

abbreviation QUOTE :: char where "QUOTE \<equiv> CHR 0x27"
abbreviation BACKSLASH :: char where "BACKSLASH \<equiv> CHR 0x5C"
abbreviation BLANK :: char where "BLANK \<equiv> CHR 0x20"

text \<open>\<^verbatim>\<open>strings.ReplaceAll\<close> for a pattern of one character.\<close>

definition replace_char :: "char \<Rightarrow> gostring \<Rightarrow> gostring \<Rightarrow> gostring" where
  "replace_char c new s = concat (map (\<lambda>d. if d = c then new else [d]) s)"

definition shQuote :: "gostring \<Rightarrow> gostring" where
  "shQuote s = [QUOTE] @ replace_char QUOTE [QUOTE, BACKSLASH, QUOTE, QUOTE] s @ [QUOTE]"

definition shJoin :: "gostring list \<Rightarrow> gostring" where
  "shJoin argv = join_with [BLANK] (map shQuote argv)"

subsection \<open>Scripts\<close>

definition releaseAssetURL :: "gostring \<Rightarrow> gostring \<Rightarrow> gostring" where
  "releaseAssetURL version arch =
     ''https://github.com/inference-book/inference-plane/releases/download/'' @ version @ ''/iplane-linux-'' @ arch"

definition IsRelease :: "gostring \<Rightarrow> bool" where
  "IsRelease version \<longleftrightarrow> version \<noteq> ''dev'' \<and> version \<noteq> []"

definition EnvBinaryURL :: gostring where "EnvBinaryURL = ''IPLANE_AGENT_BINARY_URL''"

text \<open>\<^verbatim>\<open>os.Getenv\<close> gives the empty string for an unset variable.\<close>

definition getenv :: "(gostring \<rightharpoonup> gostring) \<Rightarrow> gostring \<Rightarrow> gostring" where
  "getenv env k = (case env k of None \<Rightarrow> [] | Some v \<Rightarrow> v)"

definition BinaryURL :: "(gostring \<rightharpoonup> gostring) \<Rightarrow> gostring \<Rightarrow> gostring \<Rightarrow> gostring option" where
  "BinaryURL env version arch =
     (if getenv env EnvBinaryURL \<noteq> [] then Some (getenv env EnvBinaryURL)
      else if \<not> IsRelease version then None
      else Some (releaseAssetURL version (if arch = [] then ''amd64'' else arch)))"

definition AgentPrelude :: "gostring \<Rightarrow> gostring option" where
  "AgentPrelude binaryURL =
     (if binaryURL = [] then None
      else Some (join_with [LF]
        [''{'',
         ''  ('',
         ''    if command -v curl >/dev/null 2>&1; then'',
         ''      curl -fsSL '' @ shQuote binaryURL @ '' -o /tmp/iplane;'',
         ''    elif command -v wget >/dev/null 2>&1; then'',
         ''      wget -qO /tmp/iplane '' @ shQuote binaryURL @ '';'',
         ''    fi;'',
         ''    chmod +x /tmp/iplane && /tmp/iplane engine-agent;'',
         ''  ) >/tmp/iplane-agent.log 2>&1 &'',
         ''} || true;'']))"

definition WrapperScript :: "gostring \<Rightarrow> gostring list \<Rightarrow> gostring option" where
  "WrapperScript binaryURL engineCmd =
     (if binaryURL = [] then None
      else if engineCmd = [] then None
      else case AgentPrelude binaryURL of
        None \<Rightarrow> None
      | Some prelude \<Rightarrow> Some (prelude @ [LF] @ ''exec '' @ shJoin engineCmd @ '' \"$@\"''))"

definition AgentScript :: "gostring \<Rightarrow> gostring option" where
  "AgentScript binaryURL =
     (if binaryURL = [] then None
      else Some (join_with [LF]
        [''set -e;'',
         ''if command -v curl >/dev/null 2>&1; then'',
         ''  curl -fsSL '' @ shQuote binaryURL @ '' -o /tmp/iplane;'',
         ''else'',
         ''  wget -qO /tmp/iplane '' @ shQuote binaryURL @ '';'',
         ''fi;'',
         ''chmod +x /tmp/iplane;'',
         ''exec /tmp/iplane engine-agent'']))"

subsection \<open>The injected identity\<close>

definition EnvEngineID :: gostring where "EnvEngineID = ''IPLANE_ENGINE_ID''"
definition EnvDeploymentID :: gostring where "EnvDeploymentID = ''IPLANE_DEPLOYMENT_ID''"
definition EnvModel :: gostring where "EnvModel = ''IPLANE_ENGINE_MODEL''"
definition EnvProvider :: gostring where "EnvProvider = ''IPLANE_PROVIDER''"
definition EnvNodeIndex :: gostring where "EnvNodeIndex = ''IPLANE_NODE_INDEX''"
definition EnvServiceURL :: gostring where "EnvServiceURL = ''IPLANE_SERVICE_URL''"
definition EnvHealthURL :: gostring where "EnvHealthURL = ''IPLANE_ENGINE_HEALTH_URL''"
definition EnvEndpoint :: gostring where "EnvEndpoint = ''IPLANE_ENGINE_ENDPOINT''"
definition EnvCacheDir :: gostring where "EnvCacheDir = ''IPLANE_ENGINE_CACHE_DIR''"
definition EnvHostID :: gostring where "EnvHostID = ''IPLANE_HOST_ID''"

lemmas agent_env_names = EnvEngineID_def EnvDeploymentID_def EnvModel_def EnvProvider_def EnvNodeIndex_def
  EnvServiceURL_def EnvHealthURL_def EnvEndpoint_def EnvCacheDir_def EnvHostID_def

text \<open>\<^verbatim>\<open>strconv.Itoa\<close>.\<close>

definition itoa :: "int \<Rightarrow> gostring" where
  "itoa i = (if i < 0 then ''-'' @ dec (nat (- i)) else dec (nat i))"

definition agent_stamp :: "deployment \<Rightarrow> gostring \<Rightarrow> int \<Rightarrow> gostring \<Rightarrow> gostring \<Rightarrow> (gostring \<times> gostring) list" where
  "agent_stamp dep engineID nodeIndex provider serviceURL =
     [(EnvEngineID, engineID), (EnvDeploymentID, dep_id dep), (EnvModel, dep_model dep), (EnvProvider, provider),
      (EnvNodeIndex, itoa nodeIndex)]
     @ (if serviceURL \<noteq> [] then [(EnvServiceURL, serviceURL)] else [])
     @ (if dep_engine_port dep \<noteq> 0
        then [(EnvHealthURL, ''http://127.0.0.1:'' @ itoa (dep_engine_port dep) @ ''/health'')] else [])"

definition stamp_env :: "gostring \<times> gostring \<Rightarrow> (gostring \<rightharpoonup> gostring) \<Rightarrow> (gostring \<rightharpoonup> gostring)" where
  "stamp_env kv env =
     (case kv of (k, v) \<Rightarrow> if v = [] then env else if env k \<noteq> None then env else env(k \<mapsto> v))"

definition withAgentEnv :: "deployment \<Rightarrow> gostring \<Rightarrow> int \<Rightarrow> gostring \<Rightarrow> gostring \<Rightarrow> deployment" where
  "withAgentEnv dep engineID nodeIndex provider serviceURL =
     dep\<lparr>dep_env := fold stamp_env (agent_stamp dep engineID nodeIndex provider serviceURL) (dep_env dep)\<rparr>"

subsection \<open>The agent's command\<close>

definition envOr :: "(gostring \<rightharpoonup> gostring) \<Rightarrow> gostring \<Rightarrow> gostring \<Rightarrow> gostring" where
  "envOr env key fallback = (if getenv env key \<noteq> [] then getenv env key else fallback)"

definition envInt :: "(gostring \<rightharpoonup> gostring) \<Rightarrow> gostring \<Rightarrow> int \<Rightarrow> int" where
  "envInt env key fallback =
     (if getenv env key = [] then fallback
      else case go_atoi (getenv env key) of None \<Rightarrow> fallback | Some n \<Rightarrow> n)"

text \<open>
  The command without flags: its identity, health URL and cache directory, or the variable it
  misses.
\<close>

definition runEngineAgent :: "(gostring \<rightharpoonup> gostring) \<Rightarrow> gostring + identity \<times> gostring \<times> gostring" where
  "runEngineAgent env =
     (if getenv env EnvServiceURL = [] then Inl EnvServiceURL
      else if getenv env EnvEngineID = [] then Inl EnvEngineID
      else Inr (\<lparr>id_engine = getenv env EnvEngineID, id_deployment = getenv env EnvDeploymentID,
                 id_model = getenv env EnvModel, id_endpoint = getenv env EnvEndpoint,
                 id_provider = getenv env EnvProvider, id_host = getenv env EnvHostID,
                 id_node = wrap32 (envInt env EnvNodeIndex 0)\<rparr>,
                envOr env EnvHealthURL ''http://127.0.0.1:8000/health'', getenv env EnvCacheDir))"

subsection \<open>Reading a command line\<close>

text \<open>
  The part of the shell's grammar the quoting relies on: between single quotes every character
  stands for itself, a backslash outside quotes protects the next one, blanks separate words.  Any
  other character outside quotes is left to the shell, and the reading gives up there.
\<close>

fun until_quote :: "gostring \<Rightarrow> (gostring \<times> gostring) option" where
  "until_quote [] = None"
| "until_quote (c # cs) =
     (if c = QUOTE then Some ([], cs)
      else case until_quote cs of None \<Rightarrow> None | Some (w, r) \<Rightarrow> Some (c # w, r))"

lemma until_quote_length: "until_quote s = Some (w, r) \<Longrightarrow> length r < length s"
  by (induction s arbitrary: w) (fastforce split: if_splits option.splits)+

definition sh_push :: "gostring option \<Rightarrow> gostring list \<Rightarrow> gostring list" where
  "sh_push cur ws = (case cur of None \<Rightarrow> ws | Some w \<Rightarrow> w # ws)"

definition sh_cur :: "gostring option \<Rightarrow> gostring" where
  "sh_cur cur = (case cur of None \<Rightarrow> [] | Some w \<Rightarrow> w)"

function sh_words :: "gostring option \<Rightarrow> gostring \<Rightarrow> gostring list option" where
  "sh_words cur [] = Some (sh_push cur [])"
| "sh_words cur (c # cs) =
     (if c = QUOTE then
        (case until_quote cs of None \<Rightarrow> None | Some (w, r) \<Rightarrow> sh_words (Some (sh_cur cur @ w)) r)
      else if c = BACKSLASH then
        (case cs of [] \<Rightarrow> None | d # ds \<Rightarrow> sh_words (Some (sh_cur cur @ [d])) ds)
      else if c = BLANK then map_option (sh_push cur) (sh_words None cs)
      else None)"
  by pat_completeness auto
termination
  by (relation "measure (length \<circ> snd)") (auto dest!: until_quote_length)

lemma replace_char_simps [simp]:
  "replace_char c new [] = []"
  "replace_char c new (d # s) = (if d = c then new else [d]) @ replace_char c new s"
  by (simp_all add: replace_char_def)

lemma until_quote_plain: "QUOTE \<notin> set w \<Longrightarrow> until_quote (w @ QUOTE # r) = Some (w, r)"
  by (induction w) auto

lemma sh_words_quote:
  "sh_words cur (QUOTE # replace_char QUOTE [QUOTE, BACKSLASH, QUOTE, QUOTE] s @ QUOTE # rest) =
     sh_words (Some (sh_cur cur @ s)) rest"
proof (induction "length s" arbitrary: s cur rule: less_induct)
  case less
  let ?rep = "replace_char QUOTE [QUOTE, BACKSLASH, QUOTE, QUOTE]"
  show ?case
  proof (cases "QUOTE \<in> set s")
    case False
    then have "?rep s = s" by (induction s) auto
    then show ?thesis using until_quote_plain [OF False] by simp
  next
    case True
    then obtain w s' where s: "s = w @ QUOTE # s'" "QUOTE \<notin> set w" by (meson split_list_first)
    have w: "?rep (w @ x) = w @ ?rep x" for x using s(2) by (induction w) auto
    have "sh_words cur (QUOTE # ?rep s @ QUOTE # rest) =
        sh_words (Some (sh_cur (Some (sh_cur cur @ w)) @ [QUOTE])) (QUOTE # ?rep s' @ QUOTE # rest)"
      using until_quote_plain [OF s(2)] by (simp add: s(1) w)
    also have "\<dots> = sh_words (Some (sh_cur (Some (sh_cur cur @ w @ [QUOTE])) @ s')) rest"
      using less [of s' "Some (sh_cur cur @ w @ [QUOTE])"] by (simp add: s(1) sh_cur_def)
    finally show ?thesis by (simp add: s(1) sh_cur_def)
  qed
qed

lemma sh_words_shQuote: "sh_words cur (shQuote s @ rest) = sh_words (Some (sh_cur cur @ s)) rest"
  using sh_words_quote [of cur s rest] by (simp add: shQuote_def)

lemma sh_words_shJoin: "sh_words None (shJoin argv) = Some argv"
proof (induction argv rule: induct_list012)
  case 1
  show ?case by (simp add: shJoin_def sh_push_def)
next
  case (2 x)
  show ?case using sh_words_shQuote [of None x "[]"] by (simp add: shJoin_def sh_push_def sh_cur_def)
next
  case (3 x y zs)
  have "shJoin (x # y # zs) = shQuote x @ BLANK # shJoin (y # zs)" by (simp add: shJoin_def)
  with 3(2) show ?case by (simp add: sh_words_shQuote sh_cur_def sh_push_def)
qed

text \<open>
  Quoting is safe.  A shell that reads the command line of \<^verbatim>\<open>shJoin\<close> gets back exactly the
  words that went in, whatever characters they contain; no character of an argument reaches the
  shell unquoted.
\<close>

theorem sh_quote_roundtrip: "sh_words None (shJoin argv) = Some argv"
  by (rule sh_words_shJoin)

subsection \<open>The identity, there and back\<close>

lemma stamp_fold:
  assumes "distinct (map fst kvs)"
  shows "fold stamp_env kvs env k =
    (case env k of Some v \<Rightarrow> Some v | None \<Rightarrow> (case map_of kvs k of None \<Rightarrow> None | Some v \<Rightarrow> if v = [] then None else Some v))"
  using assms
proof (induction kvs arbitrary: env)
  case (Cons kv kvs)
  obtain k' v where kv: "kv = (k', v)" by (cases kv)
  have "map_of kvs k' = None" using Cons.prems kv by (simp add: map_of_eq_None_iff)
  then show ?case using Cons kv by (auto simp: stamp_env_def split: option.splits)
qed (simp split: option.split)

lemma agent_stamp_distinct: "distinct (map fst (agent_stamp dep engineID nodeIndex provider serviceURL))"
  by (simp add: agent_stamp_def agent_env_names)

lemma withAgentEnv_env:
  "dep_env (withAgentEnv dep engineID nodeIndex provider serviceURL) k =
     (case dep_env dep k of Some v \<Rightarrow> Some v
      | None \<Rightarrow> (case map_of (agent_stamp dep engineID nodeIndex provider serviceURL) k of
                  None \<Rightarrow> None | Some v \<Rightarrow> if v = [] then None else Some v))"
  by (simp add: withAgentEnv_def stamp_fold agent_stamp_distinct)

lemma itoa_atoi: "0 \<le> i \<Longrightarrow> i \<le> max_int64 \<Longrightarrow> itoa i \<noteq> [] \<and> go_atoi (itoa i) = Some i"
  using go_atoi_dec [of "nat i"] dec_nonempty [of "nat i"] by (simp add: itoa_def)

text \<open>
  C36: The agent registers under the identity of its slot.  When the operator's environment sets none
  of the identity variables, the agent that starts in the stamped environment announces the engine
  id, deployment, model, provider and node it was placed for, with the endpoint and the host left
  for the control plane to fill in, and probes the port the engine was told to listen on.
\<close>

theorem agent_identity_roundtrip:
  assumes "\<forall>k \<in> {EnvEngineID, EnvDeploymentID, EnvModel, EnvProvider, EnvNodeIndex, EnvServiceURL, EnvHealthURL,
                  EnvEndpoint, EnvHostID}. dep_env dep k = None"
    and "engineID \<noteq> []" "serviceURL \<noteq> []" "0 \<le> nodeIndex" "nodeIndex < 2 ^ 31"
  shows "\<exists>cacheDir. runEngineAgent (dep_env (withAgentEnv dep engineID nodeIndex provider serviceURL)) =
     Inr (\<lparr>id_engine = engineID, id_deployment = dep_id dep, id_model = dep_model dep, id_endpoint = [],
           id_provider = provider, id_host = [], id_node = nodeIndex\<rparr>,
          ''http://127.0.0.1:'' @ itoa (if dep_engine_port dep = 0 then 8000 else dep_engine_port dep) @ ''/health'',
          cacheDir)"
proof -
  let ?env = "dep_env (withAgentEnv dep engineID nodeIndex provider serviceURL)"
  have get: "getenv ?env k = (case map_of (agent_stamp dep engineID nodeIndex provider serviceURL) k of None \<Rightarrow> [] | Some v \<Rightarrow> v)"
    if "dep_env dep k = None" for k
    using that by (simp add: getenv_def withAgentEnv_env split: option.split)
  have n: "itoa nodeIndex \<noteq> []" "go_atoi (itoa nodeIndex) = Some nodeIndex"
    using itoa_atoi [of nodeIndex] assms(4,5) by (simp_all add: max_int64_def)
  have d8000: "itoa 8000 = ''8000''" by (simp add: itoa_def dec.simps char_of_def bit_simps; code_simp)
  note e = get [of EnvEngineID] get [of EnvDeploymentID] get [of EnvModel] get [of EnvProvider] get [of EnvNodeIndex]
    get [of EnvServiceURL] get [of EnvHealthURL] get [of EnvEndpoint] get [of EnvHostID]
  have ids: "getenv ?env EnvEngineID = engineID" "getenv ?env EnvDeploymentID = dep_id dep" "getenv ?env EnvModel = dep_model dep"
    "getenv ?env EnvProvider = provider" "getenv ?env EnvNodeIndex = itoa nodeIndex" "getenv ?env EnvServiceURL = serviceURL"
    "getenv ?env EnvEndpoint = []" "getenv ?env EnvHostID = []"
    "getenv ?env EnvHealthURL = (if dep_engine_port dep = 0 then []
       else ''http://127.0.0.1:'' @ itoa (dep_engine_port dep) @ ''/health'')"
    using e assms by (simp_all add: agent_stamp_def agent_env_names)
  show ?thesis
    using assms(2-5) n by (simp add: runEngineAgent_def envInt_def envOr_def ids d8000 wrap32_nonneg)
qed

definition sample_agent_dep :: deployment where
  "sample_agent_dep = zero_deployment\<lparr>dep_id := ''chat'', dep_model := ''m'', dep_engine_port := 9000\<rparr>"

theorem agent_identity_roundtrip_witness:
  "\<exists>cacheDir health. runEngineAgent (dep_env (withAgentEnv sample_agent_dep ''chat-r1'' 0 ''vast'' ''http://cp'')) =
     Inr (\<lparr>id_engine = ''chat-r1'', id_deployment = ''chat'', id_model = ''m'', id_endpoint = [],
           id_provider = ''vast'', id_host = [], id_node = 0\<rparr>, health, cacheDir)"
  using agent_identity_roundtrip [of sample_agent_dep "''chat-r1''" "''http://cp''" 0 "''vast''"]
  by (auto simp: sample_agent_dep_def zero_deployment_def)

text \<open>An operator's own value is never overwritten, and nothing but the identity is added.\<close>

lemma agent_env_operator_wins:
  "dep_env dep k = Some v \<Longrightarrow> dep_env (withAgentEnv dep engineID nodeIndex provider serviceURL) k = Some v"
  "dep_env dep k = None \<Longrightarrow> dep_env (withAgentEnv dep engineID nodeIndex provider serviceURL) k = Some v \<Longrightarrow>
     k \<in> {EnvEngineID, EnvDeploymentID, EnvModel, EnvProvider, EnvNodeIndex, EnvServiceURL, EnvHealthURL}"
  by (auto simp: withAgentEnv_env agent_stamp_def split: option.splits if_splits)

end
