(* ===== verification/Sku_Catalog.thy ===== *)
theory Sku_Catalog
  imports Placement Instance_Service Float_Rounding
begin

text \<open>
  Which cards a requirement may be rented on: what a card's interconnect is and whether it satisfies
  a request (\<^verbatim>\<open>internal/provisioners/fabric\<close>), the resolver over a catalog
  (\<^verbatim>\<open>internal/provisioners/skucatalog\<close>), the catalogs of the three providers (\<^verbatim>\<open>skus.go\<close> of each),
  and the query the marketplace is searched with (\<^verbatim>\<open>vast/vast.go\<close>).  Prices are exact decimals.
\<close>

subsection \<open>Interconnect\<close>

datatype capability = CapabilityNone | CapabilityAlways | CapabilityOptional

text \<open>\<open>FamilyUnknown\<close> stands for an empty or unrecognized family.\<close>

datatype gpu_family =
    FamilyA100SXM | FamilyA100PCIe | FamilyH100SXM | FamilyH100PCIe | FamilyH100NVL | FamilyH200SXM
    | FamilyH200NVL | FamilyB200 | FamilyB300 | FamilyMI300X | FamilyA10 | FamilyGH200 | FamilyA6000
    | FamilyA5000 | FamilyL40S | FamilyL40 | FamilyL4 | FamilyA40 | FamilyRTX6000Ada | FamilyRTX3090
    | FamilyRTX4090 | FamilyRTX5090 | FamilyV100SXM | FamilyV100PCIe | FamilyUnknown

record fabric_spec =
  fs_capability :: capability
  fs_technology :: gostring
  fs_peak :: int

definition fabric_catalog :: "gpu_family \<Rightarrow> fabric_spec option" where
  "fabric_catalog f =
     (case f of
     FamilyA100SXM \<Rightarrow> Some \<lparr>fs_capability = CapabilityAlways, fs_technology = ''nvlink'', fs_peak = 4800\<rparr>
   | FamilyH100SXM \<Rightarrow> Some \<lparr>fs_capability = CapabilityAlways, fs_technology = ''nvswitch'', fs_peak = 7200\<rparr>
   | FamilyH200SXM \<Rightarrow> Some \<lparr>fs_capability = CapabilityAlways, fs_technology = ''nvswitch'', fs_peak = 7200\<rparr>
   | FamilyB200 \<Rightarrow> Some \<lparr>fs_capability = CapabilityAlways, fs_technology = ''nvswitch'', fs_peak = 14400\<rparr>
   | FamilyB300 \<Rightarrow> Some \<lparr>fs_capability = CapabilityAlways, fs_technology = ''nvswitch'', fs_peak = 14400\<rparr>
   | FamilyV100SXM \<Rightarrow> Some \<lparr>fs_capability = CapabilityAlways, fs_technology = ''nvlink'', fs_peak = 2400\<rparr>
   | FamilyMI300X \<Rightarrow> Some \<lparr>fs_capability = CapabilityAlways, fs_technology = ''xgmi'', fs_peak = 8192\<rparr>
   | FamilyGH200 \<Rightarrow> Some \<lparr>fs_capability = CapabilityAlways, fs_technology = ''nvlink'', fs_peak = 7200\<rparr>
   | FamilyH100NVL \<Rightarrow> Some \<lparr>fs_capability = CapabilityAlways, fs_technology = ''nvlink'', fs_peak = 4800\<rparr>
   | FamilyH200NVL \<Rightarrow> Some \<lparr>fs_capability = CapabilityAlways, fs_technology = ''nvlink'', fs_peak = 4800\<rparr>
   | FamilyA100PCIe \<Rightarrow> Some \<lparr>fs_capability = CapabilityOptional, fs_technology = ''nvlink'', fs_peak = 4800\<rparr>
   | FamilyH100PCIe \<Rightarrow> Some \<lparr>fs_capability = CapabilityOptional, fs_technology = ''nvlink'', fs_peak = 4800\<rparr>
   | FamilyA6000 \<Rightarrow> Some \<lparr>fs_capability = CapabilityOptional, fs_technology = ''nvlink'', fs_peak = 896\<rparr>
   | FamilyRTX3090 \<Rightarrow> Some \<lparr>fs_capability = CapabilityOptional, fs_technology = ''nvlink'', fs_peak = 896\<rparr>
   | FamilyA5000 \<Rightarrow> Some \<lparr>fs_capability = CapabilityOptional, fs_technology = ''nvlink'', fs_peak = 896\<rparr>
   | FamilyA10 \<Rightarrow> Some \<lparr>fs_capability = CapabilityNone, fs_technology = [], fs_peak = 0\<rparr>
   | FamilyL40S \<Rightarrow> Some \<lparr>fs_capability = CapabilityNone, fs_technology = [], fs_peak = 0\<rparr>
   | FamilyL40 \<Rightarrow> Some \<lparr>fs_capability = CapabilityNone, fs_technology = [], fs_peak = 0\<rparr>
   | FamilyL4 \<Rightarrow> Some \<lparr>fs_capability = CapabilityNone, fs_technology = [], fs_peak = 0\<rparr>
   | FamilyA40 \<Rightarrow> Some \<lparr>fs_capability = CapabilityNone, fs_technology = [], fs_peak = 0\<rparr>
   | FamilyRTX6000Ada \<Rightarrow> Some \<lparr>fs_capability = CapabilityNone, fs_technology = [], fs_peak = 0\<rparr>
   | FamilyRTX4090 \<Rightarrow> Some \<lparr>fs_capability = CapabilityNone, fs_technology = [], fs_peak = 0\<rparr>
   | FamilyRTX5090 \<Rightarrow> Some \<lparr>fs_capability = CapabilityNone, fs_technology = [], fs_peak = 0\<rparr>
   | FamilyV100PCIe \<Rightarrow> Some \<lparr>fs_capability = CapabilityNone, fs_technology = [], fs_peak = 0\<rparr>
    | FamilyUnknown \<Rightarrow> None)"

record fabric_observation =
  fo_family :: gpu_family
  fo_measured :: int
  fo_has_measurement :: bool

record fabric_result =
  fr_scope :: fabric_scope
  fr_source :: fabric_source
  fr_gbps :: int
  fr_technology :: gostring

definition unknown_fabric :: fabric_result where
  "unknown_fabric = \<lparr>fr_scope = ScopeUnspecified, fr_source = FabricUnknown, fr_gbps = 0, fr_technology = []\<rparr>"

definition Resolve :: "fabric_observation \<Rightarrow> fabric_result" where
  "Resolve obs =
     (case fabric_catalog (fo_family obs) of
        None \<Rightarrow> unknown_fabric
      | Some spec \<Rightarrow>
          if fo_has_measurement obs then
            (if 0 < fo_measured obs then
               \<lparr>fr_scope = ScopeIntraNode, fr_source = FabricMeasured, fr_gbps = fo_measured obs,
                fr_technology = fs_technology spec\<rparr>
             else if fs_capability spec = CapabilityNone then
               \<lparr>fr_scope = ScopeNone, fr_source = FabricMeasured, fr_gbps = 0, fr_technology = []\<rparr>
             else unknown_fabric)
          else
            (case fs_capability spec of
               CapabilityAlways \<Rightarrow>
                 \<lparr>fr_scope = ScopeIntraNode, fr_source = FabricDeclared, fr_gbps = fs_peak spec,
                  fr_technology = fs_technology spec\<rparr>
             | CapabilityNone \<Rightarrow>
                 \<lparr>fr_scope = ScopeNone, fr_source = FabricDeclared, fr_gbps = 0, fr_technology = []\<rparr>
             | CapabilityOptional \<Rightarrow> unknown_fabric))"

definition Satisfies :: "fabric_result \<Rightarrow> fabric_scope \<Rightarrow> int \<Rightarrow> bool" where
  "Satisfies got wantScope minGbps \<longleftrightarrow>
     (if wantScope = ScopeUnspecified then True
      else if fr_source got = FabricUnknown then False
      else if fr_scope got \<noteq> wantScope then False
      else minGbps \<le> 0 \<or> minGbps \<le> fr_gbps got)"

definition CouldSatisfy :: "gpu_family \<Rightarrow> fabric_scope \<Rightarrow> bool" where
  "CouldSatisfy family wantScope \<longleftrightarrow>
     (if wantScope = ScopeUnspecified then True
      else case fabric_catalog family of
        None \<Rightarrow> False
      | Some spec \<Rightarrow>
          (case wantScope of
             ScopeNone \<Rightarrow> fs_capability spec = CapabilityNone
           | ScopeIntraNode \<Rightarrow> fs_capability spec \<noteq> CapabilityNone
           | _ \<Rightarrow> False))"

text \<open>\<^verbatim>\<open>int32(gbytes * 8)\<close>.\<close>

definition GbpsFromGBps :: "rat \<Rightarrow> int" where
  "GbpsFromGBps gbytes = wrap32 (to_int64 (fl64 (gbytes * 8)))"

subsection \<open>The resolver\<close>

record sku_entry =
  se_token :: gostring
  se_vram :: int
  se_ram_per_gpu :: int
  se_gpus :: int
  se_price :: rat
  se_family :: gpu_family
  se_arch :: gostring

datatype fabric_mode = DeclaredMode | PrefilterMode

definition MaxResults :: nat where "MaxResults = 5"

definition satisfiesFabric :: "gpu_family \<Rightarrow> requirements \<Rightarrow> fabric_mode \<Rightarrow> bool" where
  "satisfiesFabric family reqs mode \<longleftrightarrow>
     (if mode = PrefilterMode then CouldSatisfy family (rq_fabric_scope reqs)
      else Satisfies (Resolve \<lparr>fo_family = family, fo_measured = 0, fo_has_measurement = False\<rparr>)
             (rq_fabric_scope reqs) (rq_min_fabric_gbps reqs))"

text \<open>The body of the filter loop: whether a row is kept.\<close>

definition admits :: "requirements \<Rightarrow> fabric_mode \<Rightarrow> sku_entry \<Rightarrow> bool" where
  "admits reqs mode e \<longleftrightarrow>
     (let gpuCount = (if rq_gpu_count reqs \<le> 0 then 1 else rq_gpu_count reqs) in
      if se_vram e < rq_min_vram_gb reqs then False
      else if 0 < se_ram_per_gpu e \<and> 0 < rq_min_ram_gb reqs \<and> se_ram_per_gpu e * gpuCount < rq_min_ram_gb reqs then False
      else if 0 < se_gpus e \<and> 0 < rq_gpu_count reqs \<and> se_gpus e < rq_gpu_count reqs then False
      else if rq_architecture reqs \<noteq> [] \<and> se_arch e \<noteq> [] \<and> se_arch e \<noteq> rq_architecture reqs then False
      else satisfiesFabric (se_family e) reqs mode)"

text \<open>\<^verbatim>\<open>sort.SliceStable\<close> by price is the stable sort of the library.\<close>

definition sku_Match :: "sku_entry list \<Rightarrow> requirements option \<Rightarrow> fabric_mode \<Rightarrow> gostring list" where
  "sku_Match entries reqs mode =
     (case reqs of
        None \<Rightarrow> []
      | Some r \<Rightarrow> map se_token (take MaxResults (sort_key se_price (filter (admits r mode) entries))))"

definition GiB :: int where "GiB = 2 ^ 30"

definition binaryLabels :: "int list" where "binaryLabels = [24, 32, 40, 48, 80, 94, 96]"

definition ExactVRAMBytes :: "int \<Rightarrow> int" where
  "ExactVRAMBytes advertisedGb =
     (if advertisedGb \<le> 0 \<or> advertisedGb \<notin> set binaryLabels then 0 else advertisedGb * GiB)"

definition ClassifyByVRAM :: "int \<Rightarrow> gostring" where
  "ClassifyByVRAM vramGb =
     (if vramGb \<le> 0 then []
      else if 96 \<le> vramGb then ''xlarge''
      else if 80 \<le> vramGb then ''large''
      else if 40 \<le> vramGb then ''medium''
      else ''small'')"

subsection \<open>The catalogs\<close>

record runpod_sku =
  rp_id :: gostring
  rp_vram :: int
  rp_ram :: int
  rp_price :: rat
  rp_family :: gpu_family

definition runpod_skus :: "runpod_sku list" where
  "runpod_skus =
    [\<lparr>rp_id = ''NVIDIA GeForce RTX 4090'', rp_vram = 24, rp_ram = 16, rp_price = 39 / 100, rp_family = FamilyRTX4090\<rparr>,
     \<lparr>rp_id = ''NVIDIA RTX A5000'', rp_vram = 24, rp_ram = 24, rp_price = 36 / 100, rp_family = FamilyA5000\<rparr>,
     \<lparr>rp_id = ''NVIDIA L4'', rp_vram = 24, rp_ram = 24, rp_price = 43 / 100, rp_family = FamilyL4\<rparr>,
     \<lparr>rp_id = ''NVIDIA GeForce RTX 5090'', rp_vram = 32, rp_ram = 24, rp_price = 69 / 100, rp_family = FamilyRTX5090\<rparr>,
     \<lparr>rp_id = ''NVIDIA A40'', rp_vram = 48, rp_ram = 32, rp_price = 39 / 100, rp_family = FamilyA40\<rparr>,
     \<lparr>rp_id = ''NVIDIA L40'', rp_vram = 48, rp_ram = 32, rp_price = 69 / 100, rp_family = FamilyL40\<rparr>,
     \<lparr>rp_id = ''NVIDIA L40S'', rp_vram = 48, rp_ram = 32, rp_price = 79 / 100, rp_family = FamilyL40S\<rparr>,
     \<lparr>rp_id = ''NVIDIA RTX A6000'', rp_vram = 48, rp_ram = 32, rp_price = 79 / 100, rp_family = FamilyA6000\<rparr>,
     \<lparr>rp_id = ''NVIDIA RTX 6000 Ada Generation'', rp_vram = 48, rp_ram = 48, rp_price = 99 / 100, rp_family = FamilyRTX6000Ada\<rparr>,
     \<lparr>rp_id = ''NVIDIA A100 80GB PCIe'', rp_vram = 80, rp_ram = 96, rp_price = 169 / 100, rp_family = FamilyA100PCIe\<rparr>,
     \<lparr>rp_id = ''NVIDIA A100-SXM4-80GB'', rp_vram = 80, rp_ram = 96, rp_price = 179 / 100, rp_family = FamilyA100SXM\<rparr>,
     \<lparr>rp_id = ''NVIDIA H100 PCIe'', rp_vram = 80, rp_ram = 128, rp_price = 239 / 100, rp_family = FamilyH100PCIe\<rparr>,
     \<lparr>rp_id = ''NVIDIA H100 80GB HBM3'', rp_vram = 80, rp_ram = 128, rp_price = 249 / 100, rp_family = FamilyH100SXM\<rparr>,
     \<lparr>rp_id = ''NVIDIA H100 NVL'', rp_vram = 94, rp_ram = 128, rp_price = 299 / 100, rp_family = FamilyH100NVL\<rparr>,
     \<lparr>rp_id = ''NVIDIA H200'', rp_vram = 141, rp_ram = 192, rp_price = 399 / 100, rp_family = FamilyH200SXM\<rparr>,
     \<lparr>rp_id = ''NVIDIA B200'', rp_vram = 192, rp_ram = 256, rp_price = 599 / 100, rp_family = FamilyB200\<rparr>,
     \<lparr>rp_id = ''NVIDIA B300 SXM6 AC'', rp_vram = 288, rp_ram = 384, rp_price = 1199 / 100, rp_family = FamilyB300\<rparr>]"

definition runpod_catalogEntries :: "sku_entry list" where
  "runpod_catalogEntries =
     map (\<lambda>s. \<lparr>se_token = rp_id s, se_vram = rp_vram s, se_ram_per_gpu = rp_ram s, se_gpus = 0,
               se_price = rp_price s, se_family = rp_family s, se_arch = []\<rparr>) runpod_skus"

definition runpod_MatchSKUs :: "requirements option \<Rightarrow> gostring list" where
  "runpod_MatchSKUs reqs = sku_Match runpod_catalogEntries reqs DeclaredMode"

definition runpod_LookupSKU :: "gostring \<Rightarrow> runpod_sku option" where
  "runpod_LookupSKU gpuTypeID = find (\<lambda>s. rp_id s = gpuTypeID) runpod_skus"

definition runpod_classifySKU :: "gostring \<Rightarrow> gostring" where
  "runpod_classifySKU gpuTypeID =
     (case runpod_LookupSKU gpuTypeID of None \<Rightarrow> [] | Some s \<Rightarrow> ClassifyByVRAM (rp_vram s))"

definition runpod_CardCapacityBytes :: "gostring \<Rightarrow> int" where
  "runpod_CardCapacityBytes sku =
     (case runpod_LookupSKU sku of None \<Rightarrow> 0 | Some s \<Rightarrow> ExactVRAMBytes (rp_vram s))"

text \<open>\<^verbatim>\<open>strings.ToUpper\<close> as far as a comparison with the listed words can tell.\<close>

definition runpod_isActive :: "gostring \<Rightarrow> bool" where
  "runpod_isActive st \<longleftrightarrow> map (\<lambda>c. if CHR ''a'' \<le> c \<and> c \<le> CHR ''z'' then char_of (of_char c - 32 :: nat) else c) st
     \<in> set [''CREATED'', ''RUNNING'', ''RESTARTING'']"

record vast_sku =
  vs_name :: gostring
  vs_display :: gostring
  vs_vram :: int
  vs_ram :: int
  vs_price :: rat
  vs_wire :: gostring
  vs_vram_max :: int
  vs_family :: gpu_family

definition vast_skus :: "vast_sku list" where
  "vast_skus =
    [\<lparr>vs_name = ''RTX_3090'', vs_display = ''RTX 3090'', vs_vram = 24, vs_ram = 32, vs_price = 20 / 100, vs_wire = [], vs_vram_max = 0, vs_family = FamilyRTX3090\<rparr>,
     \<lparr>vs_name = ''RTX_4090'', vs_display = ''RTX 4090'', vs_vram = 24, vs_ram = 32, vs_price = 30 / 100, vs_wire = [], vs_vram_max = 0, vs_family = FamilyRTX4090\<rparr>,
     \<lparr>vs_name = ''RTX_A5000'', vs_display = ''RTX A5000'', vs_vram = 24, vs_ram = 32, vs_price = 28 / 100, vs_wire = [], vs_vram_max = 0, vs_family = FamilyA5000\<rparr>,
     \<lparr>vs_name = ''L4'', vs_display = ''L4'', vs_vram = 24, vs_ram = 32, vs_price = 40 / 100, vs_wire = [], vs_vram_max = 0, vs_family = FamilyL4\<rparr>,
     \<lparr>vs_name = ''RTX_5090'', vs_display = ''RTX 5090'', vs_vram = 32, vs_ram = 32, vs_price = 55 / 100, vs_wire = [], vs_vram_max = 0, vs_family = FamilyRTX5090\<rparr>,
     \<lparr>vs_name = ''A40'', vs_display = ''A40'', vs_vram = 48, vs_ram = 48, vs_price = 40 / 100, vs_wire = [], vs_vram_max = 0, vs_family = FamilyA40\<rparr>,
     \<lparr>vs_name = ''L40'', vs_display = ''L40'', vs_vram = 48, vs_ram = 48, vs_price = 65 / 100, vs_wire = [], vs_vram_max = 0, vs_family = FamilyL40\<rparr>,
     \<lparr>vs_name = ''L40S'', vs_display = ''L40S'', vs_vram = 48, vs_ram = 48, vs_price = 75 / 100, vs_wire = [], vs_vram_max = 0, vs_family = FamilyL40S\<rparr>,
     \<lparr>vs_name = ''RTX_A6000'', vs_display = ''RTX A6000'', vs_vram = 48, vs_ram = 48, vs_price = 70 / 100, vs_wire = [], vs_vram_max = 0, vs_family = FamilyA6000\<rparr>,
     \<lparr>vs_name = ''RTX_6000Ada'', vs_display = ''RTX 6000 Ada'', vs_vram = 48, vs_ram = 64, vs_price = 90 / 100, vs_wire = [], vs_vram_max = 0, vs_family = FamilyRTX6000Ada\<rparr>,
     \<lparr>vs_name = ''A100_PCIE_40GB'', vs_display = ''A100 PCIE'', vs_vram = 40, vs_ram = 96, vs_price = 80 / 100, vs_wire = ''A100_PCIE'', vs_vram_max = 40, vs_family = FamilyA100PCIe\<rparr>,
     \<lparr>vs_name = ''A100_SXM4_40GB'', vs_display = ''A100 SXM4'', vs_vram = 40, vs_ram = 96, vs_price = 90 / 100, vs_wire = ''A100_SXM4'', vs_vram_max = 40, vs_family = FamilyA100SXM\<rparr>,
     \<lparr>vs_name = ''A100_PCIE'', vs_display = ''A100 PCIE'', vs_vram = 80, vs_ram = 128, vs_price = 120 / 100, vs_wire = [], vs_vram_max = 0, vs_family = FamilyA100PCIe\<rparr>,
     \<lparr>vs_name = ''A100_SXM4'', vs_display = ''A100 SXM4'', vs_vram = 80, vs_ram = 128, vs_price = 130 / 100, vs_wire = [], vs_vram_max = 0, vs_family = FamilyA100SXM\<rparr>,
     \<lparr>vs_name = ''H100_PCIE'', vs_display = ''H100 PCIE'', vs_vram = 80, vs_ram = 128, vs_price = 180 / 100, vs_wire = [], vs_vram_max = 0, vs_family = FamilyH100PCIe\<rparr>,
     \<lparr>vs_name = ''H100_SXM'', vs_display = ''H100 SXM'', vs_vram = 80, vs_ram = 192, vs_price = 200 / 100, vs_wire = [], vs_vram_max = 0, vs_family = FamilyH100SXM\<rparr>,
     \<lparr>vs_name = ''H100_NVL'', vs_display = ''H100 NVL'', vs_vram = 94, vs_ram = 192, vs_price = 230 / 100, vs_wire = [], vs_vram_max = 0, vs_family = FamilyH100NVL\<rparr>,
     \<lparr>vs_name = ''H200'', vs_display = ''H200'', vs_vram = 141, vs_ram = 256, vs_price = 320 / 100, vs_wire = [], vs_vram_max = 0, vs_family = FamilyH200SXM\<rparr>,
     \<lparr>vs_name = ''B200'', vs_display = ''B200'', vs_vram = 192, vs_ram = 256, vs_price = 480 / 100, vs_wire = [], vs_vram_max = 0, vs_family = FamilyB200\<rparr>,
     \<lparr>vs_name = ''B300'', vs_display = ''B300'', vs_vram = 288, vs_ram = 384, vs_price = 1125 / 100, vs_wire = [], vs_vram_max = 0, vs_family = FamilyB300\<rparr>]"

definition vast_catalogEntries :: "sku_entry list" where
  "vast_catalogEntries =
     map (\<lambda>s. \<lparr>se_token = vs_name s, se_vram = vs_vram s, se_ram_per_gpu = 0, se_gpus = 0,
               se_price = vs_price s, se_family = vs_family s, se_arch = []\<rparr>) vast_skus"

definition vast_MatchSKUs :: "requirements option \<Rightarrow> gostring list" where
  "vast_MatchSKUs reqs = sku_Match vast_catalogEntries reqs PrefilterMode"

definition replace_byte :: "char \<Rightarrow> char \<Rightarrow> gostring \<Rightarrow> gostring" where
  "replace_byte a b s = map (\<lambda>c. if c = a then b else c) s"

definition normalizeGpuName :: "gostring \<Rightarrow> gostring" where
  "normalizeGpuName s = replace_byte CHR '' '' CHR ''_'' (trim_space s)"

definition vast_LookupSKU :: "gostring \<Rightarrow> vast_sku option" where
  "vast_LookupSKU gpuName = find (\<lambda>s. vs_name s = normalizeGpuName gpuName) vast_skus"

definition vast_classifySKU :: "gostring \<Rightarrow> gostring" where
  "vast_classifySKU gpuName =
     (case vast_LookupSKU gpuName of None \<Rightarrow> [] | Some s \<Rightarrow> ClassifyByVRAM (vs_vram s))"

definition vast_CardCapacityBytes :: "gostring \<Rightarrow> int" where
  "vast_CardCapacityBytes sku =
     (case vast_LookupSKU sku of None \<Rightarrow> 0 | Some s \<Rightarrow> ExactVRAMBytes (vs_vram s))"

definition vast_isActive :: "gostring \<Rightarrow> bool" where
  "vast_isActive st \<longleftrightarrow> to_lower (trim_space st) \<in> set [''loading'', ''running'', ''scheduling'', ''created'']"

record lambda_sku =
  ll_name :: gostring
  ll_display :: gostring
  ll_vram :: int
  ll_gpus :: int
  ll_price :: rat
  ll_arch :: gostring
  ll_family :: gpu_family

definition lambda_skus :: "lambda_sku list" where
  "lambda_skus =
    [\<lparr>ll_name = ''gpu_1x_a6000'', ll_display = ''1x A6000 (48 GB)'', ll_vram = 48, ll_gpus = 1, ll_price = 109 / 100, ll_arch = ArchAMD64, ll_family = FamilyA6000\<rparr>,
     \<lparr>ll_name = ''gpu_1x_a10'', ll_display = ''1x A10 (24 GB PCIe)'', ll_vram = 24, ll_gpus = 1, ll_price = 129 / 100, ll_arch = ArchAMD64, ll_family = FamilyA10\<rparr>,
     \<lparr>ll_name = ''gpu_1x_a100'', ll_display = ''1x A100 (40 GB PCIe)'', ll_vram = 40, ll_gpus = 1, ll_price = 199 / 100, ll_arch = ArchAMD64, ll_family = FamilyA100PCIe\<rparr>,
     \<lparr>ll_name = ''gpu_1x_a100_sxm4'', ll_display = ''1x A100 (40 GB SXM4)'', ll_vram = 40, ll_gpus = 1, ll_price = 199 / 100, ll_arch = ArchAMD64, ll_family = FamilyA100SXM\<rparr>,
     \<lparr>ll_name = ''gpu_1x_gh200'', ll_display = ''1x GH200 (96 GB)'', ll_vram = 96, ll_gpus = 1, ll_price = 229 / 100, ll_arch = ArchARM64, ll_family = FamilyGH200\<rparr>,
     \<lparr>ll_name = ''gpu_1x_h100_pcie'', ll_display = ''1x H100 (80 GB PCIe)'', ll_vram = 80, ll_gpus = 1, ll_price = 329 / 100, ll_arch = ArchAMD64, ll_family = FamilyH100PCIe\<rparr>,
     \<lparr>ll_name = ''gpu_1x_h100_sxm5'', ll_display = ''1x H100 (80 GB SXM5)'', ll_vram = 80, ll_gpus = 1, ll_price = 429 / 100, ll_arch = ArchAMD64, ll_family = FamilyH100SXM\<rparr>,
     \<lparr>ll_name = ''gpu_1x_b200_sxm6'', ll_display = ''1x B200 (180 GB SXM6)'', ll_vram = 180, ll_gpus = 1, ll_price = 699 / 100, ll_arch = ArchAMD64, ll_family = FamilyB200\<rparr>,
     \<lparr>ll_name = ''gpu_2x_a6000'', ll_display = ''2x A6000 (48 GB)'', ll_vram = 48, ll_gpus = 2, ll_price = 218 / 100, ll_arch = ArchAMD64, ll_family = FamilyA6000\<rparr>,
     \<lparr>ll_name = ''gpu_2x_a100'', ll_display = ''2x A100 (40 GB PCIe)'', ll_vram = 40, ll_gpus = 2, ll_price = 398 / 100, ll_arch = ArchAMD64, ll_family = FamilyA100PCIe\<rparr>,
     \<lparr>ll_name = ''gpu_2x_h100_sxm5'', ll_display = ''2x H100 (80 GB SXM5)'', ll_vram = 80, ll_gpus = 2, ll_price = 838 / 100, ll_arch = ArchAMD64, ll_family = FamilyH100SXM\<rparr>,
     \<lparr>ll_name = ''gpu_2x_b200_sxm6'', ll_display = ''2x B200 (180 GB SXM6)'', ll_vram = 180, ll_gpus = 2, ll_price = 1378 / 100, ll_arch = ArchAMD64, ll_family = FamilyB200\<rparr>,
     \<lparr>ll_name = ''gpu_4x_a6000'', ll_display = ''4x A6000 (48 GB)'', ll_vram = 48, ll_gpus = 4, ll_price = 436 / 100, ll_arch = ArchAMD64, ll_family = FamilyA6000\<rparr>,
     \<lparr>ll_name = ''gpu_4x_a100'', ll_display = ''4x A100 (40 GB PCIe)'', ll_vram = 40, ll_gpus = 4, ll_price = 796 / 100, ll_arch = ArchAMD64, ll_family = FamilyA100PCIe\<rparr>,
     \<lparr>ll_name = ''gpu_4x_h100_sxm5'', ll_display = ''4x H100 (80 GB SXM5)'', ll_vram = 80, ll_gpus = 4, ll_price = 1636 / 100, ll_arch = ArchAMD64, ll_family = FamilyH100SXM\<rparr>,
     \<lparr>ll_name = ''gpu_8x_a100'', ll_display = ''8x A100 (40 GB SXM4)'', ll_vram = 40, ll_gpus = 8, ll_price = 1592 / 100, ll_arch = ArchAMD64, ll_family = FamilyA100SXM\<rparr>,
     \<lparr>ll_name = ''gpu_8x_a100_80gb_sxm4'', ll_display = ''8x A100 (80 GB SXM4)'', ll_vram = 80, ll_gpus = 8, ll_price = 2232 / 100, ll_arch = ArchAMD64, ll_family = FamilyA100SXM\<rparr>,
     \<lparr>ll_name = ''gpu_8x_h100_sxm5'', ll_display = ''8x H100 (80 GB SXM5)'', ll_vram = 80, ll_gpus = 8, ll_price = 3192 / 100, ll_arch = ArchAMD64, ll_family = FamilyH100SXM\<rparr>,
     \<lparr>ll_name = ''gpu_8x_b200_sxm6'', ll_display = ''8x B200 (180 GB SXM6)'', ll_vram = 180, ll_gpus = 8, ll_price = 5352 / 100, ll_arch = ArchAMD64, ll_family = FamilyB200\<rparr>]"

definition lambda_catalogEntries :: "sku_entry list" where
  "lambda_catalogEntries =
     map (\<lambda>s. \<lparr>se_token = ll_name s, se_vram = ll_vram s, se_ram_per_gpu = 0, se_gpus = ll_gpus s,
               se_price = ll_price s, se_family = ll_family s, se_arch = ll_arch s\<rparr>) lambda_skus"

definition lambda_MatchSKUs :: "requirements option \<Rightarrow> gostring list" where
  "lambda_MatchSKUs reqs = sku_Match lambda_catalogEntries reqs DeclaredMode"

definition lambda_LookupSKU :: "gostring \<Rightarrow> lambda_sku option" where
  "lambda_LookupSKU name = find (\<lambda>s. ll_name s = normalizeGpuName name) lambda_skus"

definition lambda_classifySKU :: "gostring \<Rightarrow> gostring" where
  "lambda_classifySKU name =
     (case lambda_LookupSKU name of None \<Rightarrow> [] | Some s \<Rightarrow> ClassifyByVRAM (ll_vram s))"

definition lambda_CardCapacityBytes :: "gostring \<Rightarrow> int" where
  "lambda_CardCapacityBytes sku =
     (case lambda_LookupSKU sku of None \<Rightarrow> 0 | Some s \<Rightarrow> ExactVRAMBytes (ll_vram s))"

definition lambda_isActive :: "gostring \<Rightarrow> bool" where
  "lambda_isActive st \<longleftrightarrow> to_lower (trim_space st) \<in> set [''booting'', ''active'', ''unhealthy'']"

subsection \<open>The marketplace query\<close>

record offer =
  of_id :: int
  of_gpu_name :: gostring
  of_num_gpus :: int
  of_disk :: rat
  of_dph :: rat
  of_machine :: int
  of_cpu_ram :: int
  of_min_bid :: rat
  of_arch :: gostring
  of_geo :: gostring
  of_nvlink :: "rat option"
  of_gpu_ram :: int
  of_inet_down :: rat
  of_reliability :: rat

definition offerVRAMFloorMB :: "gostring \<Rightarrow> requirements \<Rightarrow> int" where
  "offerVRAMFloorMB gpuName reqs =
     (let want = (case vast_LookupSKU gpuName of
                    None \<Rightarrow> rq_min_vram_gb reqs
                  | Some s \<Rightarrow> if rq_min_vram_gb reqs < vs_vram s then vs_vram s else rq_min_vram_gb reqs) in
      if want \<le> 0 then 0 else want * 953 * 97 div 100)"

definition offerVRAMCeilingMB :: "gostring \<Rightarrow> int" where
  "offerVRAMCeilingMB gpuName =
     (case vast_LookupSKU gpuName of None \<Rightarrow> 0 | Some s \<Rightarrow> if vs_vram_max s \<le> 0 then 0 else vs_vram_max s * 1100)"

definition gpuNameForVast :: "gostring \<Rightarrow> gostring" where
  "gpuNameForVast gpuName =
     (case vast_LookupSKU gpuName of
        Some s \<Rightarrow> replace_byte CHR ''_'' CHR '' '' (if vs_wire s \<noteq> [] then vs_wire s else gpuName)
      | None \<Rightarrow> replace_byte CHR ''_'' CHR '' '' gpuName)"

definition candidateSKUs :: "requirements option \<Rightarrow> gostring list" where
  "candidateSKUs reqs =
     (case reqs of
        Some r \<Rightarrow> if rq_sku r \<noteq> [] then [normalizeGpuName (rq_sku r)] else vast_MatchSKUs reqs
      | None \<Rightarrow> vast_MatchSKUs reqs)"

text \<open>The filter \<^verbatim>\<open>searchOffers\<close> sends: a bound that is not sent is \<open>None\<close>.\<close>

record offer_query =
  oq_gpu_name :: gostring
  oq_num_gpus :: int
  oq_disk_ge :: "int option"
  oq_ram_ge :: "int option"
  oq_vram_ge :: "int option"
  oq_vram_le :: "int option"
  oq_nvlink_ge :: "int option"
  oq_nvlink_le :: "int option"
  oq_inet_ge :: "rat option"
  oq_reliability_ge :: "rat option"
  oq_limit :: nat

definition bound :: "bool \<Rightarrow> 'a \<Rightarrow> 'a option" where
  "bound b x = (if b then Some x else None)"

definition offer_search ::
  "rat \<Rightarrow> rat \<Rightarrow> gostring \<Rightarrow> int \<Rightarrow> int \<Rightarrow> requirements \<Rightarrow> nat \<Rightarrow> offer_query" where
  "offer_search minInet minReliability gpuName gpuCount diskGB reqs limit =
     (let vfloor = offerVRAMFloorMB gpuName reqs;
          ceiling = offerVRAMCeilingMB gpuName;
          want = rq_min_fabric_gbps reqs;
          minGBps = (if 0 < want then max 1 (want div 8) else 1) in
      \<lparr>oq_gpu_name = gpuNameForVast gpuName, oq_num_gpus = gpuCount,
       oq_disk_ge = bound (0 < diskGB) diskGB,
       oq_ram_ge = bound (0 < rq_min_ram_gb reqs) (rq_min_ram_gb reqs * 1000),
       oq_vram_ge = bound (0 < vfloor) vfloor,
       oq_vram_le = bound (0 < vfloor \<and> 0 < ceiling) ceiling,
       oq_nvlink_ge = bound (rq_fabric_scope reqs = ScopeIntraNode) minGBps,
       oq_nvlink_le = bound (rq_fabric_scope reqs = ScopeNone) 0,
       oq_inet_ge = bound (0 < minInet) minInet,
       oq_reliability_ge = bound (0 < minReliability) minReliability,
       oq_limit = limit\<rparr>)"

text \<open>
  What the marketplace documents of its filter: an offer is returned only if it meets every bound
  that was sent.  A missing bandwidth meets no bound on it.
\<close>

definition meets :: "offer_query \<Rightarrow> offer \<Rightarrow> bool" where
  "meets q off \<longleftrightarrow>
     of_gpu_name off = oq_gpu_name q \<and> of_num_gpus off = oq_num_gpus q
     \<and> (\<forall>d. oq_disk_ge q = Some d \<longrightarrow> of_int d \<le> of_disk off)
     \<and> (\<forall>m. oq_ram_ge q = Some m \<longrightarrow> m \<le> of_cpu_ram off)
     \<and> (\<forall>v. oq_vram_ge q = Some v \<longrightarrow> v \<le> of_gpu_ram off)
     \<and> (\<forall>v. oq_vram_le q = Some v \<longrightarrow> of_gpu_ram off \<le> v)
     \<and> (\<forall>b. oq_nvlink_ge q = Some b \<longrightarrow> (\<exists>x. of_nvlink off = Some x \<and> of_int b \<le> x))
     \<and> (\<forall>b. oq_nvlink_le q = Some b \<longrightarrow> (\<exists>x. of_nvlink off = Some x \<and> x \<le> of_int b))
     \<and> (\<forall>i. oq_inet_ge q = Some i \<longrightarrow> i \<le> of_inet_down off)
     \<and> (\<forall>i. oq_reliability_ge q = Some i \<longrightarrow> i \<le> of_reliability off)"

text \<open>\<open>search\<close> is the marketplace: its answer to a query, or an error.\<close>

definition findOffer ::
  "(offer_query \<Rightarrow> 'e + offer list) \<Rightarrow> rat \<Rightarrow> rat \<Rightarrow> gostring \<Rightarrow> int \<Rightarrow> int \<Rightarrow> requirements \<Rightarrow> 'e + offer option" where
  "findOffer search minInet minRel gpuName gpuCount diskGB reqs =
     bindE (search (offer_search minInet minRel gpuName gpuCount diskGB reqs 5))
       (\<lambda>offers. Inr (case offers of [] \<Rightarrow> None | off # _ \<Rightarrow> Some off))"

fun findAnyOffer ::
  "(offer_query \<Rightarrow> 'e + offer list) \<Rightarrow> rat \<Rightarrow> rat \<Rightarrow> gostring list \<Rightarrow> int \<Rightarrow> int \<Rightarrow> requirements
     \<Rightarrow> 'e + (offer \<times> gostring) option" where
  "findAnyOffer search minInet minRel [] gpuCount diskGB reqs = Inr None"
| "findAnyOffer search minInet minRel (gpuName # names) gpuCount diskGB reqs =
     bindE (findOffer search minInet minRel gpuName gpuCount diskGB reqs)
       (\<lambda>found. case found of
          Some off \<Rightarrow> Inr (Some (off, gpuName))
        | None \<Rightarrow> findAnyOffer search minInet minRel names gpuCount diskGB reqs)"

subsection \<open>The resolver picks the cheapest rows\<close>

definition picks_cheapest :: "sku_entry list \<Rightarrow> fabric_mode \<Rightarrow> requirements \<Rightarrow> gostring list \<Rightarrow> bool" where
  "picks_cheapest entries mode r out \<longleftrightarrow>
     length out = min MaxResults (length (filter (admits r mode) entries))
     \<and> (\<forall>t \<in> set out. \<exists>e \<in> set entries. se_token e = t \<and> admits r mode e
          \<and> (\<forall>e' \<in> set entries. admits r mode e' \<and> se_token e' \<notin> set out \<longrightarrow> se_price e \<le> se_price e'))"

lemma sorted_take_least:
  assumes "sorted (map f xs)" "x \<in> set (take n xs)" "y \<in> set xs" "y \<notin> set (take n xs)"
  shows "f x \<le> f y"
proof -
  have "sorted (map f (take n xs) @ map f (drop n xs))" using assms(1) by (simp flip: map_append)
  moreover have "y \<in> set (drop n xs)" using assms(3,4) by (metis UnE append_take_drop_id set_append)
  ultimately show ?thesis using assms(2) unfolding sorted_append by auto
qed

text \<open>What a provider's resolver owes its callers.\<close>

locale sku_provider =
  fixes entries :: "sku_entry list" and mode :: fabric_mode and match_skus :: "requirements option \<Rightarrow> gostring list"
  assumes match_skus: "match_skus r = sku_Match entries r mode"
begin

lemma cheapest: "picks_cheapest entries mode r (match_skus (Some r))"
proof -
  let ?xs = "sort_key se_price (filter (admits r mode) entries)"
  have out: "match_skus (Some r) = map se_token (take MaxResults ?xs)" by (simp add: match_skus sku_Match_def)
  have "\<exists>e \<in> set entries. se_token e = t \<and> admits r mode e
      \<and> (\<forall>e' \<in> set entries. admits r mode e' \<and> se_token e' \<notin> set (match_skus (Some r)) \<longrightarrow> se_price e \<le> se_price e')"
    if t: "t \<in> set (match_skus (Some r))" for t
  proof -
    obtain e where e: "e \<in> set (take MaxResults ?xs)" "se_token e = t"
      using t unfolding out set_map by blast
    have "se_price e \<le> se_price e'" if "e' \<in> set entries" "admits r mode e'" "se_token e' \<notin> set (match_skus (Some r))" for e'
      using that out e(1) by (intro sorted_take_least [of se_price ?xs e MaxResults e']) auto
    moreover have "e \<in> set entries \<and> admits r mode e" using in_set_takeD [OF e(1)] by simp
    ultimately show ?thesis using e(2) by blast
  qed
  then show ?thesis by (simp add: picks_cheapest_def out min.commute)
qed

lemma none_iff: "match_skus (Some r) = [] \<longleftrightarrow> (\<forall>e \<in> set entries. \<not> admits r mode e)"
  by (simp add: match_skus sku_Match_def MaxResults_def filter_empty_conv take_eq_Nil)
    (metis (no_types, lifting) filter_empty_conv length_0_conv length_sort)

lemma matched_row:
  "t \<in> set (match_skus (Some r)) \<Longrightarrow> \<exists>e \<in> set entries. se_token e = t \<and> admits r mode e"
  using cheapest [of r] by (auto simp: picks_cheapest_def)

end

interpretation runpod_catalog: sku_provider runpod_catalogEntries DeclaredMode runpod_MatchSKUs
  by unfold_locales (simp add: runpod_MatchSKUs_def)

interpretation vast_catalog: sku_provider vast_catalogEntries PrefilterMode vast_MatchSKUs
  by unfold_locales (simp add: vast_MatchSKUs_def)

interpretation lambda_catalog: sku_provider lambda_catalogEntries DeclaredMode lambda_MatchSKUs
  by unfold_locales (simp add: lambda_MatchSKUs_def)

text \<open>
  The resolver offers the cheapest admissible cards.  For every provider, each token it returns
  names a catalog row that meets the requirement, no admissible row that was left out is cheaper
  than one that was returned, and fewer than five are returned only when there are no more.
\<close>

theorem resolver_picks_cheapest:
  "picks_cheapest runpod_catalogEntries DeclaredMode r (runpod_MatchSKUs (Some r))
   \<and> picks_cheapest vast_catalogEntries PrefilterMode r (vast_MatchSKUs (Some r))
   \<and> picks_cheapest lambda_catalogEntries DeclaredMode r (lambda_MatchSKUs (Some r))"
  by (intro conjI runpod_catalog.cheapest vast_catalog.cheapest lambda_catalog.cheapest)

subsection \<open>Interconnects are never assumed\<close>

text \<open>A reading that the catalog does not contradict.\<close>

definition consistent :: "fabric_observation \<Rightarrow> bool" where
  "consistent obs \<longleftrightarrow>
     (\<forall>spec. fabric_catalog (fo_family obs) = Some spec \<and> fs_capability spec = CapabilityNone \<longrightarrow>
        \<not> (fo_has_measurement obs \<and> 0 < fo_measured obs))"

text \<open>
  The pre-filter excludes exactly the impossible.  A family is searched for a scope if and only
  if some reading that does not contradict the catalog would make a machine of that family satisfy
  the request.
\<close>

theorem prefilter_exact:
  "CouldSatisfy family scope \<longleftrightarrow>
     (\<exists>obs. fo_family obs = family \<and> consistent obs \<and> Satisfies (Resolve obs) scope 0)"
proof
  let ?plain = "\<lparr>fo_family = family, fo_measured = 0, fo_has_measurement = False\<rparr>"
  let ?bridged = "\<lparr>fo_family = family, fo_measured = 1, fo_has_measurement = True\<rparr>"
  assume c: "CouldSatisfy family scope"
  then have "(consistent ?plain \<and> Satisfies (Resolve ?plain) scope 0) \<or> (consistent ?bridged \<and> Satisfies (Resolve ?bridged) scope 0)"
    by (auto simp: CouldSatisfy_def Satisfies_def Resolve_def consistent_def unknown_fabric_def
        split: if_splits option.splits fabric_scope.splits capability.splits)
  then show "\<exists>obs. fo_family obs = family \<and> consistent obs \<and> Satisfies (Resolve obs) scope 0"
    by (metis fabric_observation.select_convs(1))
next
  assume "\<exists>obs. fo_family obs = family \<and> consistent obs \<and> Satisfies (Resolve obs) scope 0"
  then show "CouldSatisfy family scope"
    by (auto simp: CouldSatisfy_def Satisfies_def Resolve_def consistent_def unknown_fabric_def
        split: if_splits option.splits fabric_scope.splits capability.splits)
qed

text \<open>
  A declared interconnect is vouched for.  Where the catalog has the last word, a request for an
  intra-node fabric is only ever resolved to cards that always have one, of at least the bandwidth
  asked for.
\<close>

theorem declared_fabric_vouched:
  assumes "rq_fabric_scope r = ScopeIntraNode"
    and "t \<in> set (runpod_MatchSKUs (Some r)) \<or> t \<in> set (lambda_MatchSKUs (Some r))"
  shows "\<exists>e \<in> set (runpod_catalogEntries @ lambda_catalogEntries). se_token e = t
     \<and> (\<exists>spec. fabric_catalog (se_family e) = Some spec \<and> fs_capability spec = CapabilityAlways
          \<and> (0 < rq_min_fabric_gbps r \<longrightarrow> rq_min_fabric_gbps r \<le> fs_peak spec))"
proof -
  have "\<exists>e \<in> set (runpod_catalogEntries @ lambda_catalogEntries). se_token e = t \<and> admits r DeclaredMode e"
    using assms(2) runpod_catalog.matched_row lambda_catalog.matched_row by fastforce
  then obtain e where e: "e \<in> set (runpod_catalogEntries @ lambda_catalogEntries)" "se_token e = t" "admits r DeclaredMode e"
    by blast
  have "satisfiesFabric (se_family e) r DeclaredMode" using e(3) by (auto simp: admits_def Let_def split: if_splits)
  then have "\<exists>spec. fabric_catalog (se_family e) = Some spec \<and> fs_capability spec = CapabilityAlways
      \<and> (0 < rq_min_fabric_gbps r \<longrightarrow> rq_min_fabric_gbps r \<le> fs_peak spec)"
    using assms(1)
    by (auto simp: satisfiesFabric_def Satisfies_def Resolve_def unknown_fabric_def
        split: option.splits capability.splits if_splits)
  with e show ?thesis by blast
qed

theorem declared_fabric_vouched_witness:
  "\<exists>e \<in> set (runpod_catalogEntries @ lambda_catalogEntries). se_token e = ''NVIDIA A100-SXM4-80GB''
     \<and> (\<exists>spec. fabric_catalog (se_family e) = Some spec \<and> fs_capability spec = CapabilityAlways)"
proof -
  let ?r = "\<lparr>rq_min_vram_gb = 80, rq_min_disk_gb = 0, rq_min_ram_gb = 0, rq_gpu_count = 4, rq_class = [], rq_sku = [],
      rq_fabric_scope = ScopeIntraNode, rq_min_fabric_gbps = 4800, rq_reclaim_policy = ReclaimUnspecified, rq_architecture = []\<rparr>"
  have "''NVIDIA A100-SXM4-80GB'' \<in> set (runpod_MatchSKUs (Some ?r))" by code_simp
  then show ?thesis using declared_fabric_vouched [of ?r "''NVIDIA A100-SXM4-80GB''"] by fastforce
qed

subsection \<open>Every class can be rented\<close>

definition class_request :: "gostring \<Rightarrow> requirements" where
  "class_request c =
     \<lparr>rq_min_vram_gb = 0, rq_min_disk_gb = 0, rq_min_ram_gb = 0, rq_gpu_count = 1, rq_class = c, rq_sku = [],
      rq_fabric_scope = ScopeUnspecified, rq_min_fabric_gbps = 0, rq_reclaim_policy = ReclaimUnspecified, rq_architecture = []\<rparr>"

lemma class_cases: "classDefaults c = Some d \<Longrightarrow> c \<in> {''small'', ''medium'', ''large'', ''xlarge''}"
  by (auto simp: classDefaults_def split: if_splits)

lemma classes_match:
  "list_all (\<lambda>c. case classDefaults c of None \<Rightarrow> False
      | Some d \<Rightarrow> runpod_MatchSKUs (Some (expand_class d (class_request c))) \<noteq> []
          \<and> vast_MatchSKUs (Some (expand_class d (class_request c))) \<noteq> []
          \<and> lambda_MatchSKUs (Some (expand_class d (class_request c))) \<noteq> [])
     [''small'', ''medium'', ''large'', ''xlarge'']"
  by code_simp

text \<open>
  Every class of card is on offer.  A request that names a known class, expanded by the control
  plane's defaults, resolves to at least one card of every provider's catalog.
\<close>

theorem every_class_rentable:
  assumes "classDefaults c = Some d"
  shows "runpod_MatchSKUs (Some (expand_class d (class_request c))) \<noteq> []
     \<and> vast_MatchSKUs (Some (expand_class d (class_request c))) \<noteq> []
     \<and> lambda_MatchSKUs (Some (expand_class d (class_request c))) \<noteq> []"
  using classes_match class_cases [OF assms] assms by auto

theorem every_class_rentable_witness:
  "\<exists>d. classDefaults ''large'' = Some d \<and> vast_MatchSKUs (Some (expand_class d (class_request ''large''))) \<noteq> []"
proof -
  obtain d where d: "classDefaults ''large'' = Some d" by (simp add: classDefaults_def)
  then show ?thesis using every_class_rentable [OF d] by blast
qed

text \<open>The classification by memory agrees with the floors of the classes, down to the lowest.\<close>

lemma class_floor:
  assumes "24 \<le> v"
  shows "\<exists>d. classDefaults (ClassifyByVRAM v) = Some d \<and> cd_min_vram_gb d \<le> v
     \<and> (\<forall>c d'. classDefaults c = Some d' \<and> cd_min_vram_gb d' \<le> v \<longrightarrow> cd_min_vram_gb d' \<le> cd_min_vram_gb d)"
  using assms by (auto simp: classDefaults_def ClassifyByVRAM_def split: if_splits)

lemma small_card_misclassified:
  "ClassifyByVRAM 16 = ''small'' \<and> cd_min_vram_gb (the (classDefaults ''small'')) = 24"
  by (simp add: ClassifyByVRAM_def classDefaults_def)

lemma nvl_is_large: "runpod_classifySKU ''NVIDIA H100 NVL'' = ''large''"
  by code_simp

subsection \<open>Variants of one card\<close>

lemma vast_lookup_row: "list_all (\<lambda>s. vast_LookupSKU (vs_name s) = Some s) vast_skus"
  by code_simp

definition wire_name :: "vast_sku \<Rightarrow> gostring" where
  "wire_name s = (if vs_wire s \<noteq> [] then vs_wire s else vs_name s)"

lemma vast_variant_bands:
  "list_all (\<lambda>a. list_all (\<lambda>b. wire_name a \<noteq> wire_name b \<or> vs_name a = vs_name b
       \<or> (0 < vs_vram_max a \<and> vs_vram_max a * 1100 < vs_vram b * 953 * 97 div 100)
       \<or> (0 < vs_vram_max b \<and> vs_vram_max b * 1100 < vs_vram a * 953 * 97 div 100)) vast_skus) vast_skus"
  by code_simp

lemma vast_row_vram: "s \<in> set vast_skus \<Longrightarrow> 0 < vs_vram s"
  by (auto simp: vast_skus_def)

lemma wire_names_plain: "list_all (\<lambda>s. list_all (\<lambda>c. c \<noteq> CHR '' '') (wire_name s)) vast_skus"
  by code_simp

lemma replace_byte_inj:
  assumes "replace_byte a b s = replace_byte a b t" "b \<notin> set s" "b \<notin> set t"
  shows "s = t"
  using assms
proof (induction s arbitrary: t)
  case (Cons c s)
  then show ?case by (cases t) (auto simp: replace_byte_def split: if_splits)
qed (auto simp: replace_byte_def)

lemma vast_row_query:
  assumes "s \<in> set vast_skus"
  shows "gpuNameForVast (vs_name s) = replace_byte CHR ''_'' CHR '' '' (wire_name s)"
    and "vs_vram s * 953 * 97 div 100 \<le> offerVRAMFloorMB (vs_name s) r"
    and "0 < offerVRAMFloorMB (vs_name s) r"
    and "0 < vs_vram_max s \<Longrightarrow> offerVRAMCeilingMB (vs_name s) = vs_vram_max s * 1100"
proof -
  have l: "vast_LookupSKU (vs_name s) = Some s" using vast_lookup_row assms by (simp add: list_all_iff)
  have v: "0 < vs_vram s" by (rule vast_row_vram [OF assms])
  show "gpuNameForVast (vs_name s) = replace_byte CHR ''_'' CHR '' '' (wire_name s)"
    using l by (simp add: gpuNameForVast_def wire_name_def)
  show f: "vs_vram s * 953 * 97 div 100 \<le> offerVRAMFloorMB (vs_name s) r"
    using l v by (auto simp: offerVRAMFloorMB_def Let_def intro!: zdiv_mono1)
  have "0 < vs_vram s * 953 * 97 div 100" using v by (simp add: pos_imp_zdiv_pos_iff)
  with f show "0 < offerVRAMFloorMB (vs_name s) r" by linarith
  show "0 < vs_vram_max s \<Longrightarrow> offerVRAMCeilingMB (vs_name s) = vs_vram_max s * 1100"
    using l by (simp add: offerVRAMCeilingMB_def)
qed

lemma vast_offer_band:
  assumes "s \<in> set vast_skus" "meets (offer_search i q (vs_name s) n disk r lmt) off"
  shows "of_gpu_name off = replace_byte CHR ''_'' CHR '' '' (wire_name s)"
    and "vs_vram s * 953 * 97 div 100 \<le> of_gpu_ram off"
    and "0 < vs_vram_max s \<Longrightarrow> of_gpu_ram off \<le> vs_vram_max s * 1100"
  using assms(2) vast_row_query(1,4) [OF assms(1)] vast_row_query(2,3) [OF assms(1), of r]
  by (auto simp: meets_def offer_search_def Let_def bound_def)

text \<open>
  Naming a variant rents that variant.  The marketplace lists different cards under one name; an
  offer returned by the search for one catalog row is never returned by the search for another row of
  the same name, whatever else the two requests ask for.
\<close>

theorem vast_variants_disjoint:
  assumes "a \<in> set vast_skus" "b \<in> set vast_skus" "vs_name a \<noteq> vs_name b"
    and "meets (offer_search i q (vs_name a) n disk r lmt) off"
  shows "\<not> meets (offer_search i' q' (vs_name b) n' disk' r' lmt') off"
proof
  assume m: "meets (offer_search i' q' (vs_name b) n' disk' r' lmt') off"
  note A = vast_offer_band [OF assms(1,4)] and B = vast_offer_band [OF assms(2) m]
  have plain: "CHR '' '' \<notin> set (wire_name s)" if "s \<in> set vast_skus" for s
    using wire_names_plain that unfolding list_all_iff by blast
  have "wire_name a = wire_name b"
    by (rule replace_byte_inj [OF _ plain [OF assms(1)] plain [OF assms(2)]]) (rule trans [OF A(1) [symmetric] B(1)])
  then have "(0 < vs_vram_max a \<and> vs_vram_max a * 1100 < vs_vram b * 953 * 97 div 100)
      \<or> (0 < vs_vram_max b \<and> vs_vram_max b * 1100 < vs_vram a * 953 * 97 div 100)"
    using vast_variant_bands assms(1-3) unfolding list_all_iff by blast
  then show False using A(2,3) B(2,3) by linarith
qed

definition sample_offer :: offer where
  "sample_offer =
     \<lparr>of_id = 7, of_gpu_name = ''A100 SXM4'', of_num_gpus = 4, of_disk = 200, of_dph = 5, of_machine = 11, of_cpu_ram = 512000,
      of_min_bid = 2, of_arch = ''amd64'', of_geo = ''SE'', of_nvlink = Some 300, of_gpu_ram = 40960, of_inet_down = 1200,
      of_reliability = 99 / 100\<rparr>"

definition fabric_request :: "int \<Rightarrow> requirements" where
  "fabric_request gbps = (class_request [])\<lparr>rq_gpu_count := 4, rq_fabric_scope := ScopeIntraNode, rq_min_fabric_gbps := gbps\<rparr>"

definition a100_40 :: vast_sku where
  "a100_40 = \<lparr>vs_name = ''A100_SXM4_40GB'', vs_display = ''A100 SXM4'', vs_vram = 40, vs_ram = 96, vs_price = 90 / 100,
      vs_wire = ''A100_SXM4'', vs_vram_max = 40, vs_family = FamilyA100SXM\<rparr>"

lemma a100_40_in: "a100_40 \<in> set vast_skus"
  by (simp add: a100_40_def vast_skus_def)

lemma sample_row: "vast_LookupSKU ''A100_SXM4_40GB'' =
    Some \<lparr>vs_name = ''A100_SXM4_40GB'', vs_display = ''A100 SXM4'', vs_vram = 40, vs_ram = 96, vs_price = 90 / 100,
      vs_wire = ''A100_SXM4'', vs_vram_max = 40, vs_family = FamilyA100SXM\<rparr>"
  using vast_lookup_row a100_40_in unfolding list_all_iff by (force simp: a100_40_def)

lemma sample_search:
  "offer_search 1000 (9 / 10) ''A100_SXM4_40GB'' 4 100 (fabric_request 2404) 5 =
     \<lparr>oq_gpu_name = ''A100 SXM4'', oq_num_gpus = 4, oq_disk_ge = Some 100, oq_ram_ge = None, oq_vram_ge = Some 36976,
      oq_vram_le = Some 44000, oq_nvlink_ge = Some 300, oq_nvlink_le = None, oq_inet_ge = Some 1000,
      oq_reliability_ge = Some (9 / 10), oq_limit = 5\<rparr>"
  by (simp add: offer_search_def offerVRAMFloorMB_def offerVRAMCeilingMB_def gpuNameForVast_def sample_row bound_def
      fabric_request_def class_request_def replace_byte_def Let_def)

theorem vast_variants_disjoint_witness:
  "\<not> meets (offer_search 1000 (9 / 10) ''A100_SXM4'' 4 100 (fabric_request 2404) 5) sample_offer"
proof -
  have m: "meets (offer_search 1000 (9 / 10) ''A100_SXM4_40GB'' 4 100 (fabric_request 2404) 5) sample_offer"
    by (simp add: sample_search meets_def sample_offer_def)
  let ?b = "\<lparr>vs_name = ''A100_SXM4'', vs_display = ''A100 SXM4'', vs_vram = 80, vs_ram = 128, vs_price = 130 / 100,
      vs_wire = [], vs_vram_max = 0, vs_family = FamilyA100SXM\<rparr>"
  have "?b \<in> set vast_skus" by (simp add: vast_skus_def)
  then show ?thesis
    using vast_variants_disjoint [of a100_40 ?b 1000 "9 / 10" 4 100 "fabric_request 2404" 5 sample_offer
        1000 "9 / 10" 4 100 "fabric_request 2404" 5] a100_40_in m by (simp add: a100_40_def)
qed

text \<open>
  A bandwidth floor is rounded down.  The request is in gigabits and the query in gigabytes, and
  the division drops the remainder: for 2404 Gb/s the marketplace is asked for 300 GB/s, and a machine
  that measures exactly that is rented although its 2400 Gb/s do not satisfy the request.
\<close>

theorem vast_fabric_floor_rounds_down:
  "meets (offer_search 1000 (9 / 10) ''A100_SXM4_40GB'' 4 100 (fabric_request 2404) 5) sample_offer
   \<and> \<not> Satisfies (Resolve \<lparr>fo_family = FamilyA100SXM, fo_measured = GbpsFromGBps 300, fo_has_measurement = True\<rparr>)
        (rq_fabric_scope (fabric_request 2404)) (rq_min_fabric_gbps (fabric_request 2404))"
proof -
  have "GbpsFromGBps 300 = 2400" by code_simp
  moreover have "meets (offer_search 1000 (9 / 10) ''A100_SXM4_40GB'' 4 100 (fabric_request 2404) 5) sample_offer"
    by (simp add: sample_search meets_def sample_offer_def)
  ultimately show ?thesis
    by (simp add: Satisfies_def Resolve_def fabric_catalog_def fabric_request_def)
qed

end
