(* ===== verification/Image_Deployers.thy ===== *)
theory Image_Deployers
  imports Engine_Wait Agent_Delivery Sku_Catalog
begin

text \<open>
  The two providers whose machine is the engine's container: \<^verbatim>\<open>vast/{deployer,phase,failure,candidates}.go\<close>
  and \<^verbatim>\<open>runpod/deployer.go\<close>.  A deploy is a function of what the provider's API, the health endpoint,
  the environment and the clock answer; it gives the updates it emits, in order, and its result.
  Errors are their texts.  The locale \<open>image_deployer\<close> is the contract of the \<^verbatim>\<open>Deployer\<close> interface
  that the control plane relies on.
\<close>

datatype deploy_result = Deploying | DeployOK | DeployErr gostring

type_synonym deploy_run = "dupdate list \<times> deploy_result"

definition emit :: "dupdate \<Rightarrow> deploy_run \<Rightarrow> deploy_run" where
  "emit u r = (u # fst r, snd r)"

definition progress_update :: "deployment_state \<Rightarrow> gostring \<Rightarrow> gostring \<Rightarrow> dupdate" where
  "progress_update s phase msg =
     \<lparr>du_state = s, du_phase = phase, du_progress = msg, du_container = [], du_endpoint = [],
      du_failure = [], du_rate = 0, du_ssh = None\<rparr>"

definition failure_update :: "gostring \<Rightarrow> gostring \<Rightarrow> dupdate" where
  "failure_update phase reason = (progress_update DFailed phase [])\<lparr>du_failure := reason\<rparr>"

subsection \<open>Answers to a poll\<close>

datatype probe_answer = ProbeError gostring | ProbeStatus int gostring

record 'a poll =
  pl_status :: 'a
  pl_health :: "gostring \<Rightarrow> probe_answer"
  pl_again :: "gostring \<Rightarrow> probe_answer"
  pl_emit_at :: timestamp
  pl_done :: "gostring option option"
  pl_after :: timestamp

definition poll_tick ::
  "(gostring \<Rightarrow> probe_answer \<Rightarrow> bool \<times> gostring) \<Rightarrow> ('a \<Rightarrow> gostring \<Rightarrow> wait_observation) \<Rightarrow> 'a poll \<Rightarrow> wait_round" where
  "poll_tick probe obs p =
     \<lparr>tk_probe = (\<lambda>e. probe e (pl_health p e)), tk_observe = obs (pl_status p),
      tk_reprobe = (\<lambda>e. probe e (pl_again p e)), tk_emit_at = pl_emit_at p, tk_done = pl_done p,
      tk_after = pl_after p\<rparr>"

subsection \<open>Words of the host\<close>

text \<open>\<^verbatim>\<open>strings.Contains\<close> and \<^verbatim>\<open>strings.Fields\<close>.\<close>

definition contains :: "gostring \<Rightarrow> gostring \<Rightarrow> bool" where
  "contains s sub \<longleftrightarrow> bytes_index s sub \<noteq> None"

definition push_word :: "gostring \<Rightarrow> gostring list \<Rightarrow> gostring list" where
  "push_word w ws = (if w = [] then ws else w # ws)"

function go_fields :: "gostring \<Rightarrow> gostring \<Rightarrow> gostring list" where
  "go_fields cur [] = push_word cur []"
| "go_fields cur (c # cs) =
     (case strip_one space_seqs (c # cs) of
        Some rest \<Rightarrow> push_word cur (go_fields [] rest)
      | None \<Rightarrow> go_fields (cur @ [c]) cs)"
  by pat_completeness auto
termination
  by (relation "measure (length \<circ> snd)") (auto dest!: strip_one_shorter simp: space_seqs_nonempty)

definition collapseWhitespace :: "gostring \<Rightarrow> gostring" where
  "collapseWhitespace s = join_with '' '' (go_fields [] s)"

definition truncate :: "gostring \<Rightarrow> nat \<Rightarrow> gostring" where
  "truncate s n = (if length s \<le> n then s else take n s @ ''...'')"

definition terminalSignatures :: "gostring list" where
  "terminalSignatures =
     [''error pulling image'', ''oci runtime create failed'', ''failed to start containers'',
      ''error response from daemon'', ''manifest unknown'', ''repository does not exist'', ''no such image'',
      ''pull access denied'']"

definition transientSignatures :: "gostring list" where
  "transientSignatures =
     [''retrying'', ''downloading'', ''verifying checksum'', ''download complete'', ''pull complete'', ''extracting'',
      ''waiting'']"

definition summarizeFailure :: "gostring \<Rightarrow> gostring \<Rightarrow> gostring" where
  "summarizeFailure statusMsg curState =
     truncate (collapseWhitespace statusMsg) 240 @
     (if curState \<noteq> [] then '' (cur_state='' @ curState @ '')'' else [])"

text \<open>\<open>None\<close> when the host has not definitively failed.\<close>

definition terminalHostFailure :: "gostring \<Rightarrow> gostring \<Rightarrow> gostring option" where
  "terminalHostFailure curState statusMsg =
     (let msg = to_lower statusMsg in
      if trim_space msg = [] then None
      else if \<exists>s \<in> set transientSignatures. contains msg s then None
      else if \<exists>s \<in> set terminalSignatures. contains msg s then Some (summarizeFailure statusMsg curState)
      else None)"

definition pullProgress :: "gostring \<Rightarrow> gostring" where
  "pullProgress statusMsg =
     (let msg = collapseWhitespace statusMsg in
      if msg = [] then []
      else if \<exists>s \<in> set transientSignatures. contains (to_lower msg) s then truncate msg 120
      else [])"

subsection \<open>Ladders of the providers\<close>

definition vast_phaseScheduling :: gostring where "vast_phaseScheduling = ''vast:scheduling''"
definition vast_phaseImagePull :: gostring where "vast_phaseImagePull = ''vast:image-pull''"
definition runpod_phaseScheduling :: gostring where "runpod_phaseScheduling = ''runpod:scheduling''"
definition runpod_phaseImagePull :: gostring where "runpod_phaseImagePull = ''runpod:image-pull''"

definition vast_enginePhaseOrdinal :: "gostring \<Rightarrow> int" where
  "vast_enginePhaseOrdinal phase =
     (if phase = vast_phaseScheduling then 1
      else if phase = vast_phaseImagePull then 2
      else if phase = PhaseEngineInit then 3 else 0)"

definition vast_classifyEnginePhase :: "gostring \<Rightarrow> bool \<Rightarrow> gostring" where
  "vast_classifyEnginePhase actualStatus endpointReady =
     (if endpointReady then PhaseEngineInit
      else let s = to_lower (trim_space actualStatus) in
        if s = ''running'' then PhaseEngineInit
        else if s = ''loading'' then vast_phaseImagePull
        else vast_phaseScheduling)"

definition vast_enginePhaseDescription :: "gostring \<Rightarrow> gostring" where
  "vast_enginePhaseDescription phase =
     (if phase = vast_phaseImagePull then ''pulling engine image''
      else if phase = PhaseEngineInit then ''engine starting (model download + load)''
      else ''waiting for the host to create the container'')"

definition runpod_enginePhaseOrdinal :: "gostring \<Rightarrow> int" where
  "runpod_enginePhaseOrdinal phase =
     (if phase = runpod_phaseScheduling then 1
      else if phase = runpod_phaseImagePull then 2
      else if phase = PhaseEngineInit then 3 else 0)"

definition runpod_enginePhaseDescription :: "gostring \<Rightarrow> gostring" where
  "runpod_enginePhaseDescription phase =
     (if phase = runpod_phaseImagePull then ''pulling engine image''
      else if phase = PhaseEngineInit then ''engine starting (model download + load)''
      else ''waiting for RunPod to schedule the pod'')"

definition runpod_classifyEnginePhase :: "bool \<Rightarrow> bool \<Rightarrow> gostring" where
  "runpod_classifyEnginePhase machinePresent containerStarted =
     (if containerStarted then PhaseEngineInit
      else if machinePresent then runpod_phaseImagePull
      else runpod_phaseScheduling)"

definition vast_rungs :: "gostring list" where
  "vast_rungs = [vast_phaseScheduling, vast_phaseImagePull, PhaseEngineInit]"

definition runpod_rungs :: "gostring list" where
  "runpod_rungs = [runpod_phaseScheduling, runpod_phaseImagePull, PhaseEngineInit]"

lemmas ladder_defs = vast_enginePhaseOrdinal_def runpod_enginePhaseOrdinal_def vast_rungs_def runpod_rungs_def
  vast_phaseScheduling_def vast_phaseImagePull_def runpod_phaseScheduling_def runpod_phaseImagePull_def PhaseEngineInit_def

interpretation vast_ladder: phase_ladder vast_enginePhaseOrdinal vast_rungs
  by unfold_locales (auto simp: ladder_defs split: if_splits)

interpretation runpod_ladder: phase_ladder runpod_enginePhaseOrdinal runpod_rungs
  by unfold_locales (auto simp: ladder_defs split: if_splits)

subsection \<open>Vast\<close>

text \<open>The fields of an instance record the deploy reads.\<close>

record vast_api =
  va_status :: gostring
  va_cur_state :: gostring
  va_status_msg :: gostring
  va_public_ip :: gostring
  va_ports :: "gostring \<rightharpoonup> gostring list"
  va_ssh_host :: gostring
  va_ssh_port :: int

definition endpointFromInstance :: "vast_api \<Rightarrow> int \<Rightarrow> gostring \<times> gostring" where
  "endpointFromInstance api enginePort =
     (if va_public_ip api = [] then ([], ''waiting for the host's public address'')
      else case va_ports api (itoa enginePort @ ''/tcp'') of
        Some (hostPort # _) \<Rightarrow>
          if hostPort = [] then ([], ''waiting for port '' @ itoa enginePort @ '' to be mapped'')
          else (''http://'' @ va_public_ip api @ '':'' @ hostPort, [])
      | _ \<Rightarrow> ([], ''waiting for port '' @ itoa enginePort @ '' to be mapped''))"

definition sshTargetFrom :: "vast_api \<Rightarrow> ssh_target option" where
  "sshTargetFrom api =
     (if va_ssh_host api = [] then None
      else Some \<lparr>ssh_host = va_ssh_host api, ssh_port = wrap32 (va_ssh_port api), ssh_user = ''root''\<rparr>)"

text \<open>One round's reads of the contract: the loop's own, and the one \<^verbatim>\<open>TerminalFailure\<close> makes.\<close>

record vast_reading =
  vd_describe :: "gostring + vast_api"
  vd_again :: "gostring + vast_api"

definition vast_TerminalFailure :: "gostring + vast_api \<Rightarrow> gostring option" where
  "vast_TerminalFailure answer =
     (case answer of Inl _ \<Rightarrow> None | Inr api \<Rightarrow> terminalHostFailure (va_cur_state api) (va_status_msg api))"

definition vast_observe :: "int \<Rightarrow> int \<Rightarrow> vast_reading \<Rightarrow> gostring \<Rightarrow> wait_observation" where
  "vast_observe contractID enginePort rd phase =
     (case vd_describe rd of
        Inl err \<Rightarrow>
          \<lparr>wo_endpoint = [], wo_phase = vast_phaseScheduling,
           wo_detail = ''describe contract '' @ itoa contractID @ '': '' @ err, wo_ssh = None, wo_fatal = None\<rparr>
      | Inr api \<Rightarrow>
          (case vast_TerminalFailure (vd_again rd) of
             Some why \<Rightarrow>
               \<lparr>wo_endpoint = [], wo_phase = [], wo_detail = [], wo_ssh = None,
                wo_fatal = Some (''contract '' @ itoa contractID @ '' will not start: '' @ why)\<rparr>
           | None \<Rightarrow>
               (let endpoint = fst (endpointFromInstance api enginePort) in
                \<lparr>wo_endpoint = endpoint, wo_phase = vast_classifyEnginePhase (va_status api) (endpoint \<noteq> []),
                 wo_detail = pullProgress (va_status_msg api), wo_ssh = sshTargetFrom api, wo_fatal = None\<rparr>)))"

definition vast_probe :: "gostring \<Rightarrow> probe_answer \<Rightarrow> bool \<times> gostring" where
  "vast_probe endpoint answer =
     (case answer of
        ProbeError err \<Rightarrow> (False, endpoint @ ''/health -> '' @ err)
      | ProbeStatus code _ \<Rightarrow>
          if 200 \<le> code \<and> code < 300 then (True, []) else (False, endpoint @ ''/health -> '' @ itoa code))"

definition defaultEngineReadyTimeout :: duration where "defaultEngineReadyTimeout = 1800 * second"

definition instanceLabelPrefix :: gostring where "instanceLabelPrefix = ''iplane-''"

definition vast_defaultDiskGB :: int where "vast_defaultDiskGB = 40"

record rent_body =
  rt_image :: gostring
  rt_disk :: int
  rt_label :: gostring
  rt_runtype :: gostring
  rt_onstart :: gostring
  rt_env :: "gostring \<rightharpoonup> gostring"

record rent_response =
  rr_success :: bool
  rr_contract :: int
  rr_msg :: gostring

text \<open>
  The adapter's settings and the world it runs in: the marketplace, the rent call, the machine's
  environment and version, the two clock readings of the wait, its rounds, and the published log.
\<close>

record vast_world =
  vw_min_inet :: rat
  vw_min_reliability :: rat
  vw_timeout :: duration
  vw_interval :: duration
  vw_search :: "offer_query \<Rightarrow> gostring + offer list"
  vw_rent :: "int \<Rightarrow> rent_body \<Rightarrow> gostring + rent_response"
  vw_env :: "gostring \<rightharpoonup> gostring"
  vw_version :: gostring
  vw_floors_hint :: gostring
  vw_now :: timestamp
  vw_started :: timestamp
  vw_polls :: "vast_reading poll list"
  vw_logs :: gostring

definition vast_agentPrelude :: "vast_world \<Rightarrow> deployment \<Rightarrow> gostring" where
  "vast_agentPrelude w dep =
     (if getenv (dep_env dep) EnvEngineID = [] \<or> getenv (dep_env dep) EnvServiceURL = [] then []
      else case BinaryURL (vw_env w) (vw_version w) ''amd64'' of
        None \<Rightarrow> []
      | Some url \<Rightarrow> (case AgentPrelude url of None \<Rightarrow> [] | Some prelude \<Rightarrow> prelude @ [LF]))"

definition engine_argv :: "gostring list \<Rightarrow> deployment \<Rightarrow> int \<Rightarrow> gostring list" where
  "engine_argv engineCmd dep enginePort =
     engineCmd @ [''--model'', dep_model dep, ''--host'', ''0.0.0.0'', ''--port'', itoa enginePort] @ dep_engine_args dep"

definition onstartScript :: "vast_world \<Rightarrow> gostring list \<Rightarrow> deployment \<Rightarrow> int \<Rightarrow> gostring" where
  "onstartScript w engineCmd dep enginePort =
     vast_agentPrelude w dep @ ''exec '' @ shJoin (engine_argv engineCmd dep enginePort)"

definition rent_request :: "vast_world \<Rightarrow> deployment \<Rightarrow> gostring list \<Rightarrow> int \<Rightarrow> int \<Rightarrow> rent_body" where
  "rent_request w dep engineCmd enginePort diskGB =
     \<lparr>rt_image = dep_image dep, rt_disk = diskGB, rt_label = instanceLabelPrefix @ dep_id dep, rt_runtype = ''ssh'',
      rt_onstart = onstartScript w engineCmd dep enginePort,
      rt_env = [(''-p '' @ itoa enginePort @ '':'' @ itoa enginePort) \<mapsto> ''1''] ++ dep_env dep\<rparr>"

definition rentEngine :: "vast_world \<Rightarrow> int \<Rightarrow> deployment \<Rightarrow> gostring list \<Rightarrow> int \<Rightarrow> int \<Rightarrow> gostring + rent_response" where
  "rentEngine w offerID dep engineCmd enginePort diskGB =
     bindE (vw_rent w offerID (rent_request w dep engineCmd enginePort diskGB))
       (\<lambda>resp. if \<not> rr_success resp \<or> rr_contract resp = 0 then Inl (''rent failed: '' @ rr_msg resp) else Inr resp)"

definition vast_wait_config :: "vast_world \<Rightarrow> int \<Rightarrow> wait_config" where
  "vast_wait_config w contractID =
     \<lparr>wc_timeout = (if vw_timeout w \<le> 0 then defaultEngineReadyTimeout else vw_timeout w),
      wc_interval = vw_interval w, wc_container = itoa contractID, wc_endpoint = [],
      wc_ordinal = vast_enginePhaseOrdinal, wc_description = vast_enginePhaseDescription, wc_logs = Some (vw_logs w)\<rparr>"

definition vast_waitForEngineReady :: "vast_world \<Rightarrow> int \<Rightarrow> int \<Rightarrow> dupdate list \<times> wait_result option" where
  "vast_waitForEngineReady w contractID enginePort =
     Wait (vast_wait_config w contractID) (vw_now w) (vw_started w)
       (map (poll_tick vast_probe (vast_observe contractID enginePort)) (vw_polls w))"

definition deployFailed :: "gostring \<Rightarrow> gostring \<Rightarrow> deploy_run" where
  "deployFailed phase err = ([failure_update phase err], DeployErr (phase @ '': '' @ err))"

text \<open>\<^verbatim>\<open>%.4f\<close> of a non-negative price.\<close>

definition price_string :: "rat \<Rightarrow> gostring" where
  "price_string x =
     (let n = nat (round_half_even (10000 * x)); frac = dec (n mod 10000) in
      dec (n div 10000) @ ''.'' @ replicate (4 - length frac) CHR ''0'' @ frac)"

text \<open>What a deploy does with the end of its wait.\<close>

definition conclude ::
  "(gostring \<Rightarrow> gostring \<Rightarrow> deploy_run) \<Rightarrow> gostring \<Rightarrow> gostring \<Rightarrow> dupdate list \<times> wait_result option \<Rightarrow> deploy_run" where
  "conclude failed readyPhase containerID waited =
     (case waited of
        (us, None) \<Rightarrow> (us, Deploying)
      | (us, Some (WaitFailed _ err)) \<Rightarrow>
          (case failed readyPhase (wait_error_text err) of (us', r) \<Rightarrow> (us @ us', r))
      | (us, Some (WaitReady endpoint)) \<Rightarrow>
          (us @ [(progress_update DRunning ''engine:serving'' ''engine /health is 2xx'')
                   \<lparr>du_container := containerID, du_endpoint := endpoint\<rparr>], DeployOK))"

definition vast_rented :: "vast_world \<Rightarrow> int \<Rightarrow> int \<Rightarrow> deploy_run" where
  "vast_rented w contract enginePort =
     emit ((progress_update DConfiguring vast_phaseScheduling ''instance rented; waiting for the host to create the container'')
             \<lparr>du_container := itoa contract\<rparr>)
       (conclude deployFailed ''vast:engine-ready'' (itoa contract) (vast_waitForEngineReady w contract enginePort))"

definition inst_requirements :: "inst \<Rightarrow> requirements option" where
  "inst_requirements i = (case in_spec i of None \<Rightarrow> None | Some sp \<Rightarrow> sp_requirements sp)"

definition reqs_of :: "requirements option \<Rightarrow> requirements" where
  "reqs_of r = (case r of None \<Rightarrow> zero_requirements | Some r \<Rightarrow> r)"

definition vast_Deploy :: "vast_world \<Rightarrow> deployment option \<Rightarrow> inst option \<Rightarrow> deploy_run" where
  "vast_Deploy w dep inst =
     (case (dep, inst) of
        (Some d, Some i) \<Rightarrow>
          if dep_image d = [] then
            deployFailed ''validate'' ''deployment.image is required for the image-as-container model''
          else if dep_engine_entrypoint d = [] then
            deployFailed ''validate'' (''deployment.engine_entrypoint is required on vast: the provider replaces the image's ''
               @ ''entrypoint with its own launcher, so the engine's start command has to be supplied ''
               @ ''(e.g. --engine-entrypoint python3 --engine-entrypoint=-m --engine-entrypoint vllm.entrypoints.openai.api_server)'')
          else
            (let enginePort = (if dep_engine_port d = 0 then 8000 else dep_engine_port d);
                 reqs = inst_requirements i;
                 r = reqs_of reqs;
                 gpuCount = (if rq_gpu_count r \<le> 0 then 1 else rq_gpu_count r);
                 diskGB = (if rq_min_disk_gb r \<le> 0 then vast_defaultDiskGB else rq_min_disk_gb r);
                 names = candidateSKUs reqs in
             emit (progress_update DStarting ''vast:find-offer'' (''searching for capacity for image '' @ dep_image d))
               (if names = [] then
                  deployFailed ''vast:find-offer''
                    (''no vast SKU satisfies the requirements (min_vram_gb='' @ itoa (rq_min_vram_gb r) @ '')'')
                else case findAnyOffer (vw_search w) (vw_min_inet w) (vw_min_reliability w) names gpuCount diskGB r of
                  Inl err \<Rightarrow> deployFailed ''vast:find-offer'' err
                | Inr None \<Rightarrow>
                    deployFailed ''vast:find-offer''
                      (''no rentable offer found for sku(s) '' @ join_with '', '' names @ '' at gpu_count='' @ itoa gpuCount
                       @ '' ('' @ vw_floors_hint w @ '')'')
                | Inr (Some (off, skuName)) \<Rightarrow>
                    emit ((progress_update DStarting ''vast:rent''
                             (''renting offer '' @ itoa (of_id off) @ '' ('' @ skuName @ '' x'' @ itoa gpuCount @ '') at $''
                              @ price_string (of_dph off) @ ''/hr''))\<lparr>du_rate := of_dph off\<rparr>)
                      (case rentEngine w (of_id off) d (dep_engine_entrypoint d) enginePort diskGB of
                         Inl err \<Rightarrow> deployFailed ''vast:rent'' err
                       | Inr rented \<Rightarrow> vast_rented w (rr_contract rented) enginePort)))
      | _ \<Rightarrow> ([], DeployErr ''vast.Deploy: deployment and instance are required''))"

text \<open>\<open>terminate\<close> is the adapter's idempotent \<^verbatim>\<open>Terminate\<close>: the text of its error, if any.\<close>

definition contract_of :: "deployment \<Rightarrow> inst option \<Rightarrow> gostring" where
  "contract_of d inst =
     (if dep_container_id d = [] then (case inst of None \<Rightarrow> [] | Some i \<Rightarrow> in_provider_id i) else dep_container_id d)"

definition vast_Destroy :: "(gostring \<Rightarrow> gostring option) \<Rightarrow> deployment \<Rightarrow> inst option \<Rightarrow> deploy_run" where
  "vast_Destroy terminate d inst =
     (let contractID = contract_of d inst in
      if contractID = [] then
        ([progress_update DTerminated ''vast:terminate'' ''no contract id on record; nothing to terminate''], DeployOK)
      else
        emit (progress_update DTerminating ''vast:terminate'' (''terminating contract '' @ contractID))
          (case terminate contractID of
             Some err \<Rightarrow> deployFailed ''vast:terminate'' err
           | None \<Rightarrow> ([progress_update DTerminated ''vast:terminate'' ''contract terminated''], DeployOK)))"

subsection \<open>RunPod\<close>

text \<open>The parts of a pod record and of its run-time block that the phases are read from.\<close>

record pod_machine =
  pm_gpu_type_id :: gostring
  pm_data_center :: gostring
  pm_gpu_count :: int
  pm_gpu_type :: "gostring option"

record pod_body =
  pb_id :: gostring
  pb_name :: gostring
  pb_machine_id :: gostring
  pb_machine :: "pod_machine option"
  pb_desired_status :: gostring
  pb_cost :: rat

record pod_runtime =
  pr_ports :: nat
  pr_cpu :: bool
  pr_memory :: bool
  pr_gpus :: nat

definition machinePresent :: "pod_body \<Rightarrow> bool" where
  "machinePresent p \<longleftrightarrow>
     (if pb_machine_id p \<noteq> [] then True
      else case pb_machine p of
        None \<Rightarrow> False
      | Some m \<Rightarrow> pm_gpu_type_id m \<noteq> [] \<or> pm_data_center m \<noteq> [] \<or> 0 < pm_gpu_count m
          \<or> (case pm_gpu_type m of None \<Rightarrow> False | Some g \<Rightarrow> g \<noteq> []))"

definition containerStarted :: "pod_runtime option \<Rightarrow> bool" where
  "containerStarted r \<longleftrightarrow> (case r of None \<Rightarrow> False | Some r \<Rightarrow> 0 < pr_ports r \<or> pr_cpu r \<or> pr_memory r \<or> 0 < pr_gpus r)"

text \<open>One round's reads: the pod, and the run-time block of the second API; \<open>None\<close> is a failed call.\<close>

record runpod_reading =
  rd_pod :: "pod_body option"
  rd_runtime :: "pod_runtime option option"

definition probeContainerStarted :: "pod_runtime option option \<Rightarrow> bool" where
  "probeContainerStarted answer \<longleftrightarrow> (case answer of None \<Rightarrow> False | Some r \<Rightarrow> containerStarted r)"

definition probeEnginePhase :: "runpod_reading \<Rightarrow> gostring option" where
  "probeEnginePhase rd =
     (case rd_pod rd of
        None \<Rightarrow> None
      | Some pod \<Rightarrow> Some (runpod_classifyEnginePhase (machinePresent pod) (probeContainerStarted (rd_runtime rd))))"

definition runpod_observe :: "bool \<Rightarrow> gostring \<Rightarrow> runpod_reading \<Rightarrow> gostring \<Rightarrow> wait_observation" where
  "runpod_observe tracePhases endpoint rd phase =
     (let seen = (\<lambda>p. \<lparr>wo_endpoint = endpoint, wo_phase = p, wo_detail = [], wo_ssh = None, wo_fatal = None\<rparr>) in
      if runpod_enginePhaseOrdinal PhaseEngineInit \<le> runpod_enginePhaseOrdinal phase \<and> \<not> tracePhases then seen phase
      else case probeEnginePhase rd of None \<Rightarrow> seen phase | Some refined \<Rightarrow> seen refined)"

definition httpProbeHealth :: "probe_answer \<Rightarrow> bool \<times> gostring \<times> gostring option" where
  "httpProbeHealth answer =
     (case answer of
        ProbeError err \<Rightarrow> (False, [], Some err)
      | ProbeStatus code statusText \<Rightarrow> (go_quot code 100 = 2, statusText, None))"

definition runpod_probe :: "gostring \<Rightarrow> probe_answer \<Rightarrow> bool \<times> gostring" where
  "runpod_probe endpoint answer =
     (case httpProbeHealth answer of
        (ok, statusText, err) \<Rightarrow>
          if ok then (True, [])
          else case err of
            Some e \<Rightarrow> (False, ''dial error: '' @ e)
          | None \<Rightarrow> if statusText \<noteq> [] then (False, ''HTTP '' @ statusText) else (False, []))"

definition proxyEndpointForPod :: "gostring \<Rightarrow> int \<Rightarrow> gostring" where
  "proxyEndpointForPod podID port = ''https://'' @ podID @ ''-'' @ itoa port @ ''.proxy.runpod.net''"

text \<open>\<^verbatim>\<open>strings.TrimRight(s, "/")\<close>.\<close>

definition trim_slashes :: "gostring \<Rightarrow> gostring" where
  "trim_slashes s = rev (dropWhile (\<lambda>c. c = CHR ''/'') (rev s))"

record pod_request =
  pq_name :: gostring
  pq_image :: gostring
  pq_gpu_types :: "gostring list"
  pq_gpu_count :: int
  pq_disk :: int
  pq_volume_id :: gostring
  pq_volume_path :: gostring
  pq_ports :: "gostring list"
  pq_public_ip :: bool
  pq_env :: "gostring \<rightharpoonup> gostring"
  pq_start_cmd :: "gostring list"
  pq_entrypoint :: "gostring list option"

record pod_created =
  pc_id :: gostring
  pc_cost :: rat

record runpod_world =
  rw_engine_timeout :: duration
  rw_ssh_timeout :: duration
  rw_interval :: duration
  rw_proxy_base :: gostring
  rw_trace :: bool
  rw_create :: "pod_request \<Rightarrow> gostring + pod_created"
  rw_env :: "gostring \<rightharpoonup> gostring"
  rw_version :: gostring
  rw_now :: timestamp
  rw_started :: timestamp
  rw_polls :: "runpod_reading poll list"

definition enginePodPorts :: "int \<Rightarrow> bool \<Rightarrow> gostring list" where
  "enginePodPorts enginePort debugShell =
     [itoa enginePort @ ''/http''] @ (if debugShell then [''22/tcp''] else [])"

definition agentEntrypoint :: "runpod_world \<Rightarrow> deployment \<Rightarrow> gostring list option" where
  "agentEntrypoint w d =
     (if getenv (dep_env d) EnvEngineID = [] \<or> getenv (dep_env d) EnvServiceURL = [] then None
      else if dep_engine_entrypoint d = [] then None
      else case BinaryURL (rw_env w) (rw_version w) ''amd64'' of
        None \<Rightarrow> None
      | Some url \<Rightarrow>
          (case WrapperScript url (dep_engine_entrypoint d) of
             None \<Rightarrow> None
           | Some script \<Rightarrow> Some [''/bin/sh'', ''-c'', script, ''iplane-engine-agent'']))"

definition defaultContainerDiskGB :: int where "defaultContainerDiskGB = 20"

text \<open>\<open>hw\<close> is the SKU and the card count of the instance's hardware record.\<close>

definition engine_skus :: "gostring \<Rightarrow> requirements option \<Rightarrow> gostring + gostring list" where
  "engine_skus hwSku reqs =
     (if hwSku \<noteq> [] then Inr [hwSku]
      else case reqs of
        None \<Rightarrow> Inl ''instance has neither a resolved GPU SKU nor resource requirements to resolve one''
      | Some r \<Rightarrow>
          if rq_sku r \<noteq> [] then Inr [rq_sku r]
          else if runpod_MatchSKUs reqs \<noteq> [] then Inr (runpod_MatchSKUs reqs)
          else Inl (''no runpod SKU satisfies the deployment's requirements (min_vram_gb='' @ itoa (rq_min_vram_gb r) @ '')''))"

definition buildEnginePodRequest ::
  "runpod_world \<Rightarrow> deployment \<Rightarrow> inst \<Rightarrow> gostring \<times> int \<Rightarrow> gostring + pod_request" where
  "buildEnginePodRequest w d i hw =
     bindE (engine_skus (fst hw) (inst_requirements i))
       (\<lambda>gpuSKUs.
          let enginePort = (if dep_engine_port d = 0 then 8000 else dep_engine_port d);
              r = reqs_of (inst_requirements i);
              hwCount = snd hw;
              reqCount = (if hwCount \<le> 0 then rq_gpu_count r else hwCount);
              volume = find (\<lambda>m. vm_volume_id m \<noteq> []) (dep_mounts d) in
          Inr \<lparr>pq_name = ''iplane-engine-'' @ dep_id d, pq_image = dep_image d, pq_gpu_types = gpuSKUs,
               pq_gpu_count = (if reqCount \<le> 0 then 1 else reqCount),
               pq_disk = (if defaultContainerDiskGB < rq_min_disk_gb r then rq_min_disk_gb r else defaultContainerDiskGB),
               pq_volume_id = (case volume of None \<Rightarrow> [] | Some m \<Rightarrow> vm_volume_id m),
               pq_volume_path = (case volume of None \<Rightarrow> [] | Some m \<Rightarrow> vm_mount_path m),
               pq_ports = enginePodPorts enginePort (dep_debug_shell d), pq_public_ip = dep_debug_shell d,
               pq_env = dep_env d, pq_start_cmd = engine_argv [] d enginePort, pq_entrypoint = agentEntrypoint w d\<rparr>)"

definition runpod_endpoint :: "runpod_world \<Rightarrow> gostring \<Rightarrow> int \<Rightarrow> gostring" where
  "runpod_endpoint w podID enginePort =
     (if rw_proxy_base w \<noteq> [] then trim_slashes (rw_proxy_base w) @ ''/'' @ podID @ ''-'' @ itoa enginePort
      else proxyEndpointForPod podID enginePort)"

definition runpod_wait_config :: "runpod_world \<Rightarrow> gostring \<Rightarrow> int \<Rightarrow> wait_config" where
  "runpod_wait_config w podID enginePort =
     (let timeout = (if rw_engine_timeout w \<le> 0 then rw_ssh_timeout w else rw_engine_timeout w) in
      \<lparr>wc_timeout = (if timeout \<le> 0 then 300 * second else timeout), wc_interval = rw_interval w, wc_container = podID,
       wc_endpoint = runpod_endpoint w podID enginePort, wc_ordinal = runpod_enginePhaseOrdinal,
       wc_description = runpod_enginePhaseDescription, wc_logs = None\<rparr>)"

definition runpod_waitForEngineReady :: "runpod_world \<Rightarrow> gostring \<Rightarrow> int \<Rightarrow> dupdate list \<times> wait_result option" where
  "runpod_waitForEngineReady w podID port =
     (let enginePort = (if port = 0 then 8000 else port) in
      Wait (runpod_wait_config w podID enginePort) (rw_now w) (rw_started w)
        (map (poll_tick runpod_probe (runpod_observe (rw_trace w) (runpod_endpoint w podID enginePort))) (rw_polls w)))"

definition failedf :: "gostring \<Rightarrow> gostring \<Rightarrow> deploy_run" where
  "failedf phase err = ([failure_update phase (phase @ '': '' @ err)], DeployErr (phase @ '': '' @ err))"

definition runpod_created :: "runpod_world \<Rightarrow> pod_created \<Rightarrow> int \<Rightarrow> deploy_run" where
  "runpod_created w created port =
     emit ((progress_update DConfiguring ''runpod:scheduling'' ''pod created; waiting for engine /health via proxy URL'')
             \<lparr>du_container := pc_id created, du_rate := pc_cost created\<rparr>)
       (conclude failedf ''runpod:engine-ready'' (pc_id created) (runpod_waitForEngineReady w (pc_id created) port))"

definition runpod_Deploy :: "gostring \<times> int \<Rightarrow> runpod_world \<Rightarrow> deployment option \<Rightarrow> inst option \<Rightarrow> deploy_run" where
  "runpod_Deploy hw w dep inst =
     (case (dep, inst) of
        (Some d, Some i) \<Rightarrow>
          if dep_image d = [] then failedf ''validate'' ''deployment.image is required for the image-as-pod model''
          else
            emit (progress_update DStarting ''runpod:create-pod'' (''spawning pod with image '' @ dep_image d))
              (case buildEnginePodRequest w d i hw of
                 Inl err \<Rightarrow> failedf ''runpod:create-pod'' err
               | Inr req \<Rightarrow>
                   (case rw_create w req of
                      Inl err \<Rightarrow> failedf ''runpod:create-pod'' err
                    | Inr created \<Rightarrow>
                        if pc_id created = [] then
                          failedf ''runpod:create-pod''
                            (''runpod returned empty pod id (likely no capacity for any of skus ['' @ join_with '' '' (pq_gpu_types req) @ ''])'')
                        else runpod_created w created (dep_engine_port d)))
      | _ \<Rightarrow> ([], DeployErr ''runpod.Deploy: deployment and instance are required''))"

text \<open>
  An error of a provider call: a cancelled or expired context, an answer with a status (\<open>0\<close> for a
  failure of the transport), a timeout of the network, or anything else.
\<close>

datatype call_error = CallCancelled gostring | CallHTTP int gostring | CallTimeout gostring | CallOther gostring

fun call_text :: "call_error \<Rightarrow> gostring" where
  "call_text (CallCancelled t) = t" | "call_text (CallHTTP _ t) = t" | "call_text (CallTimeout t) = t" | "call_text (CallOther t) = t"

definition isTransientTerminateErr :: "call_error \<Rightarrow> bool" where
  "isTransientTerminateErr err =
     (case err of
        CallCancelled _ \<Rightarrow> True
      | CallHTTP code _ \<Rightarrow> if code = 0 then True else 500 \<le> code \<or> code = 408 \<or> code = 429
      | CallTimeout _ \<Rightarrow> True
      | CallOther _ \<Rightarrow> False)"

definition runpod_Destroy :: "(gostring \<Rightarrow> call_error option) \<Rightarrow> deployment \<Rightarrow> inst option \<Rightarrow> deploy_run" where
  "runpod_Destroy terminate d inst =
     (let podID = contract_of d inst in
      if podID = [] then
        ([progress_update DTerminated ''runpod:terminate'' ''no pod id on record; nothing to terminate''], DeployOK)
      else
        emit (progress_update DTerminating ''runpod:terminate'' (''terminating pod '' @ podID))
          (case terminate podID of
             Some err \<Rightarrow>
               if isTransientTerminateErr err then
                 ([(progress_update DTerminating ''runpod:terminate'' [])
                     \<lparr>du_failure := ''runpod:terminate (transient, will retry): '' @ call_text err\<rparr>],
                  DeployErr (''runpod:terminate (transient): '' @ call_text err))
               else failedf ''runpod:terminate'' (call_text err)
           | None \<Rightarrow> ([progress_update DTerminated ''runpod:terminate'' ''pod terminated''], DeployOK)))"

subsection \<open>The contract of a deployer\<close>

text \<open>
  A run that has returned has emitted exactly one concluding update, its last: RUNNING with the
  machine and the endpoint after a success, FAILED with a reason after an error.
\<close>

definition well_reported :: "deploy_run \<Rightarrow> bool" where
  "well_reported run \<longleftrightarrow>
     snd run \<noteq> Deploying \<longrightarrow>
       fst run \<noteq> [] \<and> (\<forall>u \<in> set (butlast (fst run)). \<not> isTerminalDeployState (du_state u) \<and> du_endpoint u = [])
       \<and> (case snd run of
            DeployOK \<Rightarrow> du_state (last (fst run)) = DRunning \<and> du_endpoint (last (fst run)) \<noteq> []
          | _ \<Rightarrow> du_state (last (fst run)) = DFailed \<and> du_endpoint (last (fst run)) = [] \<and> du_failure (last (fst run)) \<noteq> [])"

lemma well_reported_emit [intro]:
  "\<not> isTerminalDeployState (du_state u) \<Longrightarrow> du_endpoint u = [] \<Longrightarrow> well_reported run \<Longrightarrow> well_reported (emit u run)"
  by (auto simp: well_reported_def emit_def split: deploy_result.splits)

lemma well_reported_failed [intro]: "err \<noteq> [] \<Longrightarrow> well_reported (deployFailed phase err)"
  by (simp add: well_reported_def deployFailed_def failure_update_def progress_update_def)

lemma well_reported_failedf [intro]: "well_reported (failedf phase err)"
  by (simp add: well_reported_def failedf_def failure_update_def progress_update_def)

lemma wait_reason_nonempty: "(\<And>e. err = WaitFatal e \<Longrightarrow> e \<noteq> []) \<Longrightarrow> wait_error_text (err, logs) \<noteq> []"
  by (cases err) (simp_all add: wait_error_text_def)

lemma well_reported_conclude:
  assumes "\<And>e endpoint. failed readyPhase (wait_error_text e) = ([failure_update readyPhase (f e)], DeployErr (g e))"
    and "\<And>us endpoint e. waited = (us, Some (WaitFailed endpoint e)) \<Longrightarrow> f e \<noteq> []"
    and "\<forall>u \<in> set (fst waited). du_state u = DConfiguring \<and> du_endpoint u = []"
    and "\<And>us e. waited = (us, Some (WaitReady e)) \<Longrightarrow> e \<noteq> []"
  shows "well_reported (conclude failed readyPhase containerID waited)"
proof -
  obtain us q where w: "waited = (us, q)" by (cases waited)
  have us: "\<forall>u \<in> set us. \<not> isTerminalDeployState (du_state u) \<and> du_endpoint u = []"
    using assms(3) w by (simp add: isTerminalDeployState_def)
  show ?thesis
  proof (cases q)
    case None
    then show ?thesis by (simp add: w conclude_def well_reported_def)
  next
    case (Some r)
    then show ?thesis
      using us assms(1) assms(2,4) w
      by (cases r) (auto simp: conclude_def well_reported_def failure_update_def progress_update_def)
  qed
qed

lemma Wait_updates: "\<forall>u \<in> set (fst (Wait c now started ts)). du_state u = DConfiguring \<and> du_endpoint u = []"
  using wait_loop_updates unfolding Wait_def by blast

lemma Wait_ready: "Wait c now started ts = (us, Some (WaitReady e)) \<Longrightarrow> e \<noteq> []"
  using wait_ready_answered by blast

text \<open>A fatal wait_observation of a provider carries a text.\<close>

lemma wait_tick_fatal:
  "wait_tick c started deadline t s = (us, Inl (WaitFailed ep (WaitFatal e, logs))) \<Longrightarrow> \<exists>p. wo_fatal (tk_observe t p) = Some e"
  by (auto simp: wait_tick_def Let_def withEngineLogs_def split: if_splits option.splits)

lemma Wait_fatal:
  assumes "Wait c now started ts = (us, Some (WaitFailed ep (WaitFatal e, logs)))"
  shows "\<exists>t \<in> set ts. \<exists>p. wo_fatal (tk_observe t p) = Some e"
proof -
  have "\<exists>t \<in> set ts. \<exists>p. wo_fatal (tk_observe t p) = Some e"
    if "wait_loop c started d ts s = (us, Some (WaitFailed ep (WaitFatal e, logs)))" for d s us
    using that
  proof (induction ts arbitrary: s us)
    case (Cons t ts)
    obtain vs q where q: "wait_tick c started d t s = (vs, q)" by (cases "wait_tick c started d t s")
    show ?case
    proof (cases q)
      case (Inl r)
      then show ?thesis using Cons.prems q wait_tick_fatal by auto
    next
      case (Inr s')
      obtain ws where "wait_loop c started d ts s' = (ws, Some (WaitFailed ep (WaitFatal e, logs)))"
        using Cons.prems q Inr by (auto split: prod.splits)
      from Cons.IH [OF this] show ?thesis by auto
    qed
  qed simp
  then show ?thesis using assms unfolding Wait_def by blast
qed

lemma vast_fatal: "wo_fatal (vast_observe contract port rd phase) = Some x \<Longrightarrow> x \<noteq> []"
  by (cases "vd_describe rd"; cases "vast_TerminalFailure (vd_again rd)") (auto simp: vast_observe_def Let_def)

lemma vast_rented_reported: "well_reported (vast_rented w contract port)"
proof -
  have f: "deployFailed ''vast:engine-ready'' (wait_error_text e) =
      ([failure_update ''vast:engine-ready'' (wait_error_text e)],
       DeployErr (''vast:engine-ready'' @ '': '' @ wait_error_text e))" for e
    by (simp add: deployFailed_def)
  have ne: "wait_error_text e \<noteq> []"
    if w: "vast_waitForEngineReady w contract port = (us, Some (WaitFailed ep e))" for us ep e
  proof -
    obtain err logs where e: "e = (err, logs)" by (cases e)
    have "x \<noteq> []" if x: "err = WaitFatal x" for x
    proof -
      have "\<exists>t \<in> set (map (poll_tick vast_probe (vast_observe contract port)) (vw_polls w)). \<exists>p. wo_fatal (tk_observe t p) = Some x"
        using w unfolding vast_waitForEngineReady_def e x by (rule Wait_fatal)
      then show ?thesis by (auto simp: poll_tick_def dest: vast_fatal)
    qed
    then show ?thesis unfolding e by (rule wait_reason_nonempty)
  qed
  have "well_reported (conclude deployFailed ''vast:engine-ready'' (itoa contract) (vast_waitForEngineReady w contract port))"
    by (rule well_reported_conclude [where failed = deployFailed and readyPhase = "''vast:engine-ready''"
          and f = wait_error_text and g = "\<lambda>e. ''vast:engine-ready'' @ '': '' @ wait_error_text e", OF f ne])
      (use Wait_updates Wait_ready in \<open>auto simp: vast_waitForEngineReady_def\<close>)
  then show ?thesis
    unfolding vast_rented_def by (rule well_reported_emit [rotated 2]) (simp_all add: progress_update_def isTerminalDeployState_def)
qed

lemma runpod_created_reported: "well_reported (runpod_created w created port)"
proof -
  have f: "failedf ''runpod:engine-ready'' (wait_error_text e) =
      ([failure_update ''runpod:engine-ready'' (''runpod:engine-ready'' @ '': '' @ wait_error_text e)],
       DeployErr (''runpod:engine-ready'' @ '': '' @ wait_error_text e))" for e
    by (simp add: failedf_def)
  have "well_reported (conclude failedf ''runpod:engine-ready'' (pc_id created) (runpod_waitForEngineReady w (pc_id created) port))"
    by (rule well_reported_conclude [where failed = failedf and readyPhase = "''runpod:engine-ready''" and f = "\<lambda>e. ''runpod:engine-ready'' @ '': '' @ wait_error_text e"
          and g = "\<lambda>e. ''runpod:engine-ready'' @ '': '' @ wait_error_text e", OF f])
      (use Wait_updates Wait_ready in \<open>auto simp: runpod_waitForEngineReady_def Let_def\<close>)
  then show ?thesis
    unfolding runpod_created_def by (rule well_reported_emit [rotated 2]) (simp_all add: progress_update_def isTerminalDeployState_def)
qed

locale image_deployer =
  fixes deploy :: "'w \<Rightarrow> deployment option \<Rightarrow> inst option \<Rightarrow> deploy_run" and sane :: "'w \<Rightarrow> bool"
  assumes reported: "sane w \<Longrightarrow> well_reported (deploy w (Some d) (Some i))"
begin

text \<open>The observer of the deploy ends terminal, with no phase left open.\<close>

lemma one_conclusion:
  assumes "sane w" "deploy w (Some d) (Some i) = (us, r)" "r \<noteq> Deploying"
  shows "length (filter (\<lambda>u. isTerminalDeployState (du_state u)) us) = 1
     \<and> us \<noteq> [] \<and> du_state (last us) = (if r = DeployOK then DRunning else DFailed)
     \<and> (du_endpoint (last us) \<noteq> [] \<longleftrightarrow> r = DeployOK)"
proof -
  have w: "well_reported (us, r)" using reported [OF assms(1), of d i] assms(2) by simp
  then have ne: "us \<noteq> []" using assms(3) by (simp add: well_reported_def)
  have "filter (\<lambda>u. isTerminalDeployState (du_state u)) (butlast us) = []"
    using w assms(3) by (auto simp: well_reported_def filter_empty_conv)
  moreover have l: "du_state (last us) = (if r = DeployOK then DRunning else DFailed)"
    "du_endpoint (last us) \<noteq> [] \<longleftrightarrow> r = DeployOK"
    using w assms(3) by (auto simp: well_reported_def split: deploy_result.splits)
  moreover have "us = butlast us @ [last us]" using ne by simp
  ultimately show ?thesis using ne
    by (metis (no_types, lifting) One_nat_def append_Nil filter.simps filter_append isTerminalDeployState_def
        insertI1 insertI2 list.size(3,4) add_0)
qed

end

text \<open>What a marketplace and a rent call never answer with: an error without a text.\<close>

definition vast_sane :: "vast_world \<Rightarrow> bool" where
  "vast_sane w \<longleftrightarrow> (\<forall>q. vw_search w q \<noteq> Inl []) \<and> (\<forall>k b. vw_rent w k b \<noteq> Inl [])"

lemma findAnyOffer_err:
  "(\<And>q. search q \<noteq> Inl e) \<Longrightarrow> findAnyOffer search i r names n disk reqs \<noteq> Inl e"
proof (induction names)
  case (Cons x xs)
  then show ?case
    by (auto simp: findOffer_def bindE_Inl_iff bindE_Inr_iff split: option.splits)
qed simp

lemma well_reported_cases:
  "(b \<Longrightarrow> well_reported x) \<Longrightarrow> (\<not> b \<Longrightarrow> well_reported y) \<Longrightarrow> well_reported (if b then x else y)"
  "(\<And>e. s = Inl e \<Longrightarrow> well_reported (f e)) \<Longrightarrow> (\<And>v. s = Inr v \<Longrightarrow> well_reported (g v)) \<Longrightarrow>
     well_reported (case s of Inl e \<Rightarrow> f e | Inr v \<Rightarrow> g v)"
  "(q = None \<Longrightarrow> well_reported x) \<Longrightarrow> (\<And>v. q = Some v \<Longrightarrow> well_reported (h v)) \<Longrightarrow>
     well_reported (case q of None \<Rightarrow> x | Some v \<Rightarrow> h v)"
  "(\<And>v w. r = (v, w) \<Longrightarrow> well_reported (k v w)) \<Longrightarrow> well_reported (case r of (v, w) \<Rightarrow> k v w)"
  by (simp_all split: sum.split option.split prod.split)

lemma vast_Deploy_reported:
  assumes "vast_sane w"
  shows "well_reported (vast_Deploy w (Some d) (Some i))"
proof -
  have rent: "rentEngine w k d cmd port disk = Inl e \<Longrightarrow> e \<noteq> []" for k cmd port disk e
    using assms by (auto simp: rentEngine_def vast_sane_def bindE_Inl_iff split: if_splits)
  have find: "findAnyOffer (vw_search w) a b names n disk r = Inl e \<Longrightarrow> e \<noteq> []" for a b names n disk r e
    using assms findAnyOffer_err [of "vw_search w" "[]"] by (auto simp: vast_sane_def)
  have starting: "well_reported (emit (progress_update DStarting ph msg) run)"
      "well_reported (emit ((progress_update DStarting ph msg)\<lparr>du_rate := x\<rparr>) run)" if "well_reported run" for ph msg x run
    using that by (intro well_reported_emit; simp add: progress_update_def isTerminalDeployState_def)+
  show ?thesis
    unfolding vast_Deploy_def Let_def prod.case option.case
    by (intro well_reported_cases starting vast_rented_reported well_reported_failed) (simp_all add: rent find)
qed

lemma runpod_Deploy_reported: "well_reported (runpod_Deploy hw w (Some d) (Some i))"
proof -
  have starting: "well_reported (emit (progress_update DStarting ph msg) run)" if "well_reported run" for ph msg run
    using that by (intro well_reported_emit) (simp_all add: progress_update_def isTerminalDeployState_def)
  show ?thesis
    unfolding runpod_Deploy_def prod.case option.case
    by (intro well_reported_cases starting runpod_created_reported well_reported_failedf)
qed

interpretation vast_deployer: image_deployer vast_Deploy vast_sane
  by unfold_locales (rule vast_Deploy_reported)

interpretation runpod_deployer: image_deployer "runpod_Deploy hw" "\<lambda>_. True" for hw
  by unfold_locales (rule runpod_Deploy_reported)

text \<open>
  C21: A deploy concludes once.  Whatever the provider, the engine and the clock answer, a deploy on
  either provider that returns has emitted exactly one concluding update and that one last: RUNNING
  with an endpoint if it succeeded, FAILED without one if it returned an error.
\<close>

theorem deploy_concludes_once:
  assumes "vast_Deploy w (Some d) (Some i) = (us, r) \<and> vast_sane w \<or> runpod_Deploy hw rw (Some d) (Some i) = (us, r)"
    and "r \<noteq> Deploying"
  shows "length (filter (\<lambda>u. isTerminalDeployState (du_state u)) us) = 1
     \<and> us \<noteq> [] \<and> du_state (last us) = (if r = DeployOK then DRunning else DFailed)
     \<and> (du_endpoint (last us) \<noteq> [] \<longleftrightarrow> r = DeployOK)"
  using assms vast_deployer.one_conclusion [of w d i us r] runpod_deployer.one_conclusion [of hw rw d i us r] by blast

subsection \<open>Successful deploys\<close>

text \<open>The updates of a success: two or one before the machine exists, its id, the wait, the end.\<close>

definition running_update :: "gostring \<Rightarrow> gostring \<Rightarrow> dupdate" where
  "running_update containerID endpoint =
     (progress_update DRunning ''engine:serving'' ''engine /health is 2xx'')\<lparr>du_container := containerID, du_endpoint := endpoint\<rparr>"

lemma conclude_ok:
  assumes "conclude failed ph cid waited = (us, DeployOK)" "\<And>p e. snd (failed p e) \<noteq> DeployOK"
  obtains us0 e where "waited = (us0, Some (WaitReady e))" "us = us0 @ [running_update cid e]"
proof -
  obtain us0 q where w: "waited = (us0, q)" by (cases waited)
  show thesis
  proof (cases q)
    case None
    then show thesis using assms(1) w by (simp add: conclude_def)
  next
    case (Some r)
    show thesis
    proof (cases r)
      case (WaitReady e)
      then show thesis using that assms(1) w Some by (simp add: conclude_def running_update_def)
    next
      case (WaitFailed ep e)
      then have "snd (failed ph (wait_error_text e)) = DeployOK"
        using assms(1) w Some by (auto simp: conclude_def split: prod.splits)
      then show thesis using assms(2) by blast
    qed
  qed
qed

lemma vast_Deploy_ok:
  assumes "vast_Deploy w (Some d) (Some i) = (us, DeployOK)"
  obtains f r q contract port us0 e where "us = [f, r, q] @ us0 @ [running_update (itoa contract) e]"
    "map du_phase [f, r, q] = [''vast:find-offer'', ''vast:rent'', vast_phaseScheduling]"
    "\<forall>u \<in> {f, r, q}. \<not> isTerminalDeployState (du_state u) \<and> du_endpoint u = []"
    "vast_waitForEngineReady w contract port = (us0, Some (WaitReady e))"
proof -
  obtain f r contract port us1 where 1: "us = f # r # us1" "vast_rented w contract port = (us1, DeployOK)"
    "du_phase f = ''vast:find-offer''" "du_phase r = ''vast:rent''"
    "\<forall>u \<in> {f, r}. \<not> isTerminalDeployState (du_state u) \<and> du_endpoint u = []"
    using assms unfolding vast_Deploy_def Let_def prod.case option.case
    by (cases "vast_rented w 0 0")
      (auto simp: emit_def deployFailed_def progress_update_def isTerminalDeployState_def prod_eq_iff
        split: if_splits sum.splits option.splits prod.splits)
  obtain us2 where 2: "us1 = (progress_update DConfiguring vast_phaseScheduling ''instance rented; waiting for the host to create the container'')
      \<lparr>du_container := itoa contract\<rparr> # us2"
      "conclude deployFailed ''vast:engine-ready'' (itoa contract) (vast_waitForEngineReady w contract port) = (us2, DeployOK)"
    using 1(2) by (auto simp: vast_rented_def emit_def prod_eq_iff)
  obtain us0 e where 3: "vast_waitForEngineReady w contract port = (us0, Some (WaitReady e))"
      "us2 = us0 @ [running_update (itoa contract) e]"
    by (rule conclude_ok [OF 2(2)]) (auto simp: deployFailed_def)
  show thesis
    by (rule that [OF _ _ _ 3(1)]) (use 1 2(1) 3(2) in \<open>auto simp: progress_update_def isTerminalDeployState_def\<close>)
qed

lemma runpod_Deploy_ok:
  assumes "runpod_Deploy hw w (Some d) (Some i) = (us, DeployOK)"
  obtains f q and created :: pod_created and us0 e where "us = [f, q] @ us0 @ [running_update (pc_id created) e]"
    "map du_phase [f, q] = [''runpod:create-pod'', runpod_phaseScheduling]"
    "\<forall>u \<in> {f, q}. \<not> isTerminalDeployState (du_state u) \<and> du_endpoint u = []"
    "runpod_waitForEngineReady w (pc_id created) (dep_engine_port d) = (us0, Some (WaitReady e))"
proof -
  obtain f created us1 where 1: "us = f # us1" "runpod_created w created (dep_engine_port d) = (us1, DeployOK)"
    "du_phase f = ''runpod:create-pod''" "\<not> isTerminalDeployState (du_state f) \<and> du_endpoint f = []"
    using assms unfolding runpod_Deploy_def prod.case option.case
    by (auto simp: emit_def failedf_def progress_update_def isTerminalDeployState_def prod_eq_iff
        split: if_splits sum.splits)
  obtain us2 where 2: "us1 = (progress_update DConfiguring ''runpod:scheduling'' ''pod created; waiting for engine /health via proxy URL'')
      \<lparr>du_container := pc_id created, du_rate := pc_cost created\<rparr> # us2"
      "conclude failedf ''runpod:engine-ready'' (pc_id created) (runpod_waitForEngineReady w (pc_id created) (dep_engine_port d)) = (us2, DeployOK)"
    using 1(2) by (auto simp: runpod_created_def emit_def prod_eq_iff)
  obtain us0 e where 3: "runpod_waitForEngineReady w (pc_id created) (dep_engine_port d) = (us0, Some (WaitReady e))"
      "us2 = us0 @ [running_update (pc_id created) e]"
    by (rule conclude_ok [OF 2(2)]) (auto simp: failedf_def)
  show thesis
    by (rule that [OF _ _ _ 3(1)])
      (use 1 2(1) 3(2) in \<open>auto simp: progress_update_def isTerminalDeployState_def runpod_phaseScheduling_def\<close>)
qed

text \<open>An answer of the health endpoint in the two hundreds.\<close>

fun ok_answer :: "probe_answer \<Rightarrow> bool" where
  "ok_answer (ProbeStatus code _) \<longleftrightarrow> 200 \<le> code \<and> code < 300"
| "ok_answer (ProbeError _) \<longleftrightarrow> False"

definition answered :: "'a poll list \<Rightarrow> gostring \<Rightarrow> bool" where
  "answered ps e \<longleftrightarrow> (\<exists>p \<in> set ps. ok_answer (pl_health p e) \<or> ok_answer (pl_again p e))"

lemma probes_answer:
  "fst (vast_probe e a) \<longleftrightarrow> ok_answer a" "fst (runpod_probe e a) \<longleftrightarrow> ok_answer a"
  by (auto simp: vast_probe_def runpod_probe_def httpProbeHealth_def go_quot_def split: probe_answer.splits if_splits)

lemma vast_wait_answered:
  "vast_waitForEngineReady w contract port = (us, Some (WaitReady e)) \<Longrightarrow> e \<noteq> [] \<and> answered (vw_polls w) e"
  unfolding vast_waitForEngineReady_def
  by (drule wait_ready_answered)
    (auto simp: answered_def poll_tick_def probes_answer(1) intro!: bexI [OF _ nth_mem])

lemma runpod_wait_answered:
  "runpod_waitForEngineReady w pod port = (us, Some (WaitReady e)) \<Longrightarrow> e \<noteq> [] \<and> answered (rw_polls w) e"
  unfolding runpod_waitForEngineReady_def Let_def
  by (drule wait_ready_answered)
    (auto simp: answered_def poll_tick_def probes_answer(2) intro!: bexI [OF _ nth_mem])

subsection \<open>From a rented machine to a routable member\<close>

definition patch_slot_all :: "gostring \<Rightarrow> gostring \<Rightarrow> dupdate list \<Rightarrow> state \<Rightarrow> state" where
  "patch_slot_all d k us st = fold (patchDeploymentSlot d k) us st"

lemma patch_silent:
  assumes "st_deployments st d = Some r1" "fresh_table ps r1" "\<forall>u \<in> set us. du_endpoint u = []"
  shows "\<exists>r2. st_deployments (patch_slot_all d k us st) d = Some r2 \<and> fresh_table ps r2"
  using assms
proof (induction us arbitrary: st r1)
  case (Cons u us)
  have "st_deployments (patchDeploymentSlot d k u st) d =
      Some (if MemberOf r1 k < 0 then r1 else slot_record k u (nat (MemberOf r1 k)) r1)"
    by (rule patchDeploymentSlot_deployment [OF Cons.prems(1)])
  moreover have "fresh_table ps (if MemberOf r1 k < 0 then r1 else slot_record k u (nat (MemberOf r1 k)) r1)"
    using Cons.prems(2,3) fresh_table_silent by auto
  ultimately show ?case using Cons.IH Cons.prems(3) by (simp add: patch_slot_all_def)
qed (auto simp: patch_slot_all_def)

text \<open>
  C20: From rent to route.  When a deploy on either provider succeeds for the first machine of a
  member of a freshly recorded slot table, the router offers exactly that machine once its updates
  are recorded, and the endpoint it sends requests to is one whose health check was answered.
\<close>

theorem deployed_member_routable:
  assumes "vast_Deploy w (Some dep) (Some m) = (us, DeployOK) \<or> runpod_Deploy hw rw (Some dep) (Some m) = (us, DeployOK)"
    and "st_deployments st d = Some rec" "dep_unhealthy rec = []"
    and "i < length ps" "mp_instances (ps ! i) \<noteq> []" "k = in_id (hd (mp_instances (ps ! i)))"
    and "\<forall>j < length ps. j \<noteq> i \<longrightarrow> k \<notin> set (member_ids (ps ! j))"
  shows "\<exists>rec' e. st_deployments (patch_slot_all d k us (recordCreateSlots d specs ps st)) d = Some rec'
    \<and> set (eligibleReplicas rec') = {\<lparr>r_instance = k, r_endpoint = e\<rparr>}
    \<and> (answered (vw_polls w) e \<or> answered (rw_polls rw) e)"
proof -
  obtain us0 c e where us: "us = us0 @ [running_update c e]" "\<forall>u \<in> set us0. du_endpoint u = []" "e \<noteq> []"
      "answered (vw_polls w) e \<or> answered (rw_polls rw) e"
  proof -
    consider "vast_Deploy w (Some dep) (Some m) = (us, DeployOK)" | "runpod_Deploy hw rw (Some dep) (Some m) = (us, DeployOK)"
      using assms(1) by blast
    then show thesis
    proof cases
      case 1
      from vast_Deploy_ok [OF 1] obtain f r q contract port us0 e where
        v: "us = [f, r, q] @ us0 @ [running_update (itoa contract) e]"
        "\<forall>u \<in> {f, r, q}. \<not> isTerminalDeployState (du_state u) \<and> du_endpoint u = []"
        "vast_waitForEngineReady w contract port = (us0, Some (WaitReady e))" .
      have "\<forall>u \<in> set us0. du_endpoint u = []"
        using Wait_updates v(3) unfolding vast_waitForEngineReady_def by (metis fst_conv)
      then show thesis using that [of "[f, r, q] @ us0"] v vast_wait_answered [OF v(3)] by auto
    next
      case 2
      from runpod_Deploy_ok [OF 2] obtain f q and created :: pod_created and us0 e where
        v: "us = [f, q] @ us0 @ [running_update (pc_id created) e]"
        "\<forall>u \<in> {f, q}. \<not> isTerminalDeployState (du_state u) \<and> du_endpoint u = []"
        "runpod_waitForEngineReady rw (pc_id created) (dep_engine_port dep) = (us0, Some (WaitReady e))" .
      have "\<forall>u \<in> set us0. du_endpoint u = []"
        using Wait_updates v(3) unfolding runpod_waitForEngineReady_def Let_def by (metis fst_conv)
      then show thesis using that [of "[f, q] @ us0"] v runpod_wait_answered [OF v(3)] by auto
    qed
  qed
  obtain r1 where r1: "st_deployments (recordCreateSlots d specs ps st) d = Some r1" "fresh_table ps r1"
    using recordCreateSlots_record [OF assms(2), of specs ps] assms(3) unfolding fresh_table_def by metis
  obtain r2 where r2: "st_deployments (patch_slot_all d k us0 (recordCreateSlots d specs ps st)) d = Some r2" "fresh_table ps r2"
    using patch_silent [OF r1 us(2)] by blast
  have e: "du_endpoint (running_update c e) = e" by (simp add: running_update_def)
  show ?thesis
    using fresh_table_routable [OF r2 assms(4,5), of "running_update c e"] assms(6,7) us(1,3,4)
    by (auto simp: e patch_slot_all_def)
qed

subsection \<open>Each phase is measured once\<close>

text \<open>The ladders of whole deploys: what precedes the wait, then the provider's rungs.\<close>

definition vast_deploy_ordinal :: "gostring \<Rightarrow> int" where
  "vast_deploy_ordinal p =
     (if p = ''vast:find-offer'' then 1 else if p = ''vast:rent'' then 2
      else if p \<in> set vast_rungs then 2 + vast_enginePhaseOrdinal p else 0)"

definition runpod_deploy_ordinal :: "gostring \<Rightarrow> int" where
  "runpod_deploy_ordinal p =
     (if p = ''runpod:create-pod'' then 1
      else if p \<in> set runpod_rungs then 1 + runpod_enginePhaseOrdinal p else 0)"

interpretation vast_deploy_ladder: phase_ladder vast_deploy_ordinal "[''vast:find-offer'', ''vast:rent''] @ vast_rungs"
  by unfold_locales (auto simp: vast_deploy_ordinal_def ladder_defs split: if_splits)

interpretation runpod_deploy_ladder: phase_ladder runpod_deploy_ordinal "''runpod:create-pod'' # runpod_rungs"
  by unfold_locales (auto simp: runpod_deploy_ordinal_def ladder_defs split: if_splits)

definition named_phases :: "dupdate list \<Rightarrow> gostring list" where
  "named_phases us = filter (\<lambda>p. p \<noteq> []) (map du_phase us)"

text \<open>The phases before the conclusion climb, from \<open>lo\<close> on.\<close>

definition climbs :: "(gostring \<Rightarrow> int) \<Rightarrow> int \<Rightarrow> deploy_run \<Rightarrow> bool" where
  "climbs ord lo run \<longleftrightarrow>
     snd run \<noteq> Deploying \<longrightarrow>
       fst run \<noteq> [] \<and> sorted (map ord (named_phases (butlast (fst run)))) \<and> (\<forall>p \<in> set (named_phases (butlast (fst run))). lo \<le> ord p)"

lemma climbs_emit:
  assumes "climbs ord (ord (du_phase u)) run" "lo \<le> ord (du_phase u)"
  shows "climbs ord lo (emit u run)"
  using assms by (fastforce simp: climbs_def emit_def named_phases_def)

lemma climbs_failed: "climbs ord lo (deployFailed phase err)" "climbs ord lo (failedf phase err)"
  by (simp_all add: climbs_def deployFailed_def failedf_def named_phases_def)

lemma climbs_cases:
  "(b \<Longrightarrow> climbs ord lo x) \<Longrightarrow> (\<not> b \<Longrightarrow> climbs ord lo y) \<Longrightarrow> climbs ord lo (if b then x else y)"
  "(\<And>e. s = Inl e \<Longrightarrow> climbs ord lo (f e)) \<Longrightarrow> (\<And>v. s = Inr v \<Longrightarrow> climbs ord lo (g v)) \<Longrightarrow>
     climbs ord lo (case s of Inl e \<Rightarrow> f e | Inr v \<Rightarrow> g v)"
  "(q = None \<Longrightarrow> climbs ord lo x) \<Longrightarrow> (\<And>v. q = Some v \<Longrightarrow> climbs ord lo (h v)) \<Longrightarrow>
     climbs ord lo (case q of None \<Rightarrow> x | Some v \<Rightarrow> h v)"
  "(\<And>v w. r = (v, w) \<Longrightarrow> climbs ord lo (k v w)) \<Longrightarrow> climbs ord lo (case r of (v, w) \<Rightarrow> k v w)"
  by (simp_all split: sum.split option.split prod.split)

lemma climbs_conclude:
  assumes "\<And>p e. \<exists>u. fst (failed p e) = [u]"
    and "sorted (map ord (named_phases (fst waited)))" "\<forall>p \<in> set (named_phases (fst waited)). lo \<le> ord p"
  shows "climbs ord lo (conclude failed ph cid waited)"
proof -
  obtain us q where w: "waited = (us, q)" by (cases waited)
  show ?thesis
  proof (cases q)
    case (Some r)
    show ?thesis
    proof (cases r)
      case (WaitFailed ep e)
      obtain u where "fst (failed ph (wait_error_text e)) = [u]" using assms(1) by blast
      then show ?thesis using assms(2,3) w Some WaitFailed
        by (cases "failed ph (wait_error_text e)") (simp add: climbs_def conclude_def)
    qed (use assms(2,3) w Some in \<open>simp add: climbs_def conclude_def\<close>)
  qed (use w in \<open>simp add: climbs_def conclude_def\<close>)
qed

lemma Wait_climbs:
  assumes "phase_ladder (wc_ordinal c) rungs" "\<forall>t \<in> set ts. \<forall>p. wo_fatal (tk_observe t p) = None \<longrightarrow> wo_phase (tk_observe t p) \<in> insert p (set rungs)"
    and "\<forall>p \<in> set rungs. ord p = k + wc_ordinal c p"
  shows "sorted (map ord (named_phases (fst (Wait c now started ts))))
     \<and> (\<forall>p \<in> set (named_phases (fst (Wait c now started ts))). k + 1 \<le> ord p)"
proof -
  let ?us = "fst (Wait c now started ts)"
  have l: "sorted (map (\<lambda>u. wc_ordinal c (du_phase u)) ?us)" "\<forall>u \<in> set ?us. du_phase u \<in> insert [] (set rungs)"
    using wait_loop_climbs [OF assms(2), of c started "now + wc_timeout c" "\<lparr>ws_endpoint = wc_endpoint c, ws_phase = [], ws_last = []\<rparr>"]
    by (simp_all add: Wait_def)
  have r: "set (named_phases ?us) \<subseteq> set rungs" using l(2) by (auto simp: named_phases_def)
  have "sorted (map (wc_ordinal c) (named_phases ?us))"
    unfolding named_phases_def using l(1) by (intro sorted_filter) (simp add: comp_def)
  then have "sorted_wrt (\<lambda>x y. wc_ordinal c x \<le> wc_ordinal c y) (named_phases ?us)" by (simp add: sorted_map)
  then have "sorted_wrt (\<lambda>x y. ord x \<le> ord y) (named_phases ?us)"
    using r assms(3) by (elim sorted_wrt_mono_rel [rotated]) (simp add: subset_iff)
  then have "sorted (map ord (named_phases ?us))" by (simp add: sorted_map)
  moreover have "k + 1 \<le> ord p" if "p \<in> set (named_phases ?us)" for p
    using that r assms(3) phase_ladder.rung_iff [OF assms(1), of p] by auto
  ultimately show ?thesis by blast
qed

lemma vast_observe_phase: "wo_fatal (vast_observe c port rd p) = None \<Longrightarrow> wo_phase (vast_observe c port rd p) \<in> set vast_rungs"
  by (auto simp: vast_observe_def vast_classifyEnginePhase_def vast_rungs_def Let_def split: sum.splits option.splits)

lemma runpod_observe_phase: "wo_phase (runpod_observe tr e rd p) \<in> insert p (set runpod_rungs)"
  by (auto simp: runpod_observe_def probeEnginePhase_def runpod_classifyEnginePhase_def runpod_rungs_def Let_def
      split: option.splits if_splits)

lemma vast_wait_climbs:
  "sorted (map vast_deploy_ordinal (named_phases (fst (vast_waitForEngineReady w contract port))))
   \<and> (\<forall>p \<in> set (named_phases (fst (vast_waitForEngineReady w contract port))). 3 \<le> vast_deploy_ordinal p)"
proof -
  have "sorted (map vast_deploy_ordinal (named_phases (fst (vast_waitForEngineReady w contract port))))
      \<and> (\<forall>p \<in> set (named_phases (fst (vast_waitForEngineReady w contract port))). 2 + 1 \<le> vast_deploy_ordinal p)"
    unfolding vast_waitForEngineReady_def
  proof (rule Wait_climbs [where rungs = vast_rungs])
    show "phase_ladder (wc_ordinal (vast_wait_config w contract)) vast_rungs"
      by (simp add: vast_wait_config_def vast_ladder.phase_ladder_axioms)
    show "\<forall>t \<in> set (map (poll_tick vast_probe (vast_observe contract port)) (vw_polls w)).
        \<forall>p. wo_fatal (tk_observe t p) = None \<longrightarrow> wo_phase (tk_observe t p) \<in> insert p (set vast_rungs)"
      by (simp add: poll_tick_def vast_observe_phase)
    show "\<forall>p \<in> set vast_rungs. vast_deploy_ordinal p = 2 + wc_ordinal (vast_wait_config w contract) p"
      by (simp add: vast_wait_config_def vast_deploy_ordinal_def ladder_defs)
  qed
  then show ?thesis by simp
qed

lemma runpod_wait_climbs:
  "sorted (map runpod_deploy_ordinal (named_phases (fst (runpod_waitForEngineReady w pod port))))
   \<and> (\<forall>p \<in> set (named_phases (fst (runpod_waitForEngineReady w pod port))). 2 \<le> runpod_deploy_ordinal p)"
proof -
  let ?port = "if port = 0 then 8000 else port"
  have "sorted (map runpod_deploy_ordinal (named_phases (fst (runpod_waitForEngineReady w pod port))))
      \<and> (\<forall>p \<in> set (named_phases (fst (runpod_waitForEngineReady w pod port))). 1 + 1 \<le> runpod_deploy_ordinal p)"
    unfolding runpod_waitForEngineReady_def Let_def
  proof (rule Wait_climbs [where rungs = runpod_rungs])
    show "phase_ladder (wc_ordinal (runpod_wait_config w pod ?port)) runpod_rungs"
      by (simp add: runpod_wait_config_def Let_def runpod_ladder.phase_ladder_axioms)
    show "\<forall>t \<in> set (map (poll_tick runpod_probe (runpod_observe (rw_trace w) (runpod_endpoint w pod ?port))) (rw_polls w)).
        \<forall>p. wo_fatal (tk_observe t p) = None \<longrightarrow> wo_phase (tk_observe t p) \<in> insert p (set runpod_rungs)"
      using runpod_observe_phase by (auto simp: poll_tick_def simp del: insert_iff)
    show "\<forall>p \<in> set runpod_rungs. runpod_deploy_ordinal p = 1 + wc_ordinal (runpod_wait_config w pod ?port) p"
      by (simp add: runpod_wait_config_def Let_def runpod_deploy_ordinal_def ladder_defs)
  qed
  then show ?thesis by simp
qed

lemma vast_Deploy_climbs: "climbs vast_deploy_ordinal 1 (vast_Deploy w (Some d) (Some i))"
proof -
  have ords: "vast_deploy_ordinal ''vast:find-offer'' = 1" "vast_deploy_ordinal ''vast:rent'' = 2"
      "vast_deploy_ordinal vast_phaseScheduling = 3"
    by (simp_all add: vast_deploy_ordinal_def ladder_defs)
  have wait: "climbs vast_deploy_ordinal 3 (conclude deployFailed ph cid (vast_waitForEngineReady w contract port))" for ph cid contract port
    using vast_wait_climbs by (intro climbs_conclude) (auto simp: deployFailed_def)
  have rented: "climbs vast_deploy_ordinal 2 (vast_rented w contract port)" for contract port
    unfolding vast_rented_def by (rule climbs_emit) (simp_all add: wait ords progress_update_def)
  have rent: "climbs vast_deploy_ordinal 1 (emit ((progress_update DStarting ''vast:rent'' m)\<lparr>du_rate := x\<rparr>) run)"
    if "climbs vast_deploy_ordinal 2 run" for m x run
    using that by (intro climbs_emit) (simp_all add: ords progress_update_def)
  have offer: "climbs vast_deploy_ordinal 1 (emit (progress_update DStarting ''vast:find-offer'' m) run)"
    if "climbs vast_deploy_ordinal 1 run" for m run
    using that by (intro climbs_emit) (simp_all add: ords progress_update_def)
  show ?thesis
    unfolding vast_Deploy_def Let_def prod.case option.case
    by (intro climbs_cases offer rent rented climbs_failed)
qed

lemma runpod_Deploy_climbs: "climbs runpod_deploy_ordinal 1 (runpod_Deploy hw w (Some d) (Some i))"
proof -
  have ords: "runpod_deploy_ordinal ''runpod:create-pod'' = 1" "runpod_deploy_ordinal ''runpod:scheduling'' = 2"
    by (simp_all add: runpod_deploy_ordinal_def ladder_defs)
  have wait: "climbs runpod_deploy_ordinal 2 (conclude failedf ph cid (runpod_waitForEngineReady w pod port))" for ph cid pod port
    using runpod_wait_climbs by (intro climbs_conclude) (auto simp: failedf_def)
  have created: "climbs runpod_deploy_ordinal 1 (runpod_created w created port)" for created port
    unfolding runpod_created_def by (rule climbs_emit) (simp_all add: wait ords progress_update_def)
  have pod: "climbs runpod_deploy_ordinal 1 (emit (progress_update DStarting ''runpod:create-pod'' m) run)"
    if "climbs runpod_deploy_ordinal 1 run" for m run
    using that by (intro climbs_emit) (simp_all add: ords progress_update_def)
  show ?thesis
    unfolding runpod_Deploy_def prod.case option.case
    by (intro climbs_cases pod created climbs_failed)
qed

lemma observe_terminal: "isTerminalDeployState (du_state u) \<Longrightarrow> seen_phases (observe now u ob) = seen_phases ob"
  by (simp add: observe_def closePhase_def seen_phases_def)

lemma observed_phases:
  assumes "us \<noteq> []" "\<forall>u \<in> set (butlast us). \<not> isTerminalDeployState (du_state u)" "isTerminalDeployState (du_state (last us))"
    and "length clock = length us"
  shows "map fst (ob_durations (fst (finish t1 kind err (observe_all (zip clock us) (newDeployObserver t0))))) =
    remdups_adj (named_phases (butlast us))"
proof -
  have us: "us = butlast us @ [last us]" using assms(1) by simp
  have ts: "clock = butlast clock @ [last clock]" using assms(1,4) by (metis append_butlast_last_id length_0_conv)
  have z: "zip clock us = zip (butlast clock) (butlast us) @ [(last clock, last us)]"
    by (subst us, subst ts, subst zip_append) (simp_all add: assms(4))
  let ?pre = "zip (butlast clock) (butlast us)"
  have "\<forall>(now, u) \<in> set ?pre. \<not> isTerminalDeployState (du_state u)"
    using assms(2) by (auto dest: set_zip_rightD)
  from observe_all_phases [OF this, of t0]
  have "seen_phases (observe_all ?pre (newDeployObserver t0)) = remdups_adj (filter (\<lambda>p. p \<noteq> []) (map (\<lambda>x. du_phase (snd x)) ?pre))"
    by blast
  moreover have "map (\<lambda>x. du_phase (snd x)) ?pre = map du_phase (butlast us)"
    using map_snd_zip [of "butlast clock" "butlast us"] assms(4) by (simp flip: map_map [of du_phase snd, unfolded comp_def])
  ultimately show ?thesis
    by (simp add: finish_phases z observe_all_def observe_terminal assms(3) named_phases_def)
qed

text \<open>
  A phase is measured at most once.  Whatever the provider answers, flaking or going back in its
  own account, the observer of a deploy that returns has recorded no phase twice, so every histogram
  gets one duration per phase and deploy.
\<close>

theorem deploy_phases_once:
  assumes "vast_Deploy w (Some d) (Some i) = (us, r) \<and> vast_sane w \<or> runpod_Deploy hw rw (Some d) (Some i) = (us, r)"
    and "r \<noteq> Deploying" "length clock = length us"
  shows "distinct (map fst (ob_durations (fst (finish t1 kind err (observe_all (zip clock us) (newDeployObserver t0))))))"
proof -
  have one: "well_reported (us, r)"
    using assms(1) vast_Deploy_reported [of w d i] runpod_Deploy_reported [of hw rw d i] by auto
  have climb: "climbs vast_deploy_ordinal 1 (us, r) \<or> climbs runpod_deploy_ordinal 1 (us, r)"
    using assms(1) vast_Deploy_climbs [of w d i] runpod_Deploy_climbs [of hw rw d i] by metis
  have "us \<noteq> []" "\<forall>u \<in> set (butlast us). \<not> isTerminalDeployState (du_state u)" "isTerminalDeployState (du_state (last us))"
    using one assms(2) by (auto simp: well_reported_def isTerminalDeployState_def split: deploy_result.splits)
  from observed_phases [OF this assms(3)]
  have obs: "map fst (ob_durations (fst (finish t1 kind err (observe_all (zip clock us) (newDeployObserver t0))))) =
      remdups_adj (named_phases (butlast us))" .
  from climb show ?thesis
  proof
    assume "climbs vast_deploy_ordinal 1 (us, r)"
    then have "sorted (map vast_deploy_ordinal (named_phases (butlast us)))" "\<forall>p \<in> set (named_phases (butlast us)). 0 < vast_deploy_ordinal p"
      using assms(2) by (force simp: climbs_def)+
    then show ?thesis unfolding obs
      by (intro vast_deploy_ladder.climbing_once subsetI vast_deploy_ladder.rung_iff [THEN iffD2]) blast+
  next
    assume "climbs runpod_deploy_ordinal 1 (us, r)"
    then have "sorted (map runpod_deploy_ordinal (named_phases (butlast us)))" "\<forall>p \<in> set (named_phases (butlast us)). 0 < runpod_deploy_ordinal p"
      using assms(2) by (force simp: climbs_def)+
    then show ?thesis unfolding obs
      by (intro runpod_deploy_ladder.climbing_once subsetI runpod_deploy_ladder.rung_iff [THEN iffD2]) blast+
  qed
qed

subsection \<open>One command line\<close>

text \<open>
  Both providers start the same engine.  The shell on a Vast machine reads the line after its
  exec as the operator's entrypoint followed by exactly the arguments that a RunPod container gets
  as its command, whatever characters the model name and the arguments contain.
\<close>

theorem engines_start_alike:
  assumes "buildEnginePodRequest rw d i hw = Inr req" "port = (if dep_engine_port d = 0 then 8000 else dep_engine_port d)"
  shows "\<exists>line. rt_onstart (rent_request w d cmd port disk) = vast_agentPrelude w d @ ''exec '' @ line
     \<and> sh_words None line = Some (cmd @ pq_start_cmd req)"
  using assms sh_words_shJoin [of "cmd @ pq_start_cmd req"]
  by (auto simp: rent_request_def onstartScript_def buildEnginePodRequest_def bindE_Inr_iff Let_def engine_argv_def)

subsection \<open>A sample deploy\<close>

definition sample_poll :: "'a \<Rightarrow> int \<Rightarrow> 'a poll" where
  "sample_poll st code =
     \<lparr>pl_status = st, pl_health = (\<lambda>_. ProbeStatus code ''status''), pl_again = (\<lambda>_. ProbeStatus code ''status''),
      pl_emit_at = 0, pl_done = None, pl_after = 0\<rparr>"

definition sample_runpod :: "int list \<Rightarrow> runpod_world" where
  "sample_runpod codes =
     \<lparr>rw_engine_timeout = 600 * second, rw_ssh_timeout = 0, rw_interval = 0, rw_proxy_base = [], rw_trace = False,
      rw_create = (\<lambda>_. Inr \<lparr>pc_id = ''p1'', pc_cost = 2\<rparr>), rw_env = Map.empty, rw_version = ''dev'', rw_now = 0, rw_started = 0,
      rw_polls = map (sample_poll \<lparr>rd_pod = None, rd_runtime = None\<rparr>) codes\<rparr>"

definition sample_dep :: deployment where
  "sample_dep = zero_deployment\<lparr>dep_id := ''d'', dep_image := ''vllm'', dep_model := ''m'', dep_engine_args := [''--seed'', ''1'']\<rparr>"

definition sample_hw :: "gostring \<times> int" where "sample_hw = (''NVIDIA L4'', 1)"

lemma sample_request:
  "\<exists>req. buildEnginePodRequest (sample_runpod codes) sample_dep i sample_hw = Inr req
     \<and> pq_start_cmd req = [''--model'', ''m'', ''--host'', ''0.0.0.0'', ''--port'', itoa 8000, ''--seed'', ''1''] \<and> pq_name req = ''iplane-engine-d''"
  by (simp add: buildEnginePodRequest_def engine_skus_def sample_hw_def sample_dep_def zero_deployment_def engine_argv_def Let_def)

lemma sample_runs:
  "\<exists>us. runpod_Deploy sample_hw (sample_runpod [502, 200]) (Some sample_dep) (Some i) = (us, DeployOK) \<and> length us = 4"
proof -
  obtain req where r: "buildEnginePodRequest (sample_runpod [502, 200]) sample_dep i sample_hw = Inr req"
    using sample_request by blast
  have ne: "proxyEndpointForPod x y \<noteq> []" for x y by (simp add: proxyEndpointForPod_def)
  have w: "\<exists>u. runpod_waitForEngineReady (sample_runpod [502, 200]) ''p1'' 0 = ([u], Some (WaitReady (proxyEndpointForPod ''p1'' 8000)))"
    by (simp add: runpod_waitForEngineReady_def Wait_def runpod_wait_config_def runpod_endpoint_def sample_runpod_def sample_poll_def
        poll_tick_def wait_tick_def runpod_probe_def httpProbeHealth_def go_quot_def runpod_observe_def probeEnginePhase_def ne Let_def
        runpod_enginePhaseOrdinal_def split: prod.splits)
  then show ?thesis
    using r by (auto simp: runpod_Deploy_def runpod_created_def conclude_def emit_def sample_runpod_def sample_dep_def zero_deployment_def)
qed

theorem deploy_concludes_once_witness:
  "\<exists>us. runpod_Deploy sample_hw (sample_runpod [502, 200]) (Some sample_dep) (Some sample_instance) = (us, DeployOK)
     \<and> du_state (last us) = DRunning"
proof -
  obtain us where "runpod_Deploy sample_hw (sample_runpod [502, 200]) (Some sample_dep) (Some sample_instance) = (us, DeployOK)"
    using sample_runs by blast
  then show ?thesis using deploy_concludes_once [of _ sample_dep sample_instance us DeployOK sample_hw "sample_runpod [502, 200]"] by simp
qed

theorem deploy_phases_once_witness:
  "\<exists>us. runpod_Deploy sample_hw (sample_runpod [502, 200]) (Some sample_dep) (Some sample_instance) = (us, DeployOK)
     \<and> distinct (map fst (ob_durations (fst (finish 40 DeployProvision None (observe_all (zip [0, 10, 20, 30] us) (newDeployObserver 0))))))"
proof -
  obtain us where "runpod_Deploy sample_hw (sample_runpod [502, 200]) (Some sample_dep) (Some sample_instance) = (us, DeployOK)"
      "length us = 4"
    using sample_runs by blast
  then show ?thesis
    using deploy_phases_once [of _ sample_dep sample_instance us DeployOK sample_hw "sample_runpod [502, 200]" "[0, 10, 20, 30]"] by simp
qed

definition sample_vast :: vast_world where
  "sample_vast =
     \<lparr>vw_min_inet = 0, vw_min_reliability = 0, vw_timeout = 0, vw_interval = 0, vw_search = (\<lambda>_. Inr []),
      vw_rent = (\<lambda>_ _. Inl ''gone''), vw_env = Map.empty, vw_version = ''dev'', vw_floors_hint = [], vw_now = 0, vw_started = 0,
      vw_polls = [], vw_logs = []\<rparr>"

theorem deployed_member_routable_witness:
  "\<exists>us rec' e. runpod_Deploy sample_hw (sample_runpod [502, 200]) (Some sample_dep) (Some sample_instance) = (us, DeployOK)
     \<and> st_deployments (patch_slot_all ''d'' ''d'' us (recordCreateSlots ''d'' [] [\<lparr>mp_instances = [sample_instance], mp_err = None\<rparr>] sample_state)) ''d'' = Some rec'
     \<and> set (eligibleReplicas rec') = {\<lparr>r_instance = ''d'', r_endpoint = e\<rparr>}"
proof -
  obtain us where us: "runpod_Deploy sample_hw (sample_runpod [502, 200]) (Some sample_dep) (Some sample_instance) = (us, DeployOK)"
    using sample_runs by blast
  have st: "st_deployments sample_state ''d'' = Some sample_single" "dep_unhealthy sample_single = []" "in_id sample_instance = ''d''"
    by (simp_all add: sample_state_def sample_single_def zero_deployment_def sample_instance_def)
  let ?ps = "[\<lparr>mp_instances = [sample_instance], mp_err = None\<rparr>]"
  have "\<exists>rec' e. st_deployments (patch_slot_all ''d'' ''d'' us (recordCreateSlots ''d'' [] ?ps sample_state)) ''d'' = Some rec'
      \<and> set (eligibleReplicas rec') = {\<lparr>r_instance = ''d'', r_endpoint = e\<rparr>}
      \<and> (answered (vw_polls sample_vast) e \<or> answered (rw_polls (sample_runpod [502, 200])) e)"
    by (rule deployed_member_routable [OF disjI2 [OF us] st(1,2), of 0 ?ps]) (simp_all add: st(3))
  then show ?thesis using us by blast
qed

theorem engines_start_alike_witness:
  "\<exists>line. rt_onstart (rent_request sample_vast sample_dep [''python3''] 8000 40) = vast_agentPrelude sample_vast sample_dep @ ''exec '' @ line
     \<and> sh_words None line = Some ([''python3'', ''--model'', ''m'', ''--host'', ''0.0.0.0'', ''--port'', itoa 8000, ''--seed'', ''1''])"
proof -
  obtain req where r: "buildEnginePodRequest (sample_runpod []) sample_dep sample_instance sample_hw = Inr req"
      "pq_start_cmd req = [''--model'', ''m'', ''--host'', ''0.0.0.0'', ''--port'', itoa 8000, ''--seed'', ''1'']"
    using sample_request by blast
  have "8000 = (if dep_engine_port sample_dep = 0 then 8000 else dep_engine_port sample_dep)"
    by (simp add: sample_dep_def zero_deployment_def)
  from engines_start_alike [OF r(1) this, of sample_vast "[''python3'']" 40] r(2) show ?thesis by simp
qed

text \<open>Waits.\<close>

definition sample_wait_config :: wait_config where
  "sample_wait_config = runpod_wait_config (sample_runpod []) ''p1'' 8000"

theorem wait_ready_answered_witness:
  "\<exists>us. runpod_waitForEngineReady (sample_runpod [502, 200]) ''p1'' 0 = (us, Some (WaitReady (proxyEndpointForPod ''p1'' 8000)))
     \<and> proxyEndpointForPod ''p1'' 8000 \<noteq> [] \<and> length us < 2"
proof -
  let ?ts = "map (poll_tick runpod_probe (runpod_observe False (proxyEndpointForPod ''p1'' 8000))) (rw_polls (sample_runpod [502, 200]))"
  have ne: "proxyEndpointForPod x y \<noteq> []" for x y by (simp add: proxyEndpointForPod_def)
  obtain us where us: "runpod_waitForEngineReady (sample_runpod [502, 200]) ''p1'' 0 = (us, Some (WaitReady (proxyEndpointForPod ''p1'' 8000)))"
    by (simp add: runpod_waitForEngineReady_def Wait_def runpod_wait_config_def runpod_endpoint_def sample_runpod_def sample_poll_def
        poll_tick_def wait_tick_def runpod_probe_def httpProbeHealth_def go_quot_def runpod_observe_def probeEnginePhase_def ne Let_def
        runpod_enginePhaseOrdinal_def split: prod.splits)
  then have "Wait (runpod_wait_config (sample_runpod [502, 200]) ''p1'' 8000) 0 0 ?ts = (us, Some (WaitReady (proxyEndpointForPod ''p1'' 8000)))"
    by (simp add: runpod_waitForEngineReady_def runpod_endpoint_def sample_runpod_def Let_def)
  from wait_ready_answered [OF this] us show ?thesis by (simp add: sample_runpod_def)
qed

theorem wait_ends_witness:
  "\<exists>us r. Wait (sample_wait_config\<lparr>wc_timeout := 4 * second\<rparr>) 0 0
     [\<lparr>tk_probe = (\<lambda>_. (False, [])), tk_observe = (\<lambda>p. \<lparr>wo_endpoint = [], wo_phase = p, wo_detail = [], wo_ssh = None, wo_fatal = None\<rparr>),
       tk_reprobe = (\<lambda>_. (False, [])), tk_emit_at = 0, tk_done = None, tk_after = 5 * second\<rparr>] = (us, Some r)"
  by (rule wait_ends) (simp_all add: poll_interval_def sample_wait_config_def runpod_wait_config_def sample_runpod_def)

end
