(* ===== verification/Rented_Machines.thy ===== *)
theory Rented_Machines
imports Image_Deployers
begin

text \<open>
  What becomes of a machine once a provider has rented it: the record of the instance names it, and
  the listing by which the service recovers records it lost.
\<close>

subsection \<open>No machine is forgotten\<close>

lemma slot_instance_keeps: "in_provider_id i \<noteq> [] \<Longrightarrow> in_provider_id (fold slot_instance us i) = in_provider_id i"
proof (induction us arbitrary: i)
  case (Cons u us)
  have "in_provider_id (slot_instance u i) = in_provider_id i"
    using Cons.prems by (auto simp: slot_instance_def Let_def split: option.split)
  then show ?case using Cons by simp
qed simp

lemma slot_instance_first:
  assumes "in_provider_id i = []" "\<forall>u \<in> set us. du_container u = []" "du_container q \<noteq> []"
  shows "in_provider_id (fold slot_instance (us @ q # vs) i) = du_container q"
  using assms
proof (induction us arbitrary: i)
  case Nil
  then have "in_provider_id (slot_instance q i) = du_container q" by (auto simp: slot_instance_def Let_def split: option.split)
  then show ?case using Nil slot_instance_keeps by simp
next
  case (Cons u us)
  then have "in_provider_id (slot_instance u i) = []" by (auto simp: slot_instance_def Let_def split: option.split)
  then show ?case using Cons by simp
qed

lemma itoa_nonempty: "itoa n \<noteq> []"
  by (simp add: itoa_def dec_nonempty)

text \<open>How a deploy that got as far as a machine begins, and which machine it is.\<close>

lemma vast_Deploy_rented:
  assumes "vast_Deploy w (Some d) (Some m) = (us, res)" "du_phase (last us) \<notin> {''validate'', ''vast:find-offer'', ''vast:rent''}"
  shows "\<exists>f r q vs k body resp. us = [f, r] @ q # vs \<and> du_container f = [] \<and> du_container r = [] \<and> du_container q = itoa (rr_contract resp)
     \<and> vw_rent w k body = Inr resp \<and> rr_success resp \<and> rr_contract resp \<noteq> 0"
proof -
  have failed: "du_phase (last (x # y # fst (deployFailed ph e))) = ph" "du_phase (last (x # fst (deployFailed ph e))) = ph"
      "du_phase (last (fst (deployFailed ph e))) = ph" for x y ph e
    by (simp_all add: deployFailed_def failure_update_def progress_update_def)
  obtain f r us1 k cmd port disk resp where 1: "us = f # r # us1" "vast_rented w (rr_contract resp) port = (us1, res)"
    "du_container f = []" "du_container r = []" "rentEngine w k d cmd port disk = Inr resp"
    using assms unfolding vast_Deploy_def Let_def prod.case option.case
    by (auto simp: emit_def progress_update_def prod_eq_iff failed
        split: if_splits sum.splits option.splits prod.splits)
  have 2: "vw_rent w k (rent_request w d cmd port disk) = Inr resp" "rr_success resp" "rr_contract resp \<noteq> 0"
    using 1(5) by (auto simp: rentEngine_def bindE_Inr_iff split: if_splits)
  have "\<exists>q vs. us1 = q # vs \<and> du_container q = itoa (rr_contract resp)"
    using 1(2) by (auto simp: vast_rented_def emit_def prod_eq_iff)
  then show ?thesis using 1(1,3,4) 2 by auto
qed

lemma runpod_Deploy_rented:
  assumes "runpod_Deploy hw w (Some d) (Some m) = (us, res)" "du_phase (last us) \<notin> {''validate'', ''runpod:create-pod''}"
  shows "\<exists>f q vs req (created :: pod_created). us = [f] @ q # vs \<and> du_container f = [] \<and> du_container q = pc_id created
     \<and> rw_create w req = Inr created \<and> pc_id created \<noteq> []"
proof -
  have failed: "du_phase (last (x # fst (failedf ph e))) = ph" "du_phase (last (fst (failedf ph e))) = ph" for x ph e
    by (simp_all add: failedf_def failure_update_def progress_update_def)
  obtain f us1 req created where 1: "us = f # us1" "du_container f = []" "rw_create w req = Inr created" "pc_id created \<noteq> []"
      "us1 = fst (runpod_created w created (dep_engine_port d))"
    using assms unfolding runpod_Deploy_def prod.case option.case
    by (auto simp: emit_def progress_update_def prod_eq_iff failed split: if_splits sum.splits)
  have "\<exists>q vs. us1 = q # vs \<and> du_container q = pc_id created"
    using 1(5) by (auto simp: runpod_created_def emit_def)
  then show ?thesis using 1(1-4) by auto
qed

text \<open>
  C22: A rented machine is recorded where nothing is recorded yet.  Once the provider has rented a
  machine, the updates put that machine's id on an instance record that names no machine, however the
  deploy ends and even while it still waits, so a later destroy can reach it.  A record that already
  names a machine keeps it, and the new machine is not recorded (\<open>recreated_pod_unrecorded\<close>).
\<close>

theorem rented_machine_recorded:
  assumes "vast_Deploy w (Some d) (Some m) = (us, res) \<and> du_phase (last us) \<notin> {''validate'', ''vast:find-offer'', ''vast:rent''}
       \<or> runpod_Deploy hw rw (Some d) (Some m) = (us, res) \<and> du_phase (last us) \<notin> {''validate'', ''runpod:create-pod''}"
  shows "\<exists>machine. machine \<noteq> []
     \<and> (vast_Deploy w (Some d) (Some m) = (us, res)
          \<and> (\<exists>k body resp. vw_rent w k body = Inr resp \<and> rr_success resp \<and> machine = itoa (rr_contract resp))
       \<or> runpod_Deploy hw rw (Some d) (Some m) = (us, res)
          \<and> (\<exists>req created. rw_create rw req = Inr created \<and> machine = pc_id created))
     \<and> in_provider_id (fold slot_instance us i) = (if in_provider_id i = [] then machine else in_provider_id i)"
  using assms
proof (elim disjE conjE)
  assume d: "vast_Deploy w (Some d) (Some m) = (us, res)" "du_phase (last us) \<notin> {''validate'', ''vast:find-offer'', ''vast:rent''}"
  then obtain f r q vs k body resp where v: "us = [f, r] @ q # vs" "du_container f = []" "du_container r = []"
      "du_container q = itoa (rr_contract resp)" "vw_rent w k body = Inr resp" "rr_success resp"
    using vast_Deploy_rented by blast
  show ?thesis
    using d(1) v slot_instance_first [of i "[f, r]" q vs] slot_instance_keeps [of i us] itoa_nonempty
    by (intro exI [of _ "itoa (rr_contract resp)"] conjI disjI1) auto
next
  assume d: "runpod_Deploy hw rw (Some d) (Some m) = (us, res)" "du_phase (last us) \<notin> {''validate'', ''runpod:create-pod''}"
  then obtain f q vs req and created :: pod_created where v: "us = [f] @ q # vs" "du_container f = []" "du_container q = pc_id created"
      "rw_create rw req = Inr created" "pc_id created \<noteq> []"
    using runpod_Deploy_rented by blast
  show ?thesis
    using d(1) v slot_instance_first [of i "[f]" q vs] slot_instance_keeps [of i us]
    by (intro exI [of _ "pc_id created"] conjI disjI2) auto
qed

theorem rented_machine_recorded_witness:
  "\<exists>us. runpod_Deploy sample_hw (sample_runpod [502, 200]) (Some sample_dep) (Some sample_instance) = (us, DeployOK)
     \<and> in_provider_id (fold slot_instance us (sample_instance\<lparr>in_provider_id := []\<rparr>)) = ''p1''"
proof -
  obtain us where us: "runpod_Deploy sample_hw (sample_runpod [502, 200]) (Some sample_dep) (Some sample_instance) = (us, DeployOK)"
    using sample_runs by blast
  have "du_phase (last us) = ''engine:serving''"
    by (rule runpod_Deploy_ok [OF us]) (simp add: running_update_def progress_update_def)
  then have "du_phase (last us) \<notin> {''validate'', ''runpod:create-pod''}" by simp
  note passed = disjI2 [OF conjI [OF us this]]
  have calls: "vw_rent sample_vast k body = Inl ''gone''" "rw_create (sample_runpod cs) req = Inr \<lparr>pc_id = ''p1'', pc_cost = 2\<rparr>"
    for k body cs req by (simp_all add: sample_vast_def sample_runpod_def)
  from rented_machine_recorded [OF passed, of sample_vast "sample_instance\<lparr>in_provider_id := []\<rparr>"]
  have "in_provider_id (fold slot_instance us (sample_instance\<lparr>in_provider_id := []\<rparr>)) = ''p1''"
    unfolding calls by auto
  then show ?thesis using us by blast
qed

end
