(* ===== verification/Provider_Adapters.thy ===== *)
theory Provider_Adapters
imports Rented_Machines
begin

text \<open>
  The adapters that rent machines (\<^verbatim>\<open>vast/vast.go\<close>, \<^verbatim>\<open>runpod/runpod.go\<close>,
  \<^verbatim>\<open>lambdalabs/lambdalabs.go\<close> and the three \<^verbatim>\<open>rest.go\<close>) as providers of the instance service:
  renting, describing, listing and releasing one machine, with the vendor's answers as parameters.
  The listing contract the service's healing and adoption rest on is the locale \<open>instance_lister\<close>.
\<close>

subsection \<open>Errors of a call\<close>

text \<open>
  A failed call: an answer whose status is not a success, with its body, or a failure before there
  was an answer.  \<open>decode\<close> and \<open>decode_list\<close> are \<^verbatim>\<open>encoding/json\<close> on an object and on an
  array of objects.
\<close>

datatype call_failure = HTTPFailure int gostring | TransportFailure gostring

record error_body =
  eb_code :: gostring
  eb_error :: gostring
  eb_msg :: gostring
  eb_message :: gostring
  eb_problems :: "gostring list"

type_synonym decode = "gostring \<Rightarrow> error_body option"

definition ErrNotFound :: gostring where "ErrNotFound = ''provider: instance not found''"

definition ProviderError_Error :: "gostring \<Rightarrow> gostring \<Rightarrow> gostring \<Rightarrow> int \<Rightarrow> gostring" where
  "ProviderError_Error prov op cause http =
     (if http \<noteq> 0 then ''provider '' @ prov @ '': '' @ op @ '' failed (http '' @ itoa http @ ''): '' @ cause
      else ''provider '' @ prov @ '': '' @ op @ '' failed: '' @ cause)"

text \<open>An error without \<^verbatim>\<open>ErrNotFound\<close> in its chain.\<close>

definition NewProviderError :: "gostring \<Rightarrow> gostring \<Rightarrow> gostring \<Rightarrow> provider_error" where
  "NewProviderError prov op cause = PError (ProviderError_Error prov op cause 0)"

definition vast_parseErrorMessage :: "decode \<Rightarrow> gostring \<Rightarrow> gostring" where
  "vast_parseErrorMessage decode body =
     (case decode body of
        Some e \<Rightarrow>
          if eb_msg e \<noteq> [] then eb_msg e
          else if eb_message e \<noteq> [] then eb_message e
          else if eb_error e \<noteq> [] then eb_error e
          else trim_space body
      | None \<Rightarrow> trim_space body)"

definition render_error :: "error_body \<Rightarrow> gostring" where
  "render_error e =
     (if eb_problems e \<noteq> [] then join_with ''; '' (eb_problems e)
      else if eb_error e \<noteq> [] then eb_error e else eb_message e)"

definition runpod_parseErrorMessage :: "decode \<Rightarrow> (gostring \<Rightarrow> error_body list option) \<Rightarrow> gostring \<Rightarrow> gostring" where
  "runpod_parseErrorMessage decode decode_list body =
     (let single = (case decode body of Some e \<Rightarrow> render_error e | None \<Rightarrow> []) in
      if single \<noteq> [] then single
      else case decode_list body of
        Some es \<Rightarrow>
          (let parts = filter (\<lambda>m. m \<noteq> []) (map render_error es) in
           if parts \<noteq> [] then join_with ''; '' parts else body)
      | None \<Rightarrow> body)"

definition lambda_parseErrorBody :: "decode \<Rightarrow> gostring \<Rightarrow> gostring \<times> gostring" where
  "lambda_parseErrorBody decode body =
     (case decode body of
        Some e \<Rightarrow> if eb_message e \<noteq> [] then (eb_message e, eb_code e) else (trim_space body, [])
      | None \<Rightarrow> (trim_space body, []))"

text \<open>What the three \<^verbatim>\<open>wrapErr\<close> share: the cause of a status, and the error around it.\<close>

definition wrap_status :: "gostring \<Rightarrow> gostring \<Rightarrow> bool \<Rightarrow> gostring \<Rightarrow> int \<Rightarrow> provider_error" where
  "wrap_status prov op absent msg code =
     (if absent then PNotFound (ProviderError_Error prov op (msg @ '': '' @ ErrNotFound) code)
      else PError (ProviderError_Error prov op (if code = 401 \<or> code = 403 then ''auth failed: '' @ msg else msg) code))"

definition vast_wrapErr :: "decode \<Rightarrow> gostring \<Rightarrow> call_failure \<Rightarrow> provider_error" where
  "vast_wrapErr decode op err =
     (case err of
        HTTPFailure code body \<Rightarrow> wrap_status ''vast'' op (code = 404) (vast_parseErrorMessage decode body) code
      | TransportFailure t \<Rightarrow> NewProviderError ''vast'' op t)"

definition runpod_wrapErr :: "decode \<Rightarrow> (gostring \<Rightarrow> error_body list option) \<Rightarrow> gostring \<Rightarrow> call_failure \<Rightarrow> provider_error" where
  "runpod_wrapErr decode decode_list op err =
     (case err of
        HTTPFailure code body \<Rightarrow> wrap_status ''runpod'' op (code = 404) (runpod_parseErrorMessage decode decode_list body) code
      | TransportFailure t \<Rightarrow> NewProviderError ''runpod'' op t)"

definition lambda_wrapErr :: "decode \<Rightarrow> gostring \<Rightarrow> call_failure \<Rightarrow> provider_error" where
  "lambda_wrapErr decode op err =
     (case err of
        HTTPFailure code body \<Rightarrow>
          (case lambda_parseErrorBody decode body of
             (msg, c) \<Rightarrow> wrap_status ''lambdalabs'' op (code = 404 \<or> c = ''global/object-does-not-exist'') msg code)
      | TransportFailure t \<Rightarrow> NewProviderError ''lambdalabs'' op t)"

text \<open>Releasing what is already gone succeeds; any other failure surfaces.\<close>

definition released :: "(call_failure \<Rightarrow> provider_error) \<Rightarrow> call_failure option \<Rightarrow> gostring option" where
  "released wrap answer =
     (case answer of
        None \<Rightarrow> None
      | Some err \<Rightarrow> (case wrap err of PNotFound _ \<Rightarrow> None | PError t \<Rightarrow> Some t))"

subsection \<open>Machines\<close>

record machine_hw =
  hw_gpu_sku :: gostring
  hw_gpu_count :: int
  hw_vram_mb :: int
  hw_vcpus :: int
  hw_cpu_model :: gostring
  hw_cpu_ram_mb :: int
  hw_disk_mb :: int
  hw_fabric :: fabric_result

record resource_usage =
  ru_disk_used :: int
  ru_gpu_util :: rat
  ru_network_rx :: int

record machine = inst +
  mc_hardware :: machine_hw
  mc_usage :: "resource_usage option"

definition bare_hw :: "gostring \<Rightarrow> int \<Rightarrow> machine_hw" where
  "bare_hw sku n =
     \<lparr>hw_gpu_sku = sku, hw_gpu_count = wrap32 n, hw_vram_mb = 0, hw_vcpus = 0, hw_cpu_model = [], hw_cpu_ram_mb = 0,
      hw_disk_mb = 0, hw_fabric = unknown_fabric\<rparr>"

definition family_of :: "('a \<Rightarrow> gpu_family) \<Rightarrow> 'a option \<Rightarrow> gpu_family" where
  "family_of f row = (case row of None \<Rightarrow> FamilyUnknown | Some s \<Rightarrow> f s)"

text \<open>\<^verbatim>\<open>fabric.Stamp\<close>.\<close>

definition Stamp :: "fabric_observation \<Rightarrow> machine_hw \<Rightarrow> machine_hw" where
  "Stamp obs hw = hw\<lparr>hw_fabric := Resolve obs\<rparr>"

definition declared :: "gpu_family \<Rightarrow> fabric_observation" where
  "declared f = \<lparr>fo_family = f, fo_measured = 0, fo_has_measurement = False\<rparr>"

definition vast_observation :: "gostring \<Rightarrow> rat option \<Rightarrow> fabric_observation" where
  "vast_observation gpuName bwNvlink =
     (let obs = declared (family_of vs_family (vast_LookupSKU gpuName)) in
      case bwNvlink of
        None \<Rightarrow> obs
      | Some bw \<Rightarrow> obs\<lparr>fo_has_measurement := True, fo_measured := GbpsFromGBps bw\<rparr>)"

definition vast_stampFabric :: "gostring \<Rightarrow> rat option \<Rightarrow> machine_hw \<Rightarrow> machine_hw" where
  "vast_stampFabric gpuName bwNvlink hw = Stamp (vast_observation gpuName bwNvlink) hw"

definition runpod_stampFabric :: "gostring \<Rightarrow> machine_hw \<Rightarrow> machine_hw" where
  "runpod_stampFabric gpuTypeID hw = Stamp (declared (family_of rp_family (runpod_LookupSKU gpuTypeID))) hw"

definition lambda_stampFabric :: "gostring \<Rightarrow> machine_hw \<Rightarrow> machine_hw" where
  "lambda_stampFabric typeName hw = Stamp (declared (family_of ll_family (lambda_LookupSKU typeName))) hw"

text \<open>\<^verbatim>\<open>strings.TrimPrefix\<close>, and the tag of a machine named by the control plane.\<close>

definition trim_prefix :: "gostring \<Rightarrow> gostring \<Rightarrow> gostring" where
  "trim_prefix s p = (case cut_prefix s p of None \<Rightarrow> s | Some t \<Rightarrow> t)"

definition name_tags :: "gostring \<Rightarrow> gostring \<rightharpoonup> gostring" where
  "name_tags name = (case cut_prefix name ''iplane-'' of Some k \<Rightarrow> if k \<noteq> [] then [TagID \<mapsto> k] else Map.empty | None \<Rightarrow> Map.empty)"

text \<open>Metadata entries that say nothing are dropped.\<close>

definition meta_entry :: "gostring \<Rightarrow> bool \<Rightarrow> meta_value \<Rightarrow> (gostring \<rightharpoonup> meta_value) \<Rightarrow> gostring \<rightharpoonup> meta_value" where
  "meta_entry k b v m = (if b then m(k \<mapsto> v) else m)"

definition TagsOnly :: "(gostring \<times> gostring) list \<Rightarrow> gostring list \<Rightarrow> (gostring \<times> gostring) list" where
  "TagsOnly flt adapterKeys = filter (\<lambda>(k, _). k \<notin> set adapterKeys) flt"

text \<open>Reading a key of a filter that may not have it.\<close>

definition filter_get :: "(gostring \<times> gostring) list \<Rightarrow> gostring \<Rightarrow> gostring" where
  "filter_get flt k = tag_get (map_of flt) k"

definition by_name :: "(gostring \<times> gostring) list \<Rightarrow> gostring \<Rightarrow> gostring \<Rightarrow> bool" where
  "by_name flt key name \<longleftrightarrow> (let prefix = filter_get flt key in prefix \<noteq> [] \<longrightarrow> has_prefix name prefix)"

subsection \<open>Vast\<close>

record vast_instance = vast_api +
  vi_id :: int
  vi_label :: gostring
  vi_gpu_name :: gostring
  vi_num_gpus :: int
  vi_gpu_ram :: int
  vi_country :: gostring
  vi_geolocation :: gostring
  vi_dph :: rat
  vi_cpu_name :: gostring
  vi_cpu_cores :: int
  vi_cpu_ram :: int
  vi_disk_space :: rat
  vi_disk_usage :: rat
  vi_gpu_util :: rat
  vi_inet_billed :: rat
  vi_host_id :: int
  vi_machine_id :: int
  vi_nvlink :: "rat option"
  vi_reliability :: rat
  vi_verification :: gostring
  vi_is_bid :: bool

text \<open>
  The account: the settings of the adapter, the vendor's answers to its calls, and two texts of the
  standard library (\<^verbatim>\<open>%q\<close> and the error of \<^verbatim>\<open>strconv.Atoi\<close>).
\<close>

record vast_account =
  vx_decode :: decode
  vx_quote :: "gostring \<Rightarrow> gostring"
  vx_atoi_err :: "gostring \<Rightarrow> gostring"
  vx_min_inet :: rat
  vx_min_reliability :: rat
  vx_floors_hint :: gostring
  vx_now :: timestamp
  vx_search :: "offer_query \<Rightarrow> call_failure + offer list"
  vx_rent :: "int \<Rightarrow> rent_body \<Rightarrow> call_failure + rent_response"
  vx_get :: "int \<Rightarrow> call_failure + vast_instance"
  vx_delete :: "gostring \<Rightarrow> call_failure option"
  vx_all :: "call_failure + vast_instance list"

definition mapVastState :: "gostring \<Rightarrow> instance_state" where
  "mapVastState actualStatus =
     (let s = to_lower (trim_space actualStatus) in
      if s \<in> set [''running'', ''stopped''] then IActive
      else if s \<in> set [''scheduling'', ''loading'', ''created'', []] then IPending
      else if s \<in> set [''exited'', ''terminated''] then ITerminated
      else if s \<in> set [''offline'', ''failed''] then IFailed
      else IPending)"

definition vastMetadata :: "vast_instance \<Rightarrow> gostring \<rightharpoonup> meta_value" where
  "vastMetadata api =
     (meta_entry ''vast.is_bid'' (vi_is_bid api) MetaOther
       (meta_entry ''vast.verification'' (vi_verification api \<noteq> []) (MetaString (vi_verification api))
         (meta_entry ''vast.reliability2'' (0 < vi_reliability api) MetaOther
           (meta_entry ''vast.machine_id'' (0 < vi_machine_id api) (MetaNumber (vi_machine_id api))
             (meta_entry ''vast.host_id'' (0 < vi_host_id api) (MetaNumber (vi_host_id api))
               (meta_entry ''vast.geolocation'' (vi_geolocation api \<noteq> []) (MetaString (vi_geolocation api)) Map.empty))))))"

definition usageFrom :: "vast_instance option \<Rightarrow> resource_usage option" where
  "usageFrom api =
     (case api of
        None \<Rightarrow> None
      | Some a \<Rightarrow>
          if vi_disk_usage a = 0 \<and> vi_gpu_util a = 0 \<and> vi_inet_billed a = 0 then None
          else Some \<lparr>ru_disk_used = to_int64 (fl64 (vi_disk_usage a * 10 ^ 9)), ru_gpu_util = vi_gpu_util a,
                     ru_network_rx = to_int64 (fl64 (vi_inet_billed a * 10 ^ 6))\<rparr>)"

definition vast_instanceFromAPI :: "timestamp \<Rightarrow> vast_instance \<Rightarrow> spec option \<Rightarrow> gostring \<Rightarrow> machine" where
  "vast_instanceFromAPI now api originalSpec gpuName =
     \<lparr>in_id = (case originalSpec of
          Some sp \<Rightarrow> if sp_id sp \<noteq> [] then sp_id sp else trim_prefix (vi_label api) instanceLabelPrefix
        | None \<Rightarrow> trim_prefix (vi_label api) instanceLabelPrefix),
      in_provider_id = itoa (vi_id api), in_provider = ''vast'', in_spec = originalSpec, in_region = vi_country api,
      in_hourly_rate = vi_dph api, in_state = mapVastState (va_status api), in_created_at = Some now,
      in_activated_at = None, in_terminated_at = None,
      in_ssh = sshTargetFrom (vast_api.truncate api),
      in_failure_reason = [], in_metadata = vastMetadata api,
      mc_hardware = vast_stampFabric gpuName (vi_nvlink api)
        \<lparr>hw_gpu_sku = gpuName, hw_gpu_count = wrap32 (vi_num_gpus api), hw_vram_mb = wrap32 (vi_gpu_ram api),
         hw_vcpus = wrap32 (vi_cpu_cores api), hw_cpu_model = vi_cpu_name api, hw_cpu_ram_mb = wrap32 (vi_cpu_ram api),
         hw_disk_mb = wrap32 (to_int64 (fl64 (vi_disk_space api * 1024))), hw_fabric = unknown_fabric\<rparr>,
      mc_usage = usageFrom (Some api)\<rparr>"

text \<open>The rent call of the SSH path: a bare image with no start command.\<close>

definition rentOffer :: "vast_account \<Rightarrow> int \<Rightarrow> gostring \<Rightarrow> gostring \<Rightarrow> int \<Rightarrow> call_failure + rent_response" where
  "rentOffer a offerID img label diskGB =
     bindE (vx_rent a offerID
              \<lparr>rt_image = img, rt_disk = diskGB, rt_label = label, rt_runtype = ''ssh'', rt_onstart = [], rt_env = Map.empty\<rparr>)
       (\<lambda>resp. if \<not> rr_success resp then Inl (TransportFailure (''rent failed: '' @ rr_msg resp)) else Inr resp)"

definition vast_defaultImage :: gostring where "vast_defaultImage = ''pytorch/pytorch:2.4.0-cuda12.4-cudnn9-runtime''"

text \<open>What is known of a rental whose record could not be read.\<close>

definition unread_machine ::
  "timestamp \<Rightarrow> spec \<Rightarrow> gostring \<Rightarrow> gostring \<Rightarrow> gostring \<Rightarrow> instance_state \<Rightarrow> timestamp option
     \<Rightarrow> (gostring \<rightharpoonup> meta_value) \<Rightarrow> machine_hw \<Rightarrow> machine" where
  "unread_machine now sp prov providerID region st activated meta hw =
     \<lparr>in_id = sp_id sp, in_provider_id = providerID, in_provider = prov, in_spec = Some sp, in_region = region,
      in_hourly_rate = 0, in_state = st, in_created_at = Some now, in_activated_at = activated, in_terminated_at = None,
      in_ssh = None, in_failure_reason = [], in_metadata = meta, mc_hardware = hw, mc_usage = None\<rparr>"

definition vast_rented_machine :: "vast_account \<Rightarrow> spec \<Rightarrow> offer \<Rightarrow> gostring \<Rightarrow> int \<Rightarrow> int \<Rightarrow> machine" where
  "vast_rented_machine a sp picked pickedFor gpuCount contractID =
     (case vx_get a contractID of
        Inl _ \<Rightarrow>
          unread_machine (vx_now a) sp ''vast'' (itoa contractID) (sp_region sp) IPending None Map.empty
            (vast_stampFabric pickedFor (of_nvlink picked) (bare_hw pickedFor gpuCount))
      | Inr api \<Rightarrow>
          (let out = vast_instanceFromAPI (vx_now a) api (Some sp) pickedFor in
           if of_nvlink picked \<noteq> None
           then out\<lparr>mc_hardware := vast_stampFabric pickedFor (of_nvlink picked) (mc_hardware out)\<rparr>
           else out))"

definition vast_Spawn :: "vast_account \<Rightarrow> spec option \<Rightarrow> provider_error + machine" where
  "vast_Spawn a spec =
     (case spec of
        None \<Rightarrow> Inl (NewProviderError ''vast'' ''spawn'' ''spec is nil'')
      | Some sp \<Rightarrow>
          (case sp_requirements sp of
             None \<Rightarrow> Inl (NewProviderError ''vast'' ''spawn'' ''requirements is required'')
           | Some r \<Rightarrow>
               (let names = candidateSKUs (Some r);
                    resolvedSKU = (if rq_sku r \<noteq> [] then rq_sku r else case names of [] \<Rightarrow> [] | n # _ \<Rightarrow> n);
                    resolvedClass = (if rq_class r = [] then vast_classifySKU resolvedSKU else rq_class r);
                    gpuCount = (if rq_gpu_count r \<le> 0 then 1 else rq_gpu_count r);
                    diskGB = (if rq_min_disk_gb r \<le> 0 then vast_defaultDiskGB else rq_min_disk_gb r);
                    img = (if sp_base_image sp = [] then vast_defaultImage else sp_base_image sp) in
                if rq_sku r = [] \<and> names = [] then
                  Inl (NewProviderError ''vast'' ''spawn''
                    (''no SKU in the vast catalog satisfies min_vram_gb='' @ itoa (rq_min_vram_gb r)
                     @ '' min_ram_gb='' @ itoa (rq_min_ram_gb r)))
                else case findAnyOffer (vx_search a) (vx_min_inet a) (vx_min_reliability a) names gpuCount diskGB r of
                  Inl err \<Rightarrow> Inl (vast_wrapErr (vx_decode a) ''spawn:search'' err)
                | Inr None \<Rightarrow>
                    Inl (NewProviderError ''vast'' ''spawn''
                      (''no rentable offer found for class='' @ resolvedClass @ '' sku='' @ resolvedSKU
                       @ '' gpu_count='' @ itoa gpuCount @ '' ('' @ vx_floors_hint a @ '')''))
                | Inr (Some (picked, pickedFor)) \<Rightarrow>
                    (case rentOffer a (of_id picked) img (instanceLabelPrefix @ sp_id sp) diskGB of
                       Inl err \<Rightarrow> Inl (vast_wrapErr (vx_decode a) ''spawn:rent'' err)
                     | Inr rented \<Rightarrow>
                         if rr_contract rented = 0 then
                           Inl (NewProviderError ''vast'' ''spawn'' ''rent response did not include new_contract id'')
                         else Inr (vast_rented_machine a sp picked pickedFor gpuCount (rr_contract rented))))))"

definition vast_Terminate :: "vast_account \<Rightarrow> gostring \<Rightarrow> gostring option" where
  "vast_Terminate a providerID =
     (if providerID = [] then Some (error_text (NewProviderError ''vast'' ''terminate'' ''provider id is required''))
      else released (vast_wrapErr (vx_decode a) ''terminate'') (vx_delete a providerID))"

definition vast_Describe :: "vast_account \<Rightarrow> gostring \<Rightarrow> provider_error + machine" where
  "vast_Describe a providerID =
     (if providerID = [] then Inl (NewProviderError ''vast'' ''describe'' ''provider id is required'')
      else case go_atoi providerID of
        None \<Rightarrow>
          Inl (NewProviderError ''vast'' ''describe''
            (''provider id '' @ vx_quote a providerID @ '' is not numeric: '' @ vx_atoi_err a providerID))
      | Some n \<Rightarrow>
          (case vx_get a n of
             Inl err \<Rightarrow> Inl (vast_wrapErr (vx_decode a) ''describe'' err)
           | Inr api \<Rightarrow> Inr (vast_instanceFromAPI (vx_now a) api None (vi_gpu_name api))))"

definition vast_ref :: "vast_instance \<Rightarrow> instance_ref" where
  "vast_ref a =
     \<lparr>ref_provider_id = itoa (vi_id a), ref_state = va_status a, ref_tags = name_tags (vi_label a), ref_rate = 0,
      ref_created_at = None\<rparr>"

definition vast_List :: "vast_account \<Rightarrow> (gostring \<times> gostring) list \<Rightarrow> provider_error + instance_ref list" where
  "vast_List a flt =
     (case vx_all a of
        Inl err \<Rightarrow> Inl (vast_wrapErr (vx_decode a) ''list'' err)
      | Inr insts \<Rightarrow>
          Inr (FilterRefs (map vast_ref (filter (\<lambda>i. by_name flt ''label-prefix'' (vi_label i)) insts))
                 (TagsOnly flt [''label-prefix''])))"

subsection \<open>RunPod\<close>

text \<open>
  The fields of a pod record beside those the deploy reads.  \<open>pd_created\<close> is the text of its
  creation time; \<open>rx_time\<close> below is \<^verbatim>\<open>time.Parse\<close> for the two layouts in turn.
\<close>

record pod = pod_body +
  pd_image :: gostring
  pd_created :: gostring
  pd_public_ip :: gostring
  pd_port_mappings :: "gostring \<rightharpoonup> int"
  pd_gpu_memory :: int
  pd_gpu_type_count :: int

record spawn_request =
  sq_name :: gostring
  sq_image :: gostring
  sq_gpu_types :: "gostring list"
  sq_gpu_count :: int
  sq_min_ram_per_gpu :: int
  sq_disk :: int
  sq_ports :: "gostring list"
  sq_data_centers :: "gostring list"
  sq_public_ip :: bool

record runpod_account =
  rx_decode :: decode
  rx_decode_list :: "gostring \<Rightarrow> error_body list option"
  rx_quote :: "gostring \<Rightarrow> gostring"
  rx_time :: "gostring \<Rightarrow> timestamp option"
  rx_now :: timestamp
  rx_create :: "spawn_request \<Rightarrow> call_failure + pod_created"
  rx_get :: "gostring \<Rightarrow> call_failure + pod"
  rx_delete :: "gostring \<Rightarrow> call_failure option"
  rx_all :: "gostring option \<Rightarrow> call_failure + pod list"

definition gpuSKU :: "pod \<Rightarrow> gostring" where
  "gpuSKU p =
     (case pb_machine p of
        None \<Rightarrow> []
      | Some m \<Rightarrow> (case pm_gpu_type m of Some g \<Rightarrow> if g \<noteq> [] then g else pm_gpu_type_id m | None \<Rightarrow> pm_gpu_type_id m))"

definition gpuVRAMGB :: "pod \<Rightarrow> int" where
  "gpuVRAMGB p =
     (case pb_machine p of
        None \<Rightarrow> 0
      | Some m \<Rightarrow> (case pm_gpu_type m of Some _ \<Rightarrow> pd_gpu_memory p | None \<Rightarrow> 0))"

definition gpuCountInt :: "pod \<Rightarrow> int" where
  "gpuCountInt p =
     (case pb_machine p of
        None \<Rightarrow> 0
      | Some m \<Rightarrow>
          if 0 < pm_gpu_count m then pm_gpu_count m
          else (case pm_gpu_type m of Some _ \<Rightarrow> if 0 < pd_gpu_type_count p then pd_gpu_type_count p else 0 | None \<Rightarrow> 0))"

definition dataCenter :: "pod \<Rightarrow> gostring" where
  "dataCenter p = (case pb_machine p of None \<Rightarrow> [] | Some m \<Rightarrow> pm_data_center m)"

definition sshPortFromPod :: "pod \<Rightarrow> int" where
  "sshPortFromPod p =
     (case pd_port_mappings p ''22'' of Some mapped \<Rightarrow> if 0 < mapped then wrap32 mapped else 22 | None \<Rightarrow> 22)"

definition sshTargetFromPod :: "pod option \<Rightarrow> ssh_target option" where
  "sshTargetFromPod p =
     (case p of
        None \<Rightarrow> None
      | Some p \<Rightarrow>
          if pd_public_ip p = [] then None
          else Some \<lparr>ssh_host = pd_public_ip p, ssh_port = sshPortFromPod p, ssh_user = ''root''\<rparr>)"

definition parseRunPodTime :: "(gostring \<Rightarrow> timestamp option) \<Rightarrow> gostring \<Rightarrow> timestamp option" where
  "parseRunPodTime parse s = (if s = [] then None else parse s)"

definition runpodMetadata :: "pod \<Rightarrow> gostring \<Rightarrow> gostring \<rightharpoonup> meta_value" where
  "runpodMetadata p cls =
     meta_entry ''runpod.class'' (cls \<noteq> []) (MetaString cls)
       (meta_entry ''runpod.machine_id'' (pb_machine_id p \<noteq> []) (MetaString (pb_machine_id p)) Map.empty)"

definition podToInstance ::
  "runpod_account \<Rightarrow> pod \<Rightarrow> spec \<Rightarrow> gostring \<Rightarrow> gostring \<Rightarrow> int \<Rightarrow> machine" where
  "podToInstance a p sp resolvedClass resolvedSKU gpuCount =
     (let sku = (if resolvedSKU = [] then gpuSKU p else resolvedSKU);
          cls = (if resolvedClass = [] then runpod_classifySKU sku else resolvedClass);
          n = (if gpuCount \<le> 0 then gpuCountInt p else gpuCount) in
      \<lparr>in_id = sp_id sp, in_provider_id = pb_id p, in_provider = ''runpod'', in_spec = Some sp,
       in_region = (if dataCenter p = [] then sp_region sp else dataCenter p), in_hourly_rate = pb_cost p,
       in_state = IActive, in_created_at = parseRunPodTime (rx_time a) (pd_created p), in_activated_at = Some (rx_now a),
       in_terminated_at = None,
       in_ssh = Some (case sshTargetFromPod (Some p) of Some t \<Rightarrow> t | None \<Rightarrow> \<lparr>ssh_host = [], ssh_port = 0, ssh_user = []\<rparr>),
       in_failure_reason = [], in_metadata = runpodMetadata p cls,
       mc_hardware = runpod_stampFabric sku ((bare_hw sku n)\<lparr>hw_vram_mb := wrap32 (gpuVRAMGB p * 1024)\<rparr>),
       mc_usage = None\<rparr>)"

definition instanceFromCreate ::
  "runpod_account \<Rightarrow> spec \<Rightarrow> pod_created \<Rightarrow> gostring \<Rightarrow> gostring \<Rightarrow> int \<Rightarrow> machine" where
  "instanceFromCreate a sp created resolvedClass resolvedSKU gpuCount =
     unread_machine (rx_now a) sp ''runpod'' (pc_id created) (sp_region sp) IActive (Some (rx_now a))
       [''runpod.class'' \<mapsto> MetaString resolvedClass] (runpod_stampFabric resolvedSKU (bare_hw resolvedSKU gpuCount))"

definition specFromPod :: "pod \<Rightarrow> (gostring \<rightharpoonup> gostring) \<Rightarrow> spec" where
  "specFromPod p tags =
     \<lparr>sp_id = tag_get tags TagID, sp_provider = ''runpod'', sp_region = dataCenter p, sp_base_image = pd_image p,
      sp_requirements = Some (zero_requirements\<lparr>rq_sku := gpuSKU p, rq_gpu_count := wrap32 (gpuCountInt p),
                                                rq_min_vram_gb := wrap32 (gpuVRAMGB p)\<rparr>),
      sp_volume_ids = [], sp_tags = tags\<rparr>"

definition defaultBaseImage :: gostring where
  "defaultBaseImage = ''runpod/pytorch:2.4.0-py3.11-cuda12.4.1-devel-ubuntu22.04''"

definition spawn_pod :: "spec \<Rightarrow> requirements \<Rightarrow> gostring list \<Rightarrow> int \<Rightarrow> spawn_request" where
  "spawn_pod sp r gpuTypeIDs gpuCount =
     \<lparr>sq_name = ''iplane-'' @ sp_id sp, sq_image = (if sp_base_image sp = [] then defaultBaseImage else sp_base_image sp),
      sq_gpu_types = gpuTypeIDs, sq_gpu_count = gpuCount,
      sq_min_ram_per_gpu = (if 0 < rq_min_ram_gb r then go_quot (rq_min_ram_gb r + gpuCount - 1) gpuCount else 0),
      sq_disk = (if defaultContainerDiskGB < rq_min_disk_gb r then rq_min_disk_gb r else defaultContainerDiskGB),
      sq_ports = [''22/tcp'', ''8000/http''],
      sq_data_centers = (let region = trim_space (sp_region sp) in if region \<noteq> [] then [region] else []),
      sq_public_ip = True\<rparr>"

definition runpod_Spawn :: "runpod_account \<Rightarrow> spec option \<Rightarrow> provider_error + machine" where
  "runpod_Spawn a spec =
     (case spec of
        None \<Rightarrow> Inl (NewProviderError ''runpod'' ''spawn'' ''spec is nil'')
      | Some sp \<Rightarrow>
          (case sp_requirements sp of
             None \<Rightarrow> Inl (NewProviderError ''runpod'' ''spawn'' ''requirements is required'')
           | Some r \<Rightarrow>
               (let types = (if rq_sku r \<noteq> [] then [rq_sku r] else runpod_MatchSKUs (Some r)) in
                case types of
                  [] \<Rightarrow>
                    Inl (NewProviderError ''runpod'' ''spawn''
                      (''no SKU in the runpod catalog satisfies min_vram_gb='' @ itoa (rq_min_vram_gb r) @ '' min_ram_gb=''
                       @ itoa (rq_min_ram_gb r) @ '' (try a different class or a lower constraint)''))
                | resolvedSKU # _ \<Rightarrow>
                    (let resolvedClass = (if rq_class r = [] then runpod_classifySKU resolvedSKU else rq_class r);
                         gpuCount = (if rq_gpu_count r \<le> 0 then 1 else rq_gpu_count r) in
                     case rx_create a (spawn_pod sp r types gpuCount) of
                       Inl err \<Rightarrow> Inl (runpod_wrapErr (rx_decode a) (rx_decode_list a) ''spawn'' err)
                     | Inr created \<Rightarrow>
                         if pc_id created = [] then
                           Inl (NewProviderError ''runpod'' ''spawn''
                             (''runpod returned empty pod id (likely no capacity in '' @ rx_quote a (sp_region sp) @ '' for gpu ''
                              @ rx_quote a resolvedSKU @ '')''))
                         else
                           Inr (case rx_get a (pc_id created) of
                                  Inl _ \<Rightarrow> instanceFromCreate a sp created resolvedClass resolvedSKU gpuCount
                                | Inr p \<Rightarrow> podToInstance a p sp resolvedClass resolvedSKU gpuCount)))))"

definition runpod_Terminate :: "runpod_account \<Rightarrow> gostring \<Rightarrow> gostring option" where
  "runpod_Terminate a providerID =
     (if providerID = [] then Some (error_text (NewProviderError ''runpod'' ''terminate'' ''providerID is empty''))
      else released (runpod_wrapErr (rx_decode a) (rx_decode_list a) ''terminate'') (rx_delete a providerID))"

definition runpod_Describe :: "runpod_account \<Rightarrow> gostring \<Rightarrow> provider_error + machine" where
  "runpod_Describe a providerID =
     (if providerID = [] then Inl (NewProviderError ''runpod'' ''describe'' ''providerID is empty'')
      else case rx_get a providerID of
        Inl err \<Rightarrow> Inl (runpod_wrapErr (rx_decode a) (rx_decode_list a) ''describe'' err)
      | Inr p \<Rightarrow>
          Inr (podToInstance a p (specFromPod p (name_tags (pb_name p))) (runpod_classifySKU (gpuSKU p)) (gpuSKU p) (gpuCountInt p)))"

definition runpod_ref :: "runpod_account \<Rightarrow> pod \<Rightarrow> instance_ref" where
  "runpod_ref a p =
     \<lparr>ref_provider_id = pb_id p, ref_state = pb_desired_status p, ref_tags = name_tags (pb_name p), ref_rate = pb_cost p,
      ref_created_at = parseRunPodTime (rx_time a) (pd_created p)\<rparr>"

text \<open>The id of the filter goes into the vendor's own name filter as well.\<close>

definition runpod_List :: "runpod_account \<Rightarrow> (gostring \<times> gostring) list \<Rightarrow> provider_error + instance_ref list" where
  "runpod_List a flt =
     (let k = filter_get flt TagID in
      case rx_all a (if k \<noteq> [] then Some (''iplane-'' @ k) else None) of
        Inl err \<Rightarrow> Inl (runpod_wrapErr (rx_decode a) (rx_decode_list a) ''list'' err)
      | Inr pods \<Rightarrow> Inr (filter (\<lambda>r. MatchesTags (ref_tags r) flt) (map (runpod_ref a) pods)))"

subsection \<open>Lambda Labs\<close>

record lambda_type =
  lt_name :: gostring
  lt_description :: gostring
  lt_price_cents :: int
  lt_arch :: gostring
  lt_vcpus :: int
  lt_memory_gib :: int
  lt_storage_gib :: int
  lt_gpus :: int

record lambda_instance =
  li_id :: gostring
  li_name :: gostring
  li_status :: gostring
  li_ip :: gostring
  li_hostname :: gostring
  li_tags :: "(gostring \<times> gostring) list"
  li_type :: lambda_type
  li_region :: gostring
  li_region_description :: gostring

record launch_request =
  lq_region :: gostring
  lq_type :: gostring
  lq_ssh_key :: gostring
  lq_name :: gostring
  lq_tags :: "(gostring \<times> gostring) list"
  lq_file_systems :: "gostring list"

text \<open>\<open>lx_registered\<close> is the name \<^verbatim>\<open>EnsurePublicKey\<close> last put the control plane's key under.\<close>

record lambda_account =
  lx_decode :: decode
  lx_now :: timestamp
  lx_registered :: gostring
  lx_keys :: "call_failure + gostring list"
  lx_launch :: "launch_request \<Rightarrow> call_failure + gostring list"
  lx_get :: "gostring \<Rightarrow> call_failure + lambda_instance"
  lx_delete :: "gostring \<Rightarrow> call_failure option"
  lx_all :: "call_failure + lambda_instance list"

definition launchSSHKeyName :: "lambda_account \<Rightarrow> call_failure + gostring" where
  "launchSSHKeyName a =
     bindE (lx_keys a)
       (\<lambda>keys. Inr (
          if lx_registered a \<noteq> [] \<and> lx_registered a \<in> set keys then lx_registered a
          else case find (\<lambda>k. has_prefix k ReservedIDPrefix) keys of
            Some k \<Rightarrow> k
          | None \<Rightarrow> (case keys of [] \<Rightarrow> [] | k # _ \<Rightarrow> k)))"

definition lambdaTagKey :: "gostring \<Rightarrow> bool" where
  "lambdaTagKey k \<longleftrightarrow>
     (case k of
        [] \<Rightarrow> False
      | c # cs \<Rightarrow>
          c \<in> set ''abcdefghijklmnopqrstuvwxyz'' \<and> length cs \<le> 54
          \<and> set cs \<subseteq> set ''abcdefghijklmnopqrstuvwxyz0123456789-:'')"

definition launchTags :: "(gostring \<rightharpoonup> gostring) \<Rightarrow> (gostring \<times> gostring) list" where
  "launchTags tags =
     map (\<lambda>k. (k, the (tags k)))
       (filter (\<lambda>k. lambdaTagKey k \<and> length (the (tags k)) \<le> 128) (sorted_list_of_set (dom tags)))"

fun vram_digits :: "gostring \<Rightarrow> int \<Rightarrow> int" where
  "vram_digits [] n = n"
| "vram_digits (c # cs) n =
     (if \<not> is_digit c then 0 else vram_digits cs (wrap64 (n * 10 + (of_char c - 48))))"

definition parseVRAMFromDescription :: "gostring \<Rightarrow> int" where
  "parseVRAMFromDescription desc =
     (case bytes_index desc ''('' of
        None \<Rightarrow> 0
      | Some i \<Rightarrow>
          (let tail = drop (i + 1) desc in
           case bytes_index tail '' GB'' of None \<Rightarrow> 0 | Some e \<Rightarrow> vram_digits (take e tail) 0))"

definition lambdaMetadata :: "lambda_instance \<Rightarrow> gostring \<rightharpoonup> meta_value" where
  "lambdaMetadata api =
     meta_entry ''lambda.hostname'' (li_hostname api \<noteq> []) (MetaString (li_hostname api))
       (meta_entry ''lambda.gpu_description'' (lt_description (li_type api) \<noteq> []) (MetaString (lt_description (li_type api)))
         (meta_entry ''lambda.region_description'' (li_region_description api \<noteq> []) (MetaString (li_region_description api)) Map.empty))"

definition lambdaStates :: "gostring \<rightharpoonup> instance_state" where
  "lambdaStates =
     map_of [(''booting'', IPending), (''active'', IActive), (''unhealthy'', IActive), (''terminating'', ITerminating),
             (''terminated'', ITerminated), (''preempted'', ITerminated)]"

definition mapLambdaState :: "gostring \<Rightarrow> instance_state" where
  "mapLambdaState status = (case lambdaStates (to_lower (trim_space status)) of Some s \<Rightarrow> s | None \<Rightarrow> IPending)"

definition sshTargetFor :: "gostring \<Rightarrow> ssh_target" where
  "sshTargetFor ip = \<lparr>ssh_host = ip, ssh_port = 22, ssh_user = ''ubuntu''\<rparr>"

definition lambda_vram_mb :: "lambda_type \<Rightarrow> int" where
  "lambda_vram_mb t =
     (case lambda_LookupSKU (lt_name t) of
        Some s \<Rightarrow> ll_vram s * 1024
      | None \<Rightarrow> (let v = parseVRAMFromDescription (lt_description t) in if 0 < v then wrap64 (v * 1024) else 0))"

definition lambda_instanceFromAPI :: "timestamp \<Rightarrow> lambda_instance \<Rightarrow> spec option \<Rightarrow> gostring \<Rightarrow> machine" where
  "lambda_instanceFromAPI now api originalSpec typeName =
     (let t = li_type api in
      \<lparr>in_id = (case originalSpec of
           Some sp \<Rightarrow> if sp_id sp \<noteq> [] then sp_id sp else trim_prefix (li_name api) ''iplane-''
         | None \<Rightarrow> trim_prefix (li_name api) ''iplane-''),
       in_provider_id = li_id api, in_provider = ''lambdalabs'', in_spec = originalSpec, in_region = li_region api,
       in_hourly_rate = fl64 (of_int (lt_price_cents t) / 100), in_state = mapLambdaState (li_status api),
       in_created_at = Some now, in_activated_at = None, in_terminated_at = None,
       in_ssh = (if li_ip api \<noteq> [] then Some (sshTargetFor (li_ip api)) else None), in_failure_reason = [],
       in_metadata = lambdaMetadata api,
       mc_hardware = lambda_stampFabric typeName
         \<lparr>hw_gpu_sku = typeName, hw_gpu_count = wrap32 (if 0 < lt_gpus t then lt_gpus t else 1),
          hw_vram_mb = wrap32 (lambda_vram_mb t), hw_vcpus = wrap32 (lt_vcpus t), hw_cpu_model = [],
          hw_cpu_ram_mb = wrap32 (lt_memory_gib t * 1024), hw_disk_mb = wrap32 (lt_storage_gib t * 1024),
          hw_fabric = unknown_fabric\<rparr>,
       mc_usage = None\<rparr>)"

definition defaultRegion :: gostring where "defaultRegion = ''us-east-1''"

definition launch_body :: "spec \<Rightarrow> gostring \<Rightarrow> gostring \<Rightarrow> gostring \<Rightarrow> launch_request" where
  "launch_body sp region typeName keyName =
     \<lparr>lq_region = region, lq_type = typeName, lq_ssh_key = keyName, lq_name = ''iplane-'' @ sp_id sp,
      lq_tags = launchTags (sp_tags sp), lq_file_systems = sp_volume_ids sp\<rparr>"

definition lambda_Spawn :: "lambda_account \<Rightarrow> spec option \<Rightarrow> provider_error + machine" where
  "lambda_Spawn a spec =
     (case spec of
        None \<Rightarrow> Inl (NewProviderError ''lambdalabs'' ''spawn'' ''spec is nil'')
      | Some sp \<Rightarrow>
          (case sp_requirements sp of
             None \<Rightarrow> Inl (NewProviderError ''lambdalabs'' ''spawn'' ''requirements is required'')
           | Some r \<Rightarrow>
               (case (if rq_sku r \<noteq> [] then [rq_sku r] else lambda_MatchSKUs (Some r)) of
                  [] \<Rightarrow>
                    Inl (NewProviderError ''lambdalabs'' ''spawn''
                      (''no SKU in the lambdalabs catalog satisfies min_vram_gb='' @ itoa (rq_min_vram_gb r) @ '' gpu_count=''
                       @ itoa (rq_gpu_count r)))
                | typeName # _ \<Rightarrow>
                    (let region = (if sp_region sp = [] then defaultRegion else sp_region sp) in
                     case launchSSHKeyName a of
                       Inl err \<Rightarrow> Inl (lambda_wrapErr (lx_decode a) ''spawn:ssh-keys'' err)
                     | Inr keyName \<Rightarrow>
                         if keyName = [] then
                           Inl (NewProviderError ''lambdalabs'' ''spawn''
                             (''no SSH keys registered on this Lambda Labs account; add one via ''
                              @ ''https://cloud.lambdalabs.com/ssh-keys before provisioning''))
                         else case lx_launch a (launch_body sp region typeName keyName) of
                           Inl err \<Rightarrow> Inl (lambda_wrapErr (lx_decode a) ''spawn:launch'' err)
                         | Inr [] \<Rightarrow> Inl (NewProviderError ''lambdalabs'' ''spawn'' ''launch response did not include instance ids'')
                         | Inr (instanceID # _) \<Rightarrow>
                             Inr (case lx_get a instanceID of
                                    Inl _ \<Rightarrow>
                                      unread_machine (lx_now a) sp ''lambdalabs'' instanceID region IPending None Map.empty
                                        (lambda_stampFabric typeName (bare_hw typeName 0))
                                  | Inr api \<Rightarrow> lambda_instanceFromAPI (lx_now a) api (Some sp) typeName)))))"

definition lambda_Terminate :: "lambda_account \<Rightarrow> gostring \<Rightarrow> gostring option" where
  "lambda_Terminate a providerID =
     (if providerID = [] then Some (error_text (NewProviderError ''lambdalabs'' ''terminate'' ''provider id is required''))
      else released (lambda_wrapErr (lx_decode a) ''terminate'') (lx_delete a providerID))"

definition lambda_Describe :: "lambda_account \<Rightarrow> gostring \<Rightarrow> provider_error + machine" where
  "lambda_Describe a providerID =
     (if providerID = [] then Inl (NewProviderError ''lambdalabs'' ''describe'' ''provider id is required'')
      else case lx_get a providerID of
        Inl err \<Rightarrow> Inl (lambda_wrapErr (lx_decode a) ''describe'' err)
      | Inr api \<Rightarrow> Inr (lambda_instanceFromAPI (lx_now a) api None (lt_name (li_type api))))"

text \<open>The tags win over the id in the name; a later tag wins over an earlier one of its key.\<close>

definition lambda_tags :: "lambda_instance \<Rightarrow> gostring \<rightharpoonup> gostring" where
  "lambda_tags api = name_tags (li_name api) ++ map_of (rev (li_tags api))"

definition lambda_ref :: "lambda_instance \<Rightarrow> instance_ref" where
  "lambda_ref api =
     \<lparr>ref_provider_id = li_id api, ref_state = li_status api, ref_tags = lambda_tags api, ref_rate = 0, ref_created_at = None\<rparr>"

definition lambda_List :: "lambda_account \<Rightarrow> (gostring \<times> gostring) list \<Rightarrow> provider_error + instance_ref list" where
  "lambda_List a flt =
     (case lx_all a of
        Inl err \<Rightarrow> Inl (lambda_wrapErr (lx_decode a) ''list'' err)
      | Inr insts \<Rightarrow>
          Inr (FilterRefs (map lambda_ref (filter (\<lambda>i. by_name flt ''name-prefix'' (li_name i)) insts))
                 (TagsOnly flt [''name-prefix''])))"

end
