(* ===== verification/Adapter_Contracts.thy ===== *)
theory Adapter_Contracts
imports Provider_Adapters
begin

text \<open>
  What the instance service relies on from the adapters when it heals and adopts: the locale
  \<open>instance_lister\<close>, interpreted by the three listings, and the service run on the adapters.
\<close>

subsection \<open>Adapters as providers\<close>

definition tag_filter :: "gostring option \<Rightarrow> (gostring \<times> gostring) list" where
  "tag_filter k = (case k of None \<Rightarrow> [] | Some k \<Rightarrow> [(TagID, k)])"

definition plain_inst :: "provider_error + machine \<Rightarrow> provider_error + inst" where
  "plain_inst = map_sum id inst.truncate"

type_synonym ssh_waiter = "gostring \<Rightarrow> wait_error + ssh_target"

definition vast_provider :: "vast_account \<Rightarrow> iserr option option \<Rightarrow> ssh_waiter option \<Rightarrow> provider" where
  "vast_provider a key waiter =
     \<lparr>pv_name = ''vast'', pv_list = (\<lambda>k. map_sum error_text id (vast_List a (tag_filter k))),
      pv_describe = (\<lambda>x. plain_inst (vast_Describe a x)), pv_spawn = (\<lambda>sp. plain_inst (vast_Spawn a (Some sp))),
      pv_terminate = vast_Terminate a, pv_active = Some vast_isActive, pv_register_key = key, pv_waiter = waiter,
      pv_tracks = True, pv_deployer = True\<rparr>"

definition runpod_provider :: "runpod_account \<Rightarrow> iserr option option \<Rightarrow> ssh_waiter option \<Rightarrow> provider" where
  "runpod_provider a key waiter =
     \<lparr>pv_name = ''runpod'', pv_list = (\<lambda>k. map_sum error_text id (runpod_List a (tag_filter k))),
      pv_describe = (\<lambda>x. plain_inst (runpod_Describe a x)), pv_spawn = (\<lambda>sp. plain_inst (runpod_Spawn a (Some sp))),
      pv_terminate = runpod_Terminate a, pv_active = Some runpod_isActive, pv_register_key = key, pv_waiter = waiter,
      pv_tracks = True, pv_deployer = True\<rparr>"

definition lambda_provider :: "lambda_account \<Rightarrow> iserr option option \<Rightarrow> ssh_waiter option \<Rightarrow> provider" where
  "lambda_provider a key waiter =
     \<lparr>pv_name = ''lambdalabs'', pv_list = (\<lambda>k. map_sum error_text id (lambda_List a (tag_filter k))),
      pv_describe = (\<lambda>x. plain_inst (lambda_Describe a x)), pv_spawn = (\<lambda>sp. plain_inst (lambda_Spawn a (Some sp))),
      pv_terminate = lambda_Terminate a, pv_active = Some lambda_isActive, pv_register_key = key, pv_waiter = waiter,
      pv_tracks = True, pv_deployer = False\<rparr>"

lemmas provider_defs = vast_provider_def runpod_provider_def lambda_provider_def

subsection \<open>The listing contract\<close>

text \<open>The machines of an account that belong to an id: their provider ids and raw states.\<close>

definition vast_machines :: "vast_account \<Rightarrow> gostring \<Rightarrow> (gostring \<times> gostring) set" where
  "vast_machines a k =
     (case vx_all a of
        Inl _ \<Rightarrow> {}
      | Inr insts \<Rightarrow> (\<lambda>i. (itoa (vi_id i), va_status i)) ` {i \<in> set insts. vi_label i = ''iplane-'' @ k})"

definition runpod_machines :: "runpod_account \<Rightarrow> gostring \<Rightarrow> (gostring \<times> gostring) set" where
  "runpod_machines a k =
     (case rx_all a None of
        Inl _ \<Rightarrow> {}
      | Inr pods \<Rightarrow> (\<lambda>p. (pb_id p, pb_desired_status p)) ` {p \<in> set pods. pb_name p = ''iplane-'' @ k})"

definition lambda_machines :: "lambda_account \<Rightarrow> gostring \<Rightarrow> (gostring \<times> gostring) set" where
  "lambda_machines a k =
     (case lx_all a of
        Inl _ \<Rightarrow> {}
      | Inr insts \<Rightarrow> (\<lambda>i. (li_id i, li_status i)) ` {i \<in> set insts. tag_get (lambda_tags i) TagID = k})"

text \<open>What the vendor documents of its name filter: the pods of the account that have the name.\<close>

definition filters_by_name :: "runpod_account \<Rightarrow> bool" where
  "filters_by_name a \<longleftrightarrow>
     (\<forall>n pods. rx_all a (Some n) = Inr pods \<longrightarrow>
        (\<exists>everything. rx_all a None = Inr everything \<and> pods = filter (\<lambda>p. pb_name p = n) everything))"

locale instance_lister =
  fixes list_on :: "'a \<Rightarrow> (gostring \<times> gostring) list \<Rightarrow> provider_error + instance_ref list"
    and machines :: "'a \<Rightarrow> gostring \<Rightarrow> (gostring \<times> gostring) set"
    and sane :: "'a \<Rightarrow> bool"
  assumes lists: "sane a \<Longrightarrow> k \<noteq> [] \<Longrightarrow> list_on a [(TagID, k)] = Inr refs \<Longrightarrow>
      (\<lambda>r. (ref_provider_id r, ref_state r)) ` set refs = machines a k"
    and tagged: "sane a \<Longrightarrow> k \<noteq> [] \<Longrightarrow> list_on a [(TagID, k)] = Inr refs \<Longrightarrow> r \<in> set refs \<Longrightarrow> tag_get (ref_tags r) TagID = k"
begin

text \<open>The service's own check of the listing changes nothing, and an empty answer means no machine.\<close>

lemma recheck:
  "sane a \<Longrightarrow> k \<noteq> [] \<Longrightarrow> list_on a [(TagID, k)] = Inr refs \<Longrightarrow> FilterRefs refs [(TagID, k)] = refs"
  using tagged by (simp add: FilterRefs_def MatchesTags_def)

lemma empty_iff:
  "sane a \<Longrightarrow> k \<noteq> [] \<Longrightarrow> list_on a [(TagID, k)] = Inr refs \<Longrightarrow> refs = [] \<longleftrightarrow> machines a k = {}"
  using lists by force

end

lemma tag_get_name:
  assumes "k \<noteq> []"
  shows "tag_get (name_tags n) TagID = k \<longleftrightarrow> n = ''iplane-'' @ k"
proof (cases "cut_prefix n ''iplane-''")
  case None
  then have "n \<noteq> ''iplane-'' @ k" by (metis cut_prefix_append option.distinct(1))
  then show ?thesis using None assms by (simp add: name_tags_def tag_get_def)
next
  case (Some t)
  then have "n = ''iplane-'' @ t" by (simp only: cut_prefix_Some)
  then show ?thesis using Some assms by (simp add: name_tags_def tag_get_def)
qed

lemma image_filter_map: "f ` set (filter P (map g xs)) = (\<lambda>x. f (g x)) ` {x \<in> set xs. P (g x)}"
  by auto

lemma id_filter [simp]:
  "filter_get [(TagID, k)] TagID = k"
  "filter_get [(TagID, k)] ''label-prefix'' = []" "filter_get [(TagID, k)] ''name-prefix'' = []"
  "TagsOnly [(TagID, k)] [''label-prefix''] = [(TagID, k)]" "TagsOnly [(TagID, k)] [''name-prefix''] = [(TagID, k)]"
  by (simp_all add: filter_get_def tag_get_def TagsOnly_def TagID_def)

interpretation vast_lister: instance_lister vast_List vast_machines "\<lambda>_. True"
proof unfold_locales
  fix a k refs
  assume "k \<noteq> []" "vast_List a [(TagID, k)] = Inr refs"
  then obtain insts where i: "vx_all a = Inr insts" "refs = filter (\<lambda>r. tag_get (ref_tags r) TagID = k) (map vast_ref insts)"
    by (auto simp: vast_List_def by_name_def FilterRefs_def MatchesTags_def split: sum.splits)
  show "(\<lambda>r. (ref_provider_id r, ref_state r)) ` set refs = vast_machines a k"
    unfolding i(2) image_filter_map using i(1) \<open>k \<noteq> []\<close> by (simp add: vast_machines_def vast_ref_def tag_get_name del: append.simps)
  show "tag_get (ref_tags r) TagID = k" if "r \<in> set refs" for r using that i(2) by simp
qed

interpretation runpod_lister: instance_lister runpod_List runpod_machines filters_by_name
proof unfold_locales
  fix a k refs
  assume a: "filters_by_name a" "k \<noteq> []" "runpod_List a [(TagID, k)] = Inr refs"
  then obtain pods where p: "rx_all a (Some (''iplane-'' @ k)) = Inr pods"
      "refs = filter (\<lambda>r. tag_get (ref_tags r) TagID = k) (map (runpod_ref a) pods)"
    by (auto simp: runpod_List_def Let_def MatchesTags_def split: sum.splits)
  then obtain everything where e: "rx_all a None = Inr everything" "pods = filter (\<lambda>p. pb_name p = ''iplane-'' @ k) everything"
    using a(1) unfolding filters_by_name_def by blast
  show "(\<lambda>r. (ref_provider_id r, ref_state r)) ` set refs = runpod_machines a k"
    unfolding p(2) image_filter_map e using a(2) e(1)
    by (simp add: runpod_machines_def runpod_ref_def tag_get_name del: append.simps)
  show "tag_get (ref_tags r) TagID = k" if "r \<in> set refs" for r using that p(2) by simp
qed

interpretation lambda_lister: instance_lister lambda_List lambda_machines "\<lambda>_. True"
proof unfold_locales
  fix a k refs
  assume "k \<noteq> []" "lambda_List a [(TagID, k)] = Inr refs"
  then obtain insts where i: "lx_all a = Inr insts" "refs = filter (\<lambda>r. tag_get (ref_tags r) TagID = k) (map lambda_ref insts)"
    by (auto simp: lambda_List_def by_name_def FilterRefs_def MatchesTags_def split: sum.splits)
  show "(\<lambda>r. (ref_provider_id r, ref_state r)) ` set refs = lambda_machines a k"
    unfolding i(2) image_filter_map using i(1) by (simp add: lambda_machines_def lambda_ref_def)
  show "tag_get (ref_tags r) TagID = k" if "r \<in> set refs" for r using that i(2) by simp
qed

subsection \<open>The service on the adapters\<close>

text \<open>A provider whose adapter sees the machines \<open>M\<close> of an id.\<close>

inductive adapter_view :: "provider \<Rightarrow> gostring \<Rightarrow> (gostring \<times> gostring) set \<Rightarrow> bool" where
  vast_view: "adapter_view (vast_provider va key w) k (vast_machines va k)"
| runpod_view: "filters_by_name ra \<Longrightarrow> adapter_view (runpod_provider ra key w) k (runpod_machines ra k)"
| lambda_view: "adapter_view (lambda_provider la key w) k (lambda_machines la k)"

lemma view_lists:
  assumes "adapter_view p k M" "k \<noteq> []" "pv_list p (Some k) = Inr refs"
  shows "FilterRefs refs [(TagID, k)] = refs \<and> (\<lambda>r. (ref_provider_id r, ref_state r)) ` set refs = M"
  using assms(1)
proof cases
  case (vast_view va key w)
  then have "vast_List va [(TagID, k)] = Inr refs"
    using assms(3) by (cases "vast_List va [(TagID, k)]") (simp_all add: provider_defs tag_filter_def)
  then show ?thesis using vast_lister.recheck vast_lister.lists assms(2) vast_view by blast
next
  case (runpod_view ra key w)
  then have "runpod_List ra [(TagID, k)] = Inr refs"
    using assms(3) by (cases "runpod_List ra [(TagID, k)]") (simp_all add: provider_defs tag_filter_def)
  then show ?thesis using runpod_lister.recheck runpod_lister.lists assms(2) runpod_view by blast
next
  case (lambda_view la key w)
  then have "lambda_List la [(TagID, k)] = Inr refs"
    using assms(3) by (cases "lambda_List la [(TagID, k)]") (simp_all add: provider_defs tag_filter_def)
  then show ?thesis using lambda_lister.recheck lambda_lister.lists assms(2) lambda_view by blast
qed

text \<open>
  C25: Healing believes exactly the account.  When the adapter's listing answers, a record stuck in
  TERMINATING is declared TERMINATED if and only if the provider's account holds no machine that
  carries the record's id.
\<close>

theorem heal_matches_account:
  assumes "adapter_view p k M" "k \<noteq> []" "pv_list p (Some k) = Inr refs" "ps (in_provider i) = Some p"
    and "st_instances st k = Some i" "in_state i = ITerminating"
  shows "map_option in_state (st_instances (heal ps now k i st) k) = Some (if M = {} then ITerminated else ITerminating)"
proof -
  have r: "FilterRefs refs [(TagID, k)] = refs" "refs = [] \<longleftrightarrow> M = {}"
    using view_lists [OF assms(1-3)] by auto
  then show ?thesis
    using assms(3-6) by (cases refs) (simp_all add: heal_def update_instance_def)
qed

lemma adopt_finds:
  assumes "ref \<in> set refs" "providerSaysActive p (ref_state ref)" "pv_describe p (ref_provider_id ref) = Inr i"
  shows "adopt now p sp rec refs \<noteq> None"
  using assms by (induction refs) (auto split: sum.split)

text \<open>
  C30: A machine is not rented twice.  When the record of an id was lost or is settled, the listing of the id
  answers with what the account holds, and the account holds a machine of that id which the adapter counts as active and
  for which its description answers, a create adopts such a machine and rents none.  A listing that fails is not
  fatal to a create, which then rents; and the adapter does not count a stopped Vast contract as active
  (\<open>stopped_contract_rented_twice\<close>).
\<close>

theorem no_second_rental:
  assumes "adapter_view p (sp_id sp) M" "pv_list p (Some (sp_id sp)) = Inr refs"
    and "(pid, s) \<in> M" "providerSaysActive p s" "pv_describe p pid = Inr i0"
    and "ValidateID (sp_id sp)" "ValidateAndExpandRequirements sp = Inr sp'" "ps (sp_provider sp) = Some p"
    and "case st_instances st (sp_id sp) of None \<Rightarrow> True | Some r \<Rightarrow> in_state r \<in> {IUnspecified, ITerminated, IFailed}"
  shows "\<exists>i st' pid' s'. CreateInstance ps ks op now (Some sp) st = (Inr (i, True), st')
     \<and> st_instances st' (sp_id sp) = Some i \<and> (pid', s') \<in> M \<and> providerSaysActive p s'
     \<and> (\<exists>d. pv_describe p pid' = Inr d \<and> in_provider_id i = in_provider_id d)"
proof -
  have ids: "sp_id sp' = sp_id sp" "sp_provider sp' = sp_provider sp" using expand_id [OF assms(7)] by auto
  have "sp_id sp \<noteq> []" using assms(6) by (auto simp: ValidateID_def)
  then have r: "FilterRefs refs [(TagID, sp_id sp)] = refs" "(\<lambda>r. (ref_provider_id r, ref_state r)) ` set refs = M"
    using view_lists [OF assms(1) _ assms(2)] by auto
  let ?rec = "newPendingInstance sp' (pv_name p) now"
  obtain ref where ref: "ref \<in> set refs" "ref_provider_id ref = pid" "ref_state ref = s" using assms(3) r(2) by auto
  then obtain i where i: "adopt now p sp' ?rec refs = Some i"
    using adopt_finds [of ref refs p i0 now sp' ?rec] assms(4,5) by auto
  obtain ref' d where d: "ref' \<in> set refs" "providerSaysActive p (ref_state ref')" "pv_describe p (ref_provider_id ref') = Inr d"
      "i = finalizeActive now d (Some sp') (pv_name p) (in_created_at ?rec)"
    using adopt_Some [OF i] by blast
  have "CreateInstance ps ks op now (Some sp) st = (Inr (i, True), patchRecord (sp_id sp) i (patchRecord (sp_id sp) ?rec st))"
    using assms(2,6-9) ids i r(1)
    by (auto simp: CreateInstance_def Let_def list_refs_def split: option.splits)
  moreover have "(ref_provider_id ref', ref_state ref') \<in> M" using d(1) r(2) by blast
  moreover have "in_provider_id i = in_provider_id d" by (simp add: d(4) finalizeActive_def)
  ultimately show ?thesis using d(2,3) by fastforce
qed

subsection \<open>Machines the listing does not see\<close>

lemma engine_pod_name: "buildEnginePodRequest w d i hw = Inr req \<Longrightarrow> pq_name req = ''iplane-engine-'' @ dep_id d"
  by (auto simp: buildEnginePodRequest_def bindE_Inr_iff Let_def)

text \<open>
  A pod of an engine is named after \<open>engine-\<close> and its deployment, so it belongs to no id that an
  instance has: healing declares the instance TERMINATED while its pod runs.
\<close>

theorem engine_pod_unseen:
  assumes "filters_by_name ra" "rx_all ra (Some (''iplane-'' @ k)) = Inr pods" "k \<noteq> []" "\<not> has_prefix k ''engine-''"
    and "\<forall>x \<in> set pods. \<exists>w d i hw req. buildEnginePodRequest w d i hw = Inr req \<and> pb_name x = pq_name req"
    and "ps (in_provider i) = Some (runpod_provider ra key w)" "st_instances st k = Some i" "in_state i = ITerminating"
  shows "map_option in_state (st_instances (heal ps now k i st) k) = Some ITerminated"
proof -
  obtain everything where e: "rx_all ra None = Inr everything" "pods = filter (\<lambda>p. pb_name p = ''iplane-'' @ k) everything"
    using assms(1,2) unfolding filters_by_name_def by blast
  have "pods = []"
  proof (rule ccontr)
    assume "pods \<noteq> []"
    then obtain x where "x \<in> set pods" by (cases pods) auto
    then have x: "x \<in> set pods" "pb_name x = ''iplane-'' @ k" using e(2) by (simp_all del: append.simps)
    then obtain w d i hw req where "buildEnginePodRequest w d i hw = Inr req" "pb_name x = pq_name req" using assms(5) by blast
    then have "''iplane-engine-'' @ dep_id d = ''iplane-'' @ k" using engine_pod_name x(2) by metis
    then have "k = ''engine-'' @ dep_id d" by simp
    then show False using assms(4) by (auto simp: has_prefix_iff)
  qed
  then have m: "runpod_machines ra k = {}" using e by (auto simp: runpod_machines_def filter_empty_conv)
  obtain refs where l: "pv_list (runpod_provider ra key w) (Some k) = Inr refs"
    using assms(2,3) by (simp add: provider_defs tag_filter_def runpod_List_def Let_def)
  have "adapter_view (runpod_provider ra key w) k (runpod_machines ra k)" by (rule runpod_view [OF assms(1)])
  from heal_matches_account [where ps = ps and i = i, OF this assms(3) l assms(6,7,8)] m show ?thesis by simp
qed

text \<open>
  A paused contract is ACTIVE in the record of a machine but not adoptable in a listing, so a create
  whose record was lost rents a second machine beside it.
\<close>

lemma stopped_state: "mapVastState ''stopped'' = IActive" "\<not> vast_isActive ''stopped''"
proof -
  have t: "to_lower (trim_space ''stopped'') = ''stopped''"
    by (simp add: trim_space_plain plain_def to_lower_plain del: to_lower.simps)
  show "mapVastState ''stopped'' = IActive" "\<not> vast_isActive ''stopped''"
    unfolding mapVastState_def vast_isActive_def t by simp_all
qed

lemma adopt_none: "\<forall>r \<in> set refs. \<not> providerSaysActive p (ref_state r) \<Longrightarrow> adopt now p sp rec refs = None"
  by (induction refs) auto

theorem stopped_contract_rented_twice:
  assumes "vx_all va = Inr insts" "\<forall>x \<in> set insts. vi_label x = ''iplane-'' @ sp_id sp \<longrightarrow> va_status x = ''stopped''"
    and "ValidateID (sp_id sp)" "ValidateAndExpandRequirements sp = Inr sp'" "st_instances st (sp_id sp) = None"
    and "ps (sp_provider sp) = Some (vast_provider va None w)" "vast_Spawn va (Some (withSystemTags sp' op)) = Inr m"
  shows "mapVastState ''stopped'' = IActive \<and> (\<exists>i st'. CreateInstance ps ks op now (Some sp) st = (Inr (i, False), st')
     \<and> in_provider_id i = in_provider_id m)"
proof -
  let ?p = "vast_provider va None w"
  have ids: "sp_id sp' = sp_id sp" "sp_provider sp' = sp_provider sp" using expand_id [OF assms(4)] by auto
  have ne: "sp_id sp \<noteq> []" using assms(3) by (auto simp: ValidateID_def)
  obtain refs where l: "pv_list ?p (Some (sp_id sp)) = Inr refs"
    using assms(1) by (simp add: provider_defs tag_filter_def vast_List_def)
  have r: "FilterRefs refs [(TagID, sp_id sp)] = refs" "(\<lambda>r. (ref_provider_id r, ref_state r)) ` set refs = vast_machines va (sp_id sp)"
    using view_lists [OF vast_view ne l] by auto
  have "ref_state x = ''stopped''" if "x \<in> set refs" for x
  proof -
    have "(ref_provider_id x, ref_state x) \<in> vast_machines va (sp_id sp)" using that r(2) by blast
    then show ?thesis using assms(1,2) unfolding vast_machines_def by fastforce
  qed
  then have "adopt now ?p sp' rec refs = None" for rec
    using stopped_state(2) by (intro adopt_none) (simp add: providerSaysActive_def provider_defs)
  then have "\<exists>st'. CreateInstance ps ks op now (Some sp) st = (Inr (finalizeActive now (inst.truncate m) (Some sp') ''vast'' (Some now), False), st')"
    using assms(3-7) ids r(1) l
    by (simp add: CreateInstance_def Let_def list_refs_def registerKeyAndSpawn_def ensureProviderKey_def newPendingInstance_def)
       (simp add: provider_defs plain_inst_def Let_def)
  then show ?thesis using stopped_state(1) by (auto simp: finalizeActive_def inst.truncate_def)
qed

subsection \<open>A sample account\<close>

definition sample_contract :: vast_instance where
  "sample_contract =
     \<lparr>va_status = ''running'', va_cur_state = [], va_status_msg = [], va_public_ip = [], va_ports = Map.empty, va_ssh_host = [],
      va_ssh_port = 0, vi_id = 7, vi_label = ''iplane-i'', vi_gpu_name = ''RTX 4090'', vi_num_gpus = 1, vi_gpu_ram = 24564,
      vi_country = [], vi_geolocation = [], vi_dph = 1, vi_cpu_name = [], vi_cpu_cores = 8, vi_cpu_ram = 0, vi_disk_space = 0,
      vi_disk_usage = 0, vi_gpu_util = 0, vi_inet_billed = 0, vi_host_id = 0, vi_machine_id = 0, vi_nvlink = None,
      vi_reliability = 1, vi_verification = [], vi_is_bid = False\<rparr>"

definition sample_vast_account :: vast_account where
  "sample_vast_account =
     \<lparr>vx_decode = (\<lambda>_. None), vx_quote = id, vx_atoi_err = id, vx_min_inet = 0, vx_min_reliability = 0, vx_floors_hint = [],
      vx_now = 0, vx_search = (\<lambda>_. Inr []), vx_rent = (\<lambda>_ _. Inl (TransportFailure ''down'')),
      vx_get = (\<lambda>_. Inr sample_contract), vx_delete = (\<lambda>_. None), vx_all = Inr [sample_contract]\<rparr>"

lemma running_active: "vast_isActive ''running''"
  by (simp add: vast_isActive_def trim_space_plain plain_def to_lower_plain del: to_lower.simps)

lemma sample_all: "vx_all sample_vast_account = Inr [sample_contract]"
  by (simp add: sample_vast_account_def)

lemma sample_machines: "vast_machines sample_vast_account ''i'' = {(itoa 7, ''running'')}"
proof -
  have c: "vi_label sample_contract = ''iplane-'' @ ''i''" "vi_id sample_contract = 7" "va_status sample_contract = ''running''"
    by (simp_all add: sample_contract_def)
  then have "{x \<in> set [sample_contract]. vi_label x = ''iplane-'' @ ''i''} = {sample_contract}" by auto
  then show ?thesis unfolding vast_machines_def sample_all sum.case using c(2,3) by (simp only: image_insert image_empty)
qed

lemma sample_list:
  "\<exists>refs. pv_list (vast_provider sample_vast_account None None) (Some ''i'') = Inr refs"
  unfolding vast_provider_def provider.simps vast_List_def sample_all sum.case map_sum.simps by (rule exI) (rule refl)

theorem heal_matches_account_witness:
  "map_option in_state (st_instances (heal [''vast'' \<mapsto> vast_provider sample_vast_account None None] 5 ''i''
      (sample_instance\<lparr>in_state := ITerminating, in_provider := ''vast''\<rparr>)
      (patchRecord ''i'' (sample_instance\<lparr>in_state := ITerminating, in_provider := ''vast''\<rparr>) NewState)) ''i'') = Some ITerminating"
proof -
  let ?p = "vast_provider sample_vast_account None None"
  let ?i = "sample_instance\<lparr>in_state := ITerminating, in_provider := ''vast''\<rparr>"
  from sample_list obtain refs where l: "pv_list ?p (Some ''i'') = Inr refs" by (rule exE)
  have v: "adapter_view ?p ''i'' (vast_machines sample_vast_account ''i'')" by (rule vast_view)
  have ps: "[''vast'' \<mapsto> ?p] (in_provider ?i) = Some ?p" by (simp add: fun_upd_def)
  have st: "st_instances (patchRecord ''i'' ?i NewState) ''i'' = Some ?i" by (simp only: patchRecord_simps fun_upd_same)
  have "''i'' \<noteq> ([] :: gostring)" "in_state ?i = ITerminating" by simp_all
  from heal_matches_account [where ps = "[''vast'' \<mapsto> ?p]" and i = ?i and now = 5, OF v this(1) l ps st this(2)]
  show ?thesis unfolding sample_machines by (simp only: insert_not_empty if_False)
qed

theorem no_second_rental_witness:
  "\<exists>i st'. CreateInstance [''p'' \<mapsto> vast_provider sample_vast_account None None] True ''me'' 5 (Some sample_spec) NewState
      = (Inr (i, True), st') \<and> st_instances st' ''i'' = Some i"
proof -
  let ?p = "vast_provider sample_vast_account None None"
  have sp: "sp_id sample_spec = ''i''" "sp_provider sample_spec = ''p''" by (simp_all add: sample_spec_def)
  obtain refs where l: "pv_list ?p (Some (sp_id sample_spec)) = Inr refs" using sample_list sp by auto
  have v: "adapter_view ?p (sp_id sample_spec) (vast_machines sample_vast_account (sp_id sample_spec))" by (rule vast_view)
  have m: "(itoa 7, ''running'') \<in> vast_machines sample_vast_account (sp_id sample_spec)" by (simp add: sp sample_machines)
  have a: "providerSaysActive ?p ''running''" using running_active by (simp add: providerSaysActive_def provider_defs)
  have "itoa 7 \<noteq> []" "go_atoi (itoa 7) = Some 7" using itoa_atoi [of 7] by (simp_all add: max_int64_def)
  then have d: "\<exists>d. pv_describe ?p (itoa 7) = Inr d"
    by (simp add: provider_defs plain_inst_def vast_Describe_def sample_vast_account_def del: max_int64_def)
  then obtain d where d: "pv_describe ?p (itoa 7) = Inr d" ..
  have e: "ValidateID (sp_id sample_spec)" by (simp add: sp)
  have ps: "[''p'' \<mapsto> ?p] (sp_provider sample_spec) = Some ?p" by (simp add: sp)
  show ?thesis
    using no_second_rental [where sp = sample_spec and ps = "[''p'' \<mapsto> ?p]", OF v l m a d e sample_expand ps, of NewState True "''me''" 5]
    unfolding sp by (auto simp: NewState_def)
qed

end
