(* ===== verification/Pin.thy ===== *)
theory Pin
  imports Store
begin

text \<open>
  The warm-cache registry (\<^verbatim>\<open>internal/provisioners/pin.go\<close>): pinning a model onto a provider's
  cache volume, unpinning, listing, and finding the mount that makes a deployment warm.  A
  provider's volume manager is a record of its answers; the calls that reach it are listed in the
  order they are made.  Loops over the registry take the order in which the map is visited.
\<close>

datatype pin_error =
    PinInvalid gostring | PinNoProvider gostring | PinUnsupported gostring | PinNoVolume gostring
  | PinProvider gostring

record volume_ref =
  vr_id :: gostring
  vr_region :: gostring
  vr_name :: gostring
  vr_size_gb :: int
  vr_host_path :: gostring

record volume_manager =
  vmg_ensure :: "gostring \<Rightarrow> gostring \<Rightarrow> int \<Rightarrow> gostring + volume_ref"
  vmg_stage :: "gostring \<Rightarrow> gostring \<Rightarrow> gostring option"
  vmg_delete :: "gostring \<Rightarrow> gostring option"

datatype volume_call = Ensure gostring gostring int | Stage gostring gostring | Delete gostring

definition DefaultCacheMountPath :: gostring where "DefaultCacheMountPath = ''/models''"
definition defaultCacheVolumeSizeGB :: int where "defaultCacheVolumeSizeGB = 200"

definition cacheVolumeName :: "gostring \<Rightarrow> gostring" where
  "cacheVolumeName region = ''iplane-cache-'' @ region"

definition holds_model :: "gostring \<Rightarrow> gostring \<Rightarrow> gostring \<Rightarrow> volume \<Rightarrow> bool" where
  "holds_model model provider region v \<longleftrightarrow>
     vol_provider v = provider \<and> vol_region v = region \<and> model \<in> set (vol_models v)"

definition volume_mount_of :: "volume \<Rightarrow> volume_mount" where
  "volume_mount_of v =
     \<lparr>vm_volume_id = vol_id v, vm_host_path = vol_host_path v, vm_mount_path = vol_mount_path v,
      vm_provider = vol_provider v\<rparr>"

definition resolveWarmMount ::
  "gostring list \<Rightarrow> state \<Rightarrow> gostring \<Rightarrow> gostring \<Rightarrow> gostring \<Rightarrow> volume_mount option" where
  "resolveWarmMount order st model provider region =
     (if model = [] \<or> provider = [] \<or> region = [] then None
      else map_option volume_mount_of
        (List.find (holds_model model provider region) (List.map_filter (st_volumes st) order)))"

fun homogeneous_tail :: "gostring \<Rightarrow> gostring \<Rightarrow> replica_spec list \<Rightarrow> bool" where
  "homogeneous_tail provider region [] \<longleftrightarrow> True"
| "homogeneous_tail provider region (s # ss) \<longleftrightarrow>
     rs_provider s = provider \<and> rs_region s = region \<and> homogeneous_tail provider region ss"

definition homogeneousPlacement :: "replica_spec list \<Rightarrow> (gostring \<times> gostring) option" where
  "homogeneousPlacement specs =
     (case specs of
        [] \<Rightarrow> None
      | s # ss \<Rightarrow>
          if homogeneous_tail (rs_provider s) (rs_region s) ss then Some (rs_provider s, rs_region s) else None)"

record pin_request =
  pr_model :: gostring
  pr_provider :: gostring
  pr_region :: gostring
  pr_size_gb :: int
  pr_force :: bool

text \<open>The registry update at the end of \<^verbatim>\<open>PinModel\<close>.\<close>

definition add_model :: "gostring \<Rightarrow> volume \<Rightarrow> volume" where
  "add_model model v = (if model \<in> set (vol_models v) then v else v\<lparr>vol_models := vol_models v @ [model]\<rparr>)"

definition new_volume :: "pin_request \<Rightarrow> volume_ref \<Rightarrow> timestamp \<Rightarrow> volume" where
  "new_volume req ref now =
     \<lparr>vol_id = vr_id ref, vol_provider = pr_provider req, vol_region = vr_region ref, vol_name = vr_name ref,
      vol_size_gb = wrap32 (vr_size_gb ref), vol_models = [], vol_mount_path = DefaultCacheMountPath,
      vol_host_path = vr_host_path ref, vol_created_at = Some now\<rparr>"

definition record_pin :: "pin_request \<Rightarrow> volume_ref \<Rightarrow> timestamp \<Rightarrow> state \<Rightarrow> volume \<times> state" where
  "record_pin req ref now st =
     (let v = (case st_volumes st (vr_id ref) of Some v \<Rightarrow> v | None \<Rightarrow> new_volume req ref now);
          v' = add_model (pr_model req) v in
      (v', st\<lparr>st_volumes := (st_volumes st)(vr_id ref \<mapsto> v')\<rparr>))"

definition already_staged :: "pin_request \<Rightarrow> gostring \<Rightarrow> state \<Rightarrow> bool" where
  "already_staged req volume_id st \<longleftrightarrow>
     (case st_volumes st volume_id of
        None \<Rightarrow> False
      | Some v \<Rightarrow> \<not> pr_force req \<and> pr_model req \<in> set (vol_models v))"

type_synonym managers = "gostring \<rightharpoonup> volume_manager option"

definition pin_size :: "pin_request \<Rightarrow> int" where
  "pin_size req = (if pr_size_gb req \<le> 0 then defaultCacheVolumeSizeGB else pr_size_gb req)"

definition PinModel ::
  "managers \<Rightarrow> timestamp \<Rightarrow> pin_request \<Rightarrow> state
     \<Rightarrow> (pin_error + (volume \<times> bool)) \<times> state \<times> volume_call list" where
  "PinModel providers now req st =
     (if pr_model req = [] then (Inl (PinInvalid ''model is required''), st, [])
      else if pr_region req = [] then (Inl (PinInvalid ''region is required''), st, [])
      else case providers (pr_provider req) of
        None \<Rightarrow> (Inl (PinNoProvider (pr_provider req)), st, [])
      | Some None \<Rightarrow> (Inl (PinUnsupported (pr_provider req)), st, [])
      | Some (Some vm) \<Rightarrow>
          let size = pin_size req;
              ensure = Ensure (cacheVolumeName (pr_region req)) (pr_region req) size in
          (case vmg_ensure vm (cacheVolumeName (pr_region req)) (pr_region req) size of
             Inl e \<Rightarrow> (Inl (PinProvider e), st, [ensure])
           | Inr ref \<Rightarrow>
               if already_staged req (vr_id ref) st then
                 (let (v, st') = record_pin req ref now st in (Inr (v, True), st', [ensure]))
               else
                 (case vmg_stage vm (vr_id ref) (pr_model req) of
                    Some e \<Rightarrow> (Inl (PinProvider e), st, [ensure, Stage (vr_id ref) (pr_model req)])
                  | None \<Rightarrow>
                      (let (v, st') = record_pin req ref now st in
                       (Inr (v, False), st', [ensure, Stage (vr_id ref) (pr_model req)])))))"

definition VolumesFor :: "gostring list \<Rightarrow> state \<Rightarrow> gostring \<Rightarrow> volume list" where
  "VolumesFor order st providerFilter =
     sort_key vol_id
       (filter (\<lambda>v. providerFilter = [] \<or> vol_provider v = providerFilter) (List.map_filter (st_volumes st) order))"

text \<open>With an empty model the volume is destroyed; otherwise only the registry changes.\<close>

definition UnpinModel ::
  "managers \<Rightarrow> gostring \<Rightarrow> gostring \<Rightarrow> state \<Rightarrow> (pin_error + volume option) \<times> state \<times> volume_call list" where
  "UnpinModel providers volume_id model st =
     (if volume_id = [] then (Inl (PinInvalid ''volume_id is required''), st, [])
      else case st_volumes st volume_id of
        None \<Rightarrow> (Inl (PinNoVolume volume_id), st, [])
      | Some v \<Rightarrow>
          if model = [] then
            (let gone = st\<lparr>st_volumes := (st_volumes st)(volume_id := None)\<rparr> in
             case providers (vol_provider v) of
               Some (Some vm) \<Rightarrow>
                 (case vmg_delete vm volume_id of
                    Some e \<Rightarrow> (Inl (PinProvider e), st, [Delete volume_id])
                  | None \<Rightarrow> (Inr None, gone, [Delete volume_id]))
             | _ \<Rightarrow> (Inr None, gone, []))
          else
            (let v' = v\<lparr>vol_models := filter (\<lambda>m. m \<noteq> model) (vol_models v)\<rparr> in
             (Inr (Some v'), st\<lparr>st_volumes := (st_volumes st)(volume_id \<mapsto> v')\<rparr>, [])))"

subsection \<open>Correctness\<close>

text \<open>\<open>order\<close> visits the registry: every volume, and nothing else.\<close>

definition visits :: "gostring list \<Rightarrow> state \<Rightarrow> bool" where
  "visits order st \<longleftrightarrow> set order = dom (st_volumes st)"

lemma visited: "visits order st \<Longrightarrow> v \<in> set (List.map_filter (st_volumes st) order) \<longleftrightarrow> v \<in> ran (st_volumes st)"
  by (force simp: visits_def map_filter_def ran_def)

lemma warm_mount_exact:
  assumes "visits order st"
  shows "resolveWarmMount order st model provider region = None \<longleftrightarrow>
     model = [] \<or> provider = [] \<or> region = []
     \<or> (\<forall>v \<in> ran (st_volumes st). \<not> holds_model model provider region v)"
    and "resolveWarmMount order st model provider region = Some m \<Longrightarrow>
     \<exists>v \<in> ran (st_volumes st). holds_model model provider region v \<and> m = volume_mount_of v"
  using visited [OF assms]
  by (auto simp: resolveWarmMount_def find_None_iff find_Some_iff split: if_splits)
     (metis nth_mem)

text \<open>The registry keys a volume by its id, and no volume lists a model twice.\<close>

definition registry_ok :: "state \<Rightarrow> bool" where
  "registry_ok st \<longleftrightarrow> (\<forall>k v. st_volumes st k = Some v \<longrightarrow> vol_id v = k \<and> distinct (vol_models v))"

lemma add_model_models [simp]:
  "set (vol_models (add_model m v)) = insert m (set (vol_models v))" "vol_id (add_model m v) = vol_id v"
  "vol_provider (add_model m v) = vol_provider v" "vol_region (add_model m v) = vol_region v"
  "distinct (vol_models v) \<Longrightarrow> distinct (vol_models (add_model m v))"
  by (auto simp: add_model_def)

lemma record_pin_keeps_ok: "registry_ok st \<Longrightarrow> registry_ok (snd (record_pin req ref now st))"
  by (auto simp: registry_ok_def record_pin_def Let_def new_volume_def split: option.splits)

lemma PinModel_cases:
  obtains (failed) e calls where "PinModel providers now req st = (Inl e, st, calls)"
  | (pinned) vm ref calls where "pr_model req \<noteq> []" "pr_region req \<noteq> []" "providers (pr_provider req) = Some (Some vm)"
      "vmg_ensure vm (cacheVolumeName (pr_region req)) (pr_region req) (pin_size req) = Inr ref"
      "PinModel providers now req st =
         (Inr (fst (record_pin req ref now st), already_staged req (vr_id ref) st), snd (record_pin req ref now st), calls)"
      "Stage (vr_id ref) (pr_model req) \<in> set calls \<longleftrightarrow> \<not> already_staged req (vr_id ref) st"
proof (cases "\<exists>e calls. PinModel providers now req st = (Inl e, st, calls)")
  case True
  then show thesis using failed by blast
next
  case False
  then obtain vm where vm: "pr_model req \<noteq> []" "pr_region req \<noteq> []" "providers (pr_provider req) = Some (Some vm)"
    by (auto simp: PinModel_def split: if_splits option.splits)
  with False obtain ref where ref: "vmg_ensure vm (cacheVolumeName (pr_region req)) (pr_region req) (pin_size req) = Inr ref"
    by (auto simp: PinModel_def Let_def split: sum.splits)
  with vm False pinned [OF vm ref] show thesis
    by (cases "already_staged req (vr_id ref) st"; cases "vmg_stage vm (vr_id ref) (pr_model req)")
       (simp_all add: PinModel_def Let_def split_beta)
qed

lemma pin_unpin_keep_ok:
  assumes "registry_ok st"
  shows "registry_ok (fst (snd (PinModel providers now req st)))"
    "registry_ok (fst (snd (UnpinModel providers volume_id model st)))"
proof -
  show "registry_ok (fst (snd (PinModel providers now req st)))"
    using assms record_pin_keeps_ok [OF assms] by (cases rule: PinModel_cases [of providers now req st]) simp_all
  show "registry_ok (fst (snd (UnpinModel providers volume_id model st)))"
    using assms by (auto simp: UnpinModel_def Let_def registry_ok_def split: option.splits)
qed

text \<open>
  Pinning makes later deployments warm.  After a successful pin of a model in a region, a
  deployment of that model to that provider and region finds a mount, as long as the provider's
  volume lies in the region asked for and is not registered to another provider or region; the
  mount names a registered volume that holds the model.  A second pin changes nothing and
  downloads nothing.
\<close>

theorem pin_makes_warm:
  assumes "PinModel providers now req st = (Inr (v, staged), st', calls)" and "pr_provider req \<noteq> []"
    and "vol_provider v = pr_provider req" and "vol_region v = pr_region req" and "visits order st'"
    and "registry_ok st" and "\<not> pr_force req"
  shows "(\<exists>m w. resolveWarmMount order st' (pr_model req) (pr_provider req) (pr_region req) = Some m
        \<and> w \<in> ran (st_volumes st') \<and> holds_model (pr_model req) (pr_provider req) (pr_region req) w \<and> m = volume_mount_of w)
    \<and> (\<exists>calls'. PinModel providers now' req st' = (Inr (v, True), st', calls') \<and> (\<forall>k. Stage k (pr_model req) \<notin> set calls'))"
proof (cases rule: PinModel_cases [of providers now req st])
  case (failed e calls)
  with assms(1) show ?thesis by simp
next
  case (pinned vm ref calls')
  have st': "st' = st\<lparr>st_volumes := (st_volumes st)(vr_id ref \<mapsto> v)\<rparr>" and v: "pr_model req \<in> set (vol_models v)"
    using pinned(5) assms(1) by (auto simp: record_pin_def Let_def)
  have reg: "v \<in> ran (st_volumes st')" and holds: "holds_model (pr_model req) (pr_provider req) (pr_region req) v"
    using st' v assms(3,4) by (auto simp: ran_def holds_model_def)
  have "resolveWarmMount order st' (pr_model req) (pr_provider req) (pr_region req) \<noteq> None"
    using warm_mount_exact(1) [OF assms(5)] pinned(1,2) assms(2) reg holds by blast
  then obtain m where m: "resolveWarmMount order st' (pr_model req) (pr_provider req) (pr_region req) = Some m" by blast
  have rec: "record_pin req ref now' st' = (v, st')"
    using v by (simp add: record_pin_def st' add_model_def)
  have "already_staged req (vr_id ref) st'" using v assms(7) by (simp add: already_staged_def st')
  then have "PinModel providers now' req st' =
      (Inr (v, True), st', [Ensure (cacheVolumeName (pr_region req)) (pr_region req) (pin_size req)])"
    using pinned(1-4) rec by (simp add: PinModel_def Let_def)
  then show ?thesis using m warm_mount_exact(2) [OF assms(5) m] by auto
qed

text \<open>
  Unpinning a model takes the volume out of the warm path for that model only: the volume stays
  registered, its other models stay pinned, no provider call is made, and no other volume changes.
\<close>

theorem unpin_model_exact:
  assumes "st_volumes st k = Some v" and "k \<noteq> []" and "model \<noteq> []"
  shows "\<exists>v' st'. UnpinModel providers k model st = (Inr (Some v'), st', [])
    \<and> st_volumes st' k = Some v' \<and> \<not> holds_model model (vol_provider v) (vol_region v) v'
    \<and> (\<forall>m. m \<noteq> model \<longrightarrow> (m \<in> set (vol_models v') \<longleftrightarrow> m \<in> set (vol_models v)))
    \<and> (\<forall>k'. k' \<noteq> k \<longrightarrow> st_volumes st' k' = st_volumes st k')
    \<and> st_instances st' = st_instances st \<and> st_deployments st' = st_deployments st"
  using assms by (simp add: UnpinModel_def holds_model_def Let_def)

text \<open>
  An unpin of a whole volume whose provider is no longer configured forgets the volume without
  deleting it.
\<close>

theorem unpin_forgets_volume:
  assumes "st_volumes st k = Some v" and "k \<noteq> []" and "providers (vol_provider v) = None"
  shows "\<exists>st'. UnpinModel providers k [] st = (Inr None, st', []) \<and> st_volumes st' k = None"
  using assms by (simp add: UnpinModel_def Let_def)

definition pin_manager :: volume_manager where
  "pin_manager = \<lparr>vmg_ensure = (\<lambda>name region size. Inr \<lparr>vr_id = ''vol'', vr_region = region, vr_name = name, vr_size_gb = size, vr_host_path = []\<rparr>),
     vmg_stage = (\<lambda>_ _. None), vmg_delete = (\<lambda>_. None)\<rparr>"

definition pin_sample :: pin_request where
  "pin_sample = \<lparr>pr_model = ''m'', pr_provider = ''p'', pr_region = ''r'', pr_size_gb = 0, pr_force = False\<rparr>"

theorem pin_makes_warm_witness:
  "\<exists>v staged st' calls m. PinModel [''p'' \<mapsto> Some pin_manager] 0 pin_sample NewState = (Inr (v, staged), st', calls)
     \<and> resolveWarmMount [''vol''] st' ''m'' ''p'' ''r'' = Some m"
proof -
  obtain v st' calls where run: "PinModel [''p'' \<mapsto> Some pin_manager] 0 pin_sample NewState = (Inr (v, False), st', calls)"
    and v: "vol_provider v = ''p''" "vol_region v = ''r''" and dom: "visits [''vol''] st'"
    by (simp add: PinModel_def pin_sample_def pin_manager_def already_staged_def NewState_def record_pin_def new_volume_def
        add_model_def visits_def Let_def)
  have req: "pr_provider pin_sample = ''p''" "pr_region pin_sample = ''r''" "pr_model pin_sample = ''m''" "\<not> pr_force pin_sample"
    by (simp_all add: pin_sample_def)
  have "registry_ok NewState" by (simp add: registry_ok_def NewState_def)
  then obtain m where "resolveWarmMount [''vol''] st' ''m'' ''p'' ''r'' = Some m"
    using pin_makes_warm [OF run, of "[''vol'']" 0] v dom req(4) unfolding req(1-3) by auto
  with run show ?thesis by blast
qed

theorem unpin_model_exact_witness:
  "\<exists>v' st'. UnpinModel Map.empty ''k'' ''m'' (NewState\<lparr>st_volumes := [''k'' \<mapsto> new_volume pin_sample
       \<lparr>vr_id = ''k'', vr_region = [], vr_name = [], vr_size_gb = 1, vr_host_path = []\<rparr> 0]\<rparr>) = (Inr (Some v'), st', [])"
  using unpin_model_exact [of "NewState\<lparr>st_volumes := [''k'' \<mapsto> new_volume pin_sample
       \<lparr>vr_id = ''k'', vr_region = [], vr_name = [], vr_size_gb = 1, vr_host_path = []\<rparr> 0]\<rparr>" "''k''" _ "''m''" Map.empty] by fastforce

subsection \<open>The mount guards of a deployment\<close>

text \<open>\<^verbatim>\<open>checkMountProviders\<close>: the first mount that belongs to another provider than a placement.\<close>

definition checkMountProviders :: "volume_mount list \<Rightarrow> gostring list \<Rightarrow> (gostring \<times> gostring \<times> gostring) option" where
  "checkMountProviders mounts placements =
     (case [(m, p). m \<leftarrow> mounts, vm_provider m \<noteq> [], p \<leftarrow> placements, p \<noteq> [] \<and> p \<noteq> vm_provider m] of
        [] \<Rightarrow> None
      | (m, p) # _ \<Rightarrow> Some (vm_volume_id m, vm_provider m, p))"

text \<open>
  How a provider deploys: through its own deployer, which may declare that it attaches mounts, or
  over SSH.  An unknown name passes.
\<close>

datatype deploy_path = OwnDeployer bool | OverSSH

definition deployPathAttachesMounts :: "(gostring \<rightharpoonup> deploy_path) \<Rightarrow> gostring \<Rightarrow> bool" where
  "deployPathAttachesMounts paths name =
     (case paths name of None \<Rightarrow> True | Some OverSSH \<Rightarrow> True | Some (OwnDeployer attaches) \<Rightarrow> attaches)"

definition checkMountsAttachable :: "(gostring \<rightharpoonup> deploy_path) \<Rightarrow> volume_mount list \<Rightarrow> gostring list \<Rightarrow> gostring option" where
  "checkMountsAttachable paths mounts placements =
     (if mounts = [] then None
      else List.find (\<lambda>name. name \<noteq> [] \<and> name \<noteq> ProviderExternal \<and> \<not> deployPathAttachesMounts paths name) placements)"

lemma homogeneous_providers:
  "homogeneousPlacement specs = Some (provider, region) \<Longrightarrow> s \<in> set specs \<Longrightarrow> rs_provider s = provider \<and> rs_region s = region"
proof -
  have "homogeneous_tail provider region ss \<Longrightarrow> s \<in> set ss \<Longrightarrow> rs_provider s = provider \<and> rs_region s = region" for ss
    by (induction ss) auto
  then show "homogeneousPlacement specs = Some (provider, region) \<Longrightarrow> s \<in> set specs \<Longrightarrow> rs_provider s = provider \<and> rs_region s = region"
    by (auto simp: homogeneousPlacement_def split: list.splits if_splits)
qed

text \<open>
  A mount resolved from the registry passes the deployment's guard by construction: when every
  replica of a fleet goes to one provider and region, the mount found for that place holds the
  model there and belongs to the provider of every replica.
\<close>

theorem warm_mount_passes_guard:
  assumes "homogeneousPlacement specs = Some (provider, region)" and "visits order st"
    and "resolveWarmMount order st model provider region = Some m"
  shows "checkMountProviders [m] (map rs_provider specs) = None
    \<and> (\<exists>v \<in> ran (st_volumes st). vol_id v = vm_volume_id m \<and> holds_model model provider region v)"
proof -
  obtain v where v: "v \<in> ran (st_volumes st)" "holds_model model provider region v" "m = volume_mount_of v"
    using warm_mount_exact(2) [OF assms(2,3)] by blast
  have "vm_provider m = provider" using v by (simp add: holds_model_def volume_mount_of_def)
  then have "[(m', p). m' \<leftarrow> [m], vm_provider m' \<noteq> [], p \<leftarrow> map rs_provider specs, p \<noteq> [] \<and> p \<noteq> vm_provider m'] = []"
    using homogeneous_providers [OF assms(1)] by (auto simp: concat_eq_Nil_conv)
  then have "checkMountProviders [m] (map rs_provider specs) = None"
    unfolding checkMountProviders_def by simp
  with v show ?thesis by (auto simp: volume_mount_of_def)
qed

theorem warm_mount_passes_guard_witness:
  "\<exists>m. resolveWarmMount [''k''] (NewState\<lparr>st_volumes := [''k'' \<mapsto> add_model ''m'' (new_volume pin_sample
       \<lparr>vr_id = ''k'', vr_region = ''r'', vr_name = [], vr_size_gb = 1, vr_host_path = []\<rparr> 0)]\<rparr>) ''m'' ''p'' ''r'' = Some m
     \<and> checkMountProviders [m] [''p''] = None"
proof -
  let ?v = "add_model ''m'' (new_volume pin_sample \<lparr>vr_id = ''k'', vr_region = ''r'', vr_name = [], vr_size_gb = 1, vr_host_path = []\<rparr> 0)"
  let ?st = "NewState\<lparr>st_volumes := [''k'' \<mapsto> ?v]\<rparr>"
  let ?spec = "\<lparr>rs_provider = ''p'', rs_region = ''r'', rs_requirements = None, rs_replicas = 1, rs_engine_endpoint = [], rs_nodes = 1\<rparr>"
  have h: "homogeneousPlacement [?spec] = Some (''p'', ''r'')" by (simp add: homogeneousPlacement_def)
  have o: "visits [''k''] ?st" by (simp add: visits_def)
  have m: "resolveWarmMount [''k''] ?st ''m'' ''p'' ''r'' = Some (volume_mount_of ?v)"
    by (simp add: resolveWarmMount_def map_filter_def holds_model_def new_volume_def pin_sample_def add_model_def)
  from warm_mount_passes_guard [OF h o m] m show ?thesis by auto
qed

end
