(* ===== verification/Provider_Volumes.thy ===== *)
theory Provider_Volumes
imports Adapter_Contracts Pin
begin

text \<open>
  The cache volumes of the providers (\<^verbatim>\<open>runpod/volume.go\<close>, \<^verbatim>\<open>runpod/stage.go\<close>,
  \<^verbatim>\<open>lambdalabs/volume.go\<close>): finding or creating, listing and deleting a volume, staging a model onto
  it, and what pinning does with the two managers.
\<close>

subsection \<open>The vendor\<close>

text \<open>
  The vendor's calls on its volumes of type \<open>'v\<close>, as transitions of the account's state \<open>'s\<close>; the
  size is what a vendor that takes one is asked for.
\<close>

record ('v, 's) volume_api =
  vp_decode :: decode
  vp_decode_list :: "gostring \<Rightarrow> error_body list option"
  vp_quote :: "gostring \<Rightarrow> gostring"
  vp_list :: "'s \<Rightarrow> call_failure + 'v list"
  vp_create :: "gostring \<Rightarrow> gostring \<Rightarrow> int \<Rightarrow> 's \<Rightarrow> (call_failure + 'v) \<times> 's"
  vp_delete :: "gostring \<Rightarrow> 's \<Rightarrow> call_failure option \<times> 's"

text \<open>What a vendor documents of creation: the volume has the name and region asked for and is listed.\<close>

definition keeps_volumes :: "('v \<Rightarrow> gostring) \<Rightarrow> ('v \<Rightarrow> gostring) \<Rightarrow> ('v, 's) volume_api \<Rightarrow> bool" where
  "keeps_volumes name_of region_of api \<longleftrightarrow>
     (\<forall>n r z s v s'. vp_create api n r z s = (Inr v, s') \<longrightarrow>
        name_of v = n \<and> region_of v = r
        \<and> (\<forall>vs. vp_list api s = Inr vs \<longrightarrow> vp_list api s' = Inr (vs @ [v])))"

subsection \<open>RunPod\<close>

record network_volume =
  nv_id :: gostring
  nv_name :: gostring
  nv_size :: int
  nv_data_center :: gostring

definition runpod_volumeRef :: "network_volume \<Rightarrow> volume_ref" where
  "runpod_volumeRef v =
     \<lparr>vr_id = nv_id v, vr_region = nv_data_center v, vr_name = nv_name v, vr_size_gb = nv_size v, vr_host_path = []\<rparr>"

definition runpod_volume_err :: "('v, 's) volume_api \<Rightarrow> gostring \<Rightarrow> call_failure \<Rightarrow> provider_error" where
  "runpod_volume_err api op = runpod_wrapErr (vp_decode api) (vp_decode_list api) op"

definition createNetworkVolume ::
  "(network_volume, 's) volume_api \<Rightarrow> gostring \<Rightarrow> gostring \<Rightarrow> int \<Rightarrow> 's \<Rightarrow> (provider_error + network_volume) \<times> 's" where
  "createNetworkVolume api name region sz s =
     (case vp_create api name region sz s of
        (answer, s') \<Rightarrow> (map_sum (runpod_volume_err api ''create network volume'') id answer, s'))"

definition listNetworkVolumes :: "(network_volume, 's) volume_api \<Rightarrow> 's \<Rightarrow> provider_error + network_volume list" where
  "listNetworkVolumes api s = map_sum (runpod_volume_err api ''list network volumes'') id (vp_list api s)"

definition deleteNetworkVolume :: "(network_volume, 's) volume_api \<Rightarrow> gostring \<Rightarrow> 's \<Rightarrow> provider_error option \<times> 's" where
  "deleteNetworkVolume api x s =
     (case vp_delete api x s of (answer, s') \<Rightarrow> (map_option (runpod_volume_err api ''delete network volume'') answer, s'))"

definition runpod_EnsureVolume ::
  "(network_volume, 's) volume_api \<Rightarrow> gostring \<Rightarrow> gostring \<Rightarrow> int \<Rightarrow> 's \<Rightarrow> (provider_error + volume_ref) \<times> 's" where
  "runpod_EnsureVolume api name region sz s =
     (case listNetworkVolumes api s of
        Inl err \<Rightarrow> (Inl err, s)
      | Inr existing \<Rightarrow>
          (case find (\<lambda>v. nv_name v = name \<and> nv_data_center v = region) existing of
             Some v \<Rightarrow> (Inr (runpod_volumeRef v), s)
           | None \<Rightarrow>
               (case createNetworkVolume api name region sz s of
                  (Inl err, s') \<Rightarrow> (Inl err, s')
                | (Inr v, s') \<Rightarrow> (Inr (runpod_volumeRef v), s'))))"

definition runpod_ListVolumes :: "(network_volume, 's) volume_api \<Rightarrow> 's \<Rightarrow> provider_error + volume_ref list" where
  "runpod_ListVolumes api s = map_sum id (map runpod_volumeRef) (listNetworkVolumes api s)"

definition runpod_DeleteVolume :: "(network_volume, 's) volume_api \<Rightarrow> gostring \<Rightarrow> 's \<Rightarrow> provider_error option \<times> 's" where
  "runpod_DeleteVolume api x s = deleteNetworkVolume api x s"

subsection \<open>Lambda Labs\<close>

record filesystem =
  fs_id :: gostring
  fs_name :: gostring
  fs_mount_point :: gostring
  fs_region :: gostring

definition lambda_volumeRef :: "filesystem \<Rightarrow> volume_ref" where
  "lambda_volumeRef f =
     \<lparr>vr_id = fs_name f, vr_region = fs_region f, vr_name = fs_name f, vr_size_gb = 0, vr_host_path = fs_mount_point f\<rparr>"

text \<open>\<^verbatim>\<open>^[a-zA-Z]+[0-9a-zA-Z-]{0,59}$\<close>: letters, then at most 59 of the wider class.\<close>

definition ascii_letters :: gostring where
  "ascii_letters = ''abcdefghijklmnopqrstuvwxyzABCDEFGHIJKLMNOPQRSTUVWXYZ''"

definition filesystemName :: "gostring \<Rightarrow> bool" where
  "filesystemName n \<longleftrightarrow>
     (let letters = takeWhile (\<lambda>c. c \<in> set ascii_letters) n; rest = drop (length letters) n in
      letters \<noteq> [] \<and> length rest \<le> 59 \<and> set rest \<subseteq> set (ascii_letters @ ''0123456789-''))"

definition lambda_EnsureVolume ::
  "(filesystem, 's) volume_api \<Rightarrow> gostring \<Rightarrow> gostring \<Rightarrow> int \<Rightarrow> 's \<Rightarrow> (provider_error + volume_ref) \<times> 's" where
  "lambda_EnsureVolume api name region sz s =
     (if \<not> filesystemName name then
        (Inl (NewProviderError ''lambdalabs'' ''ensure-volume''
           (''filesystem name '' @ vp_quote api name @ '' is not one Lambda accepts: it must start with a letter and carry only ''
            @ ''letters, digits and hyphens, at most 60 characters'')), s)
      else if region = [] then
        (Inl (NewProviderError ''lambdalabs'' ''ensure-volume''
           (''region is required; a Lambda filesystem is region-locked and can only be mounted by an instance in the ''
            @ ''same region'')), s)
      else case vp_list api s of
        Inl err \<Rightarrow> (Inl (lambda_wrapErr (vp_decode api) ''ensure-volume:list'' err), s)
      | Inr existing \<Rightarrow>
          (case find (\<lambda>f. fs_name f = name \<and> fs_region f = region) existing of
             Some f \<Rightarrow> (Inr (lambda_volumeRef f), s)
           | None \<Rightarrow>
               (case vp_create api name region 0 s of
                  (Inl err, s') \<Rightarrow> (Inl (lambda_wrapErr (vp_decode api) ''ensure-volume:create'' err), s')
                | (Inr f, s') \<Rightarrow> (Inr (lambda_volumeRef f), s'))))"

definition lambda_ListVolumes :: "(filesystem, 's) volume_api \<Rightarrow> 's \<Rightarrow> provider_error + volume_ref list" where
  "lambda_ListVolumes api s = map_sum (lambda_wrapErr (vp_decode api) ''list-volumes'') (map lambda_volumeRef) (vp_list api s)"

definition isFilesystemInUse :: "('v, 's) volume_api \<Rightarrow> call_failure \<Rightarrow> bool" where
  "isFilesystemInUse api err \<longleftrightarrow>
     (case err of
        HTTPFailure _ body \<Rightarrow> snd (lambda_parseErrorBody (vp_decode api) body) = ''filesystems/filesystem-in-use''
      | TransportFailure _ \<Rightarrow> False)"

definition lambda_DeleteVolume :: "(filesystem, 's) volume_api \<Rightarrow> gostring \<Rightarrow> 's \<Rightarrow> provider_error option \<times> 's" where
  "lambda_DeleteVolume api volumeID s =
     (case vp_list api s of
        Inl err \<Rightarrow> (Some (lambda_wrapErr (vp_decode api) ''delete-volume:list'' err), s)
      | Inr all \<Rightarrow>
          (case find (\<lambda>f. fs_name f = volumeID \<or> fs_id f = volumeID) all of
             None \<Rightarrow> (None, s)
           | Some f \<Rightarrow>
               if fs_id f = [] then (None, s)
               else (case vp_delete api (fs_id f) s of
                 (None, s') \<Rightarrow> (None, s')
               | (Some err, s') \<Rightarrow>
                   (case lambda_wrapErr (vp_decode api) ''delete-volume'' err of
                      PNotFound _ \<Rightarrow> (None, s')
                    | PError t \<Rightarrow>
                        if isFilesystemInUse api err then
                          (Some (NewProviderError ''lambdalabs'' ''delete-volume''
                             (''filesystem '' @ vp_quote api volumeID @ '' is still mounted; an instance may only be terminating ''
                              @ ''rather than terminated, so retry once it is gone'')), s')
                        else (Some (PError t), s')))))"

definition lambda_StageModel :: "('v, 's) volume_api \<Rightarrow> gostring \<Rightarrow> provider_error option" where
  "lambda_StageModel api model =
     Some (NewProviderError ''lambdalabs'' ''stage-model''
       (''staging '' @ vp_quote api model @ '' onto a Lambda filesystem is not implemented yet (#436); the volume exists and ''
        @ ''mounts, but nothing downloads onto it. Stage by hand over SSH, or pin on a provider with a CPU tier''))"

subsection \<open>Staging on RunPod\<close>

definition stageSentinelDone :: gostring where "stageSentinelDone = ''__IPLANE_STAGE_DONE__''"
definition stageSentinelFail :: gostring where "stageSentinelFail = ''__IPLANE_STAGE_FAIL__''"
definition defaultStageImage :: gostring where "defaultStageImage = ''python:3.11-slim''"
definition stagePollInterval :: duration where "stagePollInterval = 10 * second"
definition stageTimeout :: duration where "stageTimeout = 1800 * second"

definition volumeShortID :: "gostring \<Rightarrow> gostring" where
  "volumeShortID volumeID = (let x = to_lower volumeID in if 12 < length x then take 12 x else x)"

text \<open>Whether the logs say the download is done, and whether they say it failed.\<close>

definition stageSignal :: "gostring \<Rightarrow> bool \<times> bool" where
  "stageSignal logs =
     (if contains logs stageSentinelFail then (False, True)
      else if contains logs stageSentinelDone then (True, False)
      else (False, False))"

record stage_spec =
  sg_volume :: gostring
  sg_region :: gostring
  sg_model :: gostring
  sg_mount_path :: gostring
  sg_hf_token :: gostring

record stage_request =
  tq_name :: gostring
  tq_image :: gostring
  tq_compute :: gostring
  tq_volume :: gostring
  tq_mount :: gostring
  tq_data_centers :: "gostring list"
  tq_env :: "gostring \<rightharpoonup> gostring"
  tq_cmd :: "gostring list"

definition stage_command :: "gostring \<Rightarrow> gostring" where
  "stage_command model =
     ''if pip install -q -U '' @ [CHR 0x27] @ ''huggingface_hub[cli]'' @ [CHR 0x27] @ '' && hf download '' @ model
     @ '' --max-workers 2; then echo '' @ stageSentinelDone @ ''; else echo '' @ stageSentinelFail @ ''; fi; sleep infinity''"

definition stage_body :: "stage_spec \<Rightarrow> stage_request" where
  "stage_body sp =
     (let mountPath = (if sg_mount_path sp = [] then ''/models'' else sg_mount_path sp) in
      \<lparr>tq_name = ''iplane-stage-'' @ volumeShortID (sg_volume sp), tq_image = defaultStageImage, tq_compute = ''CPU'',
       tq_volume = sg_volume sp, tq_mount = mountPath, tq_data_centers = [sg_region sp],
       tq_env = (if sg_hf_token sp \<noteq> [] then [''HF_HOME'' \<mapsto> mountPath @ ''/hf'', ''HF_TOKEN'' \<mapsto> sg_hf_token sp]
                 else [''HF_HOME'' \<mapsto> mountPath @ ''/hf'']),
       tq_cmd = [''bash'', ''-lc'', stage_command (sg_model sp)]\<rparr>)"

text \<open>
  One poll: the logs it reads (\<open>None\<close> for a failed read), the clock after it, and the error of the
  context if it ends while the poll waits.
\<close>

record stage_poll =
  sp_logs :: "gostring option"
  sp_after :: timestamp
  sp_done :: "gostring option"

datatype stage_end = Staged | StageFailed | StageTimedOut | StageCancelled gostring

fun waitForStageComplete :: "timestamp \<Rightarrow> stage_poll list \<Rightarrow> stage_end option" where
  "waitForStageComplete deadline [] = None"
| "waitForStageComplete deadline (p # ps) =
     (case map_option stageSignal (sp_logs p) of
        Some (_, True) \<Rightarrow> Some StageFailed
      | Some (True, False) \<Rightarrow> Some Staged
      | _ \<Rightarrow>
          if deadline < sp_after p then Some StageTimedOut
          else (case sp_done p of
            Some e \<Rightarrow> Some (StageCancelled e)
          | None \<Rightarrow> waitForStageComplete deadline ps))"

definition stage_budget :: "duration \<Rightarrow> duration" where
  "stage_budget b = (if b \<le> 0 then stageTimeout else b)"

text \<open>The vendor's calls on pods, as transitions of the account's state.\<close>

record 's pod_api =
  pa_decode :: decode
  pa_decode_list :: "gostring \<Rightarrow> error_body list option"
  pa_create :: "stage_request \<Rightarrow> 's \<Rightarrow> (call_failure + pod_created) \<times> 's"
  pa_delete :: "gostring \<Rightarrow> 's \<Rightarrow> call_failure option \<times> 's"

text \<open>The calls a staging makes: the pod it creates, and the one it deletes with the error of \<^verbatim>\<open>Terminate\<close>.\<close>

datatype stage_call = CreatePod stage_request | DeletePod gostring "gostring option"

text \<open>\<^verbatim>\<open>Terminate\<close> on the account; without an id it fails and calls nobody.\<close>

definition stage_terminate :: "'s pod_api \<Rightarrow> gostring \<Rightarrow> 's \<Rightarrow> gostring option \<times> 's" where
  "stage_terminate api providerID s =
     (if providerID = [] then (Some (error_text (NewProviderError ''runpod'' ''terminate'' ''providerID is empty'')), s)
      else (case pa_delete api providerID s of
        (answer, s') \<Rightarrow> (released (runpod_wrapErr (pa_decode api) (pa_decode_list api) ''terminate'') answer, s')))"

text \<open>
  \<open>meanwhile\<close> is what happens to the account between the creation and the deferred \<^verbatim>\<open>Terminate\<close>, whose error
  the code drops: the staging's answer is that of the wait.
\<close>

definition runpod_StageModel ::
  "'s pod_api \<Rightarrow> ('s \<Rightarrow> 's) \<Rightarrow> duration \<Rightarrow> timestamp \<Rightarrow> stage_poll list \<Rightarrow> stage_spec \<Rightarrow> 's
     \<Rightarrow> (provider_error + stage_end) option \<times> stage_call list \<times> 's" where
  "runpod_StageModel api meanwhile budget now polls sp s =
     (case pa_create api (stage_body sp) s of
        (Inl err, s1) \<Rightarrow>
          (Some (Inl (runpod_wrapErr (pa_decode api) (pa_decode_list api) ''stage model'' err)), [CreatePod (stage_body sp)], s1)
      | (Inr created, s1) \<Rightarrow>
          (case waitForStageComplete (now + stage_budget budget) polls of
             None \<Rightarrow> (None, [CreatePod (stage_body sp)], s1)
           | Some r \<Rightarrow>
               (case stage_terminate api (pc_id created) (meanwhile s1) of
                  (err, s2) \<Rightarrow>
                    (Some (Inr r), CreatePod (stage_body sp) # (if pc_id created = [] then [] else [DeletePod (pc_id created) err]), s2))))"

subsection \<open>Finding or creating is idempotent\<close>

locale volume_ensurer =
  fixes ensure :: "'api \<Rightarrow> gostring \<Rightarrow> gostring \<Rightarrow> int \<Rightarrow> 's \<Rightarrow> (provider_error + volume_ref) \<times> 's"
    and sane :: "'api \<Rightarrow> bool"
  assumes names: "sane api \<Longrightarrow> ensure api n r z s = (Inr ref, s') \<Longrightarrow> vr_name ref = n \<and> vr_region ref = r"
    and again: "sane api \<Longrightarrow> ensure api n r z s = (Inr ref, s') \<Longrightarrow> ensure api n r z' s' = (Inr ref, s')"
begin

text \<open>Any number of later calls, whatever their sizes, give the same volume and create nothing.\<close>

lemma settled:
  assumes "sane api" "ensure api n r z s = (Inr ref, s')"
  shows "fold (\<lambda>z (refs, s). case ensure api n r z s of (Inr x, s'') \<Rightarrow> (refs @ [x], s'') | (Inl _, s'') \<Rightarrow> (refs, s''))
           zs (xs, s') = (xs @ replicate (length zs) ref, s')"
proof (induction zs arbitrary: xs)
  case (Cons z' zs)
  then show ?case using again [OF assms, of z'] by (simp add: replicate_append_same)
qed simp

end

lemma find_holds: "find P xs = Some x \<Longrightarrow> P x"
  by (induction xs) (auto split: if_splits)

lemma find_append: "find P (xs @ ys) = (case find P xs of Some x \<Rightarrow> Some x | None \<Rightarrow> find P ys)"
  by (induction xs) auto

text \<open>The common shape of the two: the first volume of the name and region, or a new one.\<close>

definition found_or_created ::
  "('v \<Rightarrow> gostring) \<Rightarrow> ('v \<Rightarrow> gostring) \<Rightarrow> ('v, 's) volume_api \<Rightarrow> gostring \<Rightarrow> gostring \<Rightarrow> int \<Rightarrow> 's \<Rightarrow> 'v \<Rightarrow> 's \<Rightarrow> bool" where
  "found_or_created nm rg api n r z s v s' \<longleftrightarrow>
     (\<exists>vs. vp_list api s = Inr vs
        \<and> (case find (\<lambda>v. nm v = n \<and> rg v = r) vs of
             Some w \<Rightarrow> v = w \<and> s' = s
           | None \<Rightarrow> vp_create api n r z s = (Inr v, s')))"

lemma found_or_created_named:
  "keeps_volumes nm rg api \<Longrightarrow> found_or_created nm rg api n r z s v s' \<Longrightarrow> nm v = n \<and> rg v = r"
  by (auto simp: found_or_created_def keeps_volumes_def dest: find_holds split: option.splits)

lemma found_or_created_again:
  assumes "keeps_volumes nm rg api" "found_or_created nm rg api n r z s v s'"
  shows "found_or_created nm rg api n r z' s' v s'"
proof -
  obtain vs where vs: "vp_list api s = Inr vs"
      "case find (\<lambda>v. nm v = n \<and> rg v = r) vs of Some w \<Rightarrow> v = w \<and> s' = s | None \<Rightarrow> vp_create api n r z s = (Inr v, s')"
    using assms(2) unfolding found_or_created_def by blast
  show ?thesis
  proof (cases "find (\<lambda>v. nm v = n \<and> rg v = r) vs")
    case None
    then have "vp_list api s' = Inr (vs @ [v])" using assms(1) vs unfolding keeps_volumes_def by auto
    then show ?thesis
      using None found_or_created_named [OF assms] by (simp add: found_or_created_def find_append)
  qed (use vs in \<open>simp add: found_or_created_def\<close>)
qed

lemma runpod_ensure_iff:
  "runpod_EnsureVolume api n r z s = (Inr ref, s')
     \<longleftrightarrow> (\<exists>v. found_or_created nv_name nv_data_center api n r z s v s' \<and> ref = runpod_volumeRef v)"
proof (cases "vp_list api s")
  case (Inr vs)
  show ?thesis
  proof (cases "vp_create api n r z s")
    case (Pair answer s1)
    then show ?thesis
      using Inr by (cases answer) (auto simp: runpod_EnsureVolume_def listNetworkVolumes_def createNetworkVolume_def
          found_or_created_def split: option.splits)
  qed
qed (simp add: runpod_EnsureVolume_def listNetworkVolumes_def found_or_created_def)

interpretation runpod_volumes: volume_ensurer runpod_EnsureVolume "keeps_volumes nv_name nv_data_center"
proof unfold_locales
  fix api n r z s ref s'
  assume k: "keeps_volumes nv_name nv_data_center api" and e: "runpod_EnsureVolume api n r z s = (Inr ref, s')"
  obtain v where v: "found_or_created nv_name nv_data_center api n r z s v s'" "ref = runpod_volumeRef v"
    using e unfolding runpod_ensure_iff by blast
  show "vr_name ref = n \<and> vr_region ref = r"
    using found_or_created_named [OF k v(1)] v(2) by (simp add: runpod_volumeRef_def)
  fix z'
  show "runpod_EnsureVolume api n r z' s' = (Inr ref, s')"
    unfolding runpod_ensure_iff using found_or_created_again [OF k v(1)] v(2) by blast
qed

text \<open>Lambda is not asked for a size.\<close>

lemma lambda_ensure_iff:
  "lambda_EnsureVolume api n r z s = (Inr ref, s')
     \<longleftrightarrow> filesystemName n \<and> r \<noteq> []
       \<and> (\<exists>f. found_or_created fs_name fs_region api n r 0 s f s' \<and> ref = lambda_volumeRef f)"
proof (cases "vp_list api s")
  case (Inr vs)
  show ?thesis
  proof (cases "vp_create api n r 0 s")
    case (Pair answer s1)
    then show ?thesis
      using Inr by (cases answer) (auto simp: lambda_EnsureVolume_def found_or_created_def split: option.splits)
  qed
qed (simp add: lambda_EnsureVolume_def found_or_created_def)

interpretation lambda_volumes: volume_ensurer lambda_EnsureVolume "keeps_volumes fs_name fs_region"
proof unfold_locales
  fix api n r z s ref s'
  assume k: "keeps_volumes fs_name fs_region api" and e: "lambda_EnsureVolume api n r z s = (Inr ref, s')"
  obtain f where f: "found_or_created fs_name fs_region api n r 0 s f s'" "ref = lambda_volumeRef f"
    and ok: "filesystemName n" "r \<noteq> []"
    using e unfolding lambda_ensure_iff by blast
  show "vr_name ref = n \<and> vr_region ref = r"
    using found_or_created_named [OF k f(1)] f(2) by (simp add: lambda_volumeRef_def)
  fix z'
  show "lambda_EnsureVolume api n r z' s' = (Inr ref, s')"
    unfolding lambda_ensure_iff using found_or_created_again [OF k f(1)] f(2) ok by blast
qed

text \<open>
  C27: Ensuring a cache volume is idempotent.  On either provider, once a call has given a volume for
  a name and region, that volume has this name and region, and any further call for them, whatever
  its size, gives the same volume and changes nothing at the provider.
\<close>

theorem ensure_volume_idempotent:
  "(keeps_volumes nv_name nv_data_center ra \<and> runpod_EnsureVolume ra n r z s = (Inr ref, s') \<longrightarrow>
      vr_name ref = n \<and> vr_region ref = r \<and> runpod_EnsureVolume ra n r z' s' = (Inr ref, s'))
   \<and> (keeps_volumes fs_name fs_region la \<and> lambda_EnsureVolume la n r z t = (Inr ref, t') \<longrightarrow>
      vr_name ref = n \<and> vr_region ref = r \<and> lambda_EnsureVolume la n r z' t' = (Inr ref, t'))"
proof (intro conjI impI; elim conjE)
  assume a: "keeps_volumes nv_name nv_data_center ra" "runpod_EnsureVolume ra n r z s = (Inr ref, s')"
  show "vr_name ref = n" "vr_region ref = r" "runpod_EnsureVolume ra n r z' s' = (Inr ref, s')"
    using runpod_volumes.names [OF a] runpod_volumes.again [OF a] by simp_all
next
  assume a: "keeps_volumes fs_name fs_region la" "lambda_EnsureVolume la n r z t = (Inr ref, t')"
  show "vr_name ref = n" "vr_region ref = r" "lambda_EnsureVolume la n r z' t' = (Inr ref, t')"
    using lambda_volumes.names [OF a] lambda_volumes.again [OF a] by simp_all
qed

definition sample_volumes :: "(network_volume, network_volume list) volume_api" where
  "sample_volumes =
     \<lparr>vp_decode = (\<lambda>_. None), vp_decode_list = (\<lambda>_. None), vp_quote = id, vp_list = Inr,
      vp_create = (\<lambda>n r z vs. let v = \<lparr>nv_id = n @ r, nv_name = n, nv_size = z, nv_data_center = r\<rparr> in (Inr v, vs @ [v])),
      vp_delete = (\<lambda>x vs. (None, filter (\<lambda>v. nv_id v \<noteq> x) vs))\<rparr>"

definition sample_filesystems :: "(filesystem, filesystem list) volume_api" where
  "sample_filesystems =
     \<lparr>vp_decode = (\<lambda>_. None), vp_decode_list = (\<lambda>_. None), vp_quote = id, vp_list = Inr,
      vp_create = (\<lambda>n r z fs. let f = \<lparr>fs_id = n @ r, fs_name = n, fs_mount_point = ''/lambda/nfs/'' @ n, fs_region = r\<rparr>
        in (Inr f, fs @ [f])),
      vp_delete = (\<lambda>x fs. (None, filter (\<lambda>f. fs_id f \<noteq> x) fs))\<rparr>"

lemma samples_keep:
  "keeps_volumes nv_name nv_data_center sample_volumes" "keeps_volumes fs_name fs_region sample_filesystems"
  by (auto simp: keeps_volumes_def sample_volumes_def sample_filesystems_def Let_def)

theorem ensure_volume_idempotent_witness:
  "\<exists>ref s' t'. runpod_EnsureVolume sample_volumes ''c'' ''eu'' 200 [] = (Inr ref, s') \<and> vr_id ref = ''ceu''
     \<and> runpod_EnsureVolume sample_volumes ''c'' ''eu'' 500 s' = (Inr ref, s')
     \<and> (\<exists>ref. lambda_EnsureVolume sample_filesystems ''c'' ''eu'' 200 [] = (Inr ref, t') \<and> vr_host_path ref = ''/lambda/nfs/c''
         \<and> lambda_EnsureVolume sample_filesystems ''c'' ''eu'' 500 t' = (Inr ref, t'))"
proof -
  obtain ref s' where r: "runpod_EnsureVolume sample_volumes ''c'' ''eu'' 200 [] = (Inr ref, s')" "vr_id ref = ''ceu''"
    by (simp add: runpod_EnsureVolume_def listNetworkVolumes_def createNetworkVolume_def sample_volumes_def Let_def runpod_volumeRef_def)
  obtain ref' t' where l: "lambda_EnsureVolume sample_filesystems ''c'' ''eu'' 200 [] = (Inr ref', t')"
      "vr_host_path ref' = ''/lambda/nfs/c''"
    by (simp add: lambda_EnsureVolume_def filesystemName_def ascii_letters_def sample_filesystems_def Let_def lambda_volumeRef_def)
  show ?thesis
    using r l samples_keep
      ensure_volume_idempotent [of sample_volumes "''c''" "''eu''" 200 "[]" ref s' 500 sample_filesystems "[]" t']
      ensure_volume_idempotent [of sample_volumes "''c''" "''eu''" 200 "[]" ref' s' 500 sample_filesystems "[]" t']
    by blast
qed

subsection \<open>Pins on the adapters\<close>

definition runpod_manager ::
  "(network_volume, 's) volume_api \<Rightarrow> 's \<Rightarrow> (gostring \<Rightarrow> gostring \<Rightarrow> gostring option) \<Rightarrow> volume_manager" where
  "runpod_manager api s stage =
     \<lparr>vmg_ensure = (\<lambda>n r z. map_sum error_text id (fst (runpod_EnsureVolume api n r z s))), vmg_stage = stage,
      vmg_delete = (\<lambda>x. map_option error_text (fst (runpod_DeleteVolume api x s)))\<rparr>"

definition lambda_manager :: "(filesystem, 's) volume_api \<Rightarrow> 's \<Rightarrow> volume_manager" where
  "lambda_manager api s =
     \<lparr>vmg_ensure = (\<lambda>n r z. map_sum error_text id (fst (lambda_EnsureVolume api n r z s))),
      vmg_stage = (\<lambda>_ model. map_option error_text (lambda_StageModel api model)),
      vmg_delete = (\<lambda>x. map_option error_text (fst (lambda_DeleteVolume api x s)))\<rparr>"

text \<open>
  A pin on Lambda creates the volume before it finds out that it cannot stage, and then records
  nothing: the new filesystem is in no registry entry.
\<close>

theorem lambda_pin_leaks_volume:
  assumes "lambda_EnsureVolume api (cacheVolumeName (pr_region req)) (pr_region req) (pin_size req) s = (Inr ref, s')"
    and "pr_model req \<noteq> []" "pr_region req \<noteq> []" "providers (pr_provider req) = Some (Some (lambda_manager api s))"
    and "st_volumes st (vr_id ref) = None"
  shows "\<exists>e. PinModel providers now req st
     = (Inl (PinProvider e), st, [Ensure (cacheVolumeName (pr_region req)) (pr_region req) (pin_size req), Stage (vr_id ref) (pr_model req)])"
  using assms by (simp add: PinModel_def Let_def lambda_manager_def already_staged_def lambda_StageModel_def)

text \<open>The name check admits names longer than the limit its message states.\<close>

lemma long_filesystem_name_accepted: "filesystemName (replicate 100 CHR ''a'')"
  by (simp add: filesystemName_def ascii_letters_def Let_def takeWhile_replicate)

text \<open>A volume is deleted by its name alone, so the first of two regions' volumes of that name goes.\<close>

lemma delete_ignores_region:
  assumes "vp_list api s = Inr [f, g]" "fs_name f = fs_name g" "fs_region f \<noteq> fs_region g" "fs_id f \<noteq> []"
    and "vp_delete api (fs_id f) s = (None, s')"
  shows "lambda_DeleteVolume api (vr_id (lambda_volumeRef g)) s = (None, s')"
  using assms by (simp add: lambda_DeleteVolume_def lambda_volumeRef_def)

subsection \<open>The staging pod is handed back\<close>

text \<open>What the vendor documents of a deletion: a pod it accepted to delete, or does not know, is not on the account.\<close>

definition deletes_pods :: "'s pod_api \<Rightarrow> ('s \<Rightarrow> gostring set) \<Rightarrow> bool" where
  "deletes_pods api pods \<longleftrightarrow>
     (\<forall>k s answer s'. pa_delete api k s = (answer, s') \<longrightarrow> answer = None \<or> (\<exists>body. answer = Some (HTTPFailure 404 body)) \<longrightarrow> k \<notin> pods s')"

lemma released_gone:
  "released (runpod_wrapErr d ds op) answer = None \<longleftrightarrow> answer = None \<or> (\<exists>body. answer = Some (HTTPFailure 404 body))"
  by (auto simp: released_def runpod_wrapErr_def wrap_status_def NewProviderError_def
      split: option.splits call_failure.splits provider_error.splits)

lemma stage_marker:
  "waitForStageComplete deadline polls = Some Staged \<Longrightarrow>
     \<exists>ps p qs l. polls = ps @ p # qs \<and> sp_logs p = Some l \<and> contains l stageSentinelDone
          \<and> (\<forall>q \<in> set (ps @ [p]). \<forall>l. sp_logs q = Some l \<longrightarrow> \<not> contains l stageSentinelFail)"
proof (induction polls)
  case (Cons p ps)
  show ?case
  proof (cases "\<exists>l. sp_logs p = Some l \<and> contains l stageSentinelDone \<and> \<not> contains l stageSentinelFail")
    case True
    then obtain l where "sp_logs p = Some l" "contains l stageSentinelDone" "\<not> contains l stageSentinelFail" by blast
    then show ?thesis by (intro exI [of _ "[]"] exI [of _ p] exI [of _ ps] exI [of _ l]) simp
  next
    case False
    then have "waitForStageComplete deadline ps = Some Staged" "\<forall>l. sp_logs p = Some l \<longrightarrow> \<not> contains l stageSentinelFail"
      using Cons.prems by (auto simp: stageSignal_def split: option.splits if_splits)
    with Cons.IH obtain as q bs l where "ps = as @ q # bs" "sp_logs q = Some l" "contains l stageSentinelDone"
        "\<forall>q \<in> set (as @ [q]). \<forall>l. sp_logs q = Some l \<longrightarrow> \<not> contains l stageSentinelFail" by blast
    then show ?thesis
      using \<open>\<forall>l. sp_logs p = Some l \<longrightarrow> \<not> contains l stageSentinelFail\<close>
      by (intro exI [of _ "p # as"] exI [of _ q] exI [of _ bs] exI [of _ l]) auto
  qed
qed simp

text \<open>
  C33: A staging pod is handed back, as far as the vendor takes it back.  However a staging ends that has created a pod with an
  id, its last call asks the vendor to delete that pod, and unless that call fails the account is without it;
  the error of a call that fails is dropped (\<open>staging_pod_may_survive\<close>).  A staging reports success only if
  some poll of the logs showed the completion marker and none before it, nor that one, showed a failure.
\<close>

theorem staging_pod_returned:
  assumes "runpod_StageModel api meanwhile budget now polls sp s = (Some (Inr r), calls, s')" "deletes_pods api pods"
  shows "\<exists>c s1. pa_create api (stage_body sp) s = (Inr c, s1)
     \<and> (if pc_id c = [] then calls = [CreatePod (stage_body sp)] \<and> s' = meanwhile s1
        else (\<exists>err. calls = [CreatePod (stage_body sp), DeletePod (pc_id c) err] \<and> (err = None \<longrightarrow> pc_id c \<notin> pods s')))
     \<and> (r = Staged \<longrightarrow> (\<exists>ps p qs l. polls = ps @ p # qs \<and> sp_logs p = Some l \<and> contains l stageSentinelDone
          \<and> (\<forall>q \<in> set (ps @ [p]). \<forall>l. sp_logs q = Some l \<longrightarrow> \<not> contains l stageSentinelFail)))"
proof -
  obtain c s1 where c: "pa_create api (stage_body sp) s = (Inr c, s1)" "waitForStageComplete (now + stage_budget budget) polls = Some r"
    using assms(1) by (auto simp: runpod_StageModel_def split: sum.splits option.splits prod.splits)
  obtain err s2 where t: "stage_terminate api (pc_id c) (meanwhile s1) = (err, s2)" by fastforce
  have run: "calls = CreatePod (stage_body sp) # (if pc_id c = [] then [] else [DeletePod (pc_id c) err])" "s' = s2"
    using assms(1) c t by (simp_all add: runpod_StageModel_def)
  have "pc_id c \<noteq> [] \<Longrightarrow> err = None \<Longrightarrow> pc_id c \<notin> pods s2"
    using t assms(2) by (auto simp: stage_terminate_def deletes_pods_def released_gone split: prod.splits)
  moreover have "pc_id c = [] \<Longrightarrow> s2 = meanwhile s1" using t by (simp add: stage_terminate_def)
  ultimately have "if pc_id c = [] then calls = [CreatePod (stage_body sp)] \<and> s' = meanwhile s1
        else (\<exists>err. calls = [CreatePod (stage_body sp), DeletePod (pc_id c) err] \<and> (err = None \<longrightarrow> pc_id c \<notin> pods s'))"
    using run by simp
  moreover have "r = Staged \<longrightarrow> (\<exists>ps p qs l. polls = ps @ p # qs \<and> sp_logs p = Some l \<and> contains l stageSentinelDone
          \<and> (\<forall>q \<in> set (ps @ [p]). \<forall>l. sp_logs q = Some l \<longrightarrow> \<not> contains l stageSentinelFail))"
    using stage_marker [of "now + stage_budget budget" polls] c(2) by simp
  ultimately show ?thesis using c(1) by (intro exI [of _ c] exI [of _ s1] conjI)
qed

text \<open>A staging whose pod could not be deleted still reports success.\<close>

theorem staging_pod_may_survive:
  assumes "pa_create api (stage_body sp) s = (Inr c, s1)" "waitForStageComplete (now + stage_budget budget) polls = Some Staged"
    and "pa_delete api (pc_id c) (meanwhile s1) = (Some (TransportFailure t), s2)" "pc_id c \<noteq> []" "pc_id c \<in> pods s2"
  shows "\<exists>calls. runpod_StageModel api meanwhile budget now polls sp s = (Some (Inr Staged), calls, s2) \<and> pc_id c \<in> pods s2"
  using assms by (simp add: runpod_StageModel_def stage_terminate_def)

definition sample_stage :: stage_spec where
  "sample_stage = \<lparr>sg_volume = ''VOL123'', sg_region = ''EU-RO-1'', sg_model = ''org/m'', sg_mount_path = [], sg_hf_token = []\<rparr>"

text \<open>An account as the set of its pods.\<close>

definition sample_pods :: "gostring set pod_api" where
  "sample_pods = \<lparr>pa_decode = (\<lambda>_. None), pa_decode_list = (\<lambda>_. None),
     pa_create = (\<lambda>b s. (Inr \<lparr>pc_id = ''p1'', pc_cost = 0\<rparr>, insert ''p1'' s)), pa_delete = (\<lambda>k s. (None, s - {k}))\<rparr>"

text \<open>Two polls: the first read of the logs fails, the second shows the marker.\<close>

definition sample_polls :: "stage_poll list" where
  "sample_polls = [\<lparr>sp_logs = None, sp_after = 110, sp_done = None\<rparr>, \<lparr>sp_logs = Some stageSentinelDone, sp_after = 120, sp_done = None\<rparr>]"

lemma sample_staged: "waitForStageComplete (100 + stage_budget 0) sample_polls = Some Staged"
proof -
  have m: "stageSignal stageSentinelDone = (True, False)" by code_simp
  show ?thesis by (simp add: sample_polls_def m stage_budget_def stageTimeout_def)
qed

theorem staging_pod_returned_witness:
  "\<exists>calls s'. runpod_StageModel sample_pods id 0 100 sample_polls sample_stage {} = (Some (Inr Staged), calls, s') \<and> ''p1'' \<notin> s'
     \<and> calls = [CreatePod (stage_body sample_stage), DeletePod ''p1'' None]"
proof -
  obtain calls s' where e: "runpod_StageModel sample_pods id 0 100 sample_polls sample_stage {} = (Some (Inr Staged), calls, s')"
      "calls = [CreatePod (stage_body sample_stage), DeletePod ''p1'' None]"
    using sample_staged by (simp add: runpod_StageModel_def stage_terminate_def sample_pods_def released_def)
  have "deletes_pods sample_pods (\<lambda>s. s)" by (simp add: deletes_pods_def sample_pods_def)
  from staging_pod_returned [OF e(1) this] e show ?thesis by (auto simp: sample_pods_def)
qed

theorem staging_pod_may_survive_witness:
  "\<exists>calls s'. runpod_StageModel (sample_pods\<lparr>pa_delete := (\<lambda>k s. (Some (TransportFailure ''reset''), s))\<rparr>) id 0 100 sample_polls sample_stage {}
     = (Some (Inr Staged), calls, s') \<and> ''p1'' \<in> s'"
  using staging_pod_may_survive [where api = "sample_pods\<lparr>pa_delete := (\<lambda>k s. (Some (TransportFailure ''reset''), s))\<rparr>" and sp = sample_stage
      and s = "{}" and c = "\<lparr>pc_id = ''p1'', pc_cost = 0\<rparr>" and ?s1.0 = "{''p1''}" and ?s2.0 = "{''p1''}" and meanwhile = id and pods = id
      and t = "''reset''", OF _ sample_staged]
  by (auto simp: sample_pods_def)

end
