(* ===== verification/Migration.thy ===== *)
theory Migration
imports Engine_Registry Fanout Pin
begin

text \<open>
  Moving a running deployment to another provider (\<^verbatim>\<open>provisioners/migrate.go\<close>): the plan, the growth
  onto the destination, the drain of the source.
\<close>

subsection \<open>The plan\<close>

record migrate_request =
  mg_id :: gostring
  mg_to :: "replica_spec option"
  mg_timeout :: duration
  mg_force :: bool
  mg_dry_run :: bool

text \<open>The warnings by what they name: the model and the place where it is cold.\<close>

datatype migrate_warning = ColdStart gostring gostring gostring | SameProvider

record migrate_plan =
  mp_id :: gostring
  mp_from :: gostring
  mp_to :: gostring
  mp_source :: "gostring list"
  mp_added :: "gostring list"
  mp_count :: nat
  mp_warm :: bool
  mp_warnings :: "migrate_warning list"

datatype migrate_error = MigrateStatus dserr | MigrateGrow dserr | MigrateNothingAdded
  | MigrateDrain drain_error migrate_plan

definition spec_provider :: "replica_spec option \<Rightarrow> gostring" where
  "spec_provider s = (case s of None \<Rightarrow> [] | Some s \<Rightarrow> rs_provider s)"

definition spec_requirements :: "replica_spec option \<Rightarrow> requirements option" where
  "spec_requirements s = Option.bind s rs_requirements"

text \<open>The first requirements asked of the source: of its specs, then of its recorded machines.\<close>

fun first_some :: "'a option list \<Rightarrow> 'a option" where
  "first_some [] = None"
| "first_some (x # xs) = (case x of None \<Rightarrow> first_some xs | Some _ \<Rightarrow> x)"

definition instance_requirements :: "state \<Rightarrow> gostring \<Rightarrow> requirements option" where
  "instance_requirements st k = Option.bind (Option.bind (st_instances st k) in_spec) sp_requirements"

definition destinationSpec :: "replica_spec option \<Rightarrow> deployment \<Rightarrow> state \<Rightarrow> gostring list \<Rightarrow> replica_spec" where
  "destinationSpec to rec st source =
     (let out = \<lparr>rs_provider = spec_provider to, rs_region = (case to of None \<Rightarrow> [] | Some s \<Rightarrow> rs_region s),
                 rs_requirements = spec_requirements to, rs_replicas = 0, rs_engine_endpoint = [], rs_nodes = 0\<rparr> in
      if rs_requirements out \<noteq> None then out
      else (case first_some (map spec_requirements (dep_replica_specs rec)) of
        Some r \<Rightarrow> out\<lparr>rs_requirements := Some r\<rparr>
      | None \<Rightarrow> out\<lparr>rs_requirements := first_some (map (instance_requirements st) source)\<rparr>))"

definition first_named :: "gostring list \<Rightarrow> gostring" where
  "first_named xs = (case find (\<lambda>x. x \<noteq> []) xs of None \<Rightarrow> [] | Some x \<Rightarrow> x)"

definition sourceProvider :: "deployment \<Rightarrow> state \<Rightarrow> gostring list \<Rightarrow> gostring" where
  "sourceProvider rec st source =
     first_named (map in_provider (List.map_filter (st_instances st) source) @ map spec_provider (dep_replica_specs rec))"

text \<open>\<open>order\<close> enumerates the pinned volumes.\<close>

definition modelStagedAt :: "gostring list \<Rightarrow> state \<Rightarrow> gostring \<Rightarrow> gostring \<Rightarrow> gostring \<Rightarrow> bool" where
  "modelStagedAt order st model provider region \<longleftrightarrow>
     model \<noteq> [] \<and> provider \<noteq> [] \<and> region \<noteq> []
     \<and> list_ex (holds_model model provider region) (List.map_filter (st_volumes st) order)"

definition migrate_source :: "deployment \<Rightarrow> gostring list" where
  "migrate_source rec =
     (let source = EffectiveInstanceIDs rec in
      if source = [] \<and> dep_instance_id rec \<noteq> [] then [dep_instance_id rec] else source)"

definition migrate_plan_of :: "gostring list \<Rightarrow> migrate_request \<Rightarrow> deployment \<Rightarrow> state \<Rightarrow> replica_spec \<Rightarrow> migrate_plan" where
  "migrate_plan_of order req rec st dest =
     (let source = migrate_source rec; from = sourceProvider rec st source;
          warm = modelStagedAt order st (dep_model rec) (rs_provider dest) (rs_region dest) in
      \<lparr>mp_id = mg_id req, mp_from = from, mp_to = rs_provider dest, mp_source = source, mp_added = [],
       mp_count = length source, mp_warm = warm,
       mp_warnings = (if warm then [] else [ColdStart (dep_model rec) (rs_provider dest) (rs_region dest)])
         @ (if from = rs_provider dest then [SameProvider] else [])\<rparr>)"

subsection \<open>Migrate\<close>

text \<open>
  \<open>between\<close> is what other components do to the state between the read of the plan and the growth,
  \<open>meanwhile\<close> what they do while the drain waits; the provisioning the growth starts in the
  background is the last component of the answer.
\<close>

definition Migrate ::
  "gostring list \<Rightarrow> (state \<Rightarrow> state) \<Rightarrow> (duration \<Rightarrow> bool) \<Rightarrow> (state \<Rightarrow> state) \<Rightarrow> migrate_request \<Rightarrow> state
     \<Rightarrow> (migrate_error + migrate_plan) \<times> state \<times> replica_spec option list" where
  "Migrate order between cancelled meanwhile req st =
     (if \<not> ValidateID (mg_id req) \<or> spec_provider (mg_to req) = [] then (Inl (MigrateStatus DInvalidArgument), st, [])
      else case st_deployments st (mg_id req) of
        None \<Rightarrow> (Inl (MigrateStatus DNotFound), st, [])
      | Some rec \<Rightarrow>
          if dep_state rec \<noteq> DRunning \<and> dep_state rec \<noteq> DDegraded then (Inl (MigrateStatus DFailedPrecondition), st, [])
          else (let source = migrate_source rec in
            if source = [] then (Inl (MigrateStatus DFailedPrecondition), st, [])
            else (let dest = destinationSpec (mg_to req) rec st source; plan = migrate_plan_of order req rec st dest in
              if mg_dry_run req then (Inr plan, st, [])
              else (case ScaleDeployment (mg_id req) 0 (replicate (length source) (Some (dest\<lparr>rs_replicas := 1\<rparr>))) (between st) of
                (ScaleError e, st1) \<Rightarrow> (Inl (MigrateGrow e), st1, [])
              | (ScaleDownUnimplemented, st1) \<Rightarrow> (Inl (MigrateGrow DInternal), st1, [])
              | (ScaleNoop scaled, st1) \<Rightarrow> (Inl MigrateNothingAdded, st1, [])
              | (ScaleUp scaled current specs planned, st1) \<Rightarrow>
                  (let added = filter (\<lambda>k. k \<notin> set source) (EffectiveInstanceIDs scaled); plan = plan\<lparr>mp_added := added\<rparr> in
                   if added = [] then (Inl MigrateNothingAdded, st1, specs)
                   else (case DrainReplicas cancelled meanwhile (mg_timeout req) (mg_force req) (mg_id req) source st1 of
                     (Inl e, st2) \<Rightarrow> (Inl (MigrateDrain e plan), st2, specs)
                   | (Inr _, st2) \<Rightarrow> (Inr plan, st2, specs)))))))"

lemma scale_grows:
  assumes "hetero \<noteq> []" "ScaleDeployment ident 0 hetero st = (r, st')" "r = ScaleNoop d \<or> r = ScaleDownUnimplemented"
  shows False
  using assms by (auto simp: ScaleDeployment_def Let_def scale_up_def split: if_splits option.splits)

text \<open>What a growth onto given specs reads, writes and starts.\<close>

lemma scale_hetero:
  assumes "ScaleDeployment ident 0 hetero st = (ScaleUp scaled current specs planned, st')" "hetero \<noteq> []"
  shows "\<exists>rec. st_deployments st ident = Some rec \<and> specs = hetero
     \<and> EffectiveInstanceIDs scaled = EffectiveInstanceIDs rec \<and> dep_unhealthy scaled = dep_unhealthy rec
     \<and> st_deployments st' ident = Some scaled \<and> (\<forall>k. k \<noteq> ident \<longrightarrow> st_deployments st' k = st_deployments st k)
     \<and> st_instances st' = st_instances st \<and> dep_state rec \<in> {DRunning, DDegraded}"
proof -
  have n: "EffectiveInstanceIDs (normalize_record st rec) = EffectiveInstanceIDs rec"
      "dep_unhealthy (normalize_record st rec) = dep_unhealthy rec"
    if "dep_replicas rec = []" "dep_instance_id rec \<noteq> []" for rec
    using that by (simp_all add: normalize_record_def EffectiveInstanceIDs_def Let_def split: option.split)
  show ?thesis
    using assms n
    by (auto simp: ScaleDeployment_def Let_def scale_up_def update_deployment_def split: if_splits option.splits)
qed

subsection \<open>Growing comes before draining\<close>

lemma quarantine_all_frame: "st_instances (quarantine_all d ks st) = st_instances st"
proof (induction ks arbitrary: st)
  case (Cons k ks)
  have "st_instances (Quarantine d k s) = st_instances s" for s
    by (simp add: Quarantine_def update_deployment_def split: option.split)
  with Cons.IH show ?case by simp
qed simp

text \<open>The answer of a move that got as far as growing.\<close>

lemma migrate_grown:
  assumes "st_deployments st (mg_id req) = Some rec" "ValidateID (mg_id req)" "spec_provider (mg_to req) \<noteq> []"
    and "dep_state rec \<in> {DRunning, DDegraded}" "migrate_source rec \<noteq> []" "\<not> mg_dry_run req"
    and "st_deployments (between st) (mg_id req) = Some now" "dep_state now \<in> {DRunning, DDegraded}"
  defines "dest \<equiv> Some ((destinationSpec (mg_to req) rec st (migrate_source rec))\<lparr>rs_replicas := 1\<rparr>)"
    and "added \<equiv> filter (\<lambda>k. k \<notin> set (migrate_source rec)) (EffectiveInstanceIDs now)"
  shows "\<exists>r st'. Migrate order between cancelled meanwhile req st = (r, st', replicate (length (migrate_source rec)) dest)
     \<and> (added = [] \<longrightarrow> r = Inl MigrateNothingAdded \<and> st_instances st' = st_instances (between st)
          \<and> map_option dep_unhealthy (st_deployments st' (mg_id req)) = Some (dep_unhealthy now))"
proof -
  let ?het = "replicate (length (migrate_source rec)) dest"
  have ne: "?het \<noteq> []" using assms(5) by simp
  obtain r1 st1 where sc: "ScaleDeployment (mg_id req) 0 ?het (between st) = (r1, st1)" by fastforce
  have "\<exists>scaled current specs planned. r1 = ScaleUp scaled current specs planned"
    using sc assms(2,7,8) ne by (auto simp: ScaleDeployment_def Let_def scale_up_def split: if_splits)
  then obtain scaled current specs planned where r1: "r1 = ScaleUp scaled current specs planned" by blast
  from scale_hetero [OF sc [unfolded r1] ne] assms(7)
  have sh: "specs = ?het" "EffectiveInstanceIDs scaled = EffectiveInstanceIDs now" "dep_unhealthy scaled = dep_unhealthy now"
    "st_deployments st1 (mg_id req) = Some scaled" "st_instances st1 = st_instances (between st)" by auto
  have m: "Migrate order between cancelled meanwhile req st =
      (let plan = (migrate_plan_of order req rec st (destinationSpec (mg_to req) rec st (migrate_source rec)))\<lparr>mp_added := added\<rparr> in
       if added = [] then (Inl MigrateNothingAdded, st1, ?het)
       else (case DrainReplicas cancelled meanwhile (mg_timeout req) (mg_force req) (mg_id req) (migrate_source rec) st1 of
           (Inl e, st2) \<Rightarrow> (Inl (MigrateDrain e plan), st2, ?het)
         | (Inr _, st2) \<Rightarrow> (Inr plan, st2, ?het)))"
    using assms(1-6) sc r1 sh(1,2) unfolding Migrate_def dest_def added_def by (auto simp: Let_def)
  show ?thesis
  proof (cases "added = []")
    case True
    then show ?thesis using m sh by simp
  next
    case False
    then show ?thesis unfolding m Let_def by (simp split: prod.split sum.split)
  qed
qed

lemma scale_error_keeps: "ScaleDeployment ident 0 hetero st = (ScaleError e, st') \<Longrightarrow> hetero \<noteq> [] \<Longrightarrow> st' = st"
  by (auto simp: ScaleDeployment_def Let_def scale_up_def split: if_splits option.splits)

text \<open>Two states with the same machines and the same quarantines.\<close>

definition same_service :: "state \<Rightarrow> state \<Rightarrow> bool" where
  "same_service s s' \<longleftrightarrow> st_instances s' = st_instances s
     \<and> (\<forall>k. map_option dep_unhealthy (st_deployments s' k) = map_option dep_unhealthy (st_deployments s k))"

text \<open>A move that got as far as growing, as an equation.\<close>

lemma migrate_run:
  assumes "Migrate order between cancelled meanwhile req st = (r, st', started)" "\<not> mg_dry_run req"
    and "ValidateID (mg_id req)" "spec_provider (mg_to req) \<noteq> []" "st_deployments st (mg_id req) = Some rec"
    and "dep_state rec \<in> {DRunning, DDegraded}" "migrate_source rec \<noteq> []"
  obtains (failed) e where "r = Inl (MigrateGrow e)" "st' = between st" "started = []"
    | (grown) now where "st_deployments (between st) (mg_id req) = Some now"
      "started = replicate (length (migrate_source rec)) (Some ((destinationSpec (mg_to req) rec st (migrate_source rec))\<lparr>rs_replicas := 1\<rparr>))"
      "(\<exists>k \<in> set (EffectiveInstanceIDs now). k \<notin> set (migrate_source rec))
        \<or> r = Inl MigrateNothingAdded \<and> same_service (between st) st'"
proof -
  let ?het = "replicate (length (migrate_source rec)) (Some ((destinationSpec (mg_to req) rec st (migrate_source rec))\<lparr>rs_replicas := 1\<rparr>))"
  have ne: "?het \<noteq> []" using assms(7) by simp
  obtain r1 st1 where sc: "ScaleDeployment (mg_id req) 0 ?het (between st) = (r1, st1)" by fastforce
  show ?thesis
  proof (cases r1)
    case (ScaleError e)
    then have "st1 = between st" using scale_error_keeps sc ne by blast
    moreover have "r = Inl (MigrateGrow e)" "st' = st1" "started = []"
      using assms sc ScaleError by (auto simp: Migrate_def Let_def)
    ultimately show ?thesis using failed by blast
  next
    case (ScaleUp scaled current specs planned)
    from scale_hetero [OF sc [unfolded ScaleUp] ne] obtain now where n: "st_deployments (between st) (mg_id req) = Some now"
      "specs = ?het" "EffectiveInstanceIDs scaled = EffectiveInstanceIDs now" "dep_unhealthy scaled = dep_unhealthy now"
      "st_deployments st1 (mg_id req) = Some scaled" "\<forall>k. k \<noteq> mg_id req \<longrightarrow> st_deployments st1 k = st_deployments (between st) k"
      "st_instances st1 = st_instances (between st)" by blast
    have same: "same_service (between st) st1"
    proof -
      have "map_option dep_unhealthy (st_deployments st1 k) = map_option dep_unhealthy (st_deployments (between st) k)" for k
        using n by (cases "k = mg_id req") simp_all
      then show ?thesis using n(7) by (simp add: same_service_def)
    qed
    let ?added = "filter (\<lambda>k. k \<notin> set (migrate_source rec)) (EffectiveInstanceIDs now)"
    have m: "started = ?het \<and> (?added = [] \<longrightarrow> r = Inl MigrateNothingAdded \<and> st' = st1)"
      using assms sc ScaleUp n(2,3)
      by (auto simp: Migrate_def Let_def split: if_splits prod.splits sum.splits)
    show ?thesis
    proof (rule grown [OF n(1)])
      show "started = ?het" using m by blast
      show "(\<exists>k \<in> set (EffectiveInstanceIDs now). k \<notin> set (migrate_source rec))
        \<or> r = Inl MigrateNothingAdded \<and> same_service (between st) st'"
        using m same by (cases "?added = []") (auto simp: filter_empty_conv)
    qed
  qed (use scale_grows [OF ne sc] in auto)
qed

text \<open>
  C32: A move does not drain a source that nothing else backs.  However a move ends that is no dry run, either it has
  quarantined nothing and touched no machine's record, and it fails (the request is refused, the growth is, or nothing
  was found added); or the record that the growth read had a replica outside the source already, which another
  component must have added since the plan was made.  The provisioning that a move starts, one replica for the destination for each
  of the source, is under way only when it returns, so it never is what backs the drain (\<open>migrate_never_completes\<close>).
\<close>

theorem migrate_grows_first:
  assumes "Migrate order between cancelled meanwhile req st = (r, st', started)" "\<not> mg_dry_run req"
  shows "((\<exists>e. r = Inl e \<and> (\<forall>d p. e \<noteq> MigrateDrain d p)) \<and> (same_service st st' \<or> same_service (between st) st')
       \<or> (\<exists>rec now. st_deployments st (mg_id req) = Some rec \<and> st_deployments (between st) (mg_id req) = Some now
            \<and> (\<exists>k \<in> set (EffectiveInstanceIDs now). k \<notin> set (migrate_source rec))))
    \<and> (\<forall>s \<in> set started. \<exists>d. s = Some d \<and> rs_provider d = spec_provider (mg_to req) \<and> rs_replicas d = 1)
    \<and> (started \<noteq> [] \<longrightarrow> (\<exists>rec. st_deployments st (mg_id req) = Some rec \<and> length started = length (migrate_source rec)))"
proof (cases "\<exists>rec. ValidateID (mg_id req) \<and> spec_provider (mg_to req) \<noteq> [] \<and> st_deployments st (mg_id req) = Some rec
          \<and> dep_state rec \<in> {DRunning, DDegraded} \<and> migrate_source rec \<noteq> []")
  case False
  then have "(\<exists>e. r = Inl (MigrateStatus e)) \<and> st' = st \<and> started = []"
    using assms by (auto simp: Migrate_def Let_def split: if_splits option.splits)
  then show ?thesis by (auto simp: same_service_def)
next
  case True
  then obtain rec where rec: "ValidateID (mg_id req)" "spec_provider (mg_to req) \<noteq> []" "st_deployments st (mg_id req) = Some rec"
    "dep_state rec \<in> {DRunning, DDegraded}" "migrate_source rec \<noteq> []" by blast
  have p: "rs_provider (destinationSpec (mg_to req) rec st (migrate_source rec)) = spec_provider (mg_to req)"
    by (simp add: destinationSpec_def Let_def split: option.split)
  show ?thesis using assms rec
  proof (cases rule: migrate_run)
    case (failed e)
    then show ?thesis by (simp add: same_service_def)
  next
    case (grown now)
    then show ?thesis using rec(3) p by auto
  qed
qed

text \<open>
  The growth returns before anything is provisioned, so a move finds nothing added, reports failure,
  and leaves the provisioning it started behind.
\<close>

theorem migrate_never_completes:
  assumes "st_deployments (between st) (mg_id req) = st_deployments st (mg_id req)" "\<not> mg_dry_run req"
  shows "\<exists>e st' started. Migrate order between cancelled meanwhile req st = (Inl e, st', started)
     \<and> (\<forall>rec. ValidateID (mg_id req) \<and> spec_provider (mg_to req) \<noteq> [] \<and> st_deployments st (mg_id req) = Some rec
          \<and> dep_state rec \<in> {DRunning, DDegraded} \<and> migrate_source rec \<noteq> []
          \<longrightarrow> e = MigrateNothingAdded \<and> length started = length (migrate_source rec))"
proof (cases "\<exists>rec. ValidateID (mg_id req) \<and> spec_provider (mg_to req) \<noteq> [] \<and> st_deployments st (mg_id req) = Some rec
          \<and> dep_state rec \<in> {DRunning, DDegraded} \<and> migrate_source rec \<noteq> []")
  case True
  then obtain rec where r: "st_deployments st (mg_id req) = Some rec" "ValidateID (mg_id req)" "spec_provider (mg_to req) \<noteq> []"
    "dep_state rec \<in> {DRunning, DDegraded}" "migrate_source rec \<noteq> []" by blast
  have "set (EffectiveInstanceIDs rec) \<subseteq> set (migrate_source rec)" by (auto simp: migrate_source_def Let_def)
  then have "filter (\<lambda>k. k \<notin> set (migrate_source rec)) (EffectiveInstanceIDs rec) = []" by (auto simp: filter_empty_conv)
  with migrate_grown [where order = order and between = between and cancelled = cancelled and meanwhile = meanwhile and now = rec, OF r assms(2)]
    assms(1) r show ?thesis by auto
next
  case False
  then show ?thesis using assms(2) by (auto simp: Migrate_def Let_def split: option.split)
qed

text \<open>And a move that succeeds, because somebody else grew the deployment, releases no machine.\<close>

lemma source_never_released:
  assumes "Migrate order between cancelled id req st = (Inr plan, st', started)"
  shows "st_instances st' = st_instances (between st) \<or> mg_dry_run req \<and> st' = st"
proof (cases "mg_dry_run req")
  case True
  then show ?thesis using assms by (auto simp: Migrate_def Let_def split: if_splits option.splits)
next
  case False
  have d: "DrainReplicas cancelled id t f d ks s = (Inr u, s') \<Longrightarrow> st_instances s' = st_instances s" for t f d ks s u s'
    by (auto simp: DrainReplicas_def Let_def quarantine_all_frame split: if_splits)
  have i: "ScaleDeployment ident 0 het s = (ScaleUp a b c p, s') \<Longrightarrow> het \<noteq> [] \<Longrightarrow> st_instances s' = st_instances s" for ident het s a b c p s'
    using scale_hetero by blast
  show ?thesis
    using assms False
    by (auto simp: Migrate_def Let_def split: if_splits option.splits prod.splits scale_result.splits sum.splits dest!: d i)
qed

subsection \<open>What a dry run says\<close>

text \<open>
  A dry run is free and honest.  For a deployment that may move it changes nothing and starts
  nothing; its plan names exactly the recorded replicas, says that the cache follows if and only if
  some pinned volume at the destination holds the model, warns of a cold start otherwise, and asks
  the destination for the requirements of the request or, lacking them, for those of the source.
\<close>

theorem migrate_plan_honest:
  assumes "st_deployments st (mg_id req) = Some rec" "ValidateID (mg_id req)" "mg_to req = Some to" "rs_provider to \<noteq> []"
    and "dep_state rec \<in> {DRunning, DDegraded}" "migrate_source rec \<noteq> []" "mg_dry_run req"
    and "set order = dom (st_volumes st)"
  shows "\<exists>plan. Migrate order between cancelled meanwhile req st = (Inr plan, st, [])
     \<and> mp_source plan = EffectiveInstanceIDs rec \<and> mp_count plan = length (mp_source plan) \<and> mp_added plan = []
     \<and> (mp_warm plan \<longleftrightarrow> dep_model rec \<noteq> [] \<and> rs_region to \<noteq> []
          \<and> (\<exists>v \<in> ran (st_volumes st). holds_model (dep_model rec) (rs_provider to) (rs_region to) v))
     \<and> (ColdStart (dep_model rec) (rs_provider to) (rs_region to) \<in> set (mp_warnings plan) \<longleftrightarrow> \<not> mp_warm plan)
     \<and> (rs_requirements to \<noteq> None \<longrightarrow> rs_requirements (destinationSpec (Some to) rec st (mp_source plan)) = rs_requirements to)"
proof -
  let ?d = "destinationSpec (mg_to req) rec st (migrate_source rec)"
  have src: "migrate_source rec = EffectiveInstanceIDs rec"
    using assms(6) by (auto simp: migrate_source_def EffectiveInstanceIDs_def Let_def)
  have d: "rs_provider ?d = rs_provider to" "rs_region ?d = rs_region to"
    "rs_requirements to \<noteq> None \<longrightarrow> rs_requirements ?d = rs_requirements to"
    using assms(3) by (simp_all add: destinationSpec_def Let_def spec_provider_def spec_requirements_def split: option.split)
  have "set (List.map_filter (st_volumes st) order) = ran (st_volumes st)"
    using assms(8) by (force simp: map_filter_def ran_def dom_def)
  then have w: "modelStagedAt order st m p r \<longleftrightarrow> m \<noteq> [] \<and> p \<noteq> [] \<and> r \<noteq> [] \<and> (\<exists>v \<in> ran (st_volumes st). holds_model m p r v)" for m p r
    by (simp add: modelStagedAt_def list_ex_iff)
  have "Migrate order between cancelled meanwhile req st = (Inr (migrate_plan_of order req rec st ?d), st, [])"
    using assms by (auto simp: Migrate_def Let_def spec_provider_def)
  then show ?thesis
    using assms(3,4) src d w by (auto simp: migrate_plan_of_def Let_def)
qed

definition sample_move :: "bool \<Rightarrow> migrate_request" where
  "sample_move dry =
     \<lparr>mg_id = ''d'', mg_to = Some \<lparr>rs_provider = ''vast'', rs_region = ''eu'', rs_requirements = None, rs_replicas = 0,
        rs_engine_endpoint = [], rs_nodes = 0\<rparr>, mg_timeout = 0, mg_force = False, mg_dry_run = dry\<rparr>"

lemma sample_record:
  "st_deployments sample_state (mg_id (sample_move dry)) = Some sample_single" "ValidateID (mg_id (sample_move dry))"
  "spec_provider (mg_to (sample_move dry)) = ''vast''" "dep_state sample_single \<in> {DRunning, DDegraded}"
  "migrate_source sample_single = [''d'']" "dep_unhealthy sample_single = []"
proof -
  show "migrate_source sample_single = [''d'']" by (simp only: migrate_source_def sample_ids Let_def) simp
qed (simp_all add: sample_move_def sample_state_def spec_provider_def sample_single_def zero_deployment_def)

text \<open>Alone, a move fails and leaves the service as it was; the replica it started is for the destination.\<close>

theorem migrate_grows_first_witness:
  "\<exists>r st' started. Migrate [] id (\<lambda>_. False) id (sample_move False) sample_state = (r, st', started)
     \<and> same_service sample_state st' \<and> length started = 1 \<and> (\<forall>s \<in> set started. spec_provider s = ''vast'')"
proof -
  have nd: "\<not> mg_dry_run (sample_move False)" "mg_id (sample_move False) = ''d''" by (simp_all add: sample_move_def)
  obtain r st' started where m: "Migrate [] id (\<lambda>_. False) id (sample_move False) sample_state = (r, st', started)"
      "length started = 1"
    using migrate_grown [where between = id and now = sample_single, OF sample_record(1,2) _ sample_record(4) _ nd(1) _ sample_record(4)]
    by (fastforce simp: sample_record)
  have r: "st_deployments sample_state ''d'' = Some sample_single" using sample_record(1) [of False] nd(2) by simp
  from migrate_grows_first [OF m(1) nd(1)] show ?thesis
    using m sample_record(3,5) unfolding nd(2) id_apply r by (fastforce simp: sample_ids spec_provider_def)
qed

theorem migrate_plan_honest_witness:
  "\<exists>plan. Migrate [] id (\<lambda>_. False) id (sample_move True) sample_state = (Inr plan, sample_state, [])
     \<and> mp_source plan = [''d''] \<and> \<not> mp_warm plan"
proof -
  have "mg_to (sample_move True) = Some (the (mg_to (sample_move True)))" "rs_provider (the (mg_to (sample_move True))) \<noteq> []"
    "mg_dry_run (sample_move True)" "set [] = dom (st_volumes sample_state)" "ran (st_volumes sample_state) = {}"
    by (simp_all add: sample_move_def sample_state_def)
  note v = this
  from migrate_plan_honest [where between = id and cancelled = "\<lambda>_. False" and meanwhile = id and order = "[]",
      OF sample_record(1,2) v(1,2) sample_record(4) _ v(3,4)]
  show ?thesis using v(5) by (auto simp: sample_record sample_ids)
qed

end
