(* ===== verification/Cost.thy ===== *)
theory Cost
imports Adapter_Contracts Engine_Agent
begin

text \<open>
  What a rental costs (\<^verbatim>\<open>provisioners/billing.go\<close>, \<^verbatim>\<open>metrics/cost.go\<close>): which records are on a meter
  and since when, the seconds and dollars a scrape reports, and the rates of \<^verbatim>\<open>providers.yaml\<close>.
\<close>

subsection \<open>Which records are on a meter\<close>

record billing_instance =
  bi_id :: gostring
  bi_provider :: gostring
  bi_sku :: gostring
  bi_mode :: gostring
  bi_rate :: rat
  bi_since :: timestamp
  bi_until :: "timestamp option"

definition billingStart :: "inst \<Rightarrow> timestamp option" where
  "billingStart i = (case in_created_at i of Some t \<Rightarrow> Some t | None \<Rightarrow> in_activated_at i)"

definition billingModeFor :: "gostring \<Rightarrow> gostring" where
  "billingModeFor p =
     (if p = ''local'' then ''owned'' else if p = ''external'' then ''none'' else ''metered_per_second'')"

text \<open>\<open>sku_of\<close> reads the card from the recorded hardware, which the instance records of the store leave out.\<close>

definition billing_of :: "(inst \<Rightarrow> gostring) \<Rightarrow> inst \<Rightarrow> billing_instance option" where
  "billing_of sku_of i =
     (case billingStart i of
        None \<Rightarrow> None
      | Some since \<Rightarrow>
          Some \<lparr>bi_id = in_id i, bi_provider = in_provider i, bi_sku = sku_of i, bi_mode = billingModeFor (in_provider i),
                bi_rate = in_hourly_rate i, bi_since = since, bi_until = in_terminated_at i\<rparr>)"

definition BillingInstances :: "(inst \<Rightarrow> gostring) \<Rightarrow> gostring list \<Rightarrow> state \<Rightarrow> billing_instance list" where
  "BillingInstances sku_of order st =
     List.map_filter (billing_of sku_of) (List.map_filter (st_instances st) order)"

subsection \<open>Seconds and dollars\<close>

definition billedSeconds :: "billing_instance \<Rightarrow> timestamp \<Rightarrow> rat" where
  "billedSeconds b now =
     (let finish = (case bi_until b of None \<Rightarrow> now | Some t \<Rightarrow> t) in
      if finish < bi_since b then 0 else Seconds (time_sub finish (bi_since b)))"

definition observeUptime :: "billing_instance list \<Rightarrow> timestamp \<Rightarrow> (gostring \<times> int) list" where
  "observeUptime bs now = map (\<lambda>b. (bi_id b, to_int64 (billedSeconds b now))) bs"

definition observeInstanceRates :: "billing_instance list \<Rightarrow> (gostring \<times> rat) list" where
  "observeInstanceRates bs = map (\<lambda>b. (bi_id b, fl64 (bi_rate b / 3600))) (filter (\<lambda>b. 0 < bi_rate b) bs)"

definition spend_of :: "billing_instance \<Rightarrow> timestamp \<Rightarrow> rat" where
  "spend_of b now = fl64 (fl64 (billedSeconds b now * bi_rate b) / 3600)"

definition observeInstanceCost :: "billing_instance list \<Rightarrow> timestamp \<Rightarrow> (gostring \<times> rat) list" where
  "observeInstanceCost bs now = map (\<lambda>b. (bi_id b, spend_of b now)) (filter (\<lambda>b. 0 < bi_rate b) bs)"

subsection \<open>Rates of \<^verbatim>\<open>providers.yaml\<close>\<close>

record provider_def =
  pf_name :: gostring
  pf_mode :: gostring
  pf_gpu_type :: gostring
  pf_rate_per_hour :: rat
  pf_fixed_per_month :: rat
  pf_capex :: rat
  pf_amort_months :: int
  pf_watts :: rat
  pf_per_kwh :: rat

record priced_provider =
  pp_name :: gostring
  pp_mode :: gostring
  pp_gpu_type :: gostring
  pp_rate :: rat

datatype rate_error = NoGpuType | NoRate | NoMonthly | NoCapex | NoMode | UnknownMode

definition hoursPerMonth :: rat where "hoursPerMonth = 730"

definition normalize :: "provider_def \<Rightarrow> rate_error + rat" where
  "normalize p =
     (if pf_gpu_type p = [] then Inl NoGpuType
      else if pf_mode p = ''metered_per_second'' \<or> pf_mode p = ''spot_variable'' then
        (if pf_rate_per_hour p \<le> 0 then Inl NoRate else Inr (fl64 (pf_rate_per_hour p / 3600)))
      else if pf_mode p = ''reserved_monthly'' \<or> pf_mode p = ''bare_metal_monthly'' then
        (if pf_fixed_per_month p \<le> 0 then Inl NoMonthly
         else Inr (fl64 (fl64 (pf_fixed_per_month p / hoursPerMonth) / 3600)))
      else if pf_mode p = ''owned_capex'' then
        (if pf_capex p \<le> 0 \<or> pf_amort_months p \<le> 0 then Inl NoCapex
         else (let amortPerSec = fl64 (fl64 (fl64 (pf_capex p / fl64 (of_int (pf_amort_months p))) / hoursPerMonth) / 3600);
                   powerPerSec = fl64 (fl64 (fl64 (pf_watts p * pf_per_kwh p) / 1000) / 3600)
               in Inr (fl64 (amortPerSec + powerPerSec))))
      else if pf_mode p = [] then Inl NoMode
      else Inl UnknownMode)"

text \<open>The rows of the parsed file; the first bad row is the error.\<close>

fun load_rows :: "provider_def list \<Rightarrow> (gostring \<times> rate_error) + priced_provider list" where
  "load_rows [] = Inr []"
| "load_rows (p # ps) =
     (case normalize p of
        Inl e \<Rightarrow> Inl (pf_name p, e)
      | Inr rate \<Rightarrow>
          map_sum id (Cons \<lparr>pp_name = pf_name p, pp_mode = pf_mode p, pp_gpu_type = pf_gpu_type p, pp_rate = rate\<rparr>) (load_rows ps))"

definition LoadProviders :: "(gostring + provider_def list) \<Rightarrow> (gostring + gostring \<times> rate_error) + priced_provider list" where
  "LoadProviders parsed =
     (case parsed of
        Inl err \<Rightarrow> Inl (Inl err)
      | Inr [] \<Rightarrow> Inl (Inl ''providers.yaml: no providers defined'')
      | Inr rows \<Rightarrow> map_sum Inr id (load_rows rows))"

subsection \<open>The meter never runs backwards\<close>

lemma Seconds_split:
  assumes "0 \<le> d" "d \<le> max_int64"
  shows "Seconds d = fl64 (of_int (d div second) + fl64 (of_int (d mod second) / of_int second))"
proof -
  have "go_quot d second = d div second" using assms(1) by (simp add: go_quot_def)
  moreover have "d - d div second * second = d mod second" by (simp add: minus_div_mult_eq_mod)
  ultimately show ?thesis by (simp add: Seconds_def)
qed

lemma Seconds_mono:
  assumes "0 \<le> d" "d \<le> d'" "d' \<le> max_int64"
  shows "Seconds d \<le> Seconds d'" "0 \<le> Seconds d"
proof -
  let ?f = "\<lambda>d. fl64 (of_int (d mod second) / of_int second)"
  have one: "fl64 1 = 1" by (simp add: fl64_def binade_def ulp_def ilog.simps round_half_even_def)
  have frac: "0 \<le> ?f e" "?f e \<le> 1" for e
  proof -
    have r: "0 \<le> e mod second" "e mod second < second" by simp_all
    show "0 \<le> ?f e" using r(1) by (intro float64.fl_nonneg) simp
    have "of_int (e mod second) \<le> (of_int second :: rat)" using r(2) by (simp only: of_int_le_iff less_imp_le)
    then have "of_int (e mod second) / of_int second \<le> (1 :: rat)" by simp
    then show "?f e \<le> 1" using fl64_mono one by fastforce
  qed
  have "of_int (d div second) + ?f d \<le> of_int (d' div second) + ?f d'"
  proof (cases "d div second = d' div second")
    case True
    then have "d mod second \<le> d' mod second" using assms(2) by (metis add_le_cancel_left mult_div_mod_eq)
    then have "(of_int (d mod second) :: rat) \<le> of_int (d' mod second)" by (simp only: of_int_le_iff)
    from fl64_mono [OF divide_right_mono [OF this, of "of_int second"]] have "?f d \<le> ?f d'" by simp
    then show ?thesis unfolding True by simp
  next
    case False
    then have "d div second + 1 \<le> d' div second" using zdiv_mono1 [OF assms(2), of second] by simp
    then have "(of_int (d div second + 1) :: rat) \<le> of_int (d' div second)" by (simp only: of_int_le_iff)
    then show ?thesis using frac(2) [of d] frac(1) [of d'] by simp
  qed
  then show "Seconds d \<le> Seconds d'"
    using Seconds_split [of d] Seconds_split [of d'] assms by (simp add: fl64_mono)
  show "0 \<le> Seconds d"
    using Seconds_split [of d] frac(1) [of d] assms by (auto intro!: float64.fl_nonneg add_nonneg_nonneg simp: pos_imp_zdiv_nonneg_iff)
qed

text \<open>
  The record of a rental moves on: it keeps when it started, and gets an end that is not before the
  present, or keeps or loses the one it had.
\<close>

definition meter_step :: "timestamp \<Rightarrow> inst \<Rightarrow> inst \<Rightarrow> bool" where
  "meter_step now i i' \<longleftrightarrow>
     in_created_at i' = in_created_at i \<and> in_created_at i \<noteq> None
     \<and> (case in_terminated_at i' of None \<Rightarrow> True | Some t \<Rightarrow> t = now \<or> in_terminated_at i = Some t)"

lemma meter_step_mono:
  assumes "meter_step now i i'" "\<forall>t. in_terminated_at i = Some t \<longrightarrow> t \<le> now" "now \<le> later"
    and "billing_of sku_of i = Some b"
  shows "\<exists>b'. billing_of sku_of i' = Some b' \<and> bi_since b' = bi_since b \<and> billedSeconds b now \<le> billedSeconds b' later"
proof -
  obtain c where c: "in_created_at i = Some c" "in_created_at i' = Some c" using assms(1) by (auto simp: meter_step_def)
  obtain b' where b': "billing_of sku_of i' = Some b'" "bi_since b' = c" "bi_until b' = in_terminated_at i'"
    using c by (simp add: billing_of_def billingStart_def)
  have b: "bi_since b = c" "bi_until b = in_terminated_at i"
    using assms(4) c by (auto simp: billing_of_def billingStart_def)
  let ?e = "case in_terminated_at i of None \<Rightarrow> now | Some t \<Rightarrow> t"
  let ?e' = "case in_terminated_at i' of None \<Rightarrow> later | Some t \<Rightarrow> t"
  have le: "?e \<le> ?e'" using assms(1-3) by (force simp: meter_step_def split: option.splits)
  have "time_sub ?e c \<le> time_sub ?e' c" "time_sub ?e' c \<le> max_int64" "\<And>x. c \<le> x \<Longrightarrow> 0 \<le> time_sub x c"
    using le by (auto simp: time_sub_def max_int64_def min_int64_def)
  note t = this
  have "billedSeconds b now \<le> billedSeconds b' later"
    unfolding billedSeconds_def b b' Let_def using le t Seconds_mono [of "time_sub ?e c" "time_sub ?e' c"]
      Seconds_mono(2) [of "time_sub ?e' c" "time_sub ?e' c"] by auto
  with b' b show ?thesis by auto
qed

lemma meter_step_refl: "in_created_at i \<noteq> None \<Longrightarrow> meter_step now i i"
  by (simp add: meter_step_def split: option.split)

text \<open>The operations of the service that write the record of an existing machine.\<close>

inductive writes_machine :: "providers \<Rightarrow> timestamp \<Rightarrow> state \<Rightarrow> state \<Rightarrow> bool" for ps now st where
  destroys: "writes_machine ps now st (snd (DestroyInstance ps now force k st))"
| describes: "writes_machine ps now st (snd (DescribeInstance ps now remote k st))"
| heals: "st_instances st k = Some i \<Longrightarrow> writes_machine ps now st (heal ps now k i st)"
| waits: "writes_machine ps now st (snd (WaitForInstanceReady ps k st))"
| releases: "writes_machine ps now st (markInstanceTerminated now d k st)"

lemma finalizeActive_meter:
  "in_created_at i \<noteq> None \<Longrightarrow> in_terminated_at fresh = None \<Longrightarrow> meter_step now i (finalizeActive now fresh sp p (in_created_at i))"
  by (auto simp: meter_step_def finalizeActive_def)

lemma markVanished_meter: "in_created_at i \<noteq> None \<Longrightarrow> meter_step now i (markVanished now i)"
  by (auto simp: meter_step_def markVanished_def stamp_once_def split: option.split)

definition one_update :: "timestamp \<Rightarrow> state \<Rightarrow> state \<Rightarrow> bool" where
  "one_update now st st' \<longleftrightarrow>
     st_instances st' = st_instances st
     \<or> (\<exists>k j j'. st_instances st k = Some j \<and> st_instances st' = (st_instances st)(k \<mapsto> j')
           \<and> (in_created_at j \<noteq> None \<longrightarrow> meter_step now j j'))"

lemma one_update_step:
  assumes "one_update now st st'" "st_instances st k = Some i" "in_created_at i \<noteq> None"
  shows "\<exists>i'. st_instances st' k = Some i' \<and> meter_step now i i'"
  using assms by (fastforce simp: one_update_def intro: meter_step_refl)

lemma one_update_same: "st_instances st' = st_instances st \<Longrightarrow> one_update now st st'"
  by (simp add: one_update_def)

lemma one_update_patch:
  "st_instances st k = Some j \<Longrightarrow> st_instances st' = (st_instances st)(k \<mapsto> j') \<Longrightarrow>
     (in_created_at j \<noteq> None \<Longrightarrow> meter_step now j j') \<Longrightarrow> one_update now st st'"
  by (auto simp: one_update_def)

lemma ended_meter:
  "in_created_at j \<noteq> None \<Longrightarrow> in_created_at j' = in_created_at j \<Longrightarrow>
     in_terminated_at j' = Some now \<or> in_terminated_at j' = in_terminated_at j \<Longrightarrow> meter_step now j j'"
  by (auto simp: meter_step_def split: option.split)

text \<open>No adapter describes a machine with an end.\<close>

definition reports_no_end :: "providers \<Rightarrow> bool" where
  "reports_no_end ps \<longleftrightarrow> (\<forall>q p x i. ps q = Some p \<longrightarrow> pv_describe p x = Inr i \<longrightarrow> in_terminated_at i = None)"

lemma adapters_report_no_end:
  "plain_inst (vast_Describe va x) = Inr i \<Longrightarrow> in_terminated_at i = None"
  "plain_inst (runpod_Describe ra x) = Inr i \<Longrightarrow> in_terminated_at i = None"
  "plain_inst (lambda_Describe la x) = Inr i \<Longrightarrow> in_terminated_at i = None"
  by (auto simp: plain_inst_def vast_Describe_def vast_instanceFromAPI_def runpod_Describe_def podToInstance_def
      lambda_Describe_def lambda_instanceFromAPI_def inst.defs Let_def split: if_splits sum.splits option.splits)

lemma destroy_update: "one_update now st (snd (DestroyInstance ps now force k st))"
proof (cases "st_instances st k")
  case (Some j)
  have p: "st_instances (patchRecord k j' (patchRecord k j'' st)) = (st_instances st)(k \<mapsto> j')"
    "st_instances (patchRecord k j' st) = (st_instances st)(k \<mapsto> j')" for j' j''
    by (simp_all add: patchRecord_def)
  show ?thesis
    using Some
    by (auto simp: DestroyInstance_def Let_def intro!: one_update_same one_update_patch [OF Some p(1)] one_update_patch [OF Some p(2)]
        ended_meter split: option.split)
qed (auto simp: DestroyInstance_def intro: one_update_same)

lemma describe_update:
  assumes "reports_no_end ps"
  shows "one_update now st (snd (DescribeInstance ps now remote k st))"
proof (cases "st_instances st k")
  case (Some j)
  have p: "st_instances (patchRecord k j' st) = (st_instances st)(k \<mapsto> j')" for j' by (simp add: patchRecord_def)
  show ?thesis
    using Some assms
    by (auto simp: DescribeInstance_def Let_def reports_no_end_def intro!: one_update_same one_update_patch [OF Some p]
        markVanished_meter finalizeActive_meter split: option.split sum.split provider_error.split)
qed (auto simp: DescribeInstance_def intro: one_update_same)

lemma heal_update:
  assumes "reports_no_end ps" "st_instances st k = Some j"
  shows "one_update now st (heal ps now k j st)"
proof -
  have p: "st_instances (patchRecord k j' st) = (st_instances st)(k \<mapsto> j')" for j' by (simp add: patchRecord_def)
  have u: "st_instances (update_instance k f st) = (st_instances st)(k \<mapsto> f j)" for f
    using assms(2) by (simp add: update_instance_def)
  show ?thesis
    using assms
    by (auto simp: heal_def Let_def reports_no_end_def intro!: one_update_same one_update_patch [OF assms(2) p] one_update_patch [OF assms(2) u]
        ended_meter finalizeActive_meter split: option.split sum.split list.split)
qed

lemma wait_update: "one_update now st (snd (WaitForInstanceReady ps k st))"
proof (cases "st_instances st k")
  case (Some j)
  have p: "st_instances (patchRecord k j' st) = (st_instances st)(k \<mapsto> j')" for j' by (simp add: patchRecord_def)
  show ?thesis
    using Some
    by (auto simp: WaitForInstanceReady_def Let_def intro!: one_update_same one_update_patch [OF Some p] ended_meter
        split: option.split sum.split wait_error.split)
qed (auto simp: WaitForInstanceReady_def intro: one_update_same)

lemma release_update: "one_update now st (markInstanceTerminated now d k st)"
proof (cases "st_instances st k")
  case (Some j)
  show ?thesis
    using Some by (auto simp: markInstanceTerminated_def intro: one_update_same intro!: one_update_patch [OF Some] ended_meter)
qed (simp add: markInstanceTerminated_def one_update_same)

lemma machine_step:
  assumes "writes_machine ps now st st'" "reports_no_end ps" "st_instances st k = Some i" "in_created_at i \<noteq> None"
  shows "\<exists>i'. st_instances st' k = Some i' \<and> meter_step now i i'"
  using assms
  by (induction rule: writes_machine.induct)
    (blast intro: one_update_step destroy_update describe_update heal_update wait_update release_update)+

text \<open>
  The uptime counter never falls.  Whatever operation of the service writes a recorded machine,
  the machine stays on the meter with the same start, and what a later scrape reports is not below
  what a scrape before the operation reported.
\<close>

theorem uptime_never_falls:
  assumes "writes_machine ps now st st'" "reports_no_end ps" "st_instances st k = Some i" "in_created_at i = Some c"
    and "\<forall>t. in_terminated_at i = Some t \<longrightarrow> t \<le> now" "now \<le> later"
  shows "\<exists>i' b b'. st_instances st' k = Some i' \<and> billing_of sku_of i = Some b \<and> billing_of sku_of i' = Some b'
     \<and> bi_since b' = c \<and> bi_since b = c \<and> billedSeconds b now \<le> billedSeconds b' later"
proof -
  obtain i' where i': "st_instances st' k = Some i'" "meter_step now i i'"
    using machine_step [OF assms(1-3)] assms(4) by auto
  obtain b where b: "billing_of sku_of i = Some b" "bi_since b = c" using assms(4) by (simp add: billing_of_def billingStart_def)
  with meter_step_mono [OF i'(2) assms(5,6), of sku_of b] i'(1) show ?thesis by auto
qed

text \<open>
  What may follow a destroy: any of these operations, but no remote description of the machine itself
  (see \<open>describe_restarts_meter\<close>) and no create under its id, which rents another machine.
\<close>

inductive later_write :: "providers \<Rightarrow> gostring \<Rightarrow> state \<Rightarrow> state \<Rightarrow> bool" for ps k where
  later_destroy: "later_write ps k st (snd (DestroyInstance ps now force q st))"
| later_describe: "q \<noteq> k \<or> \<not> remote \<Longrightarrow> later_write ps k st (snd (DescribeInstance ps now remote q st))"
| later_heal: "st_instances st q = Some i \<Longrightarrow> later_write ps k st (heal ps now q i st)"
| later_wait: "later_write ps k st (snd (WaitForInstanceReady ps q st))"
| later_release: "later_write ps k st (markInstanceTerminated now d q st)"

text \<open>What of the record of a returned machine no such operation touches.\<close>

definition returned_at :: "timestamp \<Rightarrow> timestamp \<Rightarrow> rat \<Rightarrow> inst \<Rightarrow> bool" where
  "returned_at c e rate i \<longleftrightarrow>
     in_state i = ITerminated \<and> in_created_at i = Some c \<and> in_terminated_at i = Some e \<and> in_hourly_rate i = rate"

lemma patched_instances: "st_instances (patchRecord q j st) = (st_instances st)(q \<mapsto> j)"
  by (simp add: patchRecord_def)

lemma destroy_returned:
  assumes "st_instances st k = Some i" "in_state i = ITerminated"
  shows "st_instances (snd (DestroyInstance ps now force q st)) k = Some i"
  using assms by (cases "q = k") (auto simp: DestroyInstance_def Let_def patched_instances split: option.split)

lemma describe_returned:
  assumes "st_instances st k = Some i" "q \<noteq> k \<or> \<not> remote"
  shows "st_instances (snd (DescribeInstance ps now remote q st)) k = Some i"
  using assms by (auto simp: DescribeInstance_def Let_def patched_instances split: option.split sum.split provider_error.split)

lemma heal_returned:
  assumes "st_instances st k = Some i" "in_state i = ITerminated" "st_instances st q = Some j"
  shows "st_instances (heal ps now q j st) k = Some i"
  using assms by (cases "q = k") (auto simp: heal_def Let_def patched_instances update_instance_def split: option.split sum.split list.split)

lemma wait_returned:
  assumes "st_instances st k = Some i" "returned_at c e rate i"
  shows "\<exists>j. st_instances (snd (WaitForInstanceReady ps q st)) k = Some j \<and> returned_at c e rate j"
  using assms by (cases "q = k")
    (auto simp: WaitForInstanceReady_def Let_def patched_instances returned_at_def split: option.split sum.split wait_error.split)

lemma release_returned:
  assumes "st_instances st k = Some i" "in_state i = ITerminated"
  shows "st_instances (markInstanceTerminated now d q st) k = Some i"
  using assms by (cases "q = k") (auto simp: markInstanceTerminated_def split: option.split)

lemma later_returned:
  assumes "(later_write ps k)\<^sup>*\<^sup>* st st'" "\<exists>i. st_instances st k = Some i \<and> returned_at c e rate i"
  shows "\<exists>i. st_instances st' k = Some i \<and> returned_at c e rate i"
  using assms
proof (induction rule: rtranclp_induct)
  case (step y z)
  then obtain i where i: "st_instances y k = Some i" "returned_at c e rate i" by auto
  then have t: "in_state i = ITerminated" by (simp add: returned_at_def)
  from step.hyps(2) show ?case
  proof cases
    case (later_destroy now force q)
    with i destroy_returned [OF i(1) t] show ?thesis by auto
  next
    case (later_describe q remote now)
    with i describe_returned [OF i(1) later_describe(2)] show ?thesis by auto
  next
    case (later_heal q j now)
    with i heal_returned [OF i(1) t later_heal(2)] show ?thesis by auto
  next
    case (later_wait q)
    with wait_returned [OF i] show ?thesis by simp
  next
    case (later_release now d q)
    with i release_returned [OF i(1) t] show ?thesis by auto
  qed
qed

text \<open>
  C17: A returned machine stops costing.  Once a destroy of a machine that was not yet terminated has
  succeeded, every scrape from then on reports the seconds from its creation to that destroy, and
  the dollars these come to at its hourly rate.  Destroys, local and other machines' descriptions,
  the self-heal of a listing, waits and releases of rentals may run in between; a remote description of
  the machine may not.
\<close>

theorem destroyed_bill_final:
  assumes "st_instances st k = Some i" "in_state i \<noteq> ITerminated" "in_created_at i = Some c"
    and "DestroyInstance ps now force k st = (Inr fin, st')" "(later_write ps k)\<^sup>*\<^sup>* st' st''" "now \<le> t"
  shows "\<exists>j b. st_instances st'' k = Some j \<and> in_state j = ITerminated \<and> billing_of sku_of j = Some b
     \<and> billedSeconds b t = (if now < c then 0 else Seconds (time_sub now c))
     \<and> spend_of b t = fl64 (fl64 ((if now < c then 0 else Seconds (time_sub now c)) * in_hourly_rate i) / 3600)"
proof -
  have "st_instances st' k = Some fin \<and> returned_at c now (in_hourly_rate i) fin"
    using assms(1-4) by (auto simp: DestroyInstance_def Let_def patched_instances returned_at_def split: if_splits option.splits)
  then obtain j where j: "st_instances st'' k = Some j" "returned_at c now (in_hourly_rate i) j"
    using later_returned [OF assms(5)] by blast
  then obtain b where b: "billing_of sku_of j = Some b" "bi_since b = c" "bi_until b = Some now" "bi_rate b = in_hourly_rate i"
    by (simp add: billing_of_def billingStart_def returned_at_def)
  with j show ?thesis by (auto simp: billedSeconds_def spend_of_def returned_at_def)
qed

lemma spend_mono:
  "bi_rate b' = bi_rate b \<Longrightarrow> 0 \<le> bi_rate b \<Longrightarrow> billedSeconds b now \<le> billedSeconds b' later \<Longrightarrow> spend_of b now \<le> spend_of b' later"
  using mult_right_mono [of "billedSeconds b now" "billedSeconds b' later" "bi_rate b"]
  unfolding spend_of_def by (intro fl64_mono divide_right_mono) simp_all

text \<open>
  A remote description of a machine that is over replaces its record by one without an end, so the
  meter of a returned machine runs again.
\<close>

theorem describe_restarts_meter:
  assumes "st_instances st k = Some i" "in_state i = ITerminated" "in_terminated_at i = Some e" "in_created_at i = Some c"
    and "ValidateID k" "in_provider_id i \<noteq> []" "ps (in_provider i) = Some p" "pv_describe p (in_provider_id i) = Inr fresh"
    and "in_terminated_at fresh = None" "c \<le> e" "e + second \<le> later" "later - c \<le> max_int64"
  shows "\<exists>i' st' b b'. DescribeInstance ps now True k st = (Inr i', st') \<and> billing_of sku_of i = Some b \<and> billing_of sku_of i' = Some b'
     \<and> billedSeconds b later = Seconds (e - c) \<and> billedSeconds b' later = Seconds (later - c)"
  using assms by (simp add: DescribeInstance_def Let_def billing_of_def billingStart_def finalizeActive_def billedSeconds_def time_sub_def
      max_int64_def min_int64_def)

text \<open>A create that the provider refused leaves a record that is on the meter for ever.\<close>

theorem failed_spawn_metered:
  assumes "registerKeyAndSpawn ks op now p sp (newPendingInstance sp name now) st = (Inl e, st')" "ensureProviderKey ks p = None"
    and "now \<le> t" "t - now \<le> max_int64"
  shows "\<exists>i b. st_instances st' (sp_id sp) = Some i \<and> in_state i = IFailed \<and> billing_of sku_of i = Some b
     \<and> billedSeconds b t = Seconds (t - now)"
proof -
  obtain i where i: "st_instances st' (sp_id sp) = Some i" "in_state i = IFailed" "in_created_at i = Some now" "in_terminated_at i = None"
    using assms(1,2) by (auto simp: registerKeyAndSpawn_def newPendingInstance_def patchRecord_def Let_def split: sum.splits)
  then obtain b where b: "billing_of sku_of i = Some b" "bi_since b = now" "bi_until b = None"
    by (simp add: billing_of_def billingStart_def)
  then have "billedSeconds b t = Seconds (t - now)"
    using assms(3,4) by (simp add: billedSeconds_def time_sub_def max_int64_def min_int64_def)
  with i b show ?thesis by blast
qed

subsection \<open>Rates\<close>

lemma fl64_pos: "0 < x \<Longrightarrow> 0 < fl64 x"
  using less_le_trans [OF zero_less_power_int [of "2 :: rat" "binade x"] fl_pos_bounds(1) [of x]] by (simp add: fl64_alt)

lemma map_sum_Inr: "map_sum f g x = Inr y \<longleftrightarrow> (\<exists>z. x = Inr z \<and> y = g z)"
  by (cases x) auto

text \<open>
  A loaded rate is positive.  If every power figure of the file is non-negative, a file that
  loads has as many rows as providers, in order, each with a positive rate; a row without a card,
  without a price or with an unknown billing mode fails the load.
\<close>

theorem loaded_rates_positive:
  assumes "LoadProviders (Inr rows) = Inr ps" "\<forall>r \<in> set rows. 0 \<le> pf_watts r \<and> 0 \<le> pf_per_kwh r"
  shows "map pp_name ps = map pf_name rows \<and> rows \<noteq> [] \<and> (\<forall>p \<in> set ps. 0 < pp_rate p \<and> pp_gpu_type p \<noteq> [])
     \<and> (\<forall>r \<in> set rows. pf_mode r \<in> {''metered_per_second'', ''spot_variable'', ''reserved_monthly'', ''bare_metal_monthly'', ''owned_capex''})"
proof -
  have one: "0 < rate \<and> pf_gpu_type r \<noteq> [] \<and> pf_mode r \<in> {''metered_per_second'', ''spot_variable'', ''reserved_monthly'', ''bare_metal_monthly'', ''owned_capex''}"
    if n: "normalize r = Inr rate" and w: "0 \<le> pf_watts r" "0 \<le> pf_per_kwh r" for r rate
  proof -
    have power: "0 \<le> fl64 (fl64 (fl64 (pf_watts r * pf_per_kwh r) / 1000) / 3600)"
      using w by (intro float64.fl_nonneg divide_nonneg_nonneg mult_nonneg_nonneg) simp_all
    have "0 < fl64 (fl64 (fl64 (pf_capex r / fl64 (of_int (pf_amort_months r))) / hoursPerMonth) / 3600)"
      if "0 < pf_capex r" "0 < pf_amort_months r"
      using that by (intro fl64_pos divide_pos_pos) (simp_all add: hoursPerMonth_def)
    with power n show ?thesis
      by (auto simp: normalize_def Let_def hoursPerMonth_def not_le intro!: fl64_pos divide_pos_pos add_pos_nonneg split: if_splits)
  qed
  have "load_rows rows = Inr ps \<Longrightarrow> \<forall>r \<in> set rows. 0 \<le> pf_watts r \<and> 0 \<le> pf_per_kwh r \<Longrightarrow>
      map pp_name ps = map pf_name rows \<and> (\<forall>p \<in> set ps. 0 < pp_rate p \<and> pp_gpu_type p \<noteq> [])
     \<and> (\<forall>r \<in> set rows. pf_mode r \<in> {''metered_per_second'', ''spot_variable'', ''reserved_monthly'', ''bare_metal_monthly'', ''owned_capex''})"
  proof (induction rows arbitrary: ps)
    case (Cons r rows)
    obtain rate where r: "normalize r = Inr rate" using Cons.prems(1) by (auto split: sum.splits)
    obtain qs where q: "load_rows rows = Inr qs"
        "ps = \<lparr>pp_name = pf_name r, pp_mode = pf_mode r, pp_gpu_type = pf_gpu_type r, pp_rate = rate\<rparr> # qs"
      using Cons.prems(1) r by (cases "load_rows rows") auto
    from Cons.IH [OF q(1)] one [OF r] Cons.prems(2) q(2) show ?case by simp
  qed simp
  with assms show ?thesis by (cases rows) (auto simp: LoadProviders_def map_sum_Inr)
qed

subsection \<open>Witnesses\<close>

lemma sample_describe: "reports_no_end (\<lambda>_. None)"
  by (simp add: reports_no_end_def)

definition sample_rental :: inst where
  "sample_rental = sample_instance\<lparr>in_id := ''d'', in_state := IActive, in_created_at := Some 100, in_terminated_at := None, in_hourly_rate := 2\<rparr>"

definition sample_fleet :: state where
  "sample_fleet = NewState\<lparr>st_instances := [''d'' \<mapsto> sample_rental]\<rparr>"

theorem uptime_never_falls_witness:
  "\<exists>i' b'. st_instances (snd (DestroyInstance (\<lambda>_. None) 500 True ''d'' sample_fleet)) ''d'' = Some i'
     \<and> billing_of in_provider i' = Some b' \<and> bi_since b' = 100"
proof -
  have i: "st_instances sample_fleet ''d'' = Some sample_rental" "in_created_at sample_rental = Some 100"
    "\<forall>t. in_terminated_at sample_rental = Some t \<longrightarrow> t \<le> 500"
    by (simp_all add: sample_fleet_def NewState_def sample_rental_def)
  from uptime_never_falls [OF destroys [where force = True and k = "''d''"] sample_describe i, of 900 in_provider] show ?thesis by auto
qed

theorem destroyed_bill_final_witness:
  "\<exists>j b. st_instances (markInstanceTerminated 700 ''d'' ''d'' (snd (DestroyInstance (\<lambda>_. None) 500 True ''d'' sample_fleet))) ''d'' = Some j
     \<and> billing_of in_provider j = Some b \<and> billedSeconds b 900 = Seconds (time_sub 500 100)"
proof -
  obtain fin st' where d: "DestroyInstance (\<lambda>_. None) 500 True ''d'' sample_fleet = (Inr fin, st')"
    by (simp add: DestroyInstance_def sample_fleet_def NewState_def sample_rental_def Let_def)
  have i: "st_instances sample_fleet ''d'' = Some sample_rental" "in_state sample_rental \<noteq> ITerminated" "in_created_at sample_rental = Some 100"
    by (simp_all add: sample_fleet_def NewState_def sample_rental_def)
  have "(later_write (\<lambda>_. None) ''d'')\<^sup>*\<^sup>* st' (markInstanceTerminated 700 ''d'' ''d'' st')" by (intro r_into_rtranclp later_release)
  from destroyed_bill_final [OF i d this, of 900 in_provider] d show ?thesis by auto
qed

definition sample_row :: provider_def where
  "sample_row = \<lparr>pf_name = ''p'', pf_mode = ''metered_per_second'', pf_gpu_type = ''h100'', pf_rate_per_hour = 3600,
     pf_fixed_per_month = 0, pf_capex = 0, pf_amort_months = 0, pf_watts = 0, pf_per_kwh = 0\<rparr>"

theorem loaded_rates_positive_witness:
  "\<exists>ps. LoadProviders (Inr [sample_row]) = Inr ps \<and> map pp_name ps = [''p''] \<and> (\<forall>p \<in> set ps. 0 < pp_rate p)"
proof -
  obtain ps where l: "LoadProviders (Inr [sample_row]) = Inr ps"
    by (simp add: LoadProviders_def normalize_def sample_row_def)
  have w: "\<forall>r \<in> set [sample_row]. 0 \<le> pf_watts r \<and> 0 \<le> pf_per_kwh r" by (simp add: sample_row_def)
  from loaded_rates_positive [OF l w] l show ?thesis by (simp add: sample_row_def)
qed

end
