(* ===== verification/Key_Registrars.thy ===== *)
theory Key_Registrars
imports Provider_Adapters Healthcheck
begin

text \<open>
  Putting the operator's public key on a provider account (\<^verbatim>\<open>keyregistrar.go\<close> of the three adapters):
  RunPod's single blob of keys, Vast's list, Lambda's named keys.  The parser of key lines
  (\<^verbatim>\<open>ssh.ParseAuthorizedKey\<close>) is a parameter; a parsed key stands for its wire bytes.
\<close>

subsection \<open>Reading keys\<close>

text \<open>The parser gives the key, its comment and what follows the line.\<close>

type_synonym key_parser = "gostring \<Rightarrow> (gostring \<times> gostring \<times> gostring) option"

definition cut_line :: "gostring \<Rightarrow> (gostring \<times> gostring) option" where
  "cut_line s = (case dropWhile (\<lambda>c. c \<noteq> LF) s of [] \<Rightarrow> None | _ # r \<Rightarrow> Some (takeWhile (\<lambda>c. c \<noteq> LF) s, r))"

text \<open>
  What the library documents: it reads the first line that holds a key (\<open>line_key\<close>) and ignores the
  invalid lines before it; an empty line holds none.
\<close>

definition reads_lines :: "(gostring \<Rightarrow> (gostring \<times> gostring) option) \<Rightarrow> key_parser \<Rightarrow> bool" where
  "reads_lines line_key parse \<longleftrightarrow>
     line_key [] = None
     \<and> (\<forall>s. parse s =
          (case cut_line s of
             None \<Rightarrow> map_option (\<lambda>(k, c). (k, c, [])) (line_key s)
           | Some (l, r) \<Rightarrow> (case line_key l of Some (k, c) \<Rightarrow> Some (k, c, r) | None \<Rightarrow> parse r)))"

definition IsIplaneComment :: "gostring \<Rightarrow> bool" where
  "IsIplaneComment c \<longleftrightarrow> has_prefix c ''iplane-''"

subsection \<open>RunPod\<close>

record blob_walk =
  bw_kept :: "gostring list"
  bw_match :: bool
  bw_pruned :: bool

text \<open>The text of the lines a parse consumed, without the newline at its end.\<close>

definition consumed :: "gostring \<Rightarrow> gostring \<Rightarrow> gostring" where
  "consumed rest next = trim_right LF (take (length rest - length next) rest)"

partial_function (option) walk_blob :: "key_parser \<Rightarrow> gostring \<Rightarrow> gostring \<Rightarrow> blob_walk \<Rightarrow> blob_walk option" where
  "walk_blob parse want rest w =
     (if rest = [] then Some w
      else case parse rest of
        None \<Rightarrow>
          (case cut_line rest of
             Some line \<Rightarrow> walk_blob parse want (snd line) (w\<lparr>bw_kept := bw_kept w @ [fst line]\<rparr>)
           | None \<Rightarrow> Some (w\<lparr>bw_kept := bw_kept w @ [rest]\<rparr>))
      | Some key \<Rightarrow>
          if \<not> IsIplaneComment (fst (snd key)) then
            walk_blob parse want (snd (snd key)) (w\<lparr>bw_kept := bw_kept w @ [consumed rest (snd (snd key))]\<rparr>)
          else if fst key = want then
            walk_blob parse want (snd (snd key)) (w\<lparr>bw_kept := bw_kept w @ [consumed rest (snd (snd key))], bw_match := True\<rparr>)
          else walk_blob parse want (snd (snd key)) (w\<lparr>bw_pruned := True\<rparr>))"

definition blob_of :: "gostring list \<Rightarrow> gostring" where
  "blob_of ls = concat (map (\<lambda>l. l @ [LF]) ls)"

record 's key_blob_api =
  kb_parse :: key_parser
  kb_fetch :: "'s \<Rightarrow> gostring + gostring"
  kb_update :: "gostring \<Rightarrow> 's \<Rightarrow> gostring option \<times> 's"

definition runpod_EnsurePublicKey :: "'s key_blob_api \<Rightarrow> gostring \<Rightarrow> gostring \<Rightarrow> 's \<Rightarrow> (gostring option \<times> 's) option" where
  "runpod_EnsurePublicKey api publicKey comment s =
     (case kb_fetch api s of
        Inl err \<Rightarrow> Some (Some err, s)
      | Inr current \<Rightarrow>
          (case kb_parse api publicKey of
             None \<Rightarrow> Some (Some ''parse own public key'', s)
           | Some (want, _, _) \<Rightarrow>
               (case walk_blob (kb_parse api) want current \<lparr>bw_kept = [], bw_match = False, bw_pruned = False\<rparr> of
                  None \<Rightarrow> None
                | Some w \<Rightarrow>
                    if bw_match w \<and> \<not> bw_pruned w then Some (None, s)
                    else Some (kb_update api
                      (blob_of (bw_kept w) @ (if bw_match w then [] else trim_right LF publicKey @ [LF])) s))))"

subsection \<open>Vast\<close>

record vast_key =
  vk_public_key :: gostring
  vk_ssh_key :: gostring

definition key_material :: "vast_key \<Rightarrow> gostring" where
  "key_material r = (if vk_public_key r \<noteq> [] then vk_public_key r else vk_ssh_key r)"

record 's vast_key_api =
  va_parse :: key_parser
  va_list :: "'s \<Rightarrow> gostring + vast_key list"
  va_upload :: "gostring \<Rightarrow> 's \<Rightarrow> gostring option \<times> 's"





definition IplaneKeyComments :: "'s vast_key_api \<Rightarrow> 's \<Rightarrow> gostring + gostring list" where
  "IplaneKeyComments api s =
     map_sum id (List.map_filter (\<lambda>k. case va_parse api (key_material k) of
          Some (_, c, _) \<Rightarrow> if IsIplaneComment c then Some c else None
        | None \<Rightarrow> None)) (va_list api s)"

subsection \<open>Lambda Labs\<close>




text \<open>The end of a comment that is a time: the pattern has a letter for each class of characters.\<close>

definition time_char :: "char \<Rightarrow> char \<Rightarrow> bool" where
  "time_char p c \<longleftrightarrow> (if p = CHR ''d'' then is_digit c else if p = CHR ''s'' then c = CHR ''+'' \<or> c = CHR ''-'' else c = p)"

definition ends_like :: "gostring \<Rightarrow> gostring \<Rightarrow> bool" where
  "ends_like pat s \<longleftrightarrow> length pat \<le> length s \<and> list_all2 time_char pat (drop (length s - length pat) s)"

definition drop_time :: "gostring \<Rightarrow> gostring" where
  "drop_time s =
     (if ends_like ''-dddd-dd-ddTdd:dd:ddZ'' s then take (length s - 21) s
      else if ends_like ''-dddd-dd-ddTdd:dd:ddsdd:dd'' s then take (length s - 26) s
      else s)"

definition key_name_safe :: "char \<Rightarrow> bool" where
  "key_name_safe c \<longleftrightarrow> c \<in> set ''ABCDEFGHIJKLMNOPQRSTUVWXYZabcdefghijklmnopqrstuvwxyz0123456789._-''"

text \<open>Every run of unsafe characters becomes one hyphen.\<close>

fun hyphenate :: "bool \<Rightarrow> gostring \<Rightarrow> gostring" where
  "hyphenate inside [] = []"
| "hyphenate inside (c # cs) =
     (if key_name_safe c then c # hyphenate False cs
      else if inside then hyphenate True cs else CHR ''-'' # hyphenate True cs)"

definition trim_hyphens :: "gostring \<Rightarrow> gostring" where
  "trim_hyphens s = trim_right (CHR ''-'') (dropWhile (\<lambda>c. c = CHR ''-'') s)"

definition key_stem :: "gostring \<Rightarrow> gostring" where
  "key_stem comment =
     (let base = trim_hyphens (hyphenate False (drop_time (trim_space comment))) in
      if base = [] then ''iplane-key'' else base)"

definition sshKeyName :: "gostring \<Rightarrow> gostring \<Rightarrow> gostring" where
  "sshKeyName digest comment =
     (let base = key_stem comment; limit = 64 - length digest - 1 in
      (if limit < length base then trim_right (CHR ''-'') (take limit base) else base) @ ''-'' @ digest)"


subsection \<open>The blob as a list of keys\<close>

declare trim_right.simps [simp del]

definition keys_in :: "(gostring \<Rightarrow> (gostring \<times> gostring) option) \<Rightarrow> gostring \<Rightarrow> (gostring \<times> gostring) list" where
  "keys_in line_key s = List.map_filter line_key (split_lines s)"

lemma split_lines_single: "LF \<notin> set s \<Longrightarrow> split_lines s = [s]"
  by (induction s) auto

lemma split_lines_ne: "split_lines s \<noteq> []"
  by (induction s) (auto split: list.split)

lemma split_lines_append: "split_lines (a @ LF # b) = split_lines a @ split_lines b"
proof (induction a)
  case (Cons x a)
  then show ?case using split_lines_ne [of a] by (auto split: list.splits)
qed simp

lemma keys_in_append: "keys_in lk (a @ LF # b) = keys_in lk a @ keys_in lk b"
  by (simp add: keys_in_def split_lines_append map_filter_def)

lemma keys_in_single: "LF \<notin> set s \<Longrightarrow> keys_in lk s = (case lk s of None \<Rightarrow> [] | Some x \<Rightarrow> [x])"
  by (simp add: keys_in_def split_lines_single map_filter_def split: option.split)

lemma keys_in_blob: "lk [] = None \<Longrightarrow> keys_in lk (blob_of ls @ t) = concat (map (keys_in lk) ls) @ keys_in lk t"
  by (induction ls) (simp_all add: blob_of_def keys_in_append)

lemma cut_line_None: "cut_line s = None \<longleftrightarrow> LF \<notin> set s"
proof (cases "LF \<in> set s")
  case True
  then show ?thesis by (auto simp: cut_line_def split: list.split)
next
  case False
  then have d: "dropWhile (\<lambda>c. c \<noteq> LF) s = []" unfolding dropWhile_eq_Nil_conv by blast
  show ?thesis using False unfolding cut_line_def d by simp
qed

lemma cut_line_Some: "cut_line s = Some (l, r) \<Longrightarrow> s = l @ LF # r \<and> LF \<notin> set l"
  by (induction s arbitrary: l) (auto simp: cut_line_def split: list.splits if_splits)

lemma trim_lf: "LF \<notin> set l \<Longrightarrow> trim_right LF l = l" "LF \<notin> set l \<Longrightarrow> trim_right LF (l @ [LF]) = l"
proof -
  show a: "LF \<notin> set l \<Longrightarrow> trim_right LF l = l" for l by (cases l rule: rev_cases) (auto simp: trim_right.simps)
  show "LF \<notin> set l \<Longrightarrow> trim_right LF (l @ [LF]) = l" using a [of l] by (simp add: trim_right.simps)
qed

lemma trim_tail: "trim_right LF t \<noteq> [] \<Longrightarrow> trim_right LF (a @ t) = a @ trim_right LF t"
  by (auto simp: dropWhile_append trim_right.simps)

text \<open>What a parse reads, and the text it consumes.\<close>

lemma parse_reads:
  assumes "reads_lines lk parse"
  shows "(parse s = None \<longrightarrow> keys_in lk s = [])
     \<and> (parse s = Some (k, c, r) \<longrightarrow> keys_in lk s = (k, c) # keys_in lk r \<and> keys_in lk (consumed s r) = [(k, c)]
          \<and> consumed s r \<noteq> [] \<and> length r < length s)"
proof (induction "length s" arbitrary: s rule: less_induct)
  case less
  have empty: "lk [] = None" and eq: "parse s = (case cut_line s of
             None \<Rightarrow> map_option (\<lambda>(k, c). (k, c, [])) (lk s)
           | Some (l, r) \<Rightarrow> (case lk l of Some (k, c) \<Rightarrow> Some (k, c, r) | None \<Rightarrow> parse r))"
    using assms unfolding reads_lines_def by blast+
  show ?case
  proof (cases "cut_line s")
    case None
    then have n: "LF \<notin> set s" by (simp add: cut_line_None)
    have "keys_in lk [] = []" using empty by (simp add: keys_in_single)
    moreover have "s \<noteq> []" if "lk s = Some x" for x using that empty by auto
    ultimately show ?thesis
      using eq None n by (auto simp: keys_in_single consumed_def trim_lf)
  next
    case (Some lr)
    obtain l r0 where lr: "lr = (l, r0)" by fastforce
    have s: "s = l @ LF # r0" "LF \<notin> set l" using cut_line_Some Some lr by simp_all
    have k: "keys_in lk s = (case lk l of None \<Rightarrow> [] | Some x \<Rightarrow> [x]) @ keys_in lk r0"
      using s by (simp add: keys_in_append keys_in_single)
    show ?thesis
    proof (cases "lk l")
      case (Some kc)
      obtain k0 c0 where kc: "kc = (k0, c0)" by fastforce
      have "l \<noteq> []" using Some empty by auto
      moreover have "take (length s - length r0) s = l @ [LF]" using s(1) by simp
      then have "consumed s r0 = l" by (simp only: consumed_def trim_lf(2) [OF s(2)])
      ultimately show ?thesis
        using eq \<open>cut_line s = Some lr\<close> lr Some kc k s by (auto simp: keys_in_single)
    next
      case None
      have p: "parse s = parse r0" using eq \<open>cut_line s = Some lr\<close> lr None by simp
      have kr: "keys_in lk s = keys_in lk r0" using k None by simp
      have ih: "(parse r0 = None \<longrightarrow> keys_in lk r0 = []) \<and> (parse r0 = Some (k, c, r) \<longrightarrow> keys_in lk r0 = (k, c) # keys_in lk r
          \<and> keys_in lk (consumed r0 r) = [(k, c)] \<and> consumed r0 r \<noteq> [] \<and> length r < length r0)"
        using less s(1) by simp
      show ?thesis
      proof (cases "parse r0 = Some (k, c, r)")
        case True
        then have len: "length r < length r0" and ne: "consumed r0 r \<noteq> []" using ih by auto
        have "take (length s - length r) s = (l @ [LF]) @ take (length r0 - length r) r0"
          using s(1) len by (simp add: Suc_diff_le)
        then have "consumed s r = (l @ [LF]) @ consumed r0 r"
          using trim_tail [of "take (length r0 - length r) r0" "l @ [LF]"] ne unfolding consumed_def by simp
        then have "keys_in lk (consumed s r) = keys_in lk (consumed r0 r)" "consumed s r \<noteq> []"
          using keys_in_append [of lk l "consumed r0 r"] s(2) None by (simp_all add: keys_in_single)
        then show ?thesis using ih p kr True s(1) len by simp
      qed (use ih p kr in auto)
    qed
  qed
qed

definition is_own :: "gostring \<Rightarrow> gostring \<times> gostring \<Rightarrow> bool" where
  "is_own want x \<longleftrightarrow> IsIplaneComment (snd x) \<and> fst x = want"

definition is_stale :: "gostring \<Rightarrow> gostring \<times> gostring \<Rightarrow> bool" where
  "is_stale want x \<longleftrightarrow> IsIplaneComment (snd x) \<and> fst x \<noteq> want"

text \<open>The walk ends, keeps every key but the stale ones in order, and its flags say what it met.\<close>

lemma walk_blob_keys:
  assumes "reads_lines lk parse"
  shows "\<exists>w'. walk_blob parse want s w = Some w'
     \<and> keys_in lk (blob_of (bw_kept w')) = keys_in lk (blob_of (bw_kept w)) @ filter (\<lambda>x. \<not> is_stale want x) (keys_in lk s)
     \<and> bw_match w' = (bw_match w \<or> list_ex (is_own want) (keys_in lk s))
     \<and> bw_pruned w' = (bw_pruned w \<or> list_ex (is_stale want) (keys_in lk s))"
proof (induction "length s" arbitrary: s w rule: less_induct)
  case less
  have empty: "lk [] = None" using assms unfolding reads_lines_def by blast
  then have e: "keys_in lk [] = []" by (simp add: keys_in_single)
  have blob: "keys_in lk (blob_of (ls @ [l])) = keys_in lk (blob_of ls) @ keys_in lk l" for ls l
    using keys_in_blob [of lk "ls @ [l]" "[]"] keys_in_blob [of lk ls "[]"] empty e by simp
  note pr = parse_reads [OF assms, of s]
  consider "s = []" | "s \<noteq> []" "parse s = None" "cut_line s = None"
    | l r where "s \<noteq> []" "parse s = None" "cut_line s = Some (l, r)"
    | k c r where "s \<noteq> []" "parse s = Some (k, c, r)" by (metis prod_cases3 option.exhaust surj_pair)
  then show ?case
  proof cases
    case 1
    then show ?thesis using e by (subst walk_blob.simps) simp
  next
    case 2
    then show ?thesis using pr blob by (subst walk_blob.simps) simp
  next
    case (3 l r)
    then have s: "s = l @ LF # r" "LF \<notin> set l" using cut_line_Some by simp_all
    have "keys_in lk s = []" using pr 3(2) by simp
    then have k: "keys_in lk l = []" "keys_in lk r = []" using s(1) keys_in_append [of lk l r] by simp_all
    have "length r < length s" using s(1) by simp
    from less [OF this, of "w\<lparr>bw_kept := bw_kept w @ [l]\<rparr>"] show ?thesis
      using 3 k blob \<open>keys_in lk s = []\<close> by (subst walk_blob.simps) simp
  next
    case (4 k c r)
    have p: "keys_in lk s = (k, c) # keys_in lk r" "keys_in lk (consumed s r) = [(k, c)]" "length r < length s"
      using parse_reads [OF assms, of s k c r] 4(2) by simp_all
    let ?w = "if \<not> IsIplaneComment c then w\<lparr>bw_kept := bw_kept w @ [consumed s r]\<rparr>
       else if k = want then w\<lparr>bw_kept := bw_kept w @ [consumed s r], bw_match := True\<rparr> else w\<lparr>bw_pruned := True\<rparr>"
    have "walk_blob parse want s w = walk_blob parse want r ?w"
      using 4 by (subst walk_blob.simps) simp
    with less [OF p(3), of ?w] show ?thesis
      using p(1,2) blob by (auto simp: is_own_def is_stale_def)
  qed
qed

text \<open>What the vendor documents: the account has the blob it was given last.\<close>

definition keeps_blob :: "'s key_blob_api \<Rightarrow> bool" where
  "keeps_blob api \<longleftrightarrow> (\<forall>b s s'. kb_update api b s = (None, s') \<longrightarrow> kb_fetch api s' = Inr b)"

text \<open>A well-formed key line of this operator.\<close>

definition own_line :: "(gostring \<Rightarrow> (gostring \<times> gostring) option) \<Rightarrow> gostring \<Rightarrow> gostring \<Rightarrow> gostring \<Rightarrow> bool" where
  "own_line lk publicKey want c \<longleftrightarrow>
     LF \<notin> set (trim_right LF publicKey) \<and> lk (trim_right LF publicKey) = Some (want, c) \<and> IsIplaneComment c"

lemma runpod_registers:
  assumes "reads_lines lk (kb_parse api)" "keeps_blob api" "own_line lk publicKey want c" "kb_parse api publicKey = Some (want, c, rest)"
    and "kb_fetch api s = Inr current" "runpod_EnsurePublicKey api publicKey comment s = Some (None, s')"
  shows "\<exists>blob. kb_fetch api s' = Inr blob
     \<and> keys_in lk blob = filter (\<lambda>x. \<not> is_stale want x) (keys_in lk current)
          @ (if list_ex (is_own want) (keys_in lk current) then [] else [(want, c)])"
proof -
  let ?w0 = "\<lparr>bw_kept = [], bw_match = False, bw_pruned = False\<rparr>"
  have empty: "lk [] = None" using assms(1) unfolding reads_lines_def by blast
  have e: "keys_in lk [] = []" using empty by (simp add: keys_in_single)
  obtain w where w: "walk_blob (kb_parse api) want current ?w0 = Some w"
      "keys_in lk (blob_of (bw_kept w)) = filter (\<lambda>x. \<not> is_stale want x) (keys_in lk current)"
      "bw_match w = list_ex (is_own want) (keys_in lk current)" "bw_pruned w = list_ex (is_stale want) (keys_in lk current)"
    using walk_blob_keys [OF assms(1), of want current ?w0] e by (auto simp: blob_of_def)
  show ?thesis
  proof (cases "bw_match w \<and> \<not> bw_pruned w")
    case True
    then have "filter (\<lambda>x. \<not> is_stale want x) (keys_in lk current) = keys_in lk current"
      using w(4) by (auto simp: filter_id_conv list_ex_iff)
    then show ?thesis using assms(4-6) w True by (auto simp: runpod_EnsurePublicKey_def)
  next
    case False
    let ?tail = "if bw_match w then [] else trim_right LF publicKey @ [LF]"
    have "kb_update api (blob_of (bw_kept w) @ ?tail) s = (None, s')"
      using assms(4-6) w False by (auto simp: runpod_EnsurePublicKey_def)
    then have f: "kb_fetch api s' = Inr (blob_of (bw_kept w) @ ?tail)" using assms(2) unfolding keeps_blob_def by blast
    have line: "keys_in lk (trim_right LF publicKey @ [LF]) = [(want, c)]"
      using assms(3) keys_in_append [of lk "trim_right LF publicKey" "[]"] e by (simp add: own_line_def keys_in_single)
    have "keys_in lk (blob_of (bw_kept w) @ ?tail) = keys_in lk (blob_of (bw_kept w)) @ keys_in lk ?tail"
      using keys_in_blob [of lk "bw_kept w" ?tail] keys_in_blob [of lk "bw_kept w" "[]"] empty e by simp
    then show ?thesis using f w line e by simp
  qed
qed

subsection \<open>The contract of a registrar\<close>


subsection \<open>The three registrars\<close>

type_synonym line_reader = "gostring \<Rightarrow> (gostring \<times> gostring) option"



























text \<open>
  Registering on RunPod rewrites nothing of anybody else's.  The walk over the blob always ends;
  when the call succeeds, the keys of the account are the old ones in their order, without those
  that carry iplane's mark and are not the key registered, and the key registered follows them
  unless it was already there.
\<close>

theorem runpod_blob_exact:
  assumes "reads_lines lk (kb_parse api)" "keeps_blob api" "own_line lk pk want c" "kb_parse api pk = Some (want, c, rest)"
    and "kb_fetch api s = Inr current"
  shows "\<exists>err s'. runpod_EnsurePublicKey api pk comment s = Some (err, s')
     \<and> (err = None \<longrightarrow> (\<exists>blob. kb_fetch api s' = Inr blob
          \<and> keys_in lk blob = filter (\<lambda>x. \<not> is_stale want x) (keys_in lk current)
               @ (if list_ex (is_own want) (keys_in lk current) then [] else [(want, c)])))"
proof -
  obtain w where "walk_blob (kb_parse api) want current \<lparr>bw_kept = [], bw_match = False, bw_pruned = False\<rparr> = Some w"
    using walk_blob_keys [OF assms(1)] by blast
  then have "\<exists>x. runpod_EnsurePublicKey api pk comment s = Some x"
    using assms(4,5) by (cases "bw_match w \<and> \<not> bw_pruned w") (auto simp: runpod_EnsurePublicKey_def)
  then obtain err s' where e: "runpod_EnsurePublicKey api pk comment s = Some (err, s')" by auto
  then show ?thesis using runpod_registers [OF assms(1-5)] by (cases err) auto
qed

text \<open>So a second operator on the account loses the key it registered.\<close>

lemma rival_key_dropped:
  assumes "reads_lines lk (kb_parse api)" "keeps_blob api" "own_line lk pk want c" "kb_parse api pk = Some (want, c, rest)"
    and "kb_fetch api s = Inr current" "runpod_EnsurePublicKey api pk comment s = Some (None, s')"
    and "(rival, d) \<in> set (keys_in lk current)" "IsIplaneComment d" "rival \<noteq> want"
  shows "\<exists>blob. kb_fetch api s' = Inr blob \<and> (rival, d) \<notin> set (keys_in lk blob)"
  using runpod_registers [OF assms(1-6)] assms(8,9) by (force simp: is_stale_def)

text \<open>And a line without a key that precedes a stale key goes with it.\<close>

lemma comment_line_lost:
  assumes "reads_lines lk parse" "lk memo = None" "LF \<notin> set memo" "lk stale = Some (k, c)" "LF \<notin> set stale"
    and "IsIplaneComment c" "k \<noteq> want"
  shows "walk_blob parse want (memo @ [LF] @ stale) w = Some (w\<lparr>bw_pruned := True\<rparr>)"
proof -
  have cut1: "cut_line (memo @ LF # stale) = Some (memo, stale)"
  proof -
    have "\<forall>x \<in> set memo. x \<noteq> LF" using assms(3) by blast
    then have "dropWhile (\<lambda>c. c \<noteq> LF) (memo @ LF # stale) = LF # stale" "takeWhile (\<lambda>c. c \<noteq> LF) (memo @ LF # stale) = memo"
      by (simp_all add: dropWhile_append2 takeWhile_append2)
    then show ?thesis unfolding cut_line_def by simp
  qed
  have cut2: "cut_line stale = None" using assms(5) by (simp add: cut_line_None)
  have eq: "parse s = (case cut_line s of
             None \<Rightarrow> map_option (\<lambda>(k, c). (k, c, [])) (lk s)
           | Some (l, r) \<Rightarrow> (case lk l of Some (k, c) \<Rightarrow> Some (k, c, r) | None \<Rightarrow> parse r))" for s
    using assms(1) unfolding reads_lines_def by blast
  have "parse (memo @ LF # stale) = parse stale" using eq [of "memo @ LF # stale"] cut1 assms(2) by simp
  also have "\<dots> = Some (k, c, [])" using eq [of stale] cut2 assms(4) by simp
  finally have p: "parse (memo @ LF # stale) = Some (k, c, [])" .
  have "walk_blob parse want (memo @ LF # stale) w = walk_blob parse want [] (w\<lparr>bw_pruned := True\<rparr>)"
    using p assms(6,7) by (subst walk_blob.simps) simp
  then show ?thesis by (simp add: walk_blob.simps)
qed

subsection \<open>Names of keys on Lambda\<close>

lemma hyphen_safe: "key_name_safe (CHR ''-'')" "\<forall>c \<in> set ''iplane-key''. key_name_safe c"
  by (simp_all add: key_name_safe_def)

lemma hyphenate_safe: "set (hyphenate b s) \<subseteq> {c. key_name_safe c}"
  by (induction b s rule: hyphenate.induct) (use hyphen_safe(1) in auto)

lemma trim_right_set: "set (trim_right c s) \<subseteq> set s"
  using set_dropWhileD by (fastforce simp: trim_right.simps)

lemma trim_right_length: "length (trim_right c s) \<le> length s"
  using length_dropWhile_le [of "\<lambda>x. x = c" "rev s"] by (simp add: trim_right.simps)

lemma trim_right_ne: "s = x # xs \<Longrightarrow> x \<noteq> c \<Longrightarrow> trim_right c s \<noteq> []"
  by (auto simp: trim_right.simps dropWhile_eq_Nil_conv)

lemma trim_hyphens_head:
  "trim_hyphens s = [] \<or> (\<exists>x xs. trim_hyphens s = x # xs \<and> x \<noteq> CHR ''-'')"
proof (cases "dropWhile (\<lambda>c. c = CHR ''-'') s")
  case (Cons y ys)
  then have y: "y \<noteq> CHR ''-''" using hd_dropWhile [of "\<lambda>c. c = CHR ''-''" s] by simp
  have "trim_right (CHR ''-'') ([y] @ ys) = [y] @ trim_right (CHR ''-'') ys"
  proof (cases "dropWhile (\<lambda>c. c = CHR ''-'') (rev ys) = []")
    case True
    then show ?thesis using y unfolding trim_right.simps rev_append dropWhile_append by simp
  qed (simp add: trim_right.simps dropWhile_append)
  then show ?thesis using Cons y by (simp add: trim_hyphens_def)
next
  case Nil
  show ?thesis unfolding trim_hyphens_def Nil by (simp add: trim_right.simps)
qed

lemma trim_hyphens_set: "set (trim_hyphens s) \<subseteq> set s"
proof -
  have "set (dropWhile (\<lambda>c. c = CHR ''-'') s) \<subseteq> set s"
    using set_dropWhileD [of _ "\<lambda>c. c = CHR ''-''" s] by blast
  with trim_right_set [of "CHR ''-''" "dropWhile (\<lambda>c. c = CHR ''-'') s"]
  show ?thesis unfolding trim_hyphens_def by (rule subset_trans)
qed

lemma key_stem_head: "\<exists>x xs. key_stem comment = x # xs \<and> x \<noteq> CHR ''-''"
  using trim_hyphens_head [of "hyphenate False (drop_time (trim_space comment))"]
  by (auto simp: key_stem_def Let_def)

lemma if_P_both: "set a \<subseteq> A \<Longrightarrow> set b \<subseteq> A \<Longrightarrow> set (if P then b else a) \<subseteq> A"
  by simp

lemma key_stem_safe: "set (key_stem comment) \<subseteq> {c. key_name_safe c}"
proof -
  let ?h = "hyphenate False (drop_time (trim_space comment))"
  have "set (trim_hyphens ?h) \<subseteq> {c. key_name_safe c}"
    using trim_hyphens_set [of ?h] hyphenate_safe [of False "drop_time (trim_space comment)"] by (rule subset_trans)
  moreover have "set ''iplane-key'' \<subseteq> {c. key_name_safe c}" using hyphen_safe(2) by blast
  ultimately show ?thesis unfolding key_stem_def Let_def by (rule if_P_both)
qed

text \<open>The readable half, cut to what the digest leaves.\<close>

definition key_base :: "gostring \<Rightarrow> gostring" where
  "key_base comment =
     (if 55 < length (key_stem comment) then trim_right (CHR ''-'') (take 55 (key_stem comment)) else key_stem comment)"

lemma key_base_bounds:
  "0 < length (key_base comment)" "length (key_base comment) \<le> 55" "set (key_base comment) \<subseteq> {c. key_name_safe c}"
proof -
  obtain x xs where x: "key_stem comment = x # xs" "x \<noteq> CHR ''-''" using key_stem_head by blast
  have "take 55 (key_stem comment) = x # take 54 xs" using x(1) by simp
  from trim_right_ne [OF this x(2)] show "0 < length (key_base comment)" using x(1) by (simp add: key_base_def)
  show "length (key_base comment) \<le> 55"
    using trim_right_length [of "CHR ''-''" "take 55 (key_stem comment)"] by (simp add: key_base_def min_def split: if_splits)
  have "set (key_base comment) \<subseteq> set (key_stem comment)"
    using trim_right_set [of "CHR ''-''" "take 55 (key_stem comment)"] set_take_subset [of 55 "key_stem comment"]
    unfolding key_base_def by (intro if_P_both) auto
  then show "set (key_base comment) \<subseteq> {c. key_name_safe c}" using key_stem_safe by (rule subset_trans)
qed

lemma sshKeyName_alt: "length digest = 8 \<Longrightarrow> sshKeyName digest comment = key_base comment @ ''-'' @ digest"
  by (simp add: sshKeyName_def key_base_def Let_def)

text \<open>
  Every key gets a name Lambda accepts.  Whatever the comment is, the name derived from it and
  an eight digit digest has between ten and 64 characters, all of them letters, digits, dots,
  underscores or hyphens, and ends in the digest, so different digests give different names.
\<close>

theorem key_name_fits:
  assumes "length digest = 8" "\<forall>c \<in> set digest. key_name_safe c"
  shows "10 \<le> length (sshKeyName digest comment) \<and> length (sshKeyName digest comment) \<le> 64
     \<and> (\<forall>c \<in> set (sshKeyName digest comment). key_name_safe c)
     \<and> (\<forall>d' comment'. length d' = 8 \<longrightarrow> sshKeyName d' comment' = sshKeyName digest comment \<longrightarrow> d' = digest)"
proof (intro conjI allI impI)
  note n = sshKeyName_alt [OF assms(1), of comment] and b = key_base_bounds [of comment]
  show "10 \<le> length (sshKeyName digest comment)" "length (sshKeyName digest comment) \<le> 64"
    using b(1,2) assms(1) by (simp_all add: n Suc_le_eq)
  show "\<forall>c \<in> set (sshKeyName digest comment). key_name_safe c"
    using b(3) assms(2) hyphen_safe(1) unfolding n by auto
  fix d' comment'
  assume d: "length d' = 8" "sshKeyName d' comment' = sshKeyName digest comment"
  then show "d' = digest"
    using append_eq_append_conv [of d' digest "key_base comment' @ ''-''" "key_base comment @ ''-''"] assms(1)
    by (simp add: sshKeyName_alt)
qed

subsection \<open>Witnesses\<close>

theorem key_name_fits_witness: "length (sshKeyName ''0a1b2c3d'' ''iplane-me-lambdalabs-2026-05-20T10:00:00Z'') \<le> 64"
proof -
  have "\<forall>c \<in> set ''0a1b2c3d''. key_name_safe c" by (simp add: key_name_safe_def)
  with key_name_fits [of "''0a1b2c3d''" "''iplane-me-lambdalabs-2026-05-20T10:00:00Z''"] show ?thesis by simp
qed

text \<open>Keys of one character: a line is a key and its comment, unless it starts with \<open>#\<close>.\<close>

definition sample_line :: line_reader where
  "sample_line l = (case l of [] \<Rightarrow> None | c # cs \<Rightarrow> if c = CHR ''#'' then None else Some ([c], cs))"

function sample_parse :: key_parser where
  "sample_parse s =
     (case cut_line s of
        None \<Rightarrow> map_option (\<lambda>(k, c). (k, c, [])) (sample_line s)
      | Some (l, r) \<Rightarrow> (case sample_line l of Some (k, c) \<Rightarrow> Some (k, c, r) | None \<Rightarrow> sample_parse r))"
  by pat_completeness auto
termination by (relation "measure length") (auto dest!: cut_line_Some)

declare sample_parse.simps [simp del]

lemma sample_reads: "reads_lines sample_line sample_parse"
proof -
  have "\<forall>s. sample_parse s = (case cut_line s of
        None \<Rightarrow> map_option (\<lambda>(k, c). (k, c, [])) (sample_line s)
      | Some (l, r) \<Rightarrow> (case sample_line l of Some (k, c) \<Rightarrow> Some (k, c, r) | None \<Rightarrow> sample_parse r))"
    by (intro allI) (rule sample_parse.simps)
  moreover have "sample_line [] = None" by (simp add: sample_line_def)
  ultimately show ?thesis unfolding reads_lines_def by blast
qed


definition sample_key_text :: gostring where
  "sample_key_text = ''Aiplane-me''"

definition sample_blob_api :: "gostring key_blob_api" where
  "sample_blob_api = \<lparr>kb_parse = sample_parse, kb_fetch = Inr, kb_update = (\<lambda>b s. (None, b))\<rparr>"




lemma sample_text:
  "LF \<notin> set sample_key_text" "sample_line sample_key_text = Some (''A'', ''iplane-me'')"
  "sample_parse sample_key_text = Some (''A'', ''iplane-me'', [])" "trim_right LF sample_key_text = sample_key_text"
  "own_line sample_line sample_key_text ''A'' ''iplane-me''"
proof -
  show n: "LF \<notin> set sample_key_text" "sample_line sample_key_text = Some (''A'', ''iplane-me'')"
    by (simp_all add: sample_key_text_def sample_line_def char_of_def)
  then have c: "cut_line sample_key_text = None" by (simp add: cut_line_None)
  show "sample_parse sample_key_text = Some (''A'', ''iplane-me'', [])"
    using n(2) c by (subst sample_parse.simps) simp
  show t: "trim_right LF sample_key_text = sample_key_text" by (rule trim_lf(1) [OF n(1)])
  show "own_line sample_line sample_key_text ''A'' ''iplane-me''"
    using n t by (simp add: own_line_def IsIplaneComment_def has_prefix_def)
qed

lemma sample_blob_api:
  "reads_lines sample_line (kb_parse sample_blob_api)" "keeps_blob sample_blob_api"
  "kb_parse sample_blob_api sample_key_text = Some (''A'', ''iplane-me'', [])" "kb_fetch sample_blob_api s = Inr s"
  using sample_reads sample_text(3) by (simp_all add: sample_blob_api_def keeps_blob_def)

lemma sample_blob_runs: "\<exists>s'. runpod_EnsurePublicKey sample_blob_api sample_key_text [] s = Some (None, s')"
proof -
  obtain w where "walk_blob (kb_parse sample_blob_api) ''A'' s \<lparr>bw_kept = [], bw_match = False, bw_pruned = False\<rparr> = Some w"
    using walk_blob_keys [OF sample_blob_api(1)] by blast
  then show ?thesis
    using sample_blob_api(3,4) by (auto simp: runpod_EnsurePublicKey_def sample_blob_api_def)
qed

theorem runpod_blob_exact_witness:
  "\<exists>s'. runpod_EnsurePublicKey sample_blob_api sample_key_text [] ''Bop'' = Some (None, s')
     \<and> keys_in sample_line s' = [(''B'', ''op''), (''A'', ''iplane-me'')]"
proof -
  have k: "keys_in sample_line ''Bop'' = [(''B'', ''op'')]"
    by (simp add: keys_in_single sample_line_def char_of_def)
  obtain s' where e: "runpod_EnsurePublicKey sample_blob_api sample_key_text [] ''Bop'' = Some (None, s')"
    using sample_blob_runs by blast
  with runpod_blob_exact [OF sample_blob_api(1,2) sample_text(5) sample_blob_api(3,4), of "[]" "''Bop''"]
  show ?thesis by (auto simp: k is_stale_def is_own_def IsIplaneComment_def has_prefix_def sample_blob_api(4))
qed





end
