(* ===== verification/Create_Deployment.thy ===== *)
theory Create_Deployment
  imports Instance_Service Engine_Plan Pin Placement Image_Deployers
begin

text \<open>
  \<^verbatim>\<open>CreateDeployment\<close> (\<^verbatim>\<open>provisioners/service.go\<close>, \<^verbatim>\<open>fanout.go\<close>) up to the launch: the checks a request passes, what they
  change in it, and the claim of the record.  The model store, the environment, the image registry,
  the memory pre-flight's readings and the key store are parameters.  The reads and the claim see
  one state.
\<close>

subsection \<open>The credential of an upstream\<close>

definition DefaultUpstreamAuthHeader :: gostring where "DefaultUpstreamAuthHeader = ''Authorization''"
definition DefaultUpstreamAuthPrefix :: gostring where "DefaultUpstreamAuthPrefix = ''Bearer ''"

datatype auth_error = AuthUnnamed | AuthUnset gostring

definition ValidateUpstreamAuth :: "(gostring \<Rightarrow> gostring) \<Rightarrow> upstream_auth option \<Rightarrow> auth_error + upstream_auth option" where
  "ValidateUpstreamAuth environ auth =
     (case auth of
        None \<Rightarrow> Inr None
      | Some a \<Rightarrow>
          if ua_value_env a = [] then Inl AuthUnnamed
          else if environ (ua_value_env a) = [] then Inl (AuthUnset (ua_value_env a))
          else
            (let header = (if ua_header a = [] then DefaultUpstreamAuthHeader else ua_header a) in
             Inr (Some \<lparr>ua_header = header, ua_value_env = ua_value_env a,
               ua_value_prefix = (if ua_value_prefix a = [] \<and> header = DefaultUpstreamAuthHeader
                                  then DefaultUpstreamAuthPrefix else ua_value_prefix a)\<rparr>)))"

subsection \<open>The architecture of the image\<close>

definition fill_architecture :: "gostring \<Rightarrow> replica_spec \<Rightarrow> replica_spec" where
  "fill_architecture arch s =
     (case rs_requirements s of
        None \<Rightarrow> s
      | Some r \<Rightarrow> if rq_architecture r \<noteq> [] then s else s\<lparr>rs_requirements := Some (r\<lparr>rq_architecture := arch\<rparr>)\<rparr>)"

text \<open>\<open>None\<close> is a service without a source; an empty answer is a registry that said nothing.\<close>

definition inferImageArchitecture :: "(gostring \<Rightarrow> gostring list) option \<Rightarrow> create_request \<Rightarrow> create_request" where
  "inferImageArchitecture src req =
     (case src of
        None \<Rightarrow> req
      | Some architectures \<Rightarrow>
          (let image = dep_image (cq_deployment req);
               wanted = list_ex (\<lambda>s. case rs_requirements s of None \<Rightarrow> False | Some r \<Rightarrow> rq_architecture r = []) (cq_replicas_spec req) in
           if image = [] \<or> isExternalDeploy req then req
           else if \<not> wanted then req
           else (case architectures image of
               [a] \<Rightarrow> if NormalizeArch a = [] then req
                      else req\<lparr>cq_replicas_spec := map (fill_architecture (NormalizeArch a)) (cq_replicas_spec req)\<rparr>
             | _ \<Rightarrow> req)))"

subsection \<open>The checks\<close>

record resolved =
  rv_model_arg :: gostring
  rv_env :: "gostring \<rightharpoonup> gostring"
  rv_mounts :: "volume_mount list"

record create_env =
  ce_models :: "gostring \<Rightarrow> gostring + resolved"
  ce_getenv :: "gostring \<Rightarrow> gostring"
  ce_architectures :: "(gostring \<Rightarrow> gostring list) option"
  ce_preflight :: preflight_env
  ce_paths :: "gostring \<rightharpoonup> deploy_path"
  ce_volume_order :: "gostring list"
  ce_keystore_nil :: bool
  ce_ensure_key :: "gostring \<Rightarrow> gostring"

datatype create_error =
    NoDeployment | BadId | NoImage | NoModel | BadSpec nat | ReplicasAndSpec | InstanceAndSpec
  | ModelSpec gostring | BadAuth auth_error | BadSplit par_error | BadExperts par_error | OverBudget budget_term
  | ForeignMount "gostring \<times> gostring \<times> gostring" | UnattachableMount gostring
  | NoTarget | NoSuchInstance gostring | InstanceGone instance_state | NoSSHEndpoint
  | Elsewhere gostring | StillTerminating | NoKeyStore | KeyFailed gostring

fun tagged :: "('a \<Rightarrow> 'e) \<Rightarrow> 'a + 'b \<Rightarrow> 'e + 'b" where
  "tagged f (Inl e) = Inl (f e)"
| "tagged f (Inr x) = Inr x"

text \<open>\<^verbatim>\<open>isExternalDeploy\<close> on the groups as they came, nil entries included.\<close>

definition external_groups :: "replica_spec option list \<Rightarrow> bool" where
  "external_groups gs \<longleftrightarrow>
     gs \<noteq> [] \<and> list_all (\<lambda>g. case g of None \<Rightarrow> False | Some s \<Rightarrow> rs_provider s = ProviderExternal) gs"

definition resolve_model :: "create_env \<Rightarrow> bool \<Rightarrow> gostring \<Rightarrow> create_error + resolved" where
  "resolve_model env external model =
     (if external then Inr \<lparr>rv_model_arg = model, rv_env = Map.empty, rv_mounts = []\<rparr>
      else tagged ModelSpec (ce_models env model))"

definition stamp_mounts :: "create_env \<Rightarrow> state \<Rightarrow> volume_mount list \<Rightarrow> replica_spec list \<Rightarrow> deployment \<Rightarrow> deployment" where
  "stamp_mounts env st mounts specs dep =
     (let dep1 = (if mounts \<noteq> [] then dep\<lparr>dep_mounts := mounts\<rparr> else dep) in
      if dep_mounts dep1 \<noteq> [] then dep1
      else (case homogeneousPlacement specs of
          None \<Rightarrow> dep1
        | Some (provider, region) \<Rightarrow>
            (case resolveWarmMount (ce_volume_order env) st (dep_model dep1) provider region of
               None \<Rightarrow> dep1
             | Some m \<Rightarrow> dep1\<lparr>dep_mounts := [m]\<rparr>)))"

text \<open>From the resolved model to the mounts; the slots share the requirements of their group.\<close>

definition admit_plan ::
  "create_env \<Rightarrow> state \<Rightarrow> volume_mount list \<Rightarrow> deployment \<Rightarrow> replica_spec list \<Rightarrow> create_error + deployment \<times> replica_spec list" where
  "admit_plan env st mounts dep groups =
     (case deploymentGPUCount groups of (cards, cardsKnown) \<Rightarrow>
      bindE (tagged BadSplit (ValidateParallelism (dep_parallelism dep) cards cardsKnown)) (\<lambda>parArgs.
        let req = \<lparr>cq_deployment = dep\<lparr>dep_engine_args := dep_engine_args dep @ parArgs\<rparr>, cq_replicas_spec = groups\<rparr> in
        case expertShapeCheck (ce_preflight env) req of
          Some e \<Rightarrow> Inl (BadExperts e)
        | None \<Rightarrow>
            (let req = inferImageArchitecture (ce_architectures env) req;
                 specs = concat (map expand_group (cq_replicas_spec req)) in
             case budgetCheck (ce_preflight env) req of
               Refused t \<Rightarrow> Inl (OverBudget t)
             | _ \<Rightarrow> Inr (stamp_mounts env st mounts specs (cq_deployment req), specs))))"

definition prepare_create ::
  "create_env \<Rightarrow> deployment \<Rightarrow> replica_spec option list \<Rightarrow> state \<Rightarrow> create_error + deployment \<times> replica_spec list" where
  "prepare_create env dep groups st =
     (if \<not> ValidateID (dep_id dep) then Inl BadId
      else if dep_image dep = [] \<and> \<not> external_groups groups then Inl NoImage
      else if dep_model dep = [] then Inl NoModel
      else bindE (tagged BadSpec (resolveCreateReplicaSpecs groups)) (\<lambda>specs.
        if specs \<noteq> [] \<and> dep_replicas dep \<noteq> [] then Inl ReplicasAndSpec
        else if specs \<noteq> [] \<and> dep_instance_id dep \<noteq> [] then Inl InstanceAndSpec
        else bindE (resolve_model env (external_groups groups) (dep_model dep)) (\<lambda>resolved.
          let dep = dep\<lparr>dep_model := rv_model_arg resolved, dep_env := rv_env resolved ++ dep_env dep\<rparr> in
          bindE (tagged BadAuth (ValidateUpstreamAuth (ce_getenv env) (dep_upstream_auth dep))) (\<lambda>auth.
            admit_plan env st (rv_mounts resolved) (dep\<lparr>dep_upstream_auth := auth\<rparr>) (List.map_filter id groups)))))"

subsection \<open>The claim\<close>

definition mount_guard :: "create_env \<Rightarrow> deployment \<Rightarrow> gostring list \<Rightarrow> create_error option" where
  "mount_guard env dep placements =
     (case checkMountProviders (dep_mounts dep) placements of
        Some m \<Rightarrow> Some (ForeignMount m)
      | None \<Rightarrow> map_option UnattachableMount (checkMountsAttachable (ce_paths env) (dep_mounts dep) placements))"

definition live_states :: "deployment_state list" where
  "live_states = [DPending, DStarting, DConfiguring, DRunning, DDegraded]"

definition claim_pinned :: "deployment \<Rightarrow> timestamp \<Rightarrow> state \<Rightarrow> (create_error + bool \<times> deployment) \<times> state" where
  "claim_pinned dep now st =
     (let record = (newDeploymentRecord dep now)\<lparr>dep_replicas := dep_replicas dep\<rparr>;
          fresh = (Inr (False, record), st\<lparr>st_deployments := (st_deployments st)(dep_id dep \<mapsto> record)\<rparr>) in
      case st_deployments st (dep_id dep) of
        None \<Rightarrow> fresh
      | Some existing \<Rightarrow>
          if dep_state existing \<in> set live_states then
            (if dep_instance_id existing \<noteq> dep_instance_id dep then (Inl (Elsewhere (dep_instance_id existing)), st)
             else if dep_image existing = dep_image dep \<and> dep_model existing = dep_model dep then (Inr (True, existing), st)
             else fresh)
          else if dep_state existing = DTerminating then (Inl StillTerminating, st)
          else fresh)"

datatype create_outcome =
    CreateRefused create_error | CreateExisted deployment
  | CreatePinned deployment inst | CreateFanOut deployment "replica_spec list"

definition image_native :: "create_env \<Rightarrow> gostring \<Rightarrow> bool" where
  "image_native env name \<longleftrightarrow> (case ce_paths env name of Some (OwnDeployer _) \<Rightarrow> True | _ \<Rightarrow> False)"

definition target_guard :: "create_env \<Rightarrow> inst \<Rightarrow> create_error option" where
  "target_guard env i =
     (if image_native env (in_provider i) then None
      else if in_state i \<in> {ITerminated, ITerminating, IFailed} then Some (InstanceGone (in_state i))
      else (case in_ssh i of
          None \<Rightarrow> Some NoSSHEndpoint
        | Some t \<Rightarrow> if ssh_host t = [] then Some NoSSHEndpoint else None))"

definition create_pinned :: "create_env \<Rightarrow> timestamp \<Rightarrow> deployment \<Rightarrow> state \<Rightarrow> create_outcome \<times> state" where
  "create_pinned env now dep st =
     (if dep_instance_id dep = [] then (CreateRefused NoTarget, st)
      else case st_instances st (dep_instance_id dep) of
        None \<Rightarrow> (CreateRefused (NoSuchInstance (dep_instance_id dep)), st)
      | Some i \<Rightarrow>
          (case mount_guard env dep [in_provider i] of
             Some e \<Rightarrow> (CreateRefused e, st)
           | None \<Rightarrow>
               (case target_guard env i of
                  Some e \<Rightarrow> (CreateRefused e, st)
                | None \<Rightarrow>
                    (case claim_pinned (dep\<lparr>dep_instance_id := in_id i\<rparr>) now st of
                       (Inl e, st1) \<Rightarrow> (CreateRefused e, st1)
                     | (Inr (True, record), st1) \<Rightarrow> (CreateExisted record, st1)
                     | (Inr (False, record), st1) \<Rightarrow>
                         if ce_keystore_nil env then (CreateRefused NoKeyStore, st1)
                         else if ce_ensure_key env (in_provider i) \<noteq> [] then
                           (CreateRefused (KeyFailed (ce_ensure_key env (in_provider i))), st1)
                         else (CreatePinned record i, st1)))))"

definition create_fan_out :: "create_env \<Rightarrow> timestamp \<Rightarrow> deployment \<Rightarrow> replica_spec list \<Rightarrow> state \<Rightarrow> create_outcome \<times> state" where
  "create_fan_out env now dep specs st =
     (case mount_guard env dep (map rs_provider specs) of
        Some e \<Rightarrow> (CreateRefused e, st)
      | None \<Rightarrow>
          (case claim_multi dep now st of
             (ClaimTerminating, st1) \<Rightarrow> (CreateRefused StillTerminating, st1)
           | (ClaimExisting rec, st1) \<Rightarrow> (CreateExisted rec, st1)
           | (ClaimFresh rec, st1) \<Rightarrow> (CreateFanOut rec specs, st1)))"

definition CreateDeployment ::
  "create_env \<Rightarrow> timestamp \<Rightarrow> deployment option \<Rightarrow> replica_spec option list \<Rightarrow> state \<Rightarrow> create_outcome \<times> state" where
  "CreateDeployment env now dep groups st =
     (case dep of
        None \<Rightarrow> (CreateRefused NoDeployment, st)
      | Some dep \<Rightarrow>
          (case prepare_create env dep groups st of
             Inl e \<Rightarrow> (CreateRefused e, st)
           | Inr (dep', specs) \<Rightarrow>
               if specs \<noteq> [] then create_fan_out env now dep' specs st else create_pinned env now dep' st))"


subsection \<open>What a create leaves behind\<close>

lemma tagged_Inr [simp]: "tagged f x = Inr y \<longleftrightarrow> x = Inr y"
  by (cases x) auto

lemma claim_pinned_cases:
  assumes "claim_pinned dep now st = (r, st')"
  obtains e where "r = Inl e" "st' = st" "e = StillTerminating \<or> (\<exists>k. e = Elsewhere k)"
  | rec where "r = Inr (True, rec)" "st' = st" "st_deployments st (dep_id dep) = Some rec"
  | rec where "r = Inr (False, rec)" "st' = st\<lparr>st_deployments := (st_deployments st)(dep_id dep \<mapsto> rec)\<rparr>"
      "rec = (newDeploymentRecord dep now)\<lparr>dep_replicas := dep_replicas dep\<rparr>"
  using assms unfolding claim_pinned_def by (auto simp: Let_def split: option.splits if_splits)

lemma claim_multi_cases:
  assumes "claim_multi dep now st = (r, st')"
  obtains "r = ClaimTerminating" "st' = st"
  | rec where "r = ClaimExisting rec" "st' = st" "st_deployments st (dep_id dep) = Some rec"
  | rec where "r = ClaimFresh rec" "st' = st\<lparr>st_deployments := (st_deployments st)(dep_id dep \<mapsto> rec)\<rparr>"
      "rec = newDeploymentRecord dep now"
  using assms unfolding claim_multi_def by (auto simp: Let_def split: option.splits if_splits)

lemma mount_guard_error: "mount_guard env dep ps = Some e \<Longrightarrow> (\<exists>m. e = ForeignMount m) \<or> (\<exists>k. e = UnattachableMount k)"
  by (auto simp: mount_guard_def split: option.splits)

lemma target_guard_error: "target_guard env i = Some e \<Longrightarrow> e = NoSSHEndpoint \<or> (\<exists>s. e = InstanceGone s)"
  by (auto simp: target_guard_def split: if_splits option.splits)

lemma create_pinned_refused:
  assumes "create_pinned env now dep st = (CreateRefused e, st')" "e \<noteq> NoKeyStore" "\<forall>t. e \<noteq> KeyFailed t"
  shows "st' = st"
  using assms unfolding create_pinned_def
  by (auto split: option.splits if_splits sum.splits bool.splits prod.splits elim: claim_pinned_cases)

lemma create_fan_out_refused: "create_fan_out env now dep specs st = (CreateRefused e, st') \<Longrightarrow> st' = st"
  unfolding create_fan_out_def by (auto split: option.splits prod.splits claim.splits elim: claim_multi_cases)

text \<open>
  A refused create is free.  Whatever the reason of the refusal, unless it is the key of the
  pinned path, the state is exactly what it was: no record is claimed and nothing is rented.
\<close>

theorem create_refused_free:
  assumes "CreateDeployment env now dep groups st = (CreateRefused e, st')"
    and "e \<noteq> NoKeyStore" "\<forall>t. e \<noteq> KeyFailed t"
  shows "st' = st"
  using assms create_pinned_refused create_fan_out_refused unfolding CreateDeployment_def
  by (auto split: option.splits sum.splits prod.splits if_splits)


subsection \<open>What an admitted fleet has passed\<close>

lemma bindE_tagged: "bindE (tagged f x) g = Inr y \<longleftrightarrow> (\<exists>z. x = Inr z \<and> g z = Inr y)"
  by (cases x) auto

lemma stamp_mounts_frame [simp]:
  "dep_id (stamp_mounts env st ms specs d) = dep_id d" "dep_image (stamp_mounts env st ms specs d) = dep_image d"
  "dep_model (stamp_mounts env st ms specs d) = dep_model d" "dep_engine_args (stamp_mounts env st ms specs d) = dep_engine_args d"
  "dep_parallelism (stamp_mounts env st ms specs d) = dep_parallelism d" "dep_instance_id (stamp_mounts env st ms specs d) = dep_instance_id d"
  "dep_replicas (stamp_mounts env st ms specs d) = dep_replicas d"
  by (simp_all add: stamp_mounts_def Let_def split: option.splits)

lemma infer_frame [simp]:
  "cq_deployment (inferImageArchitecture src req) = cq_deployment req"
  "map (\<lambda>s. (rs_provider s, rs_replicas s)) (cq_replicas_spec (inferImageArchitecture src req))
     = map (\<lambda>s. (rs_provider s, rs_replicas s)) (cq_replicas_spec req)"
  by (auto simp: inferImageArchitecture_def Let_def fill_architecture_def split: option.splits list.splits)

lemma expand_groups_Inr:
  "expand_groups i gs = Inr out \<Longrightarrow> \<exists>xs. gs = map Some xs \<and> out = concat (map expand_group xs)"
proof (induction i gs arbitrary: out rule: expand_groups.induct)
  case (3 i g gs)
  then obtain o' where "expand_groups (Suc i) gs = Inr o'" "out = expand_group g @ o'" "\<not> rs_replicas g < 0"
    by (auto simp: bindE_Inr_iff split: if_splits)
  with 3(1) obtain xs where "gs = map Some xs" "o' = concat (map expand_group xs)" by blast
  then have "Some g # gs = map Some (g # xs) \<and> out = concat (map expand_group (g # xs))"
    using \<open>out = _\<close> by simp
  then show ?case by (rule exI)
qed auto

text \<open>Two requests that agree on what the pre-flight reads get the same verdict.\<close>

lemma budgetCheck_cong:
  assumes "dep_engine_args d = dep_engine_args d'" "dep_parallelism d = dep_parallelism d'" "dep_model d = dep_model d'"
    "dep_instance_id d = dep_instance_id d'"
  shows "budgetCheck pe \<lparr>cq_deployment = d, cq_replicas_spec = gs\<rparr> = budgetCheck pe \<lparr>cq_deployment = d', cq_replicas_spec = gs\<rparr>"
  by (simp only: budgetCheck_def deployCardCapacity_def isExternalDeploy_def create_request.simps Let_def assms)

lemma admit_plan_Inr:
  assumes "admit_plan env st mounts dep groups = Inr (dep', specs)"
  obtains cards known parArgs gs where "deploymentGPUCount groups = (cards, known)"
    "ValidateParallelism (dep_parallelism dep) cards known = Inr parArgs"
    "specs = concat (map expand_group gs)"
    "dep' = stamp_mounts env st mounts specs (dep\<lparr>dep_engine_args := dep_engine_args dep @ parArgs\<rparr>)"
    "\<forall>t. budgetCheck (ce_preflight env) \<lparr>cq_deployment = dep', cq_replicas_spec = gs\<rparr> \<noteq> Refused t"
    "map (\<lambda>s. (rs_provider s, rs_replicas s)) gs = map (\<lambda>s. (rs_provider s, rs_replicas s)) groups"
proof -
  obtain cards known where c: "deploymentGPUCount groups = (cards, known)" by fastforce
  from assms c obtain parArgs where v: "ValidateParallelism (dep_parallelism dep) cards known = Inr parArgs"
    by (auto simp: admit_plan_def bindE_tagged)
  define d1 where "d1 = dep\<lparr>dep_engine_args := dep_engine_args dep @ parArgs\<rparr>"
  define req where "req = inferImageArchitecture (ce_architectures env) \<lparr>cq_deployment = d1, cq_replicas_spec = groups\<rparr>"
  have r: "(case budgetCheck (ce_preflight env) req of Refused t \<Rightarrow> Inl (OverBudget t)
      | _ \<Rightarrow> Inr (stamp_mounts env st mounts (concat (map expand_group (cq_replicas_spec req))) (cq_deployment req),
                  concat (map expand_group (cq_replicas_spec req)))) = Inr (dep', specs)"
    using assms c v unfolding req_def d1_def by (simp add: admit_plan_def Let_def split: option.split_asm)
  have d: "cq_deployment req = d1" by (simp add: req_def)
  then have req: "req = \<lparr>cq_deployment = d1, cq_replicas_spec = cq_replicas_spec req\<rparr>" by (cases req) simp
  from r d have specs: "specs = concat (map expand_group (cq_replicas_spec req))"
      "dep' = stamp_mounts env st mounts specs d1" "\<forall>t. budgetCheck (ce_preflight env) req \<noteq> Refused t"
    by (auto split: preflight.splits)
  have "\<forall>t. budgetCheck (ce_preflight env) \<lparr>cq_deployment = dep', cq_replicas_spec = cq_replicas_spec req\<rparr> \<noteq> Refused t"
    using specs(3) budgetCheck_cong [of dep' d1] unfolding specs(2) by (metis req stamp_mounts_frame(3-6))
  with that [OF c v specs(1) specs(2) [unfolded d1_def]] show ?thesis using infer_frame(2) req_def by auto
qed

lemma prepare_create_Inr:
  assumes "prepare_create env dep groups st = Inr (dep', specs)"
  obtains gs resolved auth where "groups = map Some gs" "ValidateID (dep_id dep)" "dep_model dep \<noteq> []"
    "resolve_model env (external_groups groups) (dep_model dep) = Inr resolved"
    "admit_plan env st (rv_mounts resolved) (dep\<lparr>dep_model := rv_model_arg resolved,
        dep_env := rv_env resolved ++ dep_env dep, dep_upstream_auth := auth\<rparr>) gs = Inr (dep', specs)"
    "gs \<noteq> [] \<longrightarrow> dep_replicas dep = [] \<and> dep_instance_id dep = []"
proof -
  obtain slots resolved auth where p: "resolveCreateReplicaSpecs groups = Inr slots" "ValidateID (dep_id dep)" "dep_model dep \<noteq> []"
    "resolve_model env (external_groups groups) (dep_model dep) = Inr resolved"
    "admit_plan env st (rv_mounts resolved) (dep\<lparr>dep_model := rv_model_arg resolved,
        dep_env := rv_env resolved ++ dep_env dep, dep_upstream_auth := auth\<rparr>) (List.map_filter id groups) = Inr (dep', specs)"
    "slots \<noteq> [] \<longrightarrow> dep_replicas dep = [] \<and> dep_instance_id dep = []"
    using assms by (auto simp: prepare_create_def bindE_tagged bindE_Inr_iff Let_def split: if_splits)
  from p(1) expand_groups_Inr obtain gs where gs: "groups = map Some gs" "slots = concat (map expand_group gs)"
    unfolding resolveCreateReplicaSpecs_def by blast
  have "gs \<noteq> [] \<Longrightarrow> slots \<noteq> []"
    using p(1) gs by (cases gs) (auto simp: resolveCreateReplicaSpecs_def expand_group_def)
  moreover have "List.map_filter id groups = gs" unfolding gs by (induction gs) (simp_all add: List.map_filter_simps)
  ultimately show ?thesis using that [OF gs(1) p(2-4)] p(5,6) by simp
qed

lemma checkMountProviders_None:
  assumes "checkMountProviders ms ps = None" "m \<in> set ms" "p \<in> set ps"
  shows "vm_provider m = [] \<or> p = [] \<or> p = vm_provider m"
proof (rule ccontr)
  let ?l = "[(m, p). m \<leftarrow> ms, vm_provider m \<noteq> [], p \<leftarrow> ps, p \<noteq> [] \<and> p \<noteq> vm_provider m]"
  assume "\<not> ?thesis"
  then have "(m, p) \<in> set ?l" using assms(2,3) by auto
  moreover have "?l = []" using assms(1) by (auto simp: checkMountProviders_def simp del: concat_eq_Nil_conv split: list.splits)
  ultimately show False by (metis list.set(1) empty_iff)
qed

text \<open>
  C39: What a fleet has passed before anything is rented.  A create that goes on to fan out has
  written exactly one record, PENDING and without members, under a valid id that had no live or
  terminating deployment of the same image and model.  The record's engine arguments end in the flags of a
  split that the code's validation let through, and that fits the cards of the first group that states its hardware when
  that number is known (\<open>split_fits\<close>: for sizes whose product is below \<open>2 ^ 31\<close>, see \<open>parallelism_overflow_accepted\<close>);
  later groups are not looked at.  The memory pre-flight has not refused, which it also does not when it lacks an input; and every
  mount that names a provider names that of every slot which names one, each of them one whose deploy path attaches volumes.
\<close>

theorem fan_out_admitted:
  assumes "CreateDeployment env now (Some dep) groups st = (CreateFanOut rec specs, st')"
  shows "st' = st\<lparr>st_deployments := (st_deployments st)(dep_id dep \<mapsto> rec)\<rparr> \<and> ValidateID (dep_id dep)
    \<and> dep_id rec = dep_id dep \<and> dep_state rec = DPending \<and> dep_replicas rec = []
    \<and> (\<forall>old. st_deployments st (dep_id dep) = Some old \<longrightarrow> dep_state old \<noteq> DTerminating
         \<and> \<not> (dep_state old \<in> set live_states \<and> dep_image old = dep_image rec \<and> dep_model old = dep_model rec))
    \<and> (\<exists>gs parArgs. dep_engine_args rec = dep_engine_args dep @ parArgs
         \<and> ValidateParallelism (dep_parallelism dep) (fst (deploymentGPUCount (map the groups)))
             (snd (deploymentGPUCount (map the groups))) = Inr parArgs
         \<and> split_fits (dep_parallelism dep) (fst (deploymentGPUCount (map the groups)))
             (snd (deploymentGPUCount (map the groups)))
         \<and> specs = concat (map expand_group gs)
         \<and> (\<forall>t. budgetCheck (ce_preflight env) \<lparr>cq_deployment = rec, cq_replicas_spec = gs\<rparr> \<noteq> Refused t))
    \<and> (\<forall>m \<in> set (dep_mounts rec). \<forall>s \<in> set specs. vm_provider m = [] \<or> rs_provider s = [] \<or> rs_provider s = vm_provider m)
    \<and> (dep_mounts rec \<noteq> [] \<longrightarrow> (\<forall>s \<in> set specs. rs_provider s \<noteq> [] \<and> rs_provider s \<noteq> ProviderExternal \<longrightarrow>
         deployPathAttachesMounts (ce_paths env) (rs_provider s)))"
proof -
  obtain d' where p: "prepare_create env dep groups st = Inr (d', specs)" "specs \<noteq> []"
    and f: "create_fan_out env now d' specs st = (CreateFanOut rec specs, st')"
    using assms unfolding CreateDeployment_def create_pinned_def create_fan_out_def
    by (auto split: sum.splits prod.splits if_splits option.splits bool.splits claim.splits)
  from p(1) obtain gs0 and rv :: resolved and auth where g: "groups = map Some gs0" "ValidateID (dep_id dep)"
    and a: "admit_plan env st (rv_mounts rv) (dep\<lparr>dep_model := rv_model_arg rv,
        dep_env := rv_env rv ++ dep_env dep, dep_upstream_auth := auth\<rparr>) gs0 = Inr (d', specs)"
    by (rule prepare_create_Inr) blast
  from a obtain cards known parArgs gs where b: "deploymentGPUCount gs0 = (cards, known)"
    "ValidateParallelism (dep_parallelism dep) cards known = Inr parArgs" "specs = concat (map expand_group gs)"
    "dep_id d' = dep_id dep" "dep_engine_args d' = dep_engine_args dep @ parArgs"
    "\<forall>t. budgetCheck (ce_preflight env) \<lparr>cq_deployment = d', cq_replicas_spec = gs\<rparr> \<noteq> Refused t"
    by (rule admit_plan_Inr) auto
  from f have m: "mount_guard env d' (map rs_provider specs) = None" and c: "claim_multi d' now st = (ClaimFresh rec, st')"
    by (auto simp: create_fan_out_def split: option.splits prod.splits claim.splits)
  from c have r: "rec = newDeploymentRecord d' now" "st' = st\<lparr>st_deployments := (st_deployments st)(dep_id d' \<mapsto> rec)\<rparr>"
    by (auto elim: claim_multi_cases)
  have live: "\<forall>old. st_deployments st (dep_id d') = Some old \<longrightarrow> dep_state old \<noteq> DTerminating
         \<and> \<not> (dep_state old \<in> set live_states \<and> dep_image old = dep_image d' \<and> dep_model old = dep_model d')"
    using c by (auto simp: claim_multi_def live_states_def Let_def split: if_splits option.splits)
  have budget: "budgetCheck (ce_preflight env) \<lparr>cq_deployment = rec, cq_replicas_spec = gs\<rparr>
      = budgetCheck (ce_preflight env) \<lparr>cq_deployment = d', cq_replicas_spec = gs\<rparr>"
    unfolding r by (rule budgetCheck_cong) (simp_all add: newDeploymentRecord_def)
  have mounts: "\<forall>m \<in> set (dep_mounts d'). \<forall>s \<in> set specs. vm_provider m = [] \<or> rs_provider s = [] \<or> rs_provider s = vm_provider m"
    "dep_mounts d' \<noteq> [] \<longrightarrow> (\<forall>s \<in> set specs. rs_provider s \<noteq> [] \<and> rs_provider s \<noteq> ProviderExternal \<longrightarrow>
         deployPathAttachesMounts (ce_paths env) (rs_provider s))"
    using m checkMountProviders_None [of "dep_mounts d'" "map rs_provider specs"]
    by (auto simp: mount_guard_def checkMountsAttachable_def find_None_iff split: option.splits if_splits)
  have rec: "dep_image rec = dep_image d'" "dep_model rec = dep_model d'" "dep_mounts rec = dep_mounts d'"
    "dep_engine_args rec = dep_engine_args d'" "dep_state rec = DPending" "dep_replicas rec = []" "dep_id rec = dep_id dep"
    unfolding r by (simp_all add: newDeploymentRecord_def b)
  have plan: "\<exists>gs parArgs. dep_engine_args rec = dep_engine_args dep @ parArgs
       \<and> ValidateParallelism (dep_parallelism dep) (fst (deploymentGPUCount (map the groups)))
           (snd (deploymentGPUCount (map the groups))) = Inr parArgs
       \<and> split_fits (dep_parallelism dep) (fst (deploymentGPUCount (map the groups)))
           (snd (deploymentGPUCount (map the groups)))
       \<and> specs = concat (map expand_group gs)
       \<and> (\<forall>t. budgetCheck (ce_preflight env) \<lparr>cq_deployment = rec, cq_replicas_spec = gs\<rparr> \<noteq> Refused t)"
    using b budget rec(4) admitted_split_fits [OF b(2)] by (intro exI [of _ gs] exI [of _ parArgs]) (simp add: g(1) comp_def)
  show ?thesis
    using r(2) g(2) live mounts b(4) plan unfolding rec by (intro conjI) simp_all
qed


subsection \<open>Repeating a create\<close>

lemma stamp_mounts_cong: "st_volumes st = st_volumes st2 \<Longrightarrow> stamp_mounts env st ms specs d = stamp_mounts env st2 ms specs d"
  unfolding stamp_mounts_def resolveWarmMount_def by (simp only:)

lemma prepare_create_cong:
  assumes "st_volumes st = st_volumes st2"
  shows "prepare_create env dep groups st = prepare_create env dep groups st2"
proof -
  have "admit_plan env st = admit_plan env st2"
    by (intro ext) (simp only: admit_plan_def stamp_mounts_cong [OF assms])
  then show ?thesis by (simp only: prepare_create_def)
qed

lemma prepare_create_key [simp]: "prepare_create (env\<lparr>ce_ensure_key := k\<rparr>) = prepare_create env"
  by (cases env, intro ext) (simp only: prepare_create_def admit_plan_def resolve_model_def stamp_mounts_def create_env.simps)

lemma guards_key [simp]:
  "mount_guard (env\<lparr>ce_ensure_key := k\<rparr>) = mount_guard env" "target_guard (env\<lparr>ce_ensure_key := k\<rparr>) = target_guard env"
  by (cases env, intro ext, simp only: mount_guard_def target_guard_def image_native_def create_env.simps)+

text \<open>
  C38: A create repeated is answered, not repeated.  While the record of a fleet is live and has the
  image and model it was created with, the same request returns that record, starts nothing and
  changes nothing, whatever else has happened to the state in between.
\<close>

theorem repeat_create_adopts:
  assumes "CreateDeployment env now (Some dep) groups st = (CreateFanOut rec specs, st')"
    and "st_volumes st2 = st_volumes st" "st_deployments st2 (dep_id dep) = Some rec2"
    and "dep_state rec2 \<in> set live_states" "dep_image rec2 = dep_image rec" "dep_model rec2 = dep_model rec"
  shows "CreateDeployment env now2 (Some dep) groups st2 = (CreateExisted rec2, st2)"
proof -
  obtain d' where p: "prepare_create env dep groups st = Inr (d', specs)" "specs \<noteq> []"
    and f: "create_fan_out env now d' specs st = (CreateFanOut rec specs, st')"
    using assms(1) unfolding CreateDeployment_def create_pinned_def create_fan_out_def
    by (auto split: sum.splits prod.splits if_splits option.splits bool.splits claim.splits)
  have d: "dep_id d' = dep_id dep"
    using p(1) by (auto elim!: prepare_create_Inr admit_plan_Inr)
  from f have m: "mount_guard env d' (map rs_provider specs) = None" and c: "claim_multi d' now st = (ClaimFresh rec, st')"
    by (auto simp: create_fan_out_def split: option.splits prod.splits claim.splits)
  from c have "rec = newDeploymentRecord d' now" by (auto elim: claim_multi_cases)
  then have "claim_multi d' now2 st2 = (ClaimExisting rec2, st2)"
    using assms(3-6) d by (simp add: claim_multi_def live_states_def newDeploymentRecord_def Let_def)
  then have "create_fan_out env now2 d' specs st2 = (CreateExisted rec2, st2)" using m by (simp add: create_fan_out_def)
  then show ?thesis using p prepare_create_cong [OF assms(2)] by (simp add: CreateDeployment_def)
qed

text \<open>
  A pinned create whose key does not load leaves the record it claimed, and no launch: the record is
  PENDING, and the next create, with the key store mended, is told that it exists already.
\<close>

lemma pinned_key_failure_strands:
  assumes "CreateDeployment env now (Some dep) groups st = (CreateRefused (KeyFailed t), st')"
  shows "\<exists>rec. st_deployments st' (dep_id dep) = Some rec \<and> dep_state rec = DPending
    \<and> CreateDeployment (env\<lparr>ce_ensure_key := \<lambda>_. []\<rparr>) now2 (Some dep) groups st' = (CreateExisted rec, st')"
proof -
  let ?env = "env\<lparr>ce_ensure_key := \<lambda>_. []\<rparr>"
  have no: "x \<noteq> Inl (KeyFailed t)" if "x = prepare_create env dep groups st" for x
    unfolding that prepare_create_def admit_plan_def resolve_model_def
    by (auto simp: bindE_Inl_iff Let_def elim!: tagged.elims split: option.splits preflight.splits prod.splits)
  obtain d' where p: "prepare_create env dep groups st = Inr (d', [])"
    and c: "create_pinned env now d' st = (CreateRefused (KeyFailed t), st')"
    using assms no unfolding CreateDeployment_def create_fan_out_def
    by (auto dest: mount_guard_error split: sum.splits prod.splits if_splits option.splits claim.splits)
  have d: "dep_id d' = dep_id dep" using p by (auto elim!: prepare_create_Inr admit_plan_Inr)
  from c obtain i rec where i: "dep_instance_id d' \<noteq> []" "st_instances st (dep_instance_id d') = Some i"
      "mount_guard env d' [in_provider i] = None" "target_guard env i = None" "\<not> ce_keystore_nil env"
    and cl: "claim_pinned (d'\<lparr>dep_instance_id := in_id i\<rparr>) now st = (Inr (False, rec), st')"
    unfolding create_pinned_def
    by (auto dest!: mount_guard_error target_guard_error split: option.splits if_splits prod.splits sum.splits bool.splits
        elim: claim_pinned_cases)
  from cl have st': "st' = st\<lparr>st_deployments := (st_deployments st)(dep_id dep \<mapsto> rec)\<rparr>"
    and rec: "rec = (newDeploymentRecord (d'\<lparr>dep_instance_id := in_id i\<rparr>) now)\<lparr>dep_replicas := dep_replicas d'\<rparr>"
    by (auto elim!: claim_pinned_cases simp: d)
  have "prepare_create ?env dep groups st' = prepare_create ?env dep groups st"
    by (rule prepare_create_cong) (simp add: st')
  also have "\<dots> = Inr (d', [])"
    using p by simp
  finally have p': "prepare_create ?env dep groups st' = Inr (d', [])" .
  have g: "mount_guard ?env d' [in_provider i] = None" "target_guard ?env i = None"
    using i(3,4) by simp_all
  have "claim_pinned (d'\<lparr>dep_instance_id := in_id i\<rparr>) now2 st' = (Inr (True, rec), st')"
    by (simp add: claim_pinned_def st' d rec newDeploymentRecord_def live_states_def Let_def)
  then have "create_pinned ?env now2 d' st' = (CreateExisted rec, st')"
    using i(1,2) g by (simp add: create_pinned_def st')
  then show ?thesis using p' by (simp add: CreateDeployment_def st' rec newDeploymentRecord_def)
qed


subsection \<open>Instances\<close>

definition fleet_env :: create_env where
  "fleet_env = \<lparr>ce_models = (\<lambda>m. Inr \<lparr>rv_model_arg = m, rv_env = Map.empty, rv_mounts = []\<rparr>), ce_getenv = (\<lambda>_. []),
     ce_architectures = None, ce_preflight = \<lparr>pe_hardware = (\<lambda>_. None), pe_capacity = (\<lambda>_ _. 0), pe_architecture = (\<lambda>_. None)\<rparr>,
     ce_paths = Map.empty, ce_volume_order = [], ce_keystore_nil = False, ce_ensure_key = (\<lambda>_. [])\<rparr>"

definition fleet_request :: deployment where
  "fleet_request = zero_deployment\<lparr>dep_id := ''d'', dep_image := ''i'', dep_model := ''m''\<rparr>"

definition fleet_group :: replica_spec where
  "fleet_group = \<lparr>rs_provider = ''p'', rs_region = [], rs_requirements = Some (zero_requirements\<lparr>rq_sku := ''x''\<rparr>),
     rs_replicas = 1, rs_engine_endpoint = [], rs_nodes = 1\<rparr>"

definition fleet_slot :: replica_spec where
  "fleet_slot = fleet_group\<lparr>rs_replicas := 0\<rparr>"

definition fleet_record :: deployment where
  "fleet_record = newDeploymentRecord (fleet_request\<lparr>dep_upstream_auth := None\<rparr>) 5"

definition fleet_claimed :: state where
  "fleet_claimed = NewState\<lparr>st_deployments := [''d'' \<mapsto> fleet_record]\<rparr>"

lemma fleet_budget: "budgetCheck (ce_preflight fleet_env) req = Skipped"
proof -
  have "capacity_loop (ce_preflight fleet_env) gs = (0, 0)" for gs
    by (induction gs) (simp_all add: fleet_env_def split: option.split)
  then show ?thesis
    by (simp add: budgetCheck_def deployCardCapacity_def fleet_env_def Let_def split: prod.split)
qed

lemma fleet_create: "CreateDeployment fleet_env 5 (Some fleet_request) [Some fleet_group] NewState = (CreateFanOut fleet_record [fleet_slot], fleet_claimed)"
proof -
  have v: "ValidateParallelism None c k = Inr []" for c k by (simp add: ValidateParallelism_def par_sizes_def)
  have x: "expertShapeCheck pe req = None" if "dep_parallelism (cq_deployment req) = None" for pe req
    using that by (simp add: expertShapeCheck_def par_sizes_def)
  have p: "dep_parallelism fleet_request = None" "dep_upstream_auth fleet_request = None" "dep_mounts fleet_request = []"
    "dep_env fleet_request = Map.empty" "dep_engine_args fleet_request = []" "dep_model fleet_request = ''m''"
    "dep_id fleet_request = ''d''" "dep_image fleet_request = ''i''" "dep_replicas fleet_request = []" "dep_instance_id fleet_request = []"
    by (simp_all add: fleet_request_def zero_deployment_def)
  have e: "resolve_model fleet_env False ''m'' = Inr \<lparr>rv_model_arg = ''m'', rv_env = Map.empty, rv_mounts = []\<rparr>"
    "ce_architectures fleet_env = None" "ce_volume_order fleet_env = []" "ce_paths fleet_env = Map.empty"
    by (simp_all add: resolve_model_def fleet_env_def)
  have ext: "external_groups [Some fleet_group] = False" by (simp add: external_groups_def fleet_group_def ProviderExternal_def)
  have slots: "expand_group fleet_group = [fleet_slot]" by (simp add: expand_group_def fleet_slot_def fleet_group_def)
  have r: "resolveCreateReplicaSpecs [Some fleet_group] = Inr [fleet_slot]"
    by (simp add: resolveCreateReplicaSpecs_def slots) (simp add: fleet_group_def)
  have same: "fleet_request\<lparr>dep_model := ''m'', dep_env := Map.empty, dep_upstream_auth := None\<rparr> = fleet_request\<lparr>dep_upstream_auth := None\<rparr>"
    by (simp add: fleet_request_def zero_deployment_def)
  obtain c k where g: "deploymentGPUCount [fleet_group] = (c, k)" by fastforce
  have stamp: "stamp_mounts fleet_env NewState [] [fleet_slot] (fleet_request\<lparr>dep_upstream_auth := None\<rparr>) = fleet_request\<lparr>dep_upstream_auth := None\<rparr>"
    by (simp add: stamp_mounts_def p homogeneousPlacement_def resolveWarmMount_def fleet_slot_def fleet_group_def)
  have args: "fleet_request\<lparr>dep_upstream_auth := None, dep_engine_args := []\<rparr> = fleet_request\<lparr>dep_upstream_auth := None\<rparr>"
    by (simp add: fleet_request_def zero_deployment_def)
  have a: "admit_plan fleet_env NewState [] (fleet_request\<lparr>dep_upstream_auth := None\<rparr>) [fleet_group] = Inr (fleet_request\<lparr>dep_upstream_auth := None\<rparr>, [fleet_slot])"
    by (simp add: admit_plan_def g v x p e fleet_budget inferImageArchitecture_def slots stamp args Let_def)
  have "prepare_create fleet_env fleet_request [Some fleet_group] NewState = Inr (fleet_request\<lparr>dep_upstream_auth := None\<rparr>, [fleet_slot])"
    using a by (simp add: prepare_create_def p ext r e same ValidateUpstreamAuth_def List.map_filter_simps)
  moreover have "create_fan_out fleet_env 5 (fleet_request\<lparr>dep_upstream_auth := None\<rparr>) [fleet_slot] NewState = (CreateFanOut fleet_record [fleet_slot], fleet_claimed)"
    by (simp add: create_fan_out_def mount_guard_def checkMountProviders_def checkMountsAttachable_def p claim_multi_def
        NewState_def fleet_claimed_def fleet_record_def Let_def)
  ultimately show ?thesis by (simp add: CreateDeployment_def)
qed

theorem fan_out_admitted_witness:
  "CreateDeployment fleet_env 5 (Some fleet_request) [Some fleet_group] NewState = (CreateFanOut fleet_record [fleet_slot], fleet_claimed)
   \<and> dep_state fleet_record = DPending \<and> dep_id fleet_record = ''d''"
  using fan_out_admitted [OF fleet_create] fleet_create by (simp add: fleet_request_def)

theorem repeat_create_adopts_witness:
  "CreateDeployment fleet_env 9 (Some fleet_request) [Some fleet_group] fleet_claimed = (CreateExisted fleet_record, fleet_claimed)"
proof -
  have "st_volumes fleet_claimed = st_volumes NewState" "st_deployments fleet_claimed (dep_id fleet_request) = Some fleet_record"
    "dep_state fleet_record \<in> set live_states"
    by (simp_all add: fleet_claimed_def fleet_request_def fleet_record_def live_states_def)
  from repeat_create_adopts [OF fleet_create this refl refl] show ?thesis .
qed

theorem create_refused_free_witness:
  "CreateDeployment fleet_env 5 None [] fleet_claimed = (CreateRefused NoDeployment, fleet_claimed)"
proof -
  obtain st' where run: "CreateDeployment fleet_env 5 None [] fleet_claimed = (CreateRefused NoDeployment, st')"
    by (simp add: CreateDeployment_def)
  with create_refused_free [OF this] show ?thesis by simp
qed

end
