(* ===== verification/Slot_Provision.thy ===== *)
theory Slot_Provision
  imports Create_Deployment
begin

text \<open>
  What a create starts (\<^verbatim>\<open>provisioners/fanout.go\<close>, \<^verbatim>\<open>service.go\<close>): placing the slots of a fleet, launching every
  member, collecting the results, and the launch on a pinned machine.  A provider's deploy is a
  parameter: the updates it emits, with what the phase refiner reads at each, and how it ends.
  Goroutines run one after another in the order \<open>order\<close>; texts of placement errors are left out.
\<close>

subsection \<open>One machine\<close>

datatype replica_end = Concluded "gostring option" | Panicked gostring

record slot_env =
  se_providers :: providers
  se_keystore :: bool
  se_operator :: gostring
  se_load_key :: "gostring \<Rightarrow> gostring"
  se_agent_url :: gostring
  se_abort_enabled :: bool
  se_checkpoint :: "deployment \<Rightarrow> int"
  se_deploy :: "deployment \<Rightarrow> inst \<Rightarrow> refine_call list \<times> replica_end"
  se_now :: timestamp

definition quoted :: "gostring \<Rightarrow> gostring" where
  "quoted s = CHR 0x22 # s @ [CHR 0x22]"

definition panic_update :: "gostring \<Rightarrow> dupdate" where
  "panic_update err = (state_update DFailed [] err)\<lparr>du_phase := ''provider:panic''\<rparr>"

text \<open>The refiner passes the update of a panic through, as it passes every phase but \<^verbatim>\<open>engine:init\<close>.\<close>

definition runReplicaDeploy ::
  "slot_env \<Rightarrow> gostring \<Rightarrow> int \<Rightarrow> nat \<Rightarrow> deployment \<Rightarrow> inst \<Rightarrow> state \<Rightarrow> (gostring \<times> gostring option) \<times> state" where
  "runReplicaDeploy e deployID slot node dep i st =
     (let slotDep = withAgentEnv dep (in_id i) (int node) (in_provider i) (se_agent_url e) in
      case se_deploy e slotDep i of (calls, fin) \<Rightarrow>
        (let emitted = map fst (refine_run (se_abort_enabled e) calls (newPhaseRefiner (se_checkpoint e dep) True));
             st1 = fold (patchDeploymentSlot deployID (in_id i)) emitted st in
         case fin of
           Panicked msg \<Rightarrow>
             (let err = ''provider '' @ quoted (in_provider i) @ '' panicked mid-deploy: '' @ msg;
                  st2 = patchDeploymentSlot deployID (in_id i) (panic_update err) st1 in
              ((readSlotEndpoint deployID slot st2, Some err), st2))
         | Concluded (Some err) \<Rightarrow> ((readSlotEndpoint deployID slot st1, Some err), st1)
         | Concluded None \<Rightarrow>
             ((readSlotEndpoint deployID slot st1, None),
              finalizeInstanceAfterDeploy (se_providers e) (se_now e) (in_id i) deployID st1)))"

definition launchReplica ::
  "slot_env \<Rightarrow> gostring \<Rightarrow> int \<Rightarrow> nat \<Rightarrow> deployment \<Rightarrow> inst \<Rightarrow> state \<Rightarrow> (gostring \<times> (gostring + gostring)) \<times> state" where
  "launchReplica e deployID slot node dep i st =
     (case runReplicaDeploy e deployID slot node dep i st of
        ((endpoint, None), st') \<Rightarrow> ((in_id i, Inr endpoint), st')
      | ((endpoint, Some err), st') \<Rightarrow> ((in_id i, Inl err), st'))"

subsection \<open>One slot\<close>

definition replicaKey :: "slot_env \<Rightarrow> gostring \<Rightarrow> gostring option" where
  "replicaKey e name =
     (if \<not> se_keystore e then Some ''keystore unconfigured (use provisioners.WithKeyStore)''
      else if se_load_key e name \<noteq> [] then
        Some (''load ssh key for provider '' @ quoted name @ '': '' @ se_load_key e name)
      else (case se_providers e name of
          None \<Rightarrow> None
        | Some p \<Rightarrow> map_option (\<lambda>_. ''register ssh key with provider '' @ quoted name) (ensureProviderKey True p)))"

fun launch_nodes ::
  "slot_env \<Rightarrow> gostring \<Rightarrow> int \<Rightarrow> deployment \<Rightarrow> nat \<Rightarrow> inst list \<Rightarrow> state
     \<Rightarrow> (gostring \<times> (gostring + gostring)) list \<times> state" where
  "launch_nodes e deployID slot dep n [] st = ([], st)"
| "launch_nodes e deployID slot dep n (i # is) st =
     (case launchReplica e deployID slot n dep i st of (r, st1) \<Rightarrow>
      case launch_nodes e deployID slot dep (Suc n) is st1 of (rs, st2) \<Rightarrow> (r # rs, st2))"

definition launch_slot ::
  "slot_env \<Rightarrow> gostring \<Rightarrow> nat \<Rightarrow> deployment \<Rightarrow> replica_spec list \<Rightarrow> nat \<Rightarrow> memberPlacement list \<Rightarrow> nat \<Rightarrow> state
     \<Rightarrow> (gostring \<times> gostring option) \<times> state" where
  "launch_slot e deployID startingSlot dep specs totalSlots placements i st =
     (let slot = startingSlot + i; m = placements ! i in
      case primary m of
        None \<Rightarrow> ((replicaInstanceID deployID slot totalSlots, mp_err m), st)
      | Some inst \<Rightarrow>
          (case replicaKey e (rs_provider (specs ! i)) of
             Some err \<Rightarrow> ((in_id inst, Some err), st)
           | None \<Rightarrow>
               (case launch_nodes e deployID (int slot) dep 0 (mp_instances m) st of (outs, st1) \<Rightarrow>
                case launchMember (return_one (se_providers e) (se_now e)) (mp_instances m) outs st1 of
                  ((k, Inl err), st2) \<Rightarrow> ((k, Some err), st2)
                | ((k, Inr endpoint), st2) \<Rightarrow> ((k, None), st2))))"

subsection \<open>All slots\<close>

fun place_slots ::
  "slot_env \<Rightarrow> gostring \<Rightarrow> gostring \<Rightarrow> nat \<Rightarrow> nat \<Rightarrow> replica_spec list \<Rightarrow> state \<Rightarrow> memberPlacement list \<times> state" where
  "place_slots e img deployID slot totalSlots [] st = ([], st)"
| "place_slots e img deployID slot totalSlots (sp # sps) st =
     (case placeMember (place_one (se_providers e) (se_keystore e) (se_operator e) (se_now e) sp img deployID)
             (return_one (se_providers e) (se_now e)) sp deployID slot totalSlots st of (m, st1) \<Rightarrow>
      case place_slots e img deployID (Suc slot) totalSlots sps st1 of (ms, st2) \<Rightarrow> (m # ms, st2))"

fun launch_slots :: "(nat \<Rightarrow> state \<Rightarrow> (gostring \<times> gostring option) \<times> state) \<Rightarrow> nat list \<Rightarrow> state
    \<Rightarrow> (gostring \<times> gostring option) list \<times> state" where
  "launch_slots launch [] st = ([], st)"
| "launch_slots launch (i # is) st =
     (case launch i st of (r, st1) \<Rightarrow> case launch_slots launch is st1 of (rs, st2) \<Rightarrow> (r # rs, st2))"

definition provisionSlots ::
  "slot_env \<Rightarrow> replica_spec list \<Rightarrow> deployment \<Rightarrow> gostring \<Rightarrow> nat \<Rightarrow> nat \<Rightarrow> (memberPlacement list \<Rightarrow> state \<Rightarrow> state)
     \<Rightarrow> nat list \<Rightarrow> state \<Rightarrow> (gostring \<times> gostring option) list \<times> state" where
  "provisionSlots e specs dep deployID startingSlot totalSlots recordSlots order st =
     (case place_slots e (dep_image dep) deployID startingSlot totalSlots specs st of (placements, st1) \<Rightarrow>
      launch_slots (launch_slot e deployID startingSlot dep specs totalSlots placements) order
        (recordSlots placements st1))"

text \<open>The fan-out of a create, from the placement of its slots to the aggregate state.\<close>

definition create_slots ::
  "slot_env \<Rightarrow> deployment \<Rightarrow> gostring \<Rightarrow> replica_spec list \<Rightarrow> nat list \<Rightarrow> state \<Rightarrow> (gostring \<times> gostring option) list \<times> state" where
  "create_slots e dep deployID specs order st =
     (case provisionSlots e specs dep deployID 0 (length specs) (recordCreateSlots deployID (map Some specs)) order st of
        (results, st') \<Rightarrow> (results, fanOutProvision deployID results (se_now e) st'))"

text \<open>The launch on a pinned machine; the first component says whether the daemon survives it.\<close>

definition launchDeploy :: "slot_env \<Rightarrow> deployment \<Rightarrow> inst \<Rightarrow> state \<Rightarrow> bool \<times> state" where
  "launchDeploy e dep i st =
     (case se_deploy e dep i of (calls, fin) \<Rightarrow>
        (let st1 = fold (\<lambda>c. patchDeployment (dep_id dep) (rc_update c) (rc_now c)) calls st in
         case fin of
           Concluded None \<Rightarrow> (True, finalizeInstanceAfterDeploy (se_providers e) (se_now e) (in_id i) (dep_id dep) st1)
         | Concluded (Some _) \<Rightarrow> (True, st1)
         | Panicked _ \<Rightarrow> (False, st1)))"

subsection \<open>The stash of specs\<close>

text \<open>
  \<^verbatim>\<open>provisionSlots\<close> leaves the specs on the service and the recorder takes them; two fan-outs are two
  threads of these two steps.
\<close>

datatype stash_step = StashSpecs "replica_spec list" | TakeSpecs gostring "memberPlacement list"

definition takePendingReplicaSpecs :: "replica_spec list option \<Rightarrow> replica_spec option list \<times> replica_spec list option" where
  "takePendingReplicaSpecs pending = ((case pending of None \<Rightarrow> [] | Some specs \<Rightarrow> map Some specs), None)"

fun stash_run :: "stash_step \<Rightarrow> replica_spec list option \<times> state \<Rightarrow> replica_spec list option \<times> state" where
  "stash_run (StashSpecs specs) (pending, st) = (Some specs, st)"
| "stash_run (TakeSpecs deployID placements) (pending, st) =
     (case takePendingReplicaSpecs pending of (specs, pending') \<Rightarrow> (pending', recordCreateSlots deployID specs placements st))"


subsection \<open>The records a fan-out touches\<close>

definition keeps_others :: "gostring \<Rightarrow> state \<Rightarrow> state \<Rightarrow> bool" where
  "keeps_others d st st' \<longleftrightarrow>
     (\<forall>k. k \<noteq> d \<longrightarrow> st_deployments st' k = st_deployments st k)
     \<and> (st_deployments st d \<noteq> None \<longrightarrow> st_deployments st' d \<noteq> None)"

named_theorems keeps

lemma keeps_refl [keeps, simp]: "keeps_others d st st"
  by (simp add: keeps_others_def)

lemma keeps_trans [trans]: "keeps_others d st st1 \<Longrightarrow> keeps_others d st1 st2 \<Longrightarrow> keeps_others d st st2"
  by (simp add: keeps_others_def)

lemma keeps_same: "st_deployments st' = st_deployments st \<Longrightarrow> keeps_others d st st'"
  by (simp add: keeps_others_def)

lemma keeps_fold: "(\<And>u st. u \<in> set us \<Longrightarrow> keeps_others d st (f u st)) \<Longrightarrow> keeps_others d st (fold f us st)"
proof (induction us arbitrary: st)
  case (Cons u us)
  then have "keeps_others d st (f u st)" "keeps_others d (f u st) (fold f us (f u st))" by simp_all
  then show ?case using keeps_trans by simp
qed simp

lemma keeps_update [keeps]: "keeps_others d st (update_deployment d f st)"
  by (simp add: keeps_others_def)

lemma keeps_patch_slot [keeps]: "keeps_others d st (patchDeploymentSlot d k u st)"
  by (auto simp: keeps_others_def patchDeploymentSlot_def Let_def split: option.splits)

lemma keeps_finalize [keeps]: "keeps_others d st (finalizeInstanceAfterDeploy ps now k d' st)"
  by (auto intro!: keeps_same simp: finalizeInstanceAfterDeploy_def Let_def split: option.splits sum.splits)

lemma keeps_return_one [keeps]: "keeps_others d st (return_one ps now k st)"
  by (auto intro!: keeps_same simp: return_one_def DestroyInstance_def Let_def split: option.splits)

lemma keeps_return_member: "keeps_others d st (returnMember (return_one ps now) is st)"
proof (induction "is" arbitrary: st)
  case (Cons i "is")
  have "keeps_others d st (return_one ps now (in_id i) st)" by (rule keeps)
  also note Cons.IH
  finally show ?case by simp
qed simp

lemma keeps_place_one [keeps]: "keeps_others d st (snd (place_one ps ks op now sp img d' k st))"
proof -
  have "st_deployments (snd (place_rent ks op now p psp st)) = st_deployments st" for p psp
    by (auto simp: place_rent_def Let_def split: option.splits sum.splits prod.splits dest!: registerKeyAndSpawn_frame(2))
  then have "st_deployments (snd (placeReplicaInstance ps ks op now (Some sp) img d' k st)) = st_deployments st"
    by (auto simp: placeReplicaInstance_def Let_def split: option.splits sum.splits)
  then show ?thesis by (auto intro!: keeps_same simp: place_one_def split: prod.splits sum.splits)
qed

lemma place_nodes_keeps:
  assumes "\<And>k st. keeps_others d st (snd (place k st))"
    and "place_nodes place (return_one ps now) member tot ns acc st = (m, st')"
  shows "keeps_others d st st' \<and> (mp_instances m = [] \<longrightarrow> mp_err m \<noteq> None \<or> acc = [] \<and> ns = [])"
  using assms(2)
proof (induction ns arbitrary: acc st)
  case (Cons n ns)
  obtain r st1 where r: "place (nodeInstanceID member n tot) st = (r, st1)" by fastforce
  then have k1: "keeps_others d st st1" using assms(1) [of st "nodeInstanceID member n tot"] by simp
  show ?case
  proof (cases r)
    case (Inl err)
    then show ?thesis using Cons.prems r k1 keeps_return_member by (auto intro: keeps_trans)
  next
    case (Inr i)
    with Cons.prems r have "place_nodes place (return_one ps now) member tot ns (acc @ [i]) st1 = (m, st')" by simp
    from Cons.IH [OF this] k1 show ?thesis by (auto intro: keeps_trans)
  qed
qed auto

lemma placeMember_keeps:
  assumes "\<And>k st. keeps_others d st (snd (place k st))" "placeMember place (return_one ps now) sp d' slot tot st = (m, st')"
  shows "keeps_others d st st' \<and> (mp_instances m = [] \<longrightarrow> mp_err m \<noteq> None)"
proof -
  let ?n = "if rs_nodes sp < 1 then 1 else nat (rs_nodes sp)"
  have ne: "[0..<?n] \<noteq> []" by simp
  have "place_nodes place (return_one ps now) (replicaInstanceID d' slot tot) ?n [0..<?n] [] st = (m, st')"
    using assms(2) unfolding placeMember_def Let_def .
  from place_nodes_keeps [OF assms(1) this] show ?thesis using ne by blast
qed

lemma place_slots_keeps:
  assumes "place_slots e img d' slot tot sps st = (ms, st')"
  shows "keeps_others d st st' \<and> length ms = length sps \<and> (\<forall>m \<in> set ms. mp_instances m = [] \<longrightarrow> mp_err m \<noteq> None)"
  using assms
proof (induction sps arbitrary: slot st ms st')
  case (Cons sp sps)
  obtain m st1 where m: "placeMember (place_one (se_providers e) (se_keystore e) (se_operator e) (se_now e) sp img d')
      (return_one (se_providers e) (se_now e)) sp d' slot tot st = (m, st1)" by fastforce
  obtain ms' st2 where ms: "place_slots e img d' (Suc slot) tot sps st1 = (ms', st2)" by fastforce
  from Cons.prems m ms have eq: "ms' = tl ms" "ms = m # ms'" "st2 = st'" by auto
  from placeMember_keeps [OF keeps_place_one m] Cons.IH [OF ms] show ?case unfolding eq(2,3) by (auto intro: keeps_trans)
qed auto


subsection \<open>When a slot is up\<close>

definition replica_up :: "slot_env \<Rightarrow> deployment \<Rightarrow> nat \<Rightarrow> inst \<Rightarrow> bool" where
  "replica_up e dep n i \<longleftrightarrow>
     snd (se_deploy e (withAgentEnv dep (in_id i) (int n) (in_provider i) (se_agent_url e)) i) = Concluded None"

text \<open>Every machine of the member was placed, the key was there, and the deploy on each concluded without an error.\<close>

definition slot_up :: "slot_env \<Rightarrow> deployment \<Rightarrow> replica_spec list \<Rightarrow> memberPlacement list \<Rightarrow> nat \<Rightarrow> bool" where
  "slot_up e dep specs placements i \<longleftrightarrow>
     mp_instances (placements ! i) \<noteq> [] \<and> replicaKey e (rs_provider (specs ! i)) = None
     \<and> (\<forall>n < length (mp_instances (placements ! i)). replica_up e dep n (mp_instances (placements ! i) ! n))"

lemma launchReplica_result:
  assumes "launchReplica e d slot n dep i st = (r, st')"
  shows "keeps_others d st st' \<and> fst r = in_id i \<and> (isl (snd r) \<longleftrightarrow> \<not> replica_up e dep n i)"
proof -
  obtain calls fin where dp: "se_deploy e (withAgentEnv dep (in_id i) (int n) (in_provider i) (se_agent_url e)) i = (calls, fin)"
    by fastforce
  have k: "keeps_others d st (fold (patchDeploymentSlot d (in_id i)) us st)" for us by (rule keeps_fold) (rule keeps)
  show ?thesis
  proof (cases fin)
    case (Panicked msg)
    with assms dp show ?thesis
      by (auto simp: launchReplica_def runReplicaDeploy_def Let_def replica_up_def intro: keeps_trans [OF k] keeps)
  next
    case (Concluded err)
    with assms dp show ?thesis
      by (cases err) (auto simp: launchReplica_def runReplicaDeploy_def Let_def replica_up_def intro: k keeps_trans [OF k] keeps)
  qed
qed

lemma launch_nodes_result:
  assumes "launch_nodes e d slot dep n is st = (rs, st')"
  shows "keeps_others d st st' \<and> length rs = length is
    \<and> (\<forall>j < length is. isl (snd (rs ! j)) \<longleftrightarrow> \<not> replica_up e dep (n + j) (is ! j))"
  using assms
proof (induction "is" arbitrary: n st rs st')
  case (Cons i "is")
  obtain r st1 where r: "launchReplica e d slot n dep i st = (r, st1)" by fastforce
  obtain rs' st2 where rs: "launch_nodes e d slot dep (Suc n) is st1 = (rs', st2)" by fastforce
  from Cons.prems r rs have eq: "rs = r # rs'" "st' = st2" by auto
  note a = launchReplica_result [OF r] and b = Cons.IH [OF rs]
  have "isl (snd (rs ! j)) \<longleftrightarrow> \<not> replica_up e dep (n + j) ((i # is) ! j)" if "j < length (i # is)" for j
    using a b that eq by (cases j) simp_all
  then show ?case using a b eq by (auto intro: keeps_trans)
qed auto

lemma span_outcome_failures: "span_outcome prim rs ep fs = (ep', fs') \<Longrightarrow> fs' = [] \<longleftrightarrow> fs = [] \<and> (\<forall>r \<in> set rs. \<not> isl (snd r))"
  by (induction prim rs ep fs rule: span_outcome.induct) auto

lemma launchMember_result:
  assumes "launchMember (return_one ps now) nodes outs st = (r, st')" "length outs = length nodes" "nodes \<noteq> []"
  shows "keeps_others d st st' \<and> (isl (snd r) \<longleftrightarrow> (\<exists>x \<in> set outs. isl (snd x)))"
proof (cases "length nodes = 1")
  case True
  with assms obtain x where "outs = [x]" by (cases outs) auto
  with True assms(1) show ?thesis by (auto simp: launchMember_def)
next
  case False
  obtain ep fs where s: "span_outcome (in_id (hd nodes)) outs [] [] = (ep, fs)" by fastforce
  then show ?thesis
    using False assms(1) span_outcome_failures [OF s] keeps_return_member
    by (auto simp: launchMember_def Let_def split: if_splits)
qed

lemma launch_slot_result:
  assumes "launch_slot e d 0 dep specs tot placements i st = (r, st')"
    and "mp_instances (placements ! i) = [] \<longrightarrow> mp_err (placements ! i) \<noteq> None"
  shows "keeps_others d st st' \<and> (snd r = None \<longleftrightarrow> slot_up e dep specs placements i)"
proof (cases "mp_instances (placements ! i)")
  case Nil
  then show ?thesis using assms by (auto simp: launch_slot_def primary_def slot_up_def Let_def)
next
  case (Cons inst rest)
  show ?thesis
  proof (cases "replicaKey e (rs_provider (specs ! i))")
    case (Some err)
    then show ?thesis using assms(1) Cons by (auto simp: launch_slot_def primary_def slot_up_def Let_def)
  next
    case None
    obtain outs st1 where n: "launch_nodes e d (int i) dep 0 (mp_instances (placements ! i)) st = (outs, st1)" by fastforce
    obtain q st2 where q: "launchMember (return_one (se_providers e) (se_now e)) (mp_instances (placements ! i)) outs st1 = (q, st2)"
      by fastforce
    note a = launch_nodes_result [OF n]
    have b: "keeps_others d st1 st2 \<and> (isl (snd q) \<longleftrightarrow> (\<exists>x \<in> set outs. isl (snd x)))"
      by (rule launchMember_result [OF q]) (use a Cons in auto)
    have "(\<exists>x \<in> set outs. isl (snd x)) \<longleftrightarrow> (\<exists>j < length outs. isl (snd (outs ! j)))" by (metis in_set_conv_nth)
    also have "\<dots> \<longleftrightarrow> \<not> (\<forall>n < length (mp_instances (placements ! i)). replica_up e dep n (mp_instances (placements ! i) ! n))"
      using a by auto
    finally have "(\<exists>x \<in> set outs. isl (snd x)) \<longleftrightarrow> \<not> (\<forall>n < length (mp_instances (placements ! i)). replica_up e dep n (mp_instances (placements ! i) ! n))" .
    moreover have "st' = st2 \<and> (snd r = None \<longleftrightarrow> \<not> isl (snd q))"
      using assms(1) Cons None n q by (cases q; cases "snd q") (auto simp: launch_slot_def primary_def Let_def)
    ultimately show ?thesis using a b None Cons by (auto simp: slot_up_def intro: keeps_trans)
  qed
qed

lemma launch_slots_result:
  assumes "launch_slots (launch_slot e d 0 dep specs tot placements) is st = (rs, st')"
    and "\<forall>i \<in> set is. mp_instances (placements ! i) = [] \<longrightarrow> mp_err (placements ! i) \<noteq> None"
  shows "keeps_others d st st' \<and> map (\<lambda>r. snd r = None) rs = map (slot_up e dep specs placements) is"
  using assms
proof (induction "is" arbitrary: st rs st')
  case (Cons i "is")
  obtain r st1 where r: "launch_slot e d 0 dep specs tot placements i st = (r, st1)" by fastforce
  obtain rs' st2 where rs: "launch_slots (launch_slot e d 0 dep specs tot placements) is st1 = (rs', st2)" by fastforce
  from Cons.prems r rs have eq: "rs = r # rs'" "st' = st2" by auto
  have a: "keeps_others d st st1 \<and> (snd r = None \<longleftrightarrow> slot_up e dep specs placements i)"
    by (rule launch_slot_result [OF r]) (use Cons.prems in simp)
  have b: "keeps_others d st1 st2 \<and> map (\<lambda>r. snd r = None) rs' = map (slot_up e dep specs placements) is"
    by (rule Cons.IH [OF rs]) (use Cons.prems in simp)
  show ?case using a b eq by (auto intro: keeps_trans)
qed auto

lemma launched_fleet:
  assumes "create_slots e dep d specs order st = (results, st')" "set order = {..<length specs}"
  shows "\<exists>st3. st' = fanOutProvision d results (se_now e) st3 \<and> keeps_others d st st3
    \<and> map (\<lambda>r. snd r = None) results
      = map (slot_up e dep specs (fst (place_slots e (dep_image dep) d 0 (length specs) specs st))) order"
proof -
  obtain placements st1 where p: "place_slots e (dep_image dep) d 0 (length specs) specs st = (placements, st1)" by fastforce
  let ?st2 = "recordCreateSlots d (map Some specs) placements st1"
  obtain rs st3 where l: "launch_slots (launch_slot e d 0 dep specs (length specs) placements) order ?st2 = (rs, st3)"
    by (rule prod.exhaust)
  have eq: "(rs, fanOutProvision d rs (se_now e) st3) = (results, st')"
    using assms(1) by (simp only: create_slots_def provisionSlots_def p l prod.case)
  have pl: "keeps_others d st st1" "length placements = length specs"
      "\<forall>m \<in> set placements. mp_instances m = [] \<longrightarrow> mp_err m \<noteq> None"
    using place_slots_keeps [OF p] by blast+
  have err: "\<forall>i \<in> set order. mp_instances (placements ! i) = [] \<longrightarrow> mp_err (placements ! i) \<noteq> None"
    using pl(2,3) assms(2) nth_mem by (metis lessThan_iff)
  have k2: "keeps_others d st1 ?st2" unfolding recordCreateSlots_def by (rule keeps)
  note r = launch_slots_result [OF l err]
  have "keeps_others d st st3" by (rule keeps_trans [OF keeps_trans [OF pl(1) k2] conjunct1 [OF r]])
  moreover have "rs = results" using eq by (rule Pair_inject)
  moreover have "st' = fanOutProvision d rs (se_now e) st3" using eq by (rule Pair_inject) (rule sym)
  ultimately show ?thesis using conjunct2 [OF r] unfolding p fst_conv by blast
qed

lemma verdict_all:
  assumes "map P rs = map up order" "set order = {..<n}"
  shows "list_all P rs \<longleftrightarrow> (\<forall>i < n. up i)" "list_ex P rs \<longleftrightarrow> (\<exists>i < n. up i)"
proof -
  have "P ` set rs = up ` {..<n}" using arg_cong [OF assms(1), of set] assms(2) by simp
  then have "False \<notin> P ` set rs \<longleftrightarrow> False \<notin> up ` {..<n}" "True \<in> P ` set rs \<longleftrightarrow> True \<in> up ` {..<n}" by simp_all
  then show "list_all P rs \<longleftrightarrow> (\<forall>i < n. up i)" "list_ex P rs \<longleftrightarrow> (\<exists>i < n. up i)"
    by (auto simp: list_all_iff list_ex_iff)
qed

text \<open>
  C19: A fleet is RUNNING exactly when all of it came up.  After the fan-out of a create, in whatever
  order the slots report, the record is RUNNING if every machine of every slot was placed, found its
  key and concluded its deploy without an error or a panic, FAILED if that is true of no slot, and
  DEGRADED otherwise, with a reason unless it is RUNNING; no other deployment's record is touched.
\<close>

theorem fleet_state_exact:
  assumes "st_deployments st d = Some rec" "specs \<noteq> []" "set order = {..<length specs}"
    and "create_slots e dep d specs order st = (results, st')"
  shows "\<exists>rec'. st_deployments st' d = Some rec' \<and> (\<forall>k. k \<noteq> d \<longrightarrow> st_deployments st' k = st_deployments st k)
    \<and> (let placements = fst (place_slots e (dep_image dep) d 0 (length specs) specs st);
          up = slot_up e dep specs placements in
       dep_state rec' = (if \<forall>i < length specs. up i then DRunning else if \<exists>i < length specs. up i then DDegraded else DFailed))
    \<and> (dep_state rec' \<noteq> DRunning \<longrightarrow> dep_failure_reason rec' \<noteq> [])"
proof -
  let ?up = "slot_up e dep specs (fst (place_slots e (dep_image dep) d 0 (length specs) specs st))"
  from launched_fleet [OF assms(4,3)] obtain st3 where st3: "st' = fanOutProvision d results (se_now e) st3"
      "keeps_others d st st3" "map (\<lambda>r. snd r = None) results = map ?up order"
    by (elim exE conjE)
  obtain rec3 where rec3: "st_deployments st3 d = Some rec3" using assms(1) st3(2) by (auto simp: keeps_others_def)
  have "order \<noteq> []"
  proof
    assume "order = []"
    then have "{..<length specs} = {}" using assms(3) [symmetric] by simp
    then show False using assms(2) by (simp add: lessThan_empty_iff)
  qed
  then have ne: "results \<noteq> []" using arg_cong [OF st3(3), of length] by auto
  have "keeps_others d st3 st'"
    unfolding st3(1) fanOutProvision_def applyAggregateState_record by (cases "collect_results results 0 []") (simp add: keeps_update)
  with st3(2) have frame: "\<forall>k. k \<noteq> d \<longrightarrow> st_deployments st' k = st_deployments st k" by (simp add: keeps_others_def)
  from fanout_aggregate [OF rec3 ne, of "se_now e"] obtain rec' where rec':
    "st_deployments st' d = Some rec'"
    "dep_state rec' = (if list_all (\<lambda>r. snd r = None) results then DRunning
       else if list_ex (\<lambda>r. snd r = None) results then DDegraded else DFailed)"
    "dep_state rec' \<noteq> DRunning \<longrightarrow> dep_failure_reason rec' \<noteq> []"
    unfolding st3(1) by (elim exE conjE)
  have state: "dep_state rec' = (if \<forall>i < length specs. ?up i then DRunning else if \<exists>i < length specs. ?up i then DDegraded else DFailed)"
    using rec'(2) unfolding verdict_all [OF st3(3) assms(3)] .
  show ?thesis unfolding Let_def
    by (rule exI [of _ rec'], intro conjI, rule rec'(1), rule frame, rule state, rule rec'(3))
qed

subsection \<open>A machine recorded before the fan-out\<close>

definition names_machine :: "gostring \<Rightarrow> gostring \<Rightarrow> state \<Rightarrow> bool" where
  "names_machine k pid st \<longleftrightarrow> (\<exists>i. st_instances st k = Some i \<and> in_provider_id i = pid \<and> in_id i = k)"

definition no_container :: "gostring \<Rightarrow> state \<Rightarrow> bool" where
  "no_container d st \<longleftrightarrow> (\<exists>rec. st_deployments st d = Some rec \<and> dep_container_id rec = [])"

lemma slot_record_container: "dep_container_id (slot_record r u n rec) = dep_container_id rec"
  by (simp add: slot_record_def Let_def split: option.split)

lemma slot_instance_frame [simp]:
  "in_id (slot_instance u i) = in_id i" "in_provider_id i \<noteq> [] \<Longrightarrow> in_provider_id (slot_instance u i) = in_provider_id i"
  by (simp_all add: slot_instance_def Let_def split: option.split)

lemma patch_slot_names:
  assumes "pid \<noteq> []" "names_machine k pid st \<and> no_container d st"
  shows "names_machine k pid (patchDeploymentSlot d r u st) \<and> no_container d (patchDeploymentSlot d r u st)"
  using assms
  by (auto simp: names_machine_def no_container_def patchDeploymentSlot_def slot_record_container Let_def
      split: option.splits if_splits)

lemma patches_slot_names:
  assumes "pid \<noteq> []" "names_machine k pid st \<and> no_container d st"
  shows "names_machine k pid (fold (patchDeploymentSlot d r) us st) \<and> no_container d (fold (patchDeploymentSlot d r) us st)"
proof (rule fold_invariant [where Q = "\<lambda>_. True" and P = "\<lambda>st. names_machine k pid st \<and> no_container d st"])
  show "names_machine k pid (patchDeploymentSlot d r u s) \<and> no_container d (patchDeploymentSlot d r u s)"
    if "names_machine k pid s \<and> no_container d s" for u s
    using patch_slot_names [OF assms(1) that] .
qed (use assms(2) in simp_all)

lemma finalize_names:
  assumes "pid \<noteq> []" "names_machine k pid st \<and> no_container d st"
  shows "(\<exists>i. st_instances (finalizeInstanceAfterDeploy ps now k d st) k = Some i \<and> in_provider_id i = pid)
    \<and> no_container d (finalizeInstanceAfterDeploy ps now k d st)"
proof -
  obtain cur rec where "st_instances st k = Some cur" "in_provider_id cur = pid" "in_id cur = k"
    "st_deployments st d = Some rec" "dep_container_id rec = []"
    using assms(2) by (auto simp: names_machine_def no_container_def)
  then show ?thesis using assms(1)
    by (simp add: no_container_def finalizeInstanceAfterDeploy_def Let_def split: option.split sum.split)
qed

lemma launchReplica_names:
  assumes "pid \<noteq> []" "names_machine (in_id i) pid st \<and> no_container d st" "launchReplica e d slot n dep i st = (r, st')"
  shows "(\<exists>i'. st_instances st' (in_id i) = Some i' \<and> in_provider_id i' = pid) \<and> no_container d st'"
proof -
  obtain calls fin where dp: "se_deploy e (withAgentEnv dep (in_id i) (int n) (in_provider i) (se_agent_url e)) i = (calls, fin)"
    by fastforce
  let ?st1 = "fold (patchDeploymentSlot d (in_id i)) (map fst (refine_run (se_abort_enabled e) calls (newPhaseRefiner (se_checkpoint e dep) True))) st"
  have 1: "names_machine (in_id i) pid ?st1 \<and> no_container d ?st1" by (rule patches_slot_names [OF assms(1,2)])
  have names: "\<exists>i'. st_instances s (in_id i) = Some i' \<and> in_provider_id i' = pid" if "names_machine (in_id i) pid s" for s
    using that by (auto simp: names_machine_def)
  show ?thesis
  proof (cases fin)
    case (Panicked msg)
    then obtain u where "st' = patchDeploymentSlot d (in_id i) u ?st1"
      using assms(3) dp by (auto simp: launchReplica_def runReplicaDeploy_def Let_def)
    then show ?thesis using patch_slot_names [OF assms(1) 1] names by simp
  next
    case (Concluded err)
    then have "st' = (if err = None then finalizeInstanceAfterDeploy (se_providers e) (se_now e) (in_id i) d ?st1 else ?st1)"
      using assms(3) dp by (cases err) (auto simp: launchReplica_def runReplicaDeploy_def Let_def)
    then show ?thesis using finalize_names [OF assms(1) 1] 1 names by (cases err) simp_all
  qed
qed

lemma fanOut_keeps:
  "st_instances (fanOutProvision d rs now st) = st_instances st"
  "no_container d st \<Longrightarrow> no_container d (fanOutProvision d rs now st)"
proof -
  have "dep_container_id (aggregate_record n k fs now rec) = dep_container_id rec" for n k fs rec
    by (simp add: aggregate_record_def)
  then show "no_container d st \<Longrightarrow> no_container d (fanOutProvision d rs now st)"
    by (auto simp: fanOutProvision_def applyAggregateState_record no_container_def split: prod.split)
qed (simp add: fanOutProvision_def applyAggregateState_record split: prod.split)

text \<open>
  A deployment created again under an id whose instance record survives, as it does after a destroy,
  keeps that record: whatever pod the new deploy rents and reports, the record names the machine of
  the first run, and that is the machine a destroy of the deployment will terminate.
\<close>

theorem recreated_pod_unrecorded:
  assumes "st_instances st d = Some i" "in_id i = d" "in_provider_id i = old" "old \<noteq> []"
    and "st_deployments st d = Some rec" "dep_container_id rec = []"
    and "rs_nodes sp < 2" "se_providers e (rs_provider sp) = Some p" "rs_provider sp \<noteq> []" "rs_requirements sp \<noteq> None"
    and "create_slots e dep d [sp] [0] st = (results, st')"
  shows "\<exists>rec' i'. st_deployments st' d = Some rec' \<and> st_instances st' d = Some i' \<and> contract_of rec' (Some i') = old"
proof -
  have nodes: "(if rs_nodes sp < 1 then 1 else nat (rs_nodes sp)) = 1" using assms(7) by auto
  have one: "place_one (se_providers e) (se_keystore e) (se_operator e) (se_now e) sp (dep_image dep) d d st = (Inr i, st)"
    using assms(1,8,9,10) by (auto simp: place_one_def placeReplicaInstance_def Let_def)
  have place: "place_slots e (dep_image dep) d 0 1 [sp] st = ([\<lparr>mp_instances = [i], mp_err = None\<rparr>], st)"
    using one by (simp add: placeMember_def nodes Let_def replicaInstanceID_def nodeInstanceID_def)
  let ?m = "[\<lparr>mp_instances = [i], mp_err = None\<rparr>]"
  let ?st1 = "recordCreateSlots d [Some sp] ?m st"
  have i1: "names_machine d old ?st1 \<and> no_container d ?st1"
    using assms(1-6) by (auto simp: names_machine_def no_container_def recordCreateSlots_def Let_def update_deployment_def)
  obtain r st2 where l: "launch_slot e d 0 dep [sp] 1 ?m 0 ?st1 = (r, st2)" by fastforce
  have eq: "([r], fanOutProvision d [r] (se_now e) st2) = (results, st')"
    using assms(11) by (simp only: create_slots_def provisionSlots_def place l prod.case list.map list.size One_nat_def [symmetric]
        add_0 plus_nat.add_0 launch_slots.simps)
  then have st': "st' = fanOutProvision d [r] (se_now e) st2" by (rule Pair_inject) (rule sym)
  have "(\<exists>i'. st_instances st2 d = Some i' \<and> in_provider_id i' = old) \<and> no_container d st2"
  proof (cases "replicaKey e (rs_provider sp)")
    case (Some err)
    then have "st2 = ?st1" using l by (simp add: launch_slot_def primary_def)
    then show ?thesis using i1 by (auto simp: names_machine_def)
  next
    case None
    obtain q st3 where q: "launchReplica e d 0 0 dep i ?st1 = (q, st3)" by fastforce
    then have "st2 = st3" using l None by (auto simp: launch_slot_def primary_def launchMember_def split: prod.splits sum.splits)
    moreover have "names_machine (in_id i) old ?st1 \<and> no_container d ?st1" using i1 assms(2) by simp
    note launchReplica_names [OF assms(4) this q, unfolded assms(2)]
    ultimately show ?thesis by simp
  qed
  then obtain i' where i': "st_instances st' d = Some i'" "in_provider_id i' = old" "no_container d st'"
    using fanOut_keeps [where d = d and rs = "[r]" and now = "se_now e" and st = st2] unfolding st' by auto
  then obtain rec' where "st_deployments st' d = Some rec'" "dep_container_id rec' = []" by (auto simp: no_container_def)
  with i' show ?thesis by (simp add: contract_of_def)
qed

subsection \<open>Two fan-outs at once\<close>

text \<open>
  When two deployments are created at once, both may leave their specs before either records its
  slots: the record of the first to record gets the specs of the other, and the other's record gets none.
\<close>

lemma stash_swaps_specs:
  assumes "st_deployments st a = Some ra" "st_deployments st b = Some rb" "a \<noteq> b"
    and "length specs_b = length ms_a" "ms_b \<noteq> []"
    and "(pending, st') = fold stash_run [StashSpecs specs_a, StashSpecs specs_b, TakeSpecs a ms_a, TakeSpecs b ms_b] (None, st)"
  shows "\<exists>ra' rb'. st_deployments st' a = Some ra' \<and> dep_replica_specs ra' = map Some specs_b
    \<and> st_deployments st' b = Some rb' \<and> dep_replica_specs rb' = dep_replica_specs rb"
  using assms by (auto simp: takePendingReplicaSpecs_def recordCreateSlots_def Let_def split: list.splits)


subsection \<open>Instances\<close>

definition fleet_slot_env :: slot_env where
  "fleet_slot_env = \<lparr>se_providers = [''p'' \<mapsto> sample_provider\<lparr>pv_deployer := True, pv_register_key := None\<rparr>], se_keystore = True,
     se_operator = ''me'', se_load_key = (\<lambda>_. []), se_agent_url = [], se_abort_enabled = False, se_checkpoint = (\<lambda>_. 0),
     se_deploy = (\<lambda>_ _. ([], Concluded None)), se_now = 7\<rparr>"

theorem fleet_state_exact_witness:
  "\<exists>rec'. st_deployments (snd (create_slots fleet_slot_env fleet_request ''d'' [fleet_slot] [0] fleet_claimed)) ''d'' = Some rec'
     \<and> dep_state rec' = DRunning"
proof -
  obtain results st' where run: "create_slots fleet_slot_env fleet_request ''d'' [fleet_slot] [0] fleet_claimed = (results, st')"
    by fastforce
  have rec: "st_deployments fleet_claimed ''d'' = Some fleet_record" by (simp add: fleet_claimed_def)
  have up: "slot_up fleet_slot_env fleet_request [fleet_slot]
      (fst (place_slots fleet_slot_env (dep_image fleet_request) ''d'' 0 1 [fleet_slot] fleet_claimed)) 0"
    by (simp add: slot_up_def replica_up_def fleet_slot_env_def fleet_slot_def fleet_group_def placeMember_def place_one_def
        placeReplicaInstance_def place_rent_def ValidateAndExpandRequirements_def zero_requirements_def place_spec_def
        fleet_claimed_def NewState_def replicaKey_def ensureProviderKey_def Let_def ProviderExternal_def nodeInstanceID_def
        replicaInstanceID_def)
  have order: "set [0::nat] = {..<length [fleet_slot]}" by auto
  from fleet_state_exact [OF rec _ order run] up run show ?thesis by (auto simp: Let_def)
qed

end
