(* ===== verification/SSH_Docker.thy ===== *)
theory SSH_Docker
  imports Image_Deployers
begin

text \<open>
  The deploy over SSH (\<^verbatim>\<open>deployments/sshdocker/{docker,agent,executor}.go\<close>): docker commands sent to a rented
  machine, and the executor's Deploy and Destroy.  The machine is a parameter that answers a command
  line with its output, error output and exit code; so are the decoding of \<^verbatim>\<open>docker inspect\<close>'s JSON, the
  answers to the dial, and the rounds of the health poll.  Environment variables are sent in the order
  the map is visited.
\<close>

subsection \<open>Commands on the machine\<close>

datatype run_result = RunFailed gostring | Ran gostring gostring int

type_synonym 's host = "gostring \<Rightarrow> 's \<Rightarrow> run_result \<times> 's"

text \<open>The prefix is unresolved until the first docker command.\<close>

record 's docker =
  dk_prefix :: "gostring option"
  dk_host :: 's

definition shellEscape :: "gostring \<Rightarrow> gostring" where
  "shellEscape s = (if s = [] then [QUOTE, QUOTE] else [QUOTE] @ replace_char QUOTE [QUOTE, BACKSLASH, QUOTE, QUOTE] s @ [QUOTE])"

definition ContainerName :: "gostring \<Rightarrow> gostring" where
  "ContainerName deploymentID = ''iplane-deployment-'' @ deploymentID"

definition host_run :: "'s host \<Rightarrow> gostring \<Rightarrow> 's docker \<Rightarrow> run_result \<times> 's docker" where
  "host_run run cmd d = (case run cmd (dk_host d) of (r, s) \<Rightarrow> (r, d\<lparr>dk_host := s\<rparr>))"

fun succeeded :: "run_result \<Rightarrow> bool" where
  "succeeded (RunFailed _) = False"
| "succeeded (Ran _ _ code) = (code = 0)"

definition dockerInfo :: gostring where "dockerInfo = ''docker info >/dev/null 2>&1''"
definition sudoDockerInfo :: gostring where "sudoDockerInfo = ''sudo -n docker info >/dev/null 2>&1''"

definition daemonDenied :: gostring where
  "daemonDenied = join_with [LF]
     [''ensure docker: the SSH user cannot reach the docker daemon, with or without sudo'',
      ''  docker is installed but `docker info` is denied and `sudo -n docker info` does not work either.'',
      ''  Usual cause: a non-root SSH user that is not in the `docker` group and has no passwordless sudo.'',
      ''  Fix on the host with `usermod -aG docker $USER` (then reconnect), or use an image whose SSH user is root.'']"

definition resolveElevation :: "'s host \<Rightarrow> 's docker \<Rightarrow> gostring option \<times> 's docker" where
  "resolveElevation run d =
     (if dk_prefix d \<noteq> None then (None, d)
      else case host_run run dockerInfo d of (r1, d1) \<Rightarrow>
        if succeeded r1 then (None, d1\<lparr>dk_prefix := Some []\<rparr>)
        else case host_run run sudoDockerInfo d1 of (r2, d2) \<Rightarrow>
          if succeeded r2 then (None, d2\<lparr>dk_prefix := Some ''sudo ''\<rparr>)
          else (Some daemonDenied, d2))"

text \<open>\<^verbatim>\<open>Docker.run\<close>.\<close>

definition docker_command :: "'s host \<Rightarrow> gostring \<Rightarrow> 's docker \<Rightarrow> run_result \<times> 's docker" where
  "docker_command run cmd d =
     (case resolveElevation run d of
        (Some err, d1) \<Rightarrow> (RunFailed err, d1)
      | (None, d1) \<Rightarrow> host_run run (the (dk_prefix d1) @ ''docker '' @ cmd) d1)"

definition checkDocker :: gostring where "checkDocker = ''command -v docker''"

definition installDocker :: gostring where
  "installDocker = join_with '' && ''
     [''apt-get update -y >/dev/null 2>&1'',
      ''DEBIAN_FRONTEND=noninteractive apt-get install -y docker.io >/dev/null 2>&1'',
      ''(systemctl start docker 2>/dev/null || service docker start 2>/dev/null || true)'',
      ''docker info >/dev/null 2>&1'']"

definition installHelp :: gostring where
  "installHelp = [LF] @ ''  the pod's base image likely doesn't include docker AND can't apt-install it ''
     @ ''(e.g., non-Debian-family image). Use --base-image with a docker-capable image, or pre-install docker on the pod template.''"

definition EnsureInstalled :: "'s host \<Rightarrow> 's docker \<Rightarrow> gostring option \<times> 's docker" where
  "EnsureInstalled run d =
     (case host_run run checkDocker d of
        (RunFailed err, d1) \<Rightarrow> (Some (''ensure docker: check failed: '' @ err), d1)
      | (Ran _ _ code, d1) \<Rightarrow>
          if code = 0 then (None, d1)
          else (case host_run run installDocker d1 of
              (RunFailed err, d2) \<Rightarrow> (Some (''ensure docker: install command failed: '' @ err), d2)
            | (Ran _ stderr code, d2) \<Rightarrow>
                if code = 0 then (None, d2)
                else (Some (''ensure docker: install failed (exit '' @ itoa code @ ''): '' @ trim_space stderr @ installHelp), d2)))"

subsection \<open>Containers\<close>

record container_state =
  cs_exists :: bool
  cs_running :: bool
  cs_image :: gostring
  cs_model :: gostring
  cs_id :: gostring
  cs_exit_code :: int
  cs_status :: gostring

definition no_container_state :: container_state where
  "no_container_state = \<lparr>cs_exists = False, cs_running = False, cs_image = [], cs_model = [], cs_id = [], cs_exit_code = 0, cs_status = []\<rparr>"

definition container_Matches :: "container_state \<Rightarrow> gostring \<Rightarrow> gostring \<Rightarrow> bool" where
  "container_Matches c img model \<longleftrightarrow>
     (if \<not> cs_exists c \<or> \<not> cs_running c then False else cs_image c = img \<and> cs_model c = model)"

record inspected =
  ij_id :: gostring
  ij_image :: gostring
  ij_labels :: "gostring \<rightharpoonup> gostring"
  ij_running :: bool
  ij_status :: gostring
  ij_exit_code :: int

type_synonym inspect_json = "gostring \<Rightarrow> gostring + inspected list"

definition decodeInspect :: "inspect_json \<Rightarrow> gostring \<Rightarrow> gostring + container_state" where
  "decodeInspect json raw =
     (case json raw of
        Inl err \<Rightarrow> Inl (''decode docker inspect output: '' @ err)
      | Inr [] \<Rightarrow> Inr no_container_state
      | Inr (c # _) \<Rightarrow>
          Inr \<lparr>cs_exists = True, cs_running = ij_running c, cs_image = ij_image c,
               cs_model = getenv (ij_labels c) ''iplane.model'', cs_id = ij_id c, cs_exit_code = ij_exit_code c, cs_status = ij_status c\<rparr>)"

definition docker_Inspect :: "'s host \<Rightarrow> inspect_json \<Rightarrow> gostring \<Rightarrow> 's docker \<Rightarrow> (gostring + container_state) \<times> 's docker" where
  "docker_Inspect run json name d =
     (case docker_command run (''inspect '' @ shellEscape name) d of
        (RunFailed err, d1) \<Rightarrow> (Inl err, d1)
      | (Ran stdout stderr code, d1) \<Rightarrow>
          if code \<noteq> 0 then
            (if contains stderr ''No such object'' \<or> contains stderr ''No such container'' then (Inr no_container_state, d1)
             else (Inl (''docker inspect '' @ name @ '': exit '' @ itoa code @ '': '' @ trim_space stderr), d1))
          else (decodeInspect json stdout, d1))"

definition docker_Pull :: "'s host \<Rightarrow> gostring \<Rightarrow> 's docker \<Rightarrow> gostring option \<times> 's docker" where
  "docker_Pull run img d =
     (case docker_command run (''pull '' @ shellEscape img) d of
        (RunFailed err, d1) \<Rightarrow> (Some err, d1)
      | (Ran stdout stderr code, d1) \<Rightarrow>
          if code \<noteq> 0 then
            (Some (''docker pull '' @ img @ '': exit '' @ itoa code @ '': '' @ trim_space stderr @ [LF] @ trim_space stdout), d1)
          else (None, d1))"

text \<open>\<^verbatim>\<open>Stop\<close> and \<^verbatim>\<open>Remove\<close> differ in their verb.\<close>

definition docker_tidy :: "gostring \<Rightarrow> 's host \<Rightarrow> gostring \<Rightarrow> 's docker \<Rightarrow> gostring option \<times> 's docker" where
  "docker_tidy verb run name d =
     (case docker_command run (verb @ '' '' @ shellEscape name) d of
        (RunFailed err, d1) \<Rightarrow> (Some err, d1)
      | (Ran stdout stderr code, d1) \<Rightarrow>
          if code \<noteq> 0 then
            (if contains stderr ''No such container'' then (None, d1)
             else (Some (''docker '' @ verb @ '' '' @ name @ '': exit '' @ itoa code @ '': '' @ trim_space stderr), d1))
          else (None, d1))"

definition docker_Stop :: "'s host \<Rightarrow> gostring \<Rightarrow> 's docker \<Rightarrow> gostring option \<times> 's docker" where
  "docker_Stop = docker_tidy ''stop''"

definition docker_Remove :: "'s host \<Rightarrow> gostring \<Rightarrow> 's docker \<Rightarrow> gostring option \<times> 's docker" where
  "docker_Remove = docker_tidy ''rm''"

definition health_command :: "int \<Rightarrow> gostring" where
  "health_command port =
     ''curl -s -o /dev/null -w \"%{http_code}\" --max-time 5 http://localhost:'' @ itoa (if port \<le> 0 then 8000 else port) @ ''/health''"

definition docker_Health :: "'s host \<Rightarrow> int \<Rightarrow> 's docker \<Rightarrow> (gostring + bool) \<times> 's docker" where
  "docker_Health run port d =
     (case host_run run (health_command port) d of
        (RunFailed err, d1) \<Rightarrow> (Inl err, d1)
      | (Ran stdout stderr code, d1) \<Rightarrow>
          if code \<noteq> 0 then (Inl (''curl /health exit '' @ itoa code @ '': '' @ trim_space stderr), d1)
          else (Inr (has_prefix (trim_space stdout) ''2''), d1))"

subsection \<open>Starting containers\<close>

record run_spec =
  rn_name :: gostring
  rn_image :: gostring
  rn_model :: gostring
  rn_engine_args :: "gostring list"
  rn_env :: "(gostring \<times> gostring) list"
  rn_port :: int
  rn_mounts :: "(gostring \<times> gostring) list"

definition env_args :: "(gostring \<times> gostring) list \<Rightarrow> gostring list" where
  "env_args env = concat (map (\<lambda>(k, v). [''-e'', shellEscape (k @ ''='' @ v)]) env)"

definition run_args :: "gostring \<Rightarrow> run_spec \<Rightarrow> gostring list" where
  "run_args dockerBin sp =
     [dockerBin @ '' run -d'', ''--name'', shellEscape (rn_name sp), ''--gpus all'', ''--restart'', ''unless-stopped'',
      ''--label'', shellEscape (''iplane.deployment='' @ rn_name sp)]
     @ (if rn_model sp \<noteq> [] then [''--label'', shellEscape (''iplane.model='' @ rn_model sp)] else [])
     @ (if rn_port sp > 0 then [''-p'', itoa (rn_port sp) @ '':'' @ itoa (rn_port sp)] else [])
     @ env_args (rn_env sp)
     @ concat (map (\<lambda>(hostPath, mountPath). if hostPath = [] \<or> mountPath = [] then []
         else [''-v'', shellEscape (hostPath @ '':'' @ mountPath)]) (rn_mounts sp))
     @ [shellEscape (rn_image sp)]
     @ (if rn_model sp \<noteq> [] then [''--model'', shellEscape (rn_model sp)] else [])
     @ map shellEscape (rn_engine_args sp)"

definition docker_Run :: "'s host \<Rightarrow> run_spec \<Rightarrow> 's docker \<Rightarrow> (gostring + gostring) \<times> 's docker" where
  "docker_Run run sp d =
     (if rn_name sp = [] \<or> rn_image sp = [] then (Inl ''docker run: name and image are required'', d)
      else case resolveElevation run d of
        (Some err, d1) \<Rightarrow> (Inl err, d1)
      | (None, d1) \<Rightarrow>
          (case host_run run (join_with '' '' (run_args (the (dk_prefix d1) @ ''docker'') sp)) d1 of
             (RunFailed err, d2) \<Rightarrow> (Inl err, d2)
           | (Ran stdout stderr code, d2) \<Rightarrow>
               if code \<noteq> 0 then
                 (Inl (''docker run: exit '' @ itoa code @ '': '' @ trim_space stderr @ [LF] @ trim_space stdout), d2)
               else (Inr (trim_space stdout), d2)))"

definition AgentContainerName :: "gostring \<Rightarrow> gostring" where
  "AgentContainerName deploymentID = ''iplane-agent-'' @ deploymentID"

definition agent_run_args :: "gostring \<Rightarrow> gostring \<Rightarrow> gostring \<Rightarrow> (gostring \<times> gostring) list \<Rightarrow> gostring \<Rightarrow> gostring list" where
  "agent_run_args dockerBin ident img env script =
     [dockerBin @ '' run -d'', ''--name'', shellEscape (AgentContainerName ident),
      ''--network'', shellEscape (''container:'' @ ContainerName ident), ''--restart'', ''unless-stopped'',
      ''--label'', shellEscape (''iplane.deployment='' @ ident), ''--label'', shellEscape ''iplane.role=agent'',
      ''--entrypoint'', ''/bin/sh'']
     @ env_args env @ [shellEscape img, ''-c'', shellEscape script]"

text \<open>\<open>procEnv\<close> and \<open>version\<close> are the daemon's own environment and build.\<close>

definition docker_RunAgent ::
  "'s host \<Rightarrow> (gostring \<rightharpoonup> gostring) \<Rightarrow> gostring \<Rightarrow> gostring \<Rightarrow> gostring \<Rightarrow> (gostring \<times> gostring) list \<Rightarrow> 's docker
     \<Rightarrow> (gostring + gostring) \<times> 's docker" where
  "docker_RunAgent run procEnv version ident img env d =
     (if ident = [] \<or> img = [] then (Inl ''docker run agent: deployment id and image are required'', d)
      else if getenv (map_of env) EnvEngineID = [] \<or> getenv (map_of env) EnvServiceURL = [] then
        (Inl ''docker run agent: no agent identity stamped; nothing to register as'', d)
      else case BinaryURL procEnv version ''amd64'' of
        None \<Rightarrow> (Inl (''docker run agent: no published agent binary for this build (set '' @ EnvBinaryURL @ '' to override)''), d)
      | Some url \<Rightarrow>
      (case AgentScript url of
        None \<Rightarrow> (Inl ''engineagent: binary url is required to build an agent script'', d)
      | Some script \<Rightarrow>
          (case resolveElevation run d of
             (Some err, d1) \<Rightarrow> (Inl err, d1)
           | (None, d1) \<Rightarrow>
               (case host_run run (join_with '' '' (agent_run_args (the (dk_prefix d1) @ ''docker'') ident img env script)) d1 of
                  (RunFailed err, d2) \<Rightarrow> (Inl err, d2)
                | (Ran stdout stderr code, d2) \<Rightarrow>
                    if code \<noteq> 0 then (Inl (''docker run agent: exit '' @ itoa code @ '': '' @ trim_space stderr), d2)
                    else (Inr (trim_space stdout), d2)))))"

definition docker_StopAgent :: "'s host \<Rightarrow> gostring \<Rightarrow> 's docker \<Rightarrow> gostring option \<times> 's docker" where
  "docker_StopAgent run ident d =
     (case docker_Stop run (AgentContainerName ident) d of
        (Some err, d1) \<Rightarrow> (Some err, d1)
      | (None, d1) \<Rightarrow> docker_Remove run (AgentContainerName ident) d1)"


subsection \<open>The executor\<close>

text \<open>
  What the machine and the clock answer during one call: the attempts to connect (an error, the time
  after it, and the context's error if the caller gave up in the pause), and what ended the wait before
  each further health check.
\<close>

datatype dial_attempt = Handshake | DialRefused gostring timestamp "gostring option"
datatype poll_event = PollTick | PollOver gostring

record 's ssh_world =
  sw_run :: "'s host"
  sw_json :: inspect_json
  sw_dial :: "dial_attempt list"
  sw_now :: timestamp
  sw_polls :: "poll_event list"
  sw_env_order :: "gostring list"
  sw_proc_env :: "gostring \<rightharpoonup> gostring"
  sw_version :: gostring
  sw_has_key :: bool

definition dialRetryWindow :: duration where "dialRetryWindow = 120 * second"

fun dial_loop :: "timestamp \<Rightarrow> gostring \<Rightarrow> dial_attempt list \<Rightarrow> gostring option option" where
  "dial_loop deadline what [] = None"
| "dial_loop deadline what (Handshake # as) = Some None"
| "dial_loop deadline what (DialRefused err after gone # as) =
     (if deadline < after then Some (Some (what @ err))
      else case gone of Some e \<Rightarrow> Some (Some e) | None \<Rightarrow> dial_loop deadline what as)"

definition machine_host :: "inst \<Rightarrow> gostring" where
  "machine_host i = (case in_ssh i of None \<Rightarrow> [] | Some t \<Rightarrow> ssh_host t)"

definition machine_port :: "inst \<Rightarrow> int" where
  "machine_port i = (case in_ssh i of None \<Rightarrow> 22 | Some t \<Rightarrow> if ssh_port t = 0 then 22 else ssh_port t)"

text \<open>\<open>None\<close> while the dial is still trying, \<open>Some None\<close> a connection.\<close>

definition SSHDial :: "'s ssh_world \<Rightarrow> inst \<Rightarrow> gostring option option" where
  "SSHDial w i =
     (if machine_host i = [] then
        Some (Some (''instance '' @ in_id i @ '' has no SSH endpoint (deployment requires an SSH-reachable instance)''))
      else dial_loop (sw_now w + dialRetryWindow)
        (''sshdocker: ssh to '' @ machine_host i @ '':'' @ itoa (machine_port i) @ '' never completed a handshake within 2m0s: '')
        (sw_dial w))"

definition health_hint :: "gostring + bool \<Rightarrow> dupdate" where
  "health_hint r = progress_update DConfiguring ''engine:waiting''
     (case r of Inl err \<Rightarrow> ''polling /health: '' @ err | Inr _ \<Rightarrow> ''polling /health (not 2xx yet)'')"

text \<open>\<open>None\<close> while the poll goes on, \<open>Some None\<close> a healthy engine.\<close>

fun pollHealth :: "'s host \<Rightarrow> int \<Rightarrow> poll_event list \<Rightarrow> 's docker \<Rightarrow> dupdate list \<times> gostring option option \<times> 's docker" where
  "pollHealth run port [] d =
     (case docker_Health run port d of (r, d1) \<Rightarrow>
        if r = Inr True then ([], Some None, d1) else ([health_hint r], None, d1))"
| "pollHealth run port (e # es) d =
     (case docker_Health run port d of (r, d1) \<Rightarrow>
        if r = Inr True then ([], Some None, d1)
        else case e of
          PollOver err \<Rightarrow> ([health_hint r], Some (Some err), d1)
        | PollTick \<Rightarrow> (case pollHealth run port es d1 of (us, q, d2) \<Rightarrow> (health_hint r # us, q, d2)))"

definition ssh_failed :: "gostring \<Rightarrow> gostring \<Rightarrow> gostring \<Rightarrow> 's docker \<Rightarrow> deploy_run \<times> 's" where
  "ssh_failed phase msg err d = (([failure_update phase (msg @ '': '' @ err)], DeployErr (phase @ '': '' @ err)), dk_host d)"

definition say :: "dupdate \<Rightarrow> deploy_run \<times> 's \<Rightarrow> deploy_run \<times> 's" where
  "say u rest = (emit u (fst rest), snd rest)"

definition engine_url :: "inst \<Rightarrow> int \<Rightarrow> gostring" where
  "engine_url i port =
     (if machine_host i = [] then [] else ''http://'' @ machine_host i @ '':'' @ itoa (if port = 0 then 8000 else port))"

definition ssh_serve :: "'s ssh_world \<Rightarrow> deployment \<Rightarrow> inst \<Rightarrow> 's docker \<Rightarrow> deploy_run \<times> 's" where
  "ssh_serve w dep i d =
     (case pollHealth (sw_run w) (dep_engine_port dep) (sw_polls w) d of (us, q, d1) \<Rightarrow>
        (case q of
           None \<Rightarrow> ((us, Deploying), dk_host d1)
         | Some (Some lastErr) \<Rightarrow>
             (let reason = ''engine /health did not return 2xx before timeout: '' @ lastErr in
              case ssh_failed ''engine:waiting'' reason reason d1 of (r, s) \<Rightarrow> ((us @ fst r, snd r), s))
         | Some None \<Rightarrow>
             ((us @ [(progress_update DRunning ''engine:serving'' ''engine /health is 2xx'')
                 \<lparr>du_endpoint := engine_url i (dep_engine_port dep)\<rparr>], DeployOK), dk_host d1)))"

definition ordered_env :: "gostring list \<Rightarrow> (gostring \<rightharpoonup> gostring) \<Rightarrow> (gostring \<times> gostring) list" where
  "ordered_env order env = List.map_filter (\<lambda>k. map_option (Pair k) (env k)) order"

definition bindMounts :: "volume_mount list \<Rightarrow> (gostring \<times> gostring) list" where
  "bindMounts vms = map (\<lambda>m. (vm_host_path m, vm_mount_path m)) (filter (\<lambda>m. vm_host_path m \<noteq> [] \<and> vm_mount_path m \<noteq> []) vms)"

definition deploy_spec :: "'s ssh_world \<Rightarrow> deployment \<Rightarrow> run_spec" where
  "deploy_spec w dep =
     \<lparr>rn_name = ContainerName (dep_id dep), rn_image = dep_image dep, rn_model = dep_model dep, rn_engine_args = dep_engine_args dep,
      rn_env = ordered_env (sw_env_order w) (dep_env dep), rn_port = dep_engine_port dep, rn_mounts = bindMounts (dep_mounts dep)\<rparr>"

text \<open>The agent's failure is told and otherwise ignored.\<close>

definition ssh_agent :: "'s ssh_world \<Rightarrow> deployment \<Rightarrow> inst \<Rightarrow> gostring \<Rightarrow> 's docker \<Rightarrow> deploy_run \<times> 's" where
  "ssh_agent w dep i containerID d =
     (case docker_RunAgent (sw_run w) (sw_proc_env w) (sw_version w) (dep_id dep) (dep_image dep)
             (ordered_env (sw_env_order w) (dep_env dep)) d of
        (Inl err, d1) \<Rightarrow>
          say ((progress_update DConfiguring ''engine:waiting''
                  (''registration agent not started ('' @ err @ ''); engine unaffected''))\<lparr>du_container := containerID\<rparr>)
            (ssh_serve w dep i d1)
      | (Inr _, d1) \<Rightarrow> ssh_serve w dep i d1)"

definition ssh_start :: "'s ssh_world \<Rightarrow> deployment \<Rightarrow> inst \<Rightarrow> 's docker \<Rightarrow> deploy_run \<times> 's" where
  "ssh_start w dep i d =
     say (progress_update DConfiguring ''docker:pulling'' (''pulling '' @ dep_image dep))
       (case docker_Pull (sw_run w) (dep_image dep) d of
          (Some err, d1) \<Rightarrow> ssh_failed ''docker:pulling'' ''pull failed'' err d1
        | (None, d1) \<Rightarrow>
            say (progress_update DConfiguring ''docker:running'' (''starting '' @ ContainerName (dep_id dep)))
              (case docker_Run (sw_run w) (deploy_spec w dep) d1 of
                 (Inl err, d2) \<Rightarrow> ssh_failed ''docker:running'' ''docker run failed'' err d2
               | (Inr containerID, d2) \<Rightarrow>
                   say ((progress_update DConfiguring ''engine:waiting'' ''container started; waiting for engine /health'')
                          \<lparr>du_container := containerID\<rparr>)
                     (ssh_agent w dep i containerID d2)))"

definition ssh_settle :: "'s ssh_world \<Rightarrow> deployment \<Rightarrow> inst \<Rightarrow> container_state \<Rightarrow> 's docker \<Rightarrow> deploy_run \<times> 's" where
  "ssh_settle w dep i c d =
     (if container_Matches c (dep_image dep) (dep_model dep) then
        say ((progress_update DConfiguring ''engine:waiting'' ''container matches desired state; verifying health'')
               \<lparr>du_container := cs_id c\<rparr>)
          (ssh_serve w dep i d)
      else if cs_exists c then
        say ((progress_update DConfiguring ''docker:stopping'' ''stopping drifted container'')\<lparr>du_container := cs_id c\<rparr>)
          (case docker_Stop (sw_run w) (ContainerName (dep_id dep)) d of
             (Some err, d1) \<Rightarrow> ssh_failed ''docker:stopping'' ''stop failed'' err d1
           | (None, d1) \<Rightarrow>
               (case docker_Remove (sw_run w) (ContainerName (dep_id dep)) d1 of
                  (Some err, d2) \<Rightarrow> ssh_failed ''docker:removing'' ''remove failed'' err d2
                | (None, d2) \<Rightarrow> ssh_start w dep i d2))
      else ssh_start w dep i d)"

definition ssh_Deploy :: "'s ssh_world \<Rightarrow> deployment \<Rightarrow> inst \<Rightarrow> 's \<Rightarrow> deploy_run \<times> 's" where
  "ssh_Deploy w dep i s =
     (let d = \<lparr>dk_prefix = None, dk_host = s\<rparr>; target = (case in_ssh i of None \<Rightarrow> ([], [], 0) | Some t \<Rightarrow> (ssh_user t, ssh_host t, ssh_port t)) in
      if \<not> sw_has_key w then ssh_failed ''ssh:no-key'' ''no ssh key provided'' ''deploy requires an ssh key from the Service's key store'' d
      else say (progress_update DStarting ''ssh:connecting''
                  (''ssh '' @ fst target @ ''@'' @ fst (snd target) @ '':'' @ itoa (snd (snd target))))
        (case SSHDial w i of
           None \<Rightarrow> (([], Deploying), s)
         | Some (Some err) \<Rightarrow> ssh_failed ''ssh:connecting'' ''ssh connect failed'' err d
         | Some None \<Rightarrow>
             say (progress_update DStarting ''docker:ensuring'' ''verifying docker is installed (auto-installing if not)'')
               (case EnsureInstalled (sw_run w) d of
                  (Some err, d1) \<Rightarrow> ssh_failed ''docker:ensuring'' ''docker setup failed'' err d1
                | (None, d1) \<Rightarrow>
                    (case docker_Inspect (sw_run w) (sw_json w) (ContainerName (dep_id dep)) d1 of
                       (Inl err, d2) \<Rightarrow> ssh_failed ''docker:inspect'' ''inspect failed'' err d2
                     | (Inr c, d2) \<Rightarrow> ssh_settle w dep i c d2))))"

definition ssh_Destroy :: "'s ssh_world \<Rightarrow> deployment \<Rightarrow> inst \<Rightarrow> 's \<Rightarrow> deploy_run \<times> 's" where
  "ssh_Destroy w dep i s =
     (let d = \<lparr>dk_prefix = None, dk_host = s\<rparr>; name = ContainerName (dep_id dep) in
      if \<not> sw_has_key w then ssh_failed ''ssh:no-key'' ''no ssh key provided'' ''destroy requires an ssh key from the Service's key store'' d
      else say (progress_update DTerminating ''ssh:connecting'' ''connecting to instance to terminate container'')
        (case SSHDial w i of
           None \<Rightarrow> (([], Deploying), s)
         | Some (Some err) \<Rightarrow> ssh_failed ''ssh:connecting'' ''ssh connect failed'' err d
         | Some None \<Rightarrow>
             (case docker_StopAgent (sw_run w) (dep_id dep) d of (_, d1) \<Rightarrow>
                say (progress_update DTerminating ''docker:stopping'' (''stopping '' @ name))
                  (case docker_Stop (sw_run w) name d1 of
                     (Some err, d2) \<Rightarrow> ssh_failed ''docker:stopping'' ''stop failed'' err d2
                   | (None, d2) \<Rightarrow>
                       say (progress_update DTerminating ''docker:removing'' (''removing '' @ name))
                         (case docker_Remove (sw_run w) name d2 of
                            (Some err, d3) \<Rightarrow> ssh_failed ''docker:removing'' ''remove failed'' err d3
                          | (None, d3) \<Rightarrow>
                              (([progress_update DTerminated ''done'' ''container stopped and removed''], DeployOK), dk_host d3))))))"


subsection \<open>The contract of a deployer\<close>

lemma reported_say [simp, intro]:
  "\<not> isTerminalDeployState (du_state u) \<Longrightarrow> du_endpoint u = [] \<Longrightarrow> well_reported (fst k) \<Longrightarrow> well_reported (fst (say u k))"
  by (simp add: say_def well_reported_emit)

lemma reported_failed [simp, intro]: "well_reported (fst (ssh_failed phase msg err d))"
  by (simp add: ssh_failed_def well_reported_def failure_update_def progress_update_def)

lemma progress_quiet [simp]:
  "\<not> isTerminalDeployState (du_state (progress_update DConfiguring p m))" "\<not> isTerminalDeployState (du_state (progress_update DStarting p m))"
  "du_endpoint (progress_update s p m) = []"
  by (simp_all add: progress_update_def isTerminalDeployState_def)

lemma progress_container [simp]:
  "du_state ((progress_update s p m)\<lparr>du_container := c\<rparr>) = s" "du_endpoint ((progress_update s p m)\<lparr>du_container := c\<rparr>) = []"
  "\<not> isTerminalDeployState DConfiguring"
  by (simp_all add: progress_update_def isTerminalDeployState_def)

lemma poll_hints: "pollHealth run port es d = (us, q, d') \<Longrightarrow> u \<in> set us \<Longrightarrow> \<exists>r. u = health_hint r"
  by (induction run port es d arbitrary: us q d' rule: pollHealth.induct)
    (auto split: prod.splits if_splits poll_event.splits)

lemma serve_reported: "machine_host i \<noteq> [] \<Longrightarrow> well_reported (fst (ssh_serve w dep i d))"
proof -
  assume host: "machine_host i \<noteq> []"
  obtain us q d1 where p: "pollHealth (sw_run w) (dep_engine_port dep) (sw_polls w) d = (us, q, d1)" by (rule prod_cases3)
  have quiet: "\<forall>u \<in> set us. \<not> isTerminalDeployState (du_state u) \<and> du_endpoint u = []"
  proof
    fix u assume "u \<in> set us"
    with poll_hints [OF p] obtain r where "u = health_hint r" by blast
    then show "\<not> isTerminalDeployState (du_state u) \<and> du_endpoint u = []" by (simp add: health_hint_def)
  qed
  have "\<forall>u \<in> set (butlast us). \<not> isTerminalDeployState (du_state u) \<and> du_endpoint u = []"
    using quiet in_set_butlastD by metis
  then show ?thesis using quiet host p
    by (auto simp: ssh_serve_def well_reported_def ssh_failed_def failure_update_def progress_update_def engine_url_def Let_def
        split: option.splits)
qed

lemma start_reported:
  assumes "machine_host i \<noteq> []"
  shows "well_reported (fst (ssh_start w dep i d))"
proof -
  have "well_reported (fst (ssh_agent w dep i c d))" for c d
    by (simp add: ssh_agent_def serve_reported [OF assms] split: prod.split sum.split)
  then show ?thesis unfolding ssh_start_def
    by (simp split: prod.split sum.split option.split)
qed

lemma settle_reported:
  assumes "machine_host i \<noteq> []"
  shows "well_reported (fst (ssh_settle w dep i c d))"
  unfolding ssh_settle_def by (simp add: start_reported [OF assms] serve_reported [OF assms] split: prod.split option.split)

lemma ssh_Deploy_reported: "well_reported (fst (ssh_Deploy w dep i s))"
proof (cases "SSHDial w i = Some None")
  case True
  then have host: "machine_host i \<noteq> []" by (auto simp: SSHDial_def split: if_splits)
  show ?thesis
    unfolding ssh_Deploy_def Let_def using True
    by (simp add: settle_reported [OF host] split: prod.split option.split sum.split)
next
  case False
  have d: "well_reported ([], Deploying)" by (simp add: well_reported_def)
  from False show ?thesis
    unfolding ssh_Deploy_def Let_def using d by (auto split: option.split)
qed

text \<open>\<^verbatim>\<open>Deploy\<close> as the control plane calls it: a missing record is an error without an update.\<close>

definition ssh_deployer :: "'s ssh_world \<times> 's \<Rightarrow> deployment option \<Rightarrow> inst option \<Rightarrow> deploy_run" where
  "ssh_deployer w dep i =
     (case (dep, i) of
        (Some dep, Some i) \<Rightarrow> fst (ssh_Deploy (fst w) dep i (snd w))
      | _ \<Rightarrow>
          if \<not> sw_has_key (fst w) then
            fst (ssh_failed ''ssh:no-key'' ''no ssh key provided'' ''deploy requires an ssh key from the Service's key store''
              \<lparr>dk_prefix = None, dk_host = snd w\<rparr>)
          else ([], DeployErr ''Deploy: deployment and instance are required''))"

interpretation ssh_executor: image_deployer ssh_deployer "\<lambda>_. True"
  by unfold_locales (auto simp: ssh_deployer_def ssh_Deploy_reported)

subsection \<open>What docker reads\<close>

text \<open>
  A shell's reading of a command line: as for the quoting alone, and an unquoted character that has no
  meaning to the shell stands for itself.
\<close>

definition sh_plain :: "char \<Rightarrow> bool" where
  "sh_plain c \<longleftrightarrow> c \<in> set ''ABCDEFGHIJKLMNOPQRSTUVWXYZabcdefghijklmnopqrstuvwxyz0123456789-_./:=,''"

fun sh_read :: "bool \<Rightarrow> gostring option \<Rightarrow> gostring \<Rightarrow> gostring list option" where
  "sh_read True cur [] = None"
| "sh_read False cur [] = Some (sh_push cur [])"
| "sh_read True cur (c # cs) = (if c = QUOTE then sh_read False cur cs else sh_read True (Some (sh_cur cur @ [c])) cs)"
| "sh_read False cur (c # cs) =
     (if c = QUOTE then sh_read True (Some (sh_cur cur)) cs
      else if c = BACKSLASH then (case cs of [] \<Rightarrow> None | x # xs \<Rightarrow> sh_read False (Some (sh_cur cur @ [x])) xs)
      else if c = BLANK then map_option (sh_push cur) (sh_read False None cs)
      else if sh_plain c then sh_read False (Some (sh_cur cur @ [c])) cs
      else None)"

lemma sh_read_inside:
  "sh_read True (Some a) (replace_char QUOTE [QUOTE, BACKSLASH, QUOTE, QUOTE] s @ QUOTE # rest) = sh_read False (Some (a @ s)) rest"
  by (induction s arbitrary: a) (auto simp: sh_cur_def sh_plain_def)

lemma sh_read_escape: "sh_read False cur (shellEscape s @ rest) = sh_read False (Some (sh_cur cur @ s)) rest"
  using sh_read_inside [of "sh_cur cur" s rest] by (cases s) (auto simp: shellEscape_def sh_cur_def)

lemma sh_read_plain: "\<forall>c \<in> set t. sh_plain c \<Longrightarrow> t \<noteq> [] \<or> cur \<noteq> None \<Longrightarrow> sh_read False cur (t @ rest) = sh_read False (Some (sh_cur cur @ t)) rest"
proof (induction t arbitrary: cur)
  case (Cons c t)
  have "c \<noteq> QUOTE" "c \<noteq> BACKSLASH" "c \<noteq> BLANK" "sh_plain c" using Cons.prems by (auto simp: sh_plain_def)
  then show ?case using Cons.IH [of "Some (sh_cur cur @ [c])"] Cons.prems by (simp add: sh_cur_def)
qed (auto simp: sh_cur_def)

text \<open>A piece of a command line and the words it stands for.\<close>

definition reads_as :: "gostring \<Rightarrow> gostring list \<Rightarrow> bool" where
  "reads_as t ws \<longleftrightarrow>
     sh_read False None t = Some ws \<and> (\<forall>rest. sh_read False None (t @ BLANK # rest) = map_option ((@) ws) (sh_read False None rest))"

lemma reads_word:
  assumes "\<And>rest. sh_read False None (t @ rest) = sh_read False (Some w) rest"
  shows "reads_as t [w]"
proof -
  have "map_option (sh_push (Some w)) x = map_option ((@) [w]) x" for x by (cases x) (simp_all add: sh_push_def)
  then show ?thesis using assms [of "[]"] assms [of "BLANK # _"] by (simp add: reads_as_def sh_push_def)
qed

lemma reads_escape [intro, simp]: "reads_as (shellEscape s) [s]"
  by (rule reads_word) (simp add: sh_read_escape sh_cur_def)

lemma reads_plain: "\<forall>c \<in> set t. sh_plain c \<Longrightarrow> t \<noteq> [] \<Longrightarrow> reads_as t [t]"
  by (rule reads_word) (simp add: sh_read_plain sh_cur_def)

lemma reads_append:
  assumes "reads_as t ws" "reads_as t' ws'"
  shows "reads_as (t @ BLANK # t') (ws @ ws')"
proof -
  have "map_option ((@) ws) (map_option ((@) ws') x) = map_option ((@) (ws @ ws')) x" for x by (cases x) simp_all
  then show ?thesis using assms by (simp add: reads_as_def)
qed

lemma reads_join: "list_all2 reads_as ts wss \<Longrightarrow> ts \<noteq> [] \<Longrightarrow> reads_as (join_with '' '' ts) (concat wss)"
proof (induction ts arbitrary: wss rule: induct_list012)
  case (3 x y zs)
  then obtain ws wss' where "wss = ws # wss'" "reads_as x ws" "list_all2 reads_as (y # zs) wss'" by (cases wss) auto
  with 3(2) [of wss'] show ?case using reads_append by simp
qed (auto simp: list_all2_Cons1)

text \<open>The words the two \<^verbatim>\<open>docker run\<close> lines are meant to carry.\<close>

definition env_words :: "(gostring \<times> gostring) list \<Rightarrow> gostring list" where
  "env_words env = concat (map (\<lambda>(k, v). [''-e'', k @ ''='' @ v]) env)"

definition run_words :: "run_spec \<Rightarrow> gostring list" where
  "run_words sp =
     [''docker'', ''run'', ''-d'', ''--name'', rn_name sp, ''--gpus'', ''all'', ''--restart'', ''unless-stopped'',
      ''--label'', ''iplane.deployment='' @ rn_name sp]
     @ (if rn_model sp \<noteq> [] then [''--label'', ''iplane.model='' @ rn_model sp] else [])
     @ (if rn_port sp > 0 then [''-p'', itoa (rn_port sp) @ '':'' @ itoa (rn_port sp)] else [])
     @ env_words (rn_env sp)
     @ concat (map (\<lambda>(hostPath, mountPath). if hostPath = [] \<or> mountPath = [] then [] else [''-v'', hostPath @ '':'' @ mountPath]) (rn_mounts sp))
     @ [rn_image sp]
     @ (if rn_model sp \<noteq> [] then [''--model'', rn_model sp] else [])
     @ rn_engine_args sp"

definition agent_words :: "gostring \<Rightarrow> gostring \<Rightarrow> (gostring \<times> gostring) list \<Rightarrow> gostring \<Rightarrow> gostring list" where
  "agent_words ident img env script =
     [''docker'', ''run'', ''-d'', ''--name'', ''iplane-agent-'' @ ident, ''--network'', ''container:iplane-deployment-'' @ ident,
      ''--restart'', ''unless-stopped'', ''--label'', ''iplane.deployment='' @ ident, ''--label'', ''iplane.role=agent'',
      ''--entrypoint'', ''/bin/sh'']
     @ env_words env @ [img, ''-c'', script]"

text \<open>A list of pieces and the words of all of them.\<close>

definition pieces_read :: "gostring list \<Rightarrow> gostring list \<Rightarrow> bool" where
  "pieces_read ts ws \<longleftrightarrow> (\<exists>wss. list_all2 reads_as ts wss \<and> ws = concat wss)"

lemma pieces_nil [simp, intro]: "pieces_read [] []"
  by (auto simp: pieces_read_def)

lemma pieces_cons: "reads_as t ws \<Longrightarrow> pieces_read ts ws' \<Longrightarrow> pieces_read (t # ts) (ws @ ws')"
  unfolding pieces_read_def by (metis concat.simps(2) list_all2_Cons)

lemma pieces_word: "reads_as t [w] \<Longrightarrow> pieces_read ts ws \<Longrightarrow> pieces_read (t # ts) (w # ws)"
  using pieces_cons [of t "[w]" ts ws] by simp

lemma pieces_append: "pieces_read ts ws \<Longrightarrow> pieces_read ts' ws' \<Longrightarrow> pieces_read (ts @ ts') (ws @ ws')"
  unfolding pieces_read_def by (metis concat_append list_all2_appendI)

lemma pieces_join: "pieces_read ts ws \<Longrightarrow> ts \<noteq> [] \<Longrightarrow> sh_read False None (join_with '' '' ts) = Some ws"
  using reads_join by (auto simp: pieces_read_def reads_as_def)

lemma pieces_escape: "pieces_read (map shellEscape ws) ws"
  by (induction ws) (auto intro: pieces_word)

lemma pieces_concat: "(\<And>x. x \<in> set xs \<Longrightarrow> pieces_read (f x) (g x)) \<Longrightarrow> pieces_read (concat (map f xs)) (concat (map g xs))"
  by (induction xs) (auto intro: pieces_append)

lemma reads_option:
  "reads_as ''--name'' [''--name'']" "reads_as ''--restart'' [''--restart'']" "reads_as ''unless-stopped'' [''unless-stopped'']"
  "reads_as ''--label'' [''--label'']" "reads_as ''-p'' [''-p'']" "reads_as ''-e'' [''-e'']" "reads_as ''-v'' [''-v'']"
  "reads_as ''--model'' [''--model'']" "reads_as ''--network'' [''--network'']" "reads_as ''--entrypoint'' [''--entrypoint'']"
  "reads_as ''/bin/sh'' [''/bin/sh'']" "reads_as ''-c'' [''-c'']"
  by (rule reads_plain; simp add: sh_plain_def)+

lemma reads_gpus: "reads_as ''--gpus all'' [''--gpus'', ''all'']"
  using reads_append [OF reads_plain reads_plain, of "''--gpus''" "''all''"] by (simp add: sh_plain_def)

lemma reads_docker: "reads_as ''docker run -d'' [''docker'', ''run'', ''-d'']"
  using reads_append [OF reads_plain reads_append [OF reads_plain reads_plain], of "''docker''" "''run''" "''-d''"]
  by (simp add: sh_plain_def)

lemma reads_sudo: "reads_as ''sudo docker run -d'' [''sudo'', ''docker'', ''run'', ''-d'']"
  using reads_append [OF reads_plain reads_docker, of "''sudo''"] by (simp add: sh_plain_def)

lemma sh_plain_digit:
  assumes "is_digit c"
  shows "sh_plain c"
proof -
  have "48 \<le> (of_char c :: nat)" "(of_char c :: nat) \<le> 57" using assms by (simp_all add: is_digit_def less_eq_char_def)
  then have "(of_char c :: nat) \<in> set [48..<58]" by (simp only: set_upt atLeastLessThan_iff) simp
  then have "char_of (of_char c :: nat) \<in> set (map char_of [48 :: nat..<58])" by (simp only: set_map) (rule imageI)
  moreover have "map char_of [48 :: nat..<58] = ''0123456789''" by code_simp
  ultimately show ?thesis by (auto simp: sh_plain_def)
qed

lemma reads_port: "0 < port \<Longrightarrow> reads_as (itoa port @ '':'' @ itoa port) [itoa port @ '':'' @ itoa port]"
  using dec_digits [of "nat port"]
  by (intro reads_plain) (auto simp: itoa_def list_all_iff sh_plain_def [of "CHR '':''"] intro: sh_plain_digit)

lemma env_pieces: "pieces_read (env_args env) (env_words env)"
  unfolding env_args_def env_words_def by (rule pieces_concat) (auto intro!: pieces_word reads_option)

lemma run_pieces:
  assumes "reads_as (bin @ '' run -d'') ws"
  shows "pieces_read (run_args bin sp) (ws @ drop 3 (run_words sp))"
proof -
  have mounts: "pieces_read
      (concat (map (\<lambda>(h, m). if h = [] \<or> m = [] then [] else [''-v'', shellEscape (h @ '':'' @ m)]) (rn_mounts sp)))
      (concat (map (\<lambda>(h, m). if h = [] \<or> m = [] then [] else [''-v'', h @ '':'' @ m]) (rn_mounts sp)))"
    by (rule pieces_concat) (auto intro!: pieces_word reads_option)
  have label: "pieces_read (if rn_model sp \<noteq> [] then [''--label'', shellEscape (''iplane.model='' @ rn_model sp)] else [])
      (if rn_model sp \<noteq> [] then [''--label'', ''iplane.model='' @ rn_model sp] else [])"
    by (auto intro!: pieces_word reads_option)
  have port: "pieces_read (if rn_port sp > 0 then [''-p'', itoa (rn_port sp) @ '':'' @ itoa (rn_port sp)] else [])
      (if rn_port sp > 0 then [''-p'', itoa (rn_port sp) @ '':'' @ itoa (rn_port sp)] else [])"
    by (auto intro!: pieces_word reads_option reads_port simp del: append.simps)
  have model: "pieces_read (if rn_model sp \<noteq> [] then [''--model'', shellEscape (rn_model sp)] else [])
      (if rn_model sp \<noteq> [] then [''--model'', rn_model sp] else [])"
    by (auto intro!: pieces_word reads_option)
  have img: "pieces_read [shellEscape (rn_image sp)] [rn_image sp]" by (auto intro!: pieces_word)
  have head: "pieces_read
      [bin @ '' run -d'', ''--name'', shellEscape (rn_name sp), ''--gpus all'', ''--restart'', ''unless-stopped'',
       ''--label'', shellEscape (''iplane.deployment='' @ rn_name sp)]
      (ws @ ''--name'' # rn_name sp # [''--gpus'', ''all''] @ [''--restart'', ''unless-stopped'', ''--label'', ''iplane.deployment='' @ rn_name sp])"
    by (intro pieces_cons [OF assms] pieces_cons [OF reads_gpus] pieces_word pieces_nil reads_option reads_escape)
  have "pieces_read (run_args bin sp)
      ((ws @ ''--name'' # rn_name sp # [''--gpus'', ''all''] @ [''--restart'', ''unless-stopped'', ''--label'', ''iplane.deployment='' @ rn_name sp])
       @ (if rn_model sp \<noteq> [] then [''--label'', ''iplane.model='' @ rn_model sp] else [])
       @ (if rn_port sp > 0 then [''-p'', itoa (rn_port sp) @ '':'' @ itoa (rn_port sp)] else [])
       @ env_words (rn_env sp)
       @ concat (map (\<lambda>(h, m). if h = [] \<or> m = [] then [] else [''-v'', h @ '':'' @ m]) (rn_mounts sp))
       @ [rn_image sp]
       @ (if rn_model sp \<noteq> [] then [''--model'', rn_model sp] else [])
       @ rn_engine_args sp)"
    unfolding run_args_def by (intro pieces_append head label port env_pieces mounts img model pieces_escape)
  then show ?thesis by (simp add: run_words_def)
qed

lemma agent_pieces:
  assumes "reads_as (bin @ '' run -d'') ws"
  shows "pieces_read (agent_run_args bin ident img env script) (ws @ drop 3 (agent_words ident img env script))"
proof -
  have "pieces_read (agent_run_args bin ident img env script)
      ((ws @ [''--name'', AgentContainerName ident, ''--network'', ''container:'' @ ContainerName ident,
          ''--restart'', ''unless-stopped'', ''--label'', ''iplane.deployment='' @ ident, ''--label'', ''iplane.role=agent'',
          ''--entrypoint'', ''/bin/sh'']) @ env_words env @ [img, ''-c'', script])"
    unfolding agent_run_args_def
    by (intro pieces_append env_pieces pieces_cons [OF assms] pieces_word pieces_nil reads_option reads_escape)
  then show ?thesis by (simp add: agent_words_def AgentContainerName_def ContainerName_def)
qed

text \<open>
  C35: A POSIX shell on the machine reads the two \<^verbatim>\<open>docker run\<close> lines, with and without elevation, as exactly the
  words meant: whatever the names, the image, the model, the environment, the mounts, the engine's
  arguments and the agent's script contain, each stays one word and none adds a word.
\<close>

theorem docker_run_words:
  "sh_read False None (join_with '' '' (run_args ''docker'' sp)) = Some (run_words sp)
   \<and> sh_read False None (join_with '' '' (run_args ''sudo docker'' sp)) = Some (''sudo'' # run_words sp)
   \<and> sh_read False None (join_with '' '' (agent_run_args ''docker'' ident img env script)) = Some (agent_words ident img env script)
   \<and> sh_read False None (join_with '' '' (agent_run_args ''sudo docker'' ident img env script)) = Some (''sudo'' # agent_words ident img env script)"
proof -
  have "run_args bin sp \<noteq> []" "agent_run_args bin ident img env script \<noteq> []" for bin by (simp_all add: run_args_def agent_run_args_def)
  moreover have "run_words sp = [''docker'', ''run'', ''-d''] @ drop 3 (run_words sp)"
    "agent_words ident img env script = [''docker'', ''run'', ''-d''] @ drop 3 (agent_words ident img env script)"
    by (simp_all add: run_words_def agent_words_def)
  moreover have "reads_as (''docker'' @ '' run -d'') [''docker'', ''run'', ''-d'']"
    "reads_as (''sudo docker'' @ '' run -d'') [''sudo'', ''docker'', ''run'', ''-d'']"
    using reads_docker reads_sudo by simp_all
  note this [THEN run_pieces, THEN pieces_join] this [THEN agent_pieces, THEN pieces_join]
  ultimately show ?thesis by simp
qed

subsection \<open>What a deploy sends to the machine\<close>

text \<open>A property of the machine that the commands of a set keep.\<close>

definition kept_by :: "'s host \<Rightarrow> (gostring \<Rightarrow> bool) \<Rightarrow> ('s \<Rightarrow> bool) \<Rightarrow> bool" where
  "kept_by run Q I \<longleftrightarrow> (\<forall>cmd s. Q cmd \<longrightarrow> I s \<longrightarrow> I (snd (run cmd s)))"

definition dock_ok :: "('s \<Rightarrow> bool) \<Rightarrow> 's docker \<Rightarrow> bool" where
  "dock_ok I d \<longleftrightarrow> I (dk_host d) \<and> dk_prefix d \<in> {None, Some [], Some ''sudo ''}"

definition elevated :: "(gostring \<Rightarrow> bool) \<Rightarrow> gostring \<Rightarrow> bool" where
  "elevated Q cmd \<longleftrightarrow> Q (''docker'' @ cmd) \<and> Q (''sudo docker'' @ cmd)"

text \<open>What any docker command needs.\<close>

definition probing :: "(gostring \<Rightarrow> bool) \<Rightarrow> bool" where
  "probing Q \<longleftrightarrow> Q dockerInfo \<and> Q sudoDockerInfo"

lemma kept_run: "kept_by run Q I \<Longrightarrow> Q cmd \<Longrightarrow> I s \<Longrightarrow> run cmd s = (r, s') \<Longrightarrow> I s'"
  unfolding kept_by_def by (metis snd_conv)

lemma kept_host_run:
  "kept_by run Q I \<Longrightarrow> Q cmd \<Longrightarrow> dock_ok I d \<Longrightarrow> host_run run cmd d = (r, d') \<Longrightarrow> dock_ok I d' \<and> dk_prefix d' = dk_prefix d"
  unfolding host_run_def dock_ok_def by (auto split: prod.splits dest: kept_run)

lemma kept_resolve:
  assumes "kept_by run Q I" "probing Q" "dock_ok I d" "resolveElevation run d = (r, d')"
  shows "dock_ok I d' \<and> (r = None \<longrightarrow> dk_prefix d' \<in> {Some [], Some ''sudo ''})"
proof -
  obtain r1 d1 where 1: "host_run run dockerInfo d = (r1, d1)" by (rule prod.exhaust)
  obtain r2 d2 where 2: "host_run run sudoDockerInfo d1 = (r2, d2)" by (rule prod.exhaust)
  have ok1: "dock_ok I d1" using kept_host_run [OF assms(1) _ assms(3) 1] assms(2) by (simp add: probing_def)
  have ok2: "dock_ok I d2" using kept_host_run [OF assms(1) _ ok1 2] assms(2) by (simp add: probing_def)
  show ?thesis using assms(3,4) ok1 ok2 1 2
    by (auto simp: resolveElevation_def dock_ok_def split: if_splits)
qed

lemma kept_command:
  assumes "kept_by run Q I" "probing Q" "elevated Q ('' '' @ cmd)" "dock_ok I d" "docker_command run cmd d = (r, d')"
  shows "dock_ok I d'"
proof -
  obtain e d1 where 1: "resolveElevation run d = (e, d1)" by (rule prod.exhaust)
  note ok = kept_resolve [OF assms(1,2,4) 1]
  show ?thesis
  proof (cases e)
    case None
    then have q: "Q (the (dk_prefix d1) @ ''docker '' @ cmd)" using ok assms(3) by (auto simp: elevated_def)
    have "host_run run (the (dk_prefix d1) @ ''docker '' @ cmd) d1 = (r, d')" using assms(5) 1 None by (simp add: docker_command_def)
    with ok show ?thesis using kept_host_run [OF assms(1) q] by blast
  next
    case (Some err)
    with ok assms(5) 1 show ?thesis by (simp add: docker_command_def)
  qed
qed

lemma kept_ensure:
  assumes "kept_by run Q I" "Q checkDocker" "Q installDocker" "dock_ok I d" "EnsureInstalled run d = (r, d')"
  shows "dock_ok I d'"
proof -
  obtain r1 d1 where 1: "host_run run checkDocker d = (r1, d1)" by (rule prod.exhaust)
  obtain r2 d2 where 2: "host_run run installDocker d1 = (r2, d2)" by (rule prod.exhaust)
  have ok1: "dock_ok I d1" using kept_host_run [OF assms(1,2,4) 1] by simp
  have ok2: "dock_ok I d2" using kept_host_run [OF assms(1,3) ok1 2] by simp
  have "d' \<in> {d1, d2}" using assms(5) 1 2 by (auto simp: EnsureInstalled_def split: run_result.splits if_splits)
  with ok1 ok2 show ?thesis by auto
qed

lemma kept_inspect:
  "kept_by run Q I \<Longrightarrow> probing Q \<Longrightarrow> elevated Q ('' inspect '' @ shellEscape name) \<Longrightarrow> dock_ok I d
    \<Longrightarrow> docker_Inspect run json name d = (r, d') \<Longrightarrow> dock_ok I d'"
  using kept_command [of run Q I "''inspect '' @ shellEscape name" d] unfolding docker_Inspect_def
  by (auto split: prod.splits run_result.splits if_splits)

lemma kept_pull:
  "kept_by run Q I \<Longrightarrow> probing Q \<Longrightarrow> elevated Q ('' pull '' @ shellEscape img) \<Longrightarrow> dock_ok I d
    \<Longrightarrow> docker_Pull run img d = (r, d') \<Longrightarrow> dock_ok I d'"
  using kept_command [of run Q I "''pull '' @ shellEscape img" d] unfolding docker_Pull_def
  by (auto split: prod.splits run_result.splits if_splits)

lemma kept_tidy:
  "kept_by run Q I \<Longrightarrow> probing Q \<Longrightarrow> elevated Q ('' '' @ verb @ '' '' @ shellEscape name) \<Longrightarrow> dock_ok I d
    \<Longrightarrow> docker_tidy verb run name d = (r, d') \<Longrightarrow> dock_ok I d'"
  using kept_command [of run Q I "verb @ '' '' @ shellEscape name" d] unfolding docker_tidy_def
  by (auto split: prod.splits run_result.splits if_splits)

lemma kept_health:
  "kept_by run Q I \<Longrightarrow> Q (health_command port) \<Longrightarrow> dock_ok I d \<Longrightarrow> docker_Health run port d = (r, d') \<Longrightarrow> dock_ok I d'"
  unfolding docker_Health_def by (auto split: prod.splits run_result.splits if_splits dest!: kept_host_run)

lemma kept_poll:
  "kept_by run Q I \<Longrightarrow> Q (health_command port) \<Longrightarrow> dock_ok I d \<Longrightarrow> pollHealth run port es d = (us, q, d') \<Longrightarrow> dock_ok I d'"
proof (induction es arbitrary: us q d d')
  case Nil
  then show ?case using kept_health [OF Nil(1,2,3)] by (auto split: prod.splits if_splits)
next
  case (Cons e es)
  obtain r d1 where h: "docker_Health run port d = (r, d1)" by (rule prod.exhaust)
  note ok = kept_health [OF Cons.prems(1,2,3) h]
  show ?case using Cons.prems(4) ok Cons.IH [OF Cons.prems(1,2) ok]
    by (auto simp: h split: prod.splits if_splits poll_event.splits)
qed

lemma kept_launch:
  assumes "kept_by run Q I" "probing Q" "dock_ok I d" "resolveElevation run d = (None, d1)"
    "\<And>p. p \<in> {[], ''sudo ''} \<Longrightarrow> Q (line (p @ ''docker''))" "host_run run (line (the (dk_prefix d1) @ ''docker'')) d1 = (r, d2)"
  shows "dock_ok I d2"
proof -
  have ok: "dock_ok I d1" "dk_prefix d1 \<in> {Some [], Some ''sudo ''}" using kept_resolve [OF assms(1-4)] by simp_all
  then have "the (dk_prefix d1) \<in> {[], ''sudo ''}" by auto
  with kept_host_run [OF assms(1) assms(5) ok(1) assms(6)] show ?thesis by blast
qed

lemma kept_Run:
  assumes "kept_by run Q I" "probing Q" "dock_ok I d" "\<And>p. p \<in> {[], ''sudo ''} \<Longrightarrow> Q (join_with '' '' (run_args (p @ ''docker'') sp))"
    "docker_Run run sp d = (r, d')"
  shows "dock_ok I d'"
proof -
  obtain e d1 where 1: "resolveElevation run d = (e, d1)" by (rule prod.exhaust)
  note ok = kept_resolve [OF assms(1-3) 1]
  have "dock_ok I d2" if "e = None" "host_run run (join_with '' '' (run_args (the (dk_prefix d1) @ ''docker'') sp)) d1 = (r2, d2)" for r2 d2
    using kept_launch [where line = "\<lambda>b. join_with '' '' (run_args b sp)", OF assms(1-3) _ assms(4) that(2)] 1 that(1) by blast
  then show ?thesis using assms(3,5) 1 ok
    by (auto simp: docker_Run_def split: if_splits option.splits prod.splits run_result.splits)
qed

lemma kept_RunAgent:
  assumes "kept_by run Q I" "probing Q" "dock_ok I d"
    "\<And>p script. p \<in> {[], ''sudo ''} \<Longrightarrow> Q (join_with '' '' (agent_run_args (p @ ''docker'') ident img env script))"
    "docker_RunAgent run procEnv version ident img env d = (r, d')"
  shows "dock_ok I d'"
proof -
  obtain e d1 where 1: "resolveElevation run d = (e, d1)" by (rule prod.exhaust)
  note ok = kept_resolve [OF assms(1-3) 1]
  have "dock_ok I d2" if "e = None" "host_run run (join_with '' '' (agent_run_args (the (dk_prefix d1) @ ''docker'') ident img env script)) d1 = (r2, d2)"
    for r2 d2 script
    using kept_launch [where line = "\<lambda>b. join_with '' '' (agent_run_args b ident img env script)", OF assms(1-3) _ assms(4) that(2)]
      1 that(1) by blast
  then show ?thesis using assms(3,5) 1 ok
    by (auto simp: docker_RunAgent_def split: if_splits option.splits prod.splits run_result.splits)
qed

text \<open>The commands a deploy may send, by what it is for.\<close>

definition only_checks :: "(gostring \<Rightarrow> bool) \<Rightarrow> deployment \<Rightarrow> bool" where
  "only_checks Q dep \<longleftrightarrow>
     probing Q \<and> Q checkDocker \<and> Q (health_command (dep_engine_port dep)) \<and> elevated Q ('' inspect '' @ shellEscape (ContainerName (dep_id dep)))"

definition replaces_with :: "(gostring \<Rightarrow> bool) \<Rightarrow> 's ssh_world \<Rightarrow> deployment \<Rightarrow> bool" where
  "replaces_with Q w dep \<longleftrightarrow>
     Q installDocker \<and> elevated Q ('' pull '' @ shellEscape (dep_image dep))
     \<and> elevated Q ('' stop '' @ shellEscape (ContainerName (dep_id dep))) \<and> elevated Q ('' rm '' @ shellEscape (ContainerName (dep_id dep)))
     \<and> (\<forall>p \<in> {[], ''sudo ''}. Q (join_with '' '' (run_args (p @ ''docker'') (deploy_spec w dep)))
        \<and> (\<forall>script. Q (join_with '' '' (agent_run_args (p @ ''docker'') (dep_id dep) (dep_image dep)
              (ordered_env (sw_env_order w) (dep_env dep)) script))))"

lemma snd_say [simp]: "snd (say u k) = snd k"
  by (simp add: say_def)

lemma snd_failed [simp]: "snd (ssh_failed p m e d) = dk_host d"
  by (simp add: ssh_failed_def)

lemma dock_ok_host: "dock_ok I d \<Longrightarrow> I (dk_host d)"
  by (simp add: dock_ok_def)

lemma kept_serve:
  assumes "kept_by (sw_run w) Q I" "Q (health_command (dep_engine_port dep))" "dock_ok I d"
  shows "I (snd (ssh_serve w dep i d))"
proof -
  obtain us q d1 where p: "pollHealth (sw_run w) (dep_engine_port dep) (sw_polls w) d = (us, q, d1)" by (rule prod_cases3)
  have "snd (ssh_serve w dep i d) = dk_host d1"
    by (simp add: ssh_serve_def p ssh_failed_def Let_def split: option.split)
  then show ?thesis using dock_ok_host [OF kept_poll [OF assms p]] by simp
qed

lemma kept_agent:
  assumes "kept_by (sw_run w) Q I" "only_checks Q dep" "replaces_with Q w dep" "dock_ok I d"
  shows "I (snd (ssh_agent w dep i c d))"
proof -
  obtain r d1 where a: "docker_RunAgent (sw_run w) (sw_proc_env w) (sw_version w) (dep_id dep) (dep_image dep)
      (ordered_env (sw_env_order w) (dep_env dep)) d = (r, d1)" by (rule prod.exhaust)
  have "dock_ok I d1"
    by (rule kept_RunAgent [OF assms(1) _ assms(4) _ a]) (use assms(2,3) in \<open>auto simp: only_checks_def replaces_with_def\<close>)
  from kept_serve [OF assms(1) _ this] assms(2) show ?thesis
    by (simp add: ssh_agent_def a only_checks_def split: sum.split)
qed

lemma kept_start:
  assumes "kept_by (sw_run w) Q I" "only_checks Q dep" "replaces_with Q w dep" "dock_ok I d"
  shows "I (snd (ssh_start w dep i d))"
proof -
  obtain r1 d1 where 1: "docker_Pull (sw_run w) (dep_image dep) d = (r1, d1)" by (rule prod.exhaust)
  obtain r2 d2 where 2: "docker_Run (sw_run w) (deploy_spec w dep) d1 = (r2, d2)" by (rule prod.exhaust)
  have pr: "probing Q" using assms(2) by (simp add: only_checks_def)
  have ok1: "dock_ok I d1" by (rule kept_pull [OF assms(1) pr _ assms(4) 1]) (use assms(3) in \<open>simp add: replaces_with_def\<close>)
  have ok2: "dock_ok I d2" by (rule kept_Run [OF assms(1) pr ok1 _ 2]) (use assms(3) in \<open>auto simp: replaces_with_def\<close>)
  show ?thesis using dock_ok_host [OF ok1] dock_ok_host [OF ok2] kept_agent [OF assms(1-3) ok2]
    by (simp add: ssh_start_def 1 2 split: option.split sum.split)
qed

lemma kept_settle:
  assumes "kept_by (sw_run w) Q I" "only_checks Q dep" "container_Matches c (dep_image dep) (dep_model dep) \<or> replaces_with Q w dep" "dock_ok I d"
  shows "I (snd (ssh_settle w dep i c d))"
proof (cases "container_Matches c (dep_image dep) (dep_model dep)")
  case True
  then show ?thesis using kept_serve [OF assms(1) _ assms(4)] assms(2) by (simp add: ssh_settle_def only_checks_def)
next
  case False
  with assms(3) have r: "replaces_with Q w dep" by simp
  obtain r1 d1 where 1: "docker_Stop (sw_run w) (ContainerName (dep_id dep)) d = (r1, d1)" by (rule prod.exhaust)
  obtain r2 d2 where 2: "docker_Remove (sw_run w) (ContainerName (dep_id dep)) d1 = (r2, d2)" by (rule prod.exhaust)
  have pr: "probing Q" using assms(2) by (simp add: only_checks_def)
  have ok1: "dock_ok I d1" by (rule kept_tidy [OF assms(1) pr _ assms(4) 1 [unfolded docker_Stop_def]]) (use r in \<open>simp add: replaces_with_def\<close>)
  have ok2: "dock_ok I d2" by (rule kept_tidy [OF assms(1) pr _ ok1 2 [unfolded docker_Remove_def]]) (use r in \<open>simp add: replaces_with_def\<close>)
  show ?thesis using False dock_ok_host [OF ok1] dock_ok_host [OF ok2] kept_start [OF assms(1,2) r ok2] kept_start [OF assms(1,2) r assms(4)]
    by (simp add: ssh_settle_def 1 2 split: option.split)
qed

lemma kept_deploy:
  assumes "kept_by (sw_run w) Q I" "only_checks Q dep" "replaces_with Q w dep" "I s"
  shows "I (snd (ssh_Deploy w dep i s))"
proof -
  let ?d = "\<lparr>dk_prefix = None, dk_host = s\<rparr>"
  obtain r1 d1 where 1: "EnsureInstalled (sw_run w) ?d = (r1, d1)" by (rule prod.exhaust)
  obtain r2 d2 where 2: "docker_Inspect (sw_run w) (sw_json w) (ContainerName (dep_id dep)) d1 = (r2, d2)" by (rule prod.exhaust)
  have ok0: "dock_ok I ?d" using assms(4) by (simp add: dock_ok_def)
  have ok1: "dock_ok I d1" by (rule kept_ensure [OF assms(1) _ _ ok0 1]) (use assms(2,3) in \<open>simp_all add: only_checks_def replaces_with_def\<close>)
  have ok2: "dock_ok I d2" by (rule kept_inspect [OF assms(1) _ _ ok1 2]) (use assms(2) in \<open>simp_all add: only_checks_def\<close>)
  have "I (snd (ssh_settle w dep i c d2))" for c using kept_settle [OF assms(1,2) _ ok2] assms(3) by blast
  then show ?thesis using assms(4) dock_ok_host [OF ok1] dock_ok_host [OF ok2]
    by (simp add: ssh_Deploy_def Let_def 1 2 split: option.split sum.split)
qed

text \<open>The commands that stop or remove the registration agent's container.\<close>

definition agent_teardown :: "gostring \<Rightarrow> gostring \<Rightarrow> bool" where
  "agent_teardown ident cmd \<longleftrightarrow>
     (\<exists>p \<in> {[], ''sudo ''}. \<exists>v \<in> {''stop'', ''rm''}. cmd = p @ ''docker '' @ v @ '' '' @ shellEscape (AgentContainerName ident))"

lemma teardown_apart:
  "\<not> agent_teardown ident dockerInfo" "\<not> agent_teardown ident sudoDockerInfo" "\<not> agent_teardown ident checkDocker"
  "\<not> agent_teardown ident installDocker" "\<not> agent_teardown ident (health_command port)"
  "elevated (\<lambda>cmd. \<not> agent_teardown ident cmd) ('' inspect '' @ x)" "elevated (\<lambda>cmd. \<not> agent_teardown ident cmd) ('' pull '' @ x)"
  "elevated (\<lambda>cmd. \<not> agent_teardown ident cmd) ('' stop '' @ shellEscape (ContainerName ident'))"
  "elevated (\<lambda>cmd. \<not> agent_teardown ident cmd) ('' rm '' @ shellEscape (ContainerName ident'))"
  by (simp_all add: agent_teardown_def dockerInfo_def sudoDockerInfo_def checkDocker_def installDocker_def health_command_def elevated_def
      shellEscape_def ContainerName_def AgentContainerName_def)

lemma teardown_run:
  assumes "p \<in> {[], ''sudo ''}"
  shows "\<not> agent_teardown ident (join_with '' '' (run_args (p @ ''docker'') sp))"
    "\<not> agent_teardown ident (join_with '' '' (agent_run_args (p @ ''docker'') ident' img env script))"
  using assms by (auto simp: agent_teardown_def run_args_def agent_run_args_def)

text \<open>
  A deploy sends no command that stops or removes the agent's container, whatever the state it finds: also
  where it replaces a drifted engine container, whose network the agent shares.
\<close>

theorem deploy_spares_agent:
  assumes "\<And>cmd s. \<not> agent_teardown (dep_id dep) cmd \<Longrightarrow> up s \<Longrightarrow> up (snd (sw_run w cmd s))" "up s"
  shows "up (snd (ssh_Deploy w dep i s))"
proof -
  let ?Q = "\<lambda>cmd. \<not> agent_teardown (dep_id dep) cmd"
  have "kept_by (sw_run w) ?Q up" using assms(1) by (simp add: kept_by_def)
  moreover have "only_checks ?Q dep" unfolding only_checks_def probing_def by (intro conjI teardown_apart)
  moreover have "replaces_with ?Q w dep" unfolding replaces_with_def by (intro conjI ballI allI teardown_apart teardown_run)
  ultimately show ?thesis using kept_deploy [where Q = ?Q and I = up] assms(2) by blast
qed

text \<open>The commands that only look.\<close>

definition only_looks :: "deployment \<Rightarrow> gostring \<Rightarrow> bool" where
  "only_looks dep cmd \<longleftrightarrow>
     cmd \<in> {checkDocker, dockerInfo, sudoDockerInfo, health_command (dep_engine_port dep)}
     \<or> (\<exists>p \<in> {[], ''sudo ''}. cmd = p @ ''docker inspect '' @ shellEscape (ContainerName (dep_id dep)))"






text \<open>A machine that denies the plain docker commands and remembers whether it was only looked at.\<close>

definition watched_world :: "bool ssh_world" where
  "watched_world =
     \<lparr>sw_run = (\<lambda>cmd s. (if has_prefix cmd ''docker'' then Ran [] ''permission denied'' 1 else Ran ''200'' [] 0,
        s \<and> only_looks sample_dep cmd)),
      sw_json = (\<lambda>_. Inr [\<lparr>ij_id = ''c'', ij_image = dep_image sample_dep, ij_labels = [''iplane.model'' \<mapsto> dep_model sample_dep],
        ij_running = True, ij_status = ''running'', ij_exit_code = 0\<rparr>]),
      sw_dial = [Handshake], sw_now = 0, sw_polls = [], sw_env_order = [], sw_proc_env = (\<lambda>_. None), sw_version = [], sw_has_key = True\<rparr>"


text \<open>
  A deployment that leaves its port to the engine's default publishes none, but its health is asked at
  port 8000 of the machine.
\<close>

theorem default_port_unpublished:
  "dep_engine_port sample_dep = 0 \<and> ''-p'' \<notin> set (run_words (deploy_spec watched_world sample_dep))
   \<and> health_command (dep_engine_port sample_dep) = health_command 8000"
  by (simp add: sample_dep_def zero_deployment_def deploy_spec_def watched_world_def run_words_def env_words_def ordered_env_def
      List.map_filter_def bindMounts_def health_command_def ContainerName_def)

end
