(* ===== verification/Spec2Isabelle.thy ===== *)
theory Spec2Isabelle
  imports Queue_Wakeup Router_Serve Reaper Healthcheck Engine_Registry Instance_Service File_Store
    Engine_Plan Placement Engine_Agent Provider_Volumes Migration Cost Key_Registrars
    Slot_Provision SSH_Docker
begin

text \<open>
  This library models the control plane of \<^emph>\<open>inference-plane\<close>, a Go program that rents GPU machines,
  deploys inference engines on them and routes OpenAI-style requests to the engines.  Everything is
  translated from the sources under \<^verbatim>\<open>src/\<close>; file names below are relative to \<^verbatim>\<open>src/internal\<close>.

  \<^bold>\<open>The program.\<close>  A request enters the router (\<^verbatim>\<open>router/\<close>), which resolves tenant, priority and session,
  looks up the deployment, and either serves at once or submits to the scheduler (\<^verbatim>\<open>scheduler/\<close>), whose
  workers draw from two lanes of per-tenant queues (\<^verbatim>\<open>stores/queue\<close>) under a per-deployment in-flight
  cap.  The handler picks a replica by a policy (\<^verbatim>\<open>router/policy\<close>) among the members that have an
  endpoint and no quarantined machine, proxies the request and counts tokens in the response.  The
  provisioning service (\<^verbatim>\<open>provisioners/\<close>) owns the records: it creates, fans out, scales, patches and
  destroys deployments and instances through provider adapters, in a store that is a file under a lock
  (\<^verbatim>\<open>provisioners/stores/file\<close>).  The reaper (\<^verbatim>\<open>provisioners/lifecycle\<close>) destroys idle deployments, the
  health poll (\<^verbatim>\<open>healthcheck/\<close>) quarantines and restores replicas, the engine registry (\<^verbatim>\<open>engines/\<close>) keeps
  leases and drains members.  Before machines are rented the memory budget (\<^verbatim>\<open>vrambudget/\<close>), the
  parallelism checks and the candidate search decide what to rent; pinned models give warm mounts.

  \<^bold>\<open>Theories.\<close>
  \<^item> \<open>Prelude\<close>: Go integers with wrap-around, strings, timestamps, sums as results, shared lemmas.
  \<^item> \<open>Bounded_Queue\<close>, \<open>Queue_Wakeup\<close>: the in-memory queue as a sequential object, the pool that drains it,
    and the condition variable with its context waiter as a step relation (FIFO order, Stop drains,
    no lost wake-up).
  \<^item> \<open>Lane\<close>, \<open>Scheduler\<close>: a lane of tenant queues with the weighted lottery; workers, submissions and Stop as
    an interleaving step relation, where a push and the closing of a lane are split at the lane's mutex
    (in-flight cap, conservation of entries, Stop returns, what it abandons and which late push it leaves).
  \<^item> \<open>Policy\<close>, \<open>Records\<close>, \<open>Router_Select\<close>, \<open>Token_Counter\<close>, \<open>Router_Serve\<close>: round robin with its 64-bit counter
    and prefix affinity behind one locale; the protobuf records; the eligible set; the response
    writer that reads token usage from a stream; the handler, its queueing and its header rewriting.
  \<^item> \<open>Store\<close>, \<open>File_Store\<close>: the store contract as a locale, interpreted by a live state and by the file
    store, whose envelope, atomic write with faults and crashes, flock and lifetime lock are modelled
    system call by system call; a rename is lost in a crash as long as the directory is not synced, and
    every release function belongs to one lock (serialisability, crash atomicity, round trip).
  \<^item> \<open>Deployment_Ops\<close>, \<open>Instance_Service\<close>, \<open>Fanout\<close>: the operations of \<^verbatim>\<open>service.go\<close> and \<^verbatim>\<open>fanout.go\<close> on the state
    (what a destroy ends and leaves, which machine a record is bound to, a member is placed or handed back).
  \<^item> \<open>Reaper\<close>, \<open>Healthcheck\<close>, \<open>Engine_Registry\<close>: the three background loops as sequences of sweeps, ticks
    and registry calls.
  \<^item> \<open>Float_Rounding\<close>, \<open>Vram_Budget\<close>, \<open>Engine_Plan\<close>: rounding to 53 bits as a locale interpreted by \<open>fl64\<close> and
    by exact arithmetic; the budget, its verdicts, sweeps and session counts; engine arguments, the
    admission of a split and the preflight of a create (it sizes the plan the engine is given, and more cards
    never turn it against a deployment).
  \<^item> \<open>Placement\<close>, \<open>Pin\<close>: candidates of several providers and the cheapest placement; pinned volumes and the
    mounts they give.
  \<^item> \<open>Sku_Catalog\<close>: the fabric catalog, the cheapest-first resolver behind a locale interpreted by the
    three provider catalogs, and the marketplace query (every resolver returns the cheapest
    admissible cards, the prefilter is exact, the memory bands of variants are disjoint).
  \<^item> \<open>Phase_Refiner\<close>, \<open>Engine_Wait\<close>: refinement of phases by download readings, the abort rule, the observer
    that times phases, and the wait for an engine over a ladder of phases (locale \<open>phase_ladder\<close>).
  \<^item> \<open>Engine_Agent\<close>, \<open>Agent_Delivery\<close>: the agent on the machine (sensors, snapshot, lease loop) and how it
    gets there (shell quoting, wrapper, stamped environment); identity and quoting round trips.
  \<^item> \<open>Image_Deployers\<close>, \<open>Rented_Machines\<close>: Deploy and Destroy of the two image-native providers behind the
    locale \<open>image_deployer\<close>; a deploy concludes once, times each phase once, records the machine it
    rented where none is recorded, and makes a member the router can pick.
  \<^item> \<open>Provider_Adapters\<close>, \<open>Adapter_Contracts\<close>: renting, describing, listing and releasing a machine on the
    three adapters; what the service relies on from a listing is the locale \<open>instance_lister\<close>, which the
    three listings interpret (healing believes exactly the account; a machine whose record was lost is adopted as
    long as the listing and the description answer).
  \<^item> \<open>Provider_Volumes\<close>: cache volumes and the staging pod (locale \<open>volume_ensurer\<close>: ensuring is idempotent;
    a staging asks for its pod to be deleted and drops the error of that call).
  \<^item> \<open>Migration\<close>: the plan of a move to another provider, its growth and drain (a move that fails leaves the
    source as it was; the replicas it starts never back its own drain).
  \<^item> \<open>Cost\<close>: which recorded machines are on the meter, their seconds and spend, the rates of the providers
    file (uptime never falls under any operation of the service; a destroy makes the bill final until a
    remote description of the machine).
  \<^item> \<open>Create_Deployment\<close>, \<open>Slot_Provision\<close>: \<^verbatim>\<open>CreateDeployment\<close> from the request to the claim, then the placement and
    launch of every slot (what an admitted fleet has passed, a repeated create is adopted, the state of
    a fleet says exactly which slots came up).
  \<^item> \<open>Key_Registrars\<close>: registering the operator's key on three providers behind the locale \<open>key_registrar\<close>;
    the laws of the vendors are stated of their answers alone.
  \<^item> \<open>SSH_Docker\<close>: the deploy over SSH (\<^verbatim>\<open>deployments/sshdocker\<close>), an interpretation of \<open>image_deployer\<close>: docker commands
    sent to a machine that answers them (a shell reads the command lines as the words meant, a
    container that matches is only looked at).
  \<^item> This theory: properties of the composition (fan-out aggregate and router, drain and health poll).

  \<^bold>\<open>State and concurrency.\<close>  Code under one mutex, or one \<^verbatim>\<open>store.Update\<close>, is one step; goroutines are
  interleavings of such steps where the property depends on them (queue, scheduler, file store,
  registry) and sequences of steps elsewhere (fan-out, health poll).  Providers, deployers, the clock,
  the random draw, JSON decoding of bodies and \<^verbatim>\<open>protojson\<close> are arguments, with what is used of them as
  hypotheses.  Errors are values: a sum with the error on the left, or the status and code of the
  answer.  Log and message texts are kept only where another part reads them.

  \<^bold>\<open>Bounds.\<close>  Go's \<^verbatim>\<open>int\<close> and \<^verbatim>\<open>int64\<close> are integers reduced by \<open>wrap64\<close>, \<^verbatim>\<open>int32\<close> by \<open>wrap32\<close>, wherever the
  source computes with them.  \<open>sweep_loop\<close> is a partial function whose value is \<open>None\<close> when the loop does
  not end: it ends for limits below \<open>2 ^ 30\<close> and not above.  \<open>fl64\<close> rounds to 53 significant bits and leaves the
  exponent unbounded; the budgets it is applied to stay far below the range of a \<^verbatim>\<open>float64\<close>.  The write
  of the state file has six system calls, so a list of six outcomes covers every run of it.  All
  other functions are total.

  The wait for an engine takes the list of its rounds: it has no answer while the list is short, and
  \<open>wait_ends\<close> shows how many rounds are enough.

  \<^bold>\<open>Not modelled.\<close>  The HTTP clients of the providers (their calls are parameters) and the SSH client,
  telemetry export, the command line and web server (wiring), key files and model stores,
  generated code, migration of volumes, streaming of progress
  (\<^verbatim>\<open>WatchDeployment\<close>), and the operator-facing texts of placements.
\<close>

section \<open>Properties that span components\<close>

subsection \<open>Provisioning and routing\<close>

lemma not_running_refused:
  assumes "pa_headroom (Suc 0) (rt_policy rst)" and "forwardable dep = Some r"
  shows "fst (handleWithObservability en pa_Pick t req dep strip rst) = r"
proof -
  let ?c = "fst (pickReplica pa_Pick (sessionKey (hq_headers req) (hq_derived req))
      (Some (router_InFlight (rt_inflight rst))) dep (rt_policy rst))"
  have "choice_sound dep ?c" using prefix_affinity.pickReplica_sound [OF assms(1)] .
  then show ?thesis
    using assms(2) by (cases ?c) (simp_all add: handle_result choice_sound_def expected_result_def)
qed

text \<open>
  C5: The aggregate of a fan-out decides whether a fleet takes traffic.  When some but not all
  slots of a new deployment come up, or some slot of a scale-up fails, the record is DEGRADED and
  the router answers every request for it with 502 and contacts no engine, the healthy replicas
  included; when every slot comes up the record is RUNNING and the router is free to route.
\<close>

theorem partial_fleet_takes_no_traffic:
  assumes "st_deployments st d = Some dep" and "pa_headroom (Suc 0) (rt_policy rst)"
    and "st' = applyAggregateState d slots n reasons now st \<and> 0 < n \<and> n < slots
         \<or> st' = applyScaleAggregate d slots n reasons st \<and> n < slots"
  shows "\<exists>dep'. st_deployments st' d = Some dep' \<and> dep_state dep' = DDegraded
    \<and> dep_replicas dep' = dep_replicas dep
    \<and> fst (handleWithObservability en pa_Pick t req dep' strip rst) = HError 502 ''engine_unhealthy'' None"
proof -
  obtain dep' where dep': "st_deployments st' d = Some dep'" "dep_state dep' = DDegraded" "dep_replicas dep' = dep_replicas dep"
    using assms(1,3) by (auto simp: applyAggregateState_def applyScaleAggregate_def Let_def)
  then have "forwardable dep' = Some (HError 502 ''engine_unhealthy'' None)" by (simp add: forwardable_def)
  from not_running_refused [OF assms(2) this] dep' show ?thesis by blast
qed

theorem partial_fleet_takes_no_traffic_witness:
  "\<exists>dep'. st_deployments (applyScaleAggregate ''d'' 1 0 [] sample_state) ''d'' = Some dep'
    \<and> fst (handleWithObservability sample_env pa_Pick 9 sample_hrequest dep' False sample_rstate) = HError 502 ''engine_unhealthy'' None"
proof -
  have "st_deployments sample_state ''d'' = Some sample_single" by (simp add: sample_state_def)
  moreover have "pa_headroom (Suc 0) (rt_policy sample_rstate)" by (simp add: sample_rstate_def new_headroom)
  ultimately show ?thesis
    using partial_fleet_takes_no_traffic [of sample_state "''d''" sample_single sample_rstate
        "applyScaleAggregate ''d'' 1 0 [] sample_state" 1 0 "[]" 0 sample_env 9 sample_hrequest False] by auto
qed

text \<open>
  A partially failed fan-out, or a late aggregate, may also undo a destroy: the aggregate is written
  without a look at the state it replaces.
\<close>

theorem aggregate_revives_terminated:
  assumes "st_deployments st d = Some dep" and "dep_state dep = DTerminated"
  shows "map_option dep_state (st_deployments (applyAggregateState d n n [] now st) d) = Some DRunning"
  using assms by (simp add: applyAggregateState_def Let_def)

subsection \<open>Draining and the health poll\<close>

text \<open>
  A drain marks a replica unhealthy; the health poll, which sees an engine that still answers,
  takes the mark away with its next probe, and requests reach the replica again while the drain
  waits for it to empty.
\<close>

theorem health_poll_undoes_drain:
  assumes "st_deployments st d = Some dep" "i \<notin> set (dep_unhealthy dep)" "d \<noteq> []" "i \<noteq> []"
    and "streak_of (rn_streaks r) (streakKey d i) = (0, s)" "hc_success_threshold (rn_cfg r) \<le> s + 1"
    and "doProbe http ep"
  shows "st_deployments (snd (DrainReplicas cancelled m timeout True d [i] st)) d
           = Some (dep\<lparr>dep_unhealthy := dep_unhealthy dep @ [i]\<rparr>)
    \<and> st_deployments (snd (run_job http now \<lparr>pj_deploy = d, pj_instance = i, pj_endpoint = ep, pj_quarantined = True\<rparr>
        (r, snd (DrainReplicas cancelled m timeout True d [i] st)))) d = Some dep"
proof -
  have drained: "snd (DrainReplicas cancelled m timeout True d [i] st) = Quarantine d i st"
    using assms(3,4) by (simp add: DrainReplicas_def)
  have "snd (run_job http now \<lparr>pj_deploy = d, pj_instance = i, pj_endpoint = ep, pj_quarantined = True\<rparr> (r, Quarantine d i st))
      = Restore d i (Quarantine d i st)"
    using assms(5-) by (simp add: run_job_def probe_def Let_def bump_def)
  with drained assms(1-4) show ?thesis by (simp add: Quarantine_def Restore_def remove1_append)
qed

end
